(* ===== verification/Prelude.thy ===== *)
theory Prelude
  imports Main "HOL-Library.Word" "HOL-Library.Signed_Division"
begin

text \<open>
  What every component of the development shares: Rust's \<open>Result\<close> as a sum type with the
  \<open>?\<close> operator, \<open>i64\<close> arithmetic with its saturation written out on \<open>int\<close>, the fact
  collections, and generic lemmas on lists and options.
\<close>

section \<open>Results\<close>

text \<open>
  A Rust \<open>Result<T, E>\<close> is \<open>'e + 't\<close>, the error on the left. \<open>attempt r f\<close> is the \<open>?\<close>
  operator: an error leaves at once, a value goes on to the rest \<open>f\<close> of the body.
\<close>

named_theorems result_simps "equations and inversions of the result operations"

named_theorems wf_simps "well-formedness predicates of the components, unfolded"

definition attempt :: "'e + 'a \<Rightarrow> ('a \<Rightarrow> 'e + 'b) \<Rightarrow> 'e + 'b" where
  "attempt r f = (case r of Inl e \<Rightarrow> Inl e | Inr a \<Rightarrow> f a)"

definition map_err :: "('e \<Rightarrow> 'f) \<Rightarrow> 'e + 'a \<Rightarrow> 'f + 'a" where
  "map_err f r = (case r of Inl e \<Rightarrow> Inl (f e) | Inr a \<Rightarrow> Inr a)"

definition ok_or :: "'e \<Rightarrow> 'a option \<Rightarrow> 'e + 'a" where
  "ok_or e x = (case x of None \<Rightarrow> Inl e | Some a \<Rightarrow> Inr a)"

lemma attempt_Inl [simp]: "attempt (Inl e) f = Inl e"
  by (simp add: attempt_def)

lemma attempt_Inr [simp]: "attempt (Inr a) f = f a"
  by (simp add: attempt_def)

lemma map_err_Inl [simp]: "map_err f (Inl e) = Inl (f e)"
  by (simp add: map_err_def)

lemma map_err_Inr [simp]: "map_err f (Inr a) = Inr a"
  by (simp add: map_err_def)

lemma ok_or_None [simp]: "ok_or e None = Inl e"
  by (simp add: ok_or_def)

lemma ok_or_Some [simp]: "ok_or e (Some a) = Inr a"
  by (simp add: ok_or_def)

lemma attempt_eq_Inr [result_simps]:
  "attempt r f = Inr y \<longleftrightarrow> (\<exists>x. r = Inr x \<and> f x = Inr y)"
  by (cases r) simp_all

lemma attempt_eq_Inl [result_simps]:
  "attempt r f = Inl e \<longleftrightarrow> r = Inl e \<or> (\<exists>x. r = Inr x \<and> f x = Inl e)"
  by (cases r) auto

lemma map_err_eq_Inr [result_simps]: "map_err f r = Inr y \<longleftrightarrow> r = Inr y"
  by (cases r) simp_all

lemma map_err_eq_Inl [result_simps]: "map_err f r = Inl e \<longleftrightarrow> (\<exists>d. r = Inl d \<and> e = f d)"
  by (cases r) auto

lemma ok_or_eq_Inr [result_simps]: "ok_or e x = Inr y \<longleftrightarrow> x = Some y"
  by (cases x) simp_all

lemma ok_or_eq_Inl [result_simps]: "ok_or e x = Inl d \<longleftrightarrow> x = None \<and> d = e"
  by (cases x) auto

lemma attempt_cong [fundef_cong]:
  "r = r' \<Longrightarrow> (\<And>a. r' = Inr a \<Longrightarrow> f a = g a) \<Longrightarrow> attempt r f = attempt r' g"
  by (cases r') simp_all

section \<open>64-bit signed integers\<close>

text \<open>
  An \<open>i64\<close> is an \<open>int\<close> in the range \<open>in_i64\<close>. The operations the code uses on times saturate;
  \<open>sat\<close> writes the saturation out. Rust's \<open>/\<close> truncates towards zero, which is \<open>sdiv\<close>.
\<close>

definition i64_min :: int where
  "i64_min = - (2 ^ 63)"

definition i64_max :: int where
  "i64_max = 2 ^ 63 - 1"

definition in_i64 :: "int \<Rightarrow> bool" where
  "in_i64 n \<longleftrightarrow> i64_min \<le> n \<and> n \<le> i64_max"

definition sat :: "int \<Rightarrow> int" where
  "sat n = max i64_min (min i64_max n)"

definition sat_add :: "int \<Rightarrow> int \<Rightarrow> int" where
  "sat_add a b = sat (a + b)"

definition sat_sub :: "int \<Rightarrow> int \<Rightarrow> int" where
  "sat_sub a b = sat (a - b)"

definition sat_mul :: "int \<Rightarrow> int \<Rightarrow> int" where
  "sat_mul a b = sat (a * b)"

lemmas i64_defs = i64_min_def i64_max_def in_i64_def sat_def sat_add_def sat_sub_def sat_mul_def

lemma in_i64_sat [simp]: "in_i64 (sat n)"
  by (simp add: i64_defs)

lemma sat_id [simp]: "in_i64 n \<Longrightarrow> sat n = n"
  by (simp add: i64_defs)

lemma in_i64_sat_ops [simp]: "in_i64 (sat_add a b)" "in_i64 (sat_sub a b)" "in_i64 (sat_mul a b)"
  by (simp_all add: sat_add_def sat_sub_def sat_mul_def)

lemma sat_mono: "a \<le> b \<Longrightarrow> sat a \<le> sat b"
  by (auto simp: sat_def)

definition opt_in_i64 :: "int option \<Rightarrow> bool" where
  "opt_in_i64 x = (case x of None \<Rightarrow> True | Some n \<Rightarrow> in_i64 n)"

lemma opt_in_i64_simps [simp]: "opt_in_i64 None" "opt_in_i64 (Some n) = in_i64 n"
  by (simp_all add: opt_in_i64_def)

section \<open>Lists\<close>

lemma nth_drop_split:
  assumes "drop i b = x # rest"
  shows "i < length b" and "b ! i = x" and "drop (Suc i) b = rest"
proof -
  show i: "i < length b"
    using assms by (metis drop_all linorder_not_le list.distinct(1))
  show "b ! i = x" and "drop (Suc i) b = rest"
    using assms i by (simp_all add: Cons_nth_drop_Suc [symmetric])
qed

lemma drop_append_length: "drop i b = xs @ ys \<Longrightarrow> drop (i + length xs) b = ys"
  by (metis add.commute append_eq_conv_conj drop_drop)

lemma find_Some_set: "List.find P xs = Some x \<Longrightarrow> x \<in> set xs \<and> P x"
  by (auto simp: find_Some_iff)

lemma find_None_all: "List.find P xs = None \<longleftrightarrow> (\<forall>x \<in> set xs. \<not> P x)"
  by (auto simp: find_None_iff)

lemma length_map_upt: "length (map f [m..<n]) = n - m"
  and nth_map_upt: "i < n - m \<Longrightarrow> map f [m..<n] ! i = f (m + i)"
  and set_map_upt: "set (map f [m..<n]) = f ` {m..<n}"
  by simp_all

text \<open>\<open>Iterator::position\<close>: the index of the first element that satisfies the test.\<close>

fun position :: "('a \<Rightarrow> bool) \<Rightarrow> 'a list \<Rightarrow> nat option" where
  "position P [] = None"
| "position P (x # xs) = (if P x then Some 0 else map_option Suc (position P xs))"

lemma position_None: "position P xs = None \<longleftrightarrow> (\<forall>x \<in> set xs. \<not> P x)"
  by (induction xs) auto

lemma position_Some:
  "position P xs = Some i \<longleftrightarrow> i < length xs \<and> P (xs ! i) \<and> (\<forall>j < i. \<not> P (xs ! j))"
proof (induction xs arbitrary: i)
  case Nil
  then show ?case by simp
next
  case (Cons x xs)
  show ?case
    by (cases i) (auto simp: Cons.IH less_Suc_eq_0_disj)
qed

lemma position_mem: "position P xs = Some i \<Longrightarrow> xs ! i \<in> set xs \<and> P (xs ! i)"
  by (simp add: position_Some)

lemma position_split:
  assumes "position P xs = Some i"
  shows "xs = take i xs @ xs ! i # drop (Suc i) xs" and "P (xs ! i)"
    and "\<forall>x \<in> set (take i xs). \<not> P x"
  using assms by (auto simp: position_Some id_take_nth_drop in_set_conv_nth)

text \<open>\<open>Vec::remove\<close> at an index in range.\<close>

definition remove_at :: "nat \<Rightarrow> 'a list \<Rightarrow> 'a list" where
  "remove_at i xs = take i xs @ drop (Suc i) xs"

lemma set_remove_at_subset: "set (remove_at i xs) \<subseteq> set xs"
  unfolding remove_at_def by (auto dest: in_set_takeD in_set_dropD)

lemma map_remove_at: "map f (remove_at i xs) = remove_at i (map f xs)"
  by (simp add: remove_at_def take_map drop_map)

lemma distinct_remove_at: "distinct xs \<Longrightarrow> distinct (remove_at i xs)"
proof -
  assume d: "distinct xs"
  have "set (take i xs) \<inter> set (drop (Suc i) xs) = {}"
    using d set_take_disj_set_drop_if_distinct [of xs i "Suc i"] by simp
  then show "distinct (remove_at i xs)"
    using d by (simp add: remove_at_def)
qed

lemma remove_at_notin:
  assumes "distinct xs" "i < length xs"
  shows "xs ! i \<notin> set (remove_at i xs)"
proof -
  have "xs = take i xs @ xs ! i # drop (Suc i) xs"
    using assms(2) by (rule id_take_nth_drop)
  then have "distinct (take i xs @ xs ! i # drop (Suc i) xs)"
    using assms(1) by simp
  then show ?thesis by (simp add: remove_at_def)
qed

lemma length_remove_at: "i < length xs \<Longrightarrow> length (remove_at i xs) = length xs - 1"
  by (simp add: remove_at_def)

end
