(* ===== verification/RustStr.thy ===== *)
theory RustStr
  imports Prelude
begin

text \<open>
  Rust's text: \<open>char\<close> and \<open>str\<close> as code points, UTF-8 in both directions, and the pieces of the
  standard library the program calls on strings (trimming, splitting, case folding, decimal
  numbers, \<open>Debug\<close> quoting). Tables of the Unicode database (which scripts have letters, how
  they are lower-cased, which characters print) are a parameter, the record \<open>unicode\<close>, with
  their documented laws in \<open>unicode_laws\<close>.
\<close>

section \<open>Characters and strings\<close>

text \<open>
  A \<open>char\<close> is its code point and a \<open>str\<close> the list of its characters; \<open>valid_str\<close> says every
  code point is a Unicode scalar value, as Rust's type guarantees. \<open>lit\<close> writes a literal.
\<close>

type_synonym rchar = nat

type_synonym rstr = "rchar list"

type_synonym u8 = "8 word"
type_synonym u16 = "16 word"

definition scalar :: "rchar \<Rightarrow> bool" where
  "scalar c \<longleftrightarrow> c < 0xD800 \<or> (0xE000 \<le> c \<and> c < 0x110000)"

definition valid_str :: "rstr \<Rightarrow> bool" where
  "valid_str s = list_all scalar s"

definition lit :: "string \<Rightarrow> rstr" where
  "lit s = map of_char s"

lemma valid_str_simps [simp]:
  "valid_str []"
  "valid_str (c # s) \<longleftrightarrow> scalar c \<and> valid_str s"
  "valid_str (s @ t) \<longleftrightarrow> valid_str s \<and> valid_str t"
  by (simp_all add: valid_str_def)

lemma valid_strD: "valid_str s \<Longrightarrow> c \<in> set s \<Longrightarrow> scalar c"
  by (simp add: valid_str_def list_all_iff)

lemma valid_str_subset: "valid_str s \<Longrightarrow> set t \<subseteq> set s \<Longrightarrow> valid_str t"
  by (auto simp: valid_str_def list_all_iff)

lemma scalar_small [simp]: "c < 0xD800 \<Longrightarrow> scalar c"
  by (simp add: scalar_def)

lemma lit_Nil [simp]: "lit [] = []"
  by (simp add: lit_def)

lemma lit_Cons: "lit (c # s) = of_char c # lit s"
  by (simp add: lit_def)

lemma lit_append: "lit (s @ t) = lit s @ lit t"
  by (simp add: lit_def)

lemma lit_inject [simp]: "lit s = lit t \<longleftrightarrow> s = t"
proof -
  have "inj (of_char :: char \<Rightarrow> nat)"
    by (rule injI) simp
  then show ?thesis by (simp add: lit_def inj_map_eq_map)
qed

lemma valid_str_lit [simp]: "valid_str (lit s)"
proof -
  have "scalar (of_char c)" for c :: char
    using nat_of_char_less_256 [of c] by (intro scalar_small) linarith
  then show ?thesis by (induction s) (simp_all add: lit_Cons)
qed

section \<open>UTF-8\<close>

definition byte :: "nat \<Rightarrow> u8" where
  "byte n = of_nat n"

lemma unat_byte [simp]: "n < 256 \<Longrightarrow> unat (byte n) = n"
  by (simp add: byte_def unat_of_nat)

lemma byte_unat [simp]: "byte (unat b) = b"
  by (simp add: byte_def)

lemma unat_u8_less [simp]: "unat (b :: u8) < 256"
  using unsigned_less [of b, where 'a = nat] by simp

lemma unat_u8_le [simp]: "unat (b :: u8) \<le> 255"
  using unat_u8_less [of b] by linarith

lemma unat_u8_not_gt [simp]: "\<not> 255 < unat (b :: u8)"
  using unat_u8_le [of b] by linarith

lemma unat_inject: "unat (a :: u8) = unat b \<longleftrightarrow> a = b"
  by (metis byte_unat)

lemma byte_inject: "m < 256 \<Longrightarrow> n < 256 \<Longrightarrow> byte m = byte n \<longleftrightarrow> m = n"
  by (metis unat_byte)

text \<open>\<open>char::encode_utf8\<close>, and \<open>str::as_bytes\<close> of a whole string.\<close>

definition utf8_char :: "rchar \<Rightarrow> u8 list" where
  "utf8_char c =
    (if c < 0x80 then [byte c]
     else if c < 0x800 then [byte (0xC0 + c div 64), byte (0x80 + c mod 64)]
     else if c < 0x10000 then
       [byte (0xE0 + c div 4096), byte (0x80 + c div 64 mod 64), byte (0x80 + c mod 64)]
     else
       [byte (0xF0 + c div 262144), byte (0x80 + c div 4096 mod 64),
        byte (0x80 + c div 64 mod 64), byte (0x80 + c mod 64)])"

definition utf8 :: "rstr \<Rightarrow> u8 list" where
  "utf8 s = concat (map utf8_char s)"

lemma utf8_Nil [simp]: "utf8 [] = []"
  by (simp add: utf8_def)

lemma utf8_Cons [simp]: "utf8 (c # s) = utf8_char c @ utf8 s"
  by (simp add: utf8_def)

lemma utf8_append [simp]: "utf8 (s @ t) = utf8 s @ utf8 t"
  by (simp add: utf8_def)

lemma utf8_char_ascii [simp]: "c < 0x80 \<Longrightarrow> utf8_char c = [byte c]"
  by (simp add: utf8_char_def)

lemma utf8_char_nonempty [simp]: "utf8_char c \<noteq> []"
  by (simp add: utf8_char_def)

text \<open>
  One step of the decoder \<open>from_utf8\<close> and \<open>from_utf8_lossy\<close> share: the next character and the
  bytes after it, or the bytes after the longest prefix of a character that was cut short or
  that no character can start with (the part \<open>from_utf8_lossy\<close> replaces by one U+FFFD).
\<close>

definition cont :: "u8 \<Rightarrow> bool" where
  "cont b \<longleftrightarrow> 0x80 \<le> unat b \<and> unat b < 0xC0"

definition utf8_second_ok :: "nat \<Rightarrow> u8 \<Rightarrow> bool" where
  "utf8_second_ok x b \<longleftrightarrow>
    (if x = 0xE0 then 0xA0 \<le> unat b \<and> unat b < 0xC0
     else if x = 0xED then 0x80 \<le> unat b \<and> unat b < 0xA0
     else if x = 0xF0 then 0x90 \<le> unat b \<and> unat b < 0xC0
     else if x = 0xF4 then 0x80 \<le> unat b \<and> unat b < 0x90
     else cont b)"

fun utf8_tail3 :: "nat \<Rightarrow> u8 list \<Rightarrow> u8 list + (rchar \<times> u8 list)" where
  "utf8_tail3 x (b1 # b2 # bs) =
    (if \<not> utf8_second_ok x b1 then Inl (b1 # b2 # bs)
     else if \<not> cont b2 then Inl (b2 # bs)
     else Inr ((x - 0xE0) * 4096 + (unat b1 - 0x80) * 64 + (unat b2 - 0x80), bs))"
| "utf8_tail3 x [b1] = (if utf8_second_ok x b1 then Inl [] else Inl [b1])"
| "utf8_tail3 x [] = Inl []"

fun utf8_tail4 :: "nat \<Rightarrow> u8 list \<Rightarrow> u8 list + (rchar \<times> u8 list)" where
  "utf8_tail4 x (b1 # b2 # b3 # bs) =
    (if \<not> utf8_second_ok x b1 then Inl (b1 # b2 # b3 # bs)
     else if \<not> cont b2 then Inl (b2 # b3 # bs)
     else if \<not> cont b3 then Inl (b3 # bs)
     else Inr ((x - 0xF0) * 262144 + (unat b1 - 0x80) * 4096 + (unat b2 - 0x80) * 64
               + (unat b3 - 0x80), bs))"
| "utf8_tail4 x [b1, b2] =
    (if \<not> utf8_second_ok x b1 then Inl [b1, b2] else if cont b2 then Inl [] else Inl [b2])"
| "utf8_tail4 x [b1] = (if utf8_second_ok x b1 then Inl [] else Inl [b1])"
| "utf8_tail4 x [] = Inl []"

fun utf8_next :: "u8 \<Rightarrow> u8 list \<Rightarrow> u8 list + (rchar \<times> u8 list)" where
  "utf8_next b0 bs =
    (let x = unat b0 in
     if x < 0x80 then Inr (x, bs)
     else if x < 0xC2 then Inl bs
     else if x < 0xE0 then
       (case bs of
          b1 # rest \<Rightarrow> if cont b1 then Inr ((x - 0xC0) * 64 + (unat b1 - 0x80), rest) else Inl bs
        | [] \<Rightarrow> Inl [])
     else if x < 0xF0 then utf8_tail3 x bs
     else if x < 0xF5 then utf8_tail4 x bs
     else Inl bs)"

lemma utf8_tail3_length:
  "utf8_tail3 x bs = Inl rest \<Longrightarrow> length rest \<le> length bs"
  "utf8_tail3 x bs = Inr (c, rest) \<Longrightarrow> length rest \<le> length bs"
  by (induction x bs rule: utf8_tail3.induct) (auto split: if_splits)

lemma utf8_tail4_length:
  "utf8_tail4 x bs = Inl rest \<Longrightarrow> length rest \<le> length bs"
  "utf8_tail4 x bs = Inr (c, rest) \<Longrightarrow> length rest \<le> length bs"
  by (induction x bs rule: utf8_tail4.induct) (auto split: if_splits)

lemma utf8_next_length:
  "utf8_next b bs = Inl rest \<Longrightarrow> length rest \<le> length bs"
  "utf8_next b bs = Inr (c, rest) \<Longrightarrow> length rest \<le> length bs"
  by (auto simp: Let_def split: if_splits list.splits dest: utf8_tail3_length utf8_tail4_length)

declare utf8_next.simps [simp del]

text \<open>\<open>String::from_utf8\<close> and \<open>String::from_utf8_lossy\<close>.\<close>

function utf8_decode :: "u8 list \<Rightarrow> rstr option" where
  "utf8_decode [] = Some []"
| "utf8_decode (b # bs) =
    (case utf8_next b bs of
       Inl rest \<Rightarrow> None
     | Inr (c, rest) \<Rightarrow> map_option ((#) c) (utf8_decode rest))"
  by pat_completeness auto
termination
  by (relation "measure length") (auto dest: utf8_next_length(2))

function utf8_lossy :: "u8 list \<Rightarrow> rstr" where
  "utf8_lossy [] = []"
| "utf8_lossy (b # bs) =
    (case utf8_next b bs of
       Inl rest \<Rightarrow> 0xFFFD # utf8_lossy rest
     | Inr (c, rest) \<Rightarrow> c # utf8_lossy rest)"
  by pat_completeness auto
termination
  by (relation "measure length") (auto dest: utf8_next_length)

lemma utf8_next_char:
  assumes "scalar c"
  shows "\<exists>b bs. utf8_char c = b # bs \<and> utf8_next b (bs @ rest) = Inr (c, rest)"
proof -
  have c: "c < 0x110000" and s: "c < 0xD800 \<or> 0xE000 \<le> c"
    using assms by (auto simp: scalar_def)
  consider "c < 0x80" | "0x80 \<le> c" "c < 0x800" | "0x800 \<le> c" "c < 0x10000"
    | "0x10000 \<le> c" "c < 0x110000"
    using c by linarith
  then show ?thesis
  proof cases
    case 1
    then show ?thesis by (simp add: utf8_next.simps)
  next
    case 2
    define a d where "a = c div 64" and "d = c mod 64"
    have c_eq: "c = a * 64 + d" and d: "d < 64"
      by (simp_all add: a_def d_def)
    with 2 have a: "2 \<le> a" "a < 32" by linarith+
    have "utf8_char c = [byte (0xC0 + a), byte (0x80 + d)]"
      using 2 by (simp add: utf8_char_def a_def d_def)
    moreover have "utf8_next (byte (0xC0 + a)) ([byte (0x80 + d)] @ rest) = Inr (c, rest)"
      using a d by (simp add: utf8_next.simps cont_def Let_def c_eq)
    ultimately show ?thesis by simp
  next
    case 3
    define a b d where "a = c div 64 div 64" and "b = c div 64 mod 64" and "d = c mod 64"
    have "c = (a * 64 + b) * 64 + d" and bd: "b < 64" "d < 64"
      by (simp_all add: a_def b_def d_def)
    then have c_eq: "c = a * 4096 + b * 64 + d" by simp
    with 3 s bd have a: "a < 16" "a = 0 \<Longrightarrow> 32 \<le> b" "a = 13 \<Longrightarrow> b < 32" by auto
    have "utf8_char c = [byte (0xE0 + a), byte (0x80 + b), byte (0x80 + d)]"
      using 3 by (simp add: utf8_char_def a_def b_def d_def flip: div_mult2_eq)
    moreover have "utf8_next (byte (0xE0 + a)) ([byte (0x80 + b), byte (0x80 + d)] @ rest)
        = Inr (c, rest)"
      using a bd by (auto simp: utf8_next.simps utf8_second_ok_def cont_def Let_def c_eq)
    ultimately show ?thesis by simp
  next
    case 4
    define a b d e where "a = c div 64 div 64 div 64" and "b = c div 64 div 64 mod 64"
      and "d = c div 64 mod 64" and "e = c mod 64"
    have "c = ((a * 64 + b) * 64 + d) * 64 + e" and bde: "b < 64" "d < 64" "e < 64"
      by (simp_all add: a_def b_def d_def e_def)
    then have c_eq: "c = a * 262144 + b * 4096 + d * 64 + e" by simp
    with 4 bde have a: "a < 5" "a = 0 \<Longrightarrow> 16 \<le> b" "a = 4 \<Longrightarrow> b < 16" by auto
    have "utf8_char c = [byte (0xF0 + a), byte (0x80 + b), byte (0x80 + d), byte (0x80 + e)]"
      using 4 by (simp add: utf8_char_def a_def b_def d_def e_def flip: div_mult2_eq)
    moreover have "utf8_next (byte (0xF0 + a)) ([byte (0x80 + b), byte (0x80 + d), byte (0x80 + e)] @ rest)
        = Inr (c, rest)"
      using a bde by (auto simp: utf8_next.simps utf8_second_ok_def cont_def Let_def c_eq)
    ultimately show ?thesis by simp
  qed
qed

theorem utf8_decode_utf8_append:
  "valid_str s \<Longrightarrow> utf8_decode (utf8 s @ bs) = map_option ((@) s) (utf8_decode bs)"
proof (induction s)
  case Nil
  then show ?case by (cases "utf8_decode bs") simp_all
next
  case (Cons c s)
  then obtain b cs where "utf8_char c = b # cs"
    and "utf8_next b (cs @ utf8 s @ bs) = Inr (c, utf8 s @ bs)"
    using utf8_next_char [of c "utf8 s @ bs"] by auto
  with Cons show ?case
    by (cases "utf8_decode bs") simp_all
qed

lemma utf8_decode_utf8 [simp]: "valid_str s \<Longrightarrow> utf8_decode (utf8 s) = Some s"
  using utf8_decode_utf8_append [of s "[]"] by simp


lemma utf8_lossy_utf8 [simp]: "valid_str s \<Longrightarrow> utf8_lossy (utf8 s) = s"
proof (induction s)
  case Nil
  then show ?case by simp
next
  case (Cons c s)
  then obtain b cs where "utf8_char c = b # cs"
    and "utf8_next b (cs @ utf8 s) = Inr (c, utf8 s)"
    using utf8_next_char [of c "utf8 s"] by auto
  with Cons show ?case by simp
qed

text \<open>The other direction: the decoder accepts nothing but the encoding of what it returns.\<close>

lemma byte_plus: "k \<le> unat b \<Longrightarrow> byte (k + (unat b - k)) = b"
  by simp

lemma byte_eqI: "unat b = n \<Longrightarrow> byte n = b"
  by auto

lemma horner64:
  fixes c :: nat
  assumes "c = q * 64 + d" "d < 64"
  shows "c div 64 = q" and "c mod 64 = d"
  using assms by simp_all

lemma utf8_tail3_sound:
  assumes "utf8_tail3 x bs = Inr (c, rest)" and "0xE0 \<le> x" "x < 0xF0"
  shows "scalar c \<and> byte x # bs = utf8_char c @ rest"
  using assms
proof (induction x bs rule: utf8_tail3.induct)
  case (1 x b1 b2 bs)
  define a b d where "a = x - 0xE0" and "b = unat b1 - 0x80" and "d = unat b2 - 0x80"
  from 1 have ok: "utf8_second_ok x b1" "cont b2" and rest: "rest = bs"
    and c: "c = a * 4096 + b * 64 + d"
    by (auto simp: a_def b_def d_def split: if_splits)
  from ok have b1: "unat b1 = 0x80 + b" and b2: "unat b2 = 0x80 + d" and bd: "b < 64" "d < 64"
    by (auto simp: utf8_second_ok_def cont_def b_def d_def split: if_splits)
  have x: "x = 0xE0 + a" and a: "a < 16" using 1(2,3) by (simp_all add: a_def)
  have lo: "a = 0 \<Longrightarrow> 32 \<le> b" "a = 13 \<Longrightarrow> b < 32"
    using ok(1) b1 by (auto simp: utf8_second_ok_def x)
  have h: "c = (a * 64 + b) * 64 + d" by (simp add: c)
  have "c div 64 = a * 64 + b" "c mod 64 = d" by (rule horner64 [OF h bd(2)])+
  moreover have "c div 64 div 64 = c div 4096" by (simp flip: div_mult2_eq)
  ultimately have "c div 4096 = a" "c div 64 mod 64 = b" "c mod 64 = d"
    using bd by simp_all
  moreover have "0x800 \<le> c" using lo(1) by (cases "a = 0") (auto simp: c)
  moreover have "c < 0x10000" using a bd by (simp add: c)
  moreover have "scalar c"
    using lo(2) a bd by (cases "a < 13"; cases "a = 13") (auto simp: c scalar_def)
  ultimately have "utf8_char c = [byte x, byte (0x80 + b), byte (0x80 + d)]"
    by (simp add: utf8_char_def x)
  then show ?case
    using \<open>scalar c\<close> byte_eqI [OF b1] byte_eqI [OF b2] rest by simp
qed (auto split: if_splits)

lemma utf8_tail4_sound:
  assumes "utf8_tail4 x bs = Inr (c, rest)" and "0xF0 \<le> x" "x < 0xF5"
  shows "scalar c \<and> byte x # bs = utf8_char c @ rest"
  using assms
proof (induction x bs rule: utf8_tail4.induct)
  case (1 x b1 b2 b3 bs)
  define a b d e where "a = x - 0xF0" and "b = unat b1 - 0x80" and "d = unat b2 - 0x80"
    and "e = unat b3 - 0x80"
  from 1 have ok: "utf8_second_ok x b1" "cont b2" "cont b3" and rest: "rest = bs"
    and c: "c = a * 262144 + b * 4096 + d * 64 + e"
    by (auto simp: a_def b_def d_def e_def split: if_splits)
  from ok have b1: "unat b1 = 0x80 + b" and b2: "unat b2 = 0x80 + d" and b3: "unat b3 = 0x80 + e"
    and bde: "b < 64" "d < 64" "e < 64"
    by (auto simp: utf8_second_ok_def cont_def b_def d_def e_def split: if_splits)
  have x: "x = 0xF0 + a" and a: "a < 5" using 1(2,3) by (simp_all add: a_def)
  have lo: "a = 0 \<Longrightarrow> 16 \<le> b" "a = 4 \<Longrightarrow> b < 16"
    using ok(1) b1 by (auto simp: utf8_second_ok_def x)
  have h: "c = ((a * 64 + b) * 64 + d) * 64 + e" by (simp add: c)
  note h1 = horner64 [OF h bde(3)]
    and h2 = horner64 [OF refl bde(2), of "a * 64 + b"]
    and h3 = horner64 [OF refl bde(1), of a]
  have e: "c div 4096 = c div 64 div 64" "c div 262144 = c div 64 div 64 div 64"
    by (simp_all flip: div_mult2_eq)
  have "c div 262144 = a" "c div 4096 mod 64 = b" "c div 64 mod 64 = d" "c mod 64 = e"
    by (simp_all only: e h1 h2 h3)
  moreover have "0x10000 \<le> c" using lo(1) by (cases "a = 0") (auto simp: c)
  moreover from this have "scalar c"
    using lo(2) a bde by (cases "a = 4") (auto simp: c scalar_def)
  ultimately have "utf8_char c = [byte x, byte (0x80 + b), byte (0x80 + d), byte (0x80 + e)]"
    by (simp add: utf8_char_def x)
  then show ?case
    using \<open>scalar c\<close> byte_eqI [OF b1] byte_eqI [OF b2] byte_eqI [OF b3] rest by simp
qed (auto split: if_splits)

lemma utf8_next_sound:
  assumes "utf8_next b bs = Inr (c, rest)"
  shows "scalar c \<and> b # bs = utf8_char c @ rest"
proof -
  consider "unat b < 0x80" | "0x80 \<le> unat b" "unat b < 0xC2" | "0xC2 \<le> unat b" "unat b < 0xE0"
    | "0xE0 \<le> unat b" "unat b < 0xF0" | "0xF0 \<le> unat b" "unat b < 0xF5" | "0xF5 \<le> unat b"
    by linarith
  then show ?thesis
  proof cases
    case 3
    with assms obtain b1 where bs: "bs = b1 # rest" and "cont b1"
      and c: "c = (unat b - 0xC0) * 64 + (unat b1 - 0x80)"
      by (auto simp: utf8_next.simps Let_def split: list.splits if_splits)
    define a d where "a = unat b - 0xC0" and "d = unat b1 - 0x80"
    have b: "unat b = 0xC0 + a" "2 \<le> a" "a < 32" and b1: "unat b1 = 0x80 + d" "d < 64"
      using 3 \<open>cont b1\<close> by (auto simp: cont_def a_def d_def)
    have c_eq: "c = a * 64 + d" by (simp add: c a_def d_def)
    then have "c div 64 = a" "c mod 64 = d" "0x80 \<le> c" "c < 0x800"
      using b b1 by simp_all
    then have "utf8_char c = [byte (0xC0 + a), byte (0x80 + d)]" and "scalar c"
      by (simp_all add: utf8_char_def)
    then show ?thesis
      using byte_eqI [OF b(1)] byte_eqI [OF b1(1)] bs by simp
  next
    case 4
    with assms show ?thesis
      using utf8_tail3_sound [of "unat b" bs c rest] by (auto simp: utf8_next.simps Let_def)
  next
    case 5
    with assms show ?thesis
      using utf8_tail4_sound [of "unat b" bs c rest] by (auto simp: utf8_next.simps Let_def)
  qed (use assms in \<open>auto simp: utf8_next.simps Let_def\<close>)
qed

lemma utf8_decode_sound: "utf8_decode bs = Some s \<Longrightarrow> valid_str s \<and> utf8 s = bs"
proof (induction bs arbitrary: s rule: utf8_decode.induct)
  case (2 b bs)
  then show ?case
    by (auto split: sum.splits dest: utf8_next_sound)
qed simp

lemma utf8_inject: "valid_str s \<Longrightarrow> valid_str t \<Longrightarrow> utf8 s = utf8 t \<longleftrightarrow> s = t"
  by (metis option.inject utf8_decode_utf8)

lemma valid_str_lossy: "valid_str (utf8_lossy bs)"
proof (induction bs rule: utf8_lossy.induct)
  case (2 b bs)
  then show ?case
    by (auto split: sum.splits dest: utf8_next_sound simp: scalar_def)
qed simp

end
