(* ===== verification/RustText.thy ===== *)
theory RustText
  imports RustStr
begin

text \<open>
  The operations of \<open>str\<close> and \<open>char\<close> that the program calls: white space, trimming, splitting,
  ASCII case, decimal numbers printed and parsed, \<open>Debug\<close> quoting, and the Unicode tables.
\<close>

section \<open>Character classes\<close>

definition is_digit :: "rchar \<Rightarrow> bool" where
  "is_digit c \<longleftrightarrow> 48 \<le> c \<and> c \<le> 57"

definition is_upper :: "rchar \<Rightarrow> bool" where
  "is_upper c \<longleftrightarrow> 65 \<le> c \<and> c \<le> 90"

definition is_lower :: "rchar \<Rightarrow> bool" where
  "is_lower c \<longleftrightarrow> 97 \<le> c \<and> c \<le> 122"

definition is_ascii_alnum :: "rchar \<Rightarrow> bool" where
  "is_ascii_alnum c \<longleftrightarrow> is_digit c \<or> is_upper c \<or> is_lower c"

definition ascii_lower :: "rchar \<Rightarrow> rchar" where
  "ascii_lower c = (if is_upper c then c + 32 else c)"

definition ascii_upper :: "rchar \<Rightarrow> rchar" where
  "ascii_upper c = (if is_lower c then c - 32 else c)"

definition eq_ignore_case :: "rstr \<Rightarrow> rstr \<Rightarrow> bool" where
  "eq_ignore_case s t \<longleftrightarrow> map ascii_lower s = map ascii_lower t"

text \<open>\<open>char::is_whitespace\<close>: the Unicode property \<open>White_Space\<close>, which is a closed list.\<close>

definition is_ws :: "rchar \<Rightarrow> bool" where
  "is_ws c \<longleftrightarrow> (9 \<le> c \<and> c \<le> 13) \<or> c = 32 \<or> c = 0x85 \<or> c = 0xA0 \<or> c = 0x1680
     \<or> (0x2000 \<le> c \<and> c \<le> 0x200A) \<or> c = 0x2028 \<or> c = 0x2029 \<or> c = 0x202F
     \<or> c = 0x205F \<or> c = 0x3000"

lemmas char_class_defs = is_digit_def is_upper_def is_lower_def is_ascii_alnum_def

lemma ascii_lower_idem [simp]: "ascii_lower (ascii_lower c) = ascii_lower c"
  by (auto simp: ascii_lower_def is_upper_def)

lemma ascii_upper_idem [simp]: "ascii_upper (ascii_upper c) = ascii_upper c"
  by (auto simp: ascii_upper_def is_lower_def)

lemma ascii_lower_bound: "c < 0x80 \<Longrightarrow> ascii_lower c < 0x80"
  by (auto simp: ascii_lower_def is_upper_def)

lemma is_digit_not_ws [simp]: "is_digit c \<Longrightarrow> \<not> is_ws c"
  by (auto simp: is_digit_def is_ws_def)

lemma is_ascii_alnum_not_ws [simp]: "is_ascii_alnum c \<Longrightarrow> \<not> is_ws c"
  by (auto simp: char_class_defs is_ws_def)

section \<open>The Unicode tables\<close>

text \<open>
  What Rust's standard library reads from the Unicode character database: which characters are
  alphabetic or numeric, how a string is lower-cased, and (for \<open>Debug\<close>) which characters extend
  a grapheme and which print. The laws are what the documentation of \<open>is_alphanumeric\<close> and
  \<open>to_lowercase\<close> promises on ASCII and in general.
\<close>

record unicode =
  u_alnum :: "rchar \<Rightarrow> bool"
  u_lower :: "rstr \<Rightarrow> rstr"
  u_extend :: "rchar \<Rightarrow> bool"
  u_print :: "rchar \<Rightarrow> bool"

definition unicode_laws :: "unicode \<Rightarrow> bool" where
  "unicode_laws u \<longleftrightarrow>
     (\<forall>c < 0x80. u_alnum u c = is_ascii_alnum c) \<and>
     (\<forall>c. u_alnum u c \<longrightarrow> \<not> is_ws c) \<and>
     (\<forall>s. (\<forall>c \<in> set s. c < 0x80) \<longrightarrow> u_lower u s = map ascii_lower s) \<and>
     (\<forall>s. u_lower u (u_lower u s) = u_lower u s) \<and>
     (\<forall>s. s \<noteq> [] \<longrightarrow> u_lower u s \<noteq> []) \<and>
     (\<forall>s. valid_str s \<longrightarrow> valid_str (u_lower u s))"

text \<open>The tables cut down to ASCII, on which the laws hold and closed instances evaluate.\<close>

definition ascii_unicode :: unicode where
  "ascii_unicode = \<lparr>u_alnum = is_ascii_alnum, u_lower = map ascii_lower,
     u_extend = (\<lambda>c. False), u_print = (\<lambda>c. 32 \<le> c \<and> c < 127)\<rparr>"

lemma unicode_laws_ascii: "unicode_laws ascii_unicode"
proof -
  have "scalar (ascii_lower c)" if "scalar c" for c
    using that by (auto simp: ascii_lower_def is_upper_def scalar_def)
  then have "valid_str s \<longrightarrow> valid_str (map ascii_lower s)" for s
    by (induction s) auto
  then show ?thesis by (simp add: unicode_laws_def ascii_unicode_def)
qed

section \<open>Trimming and splitting\<close>

definition trim_start :: "rstr \<Rightarrow> rstr" where
  "trim_start s = dropWhile is_ws s"

definition trim_end :: "rstr \<Rightarrow> rstr" where
  "trim_end s = rev (dropWhile is_ws (rev s))"

definition trim :: "rstr \<Rightarrow> rstr" where
  "trim s = trim_end (trim_start s)"

text \<open>\<open>str::trim_end_matches\<close> and \<open>str::strip_suffix\<close> with a character.\<close>

definition trim_end_matches :: "rchar \<Rightarrow> rstr \<Rightarrow> rstr" where
  "trim_end_matches x s = rev (dropWhile (\<lambda>c. c = x) (rev s))"

definition strip_suffix_char :: "rchar \<Rightarrow> rstr \<Rightarrow> rstr option" where
  "strip_suffix_char x s = (if s \<noteq> [] \<and> last s = x then Some (butlast s) else None)"

definition strip_prefix :: "rstr \<Rightarrow> rstr \<Rightarrow> rstr option" where
  "strip_prefix p s = (if take (length p) s = p then Some (drop (length p) s) else None)"

text \<open>\<open>str::split_once\<close>: at the first occurrence.\<close>

fun split_once :: "rchar \<Rightarrow> rstr \<Rightarrow> (rstr \<times> rstr) option" where
  "split_once x [] = None"
| "split_once x (c # s) =
    (if c = x then Some ([], s) else map_option (\<lambda>(a, b). (c # a, b)) (split_once x s))"

text \<open>\<open>str::split\<close>: always at least one piece.\<close>

fun split_on :: "rchar \<Rightarrow> rstr \<Rightarrow> rstr list" where
  "split_on x [] = [[]]"
| "split_on x (c # s) =
    (if c = x then [] # split_on x s
     else (case split_on x s of [] \<Rightarrow> [[c]] | p # ps \<Rightarrow> (c # p) # ps))"

text \<open>
  \<open>str::lines\<close>: pieces that end in a line feed lose it and a carriage return before it; what
  follows the last line feed is a line when it is not empty.
\<close>

definition strip_cr :: "rstr \<Rightarrow> rstr" where
  "strip_cr l = (if l \<noteq> [] \<and> last l = 13 then butlast l else l)"

definition lines :: "rstr \<Rightarrow> rstr list" where
  "lines s = (let ps = split_on 10 s in
     map strip_cr (butlast ps) @ (if last ps = [] then [] else [last ps]))"

lemma trim_id:
  assumes "\<forall>c \<in> set s. \<not> is_ws c"
  shows "trim s = s"
proof -
  have d: "dropWhile is_ws t = t" if "\<forall>c \<in> set t. \<not> is_ws c" for t
    using that by (cases t) auto
  have "dropWhile is_ws (rev s) = rev s" by (rule d) (simp add: assms)
  then show ?thesis by (simp add: trim_def trim_start_def trim_end_def d [OF assms])
qed

lemma set_trim: "set (trim s) \<subseteq> set s"
  by (auto simp: trim_def trim_start_def trim_end_def dest!: set_dropWhileD)

lemma valid_str_trim [simp]: "valid_str s \<Longrightarrow> valid_str (trim s)"
  by (rule valid_str_subset [OF _ set_trim])

lemma split_once_append:
  "x \<notin> set a \<Longrightarrow> split_once x (a @ x # b) = Some (a, b)"
  by (induction a) auto

lemma split_once_None: "split_once x s = None \<longleftrightarrow> x \<notin> set s"
  by (induction s) auto

lemma split_once_Some: "split_once x s = Some (a, b) \<longleftrightarrow> x \<notin> set a \<and> s = a @ x # b"
proof (induction s arbitrary: a)
  case Nil
  then show ?case by simp
next
  case (Cons c s)
  show ?case
    by (cases a) (auto simp: Cons.IH)
qed

lemma split_on_nonempty [simp]: "split_on x s \<noteq> []"
  by (cases s) (auto split: list.splits)

lemma split_on_no [simp]: "x \<notin> set s \<Longrightarrow> split_on x s = [s]"
  by (induction s) auto

lemma split_on_append [simp]:
  "x \<notin> set a \<Longrightarrow> split_on x (a @ x # b) = a # split_on x b"
  by (induction a) auto

lemma lines_Cons:
  assumes "10 \<notin> set l"
  shows "lines (l @ 10 # s) = strip_cr l # lines s"
  using assms by (simp add: lines_def Let_def)

lemma lines_Nil [simp]: "lines [] = []"
  by (simp add: lines_def)

lemma strip_cr_id: "13 \<notin> set l \<Longrightarrow> strip_cr l = l"
  by (metis last_in_set strip_cr_def)

section \<open>Decimal numbers\<close>

fun dec_nat :: "nat \<Rightarrow> rstr" where
  "dec_nat n = (if n < 10 then [48 + n] else dec_nat (n div 10) @ [48 + n mod 10])"

declare dec_nat.simps [simp del]

definition show_int :: "int \<Rightarrow> rstr" where
  "show_int n = (if n < 0 then 45 # dec_nat (nat (- n)) else dec_nat (nat n))"

definition dec_value :: "rstr \<Rightarrow> nat" where
  "dec_value s = foldl (\<lambda>a c. a * 10 + (c - 48)) 0 s"

text \<open>\<open>from_str\<close> of the unsigned and of the signed integer types.\<close>

definition parse_unsigned :: "nat \<Rightarrow> rstr \<Rightarrow> nat option" where
  "parse_unsigned m s =
    (let ds = (case s of c # r \<Rightarrow> if c = 43 \<and> r \<noteq> [] then r else s | [] \<Rightarrow> [])
     in if ds = [] \<or> \<not> list_all is_digit ds then None
        else if dec_value ds \<le> m then Some (dec_value ds) else None)"

definition parse_i64 :: "rstr \<Rightarrow> int option" where
  "parse_i64 s =
    (let neg = (case s of c # r \<Rightarrow> c = 45 \<and> r \<noteq> [] | [] \<Rightarrow> False);
         ds = (case s of c # r \<Rightarrow> if (c = 45 \<or> c = 43) \<and> r \<noteq> [] then r else s | [] \<Rightarrow> []);
         n = (if neg then - int (dec_value ds) else int (dec_value ds))
     in if ds = [] \<or> \<not> list_all is_digit ds then None
        else if in_i64 n then Some n else None)"

lemma dec_nat_nonempty [simp]: "dec_nat n \<noteq> []"
  by (subst dec_nat.simps) simp

lemma dec_nat_digits [simp]: "list_all is_digit (dec_nat n)"
proof (induction n rule: dec_nat.induct)
  case (1 n)
  show ?case
  proof (cases "n < 10")
    case True
    then show ?thesis by (subst dec_nat.simps) (simp add: is_digit_def)
  next
    case False
    have "is_digit (48 + n mod 10)"
      using mod_less_divisor [of 10 n] by (simp add: is_digit_def)
    with False 1 show ?thesis by (subst dec_nat.simps) simp
  qed
qed

lemma dec_nat_digit: "c \<in> set (dec_nat n) \<Longrightarrow> is_digit c"
  using dec_nat_digits [of n] by (simp add: list_all_iff)

lemma dec_nat_notin [simp]: "\<not> is_digit c \<Longrightarrow> c \<notin> set (dec_nat n)"
  using dec_nat_digit by blast

lemma dec_value_snoc [simp]: "dec_value (s @ [c]) = dec_value s * 10 + (c - 48)"
  by (simp add: dec_value_def)

lemma dec_value_dec_nat [simp]: "dec_value (dec_nat n) = n"
proof (induction n rule: dec_nat.induct)
  case (1 n)
  show ?case
  proof (cases "n < 10")
    case True
    then show ?thesis by (subst dec_nat.simps) (simp add: dec_value_def)
  next
    case False
    with 1 show ?thesis by (subst dec_nat.simps) simp
  qed
qed

lemma dec_nat_inject: "dec_nat m = dec_nat n \<longleftrightarrow> m = n"
  by (metis dec_value_dec_nat)

lemma hd_dec_nat: "hd (dec_nat n) = 48 \<longleftrightarrow> n = 0"
proof (induction n rule: dec_nat.induct)
  case (1 n)
  then show ?case
    by (cases "n < 10") (simp_all add: dec_nat.simps [of n] div_eq_0_iff)
qed

lemma length_dec_nat: "length (dec_nat n) = 1 \<longleftrightarrow> n < 10"
  by (subst dec_nat.simps) simp

lemma length_dec_nat_le3: "n < 1000 \<Longrightarrow> length (dec_nat n) \<le> 3"
  by (simp add: dec_nat.simps [of n] dec_nat.simps [of "n div 10"] dec_nat.simps [of "n div 10 div 10"])

lemma valid_str_digits: "list_all is_digit s \<Longrightarrow> valid_str s"
  by (induction s) (auto simp: is_digit_def)

lemma valid_str_dec_nat [simp]: "valid_str (dec_nat n)"
  by (rule valid_str_digits) simp

lemma valid_str_show_int [simp]: "valid_str (show_int n)"
  by (simp add: show_int_def)

lemma dec_nat_cons:
  obtains c r where "dec_nat n = c # r" "is_digit c"
  by (metis dec_nat_nonempty dec_nat_digit list.exhaust list.set_intros(1))

lemma parse_unsigned_dec_nat [simp]: "parse_unsigned m (dec_nat n) = (if n \<le> m then Some n else None)"
proof -
  obtain c r where d: "dec_nat n = c # r" and "is_digit c"
    by (rule dec_nat_cons)
  then have c: "c \<noteq> 43" by (auto simp: is_digit_def)
  have "list_all is_digit (c # r)" "dec_value (c # r) = n"
    using dec_nat_digits [of n] dec_value_dec_nat [of n] by (simp_all only: d)
  with c show ?thesis
    by (simp add: parse_unsigned_def d)
qed

lemma parse_i64_show_int [simp]: "in_i64 n \<Longrightarrow> parse_i64 (show_int n) = Some n"
proof -
  assume n: "in_i64 n"
  obtain c r where d: "dec_nat (nat \<bar>n\<bar>) = c # r" and c: "is_digit c"
    by (rule dec_nat_cons)
  have "list_all is_digit (c # r)" "dec_value (c # r) = nat \<bar>n\<bar>"
    using dec_nat_digits [of "nat \<bar>n\<bar>"] dec_value_dec_nat [of "nat \<bar>n\<bar>"] by (simp_all only: d)
  with c d n show ?thesis
    by (auto simp: parse_i64_def show_int_def is_digit_def Let_def)
qed

section \<open>Debug quoting\<close>

definition hex_digit :: "nat \<Rightarrow> rchar" where
  "hex_digit d = (if d < 10 then 48 + d else 87 + d)"

fun hex_nat :: "nat \<Rightarrow> rstr" where
  "hex_nat n = (if n < 16 then [hex_digit n] else hex_nat (n div 16) @ [hex_digit (n mod 16)])"

declare hex_nat.simps [simp del]

text \<open>\<open>char::escape_debug_ext\<close> with the flags that \<open>Debug\<close> of \<open>char\<close> and of \<open>str\<close> pass.\<close>

definition escape_debug :: "unicode \<Rightarrow> bool \<Rightarrow> bool \<Rightarrow> rchar \<Rightarrow> rstr" where
  "escape_debug u single double c =
    (if c = 0 then lit [CHR 0x5C, CHR ''0'']
     else if c = 9 then lit [CHR 0x5C, CHR ''t'']
     else if c = 13 then lit [CHR 0x5C, CHR ''r'']
     else if c = 10 then lit [CHR 0x5C, CHR ''n'']
     else if c = 92 then [92, 92]
     else if c = 34 \<and> double then [92, 34]
     else if c = 39 \<and> single then [92, 39]
     else if u_extend u c \<or> \<not> u_print u c then [92, 117, 123] @ hex_nat c @ [125]
     else [c])"

definition debug_str :: "unicode \<Rightarrow> rstr \<Rightarrow> rstr" where
  "debug_str u s = 34 # concat (map (escape_debug u False True) s) @ [34]"

definition debug_char :: "unicode \<Rightarrow> rchar \<Rightarrow> rstr" where
  "debug_char u c = 39 # escape_debug u True False c @ [39]"

end
