(* ===== verification/Interfaces.thy ===== *)
theory Interfaces
  imports RustText
begin

text \<open>
  The contracts the components rely on, as locales: a value with a textual form, a pool of
  addresses, and a system whose operations keep an invariant. The providers interpret them
  where they are defined; the facts proved here once are used through those interpretations.
\<close>

section \<open>Values with a textual form\<close>

text \<open>
  \<open>shown\<close> prints, \<open>parse\<close> reads, \<open>ok\<close> is the set of values the type can hold. The provider
  promises that printing an \<open>ok\<close> value and reading it back gives that value, and that reading
  gives \<open>ok\<close> values only.
\<close>

locale text_form =
  fixes shown :: "'a \<Rightarrow> rstr"
    and parse :: "rstr \<Rightarrow> 'e + 'a"
    and ok :: "'a \<Rightarrow> bool"
  assumes parse_shown: "ok x \<Longrightarrow> parse (shown x) = Inr x"
    and parse_ok: "parse s = Inr x \<Longrightarrow> ok x"
begin

lemma shown_inject: "ok x \<Longrightarrow> ok y \<Longrightarrow> shown x = shown y \<longleftrightarrow> x = y"
  by (metis parse_shown sum.inject(2))

lemma reparse: "parse s = Inr x \<Longrightarrow> parse (shown x) = Inr x"
  by (rule parse_shown [OF parse_ok])

lemma accepted_iff_ok: "(\<exists>s. parse s = Inr x) \<longleftrightarrow> ok x"
  using parse_shown parse_ok by blast

end

section \<open>Address pools\<close>

text \<open>
  \<open>alloc p used\<close> picks an address of the pool \<open>p\<close> that is not in \<open>used\<close>; \<open>usable p\<close> are the
  addresses it may hand out. It fails only when every one of them is in use.
\<close>

locale address_pool =
  fixes alloc :: "'p \<Rightarrow> 'a list \<Rightarrow> 'a option"
    and usable :: "'p \<Rightarrow> 'a set"
  assumes alloc_Some: "alloc p used = Some a \<Longrightarrow> a \<in> usable p \<and> a \<notin> set used"
    and alloc_None: "alloc p used = None \<Longrightarrow> usable p \<subseteq> set used"
    and usable_finite: "finite (usable p)"
begin

lemma alloc_room: "length used < card (usable p) \<Longrightarrow> alloc p used \<noteq> None"
proof
  assume short: "length used < card (usable p)" and "alloc p used = None"
  then have "card (usable p) \<le> card (set used)"
    using alloc_None by (intro card_mono) simp_all
  also have "\<dots> \<le> length used" by (rule card_length)
  finally show False using short by simp
qed

lemma alloc_full: "usable p \<subseteq> set used \<Longrightarrow> alloc p used = None"
  using alloc_Some by (cases "alloc p used") auto

lemma alloc_None_iff: "alloc p used = None \<longleftrightarrow> usable p \<subseteq> set used"
  using alloc_None alloc_full by blast

lemma alloc_extends:
  assumes "distinct used" "set used \<subseteq> usable p" "alloc p used = Some a"
  shows "distinct (used @ [a])" and "set (used @ [a]) \<subseteq> usable p"
  using assms alloc_Some by auto

lemma pool_bound: "distinct used \<Longrightarrow> set used \<subseteq> usable p \<Longrightarrow> length used \<le> card (usable p)"
  using card_mono [OF usable_finite, of "set used" p] by (simp add: distinct_card)

end

section \<open>Invariants of a stepping system\<close>

text \<open>
  \<open>start s\<close> are the initial states, \<open>step s t\<close> the transitions; \<open>inv\<close> holds at the start and
  every step keeps it. Then it holds along every run.
\<close>

locale invariant_system =
  fixes start :: "'s \<Rightarrow> bool"
    and step :: "'s \<Rightarrow> 's \<Rightarrow> bool"
    and inv :: "'s \<Rightarrow> bool"
  assumes inv_start: "start s \<Longrightarrow> inv s"
    and inv_step: "step s t \<Longrightarrow> inv s \<Longrightarrow> inv t"
begin

lemma inv_steps: "step\<^sup>*\<^sup>* s t \<Longrightarrow> inv s \<Longrightarrow> inv t"
  by (induction rule: rtranclp_induct) (auto intro: inv_step)

lemma inv_reachable: "start s \<Longrightarrow> step\<^sup>*\<^sup>* s t \<Longrightarrow> inv t"
  by (blast intro: inv_start inv_steps)

text \<open>A relation between two states that every step preserves is preserved by a run.\<close>

lemma steps_relate:
  assumes "step\<^sup>*\<^sup>* s t" "inv s" "R s s"
    and "\<And>u v. inv u \<Longrightarrow> R s u \<Longrightarrow> step u v \<Longrightarrow> R s v"
  shows "R s t"
  using assms(1)
proof (induction rule: rtranclp_induct)
  case base
  show ?case by (rule assms(3))
next
  case (step u v)
  then show ?case using assms(2,4) inv_steps by blast
qed

end

end
