(* ===== verification/Token.thy ===== *)
theory Token
  imports Interfaces
begin

text \<open>
  \<open>crates/anago-core/src/token.rs\<close>: device tokens and their hashes, 64 lower-case hex
  characters each, the hex encoding of 32 bytes, and the comparison without an early return.
\<close>

unbundle bit_operations_syntax

definition TOKEN_BYTES :: nat where
  "TOKEN_BYTES = 32"

definition HEX_LEN :: nat where
  "HEX_LEN = TOKEN_BYTES * 2"

definition HEX_DIGITS :: rstr where
  "HEX_DIGITS = lit ''0123456789abcdef''"

datatype device_token = DeviceToken (token_str: rstr)

datatype token_hash = TokenHash (hash_str: rstr)

datatype token_error = TokenWrongLength nat | TokenBadChar rchar

definition is_hex_lower :: "rchar \<Rightarrow> bool" where
  "is_hex_lower c \<longleftrightarrow> is_digit c \<or> (97 \<le> c \<and> c \<le> 102)"

definition check_hex :: "rstr \<Rightarrow> token_error + rstr" where
  "check_hex input =
    (if length input \<noteq> HEX_LEN then Inl (TokenWrongLength (length input))
     else (case List.find (\<lambda>c. \<not> is_hex_lower c) input of
             Some c \<Rightarrow> Inl (TokenBadChar c)
           | None \<Rightarrow> Inr input))"

definition token_parse :: "rstr \<Rightarrow> token_error + device_token" where
  "token_parse input = attempt (check_hex input) (\<lambda>hex. Inr (DeviceToken hex))"

definition hash_parse :: "rstr \<Rightarrow> token_error + token_hash" where
  "hash_parse input = attempt (check_hex input) (\<lambda>hex. Inr (TokenHash hex))"

definition to_hex :: "u8 list \<Rightarrow> rstr" where
  "to_hex bytes =
     concat (map (\<lambda>b. [HEX_DIGITS ! unat (drop_bit 4 b), HEX_DIGITS ! unat (b AND 0x0F)]) bytes)"

definition token_from_bytes :: "u8 list \<Rightarrow> device_token" where
  "token_from_bytes bytes = DeviceToken (to_hex bytes)"

definition hash_from_bytes :: "u8 list \<Rightarrow> token_hash" where
  "hash_from_bytes bytes = TokenHash (to_hex bytes)"

text \<open>The loop ors the differing bits of every pair of bytes together, then looks once.\<close>

fun diff_bits :: "u8 \<Rightarrow> (u8 \<times> u8) list \<Rightarrow> u8" where
  "diff_bits acc [] = acc"
| "diff_bits acc ((x, y) # rest) = diff_bits (acc OR (x XOR y)) rest"

definition constant_time_eq :: "u8 list \<Rightarrow> u8 list \<Rightarrow> bool" where
  "constant_time_eq a b =
     (if length a \<noteq> length b then False else diff_bits 0 (zip a b) = 0)"

definition hash_matches :: "token_hash \<Rightarrow> token_hash \<Rightarrow> bool" where
  "hash_matches h g = constant_time_eq (utf8 (hash_str h)) (utf8 (hash_str g))"

fun token_error_show :: "unicode \<Rightarrow> token_error \<Rightarrow> rstr" where
  "token_error_show u (TokenWrongLength len) =
     lit ''token must be '' @ dec_nat HEX_LEN @ lit '' hex characters, got '' @ dec_nat len"
| "token_error_show u (TokenBadChar c) =
     debug_char u c @ lit '' is not a lower-case hex digit''"

text \<open>The only \<open>Debug\<close> a token has.\<close>

definition token_debug :: "device_token \<Rightarrow> rstr" where
  "token_debug t = lit ''DeviceToken(redacted)''"

section \<open>Format\<close>

definition hex_ok :: "rstr \<Rightarrow> bool" where
  "hex_ok s \<longleftrightarrow> length s = 64 \<and> (\<forall>c \<in> set s. is_hex_lower c)"

lemma hex_len [simp]: "HEX_LEN = 64"
  by (simp add: HEX_LEN_def TOKEN_BYTES_def)

lemma check_hex_iff: "check_hex s = Inr t \<longleftrightarrow> t = s \<and> hex_ok s"
  by (auto simp: check_hex_def hex_ok_def find_None_all split: option.splits dest: find_Some_set)

lemma check_hex_ok [simp]: "hex_ok s \<Longrightarrow> check_hex s = Inr s"
  by (simp add: check_hex_iff)

interpretation token_text: text_form token_str token_parse "\<lambda>t. hex_ok (token_str t)"
  by unfold_locales (auto simp: token_parse_def check_hex_iff result_simps)

interpretation hash_text: text_form hash_str hash_parse "\<lambda>t. hex_ok (hash_str t)"
  by unfold_locales (auto simp: hash_parse_def check_hex_iff result_simps)

lemma hex_lower_ascii: "is_hex_lower c \<Longrightarrow> c < 0x80"
  by (auto simp: is_hex_lower_def is_digit_def)

lemma valid_str_hex: "hex_ok s \<Longrightarrow> valid_str s"
  by (auto simp: hex_ok_def valid_str_def list_all_iff dest!: bspec intro!: scalar_small dest: hex_lower_ascii)

section \<open>Hex encoding\<close>

lemma hex_digits_nth:
  assumes "n < 16"
  shows "HEX_DIGITS ! n = (if n < 10 then 48 + n else 87 + n)"
proof -
  have "HEX_DIGITS = map (\<lambda>n. if n < 10 then 48 + n else 87 + n) [0..<16]"
    by (simp add: HEX_DIGITS_def lit_Cons upt_conv_Cons)
  then show ?thesis
    using nth_map_upt [of n 16 0 "\<lambda>n. if n < 10 then 48 + n else 87 + n"] assms
    by (simp only: diff_zero add_0)
qed

lemma high_nibble: "unat (drop_bit 4 (b :: u8)) = unat b div 16"
  by (simp only: unsigned_drop_bit_eq) (simp add: drop_bit_eq_div take_bit_eq_mod)

lemma low_nibble: "unat ((b :: u8) AND 0x0F) = unat b mod 16"
proof -
  have "b AND 0x0F = take_bit 4 b"
    by (simp add: take_bit_eq_mask mask_eq_exp_minus_1)
  then show ?thesis
    by (simp only: unsigned_take_bit_eq) (simp add: take_bit_eq_mod)
qed

lemma to_hex_simps [simp]:
  "to_hex [] = []"
  "to_hex (b # bs) = HEX_DIGITS ! (unat b div 16) # HEX_DIGITS ! (unat b mod 16) # to_hex bs"
  by (simp_all add: to_hex_def high_nibble low_nibble)

lemma length_to_hex [simp]: "length (to_hex bs) = 2 * length bs"
  by (induction bs) simp_all

lemma nibble_bounds: "unat (b :: u8) div 16 < 16" "unat b mod 16 < 16"
proof -
  have "unat b < 256" by simp
  then show "unat b div 16 < 16" by linarith
qed simp

lemma hex_digit_lower: "n < 16 \<Longrightarrow> is_hex_lower (HEX_DIGITS ! n)"
  by (auto simp: hex_digits_nth is_hex_lower_def is_digit_def)

lemma hex_digit_inject: "m < 16 \<Longrightarrow> n < 16 \<Longrightarrow> HEX_DIGITS ! m = HEX_DIGITS ! n \<longleftrightarrow> m = n"
  by (auto simp: hex_digits_nth split: if_splits)

lemma to_hex_lower: "c \<in> set (to_hex bs) \<Longrightarrow> is_hex_lower c"
  by (induction bs) (auto simp: hex_digit_lower nibble_bounds)

lemma to_hex_inject: "to_hex as = to_hex bs \<longleftrightarrow> as = bs"
proof (induction as arbitrary: bs)
  case Nil
  then show ?case by (cases bs) simp_all
next
  case (Cons a as)
  show ?case
  proof (cases bs)
    case (Cons b bs')
    have "unat a div 16 = unat b div 16 \<and> unat a mod 16 = unat b mod 16 \<longleftrightarrow> a = b"
      by (metis div_mult_mod_eq unat_inject)
    then show ?thesis
      by (auto simp: Cons Cons.IH hex_digit_inject nibble_bounds)
  qed simp
qed

lemma to_hex_ok: "length bs = TOKEN_BYTES \<Longrightarrow> hex_ok (to_hex bs)"
  by (auto simp: hex_ok_def TOKEN_BYTES_def dest: to_hex_lower)

section \<open>Comparison\<close>

lemma or_zero_iff: "(a :: u8) OR b = 0 \<longleftrightarrow> a = 0 \<and> b = 0"
  by (rule or_eq_0_iff)

lemma xor_zero_iff: "(a :: u8) XOR b = 0 \<longleftrightarrow> a = b"
proof
  assume "a XOR b = 0"
  moreover have "a = (a XOR b) XOR b" by (simp add: xor.assoc)
  ultimately show "a = b" by simp
qed simp

lemma diff_bits_zero: "diff_bits acc ps = 0 \<longleftrightarrow> acc = 0 \<and> (\<forall>(x, y) \<in> set ps. x = y)"
  by (induction acc ps rule: diff_bits.induct) (auto simp: or_zero_iff xor_zero_iff)

lemma zip_all_eq: "length a = length b \<Longrightarrow> (\<forall>(x, y) \<in> set (zip a b). x = y) \<longleftrightarrow> a = b"
  by (induction a b rule: list_induct2) auto

lemma constant_time_eq_iff: "constant_time_eq a b \<longleftrightarrow> a = b"
  by (auto simp: constant_time_eq_def diff_bits_zero zip_all_eq)

lemma hash_matches_iff:
  "hex_ok (hash_str h) \<Longrightarrow> hex_ok (hash_str g) \<Longrightarrow> hash_matches h g \<longleftrightarrow> h = g"
  by (auto simp: hash_matches_def constant_time_eq_iff utf8_inject valid_str_hex token_hash.expand)

end
