(* ===== verification/JoinCode.thy ===== *)
theory JoinCode
  imports Interfaces
begin

text \<open>
  \<open>crates/anago-core/src/code.rs\<close>: the shape of a join code, its normalisation, and its
  lifetime.
\<close>

section \<open>Shape\<close>

definition ALPHABET :: rstr where
  "ALPHABET = lit ''23456789ABCDEFGHJKMNPQRSTVWXYZ''"

definition GROUP_LEN :: nat where
  "GROUP_LEN = 4"

definition GROUPS :: nat where
  "GROUPS = 2"

definition CODE_LEN :: nat where
  "CODE_LEN = GROUP_LEN * GROUPS"

datatype join_code = JoinCode (code_str: rstr)

datatype code_error = CodeBadChar rchar | CodeWrongLength nat

text \<open>The loop over the input, \<open>chars\<close> holding the significant characters so far.\<close>

fun code_chars :: "rstr \<Rightarrow> rstr \<Rightarrow> code_error + rstr" where
  "code_chars [] chars = Inr chars"
| "code_chars (c # input) chars =
    (if c = 45 \<or> is_ws c then code_chars input chars
     else if ascii_upper c \<notin> set ALPHABET then Inl (CodeBadChar c)
     else if length chars = CODE_LEN then Inl (CodeWrongLength (CODE_LEN + 1))
     else code_chars input (chars @ [ascii_upper c]))"

definition hyphenate :: "rstr \<Rightarrow> rstr" where
  "hyphenate chars = take GROUP_LEN chars @ 45 # drop GROUP_LEN chars"

definition join_code_parse :: "rstr \<Rightarrow> code_error + join_code" where
  "join_code_parse input =
    attempt (code_chars input []) (\<lambda>chars.
      if length chars \<noteq> CODE_LEN then Inl (CodeWrongLength (length chars))
      else Inr (JoinCode (hyphenate chars)))"

text \<open>The loop over the indices; \<open>None\<close> at the first that is out of range.\<close>

fun index_chars :: "nat list \<Rightarrow> rstr option" where
  "index_chars [] = Some []"
| "index_chars (i # is) =
    (if i < length ALPHABET then map_option ((#) (ALPHABET ! i)) (index_chars is) else None)"

definition join_code_from_indices :: "nat list \<Rightarrow> join_code option" where
  "join_code_from_indices indices =
    (if length indices \<noteq> CODE_LEN then None
     else map_option (\<lambda>chars. JoinCode (hyphenate chars)) (index_chars indices))"

fun code_error_show :: "unicode \<Rightarrow> code_error \<Rightarrow> rstr" where
  "code_error_show u (CodeBadChar c) =
     debug_char u c @ lit '' is not used in join codes (alphabet: '' @ ALPHABET @ lit '')''"
| "code_error_show u (CodeWrongLength len) =
    (if CODE_LEN < len then lit ''join code is longer than '' @ dec_nat CODE_LEN @ lit '' characters''
     else lit ''join code needs '' @ dec_nat CODE_LEN @ lit '' characters, got '' @ dec_nat len)"

section \<open>Lifetime\<close>

definition DEFAULT_TTL_SECS :: int where
  "DEFAULT_TTL_SECS = 15 * 60"

datatype code_status = Usable | Used | Expired

definition status_usable :: "code_status \<Rightarrow> bool" where
  "status_usable s \<longleftrightarrow> s = Usable"

fun code_status_show :: "code_status \<Rightarrow> rstr" where
  "code_status_show Usable = lit ''usable''"
| "code_status_show Used = lit ''already used''"
| "code_status_show Expired = lit ''expired''"

definition expiry :: "int \<Rightarrow> int \<Rightarrow> int" where
  "expiry issued ttl = sat_add issued ttl"

definition status :: "int \<Rightarrow> int option \<Rightarrow> int \<Rightarrow> code_status" where
  "status expires used now =
    (if used \<noteq> None then Used else if expires \<le> now then Expired else Usable)"

definition status_from_issue :: "int \<Rightarrow> int \<Rightarrow> int option \<Rightarrow> int \<Rightarrow> code_status" where
  "status_from_issue issued ttl used now = status (expiry issued ttl) used now"

record issued_code =
  ic_code :: join_code
  ic_issued_at :: int
  ic_expires_at :: int
  ic_used_at :: "int option"

definition issue_code :: "join_code \<Rightarrow> int \<Rightarrow> int \<Rightarrow> issued_code" where
  "issue_code c issued ttl =
     \<lparr>ic_code = c, ic_issued_at = issued, ic_expires_at = expiry issued ttl, ic_used_at = None\<rparr>"

definition issued_status :: "issued_code \<Rightarrow> int \<Rightarrow> code_status" where
  "issued_status c now = status (ic_expires_at c) (ic_used_at c) now"

definition issued_usable :: "issued_code \<Rightarrow> int \<Rightarrow> bool" where
  "issued_usable c now = status_usable (issued_status c now)"

section \<open>Facts on the shape\<close>

lemma code_len [simp]: "CODE_LEN = 8"
  by (simp add: CODE_LEN_def GROUP_LEN_def GROUPS_def)

lemma alphabet_codes:
  "ALPHABET = [50, 51, 52, 53, 54, 55, 56, 57, 65, 66, 67, 68, 69, 70, 71, 72, 74, 75, 77, 78, 80,
     81, 82, 83, 84, 86, 87, 88, 89, 90]"
  by (simp add: ALPHABET_def lit_Cons)

lemma length_alphabet [simp]: "length ALPHABET = 30"
  by (simp add: alphabet_codes)

lemma distinct_alphabet: "distinct ALPHABET"
  by (simp add: alphabet_codes)

lemma alphabet_range: "c \<in> set ALPHABET \<Longrightarrow> 50 \<le> c \<and> c \<le> 90"
proof -
  have "list_all (\<lambda>c. 50 \<le> c \<and> c \<le> 90) ALPHABET"
    by (simp add: alphabet_codes)
  then show "c \<in> set ALPHABET \<Longrightarrow> 50 \<le> c \<and> c \<le> 90"
    by (simp add: list_all_iff)
qed

lemma alphabet_upper: "c \<in> set ALPHABET \<Longrightarrow> ascii_upper c = c \<and> c \<noteq> 45 \<and> \<not> is_ws c \<and> c < 0x80"
  using alphabet_range [of c] by (simp add: ascii_upper_def is_lower_def is_ws_def)

text \<open>What the input means: its characters in upper case, hyphens and white space dropped.\<close>

definition significant :: "rstr \<Rightarrow> rstr" where
  "significant s = map ascii_upper (filter (\<lambda>c. \<not> (c = 45 \<or> is_ws c)) s)"

lemma code_chars_Inr:
  assumes "length chars \<le> 8"
  shows "code_chars s chars = Inr r \<longleftrightarrow>
    set (significant s) \<subseteq> set ALPHABET \<and> length (chars @ significant s) \<le> 8 \<and> r = chars @ significant s"
  using assms by (induction s chars rule: code_chars.induct) (auto simp: significant_def)

lemma join_code_parse_iff:
  "join_code_parse s = Inr c \<longleftrightarrow>
     length (significant s) = 8 \<and> set (significant s) \<subseteq> set ALPHABET \<and>
     c = JoinCode (hyphenate (significant s))"
  by (auto simp: join_code_parse_def result_simps code_chars_Inr split: if_splits)

definition code_ok :: "join_code \<Rightarrow> bool" where
  "code_ok c \<longleftrightarrow> (\<exists>t. length t = 8 \<and> set t \<subseteq> set ALPHABET \<and> c = JoinCode (hyphenate t))"

lemma significant_alphabet:
  assumes "set t \<subseteq> set ALPHABET"
  shows "significant t = t"
proof -
  have "filter (\<lambda>c. \<not> (c = 45 \<or> is_ws c)) t = t" and "map ascii_upper t = t"
    using assms alphabet_upper by (auto simp: filter_id_conv map_idI subset_iff)
  then show ?thesis by (simp only: significant_def)
qed

lemma significant_append: "significant (s @ t) = significant s @ significant t"
  by (simp add: significant_def)

lemma significant_hyphenate:
  assumes "set t \<subseteq> set ALPHABET"
  shows "significant (hyphenate t) = t"
proof -
  have "set (take 4 t) \<subseteq> set ALPHABET" "set (drop 4 t) \<subseteq> set ALPHABET"
    using assms by (auto dest: in_set_takeD in_set_dropD)
  then have "significant (take 4 t) = take 4 t" "significant (drop 4 t) = drop 4 t"
    by (simp_all only: significant_alphabet)
  moreover have "significant (45 # drop 4 t) = significant (drop 4 t)"
    by (simp add: significant_def)
  ultimately show ?thesis
    by (simp add: hyphenate_def GROUP_LEN_def significant_append)
qed

interpretation code_text: text_form code_str join_code_parse code_ok
proof unfold_locales
  show "join_code_parse (code_str c) = Inr c" if "code_ok c" for c
    using that by (auto simp: code_ok_def join_code_parse_iff significant_hyphenate)
  show "code_ok c" if "join_code_parse s = Inr c" for s c
    using that by (auto simp: code_ok_def join_code_parse_iff)
qed

lemma valid_str_code: "code_ok c \<Longrightarrow> valid_str (code_str c)"
proof -
  assume "code_ok c"
  then obtain t where t: "set t \<subseteq> set ALPHABET" and c: "code_str c = take 4 t @ 45 # drop 4 t"
    by (auto simp: code_ok_def hyphenate_def GROUP_LEN_def)
  have "scalar x" if "x \<in> set t" for x
    using that t alphabet_upper [of x] by (intro scalar_small) auto
  then have "valid_str (take 4 t)" "valid_str (drop 4 t)"
    by (auto simp: valid_str_def list_all_iff dest: in_set_takeD in_set_dropD)
  then show ?thesis by (simp add: c)
qed

lemma index_chars_Some:
  "index_chars is = Some r \<longleftrightarrow> (\<forall>i \<in> set is. i < 30) \<and> r = map ((!) ALPHABET) is"
  by (induction "is" arbitrary: r) auto

lemma from_indices_ok: "join_code_from_indices is = Some c \<Longrightarrow> code_ok c"
  by (auto simp: join_code_from_indices_def index_chars_Some code_ok_def split: if_splits
      intro!: exI [of _ "map ((!) ALPHABET) is"])

section \<open>Facts on the lifetime\<close>

lemma issued_usable_iff:
  "issued_usable c now \<longleftrightarrow> ic_used_at c = None \<and> now < ic_expires_at c"
  by (auto simp: issued_usable_def issued_status_def status_def status_usable_def)

lemma status_usable_iff: "status_usable (issued_status c now) \<longleftrightarrow> issued_usable c now"
  by (simp add: issued_usable_def)

end
