(* ===== verification/DevName.thy ===== *)
theory DevName
  imports Interfaces
begin

text \<open>
  \<open>crates/anago-core/src/name.rs\<close>: device names in canonical form. Which characters are
  letters and how they are lower-cased comes from the Unicode tables \<open>u\<close>.
\<close>

definition NAME_MAX_LEN :: nat where
  "NAME_MAX_LEN = 32"

definition RESERVED :: "rstr list" where
  "RESERVED = [lit ''server'']"

datatype device_name = DeviceName (name_str: rstr)

datatype name_error =
    NameEmpty
  | NameTooLong nat
  | NameBadChar rchar
  | NameBadEdge rchar
  | NameReserved
  | NameTakenError
  | NameExpectFailed

definition is_allowed :: "unicode \<Rightarrow> rchar \<Rightarrow> bool" where
  "is_allowed u c \<longleftrightarrow> u_alnum u c \<or> c = 45 \<or> c = 95"

text \<open>
  \<open>DeviceName::parse\<close>. The two \<open>expect\<close>s on the first and the last character panic on an
  empty name: that branch is \<open>NameExpectFailed\<close>, which is no variant of the source's enum.
\<close>

definition device_name_parse :: "unicode \<Rightarrow> rstr \<Rightarrow> name_error + device_name" where
  "device_name_parse u input =
    (let trimmed = trim input in
     if trimmed = [] then Inl NameEmpty
     else let name = u_lower u trimmed in
       if NAME_MAX_LEN < length name then Inl (NameTooLong (length name))
       else (case List.find (\<lambda>c. \<not> is_allowed u c) name of
          Some c \<Rightarrow> Inl (NameBadChar c)
        | None \<Rightarrow>
            if name = [] then Inl NameExpectFailed
            else if \<not> u_alnum u (hd name) then Inl (NameBadEdge (hd name))
            else if \<not> u_alnum u (last name) then Inl (NameBadEdge (last name))
            else if name \<in> set RESERVED then Inl NameReserved
            else Inr (DeviceName name)))"

fun name_error_show :: "unicode \<Rightarrow> name_error \<Rightarrow> rstr" where
  "name_error_show u NameEmpty = lit ''device name is empty''"
| "name_error_show u (NameTooLong len) =
     lit ''device name is '' @ dec_nat len @ lit '' characters, the limit is '' @ dec_nat NAME_MAX_LEN"
| "name_error_show u (NameBadChar c) =
     lit ''device names cannot contain '' @ debug_char u c
     @ lit ''; use letters, digits, '' @ [39, 45, 39] @ lit '' or '' @ [39, 95, 39]"
| "name_error_show u (NameBadEdge c) =
     lit ''device names cannot start or end with '' @ debug_char u c"
| "name_error_show u NameReserved = lit ''that device name is reserved''"
| "name_error_show u NameTakenError = lit ''a device with that name is already registered''"
| "name_error_show u NameExpectFailed = lit ''non-empty''"

definition is_taken :: "rstr list \<Rightarrow> device_name \<Rightarrow> bool" where
  "is_taken existing candidate \<longleftrightarrow> (\<exists>name \<in> set existing. name = name_str candidate)"

section \<open>Canonical names\<close>

text \<open>A name is canonical when parsing its own text gives it back.\<close>

definition name_ok :: "unicode \<Rightarrow> device_name \<Rightarrow> bool" where
  "name_ok u n \<longleftrightarrow> device_name_parse u (name_str n) = Inr n"

lemma device_name_parse_Inr:
  "device_name_parse u s = Inr n \<longleftrightarrow>
     trim s \<noteq> [] \<and> name_str n = u_lower u (trim s) \<and> name_str n \<noteq> [] \<and> length (name_str n) \<le> 32 \<and>
     (\<forall>c \<in> set (name_str n). is_allowed u c) \<and> u_alnum u (hd (name_str n)) \<and>
     u_alnum u (last (name_str n)) \<and> name_str n \<noteq> lit ''server''"
  by (cases n) (auto simp: device_name_parse_def Let_def NAME_MAX_LEN_def RESERVED_def find_None_all
      split: option.splits if_splits dest: find_Some_set)

lemma allowed_not_ws: "unicode_laws u \<Longrightarrow> is_allowed u c \<Longrightarrow> \<not> is_ws c"
  by (auto simp: is_allowed_def unicode_laws_def is_ws_def)

lemma device_name_parse_ok:
  assumes u: "unicode_laws u" and p: "device_name_parse u s = Inr n"
  shows "name_ok u n"
proof -
  from p have all: "\<forall>c \<in> set (name_str n). is_allowed u c" and eq: "name_str n = u_lower u (trim s)"
    by (simp_all add: device_name_parse_Inr)
  have "trim (name_str n) = name_str n"
    using all u allowed_not_ws by (intro trim_id) blast
  moreover have "u_lower u (name_str n) = name_str n"
    using u eq by (simp add: unicode_laws_def)
  moreover have "name_str n \<noteq> []" "length (name_str n) \<le> 32" "u_alnum u (hd (name_str n))"
    "u_alnum u (last (name_str n))" "name_str n \<noteq> lit ''server''"
    using p unfolding device_name_parse_Inr by blast+
  ultimately show ?thesis
    using all by (simp add: name_ok_def device_name_parse_Inr)
qed

lemma device_name_parse_no_panic:
  "unicode_laws u \<Longrightarrow> device_name_parse u s \<noteq> Inl NameExpectFailed"
  by (auto simp: device_name_parse_def Let_def unicode_laws_def split: option.splits)

lemma device_name_parse_valid:
  "unicode_laws u \<Longrightarrow> valid_str s \<Longrightarrow> device_name_parse u s = Inr n \<Longrightarrow> valid_str (name_str n)"
  by (simp add: device_name_parse_Inr unicode_laws_def)

text \<open>A canonical name is a safe path segment and configuration word.\<close>

lemma name_ok_chars:
  assumes "unicode_laws u" "name_ok u n" "c \<in> set (name_str n)"
  shows "\<not> is_ws c" and "c < 0x80 \<Longrightarrow> is_ascii_alnum c \<or> c = 45 \<or> c = 95"
proof -
  have "is_allowed u c"
    using assms by (simp add: name_ok_def device_name_parse_Inr)
  then show "\<not> is_ws c" and "c < 0x80 \<Longrightarrow> is_ascii_alnum c \<or> c = 45 \<or> c = 95"
    using assms(1) allowed_not_ws [of u c] by (auto simp: unicode_laws_def is_allowed_def)
qed

lemma is_taken_iff: "is_taken names n \<longleftrightarrow> name_str n \<in> set names"
  by (auto simp: is_taken_def)

end
