(* ===== verification/Subnet.thy ===== *)
theory Subnet
  imports Interfaces
begin

text \<open>
  \<open>crates/anago-core/src/subnet.rs\<close>: IPv4 addresses as \<open>std::net::Ipv4Addr\<close> prints and parses
  them, the \<open>/24\<close> network and the allocation of host addresses inside it.
\<close>

section \<open>IPv4 addresses\<close>

datatype ipv4 = Ipv4 u8 u8 u8 u8

fun octets :: "ipv4 \<Rightarrow> u8 list" where
  "octets (Ipv4 a b c d) = [a, b, c, d]"

fun ipv4_show :: "ipv4 \<Rightarrow> rstr" where
  "ipv4_show (Ipv4 a b c d) =
     dec_nat (unat a) @ 46 # dec_nat (unat b) @ 46 # dec_nat (unat c) @ 46 # dec_nat (unat d)"

text \<open>
  The parser of \<open>Ipv4Addr\<close>: four decimal numbers of one to three digits, no leading zero,
  each at most 255, separated by dots and nothing else.
\<close>

definition octet_parse :: "rstr \<Rightarrow> u8 option" where
  "octet_parse s =
    (if s = [] \<or> 3 < length s \<or> \<not> list_all is_digit s \<or> (1 < length s \<and> hd s = 48)
        \<or> 255 < dec_value s
     then None else Some (byte (dec_value s)))"

definition ipv4_parse :: "rstr \<Rightarrow> ipv4 option" where
  "ipv4_parse s =
    (case split_on 46 s of
       [a, b, c, d] \<Rightarrow>
         (case (octet_parse a, octet_parse b, octet_parse c, octet_parse d) of
            (Some a, Some b, Some c, Some d) \<Rightarrow> Some (Ipv4 a b c d)
          | _ \<Rightarrow> None)
     | _ \<Rightarrow> None)"

lemma octet_parse_dec [simp]: "octet_parse (dec_nat (unat b)) = Some b"
proof -
  have b: "unat b < 256" by simp
  have "1 < length (dec_nat (unat b)) \<Longrightarrow> hd (dec_nat (unat b)) \<noteq> 48"
    using hd_dec_nat [of "unat b"] length_dec_nat [of "unat b"] by auto
  moreover have "length (dec_nat (unat b)) \<le> 3"
    using b by (intro length_dec_nat_le3) linarith
  ultimately show ?thesis
    using b by (auto simp: octet_parse_def)
qed

lemma dot_notin_dec [simp]: "46 \<notin> set (dec_nat n)"
  by (rule dec_nat_notin) (simp add: is_digit_def)

lemma ipv4_parse_show [simp]: "ipv4_parse (ipv4_show a) = Some a"
  by (cases a) (simp add: ipv4_parse_def)

lemma ipv4_show_inject [simp]: "ipv4_show a = ipv4_show b \<longleftrightarrow> a = b"
  by (metis ipv4_parse_show option.inject)

lemma valid_str_ipv4_show [simp]: "valid_str (ipv4_show a)"
  by (cases a) simp

section \<open>The subnet\<close>

definition PREFIX_LEN :: nat where
  "PREFIX_LEN = 24"

datatype subnet = Subnet (network: ipv4)

datatype subnet_error =
    MissingPrefix
  | BadAddress
  | BadPrefix
  | UnsupportedPrefix nat
  | NotNetworkAddress ipv4

definition subnet_parse :: "rstr \<Rightarrow> subnet_error + subnet" where
  "subnet_parse text =
    attempt (ok_or MissingPrefix (split_once 47 text)) (\<lambda>(address, prefix).
    attempt (ok_or BadAddress (ipv4_parse address)) (\<lambda>net.
    if prefix = [] \<or> \<not> list_all is_digit prefix then Inl BadPrefix
    else if 1 < length prefix \<and> hd prefix = 48 then Inl BadPrefix
    else attempt (ok_or BadPrefix (parse_unsigned 255 prefix)) (\<lambda>prefix.
      if 32 < prefix then Inl BadPrefix
      else if prefix \<noteq> PREFIX_LEN then Inl (UnsupportedPrefix prefix)
      else if octets net ! 3 \<noteq> 0 then Inl (NotNetworkAddress net)
      else Inr (Subnet net))))"

fun address_of :: "subnet \<Rightarrow> u8 \<Rightarrow> ipv4" where
  "address_of (Subnet (Ipv4 a b c d)) octet = Ipv4 a b c octet"

definition server_address :: "subnet \<Rightarrow> ipv4" where
  "server_address s = address_of s 1"

definition subnet_contains :: "subnet \<Rightarrow> ipv4 \<Rightarrow> bool" where
  "subnet_contains s addr \<longleftrightarrow> take 3 (octets addr) = take 3 (octets (network s))"

definition host_octet :: "subnet \<Rightarrow> ipv4 \<Rightarrow> u8 option" where
  "host_octet s addr = (if subnet_contains s addr then Some (octets addr ! 3) else None)"

text \<open>\<open>(2..=254).find(|o| !used.contains(o))\<close> and the allocation around it.\<close>

definition host_range :: "u8 list" where
  "host_range = map byte [2..<255]"

definition next_free_octet :: "u8 list \<Rightarrow> u8 option" where
  "next_free_octet used = List.find (\<lambda>x. x \<notin> set used) host_range"

definition subnet_allocate :: "subnet \<Rightarrow> ipv4 list \<Rightarrow> ipv4 option" where
  "subnet_allocate s used =
     map_option (address_of s) (next_free_octet (List.map_filter (host_octet s) used))"

definition subnet_show :: "subnet \<Rightarrow> rstr" where
  "subnet_show s = ipv4_show (network s) @ 47 # dec_nat PREFIX_LEN"

fun subnet_error_show :: "subnet_error \<Rightarrow> rstr" where
  "subnet_error_show MissingPrefix =
     lit ''subnet needs a prefix length, e.g. 10.100.0.0/'' @ dec_nat PREFIX_LEN"
| "subnet_error_show BadAddress = lit ''subnet does not start with an IPv4 address''"
| "subnet_error_show BadPrefix = lit ''prefix length must be a number in 0..=32''"
| "subnet_error_show (UnsupportedPrefix p) =
     lit ''anago supports /'' @ dec_nat PREFIX_LEN @ lit '' only, got /'' @ dec_nat p"
| "subnet_error_show (NotNetworkAddress addr) =
     ipv4_show addr @ lit ''/'' @ dec_nat PREFIX_LEN @ lit '' is not a network address; use ''
     @ dec_nat (unat (octets addr ! 0)) @ lit ''.'' @ dec_nat (unat (octets addr ! 1)) @ lit ''.''
     @ dec_nat (unat (octets addr ! 2)) @ lit ''.0/'' @ dec_nat PREFIX_LEN"

text \<open>What a \<open>Subnet\<close> can hold: the host octet of its network address is zero.\<close>

definition subnet_ok :: "subnet \<Rightarrow> bool" where
  "subnet_ok s \<longleftrightarrow> octets (network s) ! 3 = 0"

lemma subnet_parse_ok: "subnet_parse t = Inr s \<Longrightarrow> subnet_ok s"
  by (auto simp: subnet_parse_def subnet_ok_def result_simps split: if_splits)

lemma subnet_parse_show: "subnet_ok s \<Longrightarrow> subnet_parse (subnet_show s) = Inr s"
proof -
  assume ok: "subnet_ok s"
  have "47 \<notin> set (ipv4_show (network s))"
    by (cases "network s") (simp add: is_digit_def)
  moreover have "dec_nat 24 = [50, 52]"
    by (simp add: dec_nat.simps [of 24] dec_nat.simps [of 2])
  ultimately show ?thesis using ok
    by (simp add: subnet_parse_def subnet_show_def subnet_ok_def split_once_append PREFIX_LEN_def
        is_digit_def parse_unsigned_def dec_value_def)
qed

interpretation subnet_text: text_form subnet_show subnet_parse subnet_ok
  by unfold_locales (auto intro: subnet_parse_show subnet_parse_ok)

lemma valid_str_subnet_show [simp]: "valid_str (subnet_show s)"
  by (simp add: subnet_show_def)

section \<open>Allocation\<close>

lemma address_of_octets [simp]: "octets (address_of s x) ! 3 = x"
  by (cases "(s, x)" rule: address_of.cases) simp

lemma subnet_contains_address_of [simp]: "subnet_contains s (address_of s x)"
  by (cases "(s, x)" rule: address_of.cases) (simp add: subnet_contains_def)

lemma host_octet_address_of [simp]: "host_octet s (address_of s x) = Some x"
  by (simp add: host_octet_def)

lemma host_octet_Some: "host_octet s a = Some x \<longleftrightarrow> a = address_of s x"
proof
  assume "host_octet s a = Some x"
  then show "a = address_of s x"
    by (cases "(s, x)" rule: address_of.cases; cases a)
      (auto simp: host_octet_def subnet_contains_def split: if_splits)
qed simp

lemma address_of_inject [simp]: "address_of s x = address_of s y \<longleftrightarrow> x = y"
  by (metis address_of_octets)

definition usable_addresses :: "subnet \<Rightarrow> ipv4 set" where
  "usable_addresses s = {address_of s x | x. 2 \<le> unat x \<and> unat x \<le> 254}"

lemma set_host_octets: "x \<in> set (List.map_filter (host_octet s) used) \<longleftrightarrow> address_of s x \<in> set used"
  by (auto simp: List.map_filter_def host_octet_Some image_iff intro!: bexI [of _ "address_of s x"])

lemma length_host_range [simp]: "length host_range = 253"
  unfolding host_range_def length_map_upt by simp

lemma unat_host_range: "i < 253 \<Longrightarrow> unat (host_range ! i) = 2 + i"
  using nth_map_upt [of i 255 2 byte]
  by (simp add: host_range_def del: upt_rec_numeral)

lemma set_host_range: "x \<in> set host_range \<longleftrightarrow> 2 \<le> unat x \<and> unat x \<le> 254"
proof
  assume "x \<in> set host_range"
  then show "2 \<le> unat x \<and> unat x \<le> 254"
    unfolding host_range_def set_map_upt by auto
next
  assume "2 \<le> unat x \<and> unat x \<le> 254"
  then show "x \<in> set host_range"
    unfolding host_range_def set_map_upt by (intro image_eqI [of _ _ "unat x"]) auto
qed

lemma next_free_octet_Some:
  assumes "next_free_octet used = Some x"
  shows "2 \<le> unat x \<and> unat x \<le> 254 \<and> x \<notin> set used
    \<and> (\<forall>y. 2 \<le> unat y \<and> unat y < unat x \<longrightarrow> y \<in> set used)"
proof -
  from assms obtain i where i: "i < 253" "x = host_range ! i" "x \<notin> set used"
    and least: "\<forall>j < i. host_range ! j \<in> set used"
    by (auto simp: next_free_octet_def find_Some_iff)
  then have x: "unat x = 2 + i" by (simp add: unat_host_range)
  have "y \<in> set used" if y: "2 \<le> unat y" "unat y < unat x" for y
  proof -
    have "unat (host_range ! (unat y - 2)) = unat y"
      using y i(1) x by (subst unat_host_range) auto
    then have "host_range ! (unat y - 2) = y" by (simp only: unat_inject)
    moreover have "unat y - 2 < i" using y x by auto
    with least have "host_range ! (unat y - 2) \<in> set used" by simp
    ultimately show ?thesis by simp
  qed
  then show ?thesis using i x by auto
qed

lemma next_free_octet_None:
  "next_free_octet used = None \<longleftrightarrow> (\<forall>x. 2 \<le> unat x \<and> unat x \<le> 254 \<longrightarrow> x \<in> set used)"
  unfolding next_free_octet_def find_None_iff set_host_range [symmetric] by blast

lemma subnet_allocate_Some:
  assumes "subnet_allocate s used = Some a"
  obtains x where "a = address_of s x" "2 \<le> unat x" "unat x \<le> 254" "a \<notin> set used"
    "\<forall>y. 2 \<le> unat y \<and> unat y < unat x \<longrightarrow> address_of s y \<in> set used"
  using assms that by (auto simp: subnet_allocate_def set_host_octets dest!: next_free_octet_Some)

lemma card_usable: "card (usable_addresses s) = 253"
proof -
  have "inj_on unat (set host_range)"
    by (rule inj_onI) (simp only: unat_inject)
  then have "card (set host_range) = card (unat ` set host_range)"
    by (simp add: card_image)
  also have "unat ` set host_range = {2..<255}"
  proof -
    have "n \<in> unat ` set host_range" if "n \<in> {2..<255}" for n
      using that by (intro image_eqI [of _ _ "byte n"]) (auto simp: set_host_range)
    then show ?thesis by (auto simp: set_host_range)
  qed
  finally have "card (set host_range) = 253" by simp
  moreover have "usable_addresses s = address_of s ` set host_range"
    by (auto simp: usable_addresses_def set_host_range)
  moreover have "inj (address_of s)"
    by (rule injI) simp
  ultimately show ?thesis
    by (simp add: card_image inj_on_subset)
qed

interpretation subnet_pool: address_pool subnet_allocate usable_addresses
proof unfold_locales
  show "a \<in> usable_addresses p \<and> a \<notin> set used" if "subnet_allocate p used = Some a" for p used a
    using that by (auto elim!: subnet_allocate_Some simp: usable_addresses_def)
  show "usable_addresses p \<subseteq> set used" if "subnet_allocate p used = None" for p used
    using that by (auto simp: subnet_allocate_def next_free_octet_None usable_addresses_def
        set_host_octets)
  show "finite (usable_addresses p)" for p
    by (rule card_ge_0_finite) (simp add: card_usable)
qed

lemma server_address_not_usable: "server_address s \<notin> usable_addresses s"
  by (auto simp: server_address_def usable_addresses_def)

lemma usable_contained: "a \<in> usable_addresses s \<Longrightarrow> subnet_contains s a"
  by (auto simp: usable_addresses_def)

section \<open>The order of addresses\<close>

text \<open>\<open>Ord\<close> of \<open>Ipv4Addr\<close>: by the octets, the first one most significant.\<close>

fun ipv4_num :: "ipv4 \<Rightarrow> nat" where
  "ipv4_num (Ipv4 a b c d) = ((unat a * 256 + unat b) * 256 + unat c) * 256 + unat d"

lemma horner256:
  fixes q q' r r' :: nat
  assumes "q * 256 + r = q' * 256 + r'" "r < 256" "r' < 256"
  shows "q = q' \<and> r = r'"
proof -
  have "(q * 256 + r) div 256 = q" "(q' * 256 + r') div 256 = q'" using assms(2,3) by simp_all
  with assms(1) show ?thesis by simp
qed

lemma ipv4_num_inject: "ipv4_num x = ipv4_num y \<longleftrightarrow> x = y"
proof (cases x; cases y)
  fix a b c d a' b' c' d'
  assume xy: "x = Ipv4 a b c d" "y = Ipv4 a' b' c' d'"
  show ?thesis
    using horner256 [of "(unat a * 256 + unat b) * 256 + unat c" "unat d" "(unat a' * 256 + unat b') * 256 + unat c'" "unat d'"]
      horner256 [of "unat a * 256 + unat b" "unat c" "unat a' * 256 + unat b'" "unat c'"]
      horner256 [of "unat a" "unat b" "unat a'" "unat b'"]
    by (auto simp: xy unat_inject)
qed

instantiation ipv4 :: linorder
begin

definition less_eq_ipv4 :: "ipv4 \<Rightarrow> ipv4 \<Rightarrow> bool" where
  "less_eq_ipv4 x y \<longleftrightarrow> ipv4_num x \<le> ipv4_num y"

definition less_ipv4 :: "ipv4 \<Rightarrow> ipv4 \<Rightarrow> bool" where
  "less_ipv4 x y \<longleftrightarrow> ipv4_num x < ipv4_num y"

instance
  by standard (auto simp: less_eq_ipv4_def less_ipv4_def ipv4_num_inject dest: order_antisym)

end

lemma address_of_mono: "address_of s x \<le> address_of s y \<longleftrightarrow> unat x \<le> unat y"
  by (cases s; cases "network s") (simp add: less_eq_ipv4_def)

lemma finite_usable [simp]: "finite (usable_addresses s)"
  by (rule subnet_pool.usable_finite)

text \<open>\<open>allocate\<close> hands out the least address that is free.\<close>

lemma subnet_allocate_least:
  "subnet_allocate s used =
    (if usable_addresses s \<subseteq> set used then None else Some (Min (usable_addresses s - set used)))"
proof (cases "subnet_allocate s used")
  case None
  then show ?thesis by (simp add: subnet_pool.alloc_None_iff)
next
  case (Some a)
  then obtain x where a: "a = address_of s x" and x: "2 \<le> unat x" "unat x \<le> 254"
    and free: "a \<notin> set used"
    and low: "\<forall>y. 2 \<le> unat y \<and> unat y < unat x \<longrightarrow> address_of s y \<in> set used"
    by (rule subnet_allocate_Some) blast
  have "Min (usable_addresses s - set used) = a"
  proof (rule Min_eqI)
    show "a \<in> usable_addresses s - set used"
      using x free by (auto simp: a usable_addresses_def)
    fix b assume "b \<in> usable_addresses s - set used"
    then obtain y where b: "b = address_of s y" "2 \<le> unat y" "address_of s y \<notin> set used"
      by (auto simp: usable_addresses_def)
    then have "\<not> unat y < unat x" using low by blast
    then show "a \<le> b" by (simp add: a b(1) address_of_mono)
  qed simp
  moreover have "\<not> usable_addresses s \<subseteq> set used"
    using Some subnet_pool.alloc_None_iff [of s used] by auto
  ultimately show ?thesis using Some by simp
qed

end
