(* ===== verification/Renewal.thy ===== *)
theory Renewal
  imports RustText
begin

text \<open>
  The certificate half of \<open>crates/anago-core/src/state.rs\<close>: where the hub's certificate comes from,
  when one of the program's own is due for renewal, and the safety net under that decision.
\<close>

section \<open>The state\<close>

definition DAY_SECS :: int where
  "DAY_SECS = 86400"

definition RENEWAL_LEAD_SECS :: int where
  "RENEWAL_LEAD_SECS = 7 * DAY_SECS"

definition UNKNOWN_LIFETIME_RENEW_SECS :: int where
  "UNKNOWN_LIFETIME_RENEW_SECS = 30 * DAY_SECS"

datatype challenge = Http01 | Dns01

fun challenge_as_str :: "challenge \<Rightarrow> rstr" where
  "challenge_as_str Http01 = lit ''http-01''"
| "challenge_as_str Dns01 = lit ''dns-01''"

definition challenge_from_str :: "rstr \<Rightarrow> challenge option" where
  "challenge_from_str s =
    (if s = lit ''http-01'' then Some Http01 else if s = lit ''dns-01'' then Some Dns01 else None)"

record acme =
  ac_directory :: rstr
  ac_contact :: "rstr option"
  ac_account_key_path :: rstr
  ac_account_url :: rstr
  ac_challenge :: challenge
  ac_issued_at :: int
  ac_renew_after :: int

datatype tls_source = Manual | Acme acme

record tls =
  tls_cert_path :: rstr
  tls_key_path :: rstr
  tls_not_after :: "int option"
  tls_src :: tls_source

definition tls_manual :: "rstr \<Rightarrow> rstr \<Rightarrow> tls" where
  "tls_manual cert_path key_path =
    \<lparr>tls_cert_path = cert_path, tls_key_path = key_path, tls_not_after = None, tls_src = Manual\<rparr>"

definition tls_acme :: "rstr \<Rightarrow> rstr \<Rightarrow> acme \<Rightarrow> tls" where
  "tls_acme cert_path key_path acme =
    \<lparr>tls_cert_path = cert_path, tls_key_path = key_path, tls_not_after = None, tls_src = Acme acme\<rparr>"

section \<open>When to renew\<close>

definition renew_after :: "int \<Rightarrow> int option \<Rightarrow> int" where
  "renew_after issued_at not_after =
    (case not_after of
       None \<Rightarrow> sat_add issued_at UNKNOWN_LIFETIME_RENEW_SECS
     | Some not_after \<Rightarrow>
         let lifetime = sat_sub not_after issued_at
         in sat_add issued_at (sat_mul lifetime 2 sdiv 3))"

definition acme_issued :: "int \<Rightarrow> int option \<Rightarrow> acme \<Rightarrow> acme" where
  "acme_issued at not_after acme =
    acme\<lparr>ac_issued_at := at, ac_renew_after := renew_after at not_after\<rparr>"

definition safety_net_at :: "int \<Rightarrow> int \<Rightarrow> int" where
  "safety_net_at expires_at lead_secs = sat_sub expires_at (max lead_secs 0)"

definition needs_renewal :: "int \<Rightarrow> int \<Rightarrow> int \<Rightarrow> bool" where
  "needs_renewal expires_at now lead_secs \<longleftrightarrow> safety_net_at expires_at lead_secs \<le> now"

definition renewal_due :: "int \<Rightarrow> int option \<Rightarrow> int \<Rightarrow> int" where
  "renewal_due plan not_after lead_secs =
    (case not_after of
       None \<Rightarrow> plan
     | Some not_after \<Rightarrow> min plan (safety_net_at not_after lead_secs))"

definition tls_renewable :: "tls \<Rightarrow> acme option" where
  "tls_renewable t = (case tls_src t of Manual \<Rightarrow> None | Acme acme \<Rightarrow> Some acme)"

text \<open>\<open>renewable_mut\<close> hands out the details to change; the change is the function \<open>f\<close>.\<close>

definition tls_renewable_mut :: "(acme \<Rightarrow> acme) \<Rightarrow> tls \<Rightarrow> tls option" where
  "tls_renewable_mut f t =
    (case tls_src t of Manual \<Rightarrow> None | Acme acme \<Rightarrow> Some (t\<lparr>tls_src := Acme (f acme)\<rparr>))"

definition tls_renewal_due :: "tls \<Rightarrow> int \<Rightarrow> int option" where
  "tls_renewal_due t lead_secs =
    (case tls_renewable t of
       None \<Rightarrow> None
     | Some acme \<Rightarrow> Some (renewal_due (ac_renew_after acme) (tls_not_after t) lead_secs))"

definition tls_needs_renewal :: "tls \<Rightarrow> int \<Rightarrow> int \<Rightarrow> bool" where
  "tls_needs_renewal t now lead_secs =
    (case tls_renewal_due t lead_secs of None \<Rightarrow> False | Some due \<Rightarrow> due \<le> now)"

section \<open>What the plan and the net promise\<close>

lemma sdiv_3_bounds:
  assumes "0 \<le> (n :: int)"
  shows "0 \<le> n sdiv 3" and "n sdiv 3 \<le> n" and "n sdiv 3 = n div 3"
proof -
  show e: "n sdiv 3 = n div 3" using assms by (simp add: signed_divide_int_def sgn_if)
  have "3 * (n div 3) \<le> n" by simp
  moreover have "0 \<le> n div 3" using assms by simp
  ultimately show "0 \<le> n sdiv 3" "n sdiv 3 \<le> n" unfolding e by linarith+
qed

text \<open>The plan lies within the certificate's lifetime.\<close>

lemma renew_after_bounds:
  assumes "in_i64 issued_at" "in_i64 e" "issued_at \<le> e"
  shows "issued_at \<le> renew_after issued_at (Some e)" and "renew_after issued_at (Some e) \<le> e"
proof -
  define l where "l = sat_sub e issued_at"
  have l: "0 \<le> l" "l \<le> e - issued_at" "in_i64 l"
    using assms by (simp_all add: l_def sat_sub_def) (simp_all add: i64_defs)
  define m where "m = sat_mul l 2"
  have m: "0 \<le> m" "m \<le> 2 * l" using l by (simp_all add: m_def i64_defs)
  have d: "0 \<le> m sdiv 3" "m sdiv 3 \<le> l"
    using m l(1) by (simp_all add: sdiv_3_bounds)
  then have "in_i64 (issued_at + m sdiv 3)"
    using assms l(2) by (simp add: i64_defs)
  then have "renew_after issued_at (Some e) = issued_at + m sdiv 3"
    by (simp add: renew_after_def Let_def sat_add_def m_def l_def)
  with d l(2) show "issued_at \<le> renew_after issued_at (Some e)" "renew_after issued_at (Some e) \<le> e"
    by simp_all
qed

text \<open>Where nothing saturates the plan is two thirds of the lifetime.\<close>

lemma renew_after_two_thirds:
  assumes "0 \<le> issued_at" "issued_at \<le> e" "e \<le> 2 ^ 61"
  shows "renew_after issued_at (Some e) = issued_at + 2 * (e - issued_at) div 3"
proof -
  define l where "l = e - issued_at"
  have l: "0 \<le> l" "l \<le> 2 ^ 61" using assms by (simp_all add: l_def)
  have "sat_sub e issued_at = l" and "sat_mul l 2 = 2 * l"
    using l by (simp_all add: l_def i64_defs)
  moreover have "0 \<le> 2 * l div 3" "2 * l div 3 \<le> l" using l(1) by simp_all
  then have "sat_add issued_at (2 * l div 3) = issued_at + 2 * l div 3"
    using assms l by (simp add: i64_defs)
  moreover have "(2 * l) sdiv 3 = 2 * l div 3" using l(1) by (simp add: sdiv_3_bounds)
  ultimately show ?thesis by (simp add: renew_after_def Let_def l_def [symmetric])
qed

lemma tls_needs_renewal_iff:
  "tls_needs_renewal t now lead \<longleftrightarrow>
    (\<exists>acme. tls_src t = Acme acme \<and>
       (ac_renew_after acme \<le> now \<or> (\<exists>e. tls_not_after t = Some e \<and> needs_renewal e now lead)))"
  by (auto simp: tls_needs_renewal_def tls_renewal_due_def tls_renewable_def renewal_due_def
      needs_renewal_def split: tls_source.splits option.splits)

lemma tls_needs_renewal_mono:
  "tls_needs_renewal t now lead \<Longrightarrow> now \<le> later \<Longrightarrow> tls_needs_renewal t later lead"
  by (auto simp: tls_needs_renewal_def split: option.splits)

lemma tls_manual_not_due [simp]: "tls_src t = Manual \<Longrightarrow> \<not> tls_needs_renewal t now lead"
  by (simp add: tls_needs_renewal_iff)

text \<open>Just renewed, a certificate of at least three weeks follows its plan and not the net.\<close>

lemma issued_plan_before_net:
  assumes at: "0 \<le> at" "at \<le> e" "e \<le> 2 ^ 61" and long: "3 * RENEWAL_LEAD_SECS \<le> e - at"
  shows "renewal_due (renew_after at (Some e)) (Some e) RENEWAL_LEAD_SECS = renew_after at (Some e)"
    and "at < renew_after at (Some e)"
proof -
  have "safety_net_at e RENEWAL_LEAD_SECS = e - RENEWAL_LEAD_SECS"
    using at long by (simp add: safety_net_at_def RENEWAL_LEAD_SECS_def DAY_SECS_def i64_defs)
  then show "renewal_due (renew_after at (Some e)) (Some e) RENEWAL_LEAD_SECS = renew_after at (Some e)"
    using long at by (simp add: renewal_due_def renew_after_two_thirds RENEWAL_LEAD_SECS_def DAY_SECS_def)
  show "at < renew_after at (Some e)"
    using long at by (simp add: renew_after_two_thirds RENEWAL_LEAD_SECS_def DAY_SECS_def)
qed

lemma challenge_from_as_str [simp]: "challenge_from_str (challenge_as_str c) = Some c"
  by (cases c) (simp_all add: challenge_from_str_def)

lemma challenge_from_str_Some: "challenge_from_str s = Some c \<longleftrightarrow> s = challenge_as_str c"
  by (cases c) (auto simp: challenge_from_str_def)

lemma valid_challenge_as_str [simp]: "valid_str (challenge_as_str c)"
  by (cases c) simp_all

end
