(* ===== verification/Json.thy ===== *)
theory Json
  imports Interfaces
begin

text \<open>
  \<open>crates/anago-core/src/json.rs\<close>: JSON values, the writer in its compact and its indented form,
  and the parser over the bytes of the input, with the byte offset of every error.
\<close>

section \<open>Values\<close>

definition MAX_DEPTH :: nat where
  "MAX_DEPTH = 64"

text \<open>
  \<open>Value\<close>. An \<open>Object\<close> is its list of pairs in insertion order; \<open>obj_insert\<close> is the only way
  in and refuses a key that is there (\<open>DuplicateKey\<close>, the left of the result).
\<close>

datatype json =
    JNull
  | JBool bool
  | JInt int
  | JStr rstr
  | JArr "json list"
  | JObj "(rstr \<times> json) list"

type_synonym object = "(rstr \<times> json) list"

definition obj_get :: "object \<Rightarrow> rstr \<Rightarrow> json option" where
  "obj_get obj key = map_option snd (List.find (\<lambda>(k, _). k = key) obj)"

definition obj_insert :: "object \<Rightarrow> rstr \<Rightarrow> json \<Rightarrow> rstr + object" where
  "obj_insert obj key v = (if obj_get obj key \<noteq> None then Inl key else Inr (obj @ [(key, v)]))"

fun obj_from_pairs :: "object \<Rightarrow> object \<Rightarrow> rstr + object" where
  "obj_from_pairs obj [] = Inr obj"
| "obj_from_pairs obj ((key, v) # pairs) =
     attempt (obj_insert obj key v) (\<lambda>obj'. obj_from_pairs obj' pairs)"

definition try_obj :: "object \<Rightarrow> rstr + json" where
  "try_obj pairs = attempt (obj_from_pairs [] pairs) (\<lambda>obj. Inr (JObj obj))"

text \<open>
  \<open>Value::obj\<close> panics when a key repeats and is this value otherwise (\<open>try_obj_iff\<close>). That the
  objects the program builds never repeat a key is part of \<open>wf_json\<close> of what it writes.
\<close>

definition value_obj :: "object \<Rightarrow> json" where
  "value_obj pairs = JObj pairs"

fun json_get :: "json \<Rightarrow> rstr \<Rightarrow> json option" where
  "json_get (JObj obj) key = obj_get obj key"
| "json_get _ key = None"

fun as_bool :: "json \<Rightarrow> bool option" where
  "as_bool (JBool b) = Some b"
| "as_bool _ = None"

fun as_i64 :: "json \<Rightarrow> int option" where
  "as_i64 (JInt n) = Some n"
| "as_i64 _ = None"

fun as_str :: "json \<Rightarrow> rstr option" where
  "as_str (JStr s) = Some s"
| "as_str _ = None"

fun as_array :: "json \<Rightarrow> json list option" where
  "as_array (JArr items) = Some items"
| "as_array _ = None"

fun as_object :: "json \<Rightarrow> object option" where
  "as_object (JObj obj) = Some obj"
| "as_object _ = None"

definition is_null :: "json \<Rightarrow> bool" where
  "is_null v \<longleftrightarrow> v = JNull"

lemma obj_get_Nil [simp]: "obj_get [] k = None"
  by (simp add: obj_get_def)

lemma obj_get_Cons [simp]: "obj_get ((k', v) # obj) k = (if k' = k then Some v else obj_get obj k)"
  by (simp add: obj_get_def)

lemma obj_get_append:
  "obj_get (a @ b) k = (case obj_get a k of None \<Rightarrow> obj_get b k | Some v \<Rightarrow> Some v)"
  by (induction a) auto

lemma obj_get_None_iff: "obj_get obj k = None \<longleftrightarrow> k \<notin> fst ` set obj"
proof (induction obj)
  case (Cons p obj)
  then show ?case by (cases p) auto
qed simp

lemma obj_get_Some_mem: "obj_get obj k = Some v \<Longrightarrow> (k, v) \<in> set obj"
  by (induction obj) (auto split: if_splits)

lemma obj_insert_Inr:
  "obj_insert obj k v = Inr obj' \<longleftrightarrow> k \<notin> fst ` set obj \<and> obj' = obj @ [(k, v)]"
  by (auto simp: obj_insert_def obj_get_None_iff)

lemma obj_from_pairs_Inr:
  "distinct (map fst obj) \<Longrightarrow> obj_from_pairs obj pairs = Inr r \<longleftrightarrow>
    distinct (map fst (obj @ pairs)) \<and> r = obj @ pairs"
proof (induction obj pairs arbitrary: r rule: obj_from_pairs.induct)
  case (2 obj key v pairs)
  show ?case
  proof (cases "key \<in> fst ` set obj")
    case True
    then show ?thesis by (auto simp: result_simps obj_insert_Inr)
  next
    case False
    then have "obj_insert obj key v = Inr (obj @ [(key, v)])" by (simp add: obj_insert_Inr)
    with 2 False show ?thesis by auto
  qed
qed auto

lemma try_obj_iff: "try_obj pairs = Inr v \<longleftrightarrow> distinct (map fst pairs) \<and> v = value_obj pairs"
  by (auto simp: try_obj_def result_simps obj_from_pairs_Inr value_obj_def)

section \<open>Writer\<close>

definition write_break :: "nat option \<Rightarrow> nat \<Rightarrow> rstr" where
  "write_break indent depth =
    (case indent of None \<Rightarrow> [] | Some step \<Rightarrow> 10 # replicate (step * depth) 32)"

definition hex4_lower :: "nat \<Rightarrow> rstr" where
  "hex4_lower n = [hex_digit (n div 4096 mod 16), hex_digit (n div 256 mod 16),
     hex_digit (n div 16 mod 16), hex_digit (n mod 16)]"

definition escape_char :: "rchar \<Rightarrow> rstr" where
  "escape_char c =
    (if c = 34 then [92, 34]
     else if c = 92 then [92, 92]
     else if c = 10 then [92, 110]
     else if c = 13 then [92, 114]
     else if c = 9 then [92, 116]
     else if c = 8 then [92, 98]
     else if c = 12 then [92, 102]
     else if c < 0x20 then [92, 117] @ hex4_lower c
     else [c])"

definition write_string :: "rstr \<Rightarrow> rstr" where
  "write_string s = 34 # concat (map escape_char s) @ [34]"

text \<open>
  \<open>write_value\<close> returns what it appends to \<open>out\<close>. The two loops write a comma before every
  element but the first; \<open>first\<close> is the \<open>i > 0\<close> test.
\<close>

fun write_value :: "nat option \<Rightarrow> nat \<Rightarrow> json \<Rightarrow> rstr"
  and write_items :: "nat option \<Rightarrow> nat \<Rightarrow> bool \<Rightarrow> json list \<Rightarrow> rstr"
  and write_pairs :: "nat option \<Rightarrow> nat \<Rightarrow> bool \<Rightarrow> (rstr \<times> json) list \<Rightarrow> rstr"
where
  "write_value indent depth JNull = lit ''null''"
| "write_value indent depth (JBool True) = lit ''true''"
| "write_value indent depth (JBool False) = lit ''false''"
| "write_value indent depth (JInt n) = show_int n"
| "write_value indent depth (JStr s) = write_string s"
| "write_value indent depth (JArr items) =
    (if items = [] then lit ''[]''
     else 91 # write_items indent depth True items @ write_break indent depth @ [93])"
| "write_value indent depth (JObj obj) =
    (if obj = [] then lit ''{}''
     else 123 # write_pairs indent depth True obj @ write_break indent depth @ [125])"
| "write_items indent depth first [] = []"
| "write_items indent depth first (item # items) =
    (if first then [] else [44]) @ write_break indent (depth + 1)
     @ write_value indent (depth + 1) item @ write_items indent depth False items"
| "write_pairs indent depth first [] = []"
| "write_pairs indent depth first ((key, val) # pairs) =
    (if first then [] else [44]) @ write_break indent (depth + 1)
     @ write_string key @ [58] @ (if indent \<noteq> None then [32] else [])
     @ write_value indent (depth + 1) val @ write_pairs indent depth False pairs"

definition to_string :: "json \<Rightarrow> rstr" where
  "to_string v = write_value None 0 v"

definition to_string_pretty :: "json \<Rightarrow> rstr" where
  "to_string_pretty v = write_value (Some 2) 0 v"

section \<open>Parser\<close>

datatype json_error = JsonError (je_msg: rstr) (je_offset: nat)

definition json_error_show :: "json_error \<Rightarrow> rstr" where
  "json_error_show e = je_msg e @ lit '' (at byte '' @ dec_nat (je_offset e) @ lit '')''"

text \<open>\<open>Parser\<close> is the bytes \<open>b\<close>, which never change, and the position \<open>i\<close>, which is passed on.\<close>

definition peek :: "u8 list \<Rightarrow> nat \<Rightarrow> u8 option" where
  "peek b i = (if i < length b then Some (b ! i) else None)"

definition is_ws_byte :: "u8 \<Rightarrow> bool" where
  "is_ws_byte c \<longleftrightarrow> c = 32 \<or> c = 9 \<or> c = 10 \<or> c = 13"

definition is_digit_byte :: "u8 \<Rightarrow> bool" where
  "is_digit_byte c \<longleftrightarrow> 48 \<le> c \<and> c \<le> 57"

function skip_while :: "(u8 \<Rightarrow> bool) \<Rightarrow> u8 list \<Rightarrow> nat \<Rightarrow> nat" where
  "skip_while P b i = (if i < length b \<and> P (b ! i) then skip_while P b (i + 1) else i)"
  by pat_completeness auto
termination
  by (relation "measure (\<lambda>(P, b, i). length b - i)") auto

declare skip_while.simps [simp del]

definition skip_ws :: "u8 list \<Rightarrow> nat \<Rightarrow> nat" where
  "skip_ws b i = skip_while is_ws_byte b i"

definition expect :: "u8 list \<Rightarrow> nat \<Rightarrow> u8 \<Rightarrow> json_error + nat" where
  "expect b i c =
    (if peek b i = Some c then Inr (i + 1)
     else Inl (JsonError (lit ''expected '' @ [39, unat c, 39]) i))"

definition parse_literal :: "u8 list \<Rightarrow> nat \<Rightarrow> rstr \<Rightarrow> json \<Rightarrow> json_error + (json \<times> nat)" where
  "parse_literal b i word v =
    (if take (length (utf8 word)) (drop i b) = utf8 word then Inr (v, i + length (utf8 word))
     else Inl (JsonError (lit ''invalid literal'') i))"

definition hex_byte_value :: "u8 \<Rightarrow> nat option" where
  "hex_byte_value c =
    (if 48 \<le> c \<and> c \<le> 57 then Some (unat c - 48)
     else if 97 \<le> c \<and> c \<le> 102 then Some (unat c - 97 + 10)
     else if 65 \<le> c \<and> c \<le> 70 then Some (unat c - 65 + 10)
     else None)"

fun hex_loop :: "u8 list \<Rightarrow> nat \<Rightarrow> nat option" where
  "hex_loop [] acc = Some acc"
| "hex_loop (c # cs) acc =
    (case hex_byte_value c of None \<Rightarrow> None | Some digit \<Rightarrow> hex_loop cs (acc * 16 + digit))"

definition hex4 :: "u8 list \<Rightarrow> nat \<Rightarrow> json_error + (nat \<times> nat)" where
  "hex4 b i =
    (if length b < i + 4 then Inl (JsonError (lit ''truncated '' @ [92, 117] @ lit '' escape'') i)
     else (case hex_loop (take 4 (drop i b)) 0 of
             None \<Rightarrow> Inl (JsonError (lit ''invalid hex digit in '' @ [92, 117] @ lit '' escape'') i)
           | Some v \<Rightarrow> Inr (v, i + 4)))"

definition char_from_u32 :: "nat \<Rightarrow> rchar option" where
  "char_from_u32 c = (if scalar c then Some c else None)"

definition unicode_escape :: "u8 list \<Rightarrow> nat \<Rightarrow> json_error + (rchar \<times> nat)" where
  "unicode_escape b i =
    attempt (hex4 b i) (\<lambda>(first, i).
    attempt
     (if 0xD800 \<le> first \<and> first \<le> 0xDBFF then
        (if \<not> (peek b i = Some 92 \<and> peek b (i + 1) = Some 117)
         then Inl (JsonError (lit ''lone high surrogate in '' @ [92, 117] @ lit '' escape'') i)
         else attempt (hex4 b (i + 2)) (\<lambda>(low, i).
           if \<not> (0xDC00 \<le> low \<and> low \<le> 0xDFFF)
           then Inl (JsonError (lit ''invalid low surrogate in '' @ [92, 117] @ lit '' escape'') i)
           else Inr (0x10000 + (first - 0xD800) * 1024 + (low - 0xDC00), i)))
      else if 0xDC00 \<le> first \<and> first \<le> 0xDFFF then
        Inl (JsonError (lit ''lone low surrogate in '' @ [92, 117] @ lit '' escape'') i)
      else Inr (first, i))
     (\<lambda>(code, i).
       attempt (ok_or (JsonError (lit ''invalid code point in '' @ [92, 117] @ lit '' escape'') i)
          (char_from_u32 code)) (\<lambda>c. Inr (c, i))))"

text \<open>The escapes of one character, by the byte after the backslash.\<close>

definition simple_escape :: "u8 \<Rightarrow> u8 option" where
  "simple_escape esc =
    (if esc = 34 then Some 34 else if esc = 92 then Some 92 else if esc = 47 then Some 47
     else if esc = 98 then Some 8 else if esc = 102 then Some 12 else if esc = 110 then Some 10
     else if esc = 114 then Some 13 else if esc = 116 then Some 9 else None)"

lemma hex4_pos: "hex4 b i = Inr (v, j) \<Longrightarrow> j = i + 4 \<and> j \<le> length b"
  by (auto simp: hex4_def split: if_splits option.splits)

lemma unicode_escape_pos: "unicode_escape b i = Inr (c, j) \<Longrightarrow> i + 4 \<le> j \<and> j \<le> length b \<and> scalar c"
  by (auto simp: unicode_escape_def result_simps char_from_u32_def
      split: if_splits dest!: hex4_pos)

function string_loop :: "u8 list \<Rightarrow> nat \<Rightarrow> u8 list \<Rightarrow> json_error + (rstr \<times> nat)" where
  "string_loop b i buf =
    (case peek b i of
       None \<Rightarrow> Inl (JsonError (lit ''unterminated string'') i)
     | Some c \<Rightarrow>
         if c = 34 then
           (case utf8_decode buf of
              Some s \<Rightarrow> Inr (s, i + 1)
            | None \<Rightarrow> Inl (JsonError (lit ''invalid UTF-8 in string'') (i + 1)))
         else if c = 92 then
           (case peek b (i + 1) of
              None \<Rightarrow> Inl (JsonError (lit ''unterminated escape'') (i + 1))
            | Some esc \<Rightarrow>
                (case simple_escape esc of
                   Some x \<Rightarrow> string_loop b (i + 2) (buf @ [x])
                 | None \<Rightarrow>
                     if esc = 117 then
                       attempt (unicode_escape b (i + 2))
                         (\<lambda>(decoded, j). string_loop b j (buf @ utf8_char decoded))
                     else Inl (JsonError (lit ''invalid escape'') (i + 2))))
         else if c < 0x20 then
           Inl (JsonError (lit ''unescaped control character in string'') i)
         else string_loop b (i + 1) (buf @ [c]))"
  by pat_completeness auto
termination
  by (relation "measure (\<lambda>(b, i, buf). length b - i)")
    (auto simp: peek_def split: if_splits dest!: unicode_escape_pos)

declare string_loop.simps [simp del]

definition parse_string :: "u8 list \<Rightarrow> nat \<Rightarrow> json_error + (rstr \<times> nat)" where
  "parse_string b i = attempt (expect b i 34) (\<lambda>i. string_loop b i [])"

definition parse_number :: "u8 list \<Rightarrow> nat \<Rightarrow> json_error + (json \<times> nat)" where
  "parse_number b start =
    (let digits_start = (if peek b start = Some 45 then start + 1 else start);
         i = skip_while is_digit_byte b digits_start
     in if i = digits_start then Inl (JsonError (lit ''expected digits in number'') i)
        else if b ! digits_start = 48 \<and> 1 < i - digits_start
          then Inl (JsonError (lit ''leading zero in number'') digits_start)
        else if peek b i = Some 46 \<or> peek b i = Some 101 \<or> peek b i = Some 69
          then Inl (JsonError (lit ''floats are not supported'') i)
        else attempt (ok_or (JsonError (lit ''invalid number'') i)
            (utf8_decode (take (i - start) (drop start b)))) (\<lambda>text.
          attempt (ok_or (JsonError (lit ''integer out of i64 range'') start) (parse_i64 text))
            (\<lambda>n. Inr (JInt n, i))))"

lemma skip_while_le: "i \<le> skip_while P b i"
proof (induction P b i rule: skip_while.induct)
  case (1 P b i)
  then show ?case
    by (subst skip_while.simps) auto
qed

lemma skip_ws_le: "i \<le> skip_ws b i"
  by (simp add: skip_ws_def skip_while_le)

lemma expect_Inr: "expect b i c = Inr j \<longleftrightarrow> i < length b \<and> b ! i = c \<and> j = i + 1"
  by (auto simp: expect_def peek_def)

lemma peek_Some_iff: "peek b i = Some c \<longleftrightarrow> i < length b \<and> b ! i = c"
  by (simp add: peek_def)

lemma peek_lt: "peek b i = Some c \<Longrightarrow> i < length b"
  by (simp add: peek_Some_iff)

lemma string_loop_pos: "string_loop b i buf = Inr (s, j) \<Longrightarrow> i < j \<and> j \<le> length b"
proof (induction b i buf arbitrary: s j rule: string_loop.induct)
  case (1 b i buf)
  note run = 1(4) [unfolded string_loop.simps [of b i buf]]
  then obtain c where c: "peek b i = Some c" by (auto split: option.splits)
  show ?case
  proof (cases "c = 34")
    case True
    with run c show ?thesis by (auto split: option.splits dest: peek_lt)
  next
    case n34: False
    show ?thesis
    proof (cases "c = 92")
      case True
      with run c n34 obtain esc where esc: "peek b (i + 1) = Some esc"
        by (auto split: option.splits)
      show ?thesis
      proof (cases "simple_escape esc")
        case (Some x)
        with run c esc n34 True have "string_loop b (i + 2) (buf @ [x]) = Inr (s, j)" by simp
        from 1(2) [OF c n34 True esc Some this] show ?thesis by linarith
      next
        case None
        with run c esc n34 True have u: "esc = 117"
          and "attempt (unicode_escape b (i + 2))
            (\<lambda>(decoded, j). string_loop b j (buf @ utf8_char decoded)) = Inr (s, j)"
          by (simp_all split: if_splits)
        then obtain dec k where k: "unicode_escape b (i + 2) = Inr (dec, k)"
          and "string_loop b k (buf @ utf8_char dec) = Inr (s, j)"
          by (auto simp: result_simps)
        from 1(1) [OF c n34 True esc None u k refl this(2)] unicode_escape_pos [OF k]
        show ?thesis by linarith
      qed
    next
      case n92: False
      with run c n34 have ge: "\<not> c < 0x20" and "string_loop b (i + 1) (buf @ [c]) = Inr (s, j)"
        by (simp_all split: if_splits)
      from 1(3) [OF c n34 n92 ge this(2)] show ?thesis by linarith
    qed
  qed
qed

lemma parse_string_pos: "parse_string b i = Inr (s, j) \<Longrightarrow> i + 1 < j \<and> j \<le> length b"
  by (auto simp: parse_string_def result_simps expect_Inr dest: string_loop_pos)

lemma skip_while_bound: "i \<noteq> skip_while P b i \<Longrightarrow> skip_while P b i \<le> length b"
proof (induction P b i rule: skip_while.induct)
  case (1 P b i)
  show ?case
  proof (cases "i < length b \<and> P (b ! i)")
    case True
    then have "skip_while P b i = skip_while P b (i + 1)" by (subst skip_while.simps) simp
    with True 1 show ?thesis by (cases "i + 1 = skip_while P b (i + 1)") auto
  next
    case False
    then have "skip_while P b i = i" by (subst skip_while.simps) auto
    with 1(2) show ?thesis by simp
  qed
qed

lemma parse_number_pos: "parse_number b i = Inr (v, j) \<Longrightarrow> i < j \<and> j \<le> length b"
proof -
  assume run: "parse_number b i = Inr (v, j)"
  define k where "k = (if peek b i = Some 45 then i + 1 else i)"
  have "i \<le> k" by (simp add: k_def)
  moreover have "j = skip_while is_digit_byte b k" and "j \<noteq> k"
    using run unfolding parse_number_def Let_def k_def [symmetric]
    by (auto simp: result_simps split: if_splits)
  ultimately show ?thesis
    using skip_while_le [of k is_digit_byte b] skip_while_bound [of k is_digit_byte b] by auto
qed

lemma parse_literal_pos:
  "parse_literal b i word v = Inr (v', j) \<Longrightarrow> word \<noteq> [] \<Longrightarrow> i < j \<and> j \<le> length b"
proof -
  assume run: "parse_literal b i word v = Inr (v', j)" and ne: "word \<noteq> []"
  then have t: "take (length (utf8 word)) (drop i b) = utf8 word" and j: "j = i + length (utf8 word)"
    by (simp_all add: parse_literal_def split: if_splits)
  from ne have "0 < length (utf8 word)" by (cases word) auto
  moreover from t have "length (utf8 word) \<le> length b - i"
    by (metis length_drop length_take min.cobounded1 min.commute)
  ultimately show ?thesis using j by linarith
qed

lemma lit_nonempty [simp]: "lit s = [] \<longleftrightarrow> s = ''''"
  by (simp add: lit_def)

fun parse_measure ::
  "((unicode \<times> u8 list \<times> nat \<times> nat) + (unicode \<times> u8 list \<times> nat \<times> nat)) +
   ((unicode \<times> u8 list \<times> nat \<times> nat \<times> object) +
    ((unicode \<times> u8 list \<times> nat \<times> nat) + (unicode \<times> u8 list \<times> nat \<times> nat \<times> json list))) \<Rightarrow> nat"
where
  "parse_measure (Inl (Inl (u, b, i, d))) = 3 * (length b - i) + 1"
| "parse_measure (Inl (Inr (u, b, i, d))) = 3 * (length b - i)"
| "parse_measure (Inr (Inl (u, b, i, d, obj))) = 3 * (length b - i) + 2"
| "parse_measure (Inr (Inr (Inl (u, b, i, d)))) = 3 * (length b - i)"
| "parse_measure (Inr (Inr (Inr (u, b, i, d, items)))) = 3 * (length b - i) + 2"

function (sequential) parse_value ::
    "unicode \<Rightarrow> u8 list \<Rightarrow> nat \<Rightarrow> nat \<Rightarrow> json_error + (json \<times> nat)"
  and parse_object :: "unicode \<Rightarrow> u8 list \<Rightarrow> nat \<Rightarrow> nat \<Rightarrow> json_error + (json \<times> nat)"
  and object_loop :: "unicode \<Rightarrow> u8 list \<Rightarrow> nat \<Rightarrow> nat \<Rightarrow> object \<Rightarrow> json_error + (json \<times> nat)"
  and parse_array :: "unicode \<Rightarrow> u8 list \<Rightarrow> nat \<Rightarrow> nat \<Rightarrow> json_error + (json \<times> nat)"
  and array_loop :: "unicode \<Rightarrow> u8 list \<Rightarrow> nat \<Rightarrow> nat \<Rightarrow> json list \<Rightarrow> json_error + (json \<times> nat)"
where
  "parse_value u b i d =
    (if MAX_DEPTH < d then Inl (JsonError (lit ''nesting too deep'') i)
     else
       (case peek b i of
          None \<Rightarrow> Inl (JsonError (lit ''unexpected end of input'') i)
        | Some c \<Rightarrow>
            if c = 123 then parse_object u b i d
            else if c = 91 then parse_array u b i d
            else if c = 34 then attempt (parse_string b i) (\<lambda>(s, j). Inr (JStr s, j))
            else if c = 116 then parse_literal b i (lit ''true'') (JBool True)
            else if c = 102 then parse_literal b i (lit ''false'') (JBool False)
            else if c = 110 then parse_literal b i (lit ''null'') JNull
            else if c = 45 \<or> is_digit_byte c then parse_number b i
            else Inl (JsonError (lit ''unexpected character'') i)))"
| "parse_object u b i d =
    attempt (expect b i 123) (\<lambda>i1.
      if peek b (skip_ws b i1) = Some 125 then Inr (JObj [], skip_ws b i1 + 1)
      else object_loop u b (skip_ws b i1) d [])"
| "object_loop u b i d obj =
    (if peek b (skip_ws b i) \<noteq> Some 34 then
       Inl (JsonError (lit ''expected object key'') (skip_ws b i))
     else
       attempt (parse_string b (skip_ws b i)) (\<lambda>(key, i1).
       attempt (expect b (skip_ws b i1) 58) (\<lambda>i2.
       attempt (parse_value u b (skip_ws b i2) (d + 1)) (\<lambda>(v, i3).
       attempt (map_err (\<lambda>k. JsonError (lit ''duplicate key '' @ debug_str u k) (skip_ws b i))
          (obj_insert obj key v)) (\<lambda>obj1.
       if peek b (skip_ws b i3) = Some 44 then object_loop u b (skip_ws b i3 + 1) d obj1
       else if peek b (skip_ws b i3) = Some 125 then Inr (JObj obj1, skip_ws b i3 + 1)
       else Inl (JsonError (lit ''expected '' @ [39, 44, 39] @ lit '' or '' @ [39, 125, 39])
         (skip_ws b i3)))))))"
| "parse_array u b i d =
    attempt (expect b i 91) (\<lambda>i1.
      if peek b (skip_ws b i1) = Some 93 then Inr (JArr [], skip_ws b i1 + 1)
      else array_loop u b (skip_ws b i1) d [])"
| "array_loop u b i d items =
    attempt (parse_value u b (skip_ws b i) (d + 1)) (\<lambda>(v, i1).
      if peek b (skip_ws b i1) = Some 44 then array_loop u b (skip_ws b i1 + 1) d (items @ [v])
      else if peek b (skip_ws b i1) = Some 93 then Inr (JArr (items @ [v]), skip_ws b i1 + 1)
      else Inl (JsonError (lit ''expected '' @ [39, 44, 39] @ lit '' or '' @ [39, 93, 39])
        (skip_ws b i1)))"
  by pat_completeness auto

text \<open>
  Every call that succeeds moves forward. It is proved on the calls that end, and is then what
  makes all of them end: the bytes left decrease, and at the same position a loop calls
  \<open>parse_value\<close>, which calls \<open>parse_object\<close> or \<open>parse_array\<close>.
\<close>

lemma parse_pos_dom:
  "parse_value_parse_object_object_loop_parse_array_array_loop_dom (Inl (Inl (u, b, i, d))) \<Longrightarrow>
     parse_value u b i d = Inr (v, j) \<Longrightarrow> i < j \<and> j \<le> length b"
  "parse_value_parse_object_object_loop_parse_array_array_loop_dom (Inl (Inr (u, b, i, d))) \<Longrightarrow>
     parse_object u b i d = Inr (v, j) \<Longrightarrow> i < j \<and> j \<le> length b"
  "parse_value_parse_object_object_loop_parse_array_array_loop_dom (Inr (Inl (u, b, i, d, obj))) \<Longrightarrow>
     object_loop u b i d obj = Inr (v, j) \<Longrightarrow> i < j \<and> j \<le> length b"
  "parse_value_parse_object_object_loop_parse_array_array_loop_dom (Inr (Inr (Inl (u, b, i, d)))) \<Longrightarrow>
     parse_array u b i d = Inr (v, j) \<Longrightarrow> i < j \<and> j \<le> length b"
  "parse_value_parse_object_object_loop_parse_array_array_loop_dom
       (Inr (Inr (Inr (u, b, i, d, items)))) \<Longrightarrow>
     array_loop u b i d items = Inr (v, j) \<Longrightarrow> i < j \<and> j \<le> length b"
proof (induction u b i d and u b i d and u b i d obj and u b i d and u b i d items
    arbitrary: v j and v j and v j and v j and v j
    rule: parse_value_parse_object_object_loop_parse_array_array_loop.pinduct)
  case (1 u b i d)
  note run = 1(4) [unfolded parse_value.psimps [OF 1(1)]]
  then have d: "\<not> MAX_DEPTH < d" by (auto split: if_splits)
  with run obtain c where c: "peek b i = Some c" by (auto split: option.splits)
  show ?case
  proof (cases "c = 123 \<or> c = 91")
    case True
    with run d c 1(2,3) [OF d c] show ?thesis by (auto split: if_splits)
  next
    case False
    with run d c show ?thesis
      by (auto simp: result_simps split: if_splits
          dest: parse_string_pos parse_number_pos parse_literal_pos)
  qed
next
  case (2 u b i d)
  note run = 2(3) [unfolded parse_object.psimps [OF 2(1)]]
  then obtain i1 where e: "expect b i 123 = Inr i1" by (auto simp: result_simps)
  then have i1: "i1 = i + 1" by (simp add: expect_Inr)
  show ?case
  proof (cases "peek b (skip_ws b i1) = Some 125")
    case True
    with run e i1 skip_ws_le [of "Suc i" b] show ?thesis by (auto dest: peek_lt)
  next
    case False
    with run e have "object_loop u b (skip_ws b i1) d [] = Inr (v, j)" by simp
    from 2(2) [OF e False this] i1 skip_ws_le [of i1 b] show ?thesis by linarith
  qed
next
  case (3 u b i d obj)
  note run = 3(4) [unfolded object_loop.psimps [OF 3(1)]]
  then have q: "\<not> peek b (skip_ws b i) \<noteq> Some 34" by (auto split: if_splits)
  from run q obtain key i1 i2 w i3 obj1
    where s: "parse_string b (skip_ws b i) = Inr (key, i1)"
      and e: "expect b (skip_ws b i1) 58 = Inr i2"
      and w: "parse_value u b (skip_ws b i2) (d + 1) = Inr (w, i3)"
      and ins: "map_err (\<lambda>k. JsonError (lit ''duplicate key '' @ debug_str u k) (skip_ws b i))
          (obj_insert obj key w) = Inr obj1"
      and rest: "(if peek b (skip_ws b i3) = Some 44 then object_loop u b (skip_ws b i3 + 1) d obj1
       else if peek b (skip_ws b i3) = Some 125 then Inr (JObj obj1, skip_ws b i3 + 1)
       else Inl (JsonError (lit ''expected '' @ [39, 44, 39] @ lit '' or '' @ [39, 125, 39])
         (skip_ws b i3))) = Inr (v, j)"
    by (auto simp: attempt_eq_Inr)
  from e have "i2 = skip_ws b i1 + 1" by (simp add: expect_Inr)
  then have lt: "i < i3"
    using parse_string_pos [OF s] 3(2) [OF q s refl e w] skip_ws_le [of i b] skip_ws_le [of i1 b]
      skip_ws_le [of i2 b] by linarith
  show ?case
  proof (cases "peek b (skip_ws b i3) = Some 44")
    case True
    with rest have "object_loop u b (skip_ws b i3 + 1) d obj1 = Inr (v, j)" by simp
    from 3(3) [OF q s refl e w refl ins True this] lt skip_ws_le [of i3 b]
    show ?thesis by linarith
  next
    case False
    with rest lt skip_ws_le [of i3 b] show ?thesis by (auto split: if_splits dest: peek_lt)
  qed
next
  case (4 u b i d)
  note run = 4(3) [unfolded parse_array.psimps [OF 4(1)]]
  then obtain i1 where e: "expect b i 91 = Inr i1" by (auto simp: result_simps)
  then have i1: "i1 = i + 1" by (simp add: expect_Inr)
  show ?case
  proof (cases "peek b (skip_ws b i1) = Some 93")
    case True
    with run e i1 skip_ws_le [of "Suc i" b] show ?thesis by (auto dest: peek_lt)
  next
    case False
    with run e have "array_loop u b (skip_ws b i1) d [] = Inr (v, j)" by simp
    from 4(2) [OF e False this] i1 skip_ws_le [of i1 b] show ?thesis by linarith
  qed
next
  case (5 u b i d items)
  note run = 5(4) [unfolded array_loop.psimps [OF 5(1)]]
  from run obtain w i1 where w: "parse_value u b (skip_ws b i) (d + 1) = Inr (w, i1)"
    by (auto simp: attempt_eq_Inr)
  with run have rest: "(if peek b (skip_ws b i1) = Some 44
      then array_loop u b (skip_ws b i1 + 1) d (items @ [w])
      else if peek b (skip_ws b i1) = Some 93 then Inr (JArr (items @ [w]), skip_ws b i1 + 1)
      else Inl (JsonError (lit ''expected '' @ [39, 44, 39] @ lit '' or '' @ [39, 93, 39])
        (skip_ws b i1))) = Inr (v, j)"
    by simp
  from 5(2) [OF w] skip_ws_le [of i b] have lt: "i < i1" by linarith
  show ?case
  proof (cases "peek b (skip_ws b i1) = Some 44")
    case True
    with rest have "array_loop u b (skip_ws b i1 + 1) d (items @ [w]) = Inr (v, j)" by simp
    from 5(3) [OF w refl True this] lt skip_ws_le [of i1 b] show ?thesis by linarith
  next
    case False
    with rest lt skip_ws_le [of i1 b] show ?thesis by (auto split: if_splits dest: peek_lt)
  qed
qed

termination parse_value
proof (relation "measure parse_measure", goal_cases)
  case (4 u b i d a)
  then show ?case using skip_ws_le [of "Suc i" b] by (auto simp: expect_Inr)
next
  case (5 u b i d obj a x y aa)
  then show ?case
    using skip_ws_le [of i b] skip_ws_le [of y b] skip_ws_le [of aa b]
    by (auto simp: expect_Inr dest!: parse_string_pos)
next
  case (6 u b i d obj a x y aa ab xa ya ac)
  then have "skip_ws b aa < ya"
    using parse_pos_dom(1) [of u b "skip_ws b aa" "d + 1" xa ya] by simp
  with 6 show ?case
    using skip_ws_le [of i b] skip_ws_le [of y b] skip_ws_le [of aa b] skip_ws_le [of ya b]
    by (auto simp: expect_Inr dest!: parse_string_pos peek_lt)
next
  case (7 u b i d a)
  then show ?case using skip_ws_le [of "Suc i" b] by (auto simp: expect_Inr)
next
  case (8 u b i d items)
  then show ?case using skip_ws_le [of i b] by auto
next
  case (9 u b i d items a x y)
  then have "skip_ws b i < y"
    using parse_pos_dom(1) [of u b "skip_ws b i" "d + 1" x y] by simp
  with 9 show ?case
    using skip_ws_le [of i b] skip_ws_le [of y b] by (auto dest!: peek_lt)
qed auto

declare parse_value.simps [simp del] parse_object.simps [simp del] object_loop.simps [simp del]
  parse_array.simps [simp del] array_loop.simps [simp del]

definition json_parse :: "unicode \<Rightarrow> rstr \<Rightarrow> json_error + json" where
  "json_parse u input =
    (let b = utf8 input in
     attempt (parse_value u b (skip_ws b 0) 0) (\<lambda>(v, i).
       if skip_ws b i < length b
       then Inl (JsonError (lit ''trailing content after JSON value'') (skip_ws b i))
       else Inr v))"

end
