(* ===== verification/JsonText.thy ===== *)
theory JsonText
  imports Json
begin

text \<open>
  What relates the two halves of \<open>json.rs\<close>: which values have a text (\<open>wf_json\<close>, \<open>json_depth\<close>),
  that the parser reads both printed forms back, and that it returns no other values.
\<close>

section \<open>The values a document can hold\<close>

text \<open>
  \<open>wf_json\<close> is what the types of \<open>Value\<close> and the private pairs of \<open>Object\<close> guarantee: \<open>i64\<close>
  integers, strings of scalar values and objects that repeat no key. \<open>json_depth\<close> counts the
  containers around the deepest value, the way the parser counts \<open>depth\<close>.
\<close>

fun wf_json :: "json \<Rightarrow> bool" where
  "wf_json JNull = True"
| "wf_json (JBool x) = True"
| "wf_json (JInt n) = in_i64 n"
| "wf_json (JStr s) = valid_str s"
| "wf_json (JArr items) = (\<forall>v \<in> set items. wf_json v)"
| "wf_json (JObj obj) =
    (distinct (map fst obj) \<and> (\<forall>p \<in> set obj. valid_str (fst p) \<and> wf_json (snd p)))"

fun json_depth :: "json \<Rightarrow> nat" where
  "json_depth (JArr items) = foldr (\<lambda>v n. max (Suc (json_depth v)) n) items 0"
| "json_depth (JObj obj) = foldr (\<lambda>p n. max (Suc (json_depth (snd p))) n) obj 0"
| "json_depth _ = 0"

lemma foldr_max_le: "foldr (\<lambda>x n. max (f x) n) xs 0 \<le> (m :: nat) \<longleftrightarrow> (\<forall>x \<in> set xs. f x \<le> m)"
  by (induction xs) auto

lemma json_depth_arr: "json_depth (JArr items) + d \<le> m \<longleftrightarrow> items = [] \<and> d \<le> m \<or>
    items \<noteq> [] \<and> (\<forall>v \<in> set items. json_depth v + (d + 1) \<le> m)"
proof (cases items)
  case (Cons v vs)
  have "json_depth (JArr items) + d \<le> m \<longleftrightarrow> d \<le> m \<and> json_depth (JArr items) \<le> m - d" by auto
  also have "\<dots> \<longleftrightarrow> d \<le> m \<and> (\<forall>v \<in> set items. Suc (json_depth v) \<le> m - d)"
    by (simp only: json_depth.simps foldr_max_le)
  also have "\<dots> \<longleftrightarrow> (\<forall>v \<in> set items. json_depth v + (d + 1) \<le> m)"
    using Cons by auto
  finally show ?thesis using Cons by simp
qed simp

lemma json_depth_obj: "json_depth (JObj obj) + d \<le> m \<longleftrightarrow> obj = [] \<and> d \<le> m \<or>
    obj \<noteq> [] \<and> (\<forall>p \<in> set obj. json_depth (snd p) + (d + 1) \<le> m)"
proof (cases obj)
  case (Cons v vs)
  have "json_depth (JObj obj) + d \<le> m \<longleftrightarrow> d \<le> m \<and> json_depth (JObj obj) \<le> m - d" by auto
  also have "\<dots> \<longleftrightarrow> d \<le> m \<and> (\<forall>p \<in> set obj. Suc (json_depth (snd p)) \<le> m - d)"
    by (simp only: json_depth.simps foldr_max_le)
  also have "\<dots> \<longleftrightarrow> (\<forall>p \<in> set obj. json_depth (snd p) + (d + 1) \<le> m)"
    using Cons by auto
  finally show ?thesis using Cons by simp
qed simp

section \<open>Reading at a position\<close>

lemma peek_drop: "drop i b = x # rest \<Longrightarrow> peek b i = Some x"
  by (auto simp: peek_def dest: nth_drop_split)

lemma drop_step: "drop i b = x # rest \<Longrightarrow> drop (i + 1) b = rest"
  by (auto dest: nth_drop_split)

lemma skip_while_drop:
  assumes "drop i b = ws @ rest" "\<forall>x \<in> set ws. P x" "rest = [] \<or> \<not> P (hd rest)"
  shows "skip_while P b i = i + length ws"
  using assms
proof (induction ws arbitrary: i)
  case Nil
  then have "\<not> (i < length b \<and> P (b ! i))"
    by (cases rest) (auto dest: nth_drop_split)
  then show ?case by (subst skip_while.simps) auto
next
  case (Cons x ws)
  then have "i < length b" "b ! i = x" "drop (i + 1) b = ws @ rest"
    using nth_drop_split [of i b x "ws @ rest"] by simp_all
  with Cons show ?case by (subst skip_while.simps) simp
qed

lemma skip_ws_drop:
  "drop i b = ws @ rest \<Longrightarrow> \<forall>x \<in> set ws. is_ws_byte x \<Longrightarrow> rest = [] \<or> \<not> is_ws_byte (hd rest)
    \<Longrightarrow> skip_ws b i = i + length ws"
  by (simp add: skip_ws_def skip_while_drop)

lemma skip_ws_none: "drop i b = x # rest \<Longrightarrow> \<not> is_ws_byte x \<Longrightarrow> skip_ws b i = i"
  using skip_ws_drop [of i b "[]" "x # rest"] by simp

lemma skip_ws_idem [simp]: "skip_ws b (skip_ws b i) = skip_ws b i"
proof -
  have "skip_while P b (skip_while P b i) = skip_while P b i" for P
  proof (induction P b i rule: skip_while.induct)
    case (1 P b i)
    then show ?case
      by (cases "i < length b \<and> P (b ! i)") (auto simp: skip_while.simps [of P b i])
  qed
  then show ?thesis by (simp add: skip_ws_def)
qed

lemma utf8_ascii: "\<forall>c \<in> set s. c < 0x80 \<Longrightarrow> utf8 s = map byte s"
  by (induction s) auto

lemma utf8_replicate: "c < 0x80 \<Longrightarrow> utf8 (replicate n c) = replicate n (byte c)"
  by (induction n) auto

section \<open>Strings\<close>

lemma utf8_char_high: "0x80 \<le> c \<Longrightarrow> scalar c \<Longrightarrow> x \<in> set (utf8_char c) \<Longrightarrow> 0x80 \<le> unat x"
proof -
  assume c: "0x80 \<le> c" "scalar c" and x: "x \<in> set (utf8_char c)"
  have lt: "c < 0x110000" using c by (auto simp: scalar_def)
  have m: "n mod 64 < 64" for n :: nat by simp
  have u: "unat (byte (k + n mod 64)) = k + n mod 64" if "k \<le> 0x80" for k n
    using m [of n] that by simp
  have "c div 64 < 32" if "c < 0x800" using that by simp
  moreover have "c div 4096 < 16" if "c < 0x10000" using that by simp
  moreover have "c div 262144 < 5" using lt by simp
  ultimately show ?thesis
    using x c u by (auto simp: utf8_char_def split: if_splits)
qed

lemma string_loop_plain:
  "\<forall>x \<in> set bs. 0x20 \<le> x \<and> x \<noteq> 34 \<and> x \<noteq> 92 \<Longrightarrow> drop i b = bs @ rest \<Longrightarrow>
    string_loop b i buf = string_loop b (i + length bs) (buf @ bs)"
proof (induction bs arbitrary: i buf)
  case (Cons x bs)
  then have p: "peek b i = Some x" and d: "drop (i + 1) b = bs @ rest"
    using peek_drop [of i b x] drop_step [of i b x] by simp_all
  have "string_loop b i buf = string_loop b (i + 1) (buf @ [x])"
    using Cons.prems(1) by (subst string_loop.simps) (auto simp: p simp flip: not_le)
  also have "\<dots> = string_loop b (i + 1 + length bs) (buf @ [x] @ bs)"
    using Cons.IH [OF _ d] Cons.prems(1) by simp
  finally show ?case by simp
qed simp

lemma hex_digit_ascii: "d < 16 \<Longrightarrow> hex_digit d < 0x80"
  by (simp add: hex_digit_def)

lemma hex_byte_value_digit: "d < 16 \<Longrightarrow> hex_byte_value (byte (hex_digit d)) = Some d"
  by (auto simp: hex_byte_value_def hex_digit_def word_le_nat_alt)

lemma utf8_hex4_lower:
  "utf8 (hex4_lower c) = map byte (hex4_lower c)"
  by (rule utf8_ascii) (auto simp: hex4_lower_def intro!: hex_digit_ascii)

lemma hex_loop_lower:
  assumes "c < 65536"
  shows "hex_loop (utf8 (hex4_lower c)) 0 = Some c"
proof -
  have "c div 4096 < 16" using assms by simp
  have "c div 256 = c div 16 div 16" "c div 4096 = c div 16 div 16 div 16"
    by (simp_all flip: div_mult2_eq)
  then have c: "((c div 4096 * 16 + c div 256 mod 16) * 16 + c div 16 mod 16) * 16 + c mod 16 = c"
    by (simp only: div_mult_mod_eq)
  have "utf8 (hex4_lower c) = map (\<lambda>d. byte (hex_digit d))
      [c div 4096, c div 256 mod 16, c div 16 mod 16, c mod 16]"
    using \<open>c div 4096 < 16\<close> by (simp add: utf8_hex4_lower) (simp add: hex4_lower_def)
  then have "hex_loop (utf8 (hex4_lower c)) 0
      = Some (((c div 4096 * 16 + c div 256 mod 16) * 16 + c div 16 mod 16) * 16 + c mod 16)"
    using \<open>c div 4096 < 16\<close> by (simp only: list.map hex_loop.simps) (simp add: hex_byte_value_digit)
  then show ?thesis by (simp only: c)
qed

lemma length_hex4_lower [simp]: "length (utf8 (hex4_lower c)) = 4"
  by (simp add: utf8_hex4_lower) (simp add: hex4_lower_def)

lemma unicode_escape_low:
  assumes "c < 0x20" "drop i b = utf8 (hex4_lower c) @ rest"
  shows "unicode_escape b i = Inr (c, i + 4)"
proof -
  have "take 4 (drop i b) = utf8 (hex4_lower c)" by (simp add: assms(2))
  moreover have "length (drop i b) = 4 + length rest" by (simp add: assms(2))
  then have "\<not> length b < i + 4" by simp
  ultimately have "hex4 b i = Inr (c, i + 4)"
    using assms(1) by (simp add: hex4_def hex_loop_lower)
  with assms(1) show ?thesis by (simp add: unicode_escape_def char_from_u32_def)
qed

lemma string_loop_escape:
  assumes c: "scalar c" and d: "drop i b = utf8 (escape_char c) @ rest"
  shows "string_loop b i buf = string_loop b (i + length (utf8 (escape_char c))) (buf @ utf8_char c)"
proof -
  have two: ?thesis
    if e: "escape_char c = [92, x]" "x < 0x80" and s: "simple_escape (byte x) = Some (byte c)"
      and "c < 0x80" for x
  proof -
    have "drop i b = 92 # byte x # rest" using d e by (simp add: byte_def)
    then have "peek b i = Some 92" "peek b (i + 1) = Some (byte x)"
      by (rule peek_drop, rule peek_drop [OF drop_step])
    with s e \<open>c < 0x80\<close> show ?thesis by (subst string_loop.simps) simp
  qed
  define S :: "nat set" where "S = {34, 92, 10, 13, 9, 8, 12}"
  consider (short) "c \<in> S" | (u) "c < 0x20" "c \<notin> S"
    | (ascii) "0x20 \<le> c" "c < 0x80" "c \<notin> S" | (high) "0x80 \<le> c"
    by (metis not_le)
  then show ?thesis
  proof cases
    case u
    then have e: "escape_char c = 92 # 117 # hex4_lower c" by (simp add: escape_char_def S_def)
    then have d0: "drop i b = 92 # 117 # utf8 (hex4_lower c) @ rest" using d by (simp add: byte_def)
    then have p: "peek b i = Some 92" "peek b (i + 1) = Some 117"
      and "drop (i + 2) b = utf8 (hex4_lower c) @ rest"
      using peek_drop [OF d0] drop_step [OF d0] peek_drop [OF drop_step [OF d0]]
        drop_step [OF drop_step [OF d0]] by simp_all
    then have "unicode_escape b (i + 2) = Inr (c, i + 6)"
      using u(1) unicode_escape_low [of c "i + 2"] by (simp add: add.commute)
    moreover have "simple_escape 117 = None" by (simp add: simple_escape_def)
    ultimately show ?thesis
      using p e by (subst string_loop.simps) (simp add: byte_def add.commute [of 6 i])
  next
    case ascii
    then have "escape_char c = [c]" by (simp add: escape_char_def S_def)
    moreover have "0x20 \<le> byte c" "byte c \<noteq> 34" "byte c \<noteq> 92"
      using ascii by (simp_all add: S_def word_le_nat_alt word_unat_eq_iff)
    ultimately show ?thesis
      using string_loop_plain [of "[byte c]" i b rest] d ascii by simp
  next
    case high
    then have "escape_char c = [c]" by (simp add: escape_char_def)
    moreover have "\<forall>x \<in> set (utf8_char c). 0x20 \<le> x \<and> x \<noteq> 34 \<and> x \<noteq> 92"
    proof
      fix x assume "x \<in> set (utf8_char c)"
      then have "0x80 \<le> unat x" by (rule utf8_char_high [OF high c])
      then show "0x20 \<le> x \<and> x \<noteq> 34 \<and> x \<noteq> 92"
        by (auto simp: word_le_nat_alt)
    qed
    ultimately show ?thesis
      using string_loop_plain [of "utf8_char c" i b rest] d by simp
  next
    case short
    then obtain x where "escape_char c = [92, x]" "x < 0x80" "simple_escape (byte x) = Some (byte c)"
      and "c < 0x80"
      unfolding S_def by (auto simp: escape_char_def simple_escape_def byte_def)
    then show ?thesis by (rule two)
  qed
qed

lemma string_loop_written:
  "valid_str s \<Longrightarrow> valid_str pre \<Longrightarrow> drop i b = utf8 (concat (map escape_char s)) @ 34 # rest \<Longrightarrow>
    string_loop b i (utf8 pre)
      = Inr (pre @ s, i + length (utf8 (concat (map escape_char s))) + 1)"
proof (induction s arbitrary: i pre)
  case Nil
  then have "peek b i = Some 34" by (simp add: peek_drop)
  with Nil show ?case by (subst string_loop.simps) simp
next
  case (Cons c s)
  let ?e = "utf8 (escape_char c)"
  have d: "drop i b = ?e @ utf8 (concat (map escape_char s)) @ 34 # rest"
    using Cons.prems(3) by simp
  then have "string_loop b i (utf8 pre) = string_loop b (i + length ?e) (utf8 (pre @ [c]))"
    using string_loop_escape [of c i b] Cons.prems(1) by simp
  also have "\<dots> = Inr ((pre @ [c]) @ s, i + length ?e + length (utf8 (concat (map escape_char s))) + 1)"
    using Cons.prems(1,2) drop_append_length [OF d] by (intro Cons.IH) simp_all
  finally show ?case by simp
qed

lemma parse_string_written:
  assumes "valid_str s" "drop i b = utf8 (write_string s) @ rest"
  shows "parse_string b i = Inr (s, i + length (utf8 (write_string s)))"
proof -
  have d: "drop i b = 34 # utf8 (concat (map escape_char s)) @ 34 # rest"
    using assms(2) by (simp add: write_string_def byte_def)
  have "expect b i 34 = Inr (i + 1)" using peek_drop [OF d] by (simp add: expect_def)
  moreover have "string_loop b (i + 1) (utf8 [])
      = Inr ([] @ s, i + 1 + length (utf8 (concat (map escape_char s))) + 1)"
    by (rule string_loop_written [OF assms(1) _ drop_step [OF d]]) simp
  ultimately show ?thesis by (simp add: parse_string_def write_string_def)
qed

section \<open>Numbers\<close>

text \<open>What may follow a number: white space, a comma, a closing bracket or the end.\<close>

definition stops :: "u8 list \<Rightarrow> bool" where
  "stops rest \<longleftrightarrow> (case rest of [] \<Rightarrow> True | c # _ \<Rightarrow> is_ws_byte c \<or> c = 44 \<or> c = 93 \<or> c = 125)"

lemma stops_simps [simp]: "stops []" "stops (44 # r)" "stops (93 # r)" "stops (125 # r)" "stops (10 # r)"
  by (simp_all add: stops_def is_ws_byte_def)

lemma is_digit_byte_byte: "is_digit c \<Longrightarrow> is_digit_byte (byte c)"
  by (auto simp: is_digit_def is_digit_byte_def word_le_nat_alt)

lemma stops_not_digit: "stops (c # r) \<Longrightarrow> \<not> is_digit_byte c \<and> c \<noteq> 46 \<and> c \<noteq> 101 \<and> c \<noteq> 69"
  by (auto simp: stops_def is_ws_byte_def is_digit_byte_def)

lemma utf8_dec_nat: "utf8 (dec_nat n) = map byte (dec_nat n)"
  by (rule utf8_ascii) (auto dest!: dec_nat_digit simp: is_digit_def)

lemma length_utf8_dec_nat: "length (utf8 (dec_nat n)) = length (dec_nat n)"
  by (simp add: utf8_dec_nat)

lemma parse_number_written:
  assumes n: "in_i64 n" and d: "drop i b = utf8 (show_int n) @ rest" and r: "stops rest"
  shows "parse_number b i = Inr (JInt n, i + length (utf8 (show_int n)))"
proof -
  define k where "k = (if peek b i = Some 45 then i + 1 else i)"
  define ds where "ds = dec_nat (nat \<bar>n\<bar>)"
  obtain c cs where ds: "ds = c # cs" and c: "is_digit c"
    unfolding ds_def by (rule dec_nat_cons)
  have u: "utf8 ds = byte c # map byte cs"
    using utf8_dec_nat [of "nat \<bar>n\<bar>"] by (simp add: ds flip: ds_def)
  have nb: "byte c \<noteq> 45"
    using c by (auto simp: is_digit_def word_unat_eq_iff)
  have k: "drop k b = utf8 ds @ rest \<and> k + length (utf8 ds) = i + length (utf8 (show_int n))"
  proof (cases "n < 0")
    case True
    then have "drop i b = 45 # utf8 ds @ rest" using d by (simp add: show_int_def ds_def byte_def)
    from peek_drop [OF this] drop_step [OF this] True show ?thesis
      by (simp add: k_def show_int_def ds_def)
  next
    case False
    then have "drop i b = byte c # map byte cs @ rest"
      using d u by (simp add: show_int_def ds_def)
    from peek_drop [OF this] nb False d show ?thesis by (simp add: k_def show_int_def ds_def)
  qed
  then have dk: "drop k b = utf8 ds @ rest" and len: "k + length (utf8 ds) = i + length (utf8 (show_int n))"
    by blast+
  have digits: "\<forall>x \<in> set (utf8 ds). is_digit_byte x"
    unfolding ds_def utf8_dec_nat by (auto intro!: is_digit_byte_byte dest: dec_nat_digit)
  have rest: "rest = [] \<or> \<not> is_digit_byte (hd rest)"
    using r stops_not_digit by (cases rest) auto
  define j where "j = skip_while is_digit_byte b k"
  have j: "j = k + length (utf8 ds)"
    unfolding j_def by (rule skip_while_drop [OF dk digits rest])
  have ne: "j \<noteq> k" using u by (simp add: j)
  have bk: "b ! k = byte c" using dk nth_drop_split(2) [of k b "byte c"] by (simp add: u)
  have nz: "\<not> (b ! k = 48 \<and> 1 < j - k)"
  proof
    assume a: "b ! k = 48 \<and> 1 < j - k"
    then have "unat (byte c) = unat (48 :: u8)" by (simp add: bk)
    then have "c = 48" using c by (simp add: is_digit_def)
    then have "n = 0" using hd_dec_nat [of "nat \<bar>n\<bar>"] by (simp add: ds flip: ds_def)
    then have "length ds = 1" by (simp add: ds_def dec_nat.simps [of 0])
    with a show False using length_utf8_dec_nat [of "nat \<bar>n\<bar>"] by (simp add: j flip: ds_def)
  qed
  have dj: "drop j b = rest" using drop_append_length [OF dk] by (simp add: j)
  have pj: "\<not> (peek b j = Some 46 \<or> peek b j = Some 101 \<or> peek b j = Some 69)"
  proof (cases rest)
    case Nil
    then have "peek b j = None" using dj by (simp add: peek_def)
    then show ?thesis by simp
  next
    case (Cons x xs)
    then have "peek b j = Some x" using dj peek_drop by simp
    with r Cons stops_not_digit [of x xs] show ?thesis by simp
  qed
  have span: "take (j - i) (drop i b) = utf8 (show_int n)"
    using d len by (simp add: j)
  have "parse_number b i = Inr (JInt n, j)"
    unfolding parse_number_def Let_def k_def [symmetric] j_def [symmetric]
    using ne nz pj span n by simp
  then show ?thesis by (simp add: j len)
qed

section \<open>Both printed forms parse back\<close>

lemma write_break_ws: "x \<in> set (utf8 (write_break ind k)) \<Longrightarrow> is_ws_byte x"
  by (auto simp: write_break_def utf8_replicate byte_def is_ws_byte_def split: option.splits)

lemma write_string_hd: "utf8 (write_string s) = 34 # utf8 (concat (map escape_char s) @ [34])"
  by (simp add: write_string_def byte_def)

lemma show_int_hd:
  obtains x r where "utf8 (show_int n) = x # r" "x = 45 \<or> is_digit_byte x"
proof (cases "n < 0")
  case True
  then show ?thesis using that by (simp add: show_int_def byte_def)
next
  case False
  obtain c cs where "dec_nat (nat n) = c # cs" "is_digit c" by (rule dec_nat_cons)
  then have "utf8 (show_int n) = byte c # map byte cs" "is_digit_byte (byte c)"
    using False utf8_dec_nat [of "nat n"] by (simp_all add: show_int_def is_digit_byte_byte)
  then show ?thesis using that by blast
qed

text \<open>The first byte of a printed value is no white space and closes nothing.\<close>

lemma write_value_hd:
  obtains x r where "utf8 (write_value ind k v) = x # r" "\<not> is_ws_byte x" "x \<noteq> 93" "x \<noteq> 125"
proof (cases v)
  case JNull
  then show ?thesis using that by (simp add: lit_def byte_def is_ws_byte_def)
next
  case (JBool y)
  then show ?thesis using that by (cases y) (simp_all add: lit_def byte_def is_ws_byte_def)
next
  case (JInt n)
  obtain x r where "utf8 (show_int n) = x # r" "x = 45 \<or> is_digit_byte x" by (rule show_int_hd)
  moreover from this have "\<not> is_ws_byte x" "x \<noteq> 93" "x \<noteq> 125"
    by (auto simp: is_ws_byte_def is_digit_byte_def)
  ultimately show ?thesis using JInt that by simp
next
  case (JStr s)
  with that show ?thesis by (simp add: write_string_hd is_ws_byte_def)
next
  case (JArr items)
  with that show ?thesis by (cases items) (simp_all add: lit_def byte_def is_ws_byte_def)
next
  case (JObj obj)
  with that show ?thesis by (cases obj) (simp_all add: lit_def byte_def is_ws_byte_def)
qed

text \<open>\<open>reads u v\<close>: wherever a printed \<open>v\<close> stands, at whatever indentation, the parser reads it.\<close>

definition reads :: "unicode \<Rightarrow> json \<Rightarrow> bool" where
  "reads u v \<longleftrightarrow> (\<forall>b i d ind k rest. json_depth v + d \<le> MAX_DEPTH \<longrightarrow>
     drop i b = utf8 (write_value ind k v) @ rest \<longrightarrow> stops rest \<longrightarrow>
     parse_value u b i d = Inr (v, i + length (utf8 (write_value ind k v))))"

lemma readsD:
  "reads u v \<Longrightarrow> json_depth v + d \<le> MAX_DEPTH \<Longrightarrow> drop i b = utf8 (write_value ind k v) @ rest \<Longrightarrow>
    stops rest \<Longrightarrow> parse_value u b i d = Inr (v, i + length (utf8 (write_value ind k v)))"
  by (simp add: reads_def)

lemma skip_break:
  assumes "drop i b = utf8 (write_break ind k) @ x # rest" "\<not> is_ws_byte x"
  shows "skip_ws b i = i + length (utf8 (write_break ind k))"
    and "drop (i + length (utf8 (write_break ind k))) b = x # rest"
proof -
  have "\<forall>x \<in> set (utf8 (write_break ind k)). is_ws_byte x" by (blast intro: write_break_ws)
  then show "skip_ws b i = i + length (utf8 (write_break ind k))"
    using assms(2) by (intro skip_ws_drop [OF assms(1)]) simp_all
  show "drop (i + length (utf8 (write_break ind k))) b = x # rest"
    by (rule drop_append_length [OF assms(1)])
qed

lemma peek_break:
  "drop i b = utf8 (write_break ind k) @ x # rest \<Longrightarrow> \<not> is_ws_byte x \<Longrightarrow>
    peek b (skip_ws b i) = Some x"
  using skip_break [of i b ind k x rest] by (simp add: peek_drop)

lemma stops_break: "stops (utf8 (write_break ind k) @ x # rest) \<longleftrightarrow> ind \<noteq> None \<or> stops [x]"
  by (auto simp: write_break_def stops_def byte_def is_ws_byte_def split: option.splits)

lemma write_items_False: "write_items ind k False (v # vs) = 44 # write_items ind k True (v # vs)"
  by simp

lemma write_pairs_False: "write_pairs ind k False (p # ps) = 44 # write_pairs ind k True (p # ps)"
  by (cases p) simp

lemma array_loop_skip: "array_loop u b (skip_ws b i) d items = array_loop u b i d items"
  by (simp add: array_loop.simps)

lemma object_loop_skip: "object_loop u b (skip_ws b i) d obj = object_loop u b i d obj"
  by (simp add: object_loop.simps)

lemma array_loop_written:
  assumes "items \<noteq> []" "\<forall>v \<in> set items. reads u v \<and> json_depth v + (d + 1) \<le> MAX_DEPTH"
    and "drop i b = utf8 (write_items ind k True items @ write_break ind k @ [93]) @ rest"
  shows "array_loop u b i d acc = Inr (JArr (acc @ items),
    i + length (utf8 (write_items ind k True items @ write_break ind k @ [93])))"
  using assms
proof (induction items arbitrary: i acc)
  case Nil
  then show ?case by simp
next
  case (Cons v items)
  let ?br = "utf8 (write_break ind (k + 1))" and ?v = "utf8 (write_value ind (k + 1) v)"
  define tail where "tail = utf8 (write_items ind k False items @ write_break ind k @ [93]) @ rest"
  obtain x r where x: "?v = x # r" "\<not> is_ws_byte x" by (rule write_value_hd)
  have d: "drop i b = ?br @ ?v @ tail" using Cons.prems(3) by (simp add: tail_def)
  define j where "j = i + length ?br"
  have j: "skip_ws b i = j" and dj: "drop j b = ?v @ tail"
    using skip_break [of i b ind "k + 1" x "r @ tail"] d x by (simp_all add: j_def)
  have "stops tail"
    by (cases items) (simp_all add: tail_def byte_def stops_break)
  then have v: "parse_value u b j (d + 1) = Inr (v, j + length ?v)"
    using Cons.prems(2) dj by (intro readsD) simp_all
  have dt: "drop (j + length ?v) b = tail" by (rule drop_append_length [OF dj])
  show ?case
  proof (cases items)
    case Nil
    then have t: "tail = utf8 (write_break ind k) @ 93 # rest" by (simp add: tail_def byte_def)
    note s = skip_break [OF dt [unfolded t]]
    have "skip_ws b (j + length ?v) = j + length ?v + length (utf8 (write_break ind k))"
      and "peek b (j + length ?v + length (utf8 (write_break ind k))) = Some 93"
      using s by (simp_all add: is_ws_byte_def peek_drop)
    with v j Nil show ?thesis
      by (subst array_loop.simps) (simp add: j_def)
  next
    case (Cons w ws)
    then have t: "tail = 44 # utf8 (write_items ind k True items @ write_break ind k @ [93]) @ rest"
      by (simp add: tail_def byte_def)
    have "skip_ws b (j + length ?v) = j + length ?v" and "peek b (j + length ?v) = Some 44"
      using skip_ws_none [OF dt [unfolded t]] peek_drop [OF dt [unfolded t]]
      by (simp_all add: is_ws_byte_def)
    then have "array_loop u b i d acc = array_loop u b (j + length ?v + 1) d (acc @ [v])"
      using v j by (subst array_loop.simps) simp
    also have "\<dots> = Inr (JArr ((acc @ [v]) @ items), j + length ?v + 1
        + length (utf8 (write_items ind k True items @ write_break ind k @ [93])))"
      using Cons.prems(2) Cons drop_step [OF dt [unfolded t]] by (intro Cons.IH) simp_all
    finally show ?thesis using Cons by (simp add: j_def write_items_False)
  qed
qed

lemma object_loop_written:
  assumes "obj \<noteq> []"
    and "\<forall>p \<in> set obj. valid_str (fst p) \<and> reads u (snd p) \<and> json_depth (snd p) + (d + 1) \<le> MAX_DEPTH"
    and "distinct (map fst (acc @ obj))"
    and "drop i b = utf8 (write_pairs ind k True obj @ write_break ind k @ [125]) @ rest"
  shows "object_loop u b i d acc = Inr (JObj (acc @ obj),
    i + length (utf8 (write_pairs ind k True obj @ write_break ind k @ [125])))"
  using assms
proof (induction obj arbitrary: i acc)
  case Nil
  then show ?case by simp
next
  case (Cons p obj)
  obtain key v where p: "p = (key, v)" by (cases p)
  let ?br = "utf8 (write_break ind (k + 1))" and ?v = "utf8 (write_value ind (k + 1) v)"
    and ?key = "utf8 (write_string key)"
  define sp :: "u8 list" where "sp = (if ind \<noteq> None then [32] else [])"
  define tail where "tail = utf8 (write_pairs ind k False obj @ write_break ind k @ [125]) @ rest"
  obtain x r where x: "?v = x # r" "\<not> is_ws_byte x" by (rule write_value_hd)
  have w: "utf8 (write_pairs ind k True (p # obj)) = ?br @ ?key @ 58 # sp @ ?v @ utf8 (write_pairs ind k False obj)"
    by (simp add: p sp_def byte_def)
  have d: "drop i b = ?br @ ?key @ 58 # sp @ ?v @ tail"
    using Cons.prems(4) by (simp only: utf8_append w tail_def append_assoc append_Cons)
  define j where "j = i + length ?br"
  have j: "skip_ws b i = j" and dj: "drop j b = ?key @ 58 # sp @ ?v @ tail"
    using skip_break [of i b ind "k + 1" 34] d by (simp_all add: j_def write_string_hd is_ws_byte_def)
  have pj: "peek b j = Some 34" using dj peek_drop by (simp add: write_string_hd)
  define j1 where "j1 = j + length ?key"
  have key: "parse_string b j = Inr (key, j1)"
    unfolding j1_def using Cons.prems(2) dj by (intro parse_string_written) (simp_all add: p)
  have d1: "drop j1 b = 58 # sp @ ?v @ tail" unfolding j1_def by (rule drop_append_length [OF dj])
  have colon: "skip_ws b j1 = j1" "expect b j1 58 = Inr (j1 + 1)"
    using skip_ws_none [OF d1] peek_drop [OF d1] by (simp_all add: is_ws_byte_def expect_def)
  define j2 where "j2 = j1 + 1 + length sp"
  have "drop (j1 + 1) b = sp @ x # r @ tail" using drop_step [OF d1] x(1) by simp
  from skip_ws_drop [OF this] x(2) have j2: "skip_ws b (j1 + 1) = j2"
    by (simp add: j2_def sp_def is_ws_byte_def)
  have d2: "drop j2 b = ?v @ tail"
    unfolding j2_def using drop_step [OF d1] by (rule drop_append_length)
  have "stops tail"
    by (cases obj) (auto simp: tail_def byte_def stops_break)
  then have v: "parse_value u b j2 (d + 1) = Inr (v, j2 + length ?v)"
    using Cons.prems(2) d2 by (intro readsD) (simp_all add: p)
  have ins: "obj_insert acc key v = Inr (acc @ [p])"
    using Cons.prems(3) by (auto simp: obj_insert_Inr p)
  have dt: "drop (j2 + length ?v) b = tail" by (rule drop_append_length [OF d2])
  have len: "i + length (utf8 (write_pairs ind k True (p # obj))) = j2 + length ?v
      + length (utf8 (write_pairs ind k False obj))"
    by (simp only: w) (simp add: j2_def j1_def j_def)
  show ?case
  proof (cases obj)
    case Nil
    then have t: "tail = utf8 (write_break ind k) @ 125 # rest" by (simp add: tail_def byte_def)
    note s = skip_break [OF dt [unfolded t]]
    have "skip_ws b (j2 + length ?v) = j2 + length ?v + length (utf8 (write_break ind k))"
      and "peek b (j2 + length ?v + length (utf8 (write_break ind k))) = Some 125"
      using s by (simp_all add: is_ws_byte_def peek_drop)
    then have "object_loop u b i d acc = Inr (JObj (acc @ [p]),
        j2 + length ?v + length (utf8 (write_break ind k)) + 1)"
      using v j pj key colon j2 ins by (subst object_loop.simps) simp
    with Nil len show ?thesis by simp
  next
    case (Cons w ws)
    then have t: "tail = 44 # utf8 (write_pairs ind k True obj @ write_break ind k @ [125]) @ rest"
      by (simp add: tail_def byte_def write_pairs_False)
    have "skip_ws b (j2 + length ?v) = j2 + length ?v" and "peek b (j2 + length ?v) = Some 44"
      using skip_ws_none [OF dt [unfolded t]] peek_drop [OF dt [unfolded t]]
      by (simp_all add: is_ws_byte_def)
    then have "object_loop u b i d acc = object_loop u b (j2 + length ?v + 1) d (acc @ [p])"
      using v j pj key colon j2 ins by (subst object_loop.simps) simp
    also have "\<dots> = Inr (JObj ((acc @ [p]) @ obj), j2 + length ?v + 1
        + length (utf8 (write_pairs ind k True obj @ write_break ind k @ [125])))"
      using Cons.prems Cons drop_step [OF dt [unfolded t]] by (intro Cons.IH) simp_all
    finally show ?thesis using Cons len by (simp add: write_pairs_False)
  qed
qed

lemma parse_literal_written:
  "drop i b = utf8 word @ rest \<Longrightarrow> parse_literal b i word v = Inr (v, i + length (utf8 word))"
  by (simp add: parse_literal_def)

lemma reads_literal:
  assumes "\<And>ind k. write_value ind k v = word" "\<And>d. json_depth v = 0" "utf8 word = x # bs"
    and "\<And>u b i d. d \<le> MAX_DEPTH \<Longrightarrow> peek b i = Some x \<Longrightarrow> parse_value u b i d = parse_literal b i word v"
  shows "reads u v"
  unfolding reads_def
proof (intro allI impI)
  fix b i d ind k rest
  assume d: "json_depth v + d \<le> MAX_DEPTH" and dr: "drop i b = utf8 (write_value ind k v) @ rest"
  then have "peek b i = Some x" using assms(1,3) peek_drop [of i b x "bs @ rest"] by simp
  then have "parse_value u b i d = parse_literal b i word v"
    using d assms(2) by (intro assms(4)) simp_all
  with dr show "parse_value u b i d = Inr (v, i + length (utf8 (write_value ind k v)))"
    using assms(1) by (simp add: parse_literal_written)
qed

lemma reads_wf: "wf_json v \<Longrightarrow> reads u v"
proof (induction v)
  case JNull
  show ?case
    by (rule reads_literal [of JNull "lit ''null''" 110 "[117, 108, 108]"])
      (simp_all add: lit_def byte_def parse_value.simps)
next
  case (JBool y)
  show ?case
  proof (cases y)
    case True
    then have y: "y = True" by simp
    show ?thesis unfolding y
      by (rule reads_literal [of _ "lit ''true''" 116 "[114, 117, 101]"])
        (simp_all add: lit_def byte_def parse_value.simps)
  next
    case False
    then have y: "y = False" by simp
    show ?thesis unfolding y
      by (rule reads_literal [of _ "lit ''false''" 102 "[97, 108, 115, 101]"])
        (simp_all add: lit_def byte_def parse_value.simps)
  qed
next
  case (JInt n)
  show ?case unfolding reads_def
  proof (intro allI impI)
    fix b i d ind k rest
    assume d: "json_depth (JInt n) + d \<le> MAX_DEPTH"
      and dr: "drop i b = utf8 (write_value ind k (JInt n)) @ rest" and r: "stops rest"
    obtain x xs where x: "utf8 (show_int n) = x # xs" "x = 45 \<or> is_digit_byte x"
      by (rule show_int_hd)
    then have p: "peek b i = Some x" using dr peek_drop by simp
    have "x \<noteq> 123 \<and> x \<noteq> 91 \<and> x \<noteq> 34 \<and> x \<noteq> 116 \<and> x \<noteq> 102 \<and> x \<noteq> 110"
      using x(2) by (auto simp: is_digit_byte_def)
    then have "parse_value u b i d = parse_number b i"
      using p x(2) d by (subst parse_value.simps) simp
    also have "\<dots> = Inr (JInt n, i + length (utf8 (show_int n)))"
      using JInt dr r by (intro parse_number_written) simp_all
    finally show "parse_value u b i d = Inr (JInt n, i + length (utf8 (write_value ind k (JInt n))))"
      by simp
  qed
next
  case (JStr s)
  show ?case unfolding reads_def
  proof (intro allI impI)
    fix b i d ind k rest
    assume d: "json_depth (JStr s) + d \<le> MAX_DEPTH"
      and dr: "drop i b = utf8 (write_value ind k (JStr s)) @ rest"
    then have "peek b i = Some 34" using peek_drop by (simp add: write_string_hd)
    moreover have "parse_string b i = Inr (s, i + length (utf8 (write_string s)))"
      using JStr dr by (intro parse_string_written) simp_all
    ultimately show "parse_value u b i d = Inr (JStr s, i + length (utf8 (write_value ind k (JStr s))))"
      using d by (subst parse_value.simps) simp
  qed
next
  case (JArr items)
  show ?case unfolding reads_def
  proof (intro allI impI)
    fix b i d ind k rest
    assume d: "json_depth (JArr items) + d \<le> MAX_DEPTH"
      and dr: "drop i b = utf8 (write_value ind k (JArr items)) @ rest"
    show "parse_value u b i d = Inr (JArr items, i + length (utf8 (write_value ind k (JArr items))))"
    proof (cases "items = []")
      case True
      then have d0: "drop i b = 91 # 93 # rest" using dr by (simp add: lit_def byte_def)
      with True d show ?thesis
        using peek_drop [OF d0] peek_drop [OF drop_step [OF d0]] skip_ws_none [OF drop_step [OF d0]]
        by (simp add: parse_value.simps parse_array.simps expect_def is_ws_byte_def lit_def)
    next
      case False
      define body where "body = utf8 (write_items ind k True items @ write_break ind k @ [93])"
      have d0: "drop i b = 91 # body @ rest"
        using dr False by (simp add: body_def byte_def)
      have "array_loop u b (i + 1) d [] = Inr (JArr ([] @ items), i + 1 + length body)"
        using False d JArr drop_step [OF d0] unfolding json_depth_arr body_def
        by (intro array_loop_written) simp_all
      moreover have "peek b (skip_ws b (i + 1)) \<noteq> Some 93"
      proof -
        obtain v vs where vs: "items = v # vs" using False by (cases items) auto
        obtain x r where x: "utf8 (write_value ind (k + 1) v) = x # r" "\<not> is_ws_byte x" "x \<noteq> 93"
          by (rule write_value_hd)
        define t where "t = r @ utf8 (write_items ind k False vs @ write_break ind k @ [93]) @ rest"
        have "drop (i + 1) b = utf8 (write_break ind (k + 1)) @ x # t"
          using drop_step [OF d0] x(1) by (simp add: body_def vs t_def)
        from peek_break [OF this x(2)] x(3) show ?thesis by simp
      qed
      ultimately show ?thesis
        using d False peek_drop [OF d0] array_loop_skip [of u b "i + 1" d]
        by (simp add: parse_value.simps parse_array.simps expect_def body_def)
    qed
  qed
next
  case (JObj obj)
  show ?case unfolding reads_def
  proof (intro allI impI)
    fix b i d ind k rest
    assume d: "json_depth (JObj obj) + d \<le> MAX_DEPTH"
      and dr: "drop i b = utf8 (write_value ind k (JObj obj)) @ rest"
    show "parse_value u b i d = Inr (JObj obj, i + length (utf8 (write_value ind k (JObj obj))))"
    proof (cases "obj = []")
      case True
      then have d0: "drop i b = 123 # 125 # rest" using dr by (simp add: lit_def byte_def)
      with True d show ?thesis
        using peek_drop [OF d0] peek_drop [OF drop_step [OF d0]] skip_ws_none [OF drop_step [OF d0]]
        by (simp add: parse_value.simps parse_object.simps expect_def is_ws_byte_def lit_def)
    next
      case False
      define body where "body = utf8 (write_pairs ind k True obj @ write_break ind k @ [125])"
      have d0: "drop i b = 123 # body @ rest"
        using dr False by (simp add: body_def byte_def)
      have sub: "\<forall>p \<in> set obj. valid_str (fst p) \<and> reads u (snd p)"
        using JObj by (force simp: snds.simps)
      have "object_loop u b (i + 1) d [] = Inr (JObj ([] @ obj), i + 1 + length body)"
        using False d sub JObj.prems drop_step [OF d0] unfolding json_depth_obj body_def
        by (intro object_loop_written) simp_all
      moreover have "peek b (skip_ws b (i + 1)) \<noteq> Some 125"
      proof -
        obtain key v vs where vs: "obj = (key, v) # vs" using False by (cases obj) auto
        have "body = utf8 (write_break ind (k + 1)) @ utf8 (write_string key)
            @ drop (length (utf8 (write_break ind (k + 1)) @ utf8 (write_string key))) body"
          by (simp add: body_def vs)
        then obtain t where "drop (i + 1) b = utf8 (write_break ind (k + 1)) @ 34 # t"
          using drop_step [OF d0] by (metis append_Cons append_assoc write_string_hd)
        from peek_break [OF this] show ?thesis by (simp add: is_ws_byte_def)
      qed
      ultimately show ?thesis
        using d False peek_drop [OF d0] object_loop_skip [of u b "i + 1" d]
        by (simp add: parse_value.simps parse_object.simps expect_def body_def)
    qed
  qed
qed

theorem json_parse_written:
  assumes "wf_json v" "json_depth v \<le> MAX_DEPTH" "\<forall>c \<in> set ws. c \<in> {32, 9, 10, 13}"
  shows "json_parse u (write_value ind 0 v @ ws) = Inr v"
proof -
  let ?t = "utf8 (write_value ind 0 v)"
  have uw: "\<forall>x \<in> set (utf8 ws). is_ws_byte x"
    using assms(3) by (induction ws) (auto simp: byte_def is_ws_byte_def)
  then have st: "stops (utf8 ws)"
    by (cases "utf8 ws") (auto simp: stops_def)
  obtain x r where x: "?t = x # r" "\<not> is_ws_byte x" by (rule write_value_hd)
  define b where "b = ?t @ utf8 ws"
  have "skip_ws b 0 = 0" using x by (intro skip_ws_none [of 0 b x "r @ utf8 ws"]) (simp_all add: b_def)
  moreover have "parse_value u b 0 0 = Inr (v, 0 + length ?t)"
    using assms(2) by (intro readsD [OF reads_wf [OF assms(1)] _ _ st]) (simp_all add: b_def)
  moreover have "skip_ws b (length ?t) = length ?t + length (utf8 ws)"
    using uw by (intro skip_ws_drop [of _ _ _ "[]"]) (simp_all add: b_def)
  ultimately show ?thesis by (simp add: json_parse_def flip: b_def) (simp add: b_def)
qed

section \<open>What the parser returns\<close>

lemma string_loop_valid: "string_loop b i buf = Inr (s, j) \<Longrightarrow> valid_str s"
proof (induction b i buf arbitrary: s j rule: string_loop.induct)
  case (1 b i buf)
  note run = 1(4) [unfolded string_loop.simps [of b i buf]]
  then obtain c where c: "peek b i = Some c" by (auto split: option.splits)
  consider (close) "c = 34" | (esc) "c \<noteq> 34" "c = 92" | (plain) "c \<noteq> 34" "c \<noteq> 92" by blast
  then show ?case
  proof cases
    case close
    with run c show ?thesis by (auto split: option.splits dest: utf8_decode_sound)
  next
    case esc
    with run c obtain e where e: "peek b (i + 1) = Some e" by (auto split: option.splits)
    show ?thesis
    proof (cases "simple_escape e")
      case (Some x)
      with run c e esc have "string_loop b (i + 2) (buf @ [x]) = Inr (s, j)" by simp
      with 1(2) [OF c esc e Some] show ?thesis by blast
    next
      case None
      with run c e esc have h: "e = 117"
        and "attempt (unicode_escape b (i + 2))
          (\<lambda>(decoded, j). string_loop b j (buf @ utf8_char decoded)) = Inr (s, j)"
        by (simp_all split: if_splits)
      then obtain dec k where k: "unicode_escape b (i + 2) = Inr (dec, k)"
        and "string_loop b k (buf @ utf8_char dec) = Inr (s, j)"
        by (auto simp: result_simps)
      with 1(1) [OF c esc e None h k refl] show ?thesis by blast
    qed
  next
    case plain
    with run c have ge: "\<not> c < 0x20" and "string_loop b (i + 1) (buf @ [c]) = Inr (s, j)"
      by (simp_all split: if_splits)
    with 1(3) [OF c plain ge] show ?thesis by blast
  qed
qed

lemma parse_string_valid: "parse_string b i = Inr (s, j) \<Longrightarrow> valid_str s"
  by (auto simp: parse_string_def result_simps dest: string_loop_valid)

lemma parse_i64_range: "parse_i64 s = Some n \<Longrightarrow> in_i64 n"
  by (auto simp: parse_i64_def Let_def split: if_splits)

lemma parse_number_wf: "parse_number b i = Inr (v, j) \<Longrightarrow> wf_json v \<and> json_depth v = 0"
  by (auto simp: parse_number_def Let_def result_simps split: if_splits dest: parse_i64_range)

lemma parse_literal_value: "parse_literal b i word v = Inr (v', j) \<Longrightarrow> v' = v"
  by (simp add: parse_literal_def split: if_splits)

definition sound_at :: "nat \<Rightarrow> json \<Rightarrow> bool" where
  "sound_at d v \<longleftrightarrow> wf_json v \<and> json_depth v + d \<le> MAX_DEPTH"

lemma sound_at_arr_snoc:
  "sound_at d (JArr items) \<Longrightarrow> sound_at (d + 1) v \<Longrightarrow> sound_at d (JArr (items @ [v]))"
  unfolding sound_at_def json_depth_arr by auto

lemma sound_at_obj_snoc:
  "sound_at d (JObj obj) \<Longrightarrow> sound_at (d + 1) v \<Longrightarrow> valid_str key \<Longrightarrow> obj_insert obj key v = Inr obj'
    \<Longrightarrow> sound_at d (JObj obj')"
  unfolding sound_at_def json_depth_obj obj_insert_Inr by auto

lemma parse_sound:
  "parse_value u b i d = Inr (v, j) \<Longrightarrow> sound_at d v"
  "parse_object u b i d = Inr (v, j) \<Longrightarrow> d \<le> MAX_DEPTH \<Longrightarrow> sound_at d v"
  "object_loop u b i d obj = Inr (v, j) \<Longrightarrow> sound_at d (JObj obj) \<Longrightarrow> sound_at d v"
  "parse_array u b i d = Inr (v, j) \<Longrightarrow> d \<le> MAX_DEPTH \<Longrightarrow> sound_at d v"
  "array_loop u b i d items = Inr (v, j) \<Longrightarrow> sound_at d (JArr items) \<Longrightarrow> sound_at d v"
proof (induction u b i d and u b i d and u b i d obj and u b i d and u b i d items
    arbitrary: v j and v j and v j and v j and v j
    rule: parse_value_parse_object_object_loop_parse_array_array_loop.induct)
  case (1 u b i d)
  note run = 1(3) [unfolded parse_value.simps [of u b i d]]
  then have d: "\<not> MAX_DEPTH < d" by (auto split: if_splits)
  with run obtain c where c: "peek b i = Some c" by (auto split: option.splits)
  have leaf: "sound_at d v" if "wf_json v" "json_depth v = 0" for v
    using that d by (simp add: sound_at_def)
  show ?case
  proof (cases "c = 123 \<or> c = 91")
    case True
    with run d c 1(1,2) [OF d c] show ?thesis by (auto split: if_splits)
  next
    case False
    with run d c show ?thesis
      by (auto simp: result_simps split: if_splits intro!: leaf
          dest: parse_string_valid parse_number_wf parse_literal_value)
  qed
next
  case (2 u b i d)
  have "sound_at d (JObj [])" using 2(3) by (simp add: sound_at_def)
  with 2(1,2) show ?case
    by (subst (asm) parse_object.simps) (auto simp: attempt_eq_Inr split: if_splits)
next
  case (3 u b i d obj)
  note run = 3(3) [unfolded object_loop.simps [of u b i d obj]]
  then have q: "\<not> peek b (skip_ws b i) \<noteq> Some 34" by (auto split: if_splits)
  from run q obtain key i1 i2 w i3 obj1
    where s: "parse_string b (skip_ws b i) = Inr (key, i1)"
      and e: "expect b (skip_ws b i1) 58 = Inr i2"
      and w: "parse_value u b (skip_ws b i2) (d + 1) = Inr (w, i3)"
      and ins: "map_err (\<lambda>k. JsonError (lit ''duplicate key '' @ debug_str u k) (skip_ws b i))
          (obj_insert obj key w) = Inr obj1"
      and rest: "(if peek b (skip_ws b i3) = Some 44 then object_loop u b (skip_ws b i3 + 1) d obj1
       else if peek b (skip_ws b i3) = Some 125 then Inr (JObj obj1, skip_ws b i3 + 1)
       else Inl (JsonError (lit ''expected '' @ [39, 44, 39] @ lit '' or '' @ [39, 125, 39])
         (skip_ws b i3))) = Inr (v, j)"
    by (auto simp: attempt_eq_Inr)
  have obj1: "sound_at d (JObj obj1)"
    using 3(4) 3(1) [OF q s refl e w] parse_string_valid [OF s] ins
    by (auto simp: map_err_eq_Inr intro: sound_at_obj_snoc)
  show ?case
  proof (cases "peek b (skip_ws b i3) = Some 44")
    case True
    with rest have "object_loop u b (skip_ws b i3 + 1) d obj1 = Inr (v, j)" by simp
    from 3(2) [OF q s refl e w refl ins True this obj1] show ?thesis .
  next
    case False
    with rest obj1 show ?thesis by (auto split: if_splits)
  qed
next
  case (4 u b i d)
  have "sound_at d (JArr [])" using 4(3) by (simp add: sound_at_def)
  with 4(1,2) show ?case
    by (subst (asm) parse_array.simps) (auto simp: attempt_eq_Inr split: if_splits)
next
  case (5 u b i d items)
  note run = 5(3) [unfolded array_loop.simps [of u b i d items]]
  from run obtain w i1 where w: "parse_value u b (skip_ws b i) (d + 1) = Inr (w, i1)"
    by (auto simp: attempt_eq_Inr)
  with run have rest: "(if peek b (skip_ws b i1) = Some 44
      then array_loop u b (skip_ws b i1 + 1) d (items @ [w])
      else if peek b (skip_ws b i1) = Some 93 then Inr (JArr (items @ [w]), skip_ws b i1 + 1)
      else Inl (JsonError (lit ''expected '' @ [39, 44, 39] @ lit '' or '' @ [39, 93, 39])
        (skip_ws b i1))) = Inr (v, j)"
    by simp
  have items: "sound_at d (JArr (items @ [w]))"
    by (rule sound_at_arr_snoc [OF 5(4) 5(1) [OF w]])
  show ?case
  proof (cases "peek b (skip_ws b i1) = Some 44")
    case True
    with rest have "array_loop u b (skip_ws b i1 + 1) d (items @ [w]) = Inr (v, j)" by simp
    from 5(2) [OF w refl True this items] show ?thesis .
  next
    case False
    with rest items show ?thesis by (auto split: if_splits)
  qed
qed

lemma json_parse_sound: "json_parse u s = Inr v \<Longrightarrow> wf_json v \<and> json_depth v \<le> MAX_DEPTH"
proof -
  assume "json_parse u s = Inr v"
  then obtain j where "parse_value u (utf8 s) (skip_ws (utf8 s) 0) 0 = Inr (v, j)"
    by (auto simp: json_parse_def Let_def result_simps split: if_splits)
  from parse_sound(1) [OF this] show ?thesis by (simp add: sound_at_def)
qed

end
