(* ===== verification/Proto.thy ===== *)
theory Proto
  imports JsonText
begin

text \<open>
  \<open>crates/anago-core/src/proto.rs\<close>: the bodies of the control API, the closed vocabulary of
  failures, and the decoding helpers every reader of the program's JSON shares. The contract a
  type's encoder and decoder keep is the locale \<open>json_codec\<close>; every type here interprets it.
\<close>

section \<open>Decoding\<close>

datatype decode_error_kind = FieldMissing | WrongType | UnknownValue

datatype decode_error = DecodeError (de_field: rstr) (de_kind: decode_error_kind)

definition de_missing :: "rstr \<Rightarrow> decode_error" where
  "de_missing field = DecodeError field FieldMissing"

definition de_wrong_type :: "rstr \<Rightarrow> decode_error" where
  "de_wrong_type field = DecodeError field WrongType"

definition de_unknown_value :: "rstr \<Rightarrow> decode_error" where
  "de_unknown_value field = DecodeError field UnknownValue"

text \<open>The path of a nested field; \<open>StateError::within\<close> joins paths the same way.\<close>

definition path_within :: "rstr \<Rightarrow> rstr \<Rightarrow> rstr" where
  "path_within prefix field = (if field = [] then prefix else prefix @ [46] @ field)"

definition de_within :: "rstr \<Rightarrow> decode_error \<Rightarrow> decode_error" where
  "de_within prefix e = DecodeError (path_within prefix (de_field e)) (de_kind e)"

definition decode_error_show :: "unicode \<Rightarrow> decode_error \<Rightarrow> rstr" where
  "decode_error_show u e =
    (if de_field e = [] then lit ''expected a JSON object''
     else (case de_kind e of
         FieldMissing \<Rightarrow> lit ''missing field '' @ debug_str u (de_field e)
       | WrongType \<Rightarrow> lit ''field '' @ debug_str u (de_field e) @ lit '' has the wrong type''
       | UnknownValue \<Rightarrow> lit ''field '' @ debug_str u (de_field e) @ lit '' has an unknown value''))"

definition object_of :: "json \<Rightarrow> decode_error + object" where
  "object_of v = ok_or (de_wrong_type []) (as_object v)"

definition string_field :: "object \<Rightarrow> rstr \<Rightarrow> decode_error + rstr" where
  "string_field obj name =
    (case obj_get obj name of
       None \<Rightarrow> Inl (de_missing name)
     | Some found \<Rightarrow> ok_or (de_wrong_type name) (as_str found))"

definition indexed :: "rstr \<Rightarrow> nat \<Rightarrow> rstr" where
  "indexed name i = name @ [91] @ dec_nat i @ [93]"

text \<open>
  The loop that decodes the elements of an array, which \<open>PeersResponse\<close> and the state file share:
  it stops at the first element that fails and re-roots its error under \<open>name[i]\<close>.
\<close>

fun decode_elems ::
  "(rstr \<Rightarrow> 'e \<Rightarrow> 'e) \<Rightarrow> (json \<Rightarrow> 'e + 'a) \<Rightarrow> rstr \<Rightarrow> nat \<Rightarrow> json list \<Rightarrow> 'e + 'a list"
where
  "decode_elems within dec name i [] = Inr []"
| "decode_elems within dec name i (item # items) =
    attempt (map_err (within (indexed name i)) (dec item)) (\<lambda>x.
    attempt (decode_elems within dec name (i + 1) items) (\<lambda>xs. Inr (x # xs)))"

lemma object_of_JObj [simp]: "object_of (JObj obj) = Inr obj"
  by (simp add: object_of_def)

lemma object_of_Inr: "object_of v = Inr obj \<longleftrightarrow> v = JObj obj"
  by (cases v) (auto simp: object_of_def)

lemma string_field_Inr: "string_field obj name = Inr s \<longleftrightarrow> obj_get obj name = Some (JStr s)"
proof -
  have "as_str v = Some s \<longleftrightarrow> v = JStr s" for v by (cases v) auto
  then show ?thesis by (auto simp: string_field_def result_simps split: option.splits)
qed

lemma string_field_get [simp]: "obj_get obj name = Some (JStr s) \<Longrightarrow> string_field obj name = Inr s"
  by (simp add: string_field_Inr)

lemma wf_obj_get: "wf_json (JObj obj) \<Longrightarrow> obj_get obj k = Some v \<Longrightarrow> wf_json v"
  by (auto dest!: obj_get_Some_mem)

lemma string_field_valid: "wf_json (JObj obj) \<Longrightarrow> string_field obj name = Inr s \<Longrightarrow> valid_str s"
  by (metis string_field_Inr wf_json.simps(4) wf_obj_get)

lemma decode_elems_Inr:
  "decode_elems within dec name i items = Inr xs \<longleftrightarrow> list_all2 (\<lambda>v x. dec v = Inr x) items xs"
proof (induction items arbitrary: i xs)
  case Nil
  then show ?case by auto
next
  case (Cons v items)
  show ?case by (cases xs) (auto simp: result_simps Cons.IH)
qed

text \<open>
  A decoder and its encoder. \<open>ok\<close> is what the type can hold. The last law keeps the depth of an
  encoding low enough to stand two containers deep in a document the parser accepts.
\<close>

locale json_codec =
  fixes enc :: "'a \<Rightarrow> json"
    and dec :: "json \<Rightarrow> 'e + 'a"
    and ok :: "'a \<Rightarrow> bool"
  assumes dec_enc: "ok x \<Longrightarrow> dec (enc x) = Inr x"
    and dec_ok: "wf_json v \<Longrightarrow> dec v = Inr x \<Longrightarrow> ok x"
    and enc_wf: "ok x \<Longrightarrow> wf_json (enc x)"
    and enc_depth: "json_depth (enc x) + 2 \<le> MAX_DEPTH"
begin

lemma compact_roundtrip: "ok x \<Longrightarrow> attempt (json_parse u (to_string (enc x))) (\<lambda>v. Inr (dec v)) = Inr (Inr x)"
  using json_parse_written [of "enc x" "[]" u None] dec_enc enc_wf enc_depth [of x]
  by (simp add: to_string_def)

lemma pretty_roundtrip:
  "ok x \<Longrightarrow> \<forall>c \<in> set ws. c \<in> {32, 9, 10, 13} \<Longrightarrow> json_parse u (to_string_pretty (enc x) @ ws) = Inr (enc x)"
  unfolding to_string_pretty_def
  by (rule json_parse_written [OF enc_wf]) (use enc_depth [of x] in simp_all)

lemma text_ok: "json_parse u s = Inr v \<Longrightarrow> dec v = Inr x \<Longrightarrow> ok x"
  using json_parse_sound dec_ok by blast

lemma enc_inject: "ok x \<Longrightarrow> ok y \<Longrightarrow> enc x = enc y \<longleftrightarrow> x = y"
  by (metis dec_enc sum.inject(2))

lemma elems_roundtrip:
  "\<forall>x \<in> set xs. ok x \<Longrightarrow> decode_elems within dec name i (map enc xs) = Inr xs"
  by (simp add: decode_elems_Inr list_all2_conv_all_nth dec_enc)

lemma elems_ok:
  "\<forall>v \<in> set items. wf_json v \<Longrightarrow> decode_elems within dec name i items = Inr xs \<Longrightarrow> \<forall>x \<in> set xs. ok x"
proof -
  assume wf: "\<forall>v \<in> set items. wf_json v" and "decode_elems within dec name i items = Inr xs"
  then have "list_all2 (\<lambda>v x. dec v = Inr x) items xs" by (simp add: decode_elems_Inr)
  then show ?thesis using wf
    by (induction rule: list_all2_induct) (auto intro: dec_ok)
qed

lemma elems_wf: "\<forall>x \<in> set xs. ok x \<Longrightarrow> wf_json (JArr (map enc xs))"
  by (simp add: enc_wf)

lemma elems_depth: "json_depth (JArr (map enc xs)) + 1 \<le> MAX_DEPTH"
proof -
  have "\<forall>v \<in> set (map enc xs). json_depth v + (1 + 1) \<le> MAX_DEPTH"
    using enc_depth by simp
  moreover have "1 \<le> MAX_DEPTH" by (simp add: MAX_DEPTH_def)
  ultimately show ?thesis unfolding json_depth_arr by blast
qed

end

section \<open>The vocabulary of failures\<close>

datatype error_code =
    EcInvalidCode | EcInvalidName | EcNameTaken | EcInvalidPublicKey | EcSubnetFull
  | EcUnauthorized | EcNotFound | EcBadRequest | EcInternal

fun error_code_str :: "error_code \<Rightarrow> rstr" where
  "error_code_str EcInvalidCode = lit ''invalid_code''"
| "error_code_str EcInvalidName = lit ''invalid_name''"
| "error_code_str EcNameTaken = lit ''name_taken''"
| "error_code_str EcInvalidPublicKey = lit ''invalid_public_key''"
| "error_code_str EcSubnetFull = lit ''subnet_full''"
| "error_code_str EcUnauthorized = lit ''unauthorized''"
| "error_code_str EcNotFound = lit ''not_found''"
| "error_code_str EcBadRequest = lit ''bad_request''"
| "error_code_str EcInternal = lit ''internal''"

definition error_code_from_wire :: "rstr \<Rightarrow> error_code option" where
  "error_code_from_wire s =
    (if s = lit ''invalid_code'' then Some EcInvalidCode
     else if s = lit ''invalid_name'' then Some EcInvalidName
     else if s = lit ''name_taken'' then Some EcNameTaken
     else if s = lit ''invalid_public_key'' then Some EcInvalidPublicKey
     else if s = lit ''subnet_full'' then Some EcSubnetFull
     else if s = lit ''unauthorized'' then Some EcUnauthorized
     else if s = lit ''not_found'' then Some EcNotFound
     else if s = lit ''bad_request'' then Some EcBadRequest
     else if s = lit ''internal'' then Some EcInternal
     else None)"

lemma error_code_from_wire_str [simp]: "error_code_from_wire (error_code_str c) = Some c"
  by (cases c) (simp_all add: error_code_from_wire_def)

lemma error_code_from_wire_Some: "error_code_from_wire s = Some c \<longleftrightarrow> s = error_code_str c"
proof
  assume "error_code_from_wire s = Some c"
  then show "s = error_code_str c"
    by (auto simp: error_code_from_wire_def split: if_splits)
qed simp

lemma valid_error_code_str [simp]: "valid_str (error_code_str c)"
  by (cases c) simp_all

section \<open>Requests and responses\<close>

record join_request =
  jq_code :: rstr
  jq_name :: rstr
  jq_public_key :: rstr

record join_response =
  js_name :: rstr
  js_address :: rstr
  js_subnet :: rstr
  js_token :: rstr
  js_server_public_key :: rstr
  js_server_endpoint :: rstr
  js_server_address :: rstr

record peer_info =
  pi_name :: rstr
  pi_public_key :: rstr
  pi_address :: rstr

record hub_info =
  hub_subnet :: rstr
  hub_server_public_key :: rstr
  hub_server_endpoint :: rstr
  hub_server_address :: rstr

record peers_response =
  pr_peers :: "peer_info list"
  pr_hub :: "hub_info option"

record api_error =
  ae_code :: error_code
  ae_message :: rstr

definition PATH_JOIN :: rstr where
  "PATH_JOIN = lit ''/api/v1/join''"

definition PATH_PEERS :: rstr where
  "PATH_PEERS = lit ''/api/v1/peers''"

definition api_error_new :: "error_code \<Rightarrow> rstr \<Rightarrow> api_error" where
  "api_error_new code message = \<lparr>ae_code = code, ae_message = message\<rparr>"

definition join_request_to_json :: "join_request \<Rightarrow> json" where
  "join_request_to_json r = value_obj
    [(lit ''code'', JStr (jq_code r)),
     (lit ''name'', JStr (jq_name r)),
     (lit ''public_key'', JStr (jq_public_key r))]"

definition join_request_from_json :: "json \<Rightarrow> decode_error + join_request" where
  "join_request_from_json v =
    attempt (object_of v) (\<lambda>obj.
    attempt (string_field obj (lit ''code'')) (\<lambda>code.
    attempt (string_field obj (lit ''name'')) (\<lambda>name.
    attempt (string_field obj (lit ''public_key'')) (\<lambda>public_key.
      Inr \<lparr>jq_code = code, jq_name = name, jq_public_key = public_key\<rparr>))))"

definition join_response_to_json :: "join_response \<Rightarrow> json" where
  "join_response_to_json r = value_obj
    [(lit ''name'', JStr (js_name r)),
     (lit ''address'', JStr (js_address r)),
     (lit ''subnet'', JStr (js_subnet r)),
     (lit ''token'', JStr (js_token r)),
     (lit ''server_public_key'', JStr (js_server_public_key r)),
     (lit ''server_endpoint'', JStr (js_server_endpoint r)),
     (lit ''server_address'', JStr (js_server_address r))]"

definition join_response_from_json :: "json \<Rightarrow> decode_error + join_response" where
  "join_response_from_json v =
    attempt (object_of v) (\<lambda>obj.
    attempt (string_field obj (lit ''name'')) (\<lambda>name.
    attempt (string_field obj (lit ''address'')) (\<lambda>address.
    attempt (string_field obj (lit ''subnet'')) (\<lambda>subnet.
    attempt (string_field obj (lit ''token'')) (\<lambda>token.
    attempt (string_field obj (lit ''server_public_key'')) (\<lambda>server_public_key.
    attempt (string_field obj (lit ''server_endpoint'')) (\<lambda>server_endpoint.
    attempt (string_field obj (lit ''server_address'')) (\<lambda>server_address.
      Inr \<lparr>js_name = name, js_address = address, js_subnet = subnet, js_token = token,
           js_server_public_key = server_public_key, js_server_endpoint = server_endpoint,
           js_server_address = server_address\<rparr>))))))))"

definition peer_info_to_json :: "peer_info \<Rightarrow> json" where
  "peer_info_to_json p = value_obj
    [(lit ''name'', JStr (pi_name p)),
     (lit ''public_key'', JStr (pi_public_key p)),
     (lit ''address'', JStr (pi_address p))]"

definition peer_info_from_json :: "json \<Rightarrow> decode_error + peer_info" where
  "peer_info_from_json v =
    attempt (object_of v) (\<lambda>obj.
    attempt (string_field obj (lit ''name'')) (\<lambda>name.
    attempt (string_field obj (lit ''public_key'')) (\<lambda>public_key.
    attempt (string_field obj (lit ''address'')) (\<lambda>address.
      Inr \<lparr>pi_name = name, pi_public_key = public_key, pi_address = address\<rparr>))))"

definition HUB_FIELDS :: "rstr list" where
  "HUB_FIELDS = [lit ''subnet'', lit ''server_public_key'', lit ''server_endpoint'',
     lit ''server_address'']"

definition peers_response_to_json :: "peers_response \<Rightarrow> json" where
  "peers_response_to_json r =
    (let peers = JArr (map peer_info_to_json (pr_peers r)) in
     case pr_hub r of
       None \<Rightarrow> value_obj [(lit ''peers'', peers)]
     | Some hub \<Rightarrow> value_obj
         [(lit ''peers'', peers),
          (lit ''subnet'', JStr (hub_subnet hub)),
          (lit ''server_public_key'', JStr (hub_server_public_key hub)),
          (lit ''server_endpoint'', JStr (hub_server_endpoint hub)),
          (lit ''server_address'', JStr (hub_server_address hub))])"

text \<open>
  \<open>None\<close> of the inner \<open>List.find\<close> is the \<open>expect\<close> that a partial set has an absentee; it is
  never reached (\<open>hub_from_fields_no_panic\<close>) and stands as \<open>None\<close> of the whole.
\<close>

definition hub_from_fields :: "object \<Rightarrow> (decode_error + hub_info option) option" where
  "hub_from_fields obj =
    (let present = filter (\<lambda>name. obj_get obj name \<noteq> None) HUB_FIELDS in
     if length present = 0 then Some (Inr None)
     else if length present = 4 then
       Some (attempt (string_field obj (lit ''subnet'')) (\<lambda>subnet.
         attempt (string_field obj (lit ''server_public_key'')) (\<lambda>server_public_key.
         attempt (string_field obj (lit ''server_endpoint'')) (\<lambda>server_endpoint.
         attempt (string_field obj (lit ''server_address'')) (\<lambda>server_address.
           Inr (Some \<lparr>hub_subnet = subnet, hub_server_public_key = server_public_key,
              hub_server_endpoint = server_endpoint, hub_server_address = server_address\<rparr>))))))
     else map_option (\<lambda>missing. Inl (de_missing missing))
       (List.find (\<lambda>name. obj_get obj name = None) HUB_FIELDS))"

definition peers_items :: "object \<Rightarrow> decode_error + json list" where
  "peers_items obj =
    (case obj_get obj (lit ''peers'') of
       None \<Rightarrow> Inl (de_missing (lit ''peers''))
     | Some found \<Rightarrow> ok_or (de_wrong_type (lit ''peers'')) (as_array found))"

definition peers_response_from_json :: "json \<Rightarrow> decode_error + peers_response" where
  "peers_response_from_json v =
    attempt (object_of v) (\<lambda>obj.
    attempt (peers_items obj) (\<lambda>items.
    attempt (decode_elems de_within peer_info_from_json (lit ''peers'') 0 items) (\<lambda>peers.
    attempt (the (hub_from_fields obj)) (\<lambda>hub.
      Inr \<lparr>pr_peers = peers, pr_hub = hub\<rparr>))))"

definition api_error_to_json :: "api_error \<Rightarrow> json" where
  "api_error_to_json e = value_obj
    [(lit ''code'', JStr (error_code_str (ae_code e))),
     (lit ''message'', JStr (ae_message e))]"

definition api_error_from_json :: "json \<Rightarrow> decode_error + api_error" where
  "api_error_from_json v =
    attempt (object_of v) (\<lambda>obj.
    attempt (string_field obj (lit ''code'')) (\<lambda>code.
    attempt (ok_or (de_unknown_value (lit ''code'')) (error_code_from_wire code)) (\<lambda>code.
    attempt (string_field obj (lit ''message'')) (\<lambda>message.
      Inr \<lparr>ae_code = code, ae_message = message\<rparr>))))"

section \<open>Every type keeps the codec's laws\<close>

definition join_request_ok :: "join_request \<Rightarrow> bool" where
  "join_request_ok r \<longleftrightarrow> valid_str (jq_code r) \<and> valid_str (jq_name r) \<and> valid_str (jq_public_key r)"

definition join_response_ok :: "join_response \<Rightarrow> bool" where
  "join_response_ok r \<longleftrightarrow> valid_str (js_name r) \<and> valid_str (js_address r) \<and> valid_str (js_subnet r)
    \<and> valid_str (js_token r) \<and> valid_str (js_server_public_key r)
    \<and> valid_str (js_server_endpoint r) \<and> valid_str (js_server_address r)"

definition peer_info_ok :: "peer_info \<Rightarrow> bool" where
  "peer_info_ok p \<longleftrightarrow> valid_str (pi_name p) \<and> valid_str (pi_public_key p) \<and> valid_str (pi_address p)"

definition hub_info_ok :: "hub_info \<Rightarrow> bool" where
  "hub_info_ok h \<longleftrightarrow> valid_str (hub_subnet h) \<and> valid_str (hub_server_public_key h)
    \<and> valid_str (hub_server_endpoint h) \<and> valid_str (hub_server_address h)"

definition peers_response_ok :: "peers_response \<Rightarrow> bool" where
  "peers_response_ok r \<longleftrightarrow> (\<forall>p \<in> set (pr_peers r). peer_info_ok p)
    \<and> (case pr_hub r of None \<Rightarrow> True | Some h \<Rightarrow> hub_info_ok h)"

definition api_error_ok :: "api_error \<Rightarrow> bool" where
  "api_error_ok e \<longleftrightarrow> valid_str (ae_message e)"

lemmas join_request_defs = join_request_to_json_def join_request_from_json_def join_request_ok_def
lemmas join_response_defs = join_response_to_json_def join_response_from_json_def join_response_ok_def
lemmas peer_info_defs = peer_info_to_json_def peer_info_from_json_def peer_info_ok_def
lemmas api_error_defs = api_error_to_json_def api_error_from_json_def api_error_ok_def

interpretation join_request_codec: json_codec join_request_to_json join_request_from_json join_request_ok
  by unfold_locales
    (auto simp: join_request_defs value_obj_def MAX_DEPTH_def result_simps object_of_Inr
      intro: string_field_valid)

interpretation join_response_codec: json_codec join_response_to_json join_response_from_json join_response_ok
  by unfold_locales
    (auto simp: join_response_defs value_obj_def MAX_DEPTH_def result_simps object_of_Inr
      intro: string_field_valid)

interpretation peer_info_codec: json_codec peer_info_to_json peer_info_from_json peer_info_ok
  by unfold_locales
    (auto simp: peer_info_defs value_obj_def MAX_DEPTH_def result_simps object_of_Inr
      intro: string_field_valid)

interpretation api_error_codec: json_codec api_error_to_json api_error_from_json api_error_ok
  by unfold_locales
    (auto simp: api_error_defs value_obj_def MAX_DEPTH_def result_simps object_of_Inr
      error_code_from_wire_Some intro: string_field_valid)

section \<open>The hub's four fields\<close>

lemma filter_partial: "filter P xs = [] \<or> filter P xs = xs \<or> List.find (\<lambda>x. \<not> P x) xs \<noteq> None"
  by (auto simp: find_None_iff filter_id_conv)

lemma hub_fields_present:
  "length (filter P HUB_FIELDS) = 0 \<longleftrightarrow> (\<forall>name \<in> set HUB_FIELDS. \<not> P name)"
  "length (filter P HUB_FIELDS) = 4 \<longleftrightarrow> (\<forall>name \<in> set HUB_FIELDS. P name)"
proof -
  show "length (filter P HUB_FIELDS) = 0 \<longleftrightarrow> (\<forall>name \<in> set HUB_FIELDS. \<not> P name)"
    by (auto simp: filter_empty_conv)
  have "length HUB_FIELDS = 4" by (simp add: HUB_FIELDS_def)
  then show "length (filter P HUB_FIELDS) = 4 \<longleftrightarrow> (\<forall>name \<in> set HUB_FIELDS. P name)"
    by (metis filter_id_conv length_filter_less less_irrefl)
qed

lemma hub_from_fields_no_panic: "hub_from_fields obj \<noteq> None"
  using filter_partial [of "\<lambda>name. obj_get obj name \<noteq> None" HUB_FIELDS]
  by (auto simp: hub_from_fields_def Let_def HUB_FIELDS_def split: if_splits)

text \<open>All four or none: what a hub says is believed only as a whole.\<close>

lemma hub_from_fields_iff:
  "hub_from_fields obj = Some (Inr hub) \<longleftrightarrow>
    (case hub of
       None \<Rightarrow> \<forall>name \<in> set HUB_FIELDS. obj_get obj name = None
     | Some h \<Rightarrow> obj_get obj (lit ''subnet'') = Some (JStr (hub_subnet h))
         \<and> obj_get obj (lit ''server_public_key'') = Some (JStr (hub_server_public_key h))
         \<and> obj_get obj (lit ''server_endpoint'') = Some (JStr (hub_server_endpoint h))
         \<and> obj_get obj (lit ''server_address'') = Some (JStr (hub_server_address h)))"
proof -
  define names where "names = length (filter (\<lambda>name. obj_get obj name \<noteq> None) HUB_FIELDS)"
  have none: "names = 0 \<longleftrightarrow> (\<forall>name \<in> set HUB_FIELDS. obj_get obj name = None)"
    and all: "names = 4 \<longleftrightarrow> (\<forall>name \<in> set HUB_FIELDS. obj_get obj name \<noteq> None)"
    unfolding names_def using hub_fields_present by simp_all
  consider "names = 0" | "names = 4" | "names \<noteq> 0" "names \<noteq> 4" by blast
  then show ?thesis
  proof cases
    case 1
    then have "hub_from_fields obj = Some (Inr None)"
      by (simp add: hub_from_fields_def Let_def names_def)
    moreover from 1 none have "\<forall>name \<in> set HUB_FIELDS. obj_get obj name = None" by blast
    ultimately show ?thesis by (auto simp: HUB_FIELDS_def split: option.splits)
  next
    case 2
    then have "hub_from_fields obj = Some (attempt (string_field obj (lit ''subnet'')) (\<lambda>subnet.
         attempt (string_field obj (lit ''server_public_key'')) (\<lambda>server_public_key.
         attempt (string_field obj (lit ''server_endpoint'')) (\<lambda>server_endpoint.
         attempt (string_field obj (lit ''server_address'')) (\<lambda>server_address.
           Inr (Some \<lparr>hub_subnet = subnet, hub_server_public_key = server_public_key,
              hub_server_endpoint = server_endpoint, hub_server_address = server_address\<rparr>))))))"
      unfolding hub_from_fields_def Let_def names_def [symmetric] by simp
    moreover from 2 all have "obj_get obj (lit ''subnet'') \<noteq> None" by (simp add: HUB_FIELDS_def)
    ultimately show ?thesis
      by (auto simp: result_simps string_field_Inr HUB_FIELDS_def split: option.splits)
  next
    case 3
    then have "\<exists>e. hub_from_fields obj = Some (Inl e)"
      using hub_from_fields_no_panic [of obj] by (auto simp: hub_from_fields_def Let_def names_def)
    moreover have "\<not> (\<forall>name \<in> set HUB_FIELDS. obj_get obj name = None)"
      and "\<not> (\<forall>name \<in> set HUB_FIELDS. obj_get obj name \<noteq> None)"
      using 3 none all by blast+
    ultimately show ?thesis by (auto simp: HUB_FIELDS_def split: option.splits)
  qed
qed

lemma the_hub_Inr: "the (hub_from_fields obj) = Inr hub \<longleftrightarrow> hub_from_fields obj = Some (Inr hub)"
  using hub_from_fields_no_panic [of obj] by auto

lemma peers_items_Inr: "peers_items obj = Inr items \<longleftrightarrow> obj_get obj (lit ''peers'') = Some (JArr items)"
proof -
  have "as_array v = Some items \<longleftrightarrow> v = JArr items" for v by (cases v) auto
  then show ?thesis by (auto simp: peers_items_def result_simps split: option.splits)
qed

interpretation peers_response_codec:
  json_codec peers_response_to_json peers_response_from_json peers_response_ok
proof
  fix r :: peers_response
  assume ok: "peers_response_ok r"
  define peers where "peers = JArr (map peer_info_to_json (pr_peers r))"
  have "decode_elems de_within peer_info_from_json (lit ''peers'') 0 (map peer_info_to_json (pr_peers r))
      = Inr (pr_peers r)"
    using ok by (intro peer_info_codec.elems_roundtrip) (simp add: peers_response_ok_def)
  moreover have "\<exists>obj. peers_response_to_json r = JObj obj
      \<and> obj_get obj (lit ''peers'') = Some (JArr (map peer_info_to_json (pr_peers r)))
      \<and> hub_from_fields obj = Some (Inr (pr_hub r))"
    by (cases "pr_hub r")
      (simp_all add: peers_response_to_json_def value_obj_def hub_from_fields_iff HUB_FIELDS_def)
  ultimately show "peers_response_from_json (peers_response_to_json r) = Inr r"
    by (auto simp: peers_response_from_json_def result_simps peers_items_Inr)
  have "wf_json (JArr (map peer_info_to_json (pr_peers r)))"
    using ok by (intro peer_info_codec.elems_wf) (simp add: peers_response_ok_def)
  with ok show "wf_json (peers_response_to_json r)"
    by (auto simp: peers_response_to_json_def value_obj_def peers_response_ok_def hub_info_ok_def
        split: option.splits)
next
  fix v r
  assume wf: "wf_json v" and "peers_response_from_json v = Inr r"
  then obtain obj items where v: "v = JObj obj" and items: "obj_get obj (lit ''peers'') = Some (JArr items)"
    and peers: "decode_elems de_within peer_info_from_json (lit ''peers'') 0 items = Inr (pr_peers r)"
    and hub: "hub_from_fields obj = Some (Inr (pr_hub r))"
    by (auto simp: peers_response_from_json_def result_simps object_of_Inr peers_items_Inr the_hub_Inr)
  have "\<forall>p \<in> set (pr_peers r). peer_info_ok p"
    using wf_obj_get [OF wf [unfolded v] items] by (intro peer_info_codec.elems_ok [OF _ peers]) simp
  moreover have "case pr_hub r of None \<Rightarrow> True | Some h \<Rightarrow> hub_info_ok h"
    using hub string_field_valid [OF wf [unfolded v]]
    by (auto simp: hub_from_fields_iff hub_info_ok_def string_field_Inr split: option.splits)
  ultimately show "peers_response_ok r" by (simp add: peers_response_ok_def)
next
  fix r :: peers_response
  show "json_depth (peers_response_to_json r) + 2 \<le> MAX_DEPTH"
  proof -
    have "json_depth (peer_info_to_json p) \<le> 1" for p
      by (simp add: peer_info_to_json_def value_obj_def)
    then have "json_depth (JArr (map peer_info_to_json (pr_peers r))) \<le> 2"
      by (simp add: foldr_max_le del: foldr_map)
    then show ?thesis
      by (cases "pr_hub r") (auto simp: peers_response_to_json_def value_obj_def MAX_DEPTH_def Let_def
          simp del: json_depth.simps(1))
  qed
qed

section \<open>A message that was written is read back\<close>

lemma valid_escape_char: "scalar c \<Longrightarrow> valid_str (escape_char c)"
  by (auto simp: escape_char_def hex4_lower_def lit_Cons
      intro!: scalar_small order.strict_trans [OF hex_digit_ascii])

lemma valid_write_string: "valid_str s \<Longrightarrow> valid_str (write_string s)"
  unfolding write_string_def by (induction s) (auto simp: valid_escape_char)

lemma valid_write_break [simp]: "valid_str (write_break indent depth)"
  by (auto simp: write_break_def valid_str_def list_all_iff split: option.splits)

lemma valid_written:
  "wf_json v \<Longrightarrow> valid_str (write_value indent depth v)"
  "\<forall>v \<in> set items. wf_json v \<Longrightarrow> valid_str (write_items indent depth first items)"
  "\<forall>p \<in> set obj. valid_str (fst p) \<and> wf_json (snd p) \<Longrightarrow> valid_str (write_pairs indent depth first obj)"
  by (induction indent depth v and indent depth first items and indent depth first obj
      rule: write_value_write_items_write_pairs.induct)
    (auto simp: valid_write_string split: if_splits)

context json_codec
begin

lemma valid_text: "ok x \<Longrightarrow> valid_str (to_string (enc x))"
  using enc_wf by (simp add: to_string_def valid_written)

lemma parse_written: "ok x \<Longrightarrow> json_parse u (to_string (enc x)) = Inr (enc x)"
  using json_parse_written [of "enc x" "[]"] enc_wf enc_depth [of x]
  by (simp add: to_string_def MAX_DEPTH_def)

end

end
