(* ===== verification/ServerState.thy ===== *)
theory ServerState
  imports Token JoinCode DevName Subnet Renewal Proto
begin

text \<open>
  \<open>crates/anago-core/src/state.rs\<close> without its codec: everything the hub knows, the two
  transitions that either change the whole state or none of it, the invariant they keep, and
  the abstract hub they refine.
\<close>

section \<open>The state\<close>

definition SCHEMA_VERSION :: int where
  "SCHEMA_VERSION = 2"

definition LEGACY_SCHEMA_VERSION :: int where
  "LEGACY_SCHEMA_VERSION = 1"

datatype private_key = PrivateKey (private_key_str: rstr)

definition private_key_debug :: "private_key \<Rightarrow> rstr" where
  "private_key_debug k = lit ''PrivateKey(redacted)''"

record cloudflare =
  cf_zone_id :: rstr
  cf_record_id :: "rstr option"
  cf_token_path :: "rstr option"

record server_keys =
  sk_private_key :: private_key
  sk_public_key :: rstr
  sk_address :: ipv4

record peer =
  p_name :: device_name
  p_public_key :: rstr
  p_address :: ipv4
  p_token_hash :: token_hash
  p_created_at :: int
  p_last_seen :: "int option"

record server_state =
  st_domain :: rstr
  st_subnet :: subnet
  st_listen_port :: u16
  st_api_port :: u16
  st_tls :: tls
  st_cloudflare :: "cloudflare option"
  st_server :: server_keys
  st_peers :: "peer list"
  st_codes :: "issued_code list"

section \<open>Transitions\<close>

record registration =
  rg_code :: join_code
  rg_name :: device_name
  rg_public_key :: rstr
  rg_token_hash :: token_hash

datatype join_rejection =
    RejUnknownCode
  | RejCodeNotUsable code_status
  | RejNameTaken
  | RejSubnetFull

fun rejection_error_code :: "join_rejection \<Rightarrow> error_code" where
  "rejection_error_code RejUnknownCode = EcInvalidCode"
| "rejection_error_code (RejCodeNotUsable _) = EcInvalidCode"
| "rejection_error_code RejNameTaken = EcNameTaken"
| "rejection_error_code RejSubnetFull = EcSubnetFull"

fun rejection_show :: "join_rejection \<Rightarrow> rstr" where
  "rejection_show RejUnknownCode = lit ''no such join code''"
| "rejection_show (RejCodeNotUsable s) = lit ''join code is '' @ code_status_show s"
| "rejection_show RejNameTaken = lit ''a device with that name is already registered''"
| "rejection_show RejSubnetFull = lit ''no free address left in the subnet''"

definition peer_named :: "server_state \<Rightarrow> device_name \<Rightarrow> peer option" where
  "peer_named st name = List.find (\<lambda>p. p_name p = name) (st_peers st)"

definition used_addresses :: "server_state \<Rightarrow> ipv4 list" where
  "used_addresses st = map p_address (st_peers st)"

text \<open>\<open>add_peer\<close> and \<open>remove_peer\<close> return their result and the state they leave behind.\<close>

definition add_peer :: "registration \<Rightarrow> int \<Rightarrow> server_state \<Rightarrow> (join_rejection + peer) \<times> server_state"
where
  "add_peer reg now st =
    (case position (\<lambda>issued. ic_code issued = rg_code reg) (st_codes st) of
       None \<Rightarrow> (Inl RejUnknownCode, st)
     | Some index \<Rightarrow>
         let status = issued_status (st_codes st ! index) now in
         if \<not> status_usable status then (Inl (RejCodeNotUsable status), st)
         else if is_taken (map (\<lambda>p. name_str (p_name p)) (st_peers st)) (rg_name reg)
           then (Inl RejNameTaken, st)
         else (case subnet_allocate (st_subnet st) (used_addresses st) of
             None \<Rightarrow> (Inl RejSubnetFull, st)
           | Some address \<Rightarrow>
               let codes = (st_codes st)[index := (st_codes st ! index)\<lparr>ic_used_at := Some now\<rparr>];
                   peer = \<lparr>p_name = rg_name reg, p_public_key = rg_public_key reg,
                     p_address = address, p_token_hash = rg_token_hash reg,
                     p_created_at = now, p_last_seen = None\<rparr>
               in (Inr peer, st\<lparr>st_codes := codes, st_peers := st_peers st @ [peer]\<rparr>)))"

definition remove_peer :: "device_name \<Rightarrow> server_state \<Rightarrow> peer option \<times> server_state" where
  "remove_peer name st =
    (case position (\<lambda>p. p_name p = name) (st_peers st) of
       None \<Rightarrow> (None, st)
     | Some index \<Rightarrow>
         (Some (st_peers st ! index), st\<lparr>st_peers := remove_at index (st_peers st)\<rparr>))"

section \<open>What \<open>add_peer\<close> does\<close>

lemma taken_iff:
  "is_taken (map (\<lambda>p. name_str (p_name p)) ps) n \<longleftrightarrow> n \<in> p_name ` set ps"
proof -
  have "name_str a = name_str b \<longleftrightarrow> a = b" for a b by (cases a; cases b) simp
  then show ?thesis by (auto simp: is_taken_iff image_iff)
qed

lemma add_peer_rejected: "add_peer reg now st = (Inl r, st') \<Longrightarrow> st' = st"
  by (auto simp: add_peer_def Let_def split: option.splits if_splits)

text \<open>The code a registration redeems: the first of that spelling.\<close>

definition code_at :: "join_code \<Rightarrow> server_state \<Rightarrow> nat \<Rightarrow> bool" where
  "code_at c st i \<longleftrightarrow> i < length (st_codes st) \<and> ic_code (st_codes st ! i) = c
     \<and> (\<forall>j < i. ic_code (st_codes st ! j) \<noteq> c)"

definition joined :: "registration \<Rightarrow> int \<Rightarrow> nat \<Rightarrow> ipv4 \<Rightarrow> server_state \<Rightarrow> server_state" where
  "joined reg now i a st = st
    \<lparr>st_codes := (st_codes st)[i := (st_codes st ! i)\<lparr>ic_used_at := Some now\<rparr>],
     st_peers := st_peers st @ [\<lparr>p_name = rg_name reg, p_public_key = rg_public_key reg,
       p_address = a, p_token_hash = rg_token_hash reg, p_created_at = now, p_last_seen = None\<rparr>]\<rparr>"

lemma position_code_at: "position (\<lambda>issued. ic_code issued = c) (st_codes st) = Some i \<longleftrightarrow> code_at c st i"
  by (simp add: position_Some code_at_def)

lemma add_peer_accepted:
  "add_peer reg now st = (Inr p, st') \<longleftrightarrow>
    (\<exists>i. code_at (rg_code reg) st i \<and> issued_usable (st_codes st ! i) now \<and>
       rg_name reg \<notin> p_name ` set (st_peers st) \<and>
       subnet_allocate (st_subnet st) (used_addresses st) = Some (p_address p) \<and>
       st' = joined reg now i (p_address p) st \<and> p = last (st_peers st'))"
proof (cases "position (\<lambda>issued. ic_code issued = rg_code reg) (st_codes st)")
  case None
  then have "\<not> code_at (rg_code reg) st i" for i
    using position_code_at [of "rg_code reg" st i] by simp
  with None show ?thesis by (simp add: add_peer_def)
next
  case (Some i)
  then have i: "code_at (rg_code reg) st j \<longleftrightarrow> j = i" for j
    using position_code_at [of "rg_code reg" st j] by auto
  show ?thesis
    by (cases "subnet_allocate (st_subnet st) (used_addresses st)")
      (auto simp: add_peer_def Some i Let_def taken_iff status_usable_iff joined_def)
qed

lemma add_peer_reject_reason:
  "fst (add_peer reg now st) = Inl r \<longleftrightarrow>
    (case position (\<lambda>issued. ic_code issued = rg_code reg) (st_codes st) of
       None \<Rightarrow> r = RejUnknownCode
     | Some i \<Rightarrow>
         if \<not> issued_usable (st_codes st ! i) now
           then r = RejCodeNotUsable (issued_status (st_codes st ! i) now)
         else if rg_name reg \<in> p_name ` set (st_peers st) then r = RejNameTaken
         else r = RejSubnetFull \<and> usable_addresses (st_subnet st) \<subseteq> set (used_addresses st))"
  by (auto simp: add_peer_def Let_def taken_iff status_usable_iff subnet_pool.alloc_None_iff [symmetric]
      split: option.splits)

section \<open>What \<open>remove_peer\<close> does\<close>

lemma remove_peer_None:
  "remove_peer name st = (None, st') \<longleftrightarrow> name \<notin> p_name ` set (st_peers st) \<and> st' = st"
  by (auto simp: remove_peer_def position_None image_iff split: option.splits dest!: position_mem)

lemma remove_peer_Some:
  "remove_peer name st = (Some p, st') \<longleftrightarrow>
    (\<exists>before after. st_peers st = before @ p # after \<and> p_name p = name \<and>
       name \<notin> p_name ` set before \<and> st' = st\<lparr>st_peers := before @ after\<rparr>)"
  (is "?lhs \<longleftrightarrow> ?rhs")
proof
  assume ?lhs
  then obtain i where i: "position (\<lambda>p. p_name p = name) (st_peers st) = Some i"
    and p: "p = st_peers st ! i" and st': "st' = st\<lparr>st_peers := remove_at i (st_peers st)\<rparr>"
    by (auto simp: remove_peer_def split: option.splits)
  from position_split [OF i] p st' show ?rhs
    by (intro exI [of _ "take i (st_peers st)"] exI [of _ "drop (Suc i) (st_peers st)"])
      (auto simp: remove_at_def)
next
  assume ?rhs
  then obtain before after where ps: "st_peers st = before @ p # after" and n: "p_name p = name"
    and new: "name \<notin> p_name ` set before" and st': "st' = st\<lparr>st_peers := before @ after\<rparr>"
    by blast
  have "position (\<lambda>p. p_name p = name) (st_peers st) = Some (length before)"
    using ps n new by (auto simp: position_Some nth_append image_iff) (metis nth_mem)
  then show ?lhs by (simp add: remove_peer_def ps st' remove_at_def)
qed

section \<open>The invariant\<close>

text \<open>
  \<open>state_typed\<close> is what the types and \<open>ServerState::parse\<close> guarantee of every state in memory;
  \<open>state_safe\<close> is what the transitions keep on top of it: no two devices share a name or an
  address, every address is one the subnet may hand out (so never the hub's own \<open>.1\<close>), and no
  two codes are spelled the same.
\<close>

definition acme_typed :: "acme \<Rightarrow> bool" where
  "acme_typed a \<longleftrightarrow> valid_str (ac_directory a) \<and> pred_option valid_str (ac_contact a)
    \<and> valid_str (ac_account_key_path a) \<and> valid_str (ac_account_url a)
    \<and> in_i64 (ac_issued_at a) \<and> in_i64 (ac_renew_after a)"

definition tls_typed :: "tls \<Rightarrow> bool" where
  "tls_typed t \<longleftrightarrow> valid_str (tls_cert_path t) \<and> valid_str (tls_key_path t)
    \<and> opt_in_i64 (tls_not_after t)
    \<and> (case tls_src t of Manual \<Rightarrow> True | Acme a \<Rightarrow> acme_typed a)"

definition cloudflare_typed :: "cloudflare \<Rightarrow> bool" where
  "cloudflare_typed c \<longleftrightarrow> valid_str (cf_zone_id c) \<and> pred_option valid_str (cf_record_id c)
    \<and> pred_option valid_str (cf_token_path c)"

definition server_keys_typed :: "server_keys \<Rightarrow> bool" where
  "server_keys_typed k \<longleftrightarrow> valid_str (private_key_str (sk_private_key k)) \<and> valid_str (sk_public_key k)"

definition peer_typed :: "unicode \<Rightarrow> peer \<Rightarrow> bool" where
  "peer_typed u p \<longleftrightarrow> name_ok u (p_name p) \<and> valid_str (name_str (p_name p))
    \<and> valid_str (p_public_key p) \<and> hex_ok (hash_str (p_token_hash p))
    \<and> in_i64 (p_created_at p) \<and> opt_in_i64 (p_last_seen p)"

definition code_typed :: "issued_code \<Rightarrow> bool" where
  "code_typed c \<longleftrightarrow> code_ok (ic_code c) \<and> in_i64 (ic_issued_at c) \<and> in_i64 (ic_expires_at c)
    \<and> opt_in_i64 (ic_used_at c)"

definition state_typed :: "unicode \<Rightarrow> server_state \<Rightarrow> bool" where
  "state_typed u st \<longleftrightarrow> valid_str (st_domain st) \<and> subnet_ok (st_subnet st) \<and> tls_typed (st_tls st)
    \<and> pred_option cloudflare_typed (st_cloudflare st) \<and> server_keys_typed (st_server st)
    \<and> sk_address (st_server st) = server_address (st_subnet st)
    \<and> (\<forall>p \<in> set (st_peers st). peer_typed u p) \<and> (\<forall>c \<in> set (st_codes st). code_typed c)"

definition state_safe :: "server_state \<Rightarrow> bool" where
  "state_safe st \<longleftrightarrow> distinct (map p_name (st_peers st)) \<and> distinct (used_addresses st)
    \<and> set (used_addresses st) \<subseteq> usable_addresses (st_subnet st)
    \<and> distinct (map ic_code (st_codes st))"

definition registration_typed :: "unicode \<Rightarrow> registration \<Rightarrow> bool" where
  "registration_typed u r \<longleftrightarrow> code_ok (rg_code r) \<and> name_ok u (rg_name r)
    \<and> valid_str (name_str (rg_name r)) \<and> valid_str (rg_public_key r)
    \<and> hex_ok (hash_str (rg_token_hash r))"

lemmas state_typed_defs [wf_simps] = acme_typed_def tls_typed_def cloudflare_typed_def
  server_keys_typed_def peer_typed_def code_typed_def state_typed_def registration_typed_def

lemma joined_simps [simp]:
  "st_domain (joined reg now i a st) = st_domain st"
  "st_subnet (joined reg now i a st) = st_subnet st"
  "st_tls (joined reg now i a st) = st_tls st"
  "st_cloudflare (joined reg now i a st) = st_cloudflare st"
  "st_server (joined reg now i a st) = st_server st"
  by (simp_all add: joined_def)

lemma add_peer_typed:
  assumes "add_peer reg now st = (r, st')" "state_typed u st" "registration_typed u reg" "in_i64 now"
  shows "state_typed u st'"
proof (cases r)
  case (Inl e)
  with assms show ?thesis using add_peer_rejected by metis
next
  case (Inr p)
  with assms(1) obtain i where i: "code_at (rg_code reg) st i" and st': "st' = joined reg now i (p_address p) st"
    by (auto simp: add_peer_accepted)
  from i have mem: "st_codes st ! i \<in> set (st_codes st)" by (simp add: code_at_def)
  have "\<forall>c \<in> set (st_codes st'). code_typed c"
    using assms(2,4) mem unfolding st'
    by (auto simp: joined_def state_typed_def code_typed_def dest!: set_update_subset_insert [THEN subsetD])
  moreover have "\<forall>p \<in> set (st_peers st'). peer_typed u p"
    using assms(2,3,4) unfolding st'
    by (auto simp: joined_def state_typed_def peer_typed_def registration_typed_def)
  ultimately show ?thesis using assms(2) unfolding st' by (simp add: state_typed_def)
qed

lemma used_addresses_joined: "used_addresses (joined reg now i a st) = used_addresses st @ [a]"
  by (simp add: used_addresses_def joined_def)

lemma codes_joined: "map ic_code (st_codes (joined reg now i a st)) = map ic_code (st_codes st)"
  by (cases "i < length (st_codes st)") (simp_all add: joined_def map_update list_update_same_conv list_update_beyond not_less)

lemma add_peer_safe:
  assumes "add_peer reg now st = (r, st')" "state_safe st"
  shows "state_safe st'"
proof (cases r)
  case (Inl e)
  with assms show ?thesis using add_peer_rejected by metis
next
  case (Inr p)
  with assms(1) obtain i where st': "st' = joined reg now i (p_address p) st"
    and new: "rg_name reg \<notin> p_name ` set (st_peers st)"
    and a: "subnet_allocate (st_subnet st) (used_addresses st) = Some (p_address p)"
    by (auto simp: add_peer_accepted)
  have "distinct (used_addresses st @ [p_address p])"
    and "set (used_addresses st @ [p_address p]) \<subseteq> usable_addresses (st_subnet st)"
    using assms(2) a subnet_pool.alloc_extends unfolding state_safe_def by blast+
  moreover have "distinct (map p_name (st_peers st'))"
    using assms(2) new unfolding st' by (auto simp: state_safe_def joined_def)
  ultimately show ?thesis
    using assms(2) unfolding st' by (simp add: state_safe_def used_addresses_joined codes_joined)
qed

lemma remove_peer_typed: "remove_peer name st = (r, st') \<Longrightarrow> state_typed u st \<Longrightarrow> state_typed u st'"
  by (cases r) (auto simp: remove_peer_None remove_peer_Some state_typed_def)

lemma remove_peer_safe: "remove_peer name st = (r, st') \<Longrightarrow> state_safe st \<Longrightarrow> state_safe st'"
  by (cases r)
    (auto simp: remove_peer_None remove_peer_Some state_safe_def used_addresses_def image_subset_iff)

lemma state_safe_count: "state_safe st \<Longrightarrow> length (st_peers st) \<le> 253"
  using subnet_pool.pool_bound [of "used_addresses st" "st_subnet st"]
  by (simp add: state_safe_def card_usable) (simp add: used_addresses_def)

lemma state_safe_no_hub_address:
  "state_safe st \<Longrightarrow> p \<in> set (st_peers st) \<Longrightarrow> p_address p \<noteq> server_address (st_subnet st)"
  using server_address_not_usable [of "st_subnet st"] by (auto simp: state_safe_def used_addresses_def)

text \<open>A spent code stays spent, and what is spent is never accepted again.\<close>

lemma add_peer_spends:
  assumes "add_peer reg now st = (Inr p, st')" "distinct (map ic_code (st_codes st))"
    and "c \<in> set (st_codes st')" "ic_code c = rg_code reg"
  shows "ic_used_at c = Some now"
proof -
  from assms(1) obtain i where i: "code_at (rg_code reg) st i" and st': "st' = joined reg now i (p_address p) st"
    by (auto simp: add_peer_accepted)
  then have codes: "st_codes st' = (st_codes st)[i := (st_codes st ! i)\<lparr>ic_used_at := Some now\<rparr>]"
    by (simp add: joined_def)
  from assms(3) obtain j where j: "j < length (st_codes st)" "c = st_codes st' ! j"
    by (auto simp: in_set_conv_nth codes)
  have "ic_code (st_codes st' ! j) = ic_code (st_codes st ! j)"
    using j(1) by (cases "j = i") (simp_all add: codes)
  then have "map ic_code (st_codes st) ! j = map ic_code (st_codes st) ! i"
    using assms(4) i j by (simp add: code_at_def)
  then have "j = i"
    using nth_eq_iff_index_eq [OF assms(2), of j i] i j(1) by (simp add: code_at_def)
  then show ?thesis using j by (simp add: codes)
qed

end
