(* ===== verification/StateCodec.thy ===== *)
theory StateCodec
  imports ServerState
begin

text \<open>
  The codec of \<open>crates/anago-core/src/state.rs\<close>: the state file's schema in both directions, with
  the version check, the upgrade of version 1 and every field validated by the type that owns it.
\<close>

section \<open>Errors\<close>

datatype state_error =
    StateJson json_error
  | StateShape decode_error
  | UnsupportedVersion int
  | BadValue rstr rstr

fun se_within :: "rstr \<Rightarrow> state_error \<Rightarrow> state_error" where
  "se_within prefix (StateShape e) = StateShape (de_within prefix e)"
| "se_within prefix (BadValue field message) = BadValue (path_within prefix field) message"
| "se_within prefix other = other"

fun state_error_show :: "unicode \<Rightarrow> state_error \<Rightarrow> rstr" where
  "state_error_show u (StateJson e) = lit ''state file is not valid JSON: '' @ json_error_show e"
| "state_error_show u (StateShape e) = decode_error_show u e"
| "state_error_show u (UnsupportedVersion version) =
     lit ''state file is version '' @ show_int version @ lit '', this build writes ''
     @ show_int SCHEMA_VERSION @ lit '' and reads '' @ show_int LEGACY_SCHEMA_VERSION"
| "state_error_show u (BadValue field message) =
     lit ''field '' @ debug_str u field @ lit '': '' @ message"

text \<open>\<open>?\<close> on a \<open>DecodeError\<close> where a \<open>StateError\<close> is returned.\<close>

definition shape :: "decode_error + 'a \<Rightarrow> state_error + 'a" where
  "shape r = map_err StateShape r"

lemma shape_Inr [result_simps]: "shape r = Inr x \<longleftrightarrow> r = Inr x"
  by (simp add: shape_def map_err_eq_Inr)

lemma shape_Inr_simp [simp]: "shape (Inr x) = Inr x"
  by (simp add: shape_def)

section \<open>Fields\<close>

definition opt_str :: "rstr option \<Rightarrow> json" where
  "opt_str text = (case text of Some text \<Rightarrow> JStr text | None \<Rightarrow> JNull)"

definition opt_time :: "int option \<Rightarrow> json" where
  "opt_time at = (case at of Some at \<Rightarrow> JInt at | None \<Rightarrow> JNull)"

definition int_field :: "object \<Rightarrow> rstr \<Rightarrow> decode_error + int" where
  "int_field obj name =
    (case obj_get obj name of
       None \<Rightarrow> Inl (de_missing name)
     | Some found \<Rightarrow> ok_or (de_wrong_type name) (as_i64 found))"

definition opt_int_field :: "object \<Rightarrow> rstr \<Rightarrow> decode_error + int option" where
  "opt_int_field obj name =
    (case obj_get obj name of
       None \<Rightarrow> Inl (de_missing name)
     | Some JNull \<Rightarrow> Inr None
     | Some found \<Rightarrow> ok_or (de_wrong_type name) (map_option Some (as_i64 found)))"

definition opt_string_field :: "object \<Rightarrow> rstr \<Rightarrow> decode_error + rstr option" where
  "opt_string_field obj name =
    (case obj_get obj name of
       None \<Rightarrow> Inl (de_missing name)
     | Some JNull \<Rightarrow> Inr None
     | Some found \<Rightarrow> ok_or (de_wrong_type name) (map_option Some (as_str found)))"

definition object_field :: "object \<Rightarrow> rstr \<Rightarrow> decode_error + object" where
  "object_field obj name =
    (case obj_get obj name of
       None \<Rightarrow> Inl (de_missing name)
     | Some found \<Rightarrow> ok_or (de_wrong_type name) (as_object found))"

definition opt_object_field :: "object \<Rightarrow> rstr \<Rightarrow> decode_error + object option" where
  "opt_object_field obj name =
    (case obj_get obj name of
       None \<Rightarrow> Inl (de_missing name)
     | Some JNull \<Rightarrow> Inr None
     | Some found \<Rightarrow> ok_or (de_wrong_type name) (map_option Some (as_object found)))"

definition array_field :: "object \<Rightarrow> rstr \<Rightarrow> decode_error + json list" where
  "array_field obj name =
    (case obj_get obj name of
       None \<Rightarrow> Inl (de_missing name)
     | Some found \<Rightarrow> ok_or (de_wrong_type name) (as_array found))"

definition u16_try_from :: "int \<Rightarrow> u16 option" where
  "u16_try_from n = (if 0 \<le> n \<and> n \<le> 65535 then Some (of_int n) else None)"

definition port_field :: "object \<Rightarrow> rstr \<Rightarrow> state_error + u16" where
  "port_field obj name =
    attempt (shape (int_field obj name)) (\<lambda>n.
      ok_or (BadValue name (show_int n @ lit '' is not a port'')) (u16_try_from n))"

definition address_field :: "unicode \<Rightarrow> object \<Rightarrow> rstr \<Rightarrow> state_error + ipv4" where
  "address_field u obj name =
    attempt (shape (string_field obj name)) (\<lambda>t.
      ok_or (BadValue name (debug_str u t @ lit '' is not an IPv4 address'')) (ipv4_parse t))"

section \<open>Encoding\<close>

definition acme_to_json :: "acme \<Rightarrow> json" where
  "acme_to_json a = value_obj
    [(lit ''directory'', JStr (ac_directory a)),
     (lit ''contact'', opt_str (ac_contact a)),
     (lit ''account_key_path'', JStr (ac_account_key_path a)),
     (lit ''account_url'', JStr (ac_account_url a)),
     (lit ''challenge'', JStr (challenge_as_str (ac_challenge a))),
     (lit ''issued_at'', JInt (ac_issued_at a)),
     (lit ''renew_after'', JInt (ac_renew_after a))]"

definition tls_to_json :: "tls \<Rightarrow> json" where
  "tls_to_json t =
    (let (source, acme) = (case tls_src t of
        Manual \<Rightarrow> (lit ''manual'', JNull)
      | Acme a \<Rightarrow> (lit ''acme'', acme_to_json a))
     in value_obj
      [(lit ''source'', JStr source),
       (lit ''cert_path'', JStr (tls_cert_path t)),
       (lit ''key_path'', JStr (tls_key_path t)),
       (lit ''not_after'', opt_time (tls_not_after t)),
       (lit ''acme'', acme)])"

definition cloudflare_to_json :: "cloudflare option \<Rightarrow> json" where
  "cloudflare_to_json cloudflare =
    (case cloudflare of
       None \<Rightarrow> JNull
     | Some cf \<Rightarrow> value_obj
         [(lit ''zone_id'', JStr (cf_zone_id cf)),
          (lit ''record_id'', opt_str (cf_record_id cf)),
          (lit ''token_path'', opt_str (cf_token_path cf))])"

definition server_to_json :: "server_keys \<Rightarrow> json" where
  "server_to_json k = value_obj
    [(lit ''private_key'', JStr (private_key_str (sk_private_key k))),
     (lit ''public_key'', JStr (sk_public_key k)),
     (lit ''address'', JStr (ipv4_show (sk_address k)))]"

definition peer_to_json :: "peer \<Rightarrow> json" where
  "peer_to_json p = value_obj
    [(lit ''name'', JStr (name_str (p_name p))),
     (lit ''public_key'', JStr (p_public_key p)),
     (lit ''address'', JStr (ipv4_show (p_address p))),
     (lit ''token_hash'', JStr (hash_str (p_token_hash p))),
     (lit ''created_at'', JInt (p_created_at p)),
     (lit ''last_seen'', opt_time (p_last_seen p))]"

definition code_to_json :: "issued_code \<Rightarrow> json" where
  "code_to_json c = value_obj
    [(lit ''code'', JStr (code_str (ic_code c))),
     (lit ''issued_at'', JInt (ic_issued_at c)),
     (lit ''expires_at'', JInt (ic_expires_at c)),
     (lit ''used_at'', opt_time (ic_used_at c))]"

definition state_to_json :: "server_state \<Rightarrow> json" where
  "state_to_json st = value_obj
    [(lit ''version'', JInt SCHEMA_VERSION),
     (lit ''domain'', JStr (st_domain st)),
     (lit ''subnet'', JStr (subnet_show (st_subnet st))),
     (lit ''listen_port'', JInt (uint (st_listen_port st))),
     (lit ''api_port'', JInt (uint (st_api_port st))),
     (lit ''tls'', tls_to_json (st_tls st)),
     (lit ''cloudflare'', cloudflare_to_json (st_cloudflare st)),
     (lit ''server'', server_to_json (st_server st)),
     (lit ''peers'', JArr (map peer_to_json (st_peers st))),
     (lit ''codes'', JArr (map code_to_json (st_codes st)))]"

definition to_json_string :: "server_state \<Rightarrow> rstr" where
  "to_json_string st = to_string_pretty (state_to_json st)"

section \<open>Decoding\<close>

definition acme_from_json :: "unicode \<Rightarrow> object \<Rightarrow> state_error + acme" where
  "acme_from_json u obj =
    (let at = (\<lambda>e. de_within (lit ''tls.acme'') e) in
     attempt (shape (map_err at (string_field obj (lit ''challenge'')))) (\<lambda>challenge.
     attempt (shape (map_err at (string_field obj (lit ''directory'')))) (\<lambda>directory.
     attempt (shape (map_err at (opt_string_field obj (lit ''contact'')))) (\<lambda>contact.
     attempt (shape (map_err at (string_field obj (lit ''account_key_path'')))) (\<lambda>account_key_path.
     attempt (shape (map_err at (string_field obj (lit ''account_url'')))) (\<lambda>account_url.
     attempt (ok_or (BadValue (lit ''tls.acme.challenge'')
         (debug_str u challenge @ lit '' is not '' @ [34] @ lit ''http-01'' @ [34]
          @ lit '' or '' @ [34] @ lit ''dns-01'' @ [34]))
       (challenge_from_str challenge)) (\<lambda>challenge.
     attempt (shape (map_err at (int_field obj (lit ''issued_at'')))) (\<lambda>issued_at.
     attempt (shape (map_err at (int_field obj (lit ''renew_after'')))) (\<lambda>plan.
       Inr \<lparr>ac_directory = directory, ac_contact = contact,
            ac_account_key_path = account_key_path, ac_account_url = account_url,
            ac_challenge = challenge, ac_issued_at = issued_at, ac_renew_after = plan\<rparr>)))))))))"

definition tls_source_from_json :: "unicode \<Rightarrow> rstr \<Rightarrow> object option \<Rightarrow> state_error + tls_source" where
  "tls_source_from_json u source acme =
    (if source = lit ''manual'' then
       (case acme of
          None \<Rightarrow> Inr Manual
        | Some _ \<Rightarrow> Inl (BadValue (lit ''tls.acme'')
            (lit ''source is '' @ [34] @ lit ''manual'' @ [34] @ lit '' but acme details are present'')))
     else if source = lit ''acme'' then
       (case acme of
          Some found \<Rightarrow> attempt (acme_from_json u found) (\<lambda>a. Inr (Acme a))
        | None \<Rightarrow> Inl (BadValue (lit ''tls.acme'')
            (lit ''source is '' @ [34] @ lit ''acme'' @ [34] @ lit '' but acme details are null'')))
     else Inl (BadValue (lit ''tls.source'')
       (debug_str u source @ lit '' is not '' @ [34] @ lit ''manual'' @ [34]
        @ lit '' or '' @ [34] @ lit ''acme'' @ [34])))"

definition tls_from_json :: "unicode \<Rightarrow> object \<Rightarrow> int \<Rightarrow> state_error + tls" where
  "tls_from_json u obj version =
    (if version = LEGACY_SCHEMA_VERSION then
       attempt (shape (string_field obj (lit ''tls_cert_path''))) (\<lambda>cert_path.
       attempt (shape (string_field obj (lit ''tls_key_path''))) (\<lambda>key_path.
         Inr (tls_manual cert_path key_path)))
     else
       attempt (shape (object_field obj (lit ''tls''))) (\<lambda>tls.
       attempt (shape (map_err (de_within (lit ''tls'')) (string_field tls (lit ''source'')))) (\<lambda>source.
       attempt (shape (map_err (de_within (lit ''tls'')) (opt_object_field tls (lit ''acme'')))) (\<lambda>acme.
       attempt (tls_source_from_json u source acme) (\<lambda>source.
       attempt (shape (map_err (de_within (lit ''tls'')) (string_field tls (lit ''cert_path'')))) (\<lambda>cert_path.
       attempt (shape (map_err (de_within (lit ''tls'')) (string_field tls (lit ''key_path'')))) (\<lambda>key_path.
       attempt (shape (map_err (de_within (lit ''tls'')) (opt_int_field tls (lit ''not_after'')))) (\<lambda>not_after.
         Inr \<lparr>tls_cert_path = cert_path, tls_key_path = key_path, tls_not_after = not_after,
              tls_src = source\<rparr>))))))))"

definition cloudflare_from_json :: "object \<Rightarrow> int \<Rightarrow> state_error + cloudflare option" where
  "cloudflare_from_json obj version =
    (if version = LEGACY_SCHEMA_VERSION then Inr None
     else
       attempt (shape (opt_object_field obj (lit ''cloudflare''))) (\<lambda>found.
       case found of
         None \<Rightarrow> Inr None
       | Some cf \<Rightarrow>
           let at = (\<lambda>e. de_within (lit ''cloudflare'') e) in
           attempt (shape (map_err at (string_field cf (lit ''zone_id'')))) (\<lambda>zone_id.
           attempt (shape (map_err at (opt_string_field cf (lit ''record_id'')))) (\<lambda>record_id.
           attempt (shape (map_err at (opt_string_field cf (lit ''token_path'')))) (\<lambda>token_path.
             Inr (Some \<lparr>cf_zone_id = zone_id, cf_record_id = record_id, cf_token_path = token_path\<rparr>))))))"

definition peer_from_json :: "unicode \<Rightarrow> json \<Rightarrow> state_error + peer" where
  "peer_from_json u v =
    attempt (shape (object_of v)) (\<lambda>obj.
    attempt (shape (string_field obj (lit ''name''))) (\<lambda>name.
    attempt (shape (string_field obj (lit ''token_hash''))) (\<lambda>token_hash.
    attempt (map_err (\<lambda>e. BadValue (lit ''name'') (name_error_show u e)) (device_name_parse u name)) (\<lambda>name.
    attempt (shape (string_field obj (lit ''public_key''))) (\<lambda>public_key.
    attempt (address_field u obj (lit ''address'')) (\<lambda>address.
    attempt (map_err (\<lambda>e. BadValue (lit ''token_hash'') (token_error_show u e)) (hash_parse token_hash)) (\<lambda>token_hash.
    attempt (shape (int_field obj (lit ''created_at''))) (\<lambda>created_at.
    attempt (shape (opt_int_field obj (lit ''last_seen''))) (\<lambda>last_seen.
      Inr \<lparr>p_name = name, p_public_key = public_key, p_address = address,
           p_token_hash = token_hash, p_created_at = created_at, p_last_seen = last_seen\<rparr>)))))))))"

definition code_from_json :: "unicode \<Rightarrow> json \<Rightarrow> state_error + issued_code" where
  "code_from_json u v =
    attempt (shape (object_of v)) (\<lambda>obj.
    attempt (shape (string_field obj (lit ''code''))) (\<lambda>code.
    attempt (map_err (\<lambda>e. BadValue (lit ''code'') (code_error_show u e)) (join_code_parse code)) (\<lambda>code.
    attempt (shape (int_field obj (lit ''issued_at''))) (\<lambda>issued_at.
    attempt (shape (int_field obj (lit ''expires_at''))) (\<lambda>expires_at.
    attempt (shape (opt_int_field obj (lit ''used_at''))) (\<lambda>used_at.
      Inr \<lparr>ic_code = code, ic_issued_at = issued_at, ic_expires_at = expires_at,
           ic_used_at = used_at\<rparr>))))))"

definition server_from_json :: "unicode \<Rightarrow> json \<Rightarrow> state_error + server_keys" where
  "server_from_json u v =
    (let within = lit ''server'' in
     attempt (shape (map_err (de_within within) (object_of v))) (\<lambda>obj.
     attempt (shape (map_err (de_within within) (string_field obj (lit ''private_key'')))) (\<lambda>private_key.
     attempt (shape (map_err (de_within within) (string_field obj (lit ''public_key'')))) (\<lambda>public_key.
     attempt (map_err (se_within within) (address_field u obj (lit ''address''))) (\<lambda>address.
       Inr \<lparr>sk_private_key = PrivateKey private_key, sk_public_key = public_key,
            sk_address = address\<rparr>)))))"

definition state_from_json :: "unicode \<Rightarrow> json \<Rightarrow> state_error + server_state" where
  "state_from_json u v =
    attempt (shape (object_of v)) (\<lambda>obj.
    attempt (shape (int_field obj (lit ''version''))) (\<lambda>version.
    if version \<noteq> SCHEMA_VERSION \<and> version \<noteq> LEGACY_SCHEMA_VERSION then Inl (UnsupportedVersion version)
    else
    attempt (shape (string_field obj (lit ''subnet''))) (\<lambda>subnet_text.
    attempt (map_err (\<lambda>e. BadValue (lit ''subnet'') (subnet_error_show e)) (subnet_parse subnet_text)) (\<lambda>subnet.
    attempt (shape (ok_or (de_missing (lit ''server'')) (obj_get obj (lit ''server'')))) (\<lambda>server_v.
    attempt (server_from_json u server_v) (\<lambda>server.
    if sk_address server \<noteq> server_address subnet then
      Inl (BadValue (lit ''server.address'')
        (ipv4_show (sk_address server) @ lit '' is not '' @ subnet_show subnet @ [39] @ lit ''s .1 address''))
    else
    attempt (shape (array_field obj (lit ''peers''))) (\<lambda>items.
    attempt (decode_elems se_within (peer_from_json u) (lit ''peers'') 0 items) (\<lambda>peers.
    attempt (shape (array_field obj (lit ''codes''))) (\<lambda>items.
    attempt (decode_elems se_within (code_from_json u) (lit ''codes'') 0 items) (\<lambda>codes.
    attempt (shape (string_field obj (lit ''domain''))) (\<lambda>domain.
    attempt (port_field obj (lit ''listen_port'')) (\<lambda>listen_port.
    attempt (port_field obj (lit ''api_port'')) (\<lambda>api_port.
    attempt (tls_from_json u obj version) (\<lambda>tls.
    attempt (cloudflare_from_json obj version) (\<lambda>cloudflare.
      Inr \<lparr>st_domain = domain, st_subnet = subnet, st_listen_port = listen_port,
           st_api_port = api_port, st_tls = tls, st_cloudflare = cloudflare,
           st_server = server, st_peers = peers, st_codes = codes\<rparr>)))))))))))))))"

definition state_parse :: "unicode \<Rightarrow> rstr \<Rightarrow> state_error + server_state" where
  "state_parse u t = attempt (map_err StateJson (json_parse u t)) (\<lambda>v. state_from_json u v)"

end
