(* ===== verification/StateFile.thy ===== *)
theory StateFile
  imports StateCodec
begin

text \<open>
  What the state file's codec guarantees: every state the program can hold is read back from the
  text it was written as, and whatever is read is such a state. Names need the Unicode tables'
  laws, so the codec contract holds for every \<open>u\<close> with \<open>unicode_laws u\<close>.
\<close>

section \<open>Fields\<close>

lemma int_field_Inr: "int_field obj name = Inr n \<longleftrightarrow> obj_get obj name = Some (JInt n)"
proof -
  have "as_i64 v = Some n \<longleftrightarrow> v = JInt n" for v by (cases v) auto
  then show ?thesis by (auto simp: int_field_def result_simps split: option.splits)
qed

lemma opt_int_field_Inr:
  "opt_int_field obj name = Inr x \<longleftrightarrow> (\<exists>v. obj_get obj name = Some v \<and> v = opt_time x)"
proof (cases "obj_get obj name")
  case (Some v)
  then show ?thesis
    by (cases v; cases x) (auto simp: opt_int_field_def opt_time_def)
qed (simp add: opt_int_field_def)

lemma opt_string_field_Inr:
  "opt_string_field obj name = Inr x \<longleftrightarrow> (\<exists>v. obj_get obj name = Some v \<and> v = opt_str x)"
proof (cases "obj_get obj name")
  case (Some v)
  then show ?thesis
    by (cases v; cases x) (auto simp: opt_string_field_def opt_str_def)
qed (simp add: opt_string_field_def)

lemma object_field_Inr: "object_field obj name = Inr x \<longleftrightarrow> obj_get obj name = Some (JObj x)"
proof -
  have "as_object v = Some x \<longleftrightarrow> v = JObj x" for v by (cases v) auto
  then show ?thesis by (auto simp: object_field_def result_simps split: option.splits)
qed

lemma opt_object_field_Inr:
  "opt_object_field obj name = Inr x \<longleftrightarrow>
    obj_get obj name = Some (case x of None \<Rightarrow> JNull | Some ob \<Rightarrow> JObj ob)"
proof (cases "obj_get obj name")
  case (Some v)
  then show ?thesis
    by (cases v; cases x) (auto simp: opt_object_field_def)
qed (simp add: opt_object_field_def)

lemma array_field_Inr: "array_field obj name = Inr x \<longleftrightarrow> obj_get obj name = Some (JArr x)"
proof -
  have "as_array v = Some x \<longleftrightarrow> v = JArr x" for v by (cases v) auto
  then show ?thesis by (auto simp: array_field_def result_simps split: option.splits)
qed

lemma u16_try_from_uint [simp]: "u16_try_from (uint (w :: u16)) = Some w"
proof -
  have "uint w < 65536" using uint_bounded [of w] by simp
  moreover have "0 \<le> uint w" by simp
  ultimately show ?thesis by (simp add: u16_try_from_def)
qed

lemma port_field_Inr:
  "port_field obj name = Inr w \<longleftrightarrow> (\<exists>n. obj_get obj name = Some (JInt n) \<and> u16_try_from n = Some w)"
  by (auto simp: port_field_def result_simps int_field_Inr)

lemma address_field_Inr:
  "address_field u obj name = Inr a \<longleftrightarrow> (\<exists>t. obj_get obj name = Some (JStr t) \<and> ipv4_parse t = Some a)"
  by (auto simp: address_field_def result_simps string_field_Inr)

lemmas field_simps_Inr [result_simps] = int_field_Inr opt_int_field_Inr opt_string_field_Inr
  object_field_Inr opt_object_field_Inr array_field_Inr port_field_Inr address_field_Inr
  string_field_Inr object_of_Inr

lemma opt_values [simp]:
  "wf_json (opt_str x) = pred_option valid_str x" "json_depth (opt_str x) = 0"
  "wf_json (opt_time t) = opt_in_i64 t" "json_depth (opt_time t) = 0"
  by (cases x; cases t; simp add: opt_str_def opt_time_def)+

lemma opt_inject [simp]: "opt_str x = opt_str y \<longleftrightarrow> x = y" "opt_time s = opt_time t \<longleftrightarrow> s = t"
  by (simp_all add: opt_str_def opt_time_def split: option.splits)

lemma in_i64_uint [simp]: "in_i64 (uint (w :: u16))"
proof -
  have "uint w < 65536" using uint_bounded [of w] by simp
  moreover have "- 9223372036854775808 \<le> uint w" by (rule order_trans [OF _ unsigned_greater_eq]) simp
  ultimately show ?thesis by (auto simp: i64_defs)
qed

text \<open>What a well-formed object holds under a name is well-formed.\<close>

lemma wf_fields:
  assumes "wf_json (JObj obj)"
  shows "obj_get obj k = Some (JStr s) \<Longrightarrow> valid_str s"
    and "obj_get obj k = Some (JInt n) \<Longrightarrow> in_i64 n"
    and "obj_get obj k = Some (opt_str x) \<Longrightarrow> pred_option valid_str x"
    and "obj_get obj k = Some (opt_time t) \<Longrightarrow> opt_in_i64 t"
    and "obj_get obj k = Some (JObj ob) \<Longrightarrow> wf_json (JObj ob)"
    and "obj_get obj k = Some (JArr items) \<Longrightarrow> \<forall>v \<in> set items. wf_json v"
  using wf_obj_get [OF assms, of k "JStr s"] wf_obj_get [OF assms, of k "JInt n"]
    wf_obj_get [OF assms, of k "opt_str x"] wf_obj_get [OF assms, of k "opt_time t"]
    wf_obj_get [OF assms, of k "JObj ob"] wf_obj_get [OF assms, of k "JArr items"]
  by simp_all

section \<open>The parts\<close>

lemma acme_from_json_Inr:
  "acme_from_json u obj = Inr a \<longleftrightarrow>
     obj_get obj (lit ''challenge'') = Some (JStr (challenge_as_str (ac_challenge a)))
   \<and> obj_get obj (lit ''directory'') = Some (JStr (ac_directory a))
   \<and> obj_get obj (lit ''contact'') = Some (opt_str (ac_contact a))
   \<and> obj_get obj (lit ''account_key_path'') = Some (JStr (ac_account_key_path a))
   \<and> obj_get obj (lit ''account_url'') = Some (JStr (ac_account_url a))
   \<and> obj_get obj (lit ''issued_at'') = Some (JInt (ac_issued_at a))
   \<and> obj_get obj (lit ''renew_after'') = Some (JInt (ac_renew_after a))"
  by (cases a) (auto simp: acme_from_json_def Let_def result_simps challenge_from_str_Some)

lemma tls_source_from_json_Inr:
  "tls_source_from_json u source acme = Inr src \<longleftrightarrow>
    (case src of
       Manual \<Rightarrow> source = lit ''manual'' \<and> acme = None
     | Acme a \<Rightarrow> source = lit ''acme'' \<and> (\<exists>found. acme = Some found \<and> acme_from_json u found = Inr a))"
  by (auto simp: tls_source_from_json_def result_simps split: option.splits tls_source.splits)

lemma tls_from_json_Inr:
  "version \<noteq> LEGACY_SCHEMA_VERSION \<Longrightarrow> tls_from_json u obj version = Inr t \<longleftrightarrow>
    (\<exists>ob source acme. obj_get obj (lit ''tls'') = Some (JObj ob)
       \<and> obj_get ob (lit ''source'') = Some (JStr source)
       \<and> obj_get ob (lit ''acme'') = Some (case acme of None \<Rightarrow> JNull | Some a \<Rightarrow> JObj a)
       \<and> tls_source_from_json u source acme = Inr (tls_src t)
       \<and> obj_get ob (lit ''cert_path'') = Some (JStr (tls_cert_path t))
       \<and> obj_get ob (lit ''key_path'') = Some (JStr (tls_key_path t))
       \<and> obj_get ob (lit ''not_after'') = Some (opt_time (tls_not_after t)))"
  by (cases t) (auto simp: tls_from_json_def result_simps)

lemma tls_from_json_legacy:
  "tls_from_json u obj LEGACY_SCHEMA_VERSION = Inr t \<longleftrightarrow>
    (\<exists>cert key. obj_get obj (lit ''tls_cert_path'') = Some (JStr cert)
       \<and> obj_get obj (lit ''tls_key_path'') = Some (JStr key) \<and> t = tls_manual cert key)"
  by (auto simp: tls_from_json_def result_simps)

lemma cloudflare_from_json_Inr:
  "version \<noteq> LEGACY_SCHEMA_VERSION \<Longrightarrow> cloudflare_from_json obj version = Inr c \<longleftrightarrow>
    (case c of
       None \<Rightarrow> obj_get obj (lit ''cloudflare'') = Some JNull
     | Some cf \<Rightarrow> (\<exists>ob. obj_get obj (lit ''cloudflare'') = Some (JObj ob)
         \<and> obj_get ob (lit ''zone_id'') = Some (JStr (cf_zone_id cf))
         \<and> obj_get ob (lit ''record_id'') = Some (opt_str (cf_record_id cf))
         \<and> obj_get ob (lit ''token_path'') = Some (opt_str (cf_token_path cf))))"
proof -
  assume v: "version \<noteq> LEGACY_SCHEMA_VERSION"
  show ?thesis
  proof (cases c)
    case None
    with v show ?thesis
      by (auto simp: cloudflare_from_json_def result_simps Let_def split: option.splits)
  next
    case (Some cf)
    then show ?thesis using v
      by (cases cf) (auto simp: cloudflare_from_json_def result_simps Let_def split: option.splits)
  qed
qed

lemma peer_from_json_Inr:
  "peer_from_json u v = Inr p \<longleftrightarrow>
    (\<exists>obj name token_hash address. v = JObj obj
       \<and> obj_get obj (lit ''name'') = Some (JStr name) \<and> device_name_parse u name = Inr (p_name p)
       \<and> obj_get obj (lit ''token_hash'') = Some (JStr token_hash)
       \<and> hash_parse token_hash = Inr (p_token_hash p)
       \<and> obj_get obj (lit ''public_key'') = Some (JStr (p_public_key p))
       \<and> obj_get obj (lit ''address'') = Some (JStr address) \<and> ipv4_parse address = Some (p_address p)
       \<and> obj_get obj (lit ''created_at'') = Some (JInt (p_created_at p))
       \<and> obj_get obj (lit ''last_seen'') = Some (opt_time (p_last_seen p)))"
  by (cases p) (auto simp: peer_from_json_def result_simps)

lemma code_from_json_Inr:
  "code_from_json u v = Inr c \<longleftrightarrow>
    (\<exists>obj code. v = JObj obj
       \<and> obj_get obj (lit ''code'') = Some (JStr code) \<and> join_code_parse code = Inr (ic_code c)
       \<and> obj_get obj (lit ''issued_at'') = Some (JInt (ic_issued_at c))
       \<and> obj_get obj (lit ''expires_at'') = Some (JInt (ic_expires_at c))
       \<and> obj_get obj (lit ''used_at'') = Some (opt_time (ic_used_at c)))"
  by (cases c) (auto simp: code_from_json_def result_simps)

lemma server_from_json_Inr:
  "server_from_json u v = Inr k \<longleftrightarrow>
    (\<exists>obj address. v = JObj obj
       \<and> obj_get obj (lit ''private_key'') = Some (JStr (private_key_str (sk_private_key k)))
       \<and> obj_get obj (lit ''public_key'') = Some (JStr (sk_public_key k))
       \<and> obj_get obj (lit ''address'') = Some (JStr address) \<and> ipv4_parse address = Some (sk_address k))"
proof -
  have "PrivateKey s = x \<longleftrightarrow> s = private_key_str x" for s x by (cases x) simp
  then show ?thesis by (cases k) (auto simp: server_from_json_def Let_def result_simps)
qed

section \<open>Peers and codes\<close>

lemma hash_parse_str: "hex_ok (hash_str h) \<Longrightarrow> hash_parse (hash_str h) = Inr h"
  by (rule hash_text.parse_shown)

lemma peer_codec: "unicode_laws u \<Longrightarrow> json_codec peer_to_json (peer_from_json u) (peer_typed u)"
proof unfold_locales
  fix p assume "peer_typed u p"
  then show "peer_from_json u (peer_to_json p) = Inr p"
    unfolding peer_from_json_Inr peer_to_json_def value_obj_def
    by (auto simp: peer_typed_def name_ok_def hash_parse_str)
next
  fix v p assume u: "unicode_laws u" and wf: "wf_json v" and "peer_from_json u v = Inr p"
  then obtain obj name token_hash where v: "v = JObj obj"
    and name: "obj_get obj (lit ''name'') = Some (JStr name)" "device_name_parse u name = Inr (p_name p)"
    and hash: "hash_parse token_hash = Inr (p_token_hash p)"
    and key: "obj_get obj (lit ''public_key'') = Some (JStr (p_public_key p))"
    and time: "obj_get obj (lit ''created_at'') = Some (JInt (p_created_at p))"
      "obj_get obj (lit ''last_seen'') = Some (opt_time (p_last_seen p))"
    unfolding peer_from_json_Inr by blast
  note f = wf_fields [OF wf [unfolded v]]
  show "peer_typed u p"
    unfolding peer_typed_def
    using f(1) [OF key] f(2) [OF time(1)] f(4) [OF time(2)] hash_text.parse_ok [OF hash]
      device_name_parse_ok [OF u name(2)] device_name_parse_valid [OF u f(1) [OF name(1)] name(2)]
    by simp
next
  fix p assume "peer_typed u p"
  then show "wf_json (peer_to_json p)"
    by (auto simp: peer_to_json_def value_obj_def peer_typed_def valid_str_hex)
next
  fix p show "json_depth (peer_to_json p) + 2 \<le> MAX_DEPTH"
    by (simp add: peer_to_json_def value_obj_def MAX_DEPTH_def)
qed

interpretation code_codec: json_codec code_to_json "code_from_json u" code_typed for u
proof unfold_locales
  fix c assume "code_typed c"
  then show "code_from_json u (code_to_json c) = Inr c"
    unfolding code_from_json_Inr code_to_json_def value_obj_def
    by (auto simp: code_typed_def code_text.parse_shown)
next
  fix v c assume wf: "wf_json v" and "code_from_json u v = Inr c"
  then obtain obj code where v: "v = JObj obj" and code: "join_code_parse code = Inr (ic_code c)"
    and time: "obj_get obj (lit ''issued_at'') = Some (JInt (ic_issued_at c))"
      "obj_get obj (lit ''expires_at'') = Some (JInt (ic_expires_at c))"
      "obj_get obj (lit ''used_at'') = Some (opt_time (ic_used_at c))"
    unfolding code_from_json_Inr by blast
  note f = wf_fields [OF wf [unfolded v]]
  show "code_typed c"
    unfolding code_typed_def
    using f(2) [OF time(1)] f(2) [OF time(2)] f(4) [OF time(3)] code_text.parse_ok [OF code] by simp
next
  fix c assume "code_typed c"
  then show "wf_json (code_to_json c)"
    by (auto simp: code_to_json_def value_obj_def code_typed_def valid_str_code)
next
  fix c show "json_depth (code_to_json c) + 2 \<le> MAX_DEPTH"
    by (simp add: code_to_json_def value_obj_def MAX_DEPTH_def)
qed

section \<open>The whole state\<close>

text \<open>The version a document must state, and what that version fixes of the rest.\<close>

lemma state_from_json_Inr:
  "state_from_json u v = Inr st \<longleftrightarrow>
    (\<exists>obj version subnet_text server_v peer_items code_items.
       v = JObj obj \<and> obj_get obj (lit ''version'') = Some (JInt version)
     \<and> (version = SCHEMA_VERSION \<or> version = LEGACY_SCHEMA_VERSION)
     \<and> obj_get obj (lit ''subnet'') = Some (JStr subnet_text) \<and> subnet_parse subnet_text = Inr (st_subnet st)
     \<and> obj_get obj (lit ''server'') = Some server_v \<and> server_from_json u server_v = Inr (st_server st)
     \<and> sk_address (st_server st) = server_address (st_subnet st)
     \<and> obj_get obj (lit ''peers'') = Some (JArr peer_items)
     \<and> decode_elems se_within (peer_from_json u) (lit ''peers'') 0 peer_items = Inr (st_peers st)
     \<and> obj_get obj (lit ''codes'') = Some (JArr code_items)
     \<and> decode_elems se_within (code_from_json u) (lit ''codes'') 0 code_items = Inr (st_codes st)
     \<and> obj_get obj (lit ''domain'') = Some (JStr (st_domain st))
     \<and> port_field obj (lit ''listen_port'') = Inr (st_listen_port st)
     \<and> port_field obj (lit ''api_port'') = Inr (st_api_port st)
     \<and> tls_from_json u obj version = Inr (st_tls st)
     \<and> cloudflare_from_json obj version = Inr (st_cloudflare st))"
proof -
  have split: "(if c then Inl e else r) = Inr x \<longleftrightarrow> \<not> c \<and> r = Inr x" for c and e :: state_error and r and x :: server_state
    by simp
  note keep = attempt_eq_Inr map_err_eq_Inr ok_or_eq_Inr shape_Inr object_of_Inr int_field_Inr
    string_field_Inr array_field_Inr split
  show ?thesis
    unfolding state_from_json_def
    by (cases st) (auto simp only: keep sum.inject server_state.select_convs not_not de_Morgan_conj
        server_state.ext_inject ex_simps simp_thms; fastforce)
qed

lemma tls_to_json_wf: "tls_typed t \<Longrightarrow> wf_json (tls_to_json t)"
  by (auto simp: tls_to_json_def value_obj_def tls_typed_def acme_to_json_def acme_typed_def
      split: tls_source.splits)

lemma tls_to_json_get:
  "\<exists>ob source acme. tls_to_json t = JObj ob
     \<and> obj_get ob (lit ''source'') = Some (JStr source)
     \<and> obj_get ob (lit ''acme'') = Some (case acme of None \<Rightarrow> JNull | Some a \<Rightarrow> JObj a)
     \<and> tls_source_from_json u source acme = Inr (tls_src t)
     \<and> obj_get ob (lit ''cert_path'') = Some (JStr (tls_cert_path t))
     \<and> obj_get ob (lit ''key_path'') = Some (JStr (tls_key_path t))
     \<and> obj_get ob (lit ''not_after'') = Some (opt_time (tls_not_after t))"
proof (cases "tls_src t")
  case Manual
  then show ?thesis
    by (auto simp: tls_to_json_def value_obj_def tls_source_from_json_Inr intro!: exI [of _ None])
next
  case (Acme a)
  obtain ob where "acme_to_json a = JObj ob" and "acme_from_json u ob = Inr a"
    by (auto simp: acme_to_json_def value_obj_def acme_from_json_Inr)
  with Acme show ?thesis
    by (auto simp: tls_to_json_def value_obj_def tls_source_from_json_Inr intro!: exI [of _ "Some ob"])
qed

lemma tls_source_typed:
  assumes "wf_json (JObj ob)" "obj_get ob k = Some (case acme of None \<Rightarrow> JNull | Some a \<Rightarrow> JObj a)"
    and "tls_source_from_json u source acme = Inr src"
  shows "case src of Manual \<Rightarrow> True | Acme a \<Rightarrow> acme_typed a"
proof (cases src)
  case (Acme a)
  with assms(3) obtain found where "acme = Some found" and a: "acme_from_json u found = Inr a"
    by (auto simp: tls_source_from_json_Inr)
  with assms(2) have "wf_json (JObj found)" using wf_fields(5) [OF assms(1)] by simp
  from wf_fields [OF this] a have "acme_typed a"
    unfolding acme_from_json_Inr acme_typed_def by blast
  with Acme show ?thesis by simp
qed simp

lemma tls_from_json_typed:
  assumes wf: "wf_json (JObj obj)" and t: "tls_from_json u obj version = Inr t"
  shows "tls_typed t"
proof (cases "version = LEGACY_SCHEMA_VERSION")
  case True
  with t wf_fields(1) [OF wf] show ?thesis
    by (auto simp: tls_from_json_legacy tls_manual_def tls_typed_def)
next
  case False
  with t obtain ob source acme where ob: "obj_get obj (lit ''tls'') = Some (JObj ob)"
    and ac: "obj_get ob (lit ''acme'') = Some (case acme of None \<Rightarrow> JNull | Some a \<Rightarrow> JObj a)"
    and src: "tls_source_from_json u source acme = Inr (tls_src t)"
    and f: "obj_get ob (lit ''cert_path'') = Some (JStr (tls_cert_path t))"
      "obj_get ob (lit ''key_path'') = Some (JStr (tls_key_path t))"
      "obj_get ob (lit ''not_after'') = Some (opt_time (tls_not_after t))"
    unfolding tls_from_json_Inr [OF False] by blast
  have wfo: "wf_json (JObj ob)" by (rule wf_fields(5) [OF wf ob])
  show ?thesis
    unfolding tls_typed_def
    using wf_fields(1) [OF wfo f(1)] wf_fields(1) [OF wfo f(2)] wf_fields(4) [OF wfo f(3)]
      tls_source_typed [OF wfo ac src] by blast
qed

lemma cloudflare_from_json_typed:
  assumes wf: "wf_json (JObj obj)" and c: "cloudflare_from_json obj version = Inr c"
  shows "pred_option cloudflare_typed c"
proof (cases "version = LEGACY_SCHEMA_VERSION \<or> c = None")
  case True
  with c show ?thesis by (auto simp: cloudflare_from_json_def)
next
  case False
  then obtain cf where cf: "c = Some cf" by auto
  with c False obtain ob where ob: "obj_get obj (lit ''cloudflare'') = Some (JObj ob)"
    and f: "obj_get ob (lit ''zone_id'') = Some (JStr (cf_zone_id cf))"
      "obj_get ob (lit ''record_id'') = Some (opt_str (cf_record_id cf))"
      "obj_get ob (lit ''token_path'') = Some (opt_str (cf_token_path cf))"
    by (auto simp: cloudflare_from_json_Inr)
  have wfo: "wf_json (JObj ob)" by (rule wf_fields(5) [OF wf ob])
  show ?thesis
    unfolding cf option.pred_inject cloudflare_typed_def
    using wf_fields(1) [OF wfo f(1)] wf_fields(3) [OF wfo f(2)] wf_fields(3) [OF wfo f(3)] by blast
qed

lemma state_from_json_typed:
  assumes u: "unicode_laws u" and wf: "wf_json v" and st: "state_from_json u v = Inr st"
  shows "state_typed u st"
proof -
  from st obtain obj version subnet_text server_v peer_items code_items where v: "v = JObj obj"
    and sub: "subnet_parse subnet_text = Inr (st_subnet st)"
    and srv: "obj_get obj (lit ''server'') = Some server_v" "server_from_json u server_v = Inr (st_server st)"
      "sk_address (st_server st) = server_address (st_subnet st)"
    and peers: "obj_get obj (lit ''peers'') = Some (JArr peer_items)"
      "decode_elems se_within (peer_from_json u) (lit ''peers'') 0 peer_items = Inr (st_peers st)"
    and codes: "obj_get obj (lit ''codes'') = Some (JArr code_items)"
      "decode_elems se_within (code_from_json u) (lit ''codes'') 0 code_items = Inr (st_codes st)"
    and dom: "obj_get obj (lit ''domain'') = Some (JStr (st_domain st))"
    and tls: "tls_from_json u obj version = Inr (st_tls st)"
    and cf: "cloudflare_from_json obj version = Inr (st_cloudflare st)"
    unfolding state_from_json_Inr by blast
  note wfo = wf [unfolded v]
  have "server_keys_typed (st_server st)"
    using srv(2) wf_obj_get [OF wfo srv(1)] wf_fields(1)
    unfolding server_from_json_Inr server_keys_typed_def by blast
  moreover have "\<forall>p \<in> set (st_peers st). peer_typed u p"
    by (rule json_codec.elems_ok [OF peer_codec [OF u] wf_fields(6) [OF wfo peers(1)] peers(2)])
  moreover have "\<forall>c \<in> set (st_codes st). code_typed c"
    by (rule code_codec.elems_ok [OF wf_fields(6) [OF wfo codes(1)] codes(2)])
  ultimately show ?thesis
    unfolding state_typed_def
    using wf_fields(1) [OF wfo dom] subnet_text.parse_ok [OF sub] tls_from_json_typed [OF wfo tls]
      cloudflare_from_json_typed [OF wfo cf] srv(3) by blast
qed

lemma state_from_to_json:
  assumes u: "unicode_laws u" and st: "state_typed u st"
  shows "state_from_json u (state_to_json st) = Inr st"
proof -
  define obj where "obj =
    [(lit ''version'', JInt SCHEMA_VERSION),
     (lit ''domain'', JStr (st_domain st)),
     (lit ''subnet'', JStr (subnet_show (st_subnet st))),
     (lit ''listen_port'', JInt (uint (st_listen_port st))),
     (lit ''api_port'', JInt (uint (st_api_port st))),
     (lit ''tls'', tls_to_json (st_tls st)),
     (lit ''cloudflare'', cloudflare_to_json (st_cloudflare st)),
     (lit ''server'', server_to_json (st_server st)),
     (lit ''peers'', JArr (map peer_to_json (st_peers st))),
     (lit ''codes'', JArr (map code_to_json (st_codes st)))]"
  have get: "obj_get obj (lit ''version'') = Some (JInt SCHEMA_VERSION)"
    "obj_get obj (lit ''domain'') = Some (JStr (st_domain st))"
    "obj_get obj (lit ''subnet'') = Some (JStr (subnet_show (st_subnet st)))"
    "obj_get obj (lit ''listen_port'') = Some (JInt (uint (st_listen_port st)))"
    "obj_get obj (lit ''api_port'') = Some (JInt (uint (st_api_port st)))"
    "obj_get obj (lit ''tls'') = Some (tls_to_json (st_tls st))"
    "obj_get obj (lit ''cloudflare'') = Some (cloudflare_to_json (st_cloudflare st))"
    "obj_get obj (lit ''server'') = Some (server_to_json (st_server st))"
    "obj_get obj (lit ''peers'') = Some (JArr (map peer_to_json (st_peers st)))"
    "obj_get obj (lit ''codes'') = Some (JArr (map code_to_json (st_codes st)))"
    by (simp_all add: obj_def)
  have v: "SCHEMA_VERSION \<noteq> LEGACY_SCHEMA_VERSION"
    by (simp add: SCHEMA_VERSION_def LEGACY_SCHEMA_VERSION_def)
  have subnet: "subnet_parse (subnet_show (st_subnet st)) = Inr (st_subnet st)"
    using st by (simp add: state_typed_def subnet_text.parse_shown)
  have server: "server_from_json u (server_to_json (st_server st)) = Inr (st_server st)"
    by (simp add: server_from_json_Inr server_to_json_def value_obj_def)
  have peers: "decode_elems se_within (peer_from_json u) (lit ''peers'') 0 (map peer_to_json (st_peers st))
      = Inr (st_peers st)"
    by (rule json_codec.elems_roundtrip [OF peer_codec [OF u]]) (use st in \<open>simp add: state_typed_def\<close>)
  have codes: "decode_elems se_within (code_from_json u) (lit ''codes'') 0 (map code_to_json (st_codes st))
      = Inr (st_codes st)"
    by (rule code_codec.elems_roundtrip) (use st in \<open>simp add: state_typed_def\<close>)
  have tls: "tls_from_json u obj SCHEMA_VERSION = Inr (st_tls st)"
    using tls_to_json_get [of "st_tls st" u] get(6) by (auto simp: tls_from_json_Inr [OF v])
  have cf: "cloudflare_from_json obj SCHEMA_VERSION = Inr (st_cloudflare st)"
    using get(7) by (cases "st_cloudflare st")
      (simp_all add: cloudflare_from_json_Inr [OF v] cloudflare_to_json_def value_obj_def)
  have addr: "sk_address (st_server st) = server_address (st_subnet st)"
    using st by (simp add: state_typed_def)
  have ports: "port_field obj (lit ''listen_port'') = Inr (st_listen_port st)"
    "port_field obj (lit ''api_port'') = Inr (st_api_port st)"
    using get(4,5) by (simp_all add: port_field_Inr)
  have "state_to_json st = JObj obj" by (simp add: state_to_json_def obj_def value_obj_def)
  then show ?thesis
    unfolding state_from_json_Inr
    using get subnet server peers codes tls cf addr ports by blast
qed

lemma state_to_json_wf:
  assumes u: "unicode_laws u" and st: "state_typed u st"
  shows "wf_json (state_to_json st)"
proof -
  have "wf_json (JArr (map peer_to_json (st_peers st)))"
    by (rule json_codec.elems_wf [OF peer_codec [OF u]]) (use st in \<open>simp add: state_typed_def\<close>)
  moreover have "wf_json (JArr (map code_to_json (st_codes st)))"
    by (rule code_codec.elems_wf) (use st in \<open>simp add: state_typed_def\<close>)
  moreover have "wf_json (server_to_json (st_server st))"
    using st by (simp add: server_to_json_def value_obj_def state_typed_def server_keys_typed_def)
  moreover have "wf_json (cloudflare_to_json (st_cloudflare st))"
    using st by (cases "st_cloudflare st")
      (simp_all add: cloudflare_to_json_def value_obj_def state_typed_def cloudflare_typed_def)
  moreover have "in_i64 SCHEMA_VERSION" by (simp add: SCHEMA_VERSION_def i64_defs)
  ultimately show ?thesis
    using st tls_to_json_wf [of "st_tls st"]
    by (simp add: state_to_json_def value_obj_def state_typed_def)
qed

lemma state_to_json_depth: "json_depth (state_to_json st) + 2 \<le> MAX_DEPTH"
proof -
  have p: "json_depth (peer_to_json p) \<le> 1" for p
    by (simp add: peer_to_json_def value_obj_def)
  have c: "json_depth (code_to_json p) \<le> 1" for p
    by (simp add: code_to_json_def value_obj_def)
  have "json_depth (JArr (map peer_to_json (st_peers st))) \<le> 2"
    "json_depth (JArr (map code_to_json (st_codes st))) \<le> 2"
    using p c by (simp_all add: foldr_max_le del: foldr_map)
  moreover have "json_depth (tls_to_json (st_tls st)) \<le> 2"
    by (auto simp: tls_to_json_def value_obj_def acme_to_json_def split: tls_source.splits)
  moreover have "json_depth (cloudflare_to_json (st_cloudflare st)) \<le> 1"
    by (auto simp: cloudflare_to_json_def value_obj_def split: option.splits)
  moreover have "json_depth (server_to_json (st_server st)) \<le> 1"
    by (simp add: server_to_json_def value_obj_def)
  ultimately show ?thesis
    by (simp add: state_to_json_def value_obj_def MAX_DEPTH_def del: json_depth.simps(1))
qed

lemma state_codec: "unicode_laws u \<Longrightarrow> json_codec state_to_json (state_from_json u) (state_typed u)"
  by unfold_locales
    (blast intro: state_from_to_json state_from_json_typed state_to_json_wf state_to_json_depth)+

lemma state_parse_written:
  assumes "unicode_laws u" "state_typed u st" "\<forall>c \<in> set ws. c \<in> {32, 9, 10, 13}"
  shows "state_parse u (to_json_string st @ ws) = Inr st"
  using json_codec.pretty_roundtrip [OF state_codec [OF assms(1)] assms(2,3), of u]
    state_from_to_json [OF assms(1,2)]
  by (simp add: state_parse_def to_json_string_def)

lemma state_parse_typed: "unicode_laws u \<Longrightarrow> state_parse u t = Inr st \<Longrightarrow> state_typed u st"
  by (auto simp: state_parse_def result_simps dest: json_parse_sound intro: state_from_json_typed)

end
