(* ===== verification/Paths.thy ===== *)
theory Paths
  imports RustText
begin

text \<open>
  \<open>std::path\<close> on Unix, as far as the program uses it, and \<open>crates/anago/src/paths.rs\<close> with its Unix
  branches: where the files live, and whose configuration directory a run under \<open>sudo\<close> works in.
\<close>

section \<open>Paths of the standard library\<close>

type_synonym path = rstr

definition path_is_absolute :: "path \<Rightarrow> bool" where
  "path_is_absolute p \<longleftrightarrow> p \<noteq> [] \<and> hd p = 47"

definition path_join :: "path \<Rightarrow> path \<Rightarrow> path" where
  "path_join base rel =
    (if path_is_absolute rel then rel
     else if base = [] \<or> last base = 47 then base @ rel
     else base @ [47] @ rel)"

text \<open>What \<open>Components::as_path\<close> leaves of the end: no separator and no \<open>/.\<close>, but the root.\<close>

function path_trim :: "path \<Rightarrow> path" where
  "path_trim p =
    (if p = [47] \<or> p = [] then p
     else if last p = 47 then path_trim (butlast p)
     else if 2 \<le> length p \<and> last p = 46 \<and> last (butlast p) = 47 then path_trim (butlast p)
     else p)"
  by pat_completeness auto
termination
  by (relation "measure length") auto

declare path_trim.simps [simp del]

text \<open>The part before the last component and the last component.\<close>

definition path_cut :: "path \<Rightarrow> path \<times> path" where
  "path_cut p = (let q = path_trim p in
     (rev (dropWhile (\<lambda>c. c \<noteq> 47) (rev q)), rev (takeWhile (\<lambda>c. c \<noteq> 47) (rev q))))"

definition path_parent :: "path \<Rightarrow> path option" where
  "path_parent p = (if path_trim p = [47] \<or> path_trim p = [] then None else Some (path_trim (fst (path_cut p))))"

definition path_file_name :: "path \<Rightarrow> rstr option" where
  "path_file_name p = (let name = snd (path_cut p) in
     if name = [] \<or> name = [46, 46] \<or> name = [46] then None else Some name)"

text \<open>\<open>file_stem\<close>: up to the last dot, unless that dot begins the name.\<close>

definition path_file_stem :: "path \<Rightarrow> rstr option" where
  "path_file_stem p =
    map_option (\<lambda>name.
      if 46 \<notin> set (drop 1 name) then name
      else butlast (rev (dropWhile (\<lambda>c. c \<noteq> 46) (rev name)))) (path_file_name p)"

definition path_with_file_name :: "path \<Rightarrow> rstr \<Rightarrow> path" where
  "path_with_file_name p name =
    (case path_file_name p of
       None \<Rightarrow> path_join p name
     | Some _ \<Rightarrow> path_join (case path_parent p of None \<Rightarrow> [] | Some d \<Rightarrow> d) name)"

section \<open>The server's files\<close>

definition DEFAULT_SERVER_ROOT :: path where "DEFAULT_SERVER_ROOT = lit ''/var/lib/anago''"
definition DEFAULT_WG_DIR :: path where "DEFAULT_WG_DIR = lit ''/etc/wireguard''"
definition WG_INTERFACE :: rstr where "WG_INTERFACE = lit ''anago''"

datatype server_paths = ServerPaths (sp_root: path)

definition sp_state_file :: "server_paths \<Rightarrow> path" where
  "sp_state_file p = path_join (sp_root p) (lit ''state.json'')"

definition sp_tls_dir :: "server_paths \<Rightarrow> path" where
  "sp_tls_dir p = path_join (sp_root p) (lit ''tls'')"

definition sp_certificate :: "server_paths \<Rightarrow> path" where
  "sp_certificate p = path_join (sp_tls_dir p) (lit ''fullchain.pem'')"

definition sp_private_key :: "server_paths \<Rightarrow> path" where
  "sp_private_key p = path_join (sp_tls_dir p) (lit ''privkey.pem'')"

definition sp_account_key :: "server_paths \<Rightarrow> path" where
  "sp_account_key p = path_join (sp_tls_dir p) (lit ''account.key'')"

definition sp_cf_token :: "server_paths \<Rightarrow> path" where
  "sp_cf_token p = path_join (sp_root p) (lit ''cf-token'')"

definition sp_issue_lock :: "server_paths \<Rightarrow> path" where
  "sp_issue_lock p = path_join (sp_root p) (lit ''issue.lock'')"

definition sp_state_lock :: "server_paths \<Rightarrow> path" where
  "sp_state_lock p = path_join (sp_root p) (lit ''state.lock'')"

section \<open>A device's files\<close>

definition DEVICE_FILE :: rstr where "DEVICE_FILE = lit ''device.json''"
definition JOIN_LOCK :: rstr where "JOIN_LOCK = lit ''join.lock''"
definition SYNC_LOCK :: rstr where "SYNC_LOCK = lit ''sync.lock''"

datatype client_paths = ClientPaths (client_dir: path)

definition device_file :: "client_paths \<Rightarrow> path" where
  "device_file p = path_join (client_dir p) DEVICE_FILE"

definition wg_config_path :: "path \<Rightarrow> path" where
  "wg_config_path dir = path_join dir (WG_INTERFACE @ lit ''.conf'')"

datatype path_error = NoHome

fun path_error_show :: "path_error \<Rightarrow> rstr" where
  "path_error_show NoHome = lit ''cannot tell where your config directory is '' @ [0x2014]
     @ lit '' set HOME or XDG_CONFIG_HOME''"

definition client_config_dir :: "rstr option \<Rightarrow> rstr option \<Rightarrow> path_error + client_paths" where
  "client_config_dir xdg home =
    (case Option.bind xdg (\<lambda>xdg. if path_is_absolute xdg then Some xdg else None) of
       Some xdg \<Rightarrow> Inr (ClientPaths (path_join xdg (lit ''anago'')))
     | None \<Rightarrow>
         (case Option.bind home (\<lambda>home. if path_is_absolute home then Some home else None) of
            Some home \<Rightarrow> Inr (ClientPaths (path_join (path_join home (lit ''.config'')) (lit ''anago'')))
          | None \<Rightarrow> Inl NoHome))"

record invoking_user =
  iu_uid :: nat
  iu_gid :: nat
  iu_home :: "path option"

definition u32_max :: nat where "u32_max = 4294967295"

definition invoking_user_of :: "rstr option \<Rightarrow> rstr option \<Rightarrow> path option \<Rightarrow> invoking_user option" where
  "invoking_user_of sudo_uid sudo_gid home =
    Option.bind sudo_uid (\<lambda>uid.
    Option.bind (parse_unsigned u32_max uid) (\<lambda>uid.
      if uid = 0 then None
      else Some \<lparr>iu_uid = uid,
        iu_gid = (case Option.bind sudo_gid (parse_unsigned u32_max) of Some gid \<Rightarrow> gid | None \<Rightarrow> uid),
        iu_home = home\<rparr>))"

text \<open>\<open>home_of\<close> is the password database's; it gives absolute directories only.\<close>

definition invoking_user_from_env ::
  "(nat \<Rightarrow> path option) \<Rightarrow> rstr option \<Rightarrow> rstr option \<Rightarrow> invoking_user option"
where
  "invoking_user_from_env home_of sudo_uid sudo_gid =
    map_option (\<lambda>user. user\<lparr>iu_home := home_of (iu_uid user)\<rparr>) (invoking_user_of sudo_uid sudo_gid None)"

definition client_config_dir_for ::
  "rstr option \<Rightarrow> rstr option \<Rightarrow> invoking_user option \<Rightarrow> path_error + client_paths"
where
  "client_config_dir_for xdg home invoking =
    (case Option.bind xdg (\<lambda>xdg. if path_is_absolute xdg then Some xdg else None) of
       Some xdg \<Rightarrow> Inr (ClientPaths (path_join xdg (lit ''anago'')))
     | None \<Rightarrow>
         (case Option.bind invoking iu_home of
            Some sudo_home \<Rightarrow> Inr (ClientPaths (path_join (path_join sudo_home (lit ''.config'')) (lit ''anago'')))
          | None \<Rightarrow> client_config_dir None home))"

section \<open>Facts\<close>

lemma path_join_absolute: "path_is_absolute base \<Longrightarrow> path_is_absolute (path_join base rel)"
  by (auto simp: path_join_def path_is_absolute_def)

lemma client_config_dir_absolute:
  "client_config_dir xdg home = Inr p \<Longrightarrow> path_is_absolute (client_dir p)"
  by (auto simp: client_config_dir_def path_join_absolute bind_eq_Some_conv split: option.splits if_splits)

lemma client_config_dir_for_absolute:
  assumes "client_config_dir_for xdg home invoking = Inr p"
    and "\<And>user d. invoking = Some user \<Longrightarrow> iu_home user = Some d \<Longrightarrow> path_is_absolute d"
  shows "path_is_absolute (client_dir p)"
  using assms client_config_dir_absolute
  by (cases invoking) (auto simp: client_config_dir_for_def path_join_absolute bind_eq_Some_conv split: option.splits if_splits)

text \<open>
  The same person with and without \<open>sudo\<close>: when the configuration directory was not moved, or its
  variable is kept, both runs work in one directory.
\<close>

lemma sudo_same_directory:
  assumes "parse_unsigned u32_max uid = Some n" "n \<noteq> 0" "home_of n = Some home" "path_is_absolute home"
  shows "client_config_dir_for xdg (Some root) (invoking_user_from_env home_of (Some uid) gid)
    = client_config_dir_for xdg (Some home) None"
  using assms
  by (auto simp: client_config_dir_for_def client_config_dir_def invoking_user_from_env_def invoking_user_of_def
      split: option.splits if_splits)

end
