(* ===== verification/Diagnostics.thy ===== *)
theory Diagnostics
  imports Paths
begin

text \<open>
  \<open>crates/anago/src/diagnostics.rs\<close>: the kinds of I/O failure the program tells apart and the advice
  that follows one, which depends on who should own what was being written.
\<close>

text \<open>\<open>io::ErrorKind\<close>, the kinds the code names and the others by name.\<close>

datatype io_kind =
    IoNotFound | IoPermissionDenied | IoAlreadyExists | IoNotADirectory
  | IoStorageFull | IoReadOnly | IoOther rstr

datatype target_owner = UserOwned | SystemOwned

record target =
  tg_path :: path
  tg_is_directory :: bool
  tg_owner :: target_owner

definition user_file :: "path \<Rightarrow> target" where
  "user_file p = \<lparr>tg_path = p, tg_is_directory = False, tg_owner = UserOwned\<rparr>"

definition user_directory :: "path \<Rightarrow> target" where
  "user_directory p = \<lparr>tg_path = p, tg_is_directory = True, tg_owner = UserOwned\<rparr>"

definition system_file :: "path \<Rightarrow> target" where
  "system_file p = \<lparr>tg_path = p, tg_is_directory = False, tg_owner = SystemOwned\<rparr>"

definition system_directory :: "path \<Rightarrow> target" where
  "system_directory p = \<lparr>tg_path = p, tg_is_directory = True, tg_owner = SystemOwned\<rparr>"

definition blame :: "target \<Rightarrow> path" where
  "blame t =
    (if tg_is_directory t then tg_path t
     else (case path_parent (tg_path t) of None \<Rightarrow> tg_path t | Some d \<Rightarrow> d))"

definition advice_for :: "target option \<Rightarrow> io_kind \<Rightarrow> rstr option" where
  "advice_for target kind =
    (case kind of
       IoPermissionDenied \<Rightarrow> Some (case target of
           None \<Rightarrow> lit ''run this as root '' @ [0x2014] @ lit '' the hub'' @ [39]
     @ lit ''s files live in /var/lib/anago and /etc/wireguard''
         | Some t \<Rightarrow>
             (case tg_owner t of
                SystemOwned \<Rightarrow> lit ''run this as root '' @ [0x2014] @ lit '' '' @ blame t @ lit '' belongs to the system''
              | UserOwned \<Rightarrow> lit ''check who owns '' @ blame t
                  @ lit '' '' @ [0x2014]
     @ lit '' it should belong to you, and it will not if a `sudo anago` run created it''))
     | IoStorageFull \<Rightarrow> Some (lit ''the filesystem is full'')
     | IoReadOnly \<Rightarrow> Some (lit ''the filesystem is mounted read-only'')
     | _ \<Rightarrow> None)"

definition with_target_advice :: "rstr \<Rightarrow> target option \<Rightarrow> io_kind \<Rightarrow> rstr" where
  "with_target_advice message target kind =
    (case advice_for target kind of
       Some advice \<Rightarrow> message @ lit '' '' @ [0x2014] @ lit '' '' @ advice
     | None \<Rightarrow> message)"

definition with_advice :: "rstr \<Rightarrow> io_kind \<Rightarrow> rstr" where
  "with_advice message kind = with_target_advice message None kind"

text \<open>Nobody is told to use root over a file of their own.\<close>

lemma user_never_root:
  "tg_owner t = UserOwned \<Longrightarrow> advice_for (Some t) kind = Some a \<Longrightarrow>
    take 15 a \<noteq> take 15 (lit ''run this as root'')"
  by (auto simp: advice_for_def lit_Cons split: io_kind.splits)

end
