(* ===== verification/Store.thy ===== *)
theory Store
  imports StateFile Diagnostics
begin

text \<open>
  \<open>crates/anago/src/store.rs\<close>: the state file read under the lock and written back, over a disk
  that holds its text. Whether the operating system lets a lock, a read or a write happen is the
  environment's. A write that fails leaves the file as it was, which is what the write to a
  sibling and the rename of \<open>fsutil::write_private\<close> are for.
\<close>

datatype store_error =
    StoreIo (se_path: rstr) (se_kind: io_kind) (se_source: rstr)
  | StoreParse (se_path: rstr) (se_error: state_error)

record io_env =
  io_root :: rstr
  io_lock :: "(io_kind \<times> rstr) option"
  io_read :: "(io_kind \<times> rstr) option"
  io_absent :: rstr
  io_write :: "(io_kind \<times> rstr) option"

type_synonym disk = "rstr option"

definition state_file :: "io_env \<Rightarrow> rstr" where
  "state_file env = sp_state_file (ServerPaths (io_root env))"

definition state_lock :: "io_env \<Rightarrow> rstr" where
  "state_lock env = sp_state_lock (ServerPaths (io_root env))"

definition read_to_string :: "io_env \<Rightarrow> disk \<Rightarrow> (io_kind \<times> rstr) + rstr" where
  "read_to_string env disk =
    (case io_read env of
       Some e \<Rightarrow> Inl e
     | None \<Rightarrow> ok_or (IoNotFound, io_absent env) disk)"

definition store_read :: "unicode \<Rightarrow> io_env \<Rightarrow> disk \<Rightarrow> store_error + server_state" where
  "store_read u env disk =
    attempt (map_err (\<lambda>(kind, source). StoreIo (state_file env) kind source) (read_to_string env disk)) (\<lambda>t.
      map_err (StoreParse (state_file env)) (state_parse u t))"

definition store_write :: "io_env \<Rightarrow> server_state \<Rightarrow> disk \<Rightarrow> (store_error + unit) \<times> disk" where
  "store_write env st disk =
    (case io_write env of
       Some (kind, source) \<Rightarrow> (Inl (StoreIo (state_file env) kind source), disk)
     | None \<Rightarrow> (Inr (), Some (to_json_string st)))"

text \<open>\<open>Store::lock\<close>: the state read under the lock. \<open>Guard::commit\<close> is \<open>store_write\<close>.\<close>

definition store_lock :: "unicode \<Rightarrow> io_env \<Rightarrow> disk \<Rightarrow> store_error + server_state" where
  "store_lock u env disk =
    (case io_lock env of
       Some (kind, source) \<Rightarrow>
         Inl (StoreIo (if kind = IoNotFound then state_file env else state_lock env) kind source)
     | None \<Rightarrow> store_read u env disk)"

definition store_error_show :: "unicode \<Rightarrow> store_error \<Rightarrow> rstr" where
  "store_error_show u e =
    (case e of
       StoreIo path kind source \<Rightarrow>
         if kind = IoNotFound then
           path @ lit '': not found '' @ [0x2014] @ lit '' run `anago server init` on this machine first (''
           @ source @ lit '')''
         else with_target_advice (path @ lit '': '' @ source) (Some (system_file path)) kind
     | StoreParse path error \<Rightarrow> path @ lit '': '' @ state_error_show u error)"

section \<open>Facts\<close>

definition env_fine :: "io_env \<Rightarrow> bool" where
  "env_fine env \<longleftrightarrow> io_lock env = None \<and> io_read env = None \<and> io_write env = None"

lemma store_lock_Inr:
  "store_lock u env disk = Inr st \<longleftrightarrow>
    io_lock env = None \<and> io_read env = None \<and> (\<exists>t. disk = Some t \<and> state_parse u t = Inr st)"
  by (auto simp: store_lock_def store_read_def read_to_string_def result_simps split: option.splits prod.splits)

lemma store_write_Inr:
  "store_write env st disk = (Inr x, disk') \<longleftrightarrow> io_write env = None \<and> disk' = Some (to_json_string st)"
  by (cases x) (auto simp: store_write_def split: option.splits prod.splits)

lemma store_write_Inl: "store_write env st disk = (Inl e, disk') \<Longrightarrow> disk' = disk"
  by (auto simp: store_write_def split: option.splits prod.splits)

text \<open>What the disk holds, as the state it is read as.\<close>

definition holds :: "unicode \<Rightarrow> disk \<Rightarrow> server_state \<Rightarrow> bool" where
  "holds u disk st \<longleftrightarrow> (\<exists>t. disk = Some t \<and> state_parse u t = Inr st)"

lemma holds_fun: "holds u disk st \<Longrightarrow> holds u disk st' \<Longrightarrow> st' = st"
  by (auto simp: holds_def)

lemma holds_written: "unicode_laws u \<Longrightarrow> state_typed u st \<Longrightarrow> holds u (Some (to_json_string st)) st"
  using state_parse_written [of u st "[]"] by (simp add: holds_def)

lemma holds_typed: "unicode_laws u \<Longrightarrow> holds u disk st \<Longrightarrow> state_typed u st"
  by (auto simp: holds_def intro: state_parse_typed)

end
