(* ===== verification/WgTools.thy ===== *)
theory WgTools
  imports ServerState
begin

text \<open>
  The parts of \<open>crates/anago/src/wg.rs\<close> that are decided without a running system: whether a key
  looks like a key, and what \<open>wg show dump\<close> printed.
\<close>

definition is_key_char :: "rchar \<Rightarrow> bool" where
  "is_key_char c \<longleftrightarrow> is_ascii_alnum c \<or> c = 43 \<or> c = 47"

text \<open>
  A rejection carries the length only. The lengths are of bytes; a key that ends in \<open>=\<close> has its
  first 43 bytes in all its characters but the last.
\<close>

definition parse_key :: "rstr \<Rightarrow> nat + rstr" where
  "parse_key output =
    (let key = trim output;
         valid = (length (utf8 key) = 44 \<and> key \<noteq> [] \<and> last key = 61
           \<and> list_all is_key_char (butlast key))
     in if valid then Inr key else Inl (length key))"

record dump_peer =
  dp_public_key :: rstr
  dp_last_handshake :: "int option"

definition parse_dump_line :: "rstr \<Rightarrow> dump_peer option" where
  "parse_dump_line line =
    (let fields = split_on 9 line; public_key = hd fields in
     if length fields < 5 then None
     else (case parse_i64 (trim (fields ! 4)) of
         None \<Rightarrow> None
       | Some handshake \<Rightarrow>
           if public_key = [] then None
           else Some \<lparr>dp_public_key = public_key,
             dp_last_handshake = (if 0 < handshake then Some handshake else None)\<rparr>))"

definition parse_dump :: "rstr \<Rightarrow> dump_peer list" where
  "parse_dump t = List.map_filter parse_dump_line (drop 1 (lines t))"

section \<open>Facts\<close>

definition key_ok :: "rstr \<Rightarrow> bool" where
  "key_ok k \<longleftrightarrow> (\<exists>t. k = t @ [61] \<and> length t = 43 \<and> list_all is_key_char t)"

lemma key_char_ascii: "is_key_char c \<Longrightarrow> c < 0x80 \<and> \<not> is_ws c"
  by (auto simp: is_key_char_def char_class_defs is_ws_def)

lemma utf8_key_chars: "list_all is_key_char t \<Longrightarrow> length (utf8 t) = length t"
  by (induction t) (auto dest: key_char_ascii)

lemma parse_key_iff: "parse_key s = Inr k \<longleftrightarrow> k = trim s \<and> key_ok k"
proof -
  have "key \<noteq> [] \<and> last key = 61 \<and> list_all is_key_char (butlast key) \<and> length (utf8 key) = 44
      \<longleftrightarrow> key_ok key" for key
  proof
    assume a: "key \<noteq> [] \<and> last key = 61 \<and> list_all is_key_char (butlast key) \<and> length (utf8 key) = 44"
    then have key: "key = butlast key @ [61]" by (metis append_butlast_last_id)
    have "length (utf8 (butlast key @ [61])) = 44" using a key by simp
    then have "length (butlast key) = 43"
      using a by (simp add: utf8_key_chars del: length_butlast)
    with a key show "key_ok key" unfolding key_ok_def by blast
  next
    assume "key_ok key"
    then show "key \<noteq> [] \<and> last key = 61 \<and> list_all is_key_char (butlast key) \<and> length (utf8 key) = 44"
      by (auto simp: key_ok_def utf8_key_chars)
  qed
  then show ?thesis by (auto simp: parse_key_def Let_def)
qed

lemma key_ok_no_ws: "key_ok k \<Longrightarrow> c \<in> set k \<Longrightarrow> \<not> is_ws c \<and> c < 0x80"
proof -
  have "\<not> is_ws 61" by (simp add: is_ws_def)
  then show "key_ok k \<Longrightarrow> c \<in> set k \<Longrightarrow> \<not> is_ws c \<and> c < 0x80"
    by (auto simp: key_ok_def list_all_iff dest!: key_char_ascii)
qed

interpretation key_text: text_form "\<lambda>k. k" parse_key key_ok
  by unfold_locales (auto simp: parse_key_iff trim_id key_ok_no_ws)

lemma key_ok_valid: "key_ok k \<Longrightarrow> valid_str k"
  by (fastforce simp: valid_str_def list_all_iff intro!: scalar_small dest: key_ok_no_ws)

end
