(* ===== verification/Secret.thy ===== *)
theory Secret
  imports Token JoinCode
begin

text \<open>
  \<open>crates/anago/src/secret.rs\<close>: the secrets the server mints. The kernel's randomness is the
  argument (a block of bytes, or the error of reading it), and SHA-256, a third-party crate, is
  the parameter \<open>sha\<close>.
\<close>

definition new_token :: "rstr + u8 list \<Rightarrow> rstr + device_token" where
  "new_token random = attempt random (\<lambda>bytes. Inr (token_from_bytes bytes))"

definition hash_token :: "(u8 list \<Rightarrow> u8 list) \<Rightarrow> device_token \<Rightarrow> token_hash" where
  "hash_token sha token = hash_from_bytes (sha (utf8 (token_str token)))"

definition draw_limit :: nat where
  "draw_limit = (256 div length ALPHABET) * length ALPHABET"

text \<open>One block of the loop: a byte counts when it is below the limit; full stops the block.\<close>

fun take_indices :: "nat list \<Rightarrow> u8 list \<Rightarrow> nat list" where
  "take_indices indices [] = indices"
| "take_indices indices (b # block) =
    (if unat b < draw_limit then
       (let indices' = indices @ [unat b mod length ALPHABET] in
        if length indices' = CODE_LEN then indices' else take_indices indices' block)
     else take_indices indices block)"

text \<open>
  The whole loop over the blocks \<open>random 0\<close>, \<open>random 1\<close>, \<dots>. A source that never gives a byte below
  the limit keeps it running: that is \<open>None\<close>. The outer \<open>None\<close> of \<open>from_indices\<close> is its
  \<open>expect\<close>, which \<open>new_join_code_ok\<close> shows is never reached.
\<close>

partial_function (option) draw_indices ::
  "(nat \<Rightarrow> rstr + u8 list) \<Rightarrow> nat \<Rightarrow> nat list \<Rightarrow> (rstr + nat list) option"
where
  "draw_indices random n indices =
    (if length indices < CODE_LEN then
       (case random n of
          Inl e \<Rightarrow> Some (Inl e)
        | Inr block \<Rightarrow> draw_indices random (n + 1) (take_indices indices block))
     else Some (Inr indices))"

definition new_join_code :: "(nat \<Rightarrow> rstr + u8 list) \<Rightarrow> (rstr + join_code option) option" where
  "new_join_code random =
    map_option (\<lambda>r. attempt r (\<lambda>indices. Inr (join_code_from_indices indices))) (draw_indices random 0 [])"

section \<open>Facts\<close>

lemma draw_limit_eq [simp]: "draw_limit = 240"
  by (simp add: draw_limit_def)

lemma new_token_ok: "new_token (Inr bytes) = Inr t \<Longrightarrow> length bytes = TOKEN_BYTES \<Longrightarrow> hex_ok (token_str t)"
  by (auto simp: new_token_def token_from_bytes_def to_hex_ok)

lemma new_token_inject: "new_token (Inr as) = new_token (Inr bs) \<longleftrightarrow> as = bs"
  by (simp add: new_token_def token_from_bytes_def to_hex_inject)

lemma hash_token_ok: "length (sha (utf8 (token_str t))) = TOKEN_BYTES \<Longrightarrow> hex_ok (hash_str (hash_token sha t))"
  by (simp add: hash_token_def hash_from_bytes_def to_hex_ok)

definition indices_ok :: "nat list \<Rightarrow> bool" where
  "indices_ok is \<longleftrightarrow> length is \<le> 8 \<and> (\<forall>i \<in> set is. i < 30)"

lemma take_indices_ok: "indices_ok is \<Longrightarrow> length is < 8 \<Longrightarrow> indices_ok (take_indices is block)"
proof (induction block arbitrary: "is")
  case Nil
  then show ?case by simp
next
  case (Cons b block)
  define is' where "is' = is @ [unat b mod 30]"
  have ok: "indices_ok is'" using Cons.prems by (auto simp: is'_def indices_ok_def)
  show ?case
  proof (cases "unat b < 240")
    case True
    then have "take_indices is (b # block) = (if length is' = 8 then is' else take_indices is' block)"
      by (simp add: is'_def)
    moreover have "length is' \<le> 8" using ok by (simp add: indices_ok_def)
    ultimately show ?thesis using ok Cons.IH [OF ok] by (cases "length is' = 8") auto
  next
    case False
    with Cons show ?thesis by simp
  qed
qed

lemma draw_indices_ok:
  "draw_indices random n is = Some y \<Longrightarrow> indices_ok is \<longrightarrow> (\<forall>r. y = Inr r \<longrightarrow> indices_ok r \<and> length r = 8)"
proof (rule draw_indices.raw_induct [where P = "\<lambda>random n is y.
    indices_ok is \<longrightarrow> (\<forall>r. y = Inr r \<longrightarrow> indices_ok r \<and> length r = 8)"], goal_cases)
  case (1 draw_indices random n "is" y)
  show ?case
  proof (intro impI allI)
    fix r assume ok: "indices_ok is" and y: "y = Inr r"
    show "indices_ok r \<and> length r = 8"
    proof (cases "length is < 8")
      case True
      with 1(3) y obtain block where "random n = Inr block"
        and "draw_indices random (n + 1) (take_indices is block) = Some (Inr r)"
        by (auto split: sum.splits)
      with 1(2) take_indices_ok [OF ok True] show ?thesis by blast
    next
      case False
      with 1(3) y ok show ?thesis by (simp add: indices_ok_def)
    qed
  qed
qed

lemma new_join_code_ok:
  "new_join_code random = Some (Inr r) \<Longrightarrow> \<exists>c. r = Some c \<and> code_ok c"
proof -
  assume "new_join_code random = Some (Inr r)"
  then obtain "is" where "draw_indices random 0 [] = Some (Inr is)"
    and r: "r = join_code_from_indices is"
    by (auto simp: new_join_code_def result_simps)
  then have "indices_ok is \<and> length is = 8"
    using draw_indices_ok by (force simp: indices_ok_def)
  then have "join_code_from_indices is \<noteq> None"
    using index_chars_Some [of "is", THEN iffD2]
    by (simp add: join_code_from_indices_def indices_ok_def)
  with r show ?thesis by (auto dest: from_indices_ok)
qed

text \<open>
  The draw returns when the source delivers: here, when its first block holds eight bytes below
  the limit (of the 32 a block has, all but one in sixteen are expected to be).
\<close>

lemma length_take_indices:
  "length is < 8 \<Longrightarrow>
    length (take_indices is block) = min 8 (length is + length (filter (\<lambda>b. unat b < 240) block))"
proof (induction block arbitrary: "is")
  case (Cons b block)
  define is' where "is' = is @ [unat b mod 30]"
  show ?case
  proof (cases "unat b < 240")
    case True
    then have "take_indices is (b # block) = (if length is' = 8 then is' else take_indices is' block)"
      by (simp add: is'_def)
    moreover have "length is' = Suc (length is)" by (simp add: is'_def)
    ultimately show ?thesis using True Cons.prems Cons.IH [of is'] by auto
  next
    case False
    with Cons show ?thesis by simp
  qed
qed simp

lemma new_join_code_returns:
  assumes "random 0 = Inr block" "8 \<le> length (filter (\<lambda>b. unat b < 240) block)"
  shows "\<exists>c. new_join_code random = Some (Inr (Some c))"
proof -
  have "\<not> length (take_indices [] block) < 8"
    using assms(2) by (simp add: length_take_indices)
  then have "draw_indices random 0 [] = Some (Inr (take_indices [] block))"
    using assms(1) by (simp add: draw_indices.simps [of random 0] draw_indices.simps [of random "Suc 0"])
  then have "new_join_code random = Some (Inr (join_code_from_indices (take_indices [] block)))"
    by (simp add: new_join_code_def)
  with new_join_code_ok [OF this] show ?thesis by auto
qed

text \<open>No bias: below the limit every index has the same number of bytes behind it.\<close>

lemma index_unbiased:
  assumes "i < 30"
  shows "card {b :: u8. unat b < 240 \<and> unat b mod 30 = i} = 8"
proof -
  have "{b :: u8. unat b < 240 \<and> unat b mod 30 = i} = (\<lambda>k. byte (30 * k + i)) ` {0..<8}"
  proof (intro equalityI subsetI)
    fix b :: u8 assume "b \<in> {b. unat b < 240 \<and> unat b mod 30 = i}"
    then have b: "unat b < 240" "unat b mod 30 = i" by simp_all
    have "b = byte (30 * (unat b div 30) + i)"
      using b(2) mult_div_mod_eq [of 30 "unat b"] by (metis byte_unat)
    moreover have "unat b div 30 < 8" using b(1) by simp
    ultimately show "b \<in> (\<lambda>k. byte (30 * k + i)) ` {0..<8}" by (auto intro!: image_eqI)
  next
    fix b assume "b \<in> (\<lambda>k. byte (30 * k + i)) ` {0..<8}"
    then obtain k where "k < 8" "b = byte (30 * k + i)" by auto
    moreover from this assms have "30 * k + i < 240" by linarith
    ultimately show "b \<in> {b. unat b < 240 \<and> unat b mod 30 = i}" using assms by simp
  qed
  moreover have "inj_on (\<lambda>k. byte (30 * k + i)) {0..<8}"
  proof (rule inj_onI)
    fix k l :: nat assume "k \<in> {0..<8}" "l \<in> {0..<8}" "byte (30 * k + i) = byte (30 * l + i)"
    moreover from this(1,2) assms have "30 * k + i < 256" "30 * l + i < 256" by auto
    ultimately show "k = l" by (simp add: byte_inject)
  qed
  ultimately show ?thesis by (simp add: card_image)
qed

end
