(* ===== verification/Api.thy ===== *)
theory Api
  imports Store WgTools Secret
begin

text \<open>
  \<open>crates/anago/src/api.rs\<close> and \<open>crates/anago/src/code.rs\<close>: the decisions of the control API as
  functions of a state and a request, and issuing a join code.
\<close>

section \<open>Refusals\<close>

definition INVALID_CODE :: rstr where
  "INVALID_CODE = lit ''that join code is not valid''"

definition UNAUTHORIZED :: rstr where
  "UNAUTHORIZED = lit ''a valid device token is required''"

definition unauthorized :: api_error where
  "unauthorized = api_error_new EcUnauthorized UNAUTHORIZED"

fun status_for :: "error_code \<Rightarrow> nat" where
  "status_for EcBadRequest = 400"
| "status_for EcInvalidName = 400"
| "status_for EcInvalidPublicKey = 400"
| "status_for EcUnauthorized = 401"
| "status_for EcInvalidCode = 403"
| "status_for EcNotFound = 404"
| "status_for EcNameTaken = 409"
| "status_for EcSubnetFull = 507"
| "status_for EcInternal = 500"

section \<open>Authentication\<close>

text \<open>
  An \<open>Authorization\<close> header, when there is one, is what \<open>HeaderValue::to_str\<close> makes of it:
  its text, or \<open>None\<close> where it is not visible ASCII.
\<close>

definition bearer_token :: "rstr option option \<Rightarrow> api_error + device_token" where
  "bearer_token header =
    attempt (ok_or unauthorized header) (\<lambda>v.
    attempt (ok_or unauthorized v) (\<lambda>v.
    attempt (ok_or unauthorized
       (case strip_prefix (lit ''Bearer '') v of
          Some t \<Rightarrow> Some t
        | None \<Rightarrow> strip_prefix (lit ''bearer '') v)) (\<lambda>token.
      map_err (\<lambda>_. unauthorized) (token_parse (trim token)))))"

text \<open>The loop has no \<open>break\<close>: every device is compared, and the last that matches is the caller.\<close>

definition authenticate :: "(u8 list \<Rightarrow> u8 list) \<Rightarrow> server_state \<Rightarrow> device_token \<Rightarrow> api_error + device_name"
where
  "authenticate sha st token =
    (let offered = hash_token sha token;
         found = foldl (\<lambda>found p. if hash_matches (p_token_hash p) offered then Some (p_name p) else found)
           None (st_peers st)
     in ok_or unauthorized found)"

definition touch_last_seen :: "device_name \<Rightarrow> int \<Rightarrow> server_state \<Rightarrow> server_state" where
  "touch_last_seen name now st =
    (case position (\<lambda>p. p_name p = name) (st_peers st) of
       None \<Rightarrow> st
     | Some i \<Rightarrow> st\<lparr>st_peers := (st_peers st)[i := (st_peers st ! i)\<lparr>p_last_seen := Some now\<rparr>]\<rparr>)"

section \<open>Answers\<close>

definition server_endpoint :: "server_state \<Rightarrow> rstr" where
  "server_endpoint st = st_domain st @ [58] @ dec_nat (unat (st_listen_port st))"

definition info_of :: "peer \<Rightarrow> peer_info" where
  "info_of p = \<lparr>pi_name = name_str (p_name p), pi_public_key = p_public_key p,
     pi_address = ipv4_show (p_address p)\<rparr>"

definition decide_peers :: "server_state \<Rightarrow> peers_response" where
  "decide_peers st =
    \<lparr>pr_peers = map info_of (st_peers st),
     pr_hub = Some \<lparr>hub_subnet = subnet_show (st_subnet st),
       hub_server_public_key = sk_public_key (st_server st),
       hub_server_endpoint = server_endpoint st,
       hub_server_address = ipv4_show (server_address (st_subnet st))\<rparr>\<rparr>"

definition decide_remove :: "unicode \<Rightarrow> rstr \<Rightarrow> server_state \<Rightarrow> (api_error + peer_info) \<times> server_state"
where
  "decide_remove u name st =
    (let not_found = api_error_new EcNotFound (lit ''no device named '' @ debug_str u name) in
     case device_name_parse u name of
       Inl _ \<Rightarrow> (Inl not_found, st)
     | Inr parsed \<Rightarrow>
         (case remove_peer parsed st of
            (None, st') \<Rightarrow> (Inl not_found, st')
          | (Some p, st') \<Rightarrow> (Inr (info_of p), st')))"

definition rejection_answer :: "join_rejection \<Rightarrow> api_error" where
  "rejection_answer r =
    (case rejection_error_code r of
       EcInvalidCode \<Rightarrow> api_error_new EcInvalidCode INVALID_CODE
     | code \<Rightarrow> api_error_new code (rejection_show r))"

definition join_answer :: "server_state \<Rightarrow> device_token \<Rightarrow> peer \<Rightarrow> join_response" where
  "join_answer st token p =
    \<lparr>js_name = name_str (p_name p), js_address = ipv4_show (p_address p),
     js_subnet = subnet_show (st_subnet st), js_token = token_str token,
     js_server_public_key = sk_public_key (st_server st), js_server_endpoint = server_endpoint st,
     js_server_address = ipv4_show (server_address (st_subnet st))\<rparr>"

definition registration_of :: "unicode \<Rightarrow> join_request \<Rightarrow> token_hash \<Rightarrow> api_error + registration" where
  "registration_of u request token_hash =
    attempt (map_err (\<lambda>_. api_error_new EcInvalidCode INVALID_CODE)
      (join_code_parse (jq_code request))) (\<lambda>code.
    attempt (map_err (\<lambda>e. api_error_new EcInvalidName (name_error_show u e))
      (device_name_parse u (jq_name request))) (\<lambda>name.
    attempt (map_err (\<lambda>_. api_error_new EcInvalidPublicKey
        (lit ''expected a WireGuard public key (44 base64 characters)''))
      (parse_key (jq_public_key request))) (\<lambda>public_key.
      Inr \<lparr>rg_code = code, rg_name = name, rg_public_key = public_key,
           rg_token_hash = token_hash\<rparr>)))"

definition decide_join ::
  "unicode \<Rightarrow> join_request \<Rightarrow> device_token \<Rightarrow> token_hash \<Rightarrow> int \<Rightarrow> server_state
    \<Rightarrow> (api_error + join_response) \<times> server_state"
where
  "decide_join u request token token_hash now st =
    (case registration_of u request token_hash of
       Inl e \<Rightarrow> (Inl e, st)
     | Inr reg \<Rightarrow>
         (case add_peer reg now st of
            (Inl rejection, st') \<Rightarrow> (Inl (rejection_answer rejection), st')
          | (Inr p, st') \<Rightarrow> (Inr (join_answer st' token p), st')))"

definition parse_body :: "unicode \<Rightarrow> u8 list \<Rightarrow> api_error + join_request" where
  "parse_body u body =
    attempt (ok_or (api_error_new EcBadRequest (lit ''the request body is not UTF-8'')) (utf8_decode body)) (\<lambda>t.
    attempt (map_err (\<lambda>e. api_error_new EcBadRequest (lit ''invalid JSON: '' @ json_error_show e))
      (json_parse u t)) (\<lambda>v.
    map_err (\<lambda>e. api_error_new EcBadRequest (decode_error_show u e)) (join_request_from_json v)))"

section \<open>Issuing a code\<close>

datatype code_cmd_error = CodeState store_error | CodeRandom rstr | NoFreeCode nat

definition MAX_DRAWS :: nat where
  "MAX_DRAWS = 8"

text \<open>\<open>draw i\<close> is what the \<open>i\<close>-th call of the closure returns; the error is already printed.\<close>

fun choose_loop :: "server_state \<Rightarrow> (nat \<Rightarrow> rstr + join_code) \<Rightarrow> nat \<Rightarrow> nat \<Rightarrow> nat \<Rightarrow> code_cmd_error + join_code"
where
  "choose_loop st draw draws i 0 = Inl (NoFreeCode draws)"
| "choose_loop st draw draws i (Suc left) =
    attempt (map_err CodeRandom (draw i)) (\<lambda>candidate.
      if \<not> (\<exists>issued \<in> set (st_codes st). ic_code issued = candidate) then Inr candidate
      else choose_loop st draw draws (i + 1) left)"

definition choose_unused :: "server_state \<Rightarrow> (nat \<Rightarrow> rstr + join_code) \<Rightarrow> nat \<Rightarrow> code_cmd_error + join_code"
where
  "choose_unused st draw draws = choose_loop st draw draws 0 draws"

definition issue :: "join_code \<Rightarrow> int \<Rightarrow> int \<Rightarrow> server_state \<Rightarrow> issued_code \<times> server_state" where
  "issue code now ttl_secs st =
    (let issued = issue_code code now ttl_secs in (issued, st\<lparr>st_codes := st_codes st @ [issued]\<rparr>))"

definition code_output :: "rstr \<Rightarrow> join_code \<Rightarrow> int \<Rightarrow> rstr" where
  "code_output domain code ttl_secs =
    lit ''Run this on the device you are adding:'' @ [10, 10] @ lit ''     anago join '' @ domain
    @ lit '' '' @ code_str code @ [10, 10] @ lit ''Single use, good for '' @ show_int (ttl_secs sdiv 60)
    @ lit '' minutes.'' @ [10]"

fun code_cmd_error_show :: "unicode \<Rightarrow> code_cmd_error \<Rightarrow> rstr" where
  "code_cmd_error_show u (CodeState e) = store_error_show u e"
| "code_cmd_error_show u (CodeRandom e) = lit ''could not read /dev/urandom: '' @ e"
| "code_cmd_error_show u (NoFreeCode draws) =
     lit ''could not find an unused join code in '' @ dec_nat draws
     @ lit '' tries '' @ [0x2014] @ lit '' the state file's code history is implausibly large''"

section \<open>Facts\<close>

lemma strip_prefix_Some: "strip_prefix p s = Some t \<longleftrightarrow> s = p @ t"
  by (auto simp: strip_prefix_def) (metis append_take_drop_id)

lemma hash_token_str_ok:
  "\<forall>bs. length (sha bs) = TOKEN_BYTES \<Longrightarrow> hex_ok (hash_str (hash_token sha t))"
  by (simp add: hash_token_ok)

lemma foldl_last:
  "foldl (\<lambda>found p. if P p then Some (f p) else found) found ps =
    (case filter P ps of [] \<Rightarrow> found | qs \<Rightarrow> Some (f (last qs)))"
  by (induction ps arbitrary: found) (auto split: list.splits)

text \<open>Whoever is let in holds a token whose hash the state stores.\<close>

lemma authenticate_sound:
  assumes "authenticate sha st token = Inr name"
  obtains p where "p \<in> set (st_peers st)" "p_name p = name" "hash_matches (p_token_hash p) (hash_token sha token)"
proof -
  define qs where "qs = filter (\<lambda>p. hash_matches (p_token_hash p) (hash_token sha token)) (st_peers st)"
  have "qs \<noteq> []" and name: "name = p_name (last qs)"
    using assms unfolding authenticate_def Let_def foldl_last qs_def [symmetric]
    by (auto simp: result_simps split: list.splits)
  then have "last qs \<in> set qs" by simp
  with name that show ?thesis by (auto simp: qs_def)
qed

lemma authenticate_complete:
  assumes "p \<in> set (st_peers st)" "hash_matches (p_token_hash p) (hash_token sha token)"
  shows "\<exists>name. authenticate sha st token = Inr name"
proof -
  define qs where "qs = filter (\<lambda>p. hash_matches (p_token_hash p) (hash_token sha token)) (st_peers st)"
  have "qs \<noteq> []" using assms by (auto simp: qs_def filter_empty_conv)
  then obtain q qs' where qs: "qs = q # qs'" by (cases qs) auto
  show ?thesis
    unfolding authenticate_def Let_def foldl_last qs_def [symmetric] by (simp add: qs)
qed

lemma rejection_answer_code: "ae_code (rejection_answer r) = rejection_error_code r"
  by (cases r) (simp_all add: rejection_answer_def api_error_new_def)

lemma decide_join_refused: "decide_join u rq token h now st = (Inl e, st') \<Longrightarrow> st' = st"
  by (auto simp: decide_join_def split: sum.splits prod.splits dest: add_peer_rejected)

lemma decide_join_accepted:
  "decide_join u rq token h now st = (Inr r, st') \<longleftrightarrow>
    (\<exists>reg p. registration_of u rq h = Inr reg \<and> add_peer reg now st = (Inr p, st')
      \<and> r = join_answer st' token p)"
  by (auto simp: decide_join_def split: sum.splits prod.splits)

lemma registration_of_Inr:
  "registration_of u rq h = Inr reg \<longleftrightarrow>
     join_code_parse (jq_code rq) = Inr (rg_code reg) \<and> device_name_parse u (jq_name rq) = Inr (rg_name reg)
   \<and> parse_key (jq_public_key rq) = Inr (rg_public_key reg) \<and> rg_token_hash reg = h"
  by (cases reg) (auto simp: registration_of_def result_simps)

lemma registration_of_typed:
  assumes "unicode_laws u" "join_request_ok rq" "hex_ok (hash_str h)" "registration_of u rq h = Inr reg"
  shows "registration_typed u reg"
  using assms device_name_parse_ok device_name_parse_valid code_text.parse_ok key_text.parse_ok key_ok_valid
  unfolding registration_of_Inr registration_typed_def join_request_ok_def by blast

lemma decide_remove_refused: "decide_remove u name st = (Inl e, st') \<Longrightarrow> st' = st"
  by (auto simp: decide_remove_def Let_def remove_peer_None split: sum.splits prod.splits option.splits)

lemma decide_remove_done:
  "decide_remove u name st = (Inr r, st') \<longleftrightarrow>
    (\<exists>n p. device_name_parse u name = Inr n \<and> remove_peer n st = (Some p, st') \<and> r = info_of p)"
  by (auto simp: decide_remove_def Let_def split: sum.splits prod.splits option.splits)

text \<open>\<open>touch_last_seen\<close> changes one time stamp and nothing else.\<close>

lemma touch_simps [simp]:
  "st_domain (touch_last_seen n now st) = st_domain st"
  "st_subnet (touch_last_seen n now st) = st_subnet st"
  "st_listen_port (touch_last_seen n now st) = st_listen_port st"
  "st_api_port (touch_last_seen n now st) = st_api_port st"
  "st_tls (touch_last_seen n now st) = st_tls st"
  "st_cloudflare (touch_last_seen n now st) = st_cloudflare st"
  "st_server (touch_last_seen n now st) = st_server st"
  "st_codes (touch_last_seen n now st) = st_codes st"
  by (simp_all add: touch_last_seen_def split: option.splits)

lemma touch_map:
  assumes "\<And>p. f (p\<lparr>p_last_seen := Some now\<rparr>) = f p"
  shows "map f (st_peers (touch_last_seen n now st)) = map f (st_peers st)"
  by (auto simp: touch_last_seen_def map_update assms list_update_same_conv position_Some split: option.splits)

lemma touch_typed: "state_typed u st \<Longrightarrow> in_i64 now \<Longrightarrow> state_typed u (touch_last_seen n now st)"
proof -
  assume st: "state_typed u st" and now: "in_i64 now"
  have "\<forall>p \<in> set (st_peers (touch_last_seen n now st)). peer_typed u p"
  proof (cases "position (\<lambda>p. p_name p = n) (st_peers st)")
    case None
    with st show ?thesis by (simp add: touch_last_seen_def state_typed_def)
  next
    case (Some i)
    then have "st_peers st ! i \<in> set (st_peers st)" using position_mem by blast
    with st now have "peer_typed u ((st_peers st ! i)\<lparr>p_last_seen := Some now\<rparr>)"
      by (simp add: state_typed_def peer_typed_def)
    with st show ?thesis
      by (auto simp: touch_last_seen_def Some state_typed_def dest!: set_update_subset_insert [THEN subsetD])
  qed
  with st show ?thesis by (simp add: state_typed_def)
qed

lemma touch_safe: "state_safe st \<Longrightarrow> state_safe (touch_last_seen n now st)"
  by (simp add: state_safe_def used_addresses_def touch_map)

lemma choose_loop_Inr:
  "choose_loop st draw draws i n = Inr c \<Longrightarrow>
    c \<notin> ic_code ` set (st_codes st) \<and> (\<exists>j. i \<le> j \<and> j < i + n \<and> draw j = Inr c)"
proof (induction st draw draws i n rule: choose_loop.induct)
  case (2 st draw draws i left)
  from 2(2) obtain x where x: "draw i = Inr x" by (auto simp: result_simps)
  show ?case
  proof (cases "\<exists>issued \<in> set (st_codes st). ic_code issued = x")
    case True
    with 2(2) x have "choose_loop st draw draws (i + 1) left = Inr c" by (auto split: if_splits)
    with 2(1) [of x] x True show ?thesis by fastforce
  next
    case False
    with 2(2) x have "c = x" by simp
    with False x show ?thesis by (auto intro!: exI [of _ i])
  qed
qed simp

lemma choose_unused_new: "choose_unused st draw n = Inr c \<Longrightarrow> c \<notin> ic_code ` set (st_codes st)"
  unfolding choose_unused_def by (blast dest: choose_loop_Inr)

lemma issue_typed:
  "state_typed u st \<Longrightarrow> code_ok c \<Longrightarrow> in_i64 now \<Longrightarrow> state_typed u (snd (issue c now ttl st))"
  by (simp add: issue_def Let_def state_typed_def code_typed_def issue_code_def expiry_def)

lemma issue_safe:
  "state_safe st \<Longrightarrow> c \<notin> ic_code ` set (st_codes st) \<Longrightarrow> state_safe (snd (issue c now ttl st))"
  by (simp add: issue_def Let_def state_safe_def used_addresses_def issue_code_def)

end
