(* ===== verification/Hub.thy ===== *)
theory Hub
  imports Api
begin

text \<open>
  The hub as a system: \<open>crates/anago/src/store.rs\<close>, the handlers of \<open>api.rs\<close> around the decisions,
  and \<open>anago code\<close>, over a state file on disk and the interface the state is pushed into. A
  handler holds the lock from its read to its commit, so it is one step on the file; pushing the
  state into the interface takes the lock again, later, and is a step of its own.
\<close>

section \<open>Responses\<close>

record http_response =
  resp_status :: nat
  resp_headers :: "(rstr \<times> rstr) list"
  resp_body :: rstr

definition json_response :: "nat \<Rightarrow> rstr \<Rightarrow> http_response" where
  "json_response code body =
    \<lparr>resp_status = code, resp_headers = [(lit ''content-type'', lit ''application/json'')],
     resp_body = body\<rparr>"

definition error_response :: "api_error \<Rightarrow> http_response" where
  "error_response e =
    (let code = status_for (ae_code e); body = to_string (api_error_to_json e) in
     if code = 401 then
       \<lparr>resp_status = code,
        resp_headers = [(lit ''content-type'', lit ''application/json''),
                        (lit ''www-authenticate'', lit ''Bearer'')],
        resp_body = body\<rparr>
     else json_response code body)"

definition internal_error :: "string \<Rightarrow> http_response" where
  "internal_error message = error_response (api_error_new EcInternal (lit message))"

section \<open>Handlers\<close>

text \<open>
  A handler returns its response and the disk it leaves. \<open>minted\<close> is what \<open>secret::new_token\<close>
  returned before the lock was taken.
\<close>

definition handle_join ::
  "unicode \<Rightarrow> (u8 list \<Rightarrow> u8 list) \<Rightarrow> io_env \<Rightarrow> int \<Rightarrow> (rstr + device_token) \<Rightarrow> u8 list \<Rightarrow> disk
    \<Rightarrow> http_response \<times> disk"
where
  "handle_join u sha env now minted body disk =
    (case parse_body u body of
       Inl e \<Rightarrow> (error_response e, disk)
     | Inr request \<Rightarrow>
    (case minted of
       Inl _ \<Rightarrow> (internal_error ''the server could not generate a token'', disk)
     | Inr token \<Rightarrow>
    (case store_lock u env disk of
       Inl _ \<Rightarrow> (internal_error ''the server could not read its state'', disk)
     | Inr st \<Rightarrow>
    (case decide_join u request token (hash_token sha token) now st of
       (Inl e, _) \<Rightarrow> (error_response e, disk)
     | (Inr response, st') \<Rightarrow>
    (case store_write env st' disk of
       (Inl _, disk') \<Rightarrow> (internal_error ''the server could not save the new device'', disk')
     | (Inr _, disk') \<Rightarrow> (json_response 200 (to_string (join_response_to_json response)), disk'))))))"

definition with_caller ::
  "unicode \<Rightarrow> (u8 list \<Rightarrow> u8 list) \<Rightarrow> io_env \<Rightarrow> int \<Rightarrow> rstr option option
    \<Rightarrow> (server_state \<Rightarrow> device_name \<Rightarrow> int \<Rightarrow> (api_error + rstr) \<times> server_state) \<Rightarrow> disk
    \<Rightarrow> http_response \<times> disk"
where
  "with_caller u sha env now header change disk =
    (case bearer_token header of
       Inl e \<Rightarrow> (error_response e, disk)
     | Inr token \<Rightarrow>
    (case store_lock u env disk of
       Inl _ \<Rightarrow> (internal_error ''the server could not read its state'', disk)
     | Inr st \<Rightarrow>
    (case authenticate sha st token of
       Inl e \<Rightarrow> (error_response e, disk)
     | Inr caller \<Rightarrow>
    (case change st caller now of
       (Inl e, _) \<Rightarrow> (error_response e, disk)
     | (Inr body, st') \<Rightarrow>
    (case store_write env st' disk of
       (Inl _, disk') \<Rightarrow> (internal_error ''the server could not save its state'', disk')
     | (Inr _, disk') \<Rightarrow> (json_response 200 body, disk'))))))"

definition change_peers :: "server_state \<Rightarrow> device_name \<Rightarrow> int \<Rightarrow> (api_error + rstr) \<times> server_state" where
  "change_peers st caller now =
    (let st' = touch_last_seen caller now st
     in (Inr (to_string (peers_response_to_json (decide_peers st'))), st'))"

definition change_remove ::
  "unicode \<Rightarrow> rstr \<Rightarrow> server_state \<Rightarrow> device_name \<Rightarrow> int \<Rightarrow> (api_error + rstr) \<times> server_state"
where
  "change_remove u name st caller now =
    (case decide_remove u name st of
       (Inl e, st') \<Rightarrow> (Inl e, st')
     | (Inr removed, st') \<Rightarrow>
         (Inr (to_string (peer_info_to_json removed)),
          if pi_name removed \<noteq> name_str caller then touch_last_seen caller now st' else st'))"

definition handle_peers ::
  "unicode \<Rightarrow> (u8 list \<Rightarrow> u8 list) \<Rightarrow> io_env \<Rightarrow> int \<Rightarrow> rstr option option \<Rightarrow> disk \<Rightarrow> http_response \<times> disk"
where
  "handle_peers u sha env now header disk = with_caller u sha env now header change_peers disk"

definition handle_remove ::
  "unicode \<Rightarrow> (u8 list \<Rightarrow> u8 list) \<Rightarrow> io_env \<Rightarrow> int \<Rightarrow> rstr option option \<Rightarrow> rstr \<Rightarrow> disk
    \<Rightarrow> http_response \<times> disk"
where
  "handle_remove u sha env now header name disk =
     with_caller u sha env now header (change_remove u name) disk"

text \<open>\<open>anago code\<close>: what it prints, or its error, and the disk it leaves.\<close>

definition run_code ::
  "unicode \<Rightarrow> io_env \<Rightarrow> (nat \<Rightarrow> rstr + join_code) \<Rightarrow> int \<Rightarrow> disk \<Rightarrow> (code_cmd_error + rstr) \<times> disk"
where
  "run_code u env draw now disk =
    (case store_lock u env disk of
       Inl e \<Rightarrow> (Inl (CodeState e), disk)
     | Inr st \<Rightarrow>
    (case choose_unused st draw MAX_DRAWS of
       Inl e \<Rightarrow> (Inl e, disk)
     | Inr code \<Rightarrow>
         let (issued, st') = issue code now DEFAULT_TTL_SECS st in
         (case store_write env st' disk of
            (Inl e, disk') \<Rightarrow> (Inl (CodeState e), disk')
          | (Inr _, disk') \<Rightarrow> (Inr (code_output (st_domain st') (ic_code issued) DEFAULT_TTL_SECS), disk'))))"

end
