(* ===== verification/HubSpec.thy ===== *)
theory HubSpec
  imports Api
begin

text \<open>
  What the hub promises, without its lists: who is a member under which name, at which address and
  with which token, and which join codes exist until when. The transitions of \<open>ServerState\<close> and
  \<open>Api\<close> refine these.
\<close>

section \<open>The abstract hub\<close>

record member =
  mb_public_key :: rstr
  mb_address :: ipv4
  mb_token_hash :: token_hash

record hub =
  hub_net :: subnet
  hub_members :: "device_name \<rightharpoonup> member"
  hub_codes :: "join_code \<rightharpoonup> int \<times> int option"

definition hub_addresses :: "hub \<Rightarrow> ipv4 set" where
  "hub_addresses h = mb_address ` ran (hub_members h)"

text \<open>The lowest address that is free.\<close>

definition lowest_free :: "subnet \<Rightarrow> ipv4 set \<Rightarrow> ipv4 option" where
  "lowest_free s taken =
    (if usable_addresses s \<subseteq> taken then None
     else Some (Min (usable_addresses s - taken)))"

definition hub_join :: "registration \<Rightarrow> int \<Rightarrow> hub \<Rightarrow> (join_rejection + ipv4) \<times> hub" where
  "hub_join reg now h =
    (case hub_codes h (rg_code reg) of
       None \<Rightarrow> (Inl RejUnknownCode, h)
     | Some (expires, used) \<Rightarrow>
         if \<not> status_usable (status expires used now) then (Inl (RejCodeNotUsable (status expires used now)), h)
         else if rg_name reg \<in> dom (hub_members h) then (Inl RejNameTaken, h)
         else (case lowest_free (hub_net h) (hub_addresses h) of
             None \<Rightarrow> (Inl RejSubnetFull, h)
           | Some a \<Rightarrow> (Inr a, h\<lparr>hub_members := (hub_members h)(rg_name reg \<mapsto>
                 \<lparr>mb_public_key = rg_public_key reg, mb_address = a, mb_token_hash = rg_token_hash reg\<rparr>),
               hub_codes := (hub_codes h)(rg_code reg \<mapsto> (expires, Some now))\<rparr>)))"

definition hub_remove :: "device_name \<Rightarrow> hub \<Rightarrow> hub" where
  "hub_remove name h = h\<lparr>hub_members := (hub_members h)(name := None)\<rparr>"

definition hub_issue :: "join_code \<Rightarrow> int \<Rightarrow> hub \<Rightarrow> hub" where
  "hub_issue code expires h = h\<lparr>hub_codes := (hub_codes h)(code \<mapsto> (expires, None))\<rparr>"

inductive hub_next :: "hub \<Rightarrow> hub \<Rightarrow> bool" where
  next_join: "hub_join reg now h = (Inr a, h') \<Longrightarrow> hub_next h h'"
| next_remove: "name \<in> dom (hub_members h) \<Longrightarrow> hub_next h (hub_remove name h)"
| next_issue: "code \<notin> dom (hub_codes h) \<Longrightarrow> hub_next h (hub_issue code expires h)"

inductive_cases hub_nextE: "hub_next h h'"

section \<open>Abstraction\<close>

definition member_of :: "peer \<Rightarrow> member" where
  "member_of p = \<lparr>mb_public_key = p_public_key p, mb_address = p_address p, mb_token_hash = p_token_hash p\<rparr>"

definition abs_hub :: "server_state \<Rightarrow> hub" where
  "abs_hub st =
    \<lparr>hub_net = st_subnet st,
     hub_members = map_of (map (\<lambda>p. (p_name p, member_of p)) (st_peers st)),
     hub_codes = map_of (map (\<lambda>c. (ic_code c, (ic_expires_at c, ic_used_at c))) (st_codes st))\<rparr>"

lemma abs_hub_simps [simp]:
  "hub_net (abs_hub st) = st_subnet st"
  "hub_members (abs_hub st) = map_of (map (\<lambda>p. (p_name p, member_of p)) (st_peers st))"
  "hub_codes (abs_hub st) = map_of (map (\<lambda>c. (ic_code c, (ic_expires_at c, ic_used_at c))) (st_codes st))"
  by (simp_all add: abs_hub_def)

lemma dom_members: "dom (hub_members (abs_hub st)) = p_name ` set (st_peers st)"
  by (simp add: dom_map_of_conv_image_fst image_image)

lemma dom_codes: "dom (hub_codes (abs_hub st)) = ic_code ` set (st_codes st)"
  by (simp add: dom_map_of_conv_image_fst image_image)

lemma abs_addresses: "distinct (map p_name (st_peers st)) \<Longrightarrow> hub_addresses (abs_hub st) = set (used_addresses st)"
  unfolding hub_addresses_def
  by (simp add: ran_distinct comp_def image_image used_addresses_def member_of_def)

lemma lowest_free_allocate: "subnet_allocate s used = lowest_free s (set used)"
  by (simp add: lowest_free_def subnet_allocate_least)

lemma map_of_list_update:
  "distinct (map fst xs) \<Longrightarrow> i < length xs \<Longrightarrow> fst (xs ! i) = k \<Longrightarrow>
    map_of (xs[i := (k, v)]) = (map_of xs)(k \<mapsto> v)"
proof (induction xs arbitrary: i)
  case (Cons x xs)
  show ?case
  proof (cases i)
    case 0
    with Cons.prems show ?thesis by (cases x) auto
  next
    case (Suc j)
    with Cons.prems have "fst x \<noteq> k" by (force simp: in_set_conv_nth)
    with Suc Cons show ?thesis by (cases x) auto
  qed
qed simp

lemma map_of_position:
  assumes "position (\<lambda>x. f x = k) xs = Some i"
  shows "map_of (map (\<lambda>x. (f x, g x)) xs) k = Some (g (xs ! i))"
  using assms by (induction xs arbitrary: i) (auto split: if_splits)

lemma map_of_snoc: "k \<notin> fst ` set xs \<Longrightarrow> [k \<mapsto> v] ++ map_of xs = (map_of xs)(k \<mapsto> v)"
proof -
  assume "k \<notin> fst ` set xs"
  then have "map_of xs k = None" by (simp add: map_of_eq_None_iff)
  then show ?thesis by (auto simp: map_add_def fun_eq_iff split: option.splits)
qed

section \<open>Refinement\<close>

text \<open>\<open>add_peer\<close> followed by the abstraction is the abstraction followed by \<open>hub_join\<close>.\<close>

lemma add_peer_refines:
  assumes safe: "state_safe st" and run: "add_peer reg now st = (r, st')"
  shows "hub_join reg now (abs_hub st) = (map_sum id p_address r, abs_hub st')"
proof (cases "position (\<lambda>issued. ic_code issued = rg_code reg) (st_codes st)")
  case None
  then have "rg_code reg \<notin> dom (hub_codes (abs_hub st))"
    unfolding dom_codes by (auto simp: position_None)
  then have "hub_codes (abs_hub st) (rg_code reg) = None" by blast
  with run None show ?thesis by (auto simp add: add_peer_def hub_join_def simp del: abs_hub_simps)
next
  case (Some i)
  have codes: "hub_codes (abs_hub st) (rg_code reg)
      = Some (ic_expires_at (st_codes st ! i), ic_used_at (st_codes st ! i))"
    using map_of_position [OF Some] by simp
  have names: "distinct (map p_name (st_peers st))" and cds: "distinct (map ic_code (st_codes st))"
    using safe by (simp_all add: state_safe_def)
  have free: "lowest_free (st_subnet st) (hub_addresses (abs_hub st)) = subnet_allocate (st_subnet st) (used_addresses st)"
    by (simp add: abs_addresses [OF names] lowest_free_allocate)
  have i: "i < length (st_codes st)" "ic_code (st_codes st ! i) = rg_code reg"
    using Some by (simp_all add: position_Some)
  show ?thesis
  proof (cases "subnet_allocate (st_subnet st) (used_addresses st) = None
      \<or> \<not> issued_usable (st_codes st ! i) now \<or> rg_name reg \<in> p_name ` set (st_peers st)")
    case True
    then show ?thesis
      using run codes free
      by (auto simp: add_peer_def hub_join_def Some Let_def taken_iff status_usable_iff issued_status_def
          issued_usable_def dom_members simp del: abs_hub_simps(2,3) split: option.splits if_splits)
  next
    case False
    then obtain a where a: "subnet_allocate (st_subnet st) (used_addresses st) = Some a"
      and us: "issued_usable (st_codes st ! i) now" and new: "rg_name reg \<notin> p_name ` set (st_peers st)"
      by auto
    define np where "np = \<lparr>p_name = rg_name reg, p_public_key = rg_public_key reg, p_address = a,
      p_token_hash = rg_token_hash reg, p_created_at = now, p_last_seen = None\<rparr>"
    have st': "r = Inr np" "st' = joined reg now i a st"
      using run Some us new a
      by (auto simp: add_peer_def Let_def taken_iff status_usable_iff joined_def np_def)
    have ps: "map_of (map (\<lambda>p. (p_name p, member_of p)) (st_peers st')) =
        (hub_members (abs_hub st))(rg_name reg \<mapsto> member_of np)"
      using new map_of_snoc [of "rg_name reg" "map (\<lambda>p. (p_name p, member_of p)) (st_peers st)" "member_of np"]
      by (simp add: st'(2) joined_def np_def image_image)
    have cs: "map_of (map (\<lambda>c. (ic_code c, (ic_expires_at c, ic_used_at c))) (st_codes st')) =
        (hub_codes (abs_hub st))(rg_code reg \<mapsto> (ic_expires_at (st_codes st ! i), Some now))"
      using map_of_list_update [of "map (\<lambda>c. (ic_code c, (ic_expires_at c, ic_used_at c))) (st_codes st)" i
          "rg_code reg" "(ic_expires_at (st_codes st ! i), Some now)"] cds i
      by (simp add: st' joined_def map_update comp_def)
    have mem: "member_of np = \<lparr>mb_public_key = rg_public_key reg, mb_address = a, mb_token_hash = rg_token_hash reg\<rparr>"
      by (simp add: member_of_def np_def)
    have net: "st_subnet st' = st_subnet st" by (simp add: st'(2))
    have abs': "abs_hub st' = (abs_hub st)\<lparr>
        hub_members := (hub_members (abs_hub st))(rg_name reg \<mapsto> member_of np),
        hub_codes := (hub_codes (abs_hub st))(rg_code reg \<mapsto> (ic_expires_at (st_codes st ! i), Some now))\<rparr>"
      unfolding abs_hub_def [of st'] ps cs net by (simp add: abs_hub_def)
    have us': "status_usable (status (ic_expires_at (st_codes st ! i)) (ic_used_at (st_codes st ! i)) now)"
      using us by (simp add: issued_usable_def issued_status_def)
    have "hub_join reg now (abs_hub st) = (Inr a, abs_hub st')"
      unfolding hub_join_def codes abs'
      using free a us' new by (simp add: dom_members mem del: abs_hub_simps(2,3))
    then show ?thesis by (simp add: st'(1) np_def)
  qed
qed

lemma remove_peer_refines:
  assumes "state_safe st" "remove_peer name st = (Some p, st')"
  shows "name \<in> dom (hub_members (abs_hub st)) \<and> abs_hub st' = hub_remove name (abs_hub st)"
proof -
  from assms(2) obtain before after where ps: "st_peers st = before @ p # after" and n: "p_name p = name"
    and st': "st' = st\<lparr>st_peers := before @ after\<rparr>"
    by (auto simp: remove_peer_Some)
  have d: "distinct (map p_name (st_peers st))" using assms(1) by (simp add: state_safe_def)
  then have fresh: "name \<notin> p_name ` set before" "name \<notin> p_name ` set after"
    using n by (auto simp: ps)
  have "map_of (map (\<lambda>p. (p_name p, member_of p)) (before @ after)) =
      (map_of (map (\<lambda>p. (p_name p, member_of p)) (st_peers st)))(name := None)"
  proof
    fix k
    have "map_of (map (\<lambda>p. (p_name p, member_of p)) qs) name = None" if "name \<notin> p_name ` set qs" for qs
      using that by (simp add: map_of_eq_None_iff image_image)
    then show "map_of (map (\<lambda>p. (p_name p, member_of p)) (before @ after)) k =
        ((map_of (map (\<lambda>p. (p_name p, member_of p)) (st_peers st)))(name := None)) k"
      using fresh n by (auto simp: ps map_add_def split: option.splits)
  qed
  then have "abs_hub st' = hub_remove name (abs_hub st)"
    by (simp add: abs_hub_def hub_remove_def st')
  moreover have "name \<in> dom (hub_members (abs_hub st))"
    unfolding dom_members using n by (auto simp: ps)
  ultimately show ?thesis by blast
qed

lemma issue_refines:
  "c \<notin> ic_code ` set (st_codes st) \<Longrightarrow>
    abs_hub (snd (issue c now ttl st)) = hub_issue c (expiry now ttl) (abs_hub st)"
  by (simp add: abs_hub_def hub_issue_def issue_def Let_def issue_code_def map_of_snoc image_image)

lemma touch_refines [simp]: "abs_hub (touch_last_seen n now st) = abs_hub st"
  by (simp add: abs_hub_def touch_map member_of_def)

text \<open>What the abstract hub never does: a spent code is spent for good.\<close>

lemma spent_stays:
  assumes "hub_next h h'" "hub_codes h c = Some (e, Some t)"
  shows "hub_codes h' c = Some (e, Some t)"
  using assms
  by (auto elim!: hub_nextE simp: hub_join_def hub_remove_def hub_issue_def status_usable_def status_def
      split: option.splits if_splits)

lemma spent_refused: "hub_codes h (rg_code reg) = Some (e, Some t) \<Longrightarrow>
    hub_join reg now h = (Inl (RejCodeNotUsable Used), h)"
  by (simp add: hub_join_def status_def status_usable_def)

end
