(* ===== verification/Wgconf.thy ===== *)
theory Wgconf
  imports WgTools
begin

text \<open>
  \<open>crates/anago-core/src/wgconf.rs\<close>: the configuration files for WireGuard, what is read back out of
  one, and the stripping of the keys only \<open>wg-quick\<close> understands.
\<close>

section \<open>Rendering\<close>

datatype secret_text = SecretText (expose: rstr)

definition secret_text_show :: "secret_text \<Rightarrow> rstr" where
  "secret_text_show t = lit ''SecretText(redacted)''"

definition PERSISTENT_KEEPALIVE_SECS :: nat where
  "PERSISTENT_KEEPALIVE_SECS = 25"

definition peer_section :: "peer \<Rightarrow> rstr" where
  "peer_section p =
    [10] @ lit ''[Peer]'' @ [10]
    @ lit ''# '' @ name_str (p_name p) @ [10]
    @ lit ''PublicKey = '' @ p_public_key p @ [10]
    @ lit ''AllowedIPs = '' @ ipv4_show (p_address p) @ lit ''/32'' @ [10]"

definition server_config :: "server_state \<Rightarrow> secret_text" where
  "server_config st = SecretText
    (lit ''[Interface]'' @ [10]
     @ lit ''# anago server '' @ [0x2014] @ lit '' generated file, edits are overwritten'' @ [10]
     @ lit ''Address = '' @ ipv4_show (sk_address (st_server st)) @ lit ''/'' @ dec_nat PREFIX_LEN @ [10]
     @ lit ''ListenPort = '' @ dec_nat (unat (st_listen_port st)) @ [10]
     @ lit ''PrivateKey = '' @ private_key_str (sk_private_key (st_server st)) @ [10]
     @ concat (map peer_section (st_peers st)))"

record client_profile =
  cp_address :: ipv4
  cp_subnet :: subnet
  cp_private_key :: private_key
  cp_server_public_key :: rstr
  cp_server_endpoint :: rstr

definition render_client :: "client_profile \<Rightarrow> bool \<Rightarrow> rstr" where
  "render_client p comments =
    lit ''[Interface]'' @ [10]
    @ (if comments then lit ''# anago '' @ [0x2014] @ lit '' generated file, edits are overwritten'' @ [10]
       else [])
    @ lit ''Address = '' @ ipv4_show (cp_address p) @ lit ''/'' @ dec_nat PREFIX_LEN @ [10]
    @ lit ''PrivateKey = '' @ private_key_str (cp_private_key p) @ [10]
    @ [10] @ lit ''[Peer]'' @ [10]
    @ (if comments then lit ''# anago server'' @ [10] else [])
    @ lit ''PublicKey = '' @ cp_server_public_key p @ [10]
    @ lit ''Endpoint = '' @ cp_server_endpoint p @ [10]
    @ lit ''AllowedIPs = '' @ subnet_show (cp_subnet p) @ [10]
    @ lit ''PersistentKeepalive = '' @ dec_nat PERSISTENT_KEEPALIVE_SECS @ [10]"

definition client_config :: "client_profile \<Rightarrow> secret_text" where
  "client_config p = SecretText (render_client p True)"

definition export_profile :: "client_profile \<Rightarrow> secret_text" where
  "export_profile p = SecretText (render_client p False)"

section \<open>Reading\<close>

definition key_of_line :: "rstr \<Rightarrow> rstr option" where
  "key_of_line line =
    (case split_once 61 (trim line) of
       None \<Rightarrow> None
     | Some (name, v) \<Rightarrow>
         if eq_ignore_case (trim name) (lit ''privatekey'') then Some (trim v) else None)"

text \<open>\<open>Iterator::find_map\<close>.\<close>

fun find_map :: "('a \<Rightarrow> 'b option) \<Rightarrow> 'a list \<Rightarrow> 'b option" where
  "find_map f [] = None"
| "find_map f (x # xs) = (case f x of Some y \<Rightarrow> Some y | None \<Rightarrow> find_map f xs)"

definition private_key_line :: "rstr \<Rightarrow> rstr option" where
  "private_key_line config = find_map key_of_line (lines config)"

definition QUICK_KEYS :: "rstr list" where
  "QUICK_KEYS = [lit ''Address'', lit ''DNS'', lit ''MTU'', lit ''Table'', lit ''PreUp'',
     lit ''PostUp'', lit ''PreDown'', lit ''PostDown'', lit ''SaveConfig'']"

definition is_quick_line :: "rstr \<Rightarrow> bool" where
  "is_quick_line line \<longleftrightarrow> (\<exists>quick \<in> set QUICK_KEYS. eq_ignore_case (trim (hd (split_on 61 line))) quick)"

fun strip_lines :: "rstr list \<Rightarrow> rstr" where
  "strip_lines [] = []"
| "strip_lines (line # rest) =
    (if is_quick_line line then strip_lines rest else line @ [10] @ strip_lines rest)"

definition strip_quick_keys :: "rstr \<Rightarrow> rstr" where
  "strip_quick_keys conf = strip_lines (lines conf)"

section \<open>Texts made of lines\<close>

definition unlines :: "rstr list \<Rightarrow> rstr" where
  "unlines ls = concat (map (\<lambda>l. l @ [10]) ls)"

definition plain_line :: "rstr \<Rightarrow> bool" where
  "plain_line l \<longleftrightarrow> 10 \<notin> set l \<and> 13 \<notin> set l"

lemma unlines_simps [simp]:
  "unlines [] = []" "unlines (l # ls) = l @ 10 # unlines ls" "unlines (xs @ ys) = unlines xs @ unlines ys"
  by (simp_all add: unlines_def)

lemma plain_line_simps [simp]:
  "plain_line []" "plain_line (c # l) \<longleftrightarrow> c \<noteq> 10 \<and> c \<noteq> 13 \<and> plain_line l"
  "plain_line (k @ l) \<longleftrightarrow> plain_line k \<and> plain_line l"
  by (auto simp: plain_line_def)

lemma plain_line_no_ws: "(\<And>c. c \<in> set l \<Longrightarrow> \<not> is_ws c) \<Longrightarrow> plain_line l"
proof -
  assume "\<And>c. c \<in> set l \<Longrightarrow> \<not> is_ws c"
  moreover have "is_ws 10" "is_ws 13" by (simp_all add: is_ws_def)
  ultimately show "plain_line l" unfolding plain_line_def by blast
qed

lemma lines_unlines: "\<forall>l \<in> set ls. plain_line l \<Longrightarrow> lines (unlines ls) = ls"
  by (induction ls) (auto simp: lines_Cons strip_cr_id plain_line_def)

lemma strip_lines_filter: "strip_lines ls = unlines (filter (\<lambda>l. \<not> is_quick_line l) ls)"
  by (induction ls) simp_all

lemma split_on_pieces: "p \<in> set (split_on x s) \<Longrightarrow> x \<notin> set p \<and> set p \<subseteq> set s"
proof (induction s arbitrary: p)
  case (Cons c s)
  then show ?case
    by (cases "split_on x s") (auto split: if_splits, blast+)
qed simp

lemma lines_piece: "l \<in> set (lines s) \<Longrightarrow> \<exists>q \<in> set (split_on 10 s). set l \<subseteq> set q"
proof -
  have cr: "set (strip_cr q) \<subseteq> set q" for q by (auto simp: strip_cr_def dest: in_set_butlastD)
  assume "l \<in> set (lines s)"
  then consider q where "q \<in> set (split_on 10 s)" "l = strip_cr q" | "l \<in> set (split_on 10 s)"
    by (auto simp: lines_def Let_def split: if_splits dest: in_set_butlastD)
  then show ?thesis using cr by cases blast+
qed

lemma lines_no_lf: "l \<in> set (lines s) \<Longrightarrow> 10 \<notin> set l"
  and lines_subset: "l \<in> set (lines s) \<Longrightarrow> set l \<subseteq> set s"
  using lines_piece split_on_pieces by blast+

section \<open>What the files say\<close>

lemma trim_outer: "s \<noteq> [] \<Longrightarrow> \<not> is_ws (hd s) \<Longrightarrow> \<not> is_ws (last s) \<Longrightarrow> trim s = s"
proof -
  assume s: "s \<noteq> []" "\<not> is_ws (hd s)" "\<not> is_ws (last s)"
  then have "trim_start s = s" by (cases s) (simp_all add: trim_start_def)
  moreover have "dropWhile is_ws (rev s) = rev s"
    using s by (cases s rule: rev_cases) simp_all
  ultimately show ?thesis by (simp add: trim_def trim_end_def)
qed

lemma trim_space: "trim (32 # s) = trim s"
  by (simp add: trim_def trim_start_def is_ws_def)

text \<open>The lines of the two files, and where they come from.\<close>

definition address_line :: "ipv4 \<Rightarrow> rstr" where
  "address_line a = lit ''Address = '' @ ipv4_show a @ lit ''/24''"

definition server_head :: "server_state \<Rightarrow> rstr list" where
  "server_head st =
    [lit ''ListenPort = '' @ dec_nat (unat (st_listen_port st)),
     lit ''PrivateKey = '' @ private_key_str (sk_private_key (st_server st))]"

definition peer_lines :: "peer \<Rightarrow> rstr list" where
  "peer_lines p =
    [[], lit ''[Peer]'', lit ''# '' @ name_str (p_name p), lit ''PublicKey = '' @ p_public_key p,
     lit ''AllowedIPs = '' @ ipv4_show (p_address p) @ lit ''/32'']"

definition banner :: rstr where
  "banner = lit ''# anago server '' @ [0x2014] @ lit '' generated file, edits are overwritten''"

lemma dec_prefix: "dec_nat PREFIX_LEN = lit ''24''"
  by (simp add: PREFIX_LEN_def dec_nat.simps lit_Cons)

lemma server_config_lines:
  "expose (server_config st) = unlines
    (lit ''[Interface]'' # banner # address_line (sk_address (st_server st)) # server_head st
     @ concat (map peer_lines (st_peers st)))"
proof -
  have "concat (map peer_section ps) = unlines (concat (map peer_lines ps))" for ps
    by (induction ps) (simp_all add: peer_section_def peer_lines_def)
  then show ?thesis
    by (simp add: server_config_def address_line_def server_head_def banner_def dec_prefix lit_Cons)
qed

text \<open>Names, keys and ports that came through the API keep to their line.\<close>

definition config_plain :: "server_state \<Rightarrow> bool" where
  "config_plain st \<longleftrightarrow> plain_line (private_key_str (sk_private_key (st_server st)))
    \<and> (\<forall>p \<in> set (st_peers st). plain_line (name_str (p_name p)) \<and> plain_line (p_public_key p))"

lemma plain_dec_nat [simp]: "plain_line (dec_nat n)"
  by (rule plain_line_no_ws) (auto dest: dec_nat_digit)

lemma plain_ipv4_show [simp]: "plain_line (ipv4_show a)"
  by (cases a) simp

lemma plain_line_name: "unicode_laws u \<Longrightarrow> name_ok u n \<Longrightarrow> plain_line (name_str n)"
  using name_ok_chars(1) by (blast intro: plain_line_no_ws)

lemma plain_line_key: "key_ok k \<Longrightarrow> plain_line k"
  using key_ok_no_ws by (blast intro: plain_line_no_ws)

lemma server_lines_plain:
  assumes "config_plain st"
  shows "\<forall>l \<in> set (lit ''[Interface]'' # banner # address_line (sk_address (st_server st))
    # server_head st @ concat (map peer_lines (st_peers st))). plain_line l"
  using assms
  by (auto simp: config_plain_def banner_def address_line_def server_head_def peer_lines_def lit_Cons)

text \<open>Which lines \<open>wg\<close> keeps.\<close>

lemma hd_split_on: "61 \<notin> set k \<Longrightarrow> hd (split_on 61 (k @ 61 # r)) = k"
  by simp

lemma quick_line_key: "61 \<notin> set k \<Longrightarrow> is_quick_line (k @ 61 # r) \<longleftrightarrow> is_quick_line k"
  by (simp add: is_quick_line_def)

lemma comment_not_quick: "\<not> is_quick_line (35 # s)"
proof -
  obtain r where "hd (split_on 61 (35 # s)) = 35 # r"
    by (cases "split_on 61 s") auto
  moreover have "\<exists>t. trim (35 # r) = 35 # t" for r
  proof -
    have "dropWhile is_ws (rev (35 # r)) = rev (35 # r) \<or> True" by simp
    have "\<exists>t. dropWhile is_ws (xs @ [35]) = t @ [35]" for xs :: rstr
      by (induction xs) (auto simp: is_ws_def)
    then obtain t where "dropWhile is_ws (rev r @ [35]) = t @ [35]" by blast
    moreover have "\<not> is_ws 35" by (simp add: is_ws_def)
    ultimately show ?thesis by (simp add: trim_def trim_start_def trim_end_def)
  qed
  ultimately obtain t where "trim (hd (split_on 61 (35 # s))) = 35 # t" by metis
  then show ?thesis
    by (auto simp: is_quick_line_def QUICK_KEYS_def eq_ignore_case_def lit_Cons ascii_lower_def is_upper_def)
qed

lemma quick_words:
  "is_quick_line (lit ''Address '')" "\<not> is_quick_line (lit ''ListenPort '')"
  "\<not> is_quick_line (lit ''PrivateKey '')" "\<not> is_quick_line (lit ''PublicKey '')"
  "\<not> is_quick_line (lit ''AllowedIPs '')" "\<not> is_quick_line (lit ''[Peer]'')"
  "\<not> is_quick_line (lit ''[Interface]'')" "\<not> is_quick_line []"
  by (simp_all add: is_quick_line_def QUICK_KEYS_def eq_ignore_case_def trim_def trim_start_def
      trim_end_def lit_Cons is_ws_def ascii_lower_def is_upper_def)

lemma quick_lines:
  "is_quick_line (lit ''Address = '' @ r)" "\<not> is_quick_line (lit ''ListenPort = '' @ r)"
  "\<not> is_quick_line (lit ''PrivateKey = '' @ r)" "\<not> is_quick_line (lit ''PublicKey = '' @ r)"
  "\<not> is_quick_line (lit ''AllowedIPs = '' @ r)" "\<not> is_quick_line (lit ''# '' @ r)"
proof -
  have e: "lit (s @ '' = '') @ r = lit (s @ '' '') @ 61 # 32 # r" for s
    by (simp add: lit_append) (simp add: lit_Cons)
  have n: "61 \<notin> set (lit ''Address '')" "61 \<notin> set (lit ''ListenPort '')" "61 \<notin> set (lit ''PrivateKey '')"
    "61 \<notin> set (lit ''PublicKey '')" "61 \<notin> set (lit ''AllowedIPs '')"
    by (simp_all add: lit_Cons)
  show "is_quick_line (lit ''Address = '' @ r)"
    using quick_line_key [OF n(1), of "32 # r"] quick_words(1) e [of "''Address''"] by simp
  show "\<not> is_quick_line (lit ''ListenPort = '' @ r)"
    using quick_line_key [OF n(2), of "32 # r"] quick_words(2) e [of "''ListenPort''"] by simp
  show "\<not> is_quick_line (lit ''PrivateKey = '' @ r)"
    using quick_line_key [OF n(3), of "32 # r"] quick_words(3) e [of "''PrivateKey''"] by simp
  show "\<not> is_quick_line (lit ''PublicKey = '' @ r)"
    using quick_line_key [OF n(4), of "32 # r"] quick_words(4) e [of "''PublicKey''"] by simp
  show "\<not> is_quick_line (lit ''AllowedIPs = '' @ r)"
    using quick_line_key [OF n(5), of "32 # r"] quick_words(5) e [of "''AllowedIPs''"] by simp
  show "\<not> is_quick_line (lit ''# '' @ r)"
    using comment_not_quick [of "32 # r"] by (simp add: lit_Cons)
qed

text \<open>What \<open>wg syncconf\<close> is fed is the hub's file without its \<open>Address\<close> line, and nothing else.\<close>

lemma strip_server_config:
  assumes "config_plain st"
  shows "strip_quick_keys (expose (server_config st)) = unlines
    (lit ''[Interface]'' # banner # server_head st @ concat (map peer_lines (st_peers st)))"
proof -
  have "filter (\<lambda>l. \<not> is_quick_line l) (peer_lines p) = peer_lines p" for p
    by (simp add: peer_lines_def quick_lines quick_words)
  then have "filter (\<lambda>l. \<not> is_quick_line l) (concat (map peer_lines ps)) = concat (map peer_lines ps)" for ps
    by (induction ps) simp_all
  moreover have "\<not> is_quick_line banner"
    using quick_lines(6) [of "lit ''anago server '' @ [0x2014] @ lit '' generated file, edits are overwritten''"]
    by (simp add: banner_def lit_Cons)
  ultimately show ?thesis
    unfolding strip_quick_keys_def server_config_lines lines_unlines [OF server_lines_plain [OF assms]]
      strip_lines_filter
    by (simp add: address_line_def server_head_def quick_lines quick_words)
qed

lemma strip_idempotent:
  assumes "13 \<notin> set conf"
  shows "strip_quick_keys (strip_quick_keys conf) = strip_quick_keys conf"
proof -
  have "\<forall>l \<in> set (lines conf). plain_line l"
    using assms lines_no_lf lines_subset unfolding plain_line_def by blast
  then have "lines (unlines (filter (\<lambda>l. \<not> is_quick_line l) (lines conf)))
      = filter (\<lambda>l. \<not> is_quick_line l) (lines conf)"
    by (intro lines_unlines) simp
  then show ?thesis by (simp add: strip_quick_keys_def strip_lines_filter)
qed

lemmas trim_words = trim_def trim_start_def trim_end_def lit_Cons is_ws_def ascii_lower_def is_upper_def

text \<open>The key a device needs for a rewrite is found in the file the program wrote.\<close>

lemma private_key_of_client_config:
  assumes "key_ok (private_key_str (cp_private_key p))"
  shows "private_key_line (expose (client_config p)) = Some (private_key_str (cp_private_key p))"
    and "private_key_line (expose (export_profile p)) = Some (private_key_str (cp_private_key p))"
proof -
  define k where "k = private_key_str (cp_private_key p)"
  have k: "key_ok k" "plain_line k" using assms plain_line_key by (simp_all add: k_def)
  from k(1) obtain t where kt: "k = t @ [61]" "length t = 43" by (auto simp: key_ok_def)
  have line: "key_of_line (lit ''PrivateKey = '' @ k) = Some k"
  proof -
    have "trim (lit ''PrivateKey = '' @ k) = lit ''PrivateKey = '' @ k"
      using kt(1) by (intro trim_outer) (simp_all add: lit_Cons is_ws_def)
    then have "split_once 61 (trim (lit ''PrivateKey = '' @ k)) = Some (lit ''PrivateKey '', 32 # k)"
      by (simp add: split_once_Some lit_Cons)
    moreover have "trim (32 # k) = k"
      using key_ok_no_ws [OF k(1)] by (simp add: trim_space trim_id)
    moreover have "eq_ignore_case (trim (lit ''PrivateKey '')) (lit ''privatekey'')"
      by (simp add: eq_ignore_case_def trim_words)
    ultimately show ?thesis by (simp add: key_of_line_def)
  qed
  have none: "key_of_line (lit ''[Interface]'') = None"
    by (simp add: key_of_line_def trim_words)
  have addr: "key_of_line (address_line a) = None" for a
  proof -
    have "key_of_line (lit ''Address '' @ 61 # r) = None" for r
    proof -
      have "\<exists>v. split_once 61 (trim (lit ''Address '' @ 61 # r)) = Some (lit ''Address '', v)"
      proof -
        have "\<exists>v. trim (lit ''Address '' @ 61 # r) = lit ''Address '' @ 61 # v"
        proof -
          have d: "\<exists>v. dropWhile is_ws (xs @ 61 # ys) = v @ 61 # ys" for xs ys :: rstr
            by (induction xs) (auto simp: is_ws_def)
          obtain v where "dropWhile is_ws (rev r @ 61 # rev (lit ''Address '')) = v @ 61 # rev (lit ''Address '')"
            using d by blast
          moreover have "dropWhile is_ws (lit ''Address '' @ 61 # r) = lit ''Address '' @ 61 # r"
            by (simp add: lit_Cons is_ws_def)
          ultimately show ?thesis by (intro exI [of _ "rev v"]) (simp add: trim_def trim_start_def trim_end_def)
        qed
        then show ?thesis by (auto simp: split_once_Some lit_Cons)
      qed
      moreover have "\<not> eq_ignore_case (trim (lit ''Address '')) (lit ''privatekey'')"
        by (simp add: eq_ignore_case_def trim_words)
      ultimately show ?thesis by (auto simp: key_of_line_def)
    qed
    from this [of "32 # ipv4_show a @ lit ''/24''"] show ?thesis
      by (simp add: address_line_def lit_Cons)
  qed
  have banner: "key_of_line (lit ''# anago '' @ [0x2014] @ lit '' generated file, edits are overwritten'') = None"
    by (simp add: key_of_line_def trim_words)
  have step: "private_key_line (l @ 10 # rest) = (case key_of_line l of Some y \<Rightarrow> Some y | None \<Rightarrow> private_key_line rest)"
    if "plain_line l" for l rest
    using that
    by (simp add: private_key_line_def lines_Cons strip_cr_id plain_line_def split: option.split)
  have slash: "lit ''/'' @ lit ''24'' @ r = lit ''/24'' @ r" for r by (simp add: lit_Cons)
  have "\<exists>rest. render_client p c = lit ''[Interface]'' @ 10 #
      (if c then (lit ''# anago '' @ [0x2014] @ lit '' generated file, edits are overwritten'') @ [10] else [])
      @ address_line (cp_address p) @ 10 # (lit ''PrivateKey = '' @ k) @ 10 # rest" for c
    by (simp add: render_client_def address_line_def dec_prefix k_def slash)
  then obtain rest where r: "render_client p c = lit ''[Interface]'' @ 10 #
      (if c then (lit ''# anago '' @ [0x2014] @ lit '' generated file, edits are overwritten'') @ [10] else [])
      @ address_line (cp_address p) @ 10 # (lit ''PrivateKey = '' @ k) @ 10 # rest c" for c
    by metis
  have plain: "plain_line (lit ''[Interface]'')" "plain_line (address_line (cp_address p))"
    "plain_line (lit ''PrivateKey = '' @ k)"
    "plain_line (lit ''# anago '' @ [0x2014] @ lit '' generated file, edits are overwritten'')"
    using k(2) by (simp_all add: address_line_def lit_Cons)
  have key: "private_key_line (address_line (cp_address p) @ 10 # (lit ''PrivateKey = '' @ k) @ 10 # rest c) = Some k" for c
    by (simp only: step [OF plain(2)] step [OF plain(3)] addr line option.case)
  have all: "private_key_line (render_client p c) = Some k" for c
  proof (cases c)
    case True
    show ?thesis
      unfolding r step [OF plain(1)] none option.case
      using key step [OF plain(4)] banner by (simp add: True)
  next
    case False
    show ?thesis
      unfolding r step [OF plain(1)] none option.case using key by (simp add: False)
  qed
  show "private_key_line (expose (client_config p)) = Some (private_key_str (cp_private_key p))"
    "private_key_line (expose (export_profile p)) = Some (private_key_str (cp_private_key p))"
    using all by (simp_all add: client_config_def export_profile_def k_def)
qed

end
