(* ===== verification/WgApply.thy ===== *)
theory WgApply
  imports Wgconf
begin

text \<open>
  \<open>crates/anago/src/wgapply.rs\<close> and the command lines and messages of \<open>crates/anago/src/wg.rs\<close>:
  what pushing a state into the interface decides and leaves behind. Running the tools is the
  environment's.
\<close>

section \<open>Command lines\<close>

record cmd =
  cmd_program :: rstr
  cmd_args :: "rstr list"

definition WG :: rstr where "WG = lit ''wg''"
definition WG_QUICK :: rstr where "WG_QUICK = lit ''wg-quick''"
definition WIREGUARD :: rstr where "WIREGUARD = lit ''wireguard''"

definition cmd_new :: "rstr \<Rightarrow> rstr list \<Rightarrow> cmd" where
  "cmd_new program args = \<lparr>cmd_program = program, cmd_args = args\<rparr>"

definition cmd_with_path :: "rstr \<Rightarrow> rstr list \<Rightarrow> rstr \<Rightarrow> cmd" where
  "cmd_with_path program args path = \<lparr>cmd_program = program, cmd_args = args @ [path]\<rparr>"

definition cmd_display :: "cmd \<Rightarrow> rstr" where
  "cmd_display c = foldl (\<lambda>line arg. line @ [32] @ arg) (cmd_program c) (cmd_args c)"

definition genkey :: cmd where "genkey = cmd_new WG [lit ''genkey'']"
definition pubkey :: cmd where "pubkey = cmd_new WG [lit ''pubkey'']"

definition quick_up :: "rstr \<Rightarrow> cmd" where
  "quick_up config = cmd_with_path WG_QUICK [lit ''up''] config"

definition quick_strip :: "rstr \<Rightarrow> cmd" where
  "quick_strip config = cmd_with_path WG_QUICK [lit ''strip''] config"

definition syncconf :: "rstr \<Rightarrow> rstr \<Rightarrow> cmd" where
  "syncconf interface stripped = cmd_new WG [lit ''syncconf'', interface, stripped]"

definition tunnel_install :: "rstr \<Rightarrow> cmd" where
  "tunnel_install config = cmd_with_path WIREGUARD [lit ''/installtunnelservice''] config"

definition tunnel_uninstall :: "rstr \<Rightarrow> cmd" where
  "tunnel_uninstall interface = cmd_new WIREGUARD [lit ''/uninstalltunnelservice'', interface]"

definition show_dump :: "rstr \<Rightarrow> cmd" where
  "show_dump interface = cmd_new WG [lit ''show'', interface, lit ''dump'']"

section \<open>Errors and hints\<close>

datatype wg_error =
    WgNotFound rstr rstr
  | WgSpawn rstr rstr
  | WgFailed rstr "int option" rstr
  | WgBadKey nat

fun wg_error_show :: "wg_error \<Rightarrow> rstr" where
  "wg_error_show (WgNotFound tool hint) =
     [96] @ tool @ [96] @ lit '' is not installed or not on PATH '' @ [0x2014, 32] @ hint"
| "wg_error_show (WgSpawn line source) = lit ''could not run '' @ [96] @ line @ [96] @ lit '': '' @ source"
| "wg_error_show (WgFailed line code stderr) =
     [96] @ line @ [96] @ lit '' failed''
     @ (case code of None \<Rightarrow> [] | Some n \<Rightarrow> lit '' (exit '' @ show_int n @ lit '')'')
     @ (if stderr = [] then [] else lit '': '' @ stderr)"
| "wg_error_show (WgBadKey len) =
     lit ''expected a WireGuard key (44 base64 characters), got '' @ dec_nat len @ lit '' characters''"

datatype platform = MacOs | Linux | Windows | OtherPlatform

definition platform_from :: "rstr \<Rightarrow> platform" where
  "platform_from os =
    (if os = lit ''macos'' then MacOs else if os = lit ''linux'' then Linux
     else if os = lit ''windows'' then Windows else OtherPlatform)"

text \<open>\<open>rsplit(':').next()\<close> is the piece after the last colon.\<close>

definition forwarding_is_enabled :: "rstr \<Rightarrow> bool" where
  "forwarding_is_enabled reported \<longleftrightarrow> trim (last (split_on 58 reported)) = lit ''1''"

section \<open>Applying a state\<close>

datatype action = ActSync | BringUp

definition plan :: "bool \<Rightarrow> rstr option \<Rightarrow> rstr \<Rightarrow> action option" where
  "plan interface_is_up last_applied wanted =
    (if \<not> interface_is_up then Some BringUp
     else if last_applied = Some wanted then None
     else Some ActSync)"

text \<open>
  What one call meets: whether the file can be written, whether \<open>wg show\<close> finds the interface,
  what \<open>wg-quick up\<close>, the stripping and \<open>wg syncconf\<close> return, and, because a tool that fails may
  have changed something first, what the interface runs after a failure.
\<close>

record apply_env =
  env_write :: "rstr option"
  env_up :: bool
  env_bring_up :: "wg_error option"
  env_strip :: "wg_error + rstr"
  env_write_stripped :: "rstr option"
  env_sync :: "wg_error option"
  env_after_failure :: "rstr option"

text \<open>
  The applier and what it drives: the file's text, the configuration the interface runs (\<open>None\<close>
  when it is down), and \<open>last_applied\<close>.
\<close>

record applier =
  ap_file :: "rstr option"
  ap_kernel :: "rstr option"
  ap_last_applied :: "rstr option"

definition write_config :: "apply_env \<Rightarrow> rstr \<Rightarrow> server_state \<Rightarrow> applier \<Rightarrow> (wg_error + bool) \<times> applier"
where
  "write_config env path st ap =
    (let wanted = expose (server_config st) in
     if ap_file ap = Some wanted then (Inr False, ap)
     else (case env_write env of
         Some e \<Rightarrow> (Inl (WgSpawn (lit ''write '' @ path) e), ap)
       | None \<Rightarrow> (Inr True, ap\<lparr>ap_file := Some wanted\<rparr>)))"

definition run_action ::
  "apply_env \<Rightarrow> rstr \<Rightarrow> action \<Rightarrow> rstr \<Rightarrow> applier \<Rightarrow> (wg_error + unit) \<times> applier"
where
  "run_action env stripped_path act wanted ap =
    (let failed = (\<lambda>e. (Inl e, ap\<lparr>ap_kernel := env_after_failure env\<rparr>)) in
     case act of
       BringUp \<Rightarrow>
         (case env_bring_up env of
            Some e \<Rightarrow> failed e
          | None \<Rightarrow> (Inr (), ap\<lparr>ap_kernel := Some wanted\<rparr>))
     | ActSync \<Rightarrow>
         (case env_strip env of
            Inl e \<Rightarrow> (Inl e, ap)
          | Inr _ \<Rightarrow>
         (case env_write_stripped env of
            Some e \<Rightarrow> (Inl (WgSpawn (lit ''write '' @ stripped_path) e), ap)
          | None \<Rightarrow>
         (case env_sync env of
            Some e \<Rightarrow> failed e
          | None \<Rightarrow> (Inr (), ap\<lparr>ap_kernel := Some wanted\<rparr>)))))"

definition apply_state ::
  "apply_env \<Rightarrow> rstr \<Rightarrow> rstr \<Rightarrow> server_state \<Rightarrow> applier \<Rightarrow> (wg_error + unit) \<times> applier"
where
  "apply_state env path stripped_path st ap =
    (let wanted = expose (server_config st) in
     case write_config env path st ap of
       (Inl e, ap) \<Rightarrow> (Inl e, ap)
     | (Inr _, ap) \<Rightarrow>
         (case plan (env_up env) (ap_last_applied ap) wanted of
            None \<Rightarrow> (Inr (), ap)
          | Some act \<Rightarrow>
              (case run_action env stripped_path act wanted ap of
                 (Inl e, ap) \<Rightarrow> (Inl e, ap)
               | (Inr _, ap) \<Rightarrow> (Inr (), ap\<lparr>ap_last_applied := Some wanted\<rparr>))))"

section \<open>What a call leaves behind\<close>

text \<open>\<open>wg show\<close> tells the truth about the interface.\<close>

definition sees :: "apply_env \<Rightarrow> applier \<Rightarrow> bool" where
  "sees env ap \<longleftrightarrow> (env_up env \<longleftrightarrow> ap_kernel ap \<noteq> None)"

text \<open>What is remembered as applied is what an interface that is up runs.\<close>

definition applier_inv :: "applier \<Rightarrow> bool" where
  "applier_inv ap \<longleftrightarrow> (\<forall>t. ap_last_applied ap = Some t \<longrightarrow> ap_kernel ap \<noteq> None \<longrightarrow> ap_kernel ap = Some t)"

lemma apply_success:
  assumes "apply_state env path sp st ap = (Inr (), ap')" "sees env ap" "applier_inv ap"
  shows "ap_kernel ap' = Some (expose (server_config st)) \<and> ap_file ap' = Some (expose (server_config st))
    \<and> applier_inv ap'"
  using assms
  by (auto simp: apply_state_def write_config_def run_action_def plan_def Let_def sees_def applier_inv_def
      split: prod.splits sum.splits option.splits if_splits action.splits)

lemma apply_failure_keeps_last:
  "apply_state env path sp st ap = (Inl e, ap') \<Longrightarrow> ap_last_applied ap' = ap_last_applied ap"
  by (auto simp: apply_state_def write_config_def run_action_def plan_def Let_def
      split: prod.splits sum.splits option.splits if_splits action.splits)

lemma apply_untouched_if_current:
  "ap_file ap = Some (expose (server_config st)) \<Longrightarrow> env_up env \<Longrightarrow>
    ap_last_applied ap = Some (expose (server_config st)) \<Longrightarrow> apply_state env path sp st ap = (Inr (), ap)"
  by (simp add: apply_state_def write_config_def plan_def Let_def)

end
