(* ===== verification/HubSystem.thy ===== *)
theory HubSystem
  imports Hub HubSpec WgApply
begin

text \<open>
  Runs of the hub: requests, \<open>anago code\<close> and the pushes into the interface in any order. The
  invariant holds along every run, every step of the file is a step of the abstract hub, and a
  code that was redeemed is never accepted again.
\<close>

section \<open>Handlers on a file that holds a state\<close>

lemma status_for_not_200 [simp]: "status_for c \<noteq> 200"
  by (cases c) simp_all

lemma error_response_status [simp]: "resp_status (error_response e) = status_for (ae_code e)"
  by (simp add: error_response_def Let_def json_response_def)

lemma internal_error_status [simp]: "resp_status (internal_error m) \<noteq> 200"
  by (simp add: internal_error_def)

lemma json_response_status [simp]: "resp_status (json_response c b) = c"
  by (simp add: json_response_def)

text \<open>A request either does nothing to the file or commits exactly one decision.\<close>

lemma handle_join_cases:
  assumes "handle_join u sha env now minted body disk = (resp, disk')"
  obtains (refused) "resp_status resp \<noteq> 200" "disk' = disk"
  | (accepted) request token st st' r where "parse_body u body = Inr request" "minted = Inr token"
      "store_lock u env disk = Inr st"
      "decide_join u request token (hash_token sha token) now st = (Inr r, st')"
      "disk' = Some (to_json_string st')"
      "resp = json_response 200 (to_string (join_response_to_json r))"
proof -
  show ?thesis
  proof (cases "resp_status resp = 200")
    case False
    with assms refused show ?thesis
      by (auto simp: handle_join_def store_write_Inr split: sum.splits prod.splits dest: store_write_Inl)
  next
    case True
    with assms accepted show ?thesis
      by (auto simp: handle_join_def store_write_Inr split: sum.splits prod.splits)
  qed
qed

lemma with_caller_cases:
  assumes "with_caller u sha env now header change disk = (resp, disk')"
  obtains (refused) "resp_status resp \<noteq> 200" "disk' = disk"
  | (accepted) token st caller body st' where "bearer_token header = Inr token"
      "store_lock u env disk = Inr st" "authenticate sha st token = Inr caller"
      "change st caller now = (Inr body, st')" "disk' = Some (to_json_string st')"
      "resp = json_response 200 body"
proof -
  show ?thesis
  proof (cases "resp_status resp = 200")
    case False
    with assms refused show ?thesis
      by (auto simp: with_caller_def store_write_Inr split: sum.splits prod.splits dest: store_write_Inl)
  next
    case True
    with assms accepted show ?thesis
      by (auto simp: with_caller_def store_write_Inr split: sum.splits prod.splits)
  qed
qed

lemma run_code_cases:
  assumes "run_code u env draw now disk = (r, disk')"
  obtains (refused) "disk' = disk"
  | (issued) st code where "store_lock u env disk = Inr st" "choose_unused st draw MAX_DRAWS = Inr code"
      "disk' = Some (to_json_string (snd (issue code now DEFAULT_TTL_SECS st)))"
  using assms
  by (auto simp: run_code_def Let_def store_write_Inr split: sum.splits prod.splits dest: store_write_Inl)

text \<open>What a \<open>change\<close> commits is well typed, safe, and a step of the abstract hub or none.\<close>

definition good_change :: "unicode \<Rightarrow> server_state \<Rightarrow> server_state \<Rightarrow> bool" where
  "good_change u st st' \<longleftrightarrow> state_typed u st' \<and> state_safe st' \<and>
     (abs_hub st' = abs_hub st \<or> hub_next (abs_hub st) (abs_hub st'))"

lemma good_join:
  assumes u: "unicode_laws u" and st: "state_typed u st" "state_safe st" and now: "in_i64 now"
    and h: "hex_ok (hash_str h)" and rq: "join_request_ok rq"
    and run: "decide_join u rq token h now st = (Inr r, st')"
  shows "good_change u st st'"
proof -
  from run obtain reg p where reg: "registration_of u rq h = Inr reg" and add: "add_peer reg now st = (Inr p, st')"
    by (auto simp: decide_join_accepted)
  have "registration_typed u reg" by (rule registration_of_typed [OF u rq h reg])
  then have "state_typed u st'" using add_peer_typed [OF add st(1)] now by blast
  moreover have "state_safe st'" by (rule add_peer_safe [OF add st(2)])
  moreover have "hub_join reg now (abs_hub st) = (Inr (p_address p), abs_hub st')"
    using add_peer_refines [OF st(2) add] by simp
  ultimately show ?thesis unfolding good_change_def by (blast intro: next_join)
qed

lemma good_peers:
  assumes "state_typed u st" "state_safe st" "in_i64 now" "change_peers st caller now = (Inr body, st')"
  shows "good_change u st st'"
  using assms by (auto simp: change_peers_def Let_def good_change_def touch_typed touch_safe)

lemma good_remove:
  assumes "state_typed u st" "state_safe st" "in_i64 now" "change_remove u name st caller now = (Inr body, st')"
  shows "good_change u st st'"
proof -
  from assms(4) obtain removed st1 where d: "decide_remove u name st = (Inr removed, st1)"
    and st': "st' = st1 \<or> st' = touch_last_seen caller now st1"
    by (auto simp: change_remove_def split: prod.splits sum.splits if_splits)
  then obtain n p where r: "remove_peer n st = (Some p, st1)" by (auto simp: decide_remove_done)
  have "state_typed u st1" "state_safe st1"
    using remove_peer_typed [OF r assms(1)] remove_peer_safe [OF r assms(2)] by blast+
  moreover have "hub_next (abs_hub st) (abs_hub st1)"
    using remove_peer_refines [OF assms(2) r] by (metis next_remove)
  ultimately show ?thesis
    using st' assms(3) by (auto simp: good_change_def touch_typed touch_safe)
qed

lemma good_issue:
  assumes "state_typed u st" "state_safe st" "in_i64 now" "code_ok c" "c \<notin> ic_code ` set (st_codes st)"
  shows "good_change u st (snd (issue c now ttl st))"
  using assms issue_typed issue_safe issue_refines [of c st now ttl]
  unfolding good_change_def by (metis dom_codes next_issue)

section \<open>The system\<close>

text \<open>
  \<open>sys_pending\<close> counts the requests that committed and have not pushed their state yet;
  \<open>sys_failed\<close> says whether any push has failed so far.
\<close>

record system =
  sys_disk :: disk
  sys_applier :: applier
  sys_pending :: nat
  sys_failed :: bool

datatype event =
    EvJoin io_env int "rstr + device_token" "u8 list"
  | EvPeers io_env int "rstr option option"
  | EvRemove io_env int "rstr option option" rstr
  | EvCode io_env "nat \<Rightarrow> rstr + join_code" int
  | EvApply io_env apply_env

text \<open>
  What the environment of an event has to be: a time that fits an \<open>i64\<close>, a token of the shape the
  server mints, codes drawn from the alphabet, and a \<open>wg show\<close> that tells the truth.
\<close>

fun event_ok :: "system \<Rightarrow> event \<Rightarrow> bool" where
  "event_ok s (EvJoin env now minted body) \<longleftrightarrow>
     in_i64 now \<and> (case minted of Inl _ \<Rightarrow> True | Inr t \<Rightarrow> hex_ok (token_str t))"
| "event_ok s (EvPeers env now header) \<longleftrightarrow> in_i64 now"
| "event_ok s (EvRemove env now header name) \<longleftrightarrow> in_i64 now"
| "event_ok s (EvCode env draw now) \<longleftrightarrow> in_i64 now \<and> (\<forall>i c. draw i = Inr c \<longrightarrow> code_ok c)"
| "event_ok s (EvApply env aenv) \<longleftrightarrow> 0 < sys_pending s \<and> sees aenv (sys_applier s)"

definition after_request :: "http_response \<times> disk \<Rightarrow> system \<Rightarrow> system" where
  "after_request result s =
    s\<lparr>sys_disk := snd result,
      sys_pending := sys_pending s + (if resp_status (fst result) = 200 then 1 else 0)\<rparr>"

definition config_path :: rstr where
  "config_path = lit ''/etc/wireguard/anago.conf''"

definition stripped_path :: rstr where
  "stripped_path = lit ''/etc/wireguard/anago.stripped''"

text \<open>\<open>apply_to_interface\<close>: the state is read back under the lock; a state that cannot be is not applied.\<close>

definition apply_to_interface :: "unicode \<Rightarrow> io_env \<Rightarrow> apply_env \<Rightarrow> system \<Rightarrow> system" where
  "apply_to_interface u env aenv s =
    (case store_lock u env (sys_disk s) of
       Inl _ \<Rightarrow> s\<lparr>sys_pending := sys_pending s - 1, sys_failed := True\<rparr>
     | Inr st \<Rightarrow>
         (case apply_state aenv config_path stripped_path st (sys_applier s) of
            (r, ap) \<Rightarrow> s\<lparr>sys_applier := ap, sys_pending := sys_pending s - 1,
              sys_failed := sys_failed s \<or> r \<noteq> Inr ()\<rparr>))"

fun run_event :: "unicode \<Rightarrow> (u8 list \<Rightarrow> u8 list) \<Rightarrow> event \<Rightarrow> system \<Rightarrow> system" where
  "run_event u sha (EvJoin env now minted body) s =
     after_request (handle_join u sha env now minted body (sys_disk s)) s"
| "run_event u sha (EvPeers env now header) s =
     after_request (handle_peers u sha env now header (sys_disk s)) s"
| "run_event u sha (EvRemove env now header name) s =
     after_request (handle_remove u sha env now header name (sys_disk s)) s"
| "run_event u sha (EvCode env draw now) s = s\<lparr>sys_disk := snd (run_code u env draw now (sys_disk s))\<rparr>"
| "run_event u sha (EvApply env aenv) s = apply_to_interface u env aenv s"

inductive system_step :: "unicode \<Rightarrow> (u8 list \<Rightarrow> u8 list) \<Rightarrow> system \<Rightarrow> system \<Rightarrow> bool"
  for u sha where
  system_step: "event_ok s ev \<Longrightarrow> system_step u sha s (run_event u sha ev s)"

inductive_cases system_stepE: "system_step u sha s t"

text \<open>
  The server starts on a file it can read whose devices and codes are as the program leaves them,
  with nothing applied yet and its first push to do.
\<close>

definition system_start :: "unicode \<Rightarrow> system \<Rightarrow> bool" where
  "system_start u s \<longleftrightarrow> (\<exists>st. holds u (sys_disk s) st \<and> state_safe st)
     \<and> ap_last_applied (sys_applier s) = None \<and> sys_pending s = 1 \<and> \<not> sys_failed s"

definition system_inv :: "unicode \<Rightarrow> system \<Rightarrow> bool" where
  "system_inv u s \<longleftrightarrow> (\<exists>st. holds u (sys_disk s) st \<and> state_typed u st \<and> state_safe st \<and>
     (\<not> sys_failed s \<longrightarrow> applier_inv (sys_applier s) \<and>
        (sys_pending s = 0 \<longrightarrow> ap_kernel (sys_applier s) = Some (expose (server_config st)))))"

section \<open>The invariant\<close>

lemma parse_body_ok: "parse_body u body = Inr rq \<Longrightarrow> join_request_ok rq"
  unfolding parse_body_def attempt_eq_Inr map_err_eq_Inr
  using join_request_codec.text_ok by blast

lemma server_config_issue: "server_config (snd (issue c now ttl st)) = server_config st"
  by (simp add: server_config_def issue_def Let_def)

text \<open>A step on the file: it stays, or one good change is committed.\<close>

definition disk_step :: "unicode \<Rightarrow> disk \<Rightarrow> disk \<Rightarrow> bool" where
  "disk_step u d d' \<longleftrightarrow> d' = d \<or> (\<exists>st st'. holds u d st \<and> good_change u st st' \<and> d' = Some (to_json_string st'))"

lemma store_lock_holds: "store_lock u env d = Inr st \<Longrightarrow> holds u d st"
  by (simp add: store_lock_Inr holds_def)

lemma request_disk_step:
  assumes u: "unicode_laws u" and sha: "\<forall>bs. length (sha bs) = TOKEN_BYTES"
    and d: "holds u d st" "state_safe st"
  shows "in_i64 now \<Longrightarrow> handle_join u sha env now minted body d = (resp, d') \<Longrightarrow>
      disk_step u d d' \<and> (resp_status resp \<noteq> 200 \<longrightarrow> d' = d)"
    and "in_i64 now \<Longrightarrow> handle_peers u sha env now header d = (resp, d') \<Longrightarrow>
      disk_step u d d' \<and> (resp_status resp \<noteq> 200 \<longrightarrow> d' = d)"
    and "in_i64 now \<Longrightarrow> handle_remove u sha env now header name d = (resp, d') \<Longrightarrow>
      disk_step u d d' \<and> (resp_status resp \<noteq> 200 \<longrightarrow> d' = d)"
proof -
  note typed = holds_typed [OF u d(1)]
  {
    assume now: "in_i64 now" and run: "handle_join u sha env now minted body d = (resp, d')"
    from run show "disk_step u d d' \<and> (resp_status resp \<noteq> 200 \<longrightarrow> d' = d)"
    proof (cases rule: handle_join_cases)
      case refused
      then show ?thesis by (simp add: disk_step_def)
    next
      case (accepted request token st1 st' r)
      have "st1 = st" by (rule holds_fun [OF d(1) store_lock_holds [OF accepted(3)]])
      then have "good_change u st st'"
        using good_join [OF u typed d(2) now hash_token_str_ok [OF sha] parse_body_ok [OF accepted(1)]]
          accepted(4) by simp
      with accepted(5,6) d(1) show ?thesis by (auto simp: disk_step_def)
    qed
  }
  {
    assume now: "in_i64 now" and run: "handle_peers u sha env now header d = (resp, d')"
    from run [unfolded handle_peers_def] show "disk_step u d d' \<and> (resp_status resp \<noteq> 200 \<longrightarrow> d' = d)"
    proof (cases rule: with_caller_cases)
      case refused
      then show ?thesis by (simp add: disk_step_def)
    next
      case (accepted token st1 caller body st')
      have "st1 = st" by (rule holds_fun [OF d(1) store_lock_holds [OF accepted(2)]])
      then have "good_change u st st'" using good_peers [OF typed d(2) now] accepted(4) by simp
      with accepted(5,6) d(1) show ?thesis by (auto simp: disk_step_def)
    qed
  }
  {
    assume now: "in_i64 now" and run: "handle_remove u sha env now header name d = (resp, d')"
    from run [unfolded handle_remove_def] show "disk_step u d d' \<and> (resp_status resp \<noteq> 200 \<longrightarrow> d' = d)"
    proof (cases rule: with_caller_cases)
      case refused
      then show ?thesis by (simp add: disk_step_def)
    next
      case (accepted token st1 caller body st')
      have "st1 = st" by (rule holds_fun [OF d(1) store_lock_holds [OF accepted(2)]])
      then have "good_change u st st'" using good_remove [OF typed d(2) now] accepted(4) by simp
      with accepted(5,6) d(1) show ?thesis by (auto simp: disk_step_def)
    qed
  }
qed

lemma code_disk_step:
  assumes u: "unicode_laws u" and d: "holds u d st" "state_safe st"
    and now: "in_i64 now" and draw: "\<forall>i c. draw i = Inr c \<longrightarrow> code_ok c"
    and run: "run_code u env draw now d = (r, d')"
  shows "disk_step u d d' \<and> (\<exists>st'. holds u d' st' \<and> server_config st' = server_config st)"
  using run
proof (cases rule: run_code_cases)
  case refused
  with d show ?thesis by (auto simp: disk_step_def)
next
  case (issued st1 code)
  have st1: "st1 = st" by (rule holds_fun [OF d(1) store_lock_holds [OF issued(1)]])
  have new: "code \<notin> ic_code ` set (st_codes st)"
    using choose_unused_new issued(2) st1 by blast
  have "\<exists>j. draw j = Inr code"
    using issued(2) unfolding choose_unused_def by (blast dest: choose_loop_Inr)
  with draw have "code_ok code" by blast
  then have g: "good_change u st (snd (issue code now DEFAULT_TTL_SECS st))"
    using good_issue [OF holds_typed [OF u d(1)] d(2) now _ new] by blast
  then have "holds u d' (snd (issue code now DEFAULT_TTL_SECS st))"
    using issued(3) st1 by (simp add: good_change_def holds_written [OF u])
  with g d(1) issued(3) st1 show ?thesis by (auto simp: disk_step_def server_config_issue)
qed

lemma disk_step_holds:
  assumes "unicode_laws u" "holds u d st" "state_safe st" "disk_step u d d'"
  shows "\<exists>st'. holds u d' st' \<and> state_typed u st' \<and> state_safe st'
    \<and> (abs_hub st' = abs_hub st \<or> hub_next (abs_hub st) (abs_hub st'))"
  using assms(4) unfolding disk_step_def
proof
  assume "d' = d"
  with assms holds_typed show ?thesis by blast
next
  assume "\<exists>st st'. holds u d st \<and> good_change u st st' \<and> d' = Some (to_json_string st')"
  then obtain st1 st' where "holds u d st1" and g: "good_change u st1 st'" and d': "d' = Some (to_json_string st')"
    by blast
  then have "st1 = st" using holds_fun assms(2) by blast
  with g d' holds_written [OF assms(1)] show ?thesis by (auto simp: good_change_def)
qed

lemma system_start_inv: "unicode_laws u \<Longrightarrow> system_start u s \<Longrightarrow> system_inv u s"
  by (auto simp: system_start_def system_inv_def applier_inv_def dest: holds_typed)

lemma after_request_inv:
  assumes u: "unicode_laws u" and inv: "system_inv u s" and step: "disk_step u (sys_disk s) (snd result)"
    and keep: "resp_status (fst result) \<noteq> 200 \<Longrightarrow> snd result = sys_disk s"
  shows "system_inv u (after_request result s)"
proof -
  from inv obtain st where st: "holds u (sys_disk s) st" "state_safe st"
    and ap: "\<not> sys_failed s \<longrightarrow> applier_inv (sys_applier s) \<and>
        (sys_pending s = 0 \<longrightarrow> ap_kernel (sys_applier s) = Some (expose (server_config st)))"
    by (auto simp: system_inv_def)
  show ?thesis
  proof (cases "resp_status (fst result) = 200")
    case True
    from disk_step_holds [OF u st step] ap True show ?thesis
      by (auto simp: system_inv_def after_request_def)
  next
    case False
    with keep have "after_request result s = s" by (simp add: after_request_def)
    with inv show ?thesis by simp
  qed
qed

lemma apply_to_interface_inv:
  assumes inv: "system_inv u s" and ok: "sees aenv (sys_applier s)"
  shows "system_inv u (apply_to_interface u env aenv s)"
proof -
  from inv obtain st where st: "holds u (sys_disk s) st" "state_typed u st" "state_safe st"
    and ap: "\<not> sys_failed s \<longrightarrow> applier_inv (sys_applier s)"
    by (auto simp: system_inv_def)
  show ?thesis
  proof (cases "store_lock u env (sys_disk s)")
    case (Inl e)
    with st show ?thesis by (auto simp: apply_to_interface_def system_inv_def)
  next
    case (Inr st1)
    then have "st1 = st" using holds_fun [OF st(1) store_lock_holds] by blast
    moreover obtain r ap' where r: "apply_state aenv config_path stripped_path st (sys_applier s) = (r, ap')"
      by (cases "apply_state aenv config_path stripped_path st (sys_applier s)")
    moreover have "r = Inr () \<Longrightarrow> \<not> sys_failed s \<Longrightarrow>
        ap_kernel ap' = Some (expose (server_config st)) \<and> applier_inv ap'"
      using apply_success r ok ap by blast
    ultimately show ?thesis
      using Inr st by (auto simp: apply_to_interface_def system_inv_def)
  qed
qed

lemma run_event_inv:
  assumes u: "unicode_laws u" and sha: "\<forall>bs. length (sha bs) = TOKEN_BYTES"
    and inv: "system_inv u s" and ok: "event_ok s ev"
  shows "system_inv u (run_event u sha ev s)"
proof -
  from inv obtain st where st: "holds u (sys_disk s) st" "state_safe st"
    by (auto simp: system_inv_def)
  note req = request_disk_step [OF u sha st]
  show ?thesis
  proof (cases ev)
    case (EvJoin env now minted body)
    with ok req(1) [of now env minted body] show ?thesis
      by (cases "handle_join u sha env now minted body (sys_disk s)")
        (auto intro!: after_request_inv [OF u inv])
  next
    case (EvPeers env now header)
    with ok req(2) [of now env header] show ?thesis
      by (cases "handle_peers u sha env now header (sys_disk s)")
        (auto intro!: after_request_inv [OF u inv])
  next
    case (EvRemove env now header name)
    with ok req(3) [of now env header name] show ?thesis
      by (cases "handle_remove u sha env now header name (sys_disk s)")
        (auto intro!: after_request_inv [OF u inv])
  next
    case (EvCode env draw now)
    obtain r d' where run: "run_code u env draw now (sys_disk s) = (r, d')"
      by (cases "run_code u env draw now (sys_disk s)")
    have now: "in_i64 now" and draw: "\<forall>i c. draw i = Inr c \<longrightarrow> code_ok c"
      using ok by (simp_all add: EvCode)
    from code_disk_step [OF u st now draw run] obtain st' where "disk_step u (sys_disk s) d'"
      and h: "holds u d' st'" and cfg: "server_config st' = server_config st" by blast
    then obtain st2 where "holds u d' st2" "state_typed u st2" "state_safe st2"
      using disk_step_holds [OF u st] by blast
    with h have "state_typed u st'" "state_safe st'" using holds_fun by blast+
    moreover from inv st(1) have "\<not> sys_failed s \<longrightarrow> applier_inv (sys_applier s) \<and>
        (sys_pending s = 0 \<longrightarrow> ap_kernel (sys_applier s) = Some (expose (server_config st)))"
      unfolding system_inv_def using holds_fun by blast
    ultimately show ?thesis
      using h cfg run by (auto simp: EvCode system_inv_def)
  next
    case (EvApply env aenv)
    with ok show ?thesis by (simp add: apply_to_interface_inv [OF inv])
  qed
qed

text \<open>The tables and the hash are third-party code; \<open>parts_ok\<close> is what is documented of them.\<close>

definition parts_ok :: "unicode \<Rightarrow> (u8 list \<Rightarrow> u8 list) \<Rightarrow> bool" where
  "parts_ok u sha \<longleftrightarrow> unicode_laws u \<and> (\<forall>bs. length (sha bs) = TOKEN_BYTES)"

interpretation hub_run: invariant_system
  "\<lambda>s. parts_ok u sha \<and> system_start u s" "system_step u sha" "\<lambda>s. parts_ok u sha \<and> system_inv u s"
  for u sha
proof
  show "parts_ok u sha \<and> system_inv u s" if "parts_ok u sha \<and> system_start u s" for s
    using that system_start_inv by (auto simp: parts_ok_def)
  show "parts_ok u sha \<and> system_inv u t" if "system_step u sha s t" "parts_ok u sha \<and> system_inv u s" for s t
    using that by (auto elim!: system_stepE intro: run_event_inv simp: parts_ok_def)
qed

section \<open>Every run is a run of the abstract hub\<close>

definition represents :: "unicode \<Rightarrow> system \<Rightarrow> hub \<Rightarrow> bool" where
  "represents u s h \<longleftrightarrow> (\<exists>st. holds u (sys_disk s) st \<and> h = abs_hub st)"

lemma represents_fun: "represents u s h \<Longrightarrow> represents u s h' \<Longrightarrow> h' = h"
  by (auto simp: represents_def dest: holds_fun)

lemma run_event_disk:
  assumes u: "unicode_laws u" and sha: "\<forall>bs. length (sha bs) = TOKEN_BYTES"
    and st: "holds u (sys_disk s) st" "state_safe st" and ok: "event_ok s ev"
  shows "disk_step u (sys_disk s) (sys_disk (run_event u sha ev s))"
proof (cases ev)
  case (EvJoin env now minted body)
  with ok request_disk_step(1) [OF u sha st, of now env minted body] show ?thesis
    by (cases "handle_join u sha env now minted body (sys_disk s)") (simp add: after_request_def)
next
  case (EvPeers env now header)
  with ok request_disk_step(2) [OF u sha st, of now env header] show ?thesis
    by (cases "handle_peers u sha env now header (sys_disk s)") (simp add: after_request_def)
next
  case (EvRemove env now header name)
  with ok request_disk_step(3) [OF u sha st, of now env header name] show ?thesis
    by (cases "handle_remove u sha env now header name (sys_disk s)") (simp add: after_request_def)
next
  case (EvCode env draw now)
  with ok code_disk_step [OF u st, of now draw env] show ?thesis
    by (cases "run_code u env draw now (sys_disk s)") auto
next
  case (EvApply env aenv)
  have "sys_disk (apply_to_interface u env aenv s) = sys_disk s"
    by (auto simp: apply_to_interface_def split: sum.splits prod.splits)
  with EvApply show ?thesis by (simp add: disk_step_def)
qed

lemma system_step_simulates:
  assumes parts: "parts_ok u sha" and inv: "system_inv u s" and step: "system_step u sha s t"
    and h: "represents u s h"
  shows "\<exists>h'. represents u t h' \<and> (h' = h \<or> hub_next h h')"
proof -
  from step obtain ev where ev: "event_ok s ev" and t: "t = run_event u sha ev s"
    by (auto elim: system_stepE)
  from inv obtain st where st: "holds u (sys_disk s) st" "state_safe st" by (auto simp: system_inv_def)
  with h have "h = abs_hub st" by (auto simp: represents_def dest: holds_fun)
  moreover have "disk_step u (sys_disk s) (sys_disk t)"
    unfolding t using parts by (intro run_event_disk [OF _ _ st ev]) (simp_all add: parts_ok_def)
  ultimately show ?thesis
    using disk_step_holds [OF _ st] parts by (fastforce simp: represents_def parts_ok_def)
qed

lemma system_run_simulates:
  assumes parts: "parts_ok u sha" and inv: "system_inv u s" and run: "(system_step u sha)\<^sup>*\<^sup>* s t"
    and h: "represents u s h"
  shows "\<exists>h'. represents u t h' \<and> hub_next\<^sup>*\<^sup>* h h'"
  using run
proof (induction rule: rtranclp_induct)
  case base
  with h show ?case by blast
next
  case (step v w)
  then obtain h' where h': "represents u v h'" "hub_next\<^sup>*\<^sup>* h h'" by blast
  have "system_inv u v" using hub_run.inv_steps [OF step(1)] parts inv by blast
  from system_step_simulates [OF parts this step(2) h'(1)] h'(2) show ?case
    by (metis rtranclp.rtrancl_into_rtrancl)
qed

lemma spent_stays_run: "hub_next\<^sup>*\<^sup>* h h' \<Longrightarrow> hub_codes h c = Some (e, Some t) \<Longrightarrow> hub_codes h' c = Some (e, Some t)"
  by (induction rule: rtranclp_induct) (auto dest: spent_stays)

section \<open>A code is redeemed once\<close>

definition request_code :: "unicode \<Rightarrow> u8 list \<Rightarrow> join_code option" where
  "request_code u body =
    (case parse_body u body of
       Inl _ \<Rightarrow> None
     | Inr rq \<Rightarrow> (case join_code_parse (jq_code rq) of Inl _ \<Rightarrow> None | Inr c \<Rightarrow> Some c))"

lemma accepted_spends:
  assumes st: "holds u d st" "state_safe st" and u: "unicode_laws u"
    and sha: "\<forall>bs. length (sha bs) = TOKEN_BYTES" and now: "in_i64 now"
    and run: "handle_join u sha env now minted body d = (resp, d')" and ok: "resp_status resp = 200"
  shows "\<exists>c st' e. request_code u body = Some c \<and> holds u d' st' \<and> hub_codes (abs_hub st') c = Some (e, Some now)"
  using run
proof (cases rule: handle_join_cases)
  case refused
  with ok show ?thesis by simp
next
  case (accepted request token st1 st' r)
  have st1: "st1 = st" by (rule holds_fun [OF st(1) store_lock_holds [OF accepted(3)]])
  from accepted(4) obtain reg p where reg: "registration_of u request (hash_token sha token) = Inr reg"
    and add: "add_peer reg now st = (Inr p, st')"
    by (auto simp: decide_join_accepted st1)
  have "hub_join reg now (abs_hub st) = (Inr (p_address p), abs_hub st')"
    using add_peer_refines [OF st(2) add] by simp
  then obtain e where "hub_codes (abs_hub st') (rg_code reg) = Some (e, Some now)"
    by (auto simp: hub_join_def split: option.splits if_splits simp del: abs_hub_simps dest!: sym [of _ "abs_hub st'"])
  moreover have "good_change u st st'"
    using good_join [OF u holds_typed [OF u st(1)] st(2) now hash_token_str_ok [OF sha]
        parse_body_ok [OF accepted(1)]] accepted(4) by (simp add: st1)
  then have "holds u d' st'" using accepted(5) by (simp add: good_change_def holds_written [OF u])
  moreover have "request_code u body = Some (rg_code reg)"
    using reg accepted(1) by (simp add: request_code_def registration_of_Inr)
  ultimately show ?thesis by blast
qed

lemma spent_never_accepted:
  assumes st: "holds u d st" "state_safe st" and spent: "hub_codes (abs_hub st) c = Some (e, Some t)"
    and rq: "request_code u body = Some c"
    and run: "handle_join u sha env now minted body d = (resp, d')"
  shows "resp_status resp \<noteq> 200 \<and> d' = d"
  using run
proof (cases rule: handle_join_cases)
  case refused
  then show ?thesis by simp
next
  case (accepted request token st1 st' r)
  have st1: "st1 = st" by (rule holds_fun [OF st(1) store_lock_holds [OF accepted(3)]])
  from accepted(4) obtain reg p where reg: "registration_of u request (hash_token sha token) = Inr reg"
    and add: "add_peer reg now st = (Inr p, st')"
    by (auto simp: decide_join_accepted st1)
  have "c = rg_code reg"
    using reg accepted(1) rq by (simp add: request_code_def registration_of_Inr)
  with spent spent_refused have "fst (hub_join reg now (abs_hub st)) = Inl (RejCodeNotUsable Used)"
    by (metis fst_conv)
  then show ?thesis using add_peer_refines [OF st(2) add] by simp
qed

end
