(* ===== verification/HttpClient.thy ===== *)
theory HttpClient
  imports Proto JsonText
begin

text \<open>
  \<open>crates/anago/src/client.rs\<close>: the HTTPS client that \<open>join\<close>, \<open>sync\<close>, \<open>ls\<close>, \<open>rm\<close> and the Cloudflare
  calls share. Building a request and reading a response are functions over bytes; the socket, the
  name resolution and TLS are the environment \<open>client_env\<close> of \<open>http_send\<close>.
\<close>

section \<open>Errors\<close>

text \<open>Durations are counts of nanoseconds; \<open>Duration::as_secs\<close> divides.\<close>

definition SECOND :: nat where "SECOND = 1000000000"
definition CONNECT_TIMEOUT :: nat where "CONNECT_TIMEOUT = 10 * SECOND"
definition READ_TIMEOUT :: nat where "READ_TIMEOUT = 30 * SECOND"
definition MAX_RESPONSE :: nat where "MAX_RESPONSE = 1048576"
definition JSON_TYPE :: rstr where "JSON_TYPE = lit ''application/json''"

datatype client_error =
    BadHeaderValue rstr
  | BadHost rstr
  | Resolve rstr rstr
  | Connect rstr rstr
  | TlsFailed rstr
  | ClientIo rstr
  | Timeout rstr nat
  | TooLarge nat
  | NoRoots
  | BadResponse rstr

fun client_error_show :: "unicode \<Rightarrow> client_error \<Rightarrow> rstr" where
  "client_error_show u (BadHeaderValue why) = lit ''that credential cannot be sent as a header: '' @ why"
| "client_error_show u (BadHost host) =
     debug_str u host @ lit '' is not a hostname a certificate can be checked against''"
| "client_error_show u (Resolve host source) =
     lit ''could not resolve '' @ host @ lit '': '' @ source
     @ lit '' '' @ [0x2014] @ lit '' check that the name has a DNS record''"
| "client_error_show u (Connect address source) =
     lit ''could not reach '' @ address @ lit '': '' @ source
     @ lit '' '' @ [0x2014] @ lit '' check that the port is open''"
| "client_error_show u (TlsFailed detail) =
     lit ''TLS failed: '' @ detail @ lit '' '' @ [0x2014]
     @ lit '' if that was your hub and it uses a private CA (a Cloudflare origin certificate, say), install that CA on this device''"
| "client_error_show u (ClientIo detail) = lit ''the connection broke: '' @ detail"
| "client_error_show u (Timeout what after) =
     lit ''timed out after '' @ dec_nat (after div SECOND) @ lit ''s '' @ what
     @ lit '' '' @ [0x2014] @ lit '' the connection was accepted but the request was not answered''"
| "client_error_show u (TooLarge limit) = lit ''the answer is larger than '' @ dec_nat limit @ lit '' bytes''"
| "client_error_show u NoRoots =
     lit ''this machine has no CA certificates installed, so the server cannot be verified''"
| "client_error_show u (BadResponse what) = lit ''the answer made no sense: '' @ what"

section \<open>Requests\<close>

datatype http_method = Get | Post | Patch | Delete

fun method_str :: "http_method \<Rightarrow> rstr" where
  "method_str Get = lit ''GET''"
| "method_str Post = lit ''POST''"
| "method_str Patch = lit ''PATCH''"
| "method_str Delete = lit ''DELETE''"

datatype header_value = HeaderValue (header_value_str: rstr)

text \<open>\<open>char::is_control\<close> is the general category Cc.\<close>

definition is_control :: "rchar \<Rightarrow> bool" where
  "is_control c \<longleftrightarrow> c < 32 \<or> (127 \<le> c \<and> c < 160)"

definition header_value_parse :: "rstr \<Rightarrow> client_error + header_value" where
  "header_value_parse v =
    (if v = [] then Inl (BadHeaderValue (lit ''it is empty''))
     else if 13 \<in> set v \<or> 10 \<in> set v then
       Inl (BadHeaderValue (lit ''it contains a line break '' @ [0x2014] @ lit '' check for a trailing newline''))
     else if \<exists>c \<in> set v. c \<noteq> 9 \<and> (is_control c \<or> \<not> c < 0x80) then
       Inl (BadHeaderValue (lit ''it contains a character that is not printable ASCII''))
     else Inr (HeaderValue v))"

definition bearer :: "rstr \<Rightarrow> client_error + header_value" where
  "bearer secret = header_value_parse (lit ''Bearer '' @ secret)"

definition device_header :: "rstr \<Rightarrow> header_value" where
  "device_header token = HeaderValue (lit ''Bearer '' @ token)"

record request_body =
  rb_content_type :: rstr
  rb_content :: rstr

definition json_body :: "rstr \<Rightarrow> request_body" where
  "json_body content = \<lparr>rb_content_type = JSON_TYPE, rb_content = content\<rparr>"

record client_request =
  rq_method :: http_method
  rq_host :: rstr
  rq_port :: "16 word"
  rq_path :: rstr
  rq_body :: "request_body option"
  rq_authorization :: "header_value option"

definition host_header :: "rstr \<Rightarrow> 16 word \<Rightarrow> rstr" where
  "host_header host port = (if port = 443 then host else host @ [58] @ dec_nat (unat port))"

definition crlf :: rstr where "crlf = [13, 10]"

definition VERSION_TEXT :: rstr where "VERSION_TEXT = lit ''0.0.1''"

definition request_head :: "client_request \<Rightarrow> rstr" where
  "request_head r =
    method_str (rq_method r) @ lit '' '' @ rq_path r @ lit '' HTTP/1.1'' @ crlf
    @ lit ''Host: '' @ host_header (rq_host r) (rq_port r) @ crlf
    @ lit ''User-Agent: anago/'' @ VERSION_TEXT @ crlf
    @ lit ''Accept: application/json'' @ crlf
    @ lit ''Connection: close'' @ crlf
    @ (case rq_authorization r of
         None \<Rightarrow> [] | Some h \<Rightarrow> lit ''Authorization: '' @ header_value_str h @ crlf)
    @ (case rq_body r of
         None \<Rightarrow> []
       | Some b \<Rightarrow> lit ''Content-Type: '' @ rb_content_type b @ crlf
           @ lit ''Content-Length: '' @ dec_nat (length (utf8 (rb_content b))) @ crlf)
    @ crlf"

definition request_bytes :: "client_request \<Rightarrow> u8 list" where
  "request_bytes r =
    utf8 (request_head r) @ (case rq_body r of None \<Rightarrow> [] | Some b \<Rightarrow> utf8 (rb_content b))"

definition hex_upper :: "nat \<Rightarrow> rchar" where
  "hex_upper d = (if d < 10 then 48 + d else 55 + d)"

definition is_unreserved :: "nat \<Rightarrow> bool" where
  "is_unreserved c \<longleftrightarrow> is_lower c \<or> is_upper c \<or> is_digit c \<or> c = 45 \<or> c = 95 \<or> c = 46 \<or> c = 126"

definition encode_segment :: "rstr \<Rightarrow> rstr" where
  "encode_segment s = concat (map (\<lambda>b.
     if is_unreserved (unat b) then [unat b]
     else [37, hex_upper (unat b div 16), hex_upper (unat b mod 16)]) (utf8 s))"

section \<open>Responses\<close>

record client_response =
  cr_status :: nat
  cr_headers :: "(rstr \<times> rstr) list"
  cr_body :: rstr

definition is_success :: "client_response \<Rightarrow> bool" where
  "is_success r \<longleftrightarrow> 200 \<le> cr_status r \<and> cr_status r < 300"

definition response_header :: "client_response \<Rightarrow> rstr \<Rightarrow> rstr option" where
  "response_header r name =
    map_option snd (List.find (\<lambda>(key, _). key = map ascii_lower name) (cr_headers r))"

text \<open>The position of the first empty line, \<open>bytes.windows(4).position\<close>.\<close>

fun find_blank :: "u8 list \<Rightarrow> nat option" where
  "find_blank [] = None"
| "find_blank (b # bs) =
    (if take 4 (b # bs) = [13, 10, 13, 10] then Some 0 else map_option Suc (find_blank bs))"

definition parse_headers :: "rstr \<Rightarrow> (rstr \<times> rstr) list" where
  "parse_headers head =
    map (\<lambda>(name, v). (map ascii_lower (trim name), trim v))
      (List.map_filter (split_once 58) (drop 1 (lines head)))"

definition parse_response :: "u8 list \<Rightarrow> client_error + client_response" where
  "parse_response bytes =
    attempt (ok_or (BadResponse (lit ''no end of headers'')) (find_blank bytes)) (\<lambda>split.
    attempt (ok_or (BadResponse (lit ''headers are not UTF-8'')) (utf8_decode (take split bytes))) (\<lambda>head.
    attempt (ok_or (BadResponse (lit ''the body is not UTF-8'')) (utf8_decode (drop (split + 4) bytes))) (\<lambda>body.
      let status_line = (case lines head of [] \<Rightarrow> [] | l # _ \<Rightarrow> l);
          parts = split_on 32 status_line
      in
      if strip_prefix (lit ''HTTP/1.'') (hd parts) = None then Inl (BadResponse (lit ''not an HTTP/1.x response''))
      else attempt (ok_or (BadResponse (lit ''no status code''))
          (case tl parts of [] \<Rightarrow> None | code # _ \<Rightarrow> parse_unsigned 65535 code)) (\<lambda>status.
        let headers = parse_headers head in
        if \<exists>(name, _) \<in> set headers. name = lit ''transfer-encoding'' then
          Inl (BadResponse (lit ''chunked responses are not supported''))
        else Inr \<lparr>cr_status = status, cr_headers = headers, cr_body = body\<rparr>))))"

definition parse_bounded :: "u8 list \<Rightarrow> client_error + client_response" where
  "parse_bounded bytes =
    (if MAX_RESPONSE < length bytes then Inl (TooLarge MAX_RESPONSE) else parse_response bytes)"

record failure =
  fl_code :: "error_code option"
  fl_message :: rstr

definition describe :: "unicode \<Rightarrow> nat \<Rightarrow> rstr \<Rightarrow> failure" where
  "describe u status body =
    (case attempt (map_err (\<lambda>_. ()) (json_parse u body)) (\<lambda>v. map_err (\<lambda>_. ()) (api_error_from_json v)) of
       Inr e \<Rightarrow> \<lparr>fl_code = Some (ae_code e), fl_message = ae_message e\<rparr>
     | Inl _ \<Rightarrow> \<lparr>fl_code = None, fl_message = lit ''HTTP '' @ dec_nat status @ lit '': '' @ trim body\<rparr>)"

section \<open>A call\<close>

text \<open>
  An I/O error as the code looks at it: the TLS error inside it, its kind and its text.
\<close>

datatype io_error_kind = TimedOut | WouldBlock | InvalidData | OtherKind

record io_failure =
  if_tls :: "rstr option"
  if_kind :: io_error_kind
  if_text :: rstr

definition tls_reason :: "io_failure \<Rightarrow> rstr option" where
  "tls_reason e =
    (case if_tls e of
       Some reason \<Rightarrow> Some reason
     | None \<Rightarrow> if if_kind e = InvalidData then Some (if_text e) else None)"

definition io_error :: "rstr \<Rightarrow> io_failure \<Rightarrow> client_error" where
  "io_error what e =
    (case tls_reason e of
       Some reason \<Rightarrow> TlsFailed reason
     | None \<Rightarrow>
         if if_kind e = TimedOut \<or> if_kind e = WouldBlock then Timeout what READ_TIMEOUT
         else ClientIo (what @ lit '': '' @ if_text e))"

text \<open>
  \<open>attempt_budget\<close>: the cast to \<open>u32\<close> wraps, and a division by zero panics. None is the panic.
\<close>

definition attempt_budget :: "nat \<Rightarrow> nat \<Rightarrow> nat option" where
  "attempt_budget remaining addresses_left =
    (if addresses_left \<le> 1 then Some remaining
     else let n = addresses_left mod 2 ^ 32 in
       if n = 0 then None else Some (remaining div n))"

record client_env =
  ce_roots :: nat
  ce_versions :: "rstr + unit"
  ce_name_ok :: "rstr \<Rightarrow> bool"
  ce_connection :: "rstr + unit"
  ce_resolve :: "rstr + rstr list"
  ce_now :: "nat \<Rightarrow> nat"
  ce_connect :: "nat \<Rightarrow> nat \<Rightarrow> rstr + unit"
  ce_timeouts :: "rstr + unit"
  ce_write :: "io_failure + unit"
  ce_flush :: "io_failure + unit"
  ce_answer :: "u8 list \<Rightarrow> io_failure + u8 list"

definition tls_client_config :: "client_env \<Rightarrow> client_error + unit" where
  "tls_client_config env =
    (if ce_roots env = 0 then Inl NoRoots else map_err TlsFailed (ce_versions env))"

text \<open>
  The loop of \<open>connect_any\<close> over the addresses from index \<open>i\<close> on; \<open>ce_now env 0\<close> is the clock when
  the deadline is set, \<open>ce_now env (i + 1)\<close> before attempt \<open>i\<close>. The result is the index of the address
  that answered, or the last failure.
\<close>

fun connect_loop ::
  "client_env \<Rightarrow> nat \<Rightarrow> nat \<Rightarrow> rstr list \<Rightarrow> (rstr \<times> rstr) option \<Rightarrow> ((rstr \<times> rstr) option + nat) option"
where
  "connect_loop env deadline i [] failed = Some (Inl failed)"
| "connect_loop env deadline i (address # rest) failed =
    (case attempt_budget (deadline - ce_now env (i + 1)) (length (address # rest)) of
       None \<Rightarrow> None
     | Some budget \<Rightarrow>
         if budget = 0 then Some (Inl failed)
         else (case ce_connect env i budget of
             Inr _ \<Rightarrow> Some (Inr i)
           | Inl e \<Rightarrow> connect_loop env deadline (i + 1) rest (Some (address, e))))"

definition connect_any :: "client_env \<Rightarrow> rstr list \<Rightarrow> (client_error + nat) option" where
  "connect_any env addresses =
    map_option (map_err (\<lambda>failed.
      case (case failed of
              Some f \<Rightarrow> f
            | None \<Rightarrow> (hd addresses,
                lit ''timed out after '' @ dec_nat (CONNECT_TIMEOUT div SECOND) @ lit ''s'')) of
        (address, source) \<Rightarrow>
          Connect (if 1 < length addresses
             then address @ lit '' (and '' @ dec_nat (length addresses - 1) @ lit '' other address(es))''
             else address) source))
      (connect_loop env (ce_now env 0 + CONNECT_TIMEOUT) 0 addresses None)"

definition http_send :: "client_env \<Rightarrow> client_request \<Rightarrow> (client_error + client_response) option" where
  "http_send env r =
    (case attempt (tls_client_config env) (\<lambda>_.
          if \<not> ce_name_ok env (rq_host r) then Inl (BadHost (rq_host r))
          else attempt (map_err TlsFailed (ce_connection env)) (\<lambda>_.
            attempt (map_err (Resolve (rq_host r)) (ce_resolve env)) (\<lambda>addresses.
              if addresses = [] then Inl (Resolve (rq_host r) (lit ''no addresses''))
              else Inr addresses))) of
       Inl e \<Rightarrow> Some (Inl e)
     | Inr addresses \<Rightarrow>
         map_option (\<lambda>socket.
           attempt socket (\<lambda>_.
           attempt (map_err (Connect (rq_host r)) (ce_timeouts env)) (\<lambda>_.
           attempt (map_err (io_error (lit ''sending the request'')) (ce_write env)) (\<lambda>_.
           attempt (map_err (io_error (lit ''sending the request'')) (ce_flush env)) (\<lambda>_.
           attempt (map_err (io_error (lit ''waiting for the answer'')) (ce_answer env (request_bytes r))) (\<lambda>stream.
             parse_bounded (take (MAX_RESPONSE + 1) stream)))))))
           (connect_any env addresses))"

section \<open>Header values\<close>

lemma header_value_parse_iff:
  "header_value_parse v = Inr h \<longleftrightarrow> h = HeaderValue v \<and> v \<noteq> [] \<and> (\<forall>c \<in> set v. c = 9 \<or> (32 \<le> c \<and> c < 127))"
proof -
  have "(c = 9 \<or> 32 \<le> c \<and> c < 127) \<longleftrightarrow> c \<noteq> 13 \<and> c \<noteq> 10 \<and> \<not> (c \<noteq> 9 \<and> (is_control c \<or> \<not> c < 0x80))" for c :: nat
    unfolding is_control_def by auto
  then show ?thesis by (auto simp: header_value_parse_def)
qed

section \<open>Path segments\<close>

text \<open>A reader of percent-encoded text: RFC 3986, section 2.1.\<close>

definition hex_of :: "rchar \<Rightarrow> nat option" where
  "hex_of c = (if is_digit c then Some (c - 48) else if 65 \<le> c \<and> c \<le> 70 then Some (c - 55)
     else if 97 \<le> c \<and> c \<le> 102 then Some (c - 87) else None)"

fun percent_decode :: "rstr \<Rightarrow> u8 list option" where
  "percent_decode [] = Some []"
| "percent_decode (c # s) =
    (if c \<noteq> 37 then (if c < 0x80 then map_option ((#) (byte c)) (percent_decode s) else None)
     else case s of
       a # b # rest \<Rightarrow>
         (case (hex_of a, hex_of b) of
            (Some x, Some y) \<Rightarrow> map_option ((#) (byte (x * 16 + y))) (percent_decode rest)
          | _ \<Rightarrow> None)
     | _ \<Rightarrow> None)"

lemma hex_of_upper: "d < 16 \<Longrightarrow> hex_of (hex_upper d) = Some d"
  by (auto simp: hex_of_def hex_upper_def is_digit_def)

lemma unreserved_ascii: "is_unreserved c \<Longrightarrow> c < 0x80 \<and> c \<noteq> 37"
  by (auto simp: is_unreserved_def char_class_defs)

definition encode_byte :: "u8 \<Rightarrow> rstr" where
  "encode_byte b = (if is_unreserved (unat b) then [unat b]
     else [37, hex_upper (unat b div 16), hex_upper (unat b mod 16)])"

lemma percent_decode_byte: "percent_decode (encode_byte b @ s) = map_option ((#) b) (percent_decode s)"
proof (cases "is_unreserved (unat b)")
  case True
  then show ?thesis using unreserved_ascii by (simp add: encode_byte_def)
next
  case False
  have "unat b div 16 < 16" using unat_u8_less [of b] by linarith
  then have "hex_of (hex_upper (unat b div 16)) = Some (unat b div 16)"
    "hex_of (hex_upper (unat b mod 16)) = Some (unat b mod 16)" by (simp_all add: hex_of_upper)
  with False show ?thesis by (simp add: encode_byte_def)
qed

lemma encode_segment_bytes: "encode_segment s = concat (map encode_byte (utf8 s))"
  by (simp add: encode_segment_def encode_byte_def cong: map_cong)

lemma percent_decode_encode: "percent_decode (encode_segment s) = Some (utf8 s)"
proof -
  have "percent_decode (concat (map encode_byte bs)) = Some bs" for bs
    by (induction bs) (simp_all add: percent_decode_byte)
  then show ?thesis by (simp add: encode_segment_bytes)
qed

lemma encode_segment_plain: "c \<in> set (encode_segment s) \<Longrightarrow> c = 37 \<or> is_unreserved c"
proof -
  have "is_unreserved (hex_upper d)" if "d < 16" for d
    using that by (auto simp: is_unreserved_def hex_upper_def char_class_defs)
  moreover have "unat b div 16 < 16" for b :: u8 using unat_u8_less [of b] by linarith
  ultimately show "c \<in> set (encode_segment s) \<Longrightarrow> c = 37 \<or> is_unreserved c"
    by (auto simp: encode_segment_def split: if_splits)
qed

section \<open>Lines on the wire\<close>

definition crlf_bytes :: "u8 list" where "crlf_bytes = [13, 10]"

lemma utf8_crlf [simp]: "utf8 crlf = crlf_bytes"
  by (simp add: crlf_def crlf_bytes_def byte_def)

lemma find_blank_skip:
  "13 \<notin> set l \<Longrightarrow> find_blank (l @ bs) = map_option ((+) (length l)) (find_blank bs)"
proof (induction l)
  case Nil
  then show ?case by (cases "find_blank bs") simp_all
next
  case (Cons b l)
  then show ?case by (cases "find_blank bs") auto
qed

lemma find_blank_line:
  assumes "13 \<notin> set l" "l \<noteq> []"
  shows "find_blank (crlf_bytes @ l @ bs) = map_option ((+) (2 + length l)) (find_blank bs)"
proof -
  from assms obtain b l' where l: "l = b # l'" "b \<noteq> 13" by (cases l) auto
  then have "find_blank (crlf_bytes @ l @ bs) = map_option (Suc \<circ> Suc) (find_blank (l @ bs))"
    by (simp add: crlf_bytes_def option.map_comp comp_assoc)
  also have "\<dots> = map_option ((+) (2 + length l)) (find_blank bs)"
    by (cases "find_blank bs") (simp_all add: find_blank_skip [OF assms(1)])
  finally show ?thesis .
qed

text \<open>Lines crlf_joined by line ends; the head of a message is such a text.\<close>

definition crlf_joined :: "u8 list \<Rightarrow> u8 list list \<Rightarrow> u8 list" where
  "crlf_joined first others = first @ concat (map (\<lambda>l. crlf_bytes @ l) others)"

lemma find_blank_joined:
  assumes "13 \<notin> set first" "\<forall>l \<in> set others. 13 \<notin> set l \<and> l \<noteq> []"
  shows "find_blank (crlf_joined first others @ crlf_bytes @ crlf_bytes @ body) = Some (length (crlf_joined first others))"
proof -
  have "find_blank (concat (map (\<lambda>l. crlf_bytes @ l) others) @ crlf_bytes @ crlf_bytes @ body)
      = Some (length (concat (map (\<lambda>l. crlf_bytes @ l) others)))"
    using assms(2)
  proof (induction others)
    case Nil
    show ?case by (simp add: crlf_bytes_def)
  next
    case (Cons l others)
    then show ?case
      using find_blank_line [of l "concat (map (\<lambda>l. crlf_bytes @ l) others) @ crlf_bytes @ crlf_bytes @ body"]
      by (simp add: crlf_bytes_def)
  qed
  then show ?thesis using find_blank_skip [OF assms(1)] by (simp add: crlf_joined_def)
qed

text \<open>A byte below 0x80 stands in the encoding only where its character does.\<close>

lemma byte13_utf8: "valid_str s \<Longrightarrow> (13 :: u8) \<in> set (utf8 s) \<longleftrightarrow> 13 \<in> set s"
proof (induction s)
  case (Cons c s)
  have "(13 :: u8) \<in> set (utf8_char c) \<longleftrightarrow> c = 13"
  proof (cases "c < 0x80")
    case True
    then have "(13 :: u8) \<in> set (utf8_char c) \<longleftrightarrow> byte 13 = byte c" by (simp add: byte_def)
    also have "\<dots> \<longleftrightarrow> c = 13" using True byte_inject [of 13 c] by auto
    finally show ?thesis .
  next
    case False
    then show ?thesis using utf8_char_high [of c "13 :: u8"] Cons.prems by auto
  qed
  with Cons show ?case by auto
qed simp

text \<open>A reader of messages: the lines before the empty line, and what follows it.\<close>

fun crlf_split :: "u8 list \<Rightarrow> u8 list list" where
  "crlf_split [] = [[]]"
| "crlf_split [b] = [[b]]"
| "crlf_split (b # c # bs) =
    (if b = 13 \<and> c = 10 then [] # crlf_split bs
     else (b # hd (crlf_split (c # bs))) # tl (crlf_split (c # bs)))"

definition split_message :: "u8 list \<Rightarrow> (u8 list list \<times> u8 list) option" where
  "split_message bytes =
    map_option (\<lambda>n. (crlf_split (take n bytes), drop (n + 4) bytes)) (find_blank bytes)"

lemma crlf_split_nonempty [simp]: "crlf_split bs \<noteq> []"
  by (induction bs rule: crlf_split.induct) auto

lemma crlf_split_line: "13 \<notin> set l \<Longrightarrow> crlf_split (l @ crlf_bytes @ bs) = l # crlf_split bs"
proof (induction l)
  case Nil
  then show ?case by (simp add: crlf_bytes_def)
next
  case (Cons b l)
  obtain c cs where c: "l @ crlf_bytes @ bs = c # cs" by (cases l) (simp_all add: crlf_bytes_def)
  with Cons show ?case by auto
qed

lemma crlf_split_plain: "13 \<notin> set l \<Longrightarrow> crlf_split l = [l]"
  by (induction l rule: crlf_split.induct) auto

lemma crlf_split_joined:
  "13 \<notin> set first \<Longrightarrow> \<forall>l \<in> set others. 13 \<notin> set l \<Longrightarrow> crlf_split (crlf_joined first others) = first # others"
proof (induction others arbitrary: first)
  case Nil
  then show ?case by (simp add: crlf_joined_def crlf_split_plain)
next
  case (Cons l others)
  have "crlf_joined first (l # others) = first @ crlf_bytes @ crlf_joined l others" by (simp add: crlf_joined_def)
  with Cons show ?case by (simp add: crlf_split_line)
qed

lemma split_message_joined:
  assumes "13 \<notin> set first" "\<forall>l \<in> set others. 13 \<notin> set l \<and> l \<noteq> []"
  shows "split_message (crlf_joined first others @ crlf_bytes @ crlf_bytes @ body) = Some (first # others, body)"
  using find_blank_joined [OF assms] crlf_split_joined [OF assms(1), of others] assms(2)
  by (simp add: split_message_def crlf_bytes_def)

section \<open>Requests on the wire\<close>

definition wire_line :: "rstr \<Rightarrow> bool" where
  "wire_line s \<longleftrightarrow> valid_str s \<and> 13 \<notin> set s \<and> 10 \<notin> set s"

text \<open>The lines a request is meant to have.\<close>

definition request_line :: "client_request \<Rightarrow> rstr" where
  "request_line r = method_str (rq_method r) @ lit '' '' @ rq_path r @ lit '' HTTP/1.1''"

definition request_fields :: "client_request \<Rightarrow> rstr list" where
  "request_fields r =
    [lit ''Host: '' @ host_header (rq_host r) (rq_port r), lit ''User-Agent: anago/'' @ VERSION_TEXT,
     lit ''Accept: application/json'', lit ''Connection: close'']
    @ (case rq_authorization r of None \<Rightarrow> [] | Some h \<Rightarrow> [lit ''Authorization: '' @ header_value_str h])
    @ (case rq_body r of
         None \<Rightarrow> []
       | Some b \<Rightarrow> [lit ''Content-Type: '' @ rb_content_type b,
           lit ''Content-Length: '' @ dec_nat (length (utf8 (rb_content b)))])"

definition request_content :: "client_request \<Rightarrow> u8 list" where
  "request_content r = (case rq_body r of None \<Rightarrow> [] | Some b \<Rightarrow> utf8 (rb_content b))"

definition request_ok :: "client_request \<Rightarrow> bool" where
  "request_ok r \<longleftrightarrow> wire_line (rq_path r) \<and> wire_line (rq_host r)
     \<and> (case rq_authorization r of None \<Rightarrow> True | Some h \<Rightarrow> header_value_parse (header_value_str h) = Inr h)
     \<and> (case rq_body r of None \<Rightarrow> True | Some b \<Rightarrow> wire_line (rb_content_type b))"

lemma utf8_nonempty_line: "l \<noteq> [] \<Longrightarrow> utf8 l \<noteq> []"
  by (cases l) simp_all

lemma wire_line_append [simp]: "wire_line (s @ t) \<longleftrightarrow> wire_line s \<and> wire_line t"
  by (auto simp: wire_line_def)

lemma wire_line_dec [simp]: "wire_line (dec_nat n)"
  by (simp add: wire_line_def is_digit_def)

lemma wire_line_Cons [simp]: "wire_line (c # s) \<longleftrightarrow> scalar c \<and> c \<noteq> 13 \<and> c \<noteq> 10 \<and> wire_line s"
  by (auto simp: wire_line_def)

lemma wire_line_Nil [simp]: "wire_line []"
  by (simp add: wire_line_def)

lemma plain_method [simp]: "wire_line (method_str m)"
  by (cases m) (simp_all add: lit_Cons)

lemma plain_header_value: "header_value_parse v = Inr h \<Longrightarrow> wire_line v"
  by (auto simp: header_value_parse_iff wire_line_def valid_str_def list_all_iff scalar_def)

lemma plain_request_line: "request_ok r \<Longrightarrow> wire_line (request_line r)"
  by (simp add: request_ok_def request_line_def lit_Cons)

lemma plain_request_fields: "request_ok r \<Longrightarrow> l \<in> set (request_fields r) \<Longrightarrow> wire_line l \<and> l \<noteq> []"
  by (auto simp: request_ok_def request_fields_def lit_Cons host_header_def VERSION_TEXT_def dest: plain_header_value
      split: option.splits)

lemma utf8_concat_lines:
  "utf8 (concat (map (\<lambda>l. crlf @ l) ls)) = concat (map (\<lambda>l. crlf_bytes @ l) (map utf8 ls))"
  by (induction ls) simp_all

lemma request_head_lines: "request_head r = request_line r @ concat (map (\<lambda>l. crlf @ l) (request_fields r)) @ crlf @ crlf"
  by (simp add: request_head_def request_line_def request_fields_def split: option.splits)

lemma request_bytes_joined:
  "request_bytes r = crlf_joined (utf8 (request_line r)) (map utf8 (request_fields r)) @ crlf_bytes @ crlf_bytes @ request_content r"
  by (simp add: request_bytes_def request_head_lines utf8_concat_lines crlf_joined_def request_content_def)

lemma wire_line_bytes: "wire_line l \<Longrightarrow> (13 :: u8) \<notin> set (utf8 l)"
  by (simp add: wire_line_def byte13_utf8)

lemma request_on_the_wire:
  assumes "request_ok r"
  shows "split_message (request_bytes r) = Some (map utf8 (request_line r # request_fields r), request_content r)"
proof -
  have "13 \<notin> set (utf8 (request_line r))" using plain_request_line [OF assms] by (rule wire_line_bytes)
  moreover have "\<forall>l \<in> set (map utf8 (request_fields r)). 13 \<notin> set l \<and> l \<noteq> []"
    using plain_request_fields [OF assms] wire_line_bytes utf8_nonempty_line by auto
  ultimately show ?thesis by (simp add: request_bytes_joined split_message_joined)
qed

section \<open>Responses on the wire\<close>

definition status_line :: "nat \<Rightarrow> rstr \<Rightarrow> rstr" where
  "status_line status reason = lit ''HTTP/1.1 '' @ dec_nat status @ lit '' '' @ reason"

definition field_line :: "rstr \<times> rstr \<Rightarrow> rstr" where
  "field_line f = fst f @ [58] @ snd f"

definition response_wire :: "nat \<Rightarrow> rstr \<Rightarrow> (rstr \<times> rstr) list \<Rightarrow> u8 list \<Rightarrow> u8 list" where
  "response_wire status reason fs body =
     crlf_joined (utf8 (status_line status reason)) (map (utf8 \<circ> field_line) fs) @ crlf_bytes @ crlf_bytes @ body"

definition field_ok :: "rstr \<times> rstr \<Rightarrow> bool" where
  "field_ok f \<longleftrightarrow> wire_line (fst f) \<and> wire_line (snd f) \<and> 58 \<notin> set (fst f)"

definition field_read :: "rstr \<times> rstr \<Rightarrow> rstr \<times> rstr" where
  "field_read f = (map ascii_lower (trim (fst f)), trim (snd f))"

lemma lines_plain: "wire_line l \<Longrightarrow> l \<noteq> [] \<Longrightarrow> lines l = [l]"
  by (simp add: wire_line_def lines_def)

lemma lines_crlf: "wire_line l \<Longrightarrow> lines (l @ crlf @ s) = l # lines s"
  using lines_Cons [of "l @ [13]" s] by (simp add: crlf_def wire_line_def strip_cr_def)

lemma lines_joined:
  assumes "wire_line l" "l \<noteq> []" "\<forall>k \<in> set ls. wire_line k \<and> k \<noteq> []"
  shows "lines (l @ concat (map (\<lambda>k. crlf @ k) ls)) = l # ls"
  using assms
proof (induction ls arbitrary: l)
  case (Cons k ls)
  have "lines (l @ crlf @ k @ concat (map (\<lambda>k. crlf @ k) ls)) = l # lines (k @ concat (map (\<lambda>k. crlf @ k) ls))"
    by (rule lines_crlf) (rule Cons.prems)
  with Cons show ?case by simp
qed (simp add: lines_plain)

lemma map_filter_field_lines:
  "\<forall>f \<in> set fs. field_ok f \<Longrightarrow> List.map_filter (split_once 58) (map field_line fs) = fs"
  by (induction fs)
    (auto simp: List.map_filter_simps field_line_def field_ok_def split_once_append [of 58 "fst f" "snd f" for f, simplified])

lemma parse_response_wire:
  assumes status: "status \<le> 65535" and reason: "wire_line reason" and fs: "\<forall>f \<in> set fs. field_ok f"
  shows "parse_response (response_wire status reason fs body) =
    (case utf8_decode body of
       None \<Rightarrow> Inl (BadResponse (lit ''the body is not UTF-8''))
     | Some text \<Rightarrow>
         if \<exists>f \<in> set fs. map ascii_lower (trim (fst f)) = lit ''transfer-encoding''
         then Inl (BadResponse (lit ''chunked responses are not supported''))
         else Inr \<lparr>cr_status = status, cr_headers = map field_read fs, cr_body = text\<rparr>)"
proof -
  let ?line = "status_line status reason"
  let ?head = "?line @ concat (map (\<lambda>k. crlf @ k) (map field_line fs))"
  have plain: "wire_line ?line" "?line \<noteq> []" using reason by (simp_all add: status_line_def lit_Cons)
  have lines: "\<forall>k \<in> set (map field_line fs). wire_line k \<and> k \<noteq> []"
    using fs by (auto simp: field_ok_def field_line_def)
  have head: "crlf_joined (utf8 ?line) (map (utf8 \<circ> field_line) fs) = utf8 ?head"
    by (simp add: crlf_joined_def utf8_concat_lines del: map_map) (simp add: comp_def)
  have valid: "valid_str ?head"
  proof -
    have "wire_line crlf \<or> valid_str crlf" by (simp add: crlf_def)
    then show ?thesis using plain lines by (auto simp: wire_line_def valid_str_def list_all_iff crlf_def)
  qed
  have "13 \<notin> set (utf8 ?line)" "\<forall>l \<in> set (map (utf8 \<circ> field_line) fs). 13 \<notin> set l \<and> l \<noteq> []"
    using plain lines wire_line_bytes utf8_nonempty_line by auto
  then have blank: "find_blank (response_wire status reason fs body) = Some (length (utf8 ?head))"
    using find_blank_joined [of "utf8 ?line" "map (utf8 \<circ> field_line) fs" body] head
    by (simp add: response_wire_def)
  have parts: "take (length (utf8 ?head)) (response_wire status reason fs body) = utf8 ?head"
    "drop (length (utf8 ?head) + 4) (response_wire status reason fs body) = body"
    by (simp_all add: response_wire_def head crlf_bytes_def)
  have read: "lines ?head = ?line # map field_line fs" by (rule lines_joined [OF plain lines])
  have split: "split_on 32 ?line = lit ''HTTP/1.1'' # dec_nat status # split_on 32 reason"
    by (simp add: status_line_def lit_Cons is_digit_def)
  have headers: "parse_headers ?head = map field_read fs"
    by (simp only: parse_headers_def read) (simp add: map_filter_field_lines [OF fs] field_read_def split_def)
  show ?thesis
    unfolding parse_response_def blank ok_or_Some attempt_Inr parts utf8_decode_utf8 [OF valid] read headers
    using status by (cases "utf8_decode body") (simp_all add: split strip_prefix_def lit_Cons field_read_def)
qed

section \<open>Connecting\<close>

text \<open>What attempt \<open>j\<close> of \<open>n\<close> gets, and an environment in which no attempt takes longer than that.\<close>

definition share :: "client_env \<Rightarrow> nat \<Rightarrow> nat \<Rightarrow> nat \<Rightarrow> nat" where
  "share env deadline n j = (deadline - ce_now env (j + 1)) div (n - j)"

definition punctual :: "client_env \<Rightarrow> nat \<Rightarrow> nat \<Rightarrow> bool" where
  "punctual env deadline n \<longleftrightarrow>
     (\<forall>j < n. ce_now env (j + 2) \<le> ce_now env (j + 1) + share env deadline n j)"

lemma attempt_budget_share:
  "j < n \<Longrightarrow> n < 2 ^ 32 \<Longrightarrow>
    attempt_budget (deadline - ce_now env (j + 1)) (n - j) = Some (share env deadline n j)"
  by (cases "n - j \<le> 1") (auto simp: attempt_budget_def share_def Let_def le_Suc_eq)

lemma remaining_share: "k * m \<le> (r :: nat) \<Longrightarrow> k * (m - 1) \<le> r - r div m"
proof (cases "m = 0")
  case False
  assume k: "k * m \<le> r"
  have "r div m * m \<le> r" by simp
  then have "r div m * m - r div m \<le> r - r div m" by (rule diff_le_mono)
  then have "r div m * (m - 1) \<le> r - r div m" by (simp add: diff_mult_distrib2)
  moreover have "k \<le> r div m" using k False by (simp add: less_eq_div_iff_mult_less_eq)
  ultimately show ?thesis by (meson le_trans mult_le_mono1)
qed simp

lemma share_at_least:
  assumes "k * (n - j) \<le> deadline - ce_now env (j + 1)" "j < n"
  shows "k \<le> share env deadline n j"
  using assms by (simp add: share_def less_eq_div_iff_mult_less_eq)

lemma connect_loop_tries_all:
  assumes "punctual env deadline n" "n < 2 ^ 32" "1 \<le> k" "i + length addresses = n"
    and "k * length addresses \<le> deadline - ce_now env (i + 1)"
  shows "connect_loop env deadline i addresses failed =
      Some (case List.find (\<lambda>j. \<not> isl (ce_connect env j (share env deadline n j))) [i..<n] of
          Some j \<Rightarrow> Inr j
        | None \<Rightarrow> Inl (if addresses = [] then failed
            else Some (last addresses, projl (ce_connect env (n - 1) (share env deadline n (n - 1))))))
    \<and> (\<forall>j \<in> {i..<n}. k \<le> share env deadline n j)"
  using assms(4,5)
proof (induction addresses arbitrary: i failed)
  case Nil
  then show ?case by simp
next
  case (Cons a rest)
  let ?b = "share env deadline n i"
  have i: "i < n" "length (a # rest) = n - i" using Cons.prems(1) by auto
  have b: "attempt_budget (deadline - ce_now env (i + 1)) (length (a # rest)) = Some ?b"
    unfolding i(2) by (rule attempt_budget_share [OF i(1) assms(2)])
  have k: "k \<le> ?b" using Cons.prems(2) i(1) by (intro share_at_least) (simp_all only: i(2))
  then have pos: "?b \<noteq> 0" using assms(3) by simp
  have upt: "[i..<n] = i # [i + 1..<n]" using i(1) by (simp add: upt_conv_Cons)
  have "ce_now env (i + 2) \<le> ce_now env (i + 1) + ?b" using assms(1) i(1) by (simp add: punctual_def)
  then have "(deadline - ce_now env (i + 1)) - ?b \<le> deadline - ce_now env (i + 1 + 1)" by simp
  moreover have "k * (length (a # rest) - 1) \<le> (deadline - ce_now env (i + 1)) - ?b"
    unfolding share_def i(2) [symmetric] by (rule remaining_share) (rule Cons.prems)
  ultimately have rest: "k * length rest \<le> deadline - ce_now env (i + 1 + 1)" by simp
  have IH: "connect_loop env deadline (i + 1) rest (Some (a, e)) =
      Some (case List.find (\<lambda>j. \<not> isl (ce_connect env j (share env deadline n j))) [i + 1..<n] of
          Some j \<Rightarrow> Inr j
        | None \<Rightarrow> Inl (if rest = [] then Some (a, e)
            else Some (last rest, projl (ce_connect env (n - 1) (share env deadline n (n - 1))))))
    \<and> (\<forall>j \<in> {i + 1..<n}. k \<le> share env deadline n j)" for e
    using Cons.prems(1) rest by (intro Cons.IH) simp_all
  have shares: "\<forall>j \<in> {i..<n}. k \<le> share env deadline n j"
  proof
    fix j assume "j \<in> {i..<n}"
    then have "j = i \<or> j \<in> {i + 1..<n}" by auto
    with k IH [of "[]"] show "k \<le> share env deadline n j" by blast
  qed
  show ?case
  proof (cases "ce_connect env i ?b")
    case (Inl e)
    have "rest = [] \<Longrightarrow> n - 1 = i" using i(2) by simp
    moreover have "connect_loop env deadline i (a # rest) failed = connect_loop env deadline (i + 1) rest (Some (a, e))"
      using b pos Inl by simp
    ultimately show ?thesis
      using IH [of e] Inl shares upt by (cases "rest = []") (simp_all del: upt_Suc connect_loop.simps split: option.split)
  next
    case (Inr x)
    then show ?thesis using b pos shares upt by (simp del: upt_Suc)
  qed
qed

section \<open>A call that goes through\<close>

lemma http_send_bounded:
  "http_send env r = Some (Inr resp) \<Longrightarrow>
    \<exists>stream. ce_answer env (request_bytes r) = Inr stream \<and> length stream \<le> MAX_RESPONSE
      \<and> parse_response stream = Inr resp"
  by (auto simp: http_send_def parse_bounded_def result_simps MAX_RESPONSE_def split: sum.splits if_splits)

lemma describe_error:
  assumes "api_error_ok e"
  shows "describe u status (to_string (api_error_to_json e)) = \<lparr>fl_code = Some (ae_code e), fl_message = ae_message e\<rparr>"
  using assms by (simp add: describe_def api_error_codec.parse_written api_error_codec.dec_enc)

end
