(* ===== verification/HubWire.thy ===== *)
theory HubWire
  imports HubSystem HttpClient
begin

text \<open>
  The answers as a client reads them: the body of every 200 decodes, with the decoders of
  \<open>crates/anago-core/src/proto.rs\<close>, to what the hub decided, and the body of every refusal to an
  \<open>ApiError\<close> whose code gives the status.
\<close>

section \<open>Quoted text\<close>

lemma valid_hex_nat: "valid_str (hex_nat n)"
proof (induction n rule: hex_nat.induct)
  case (1 n)
  have "scalar (hex_digit d)" if "d < 16" for d
    using that by (intro scalar_small) (simp add: hex_digit_def)
  with 1 show ?case by (subst hex_nat.simps) auto
qed

lemma valid_escape_debug: "scalar c \<Longrightarrow> valid_str (escape_debug u single double c)"
  by (simp add: escape_debug_def valid_hex_nat)

lemma valid_debug_char [simp]: "scalar c \<Longrightarrow> valid_str (debug_char u c)"
  by (simp add: debug_char_def valid_escape_debug)

lemma valid_concat_map: "(\<And>x. x \<in> set xs \<Longrightarrow> valid_str (f x)) \<Longrightarrow> valid_str (concat (map f xs))"
  by (induction xs) auto

lemma valid_debug_str [simp]: "valid_str s \<Longrightarrow> valid_str (debug_str u s)"
  by (simp add: debug_str_def valid_concat_map valid_escape_debug valid_strD)

section \<open>Answers\<close>

lemma info_of_ok: "peer_typed u p \<Longrightarrow> peer_info_ok (info_of p)"
  by (simp add: info_of_def peer_info_ok_def peer_typed_def)

lemma server_endpoint_valid: "state_typed u st \<Longrightarrow> valid_str (server_endpoint st)"
  by (simp add: server_endpoint_def state_typed_def)

lemma decide_peers_ok: "state_typed u st \<Longrightarrow> peers_response_ok (decide_peers st)"
  using server_endpoint_valid [of u st] info_of_ok
  by (auto simp: decide_peers_def peers_response_ok_def hub_info_ok_def state_typed_def server_keys_typed_def)

lemma join_answer_ok:
  "state_typed u st \<Longrightarrow> p \<in> set (st_peers st) \<Longrightarrow> hex_ok (token_str t) \<Longrightarrow> join_response_ok (join_answer st t p)"
  using server_endpoint_valid [of u st]
  by (auto simp: join_answer_def join_response_ok_def state_typed_def server_keys_typed_def peer_typed_def
      valid_str_hex)

lemma name_error_valid:
  assumes "unicode_laws u" "valid_str s" "device_name_parse u s = Inl e"
  shows "valid_str (name_error_show u e)"
proof -
  have low: "valid_str (u_lower u (trim s))" using assms(1,2) by (simp add: unicode_laws_def)
  have "scalar c" if "c \<in> set (u_lower u (trim s))" for c using low that by (rule valid_strD)
  then show ?thesis
    using assms(3)
    by (auto simp: device_name_parse_def Let_def split: if_splits option.splits dest!: find_Some_set)
qed

lemma registration_error_ok:
  "unicode_laws u \<Longrightarrow> join_request_ok rq \<Longrightarrow> registration_of u rq h = Inl e \<Longrightarrow> api_error_ok e"
  by (auto simp: registration_of_def api_error_ok_def api_error_new_def INVALID_CODE_def join_request_ok_def
      attempt_eq_Inl map_err_eq_Inl name_error_valid)

lemma rejection_answer_ok: "api_error_ok (rejection_answer r)"
proof -
  have "valid_str (code_status_show s)" for s by (cases s) simp_all
  then show ?thesis
    by (cases r) (simp_all add: rejection_answer_def api_error_ok_def api_error_new_def INVALID_CODE_def)
qed

section \<open>What an accepted join changes\<close>

lemma add_peer_effect:
  assumes "add_peer reg now st = (Inr p, st')"
  shows "\<exists>i. code_at (rg_code reg) st i \<and> st' = joined reg now i (p_address p) st
    \<and> st_peers st' = st_peers st @ [p] \<and> p_token_hash p = rg_token_hash reg
    \<and> p_address p = Min (usable_addresses (st_subnet st) - p_address ` set (st_peers st))
    \<and> p_name p = rg_name reg \<and> p_public_key p = rg_public_key reg"
proof -
  from assms obtain i a where i: "code_at (rg_code reg) st i" "st' = joined reg now i a st"
    and al: "subnet_allocate (st_subnet st) (used_addresses st) = Some a"
    and p: "p = last (st_peers st')" "p_address p = a"
    by (auto simp: add_peer_accepted)
  define q where "q = \<lparr>p_name = rg_name reg, p_public_key = rg_public_key reg, p_address = a,
       p_token_hash = rg_token_hash reg, p_created_at = now, p_last_seen = None\<rparr>"
  have ps: "st_peers st' = st_peers st @ [q]" using i(2) by (simp add: joined_def q_def)
  then have "p = q" using p(1) by simp
  moreover have "a = Min (usable_addresses (st_subnet st) - p_address ` set (st_peers st))"
    using al by (simp add: subnet_allocate_least used_addresses_def split: if_splits)
  ultimately show ?thesis using i ps p(2) by (auto simp: q_def)
qed

lemma add_peer_possible:
  assumes "code_at (rg_code reg) st i" "issued_usable (st_codes st ! i) now"
    and "rg_name reg \<notin> p_name ` set (st_peers st)"
    and "\<not> usable_addresses (st_subnet st) \<subseteq> set (used_addresses st)"
  shows "\<exists>p st'. add_peer reg now st = (Inr p, st')"
proof -
  have "fst (add_peer reg now st) \<noteq> Inl r" for r
    using assms(2-4) assms(1) [folded position_code_at] by (simp add: add_peer_reject_reason)
  then show ?thesis by (metis prod.collapse sum.exhaust)
qed

section \<open>Bodies\<close>

text \<open>\<open>json::parse\<close> and then the type's \<open>from_json\<close>, as the commands read an answer.\<close>

definition read_body :: "unicode \<Rightarrow> (json \<Rightarrow> decode_error + 'a) \<Rightarrow> rstr \<Rightarrow> 'a option" where
  "read_body u dec body =
    (case json_parse u body of
       Inl _ \<Rightarrow> None
     | Inr v \<Rightarrow> (case dec v of Inl _ \<Rightarrow> None | Inr x \<Rightarrow> Some x))"

lemma read_join_response: "join_response_ok r \<Longrightarrow>
    read_body u join_response_from_json (to_string (join_response_to_json r)) = Some r"
  by (simp add: read_body_def join_response_codec.parse_written join_response_codec.dec_enc)

lemma read_peers_response: "peers_response_ok r \<Longrightarrow>
    read_body u peers_response_from_json (to_string (peers_response_to_json r)) = Some r"
  by (simp add: read_body_def peers_response_codec.parse_written peers_response_codec.dec_enc)

lemma read_peer_info: "peer_info_ok p \<Longrightarrow>
    read_body u peer_info_from_json (to_string (peer_info_to_json p)) = Some p"
  by (simp add: read_body_def peer_info_codec.parse_written peer_info_codec.dec_enc)

text \<open>A refusal that carries its code and its message.\<close>

definition tells :: "unicode \<Rightarrow> http_response \<Rightarrow> bool" where
  "tells u resp \<longleftrightarrow> (\<exists>e. read_body u api_error_from_json (resp_body resp) = Some e
     \<and> resp_status resp = status_for (ae_code e)
     \<and> (resp_status resp = 401 \<longleftrightarrow> ae_code e = EcUnauthorized)
     \<and> (resp_status resp = 401 \<longleftrightarrow> (lit ''www-authenticate'', lit ''Bearer'') \<in> set (resp_headers resp)))"

lemma tells_error: "api_error_ok e \<Longrightarrow> tells u (error_response e)"
proof -
  assume ok: "api_error_ok e"
  have "read_body u api_error_from_json (resp_body (error_response e)) = Some e"
    using ok by (simp add: error_response_def Let_def json_response_def read_body_def
        api_error_codec.parse_written api_error_codec.dec_enc)
  moreover have "status_for (ae_code e) = 401 \<longleftrightarrow> ae_code e = EcUnauthorized" by (cases "ae_code e") simp_all
  ultimately show ?thesis
    by (auto simp: tells_def error_response_def Let_def json_response_def)
qed

lemma tells_internal: "tells u (internal_error m)"
  unfolding internal_error_def by (rule tells_error) (simp add: api_error_ok_def api_error_new_def)

lemma unauthorized_ok: "api_error_ok unauthorized"
  by (simp add: unauthorized_def api_error_ok_def api_error_new_def UNAUTHORIZED_def)

lemma bearer_token_Inl: "bearer_token header = Inl e \<Longrightarrow> e = unauthorized"
  by (auto simp: bearer_token_def attempt_eq_Inl map_err_eq_Inl ok_or_def split: option.splits)

lemma authenticate_Inl: "authenticate sha st token = Inl e \<Longrightarrow> e = unauthorized"
  by (auto simp: authenticate_def Let_def ok_or_def split: option.splits)

lemma decide_remove_Inl:
  "decide_remove u name st = (Inl e, st') \<Longrightarrow>
    e = api_error_new EcNotFound (lit ''no device named '' @ debug_str u name)"
  by (auto simp: decide_remove_def Let_def split: sum.splits prod.splits option.splits)

lemma change_remove_Inl: "change_remove u name st caller now = (Inl e, st') \<Longrightarrow>
    e = api_error_new EcNotFound (lit ''no device named '' @ debug_str u name)"
  by (auto simp: change_remove_def dest: decide_remove_Inl split: sum.splits prod.splits)

lemma decide_join_Inl:
  "unicode_laws u \<Longrightarrow> join_request_ok rq \<Longrightarrow> decide_join u rq token h now st = (Inl e, st') \<Longrightarrow> api_error_ok e"
  by (auto simp: decide_join_def rejection_answer_ok dest: registration_error_ok split: sum.splits prod.splits)

lemma with_caller_tells:
  assumes run: "with_caller u sha env now header change d = (resp, d')" and no: "resp_status resp \<noteq> 200"
    and ok: "\<And>st caller e st'. change st caller now = (Inl e, st') \<Longrightarrow> api_error_ok e"
  shows "tells u resp"
  using run no ok
  by (auto simp: with_caller_def tells_internal tells_error unauthorized_ok
      dest!: bearer_token_Inl authenticate_Inl split: sum.splits prod.splits)

lemma handle_join_tells:
  assumes "unicode_laws u" "parse_body u body = Inr rq"
    and "handle_join u sha env now minted body d = (resp, d')" "resp_status resp \<noteq> 200"
  shows "tells u resp"
  using assms parse_body_ok [OF assms(2)]
  by (auto simp: handle_join_def tells_internal tells_error dest: decide_join_Inl split: sum.splits prod.splits)

section \<open>Admission\<close>

text \<open>The device whose token a header carries: the token's hash is the one stored for the device.\<close>

definition caller_of :: "(u8 list \<Rightarrow> u8 list) \<Rightarrow> server_state \<Rightarrow> rstr option option \<Rightarrow> peer \<Rightarrow> bool" where
  "caller_of sha st header p \<longleftrightarrow> p \<in> set (st_peers st)
     \<and> (\<exists>token. bearer_token header = Inr token \<and> p_token_hash p = hash_token sha token)"

lemma peer_hash_ok: "state_typed u st \<Longrightarrow> p \<in> set (st_peers st) \<Longrightarrow> hex_ok (hash_str (p_token_hash p))"
  by (simp add: state_typed_def peer_typed_def)

lemma authenticate_caller:
  assumes parts: "parts_ok u sha" and typed: "state_typed u st"
  shows "(\<exists>name. authenticate sha st token = Inr name) \<longleftrightarrow>
    (\<exists>p \<in> set (st_peers st). p_token_hash p = hash_token sha token)"
proof -
  have m: "hash_matches (p_token_hash p) (hash_token sha token) \<longleftrightarrow> p_token_hash p = hash_token sha token"
    if "p \<in> set (st_peers st)" for p
    using hash_matches_iff peer_hash_ok [OF typed that] hash_token_str_ok parts by (simp add: parts_ok_def)
  show ?thesis
    using authenticate_sound authenticate_complete m by metis
qed

lemma with_caller_admits:
  assumes parts: "parts_ok u sha" and d: "holds u d st"
    and ok: "resp_status (fst (with_caller u sha env now header change d)) = 200"
  shows "\<exists>p. caller_of sha st header p"
proof -
  obtain resp d' where run: "with_caller u sha env now header change d = (resp, d')" by fastforce
  from run show ?thesis
  proof (cases rule: with_caller_cases)
    case refused
    with ok run show ?thesis by simp
  next
    case (accepted token st1 caller body st')
    have "st1 = st" by (rule holds_fun [OF d store_lock_holds [OF accepted(2)]])
    moreover have "state_typed u st" using parts d by (auto simp: parts_ok_def intro: holds_typed)
    ultimately show ?thesis
      using authenticate_caller [OF parts] accepted(1,3) unfolding caller_of_def by blast
  qed
qed

text \<open>A caller nobody is gets the 401 of every other bad token, as long as the file can be read.\<close>

lemma with_caller_unknown:
  assumes parts: "parts_ok u sha" and d: "holds u d st" and env: "env_fine env"
    and none: "\<nexists>p. caller_of sha st header p"
  shows "with_caller u sha env now header change d = (error_response unauthorized, d)"
proof (cases "bearer_token header")
  case (Inl e)
  then show ?thesis using bearer_token_Inl [OF Inl] by (simp add: with_caller_def)
next
  case (Inr token)
  have "state_typed u st" using parts d by (auto simp: parts_ok_def intro: holds_typed)
  then have "\<nexists>name. authenticate sha st token = Inr name"
    using authenticate_caller [OF parts] none Inr unfolding caller_of_def by blast
  then have "authenticate sha st token = Inl unauthorized"
    using authenticate_Inl by (metis sum.exhaust)
  moreover have "store_lock u env d = Inr st"
    using d env by (simp add: store_lock_Inr holds_def env_fine_def)
  ultimately show ?thesis using Inr by (simp add: with_caller_def)
qed

text \<open>What a removal that was answered with 200 leaves.\<close>

lemma handle_remove_done:
  assumes u: "unicode_laws u" and d: "holds u d st" and now: "in_i64 now"
    and run: "handle_remove u sha env now header name d = (resp, d')" and ok: "resp_status resp = 200"
  shows "\<exists>p st'. device_name_parse u name = Inr (p_name p) \<and> p \<in> set (st_peers st) \<and> holds u d' st'
    \<and> map member_of (st_peers st') = map member_of (remove1 p (st_peers st))
    \<and> map p_name (st_peers st') = map p_name (remove1 p (st_peers st)) \<and> st_codes st' = st_codes st
    \<and> read_body u peer_info_from_json (resp_body resp) = Some (info_of p)"
  using run [unfolded handle_remove_def]
proof (cases rule: with_caller_cases)
  case refused
  with ok show ?thesis by simp
next
  case (accepted token st1 caller body st')
  have st1: "st1 = st" by (rule holds_fun [OF d store_lock_holds [OF accepted(2)]])
  obtain r st2 where dr: "decide_remove u name st = (Inr r, st2)" and body: "body = to_string (peer_info_to_json r)"
    and st': "st' = st2 \<or> st' = touch_last_seen caller now st2"
    using accepted(4) st1 by (auto simp: change_remove_def split: prod.splits sum.splits if_splits)
  then obtain n p where n: "device_name_parse u name = Inr n" "remove_peer n st = (Some p, st2)" "r = info_of p"
    by (auto simp: decide_remove_done)
  then obtain before after where ps: "st_peers st = before @ p # after" and pn: "p_name p = n"
    and nb: "n \<notin> p_name ` set before" and st2: "st2 = st\<lparr>st_peers := before @ after\<rparr>"
    by (auto simp: remove_peer_Some)
  from nb pn have rm: "remove1 p (st_peers st) = before @ after"
    by (auto simp: ps remove1_append)
  have typed: "state_typed u st" by (rule holds_typed [OF u d])
  then have "state_typed u st2" using remove_peer_typed n(2) by blast
  then have "holds u d' st'" using st' accepted(5) now touch_typed holds_written [OF u] by blast
  moreover have "map member_of (st_peers st') = map member_of (remove1 p (st_peers st))"
      "map p_name (st_peers st') = map p_name (remove1 p (st_peers st))" "st_codes st' = st_codes st"
    using st' by (auto simp: rm st2 touch_map member_of_def)
  moreover have "p \<in> set (st_peers st)" by (simp add: ps)
  moreover from this have "peer_info_ok (info_of p)" using typed info_of_ok by (auto simp: state_typed_def)
  then have "read_body u peer_info_from_json (resp_body resp) = Some (info_of p)"
    using accepted(6) body n(3) by (simp add: json_response_def read_peer_info)
  ultimately show ?thesis using n pn by blast
qed

lemma caller_of_map:
  "(\<exists>p. caller_of sha st header p) \<longleftrightarrow>
    (\<exists>token. bearer_token header = Inr token \<and> hash_token sha token \<in> mb_token_hash ` set (map member_of (st_peers st)))"
proof -
  have "mb_token_hash ` set (map member_of (st_peers st)) = p_token_hash ` set (st_peers st)"
    by (simp add: image_image member_of_def)
  then show ?thesis by (simp add: caller_of_def image_iff) metis
qed

section \<open>Refusals of a code\<close>

text \<open>Some stored code that the request spells is still usable.\<close>

definition code_open :: "server_state \<Rightarrow> join_request \<Rightarrow> int \<Rightarrow> bool" where
  "code_open st rq now \<longleftrightarrow> (\<exists>issued \<in> set (st_codes st).
     join_code_parse (jq_code rq) = Inr (ic_code issued) \<and> issued_usable issued now)"

lemma decide_join_bad_code:
  assumes d: "state_safe st" and name: "device_name_parse u (jq_name rq) = Inr n"
    and key: "parse_key (jq_public_key rq) = Inr k"
  shows "fst (decide_join u rq token h now st) = Inl (api_error_new EcInvalidCode INVALID_CODE) \<longleftrightarrow>
    \<not> code_open st rq now"
proof (cases "join_code_parse (jq_code rq)")
  case (Inl e)
  then show ?thesis by (simp add: decide_join_def registration_of_def code_open_def)
next
  case (Inr c)
  define reg where "reg = \<lparr>rg_code = c, rg_name = n, rg_public_key = k, rg_token_hash = h\<rparr>"
  have reg: "registration_of u rq h = Inr reg"
    using Inr name key by (simp add: registration_of_def reg_def)
  have dist: "distinct (map ic_code (st_codes st))" using d by (simp add: state_safe_def)
  have other: "rejection_answer RejNameTaken \<noteq> api_error_new EcInvalidCode INVALID_CODE"
      "rejection_answer RejSubnetFull \<noteq> api_error_new EcInvalidCode INVALID_CODE"
      "rejection_answer RejUnknownCode = api_error_new EcInvalidCode INVALID_CODE"
      "rejection_answer (RejCodeNotUsable s) = api_error_new EcInvalidCode INVALID_CODE" for s
    by (simp_all add: rejection_answer_def api_error_new_def)
  show ?thesis
  proof (cases "position (\<lambda>issued. ic_code issued = c) (st_codes st)")
    case None
    then have "fst (add_peer reg now st) = Inl RejUnknownCode" by (simp add: add_peer_def reg_def)
    moreover have "\<not> code_open st rq now" using None Inr by (auto simp: code_open_def position_None)
    ultimately show ?thesis
      using reg other by (auto simp: decide_join_def split: prod.splits sum.splits)
  next
    case (Some i)
    then have i: "i < length (st_codes st)" "ic_code (st_codes st ! i) = c" by (simp_all add: position_Some)
    have only: "issued = st_codes st ! i" if "issued \<in> set (st_codes st)" "ic_code issued = c" for issued
      using that i dist by (metis distinct_map inj_on_def nth_mem)
    then have "code_open st rq now \<longleftrightarrow> issued_usable (st_codes st ! i) now"
      using Inr i by (auto simp: code_open_def)
    moreover have "fst (add_peer reg now st) = Inl r \<longrightarrow>
        (rejection_answer r = api_error_new EcInvalidCode INVALID_CODE \<longleftrightarrow> \<not> issued_usable (st_codes st ! i) now)" for r
      using Some other by (auto simp: add_peer_reject_reason reg_def split: if_splits)
    moreover have "issued_usable (st_codes st ! i) now" if "fst (add_peer reg now st) = Inr p" for p
      using that Some by (auto simp: add_peer_def reg_def Let_def status_usable_iff split: if_splits option.splits)
    ultimately show ?thesis
      using reg by (auto simp: decide_join_def split: prod.splits sum.splits)
  qed
qed

section \<open>What an accepted join leaves and answers\<close>

lemma handle_join_done:
  assumes parts: "parts_ok u sha" and d: "holds u d st" "state_safe st" and now: "in_i64 now"
    and minted: "hex_ok (token_str token)"
    and run: "handle_join u sha env now (Inr token) body d = (resp, d')" and ok: "resp_status resp = 200"
  shows "\<exists>rq reg i p st'. parse_body u body = Inr rq \<and> registration_of u rq (hash_token sha token) = Inr reg
    \<and> holds u d' st' \<and> code_at (rg_code reg) st i \<and> st' = joined reg now i (p_address p) st
    \<and> st_peers st' = st_peers st @ [p] \<and> p_token_hash p = hash_token sha token
    \<and> p_address p = Min (usable_addresses (st_subnet st) - p_address ` set (st_peers st))
    \<and> p_name p = rg_name reg \<and> p_public_key p = rg_public_key reg
    \<and> resp_body resp = to_string (join_response_to_json (join_answer st' token p)) \<and> join_response_ok (join_answer st' token p)
    \<and> state_safe st'"
  using run
proof (cases rule: handle_join_cases)
  case refused
  with ok show ?thesis by simp
next
  case (accepted rq tk st1 st' r)
  have st1: "st1 = st" by (rule holds_fun [OF d(1) store_lock_holds [OF accepted(3)]])
  have u: "unicode_laws u" and sha: "\<forall>bs. length (sha bs) = TOKEN_BYTES" using parts by (simp_all add: parts_ok_def)
  have tk: "tk = token" using accepted(2) by simp
  from accepted(4) obtain reg p where reg: "registration_of u rq (hash_token sha token) = Inr reg"
    and add: "add_peer reg now st = (Inr p, st')" and r: "r = join_answer st' token p"
    by (auto simp: decide_join_accepted st1 tk)
  from add_peer_effect [OF add] obtain i where i: "code_at (rg_code reg) st i"
      "st' = joined reg now i (p_address p) st" "p_token_hash p = rg_token_hash reg"
      "p_address p = Min (usable_addresses (st_subnet st) - p_address ` set (st_peers st))"
      "p_name p = rg_name reg" "p_public_key p = rg_public_key reg"
    and ps: "st_peers st' = st_peers st @ [p]"
    by blast
  have "good_change u st st'"
    using good_join [OF u holds_typed [OF u d(1)] d(2) now hash_token_str_ok [OF sha]
        parse_body_ok [OF accepted(1)]] accepted(4) by (simp add: st1)
  then have typed: "state_typed u st'" and safe: "state_safe st'" by (simp_all add: good_change_def)
  then have "holds u d' st'" using accepted(5) by (simp add: holds_written [OF u])
  moreover have "join_response_ok (join_answer st' token p)"
    using join_answer_ok [OF typed _ minted, of p] ps by simp
  moreover have "resp_body resp = to_string (join_response_to_json (join_answer st' token p))"
    using accepted(6) r by (simp add: json_response_def)
  moreover have "p_token_hash p = hash_token sha token"
    using i(3) reg by (simp add: registration_of_Inr)
  ultimately show ?thesis using accepted(1) reg i ps safe by blast
qed

end
