(* ===== verification/SyncDecide.thy ===== *)
theory SyncDecide
  imports DevName Subnet
begin

text \<open>
  \<open>crates/anago-core/src/sync.rs\<close>: what \<open>anago sync\<close> does about what the hub just said.
\<close>

record local_info =
  l_name :: device_name
  l_address :: ipv4
  l_subnet :: subnet
  l_server_public_key :: rstr
  l_server_endpoint :: rstr
  l_server_address :: ipv4

record reported =
  r_subnet :: subnet
  r_server_public_key :: rstr
  r_server_endpoint :: rstr
  r_server_address :: ipv4

record roster_member =
  m_name :: device_name
  m_address :: ipv4

record changes =
  ch_public_key :: bool
  ch_endpoint :: bool
  ch_address :: bool

datatype detachment =
    DetachUnauthorized
  | Removed
  | Reassigned ipv4
  | SubnetChanged subnet

datatype sync =
    SyncUnchanged
  | Unverifiable
  | Rewrite changes
  | Detached detachment

definition changes_any :: "changes \<Rightarrow> bool" where
  "changes_any c \<longleftrightarrow> ch_public_key c \<or> ch_endpoint c \<or> ch_address c"

definition sync_compare :: "local_info \<Rightarrow> reported option \<Rightarrow> sync" where
  "sync_compare loc rep =
    (case rep of
       None \<Rightarrow> Unverifiable
     | Some reported \<Rightarrow>
         let changes = \<lparr>ch_public_key = (r_server_public_key reported \<noteq> l_server_public_key loc),
                        ch_endpoint = (r_server_endpoint reported \<noteq> l_server_endpoint loc),
                        ch_address = (r_server_address reported \<noteq> l_server_address loc)\<rparr>
         in if changes_any changes then Rewrite changes else SyncUnchanged)"

definition sync_roster :: "local_info \<Rightarrow> reported option \<Rightarrow> roster_member list \<Rightarrow> sync" where
  "sync_roster loc rep roster =
    (case List.find (\<lambda>m. m_name m = l_name loc) roster of
       None \<Rightarrow> Detached Removed
     | Some m \<Rightarrow>
         if m_address m \<noteq> l_address loc then Detached (Reassigned (m_address m))
         else sync_compare loc rep)"

definition sync_decide :: "local_info \<Rightarrow> reported option \<Rightarrow> roster_member list \<Rightarrow> sync" where
  "sync_decide loc rep roster =
    (case rep of
       Some reported \<Rightarrow>
         if r_subnet reported \<noteq> l_subnet loc then Detached (SubnetChanged (r_subnet reported))
         else sync_roster loc rep roster
     | None \<Rightarrow> sync_roster loc rep roster)"

text \<open>The loop of \<open>Display for Changes\<close>: a separator before every label but the first.\<close>

fun changes_labels :: "(bool \<times> rstr) list \<Rightarrow> bool \<Rightarrow> rstr" where
  "changes_labels [] first = (if first then lit ''nothing'' else [])"
| "changes_labels ((moved, label) # rest) first =
    (if \<not> moved then changes_labels rest first
     else (if first then [] else lit '', '') @ label @ changes_labels rest False)"

definition changes_show :: "changes \<Rightarrow> rstr" where
  "changes_show c =
    changes_labels
      [(ch_public_key c, lit ''server public key''), (ch_endpoint c, lit ''server endpoint''),
       (ch_address c, lit ''server address'')] True"

fun detachment_show :: "detachment \<Rightarrow> rstr" where
  "detachment_show DetachUnauthorized =
     lit ''the hub rejected this device'' @ [39] @ lit ''s token: it was removed with `anago rm`''"
| "detachment_show Removed = lit ''the hub no longer lists this device''"
| "detachment_show (Reassigned theirs) =
     lit ''the hub lists this device at '' @ ipv4_show theirs
     @ lit '', which is not the address it was ''
     @ lit ''given, and anago will not move it on its own''"
| "detachment_show (SubnetChanged theirs) =
     lit ''the hub is serving '' @ subnet_show theirs @ lit '', a different network than this device ''
     @ lit ''joined '' @ [0x2014] @ lit '' the hub was rebuilt''"

section \<open>What the decision guarantees\<close>

text \<open>The device still fits: same network, and listed under its name at its own address.\<close>

definition fits :: "local_info \<Rightarrow> reported option \<Rightarrow> roster_member list \<Rightarrow> bool" where
  "fits loc rep roster \<longleftrightarrow>
     (\<forall>reported. rep = Some reported \<longrightarrow> r_subnet reported = l_subnet loc) \<and>
     (\<exists>m. List.find (\<lambda>m. m_name m = l_name loc) roster = Some m \<and> m_address m = l_address loc)"

definition hub_matches :: "local_info \<Rightarrow> reported \<Rightarrow> bool" where
  "hub_matches loc rep \<longleftrightarrow>
     r_server_public_key rep = l_server_public_key loc \<and>
     r_server_endpoint rep = l_server_endpoint loc \<and>
     r_server_address rep = l_server_address loc"

lemma sync_decide_fits:
  "fits loc rep roster \<Longrightarrow> sync_decide loc rep roster = sync_compare loc rep"
  by (auto simp: fits_def sync_decide_def sync_roster_def split: option.splits)

lemma sync_decide_misfit:
  "\<not> fits loc rep roster \<Longrightarrow>
    \<exists>d. d \<noteq> DetachUnauthorized \<and> sync_decide loc rep roster = Detached d"
  by (auto simp: fits_def sync_decide_def sync_roster_def split: option.splits)

lemma sync_compare_not_detached: "sync_compare loc rep \<noteq> Detached d"
  by (auto simp: sync_compare_def Let_def split: option.splits)

lemma sync_compare_unchanged:
  "sync_compare loc rep = SyncUnchanged \<longleftrightarrow> (\<exists>r. rep = Some r \<and> hub_matches loc r)"
  by (auto simp: sync_compare_def hub_matches_def changes_any_def Let_def split: option.splits)

text \<open>The local record after the rewrite that \<open>Rewrite\<close> asks for: the hub's three values.\<close>

definition adopt :: "local_info \<Rightarrow> reported \<Rightarrow> local_info" where
  "adopt loc rep = loc\<lparr>l_server_public_key := r_server_public_key rep,
     l_server_endpoint := r_server_endpoint rep, l_server_address := r_server_address rep\<rparr>"

lemma fits_adopt: "fits (adopt loc r) rep roster = fits loc rep roster"
  by (simp add: fits_def adopt_def)

lemma hub_matches_adopt: "hub_matches (adopt loc r) r"
  by (simp add: hub_matches_def adopt_def)

end
