(* ===== verification/Sample.thy ===== *)
theory Sample
  imports HubSystem SyncDecide
begin

text \<open>
  A small network: a hub with one open join code, the request that redeems it, and the states in
  between. The closed instances of the properties rest on these.
\<close>

section \<open>A hub with one open code\<close>

definition sample_sha :: "u8 list \<Rightarrow> u8 list" where
  "sample_sha bs = replicate 32 (if bs = [] then 0 else last bs)"

definition sample_env :: io_env where
  "sample_env = \<lparr>io_root = lit ''/etc/anago'', io_lock = None, io_read = None, io_absent = [],
     io_write = None\<rparr>"

definition sample_code :: join_code where
  "sample_code = JoinCode (lit ''ABCD-EFGH'')"

definition sample_key :: rstr where
  "sample_key = replicate 43 65 @ [61]"

definition sample_state :: server_state where
  "sample_state =
    \<lparr>st_domain = lit ''net.example.com'', st_subnet = Subnet (Ipv4 10 100 0 0),
     st_listen_port = 51820, st_api_port = 8443,
     st_tls = tls_manual (lit ''/etc/cert.pem'') (lit ''/etc/key.pem''), st_cloudflare = None,
     st_server = \<lparr>sk_private_key = PrivateKey sample_key, sk_public_key = sample_key,
       sk_address = Ipv4 10 100 0 1\<rparr>,
     st_peers = [], st_codes = [issue_code sample_code 1000 900]\<rparr>"

definition sample_request :: join_request where
  "sample_request = \<lparr>jq_code = lit ''abcd efgh'', jq_name = lit ''Laptop'', jq_public_key = sample_key\<rparr>"

definition sample_body :: "u8 list" where
  "sample_body = utf8 (to_string (join_request_to_json sample_request))"

definition sample_token :: device_token where
  "sample_token = DeviceToken (replicate 64 97)"

definition sample_peer :: peer where
  "sample_peer = \<lparr>p_name = DeviceName (lit ''laptop''), p_public_key = sample_key,
     p_address = Ipv4 10 100 0 2, p_token_hash = hash_token sample_sha sample_token,
     p_created_at = 1100, p_last_seen = None\<rparr>"

definition sample_joined :: server_state where
  "sample_joined = sample_state\<lparr>
     st_codes := [(issue_code sample_code 1000 900)\<lparr>ic_used_at := Some 1100\<rparr>],
     st_peers := [sample_peer]\<rparr>"

definition sample_disk :: disk where
  "sample_disk = Some (to_json_string sample_state)"

definition sample_system :: system where
  "sample_system = \<lparr>sys_disk = sample_disk,
     sys_applier = \<lparr>ap_file = None, ap_kernel = None, ap_last_applied = None\<rparr>,
     sys_pending = 1, sys_failed = False\<rparr>"

lemma valid_sample_key [simp]: "valid_str sample_key"
  by (simp add: sample_key_def valid_str_def list_all_iff)

lemma key_ok_sample: "key_ok sample_key"
  unfolding key_ok_def sample_key_def
  by (rule exI [of _ "replicate 43 65"]) (simp add: is_key_char_def char_class_defs list_all_iff)

lemma sample_code_parse: "join_code_parse (lit ''abcd efgh'') = Inr sample_code"
  by (simp add: join_code_parse_iff significant_def lit_Cons is_ws_def ascii_upper_def is_lower_def
      alphabet_codes sample_code_def hyphenate_def GROUP_LEN_def)

lemma sample_code_ok: "code_ok sample_code"
  by (rule code_text.parse_ok [OF sample_code_parse])

lemma sample_name_parse: "device_name_parse ascii_unicode (lit ''Laptop'') = Inr (DeviceName (lit ''laptop''))"
  by (simp add: device_name_parse_Inr ascii_unicode_def trim_words is_allowed_def char_class_defs)

lemma sample_key_parse: "parse_key sample_key = Inr sample_key"
  by (rule key_text.parse_shown [OF key_ok_sample])

lemma sample_token_ok: "hex_ok (token_str sample_token)"
  by (simp add: sample_token_def hex_ok_def is_hex_lower_def list_all_iff)

lemma sample_sha_length: "length (sample_sha bs) = TOKEN_BYTES"
  by (simp add: sample_sha_def TOKEN_BYTES_def)

lemma sample_parts: "parts_ok ascii_unicode sample_sha"
  by (simp add: parts_ok_def unicode_laws_ascii sample_sha_length)

lemma sample_typed: "state_typed ascii_unicode sample_state"
  by (simp add: state_typed_defs sample_state_def tls_manual_def subnet_ok_def server_address_def
      issue_code_def sample_code_ok expiry_def i64_defs)

lemma sample_safe: "state_safe sample_state"
  by (simp add: state_safe_def sample_state_def used_addresses_def)

lemma sample_holds: "holds ascii_unicode sample_disk sample_state"
  unfolding sample_disk_def by (rule holds_written [OF unicode_laws_ascii sample_typed])

lemma sample_start: "system_start ascii_unicode sample_system"
  using sample_holds sample_safe by (auto simp: system_start_def sample_system_def)

section \<open>The code is redeemed\<close>

lemma sample_body_parse: "parse_body ascii_unicode sample_body = Inr sample_request"
proof -
  have ok: "join_request_ok sample_request"
    by (simp add: join_request_ok_def sample_request_def)
  have "valid_str (to_string (join_request_to_json sample_request))"
    by (simp add: to_string_def join_request_to_json_def value_obj_def sample_request_def write_string_def
        escape_char_def lit_Cons write_break_def sample_key_def valid_str_def list_all_iff)
  then have "utf8_decode sample_body = Some (to_string (join_request_to_json sample_request))"
    by (simp add: sample_body_def)
  with join_request_codec.compact_roundtrip [OF ok, of ascii_unicode] show ?thesis
    by (auto simp: parse_body_def result_simps)
qed

lemma sample_registration:
  "registration_of ascii_unicode sample_request (hash_token sample_sha sample_token) =
    Inr \<lparr>rg_code = sample_code, rg_name = DeviceName (lit ''laptop''), rg_public_key = sample_key,
         rg_token_hash = hash_token sample_sha sample_token\<rparr>"
  by (simp add: registration_of_def sample_request_def sample_code_parse sample_name_parse sample_key_parse)

lemma first_address: "subnet_allocate s [] = Some (address_of s 2)"
proof -
  have "usable_addresses s \<noteq> {}" using card_usable [of s] by auto
  then have "subnet_allocate s [] \<noteq> None" by (simp add: subnet_pool.alloc_None_iff)
  then obtain a where a: "subnet_allocate s [] = Some a" by blast
  then obtain x where "a = address_of s x" and x: "2 \<le> unat x"
    and low: "\<forall>y. 2 \<le> unat y \<and> unat y < unat x \<longrightarrow> address_of s y \<in> set []"
    by (rule subnet_allocate_Some) blast
  have "\<not> 2 < unat x" using low [rule_format, of 2] by auto
  with x have "unat x = unat (2 :: u8)" by simp
  then have "x = 2" by (simp only: unat_inject)
  with a \<open>a = address_of s x\<close> show ?thesis by simp
qed

lemma sample_add:
  "add_peer \<lparr>rg_code = sample_code, rg_name = DeviceName (lit ''laptop''), rg_public_key = sample_key,
     rg_token_hash = hash_token sample_sha sample_token\<rparr> 1100 sample_state = (Inr sample_peer, sample_joined)"
  by (simp add: add_peer_def sample_state_def issue_code_def expiry_def i64_defs Let_def issued_status_def
      status_def status_usable_def is_taken_def used_addresses_def first_address sample_joined_def
      sample_peer_def)

lemma sample_join:
  "handle_join ascii_unicode sample_sha sample_env 1100 (Inr sample_token) sample_body sample_disk =
    (json_response 200 (to_string (join_response_to_json (join_answer sample_joined sample_token sample_peer))),
     Some (to_json_string sample_joined))"
proof -
  have "store_lock ascii_unicode sample_env sample_disk = Inr sample_state"
    using sample_holds by (auto simp: store_lock_Inr sample_env_def holds_def)
  then show ?thesis
    by (simp add: handle_join_def sample_body_parse decide_join_def sample_registration sample_add
        store_write_def sample_env_def)
qed

definition sample_joined_system :: system where
  "sample_joined_system = sample_system\<lparr>sys_disk := Some (to_json_string sample_joined), sys_pending := 2\<rparr>"

lemma sample_step: "system_step ascii_unicode sample_sha sample_system sample_joined_system"
proof -
  have "event_ok sample_system (EvJoin sample_env 1100 (Inr sample_token) sample_body)"
    by (simp add: i64_defs sample_token_ok)
  moreover have "run_event ascii_unicode sample_sha (EvJoin sample_env 1100 (Inr sample_token) sample_body)
      sample_system = sample_joined_system"
    by (simp add: sample_system_def sample_join after_request_def sample_joined_system_def)
  ultimately show ?thesis by (metis system_step)
qed

lemma sample_joined_holds: "holds ascii_unicode (Some (to_json_string sample_joined)) sample_joined"
proof (rule holds_written [OF unicode_laws_ascii])
  show "state_typed ascii_unicode sample_joined"
    using add_peer_typed [OF sample_add sample_typed]
      registration_of_typed [OF unicode_laws_ascii _ _ sample_registration]
    by (simp add: join_request_ok_def sample_request_def hash_token_str_ok sample_sha_length i64_defs)
qed

section \<open>The device calls, and is removed\<close>

definition sample_header :: "rstr option option" where
  "sample_header = Some (Some (lit ''Bearer '' @ token_str sample_token))"

lemma sample_header_token: "bearer_token sample_header = Inr sample_token"
proof -
  have "trim (token_str sample_token) = token_str sample_token"
    by (rule trim_id) (auto simp: sample_token_def is_ws_def)
  moreover have "strip_prefix (lit ''Bearer '') (lit ''Bearer '' @ token_str sample_token) = Some (token_str sample_token)"
    by (simp add: strip_prefix_Some)
  moreover have "token_parse (token_str sample_token) = Inr sample_token"
    by (rule token_text.parse_shown [OF sample_token_ok])
  ultimately show ?thesis by (simp add: bearer_token_def sample_header_def ok_or_def)
qed

lemma sample_name_laptop: "device_name_parse ascii_unicode (lit ''laptop'') = Inr (DeviceName (lit ''laptop''))"
  by (simp add: device_name_parse_Inr ascii_unicode_def trim_words is_allowed_def char_class_defs)

lemma sample_hash_matches [simp]:
  "hash_matches (hash_token sample_sha sample_token) (hash_token sample_sha sample_token)"
  by (simp add: hash_matches_def constant_time_eq_iff)

lemma sample_authenticate: "authenticate sample_sha sample_joined sample_token = Inr (DeviceName (lit ''laptop''))"
  by (simp add: authenticate_def sample_joined_def sample_peer_def ok_or_def)

lemma sample_lock: "store_lock ascii_unicode sample_env (Some (to_json_string sample_joined)) = Inr sample_joined"
  using sample_joined_holds by (auto simp: store_lock_Inr sample_env_def holds_def)

lemma sample_write: "store_write sample_env st disk = (Inr (), Some (to_json_string st))"
  by (simp add: store_write_def sample_env_def)

lemma sample_peers:
  "resp_status (fst (handle_peers ascii_unicode sample_sha sample_env 1200 sample_header
     (Some (to_json_string sample_joined)))) = 200"
  by (simp add: handle_peers_def with_caller_def sample_header_token sample_lock sample_authenticate
      change_peers_def Let_def sample_write)

definition sample_removed_disk :: disk where
  "sample_removed_disk = Some (to_json_string (sample_joined\<lparr>st_peers := []\<rparr>))"

lemma sample_remove:
  "handle_remove ascii_unicode sample_sha sample_env 1200 sample_header (lit ''laptop'')
     (Some (to_json_string sample_joined)) =
   (json_response 200 (to_string (peer_info_to_json (info_of sample_peer))), sample_removed_disk)"
proof -
  have "remove_peer (DeviceName (lit ''laptop'')) sample_joined = (Some sample_peer, sample_joined\<lparr>st_peers := []\<rparr>)"
    by (simp add: remove_peer_def sample_joined_def sample_peer_def remove_at_def)
  then have "change_remove ascii_unicode (lit ''laptop'') sample_joined (DeviceName (lit ''laptop'')) 1200 =
      (Inr (to_string (peer_info_to_json (info_of sample_peer))), sample_joined\<lparr>st_peers := []\<rparr>)"
    by (simp add: change_remove_def decide_remove_def sample_name_laptop info_of_def sample_peer_def)
  then show ?thesis
    by (simp add: handle_remove_def with_caller_def sample_header_token sample_lock sample_authenticate
        sample_write sample_removed_disk_def)
qed

section \<open>The first push\<close>

definition sample_apply_env :: apply_env where
  "sample_apply_env = \<lparr>env_write = None, env_up = False, env_bring_up = None, env_strip = Inr [],
     env_write_stripped = None, env_sync = None, env_after_failure = None\<rparr>"

definition sample_applied_system :: system where
  "sample_applied_system = sample_system\<lparr>
     sys_applier := (let conf = expose (server_config sample_state) in
       \<lparr>ap_file = Some conf, ap_kernel = Some conf, ap_last_applied = Some conf\<rparr>),
     sys_pending := 0\<rparr>"

lemma sample_apply_step: "system_step ascii_unicode sample_sha sample_system sample_applied_system"
proof -
  have "event_ok sample_system (EvApply sample_env sample_apply_env)"
    by (simp add: sample_system_def sees_def sample_apply_env_def)
  moreover have "store_lock ascii_unicode sample_env sample_disk = Inr sample_state"
    using sample_holds by (auto simp: store_lock_Inr sample_env_def holds_def)
  then have "run_event ascii_unicode sample_sha (EvApply sample_env sample_apply_env) sample_system =
      sample_applied_system"
    by (simp add: apply_to_interface_def sample_system_def apply_state_def write_config_def plan_def
        run_action_def sample_apply_env_def Let_def sample_applied_system_def)
  ultimately show ?thesis by (metis system_step)
qed

section \<open>A file of the first schema\<close>

definition sample_legacy :: object where
  "sample_legacy =
    [(lit ''version'', JInt 1), (lit ''domain'', JStr (lit ''net.example.com'')),
     (lit ''subnet'', JStr (subnet_show (st_subnet sample_state))),
     (lit ''listen_port'', JInt 51820), (lit ''api_port'', JInt 8443),
     (lit ''tls_cert_path'', JStr (lit ''/etc/cert.pem'')), (lit ''tls_key_path'', JStr (lit ''/etc/key.pem'')),
     (lit ''server'', server_to_json (st_server sample_state)),
     (lit ''peers'', JArr []), (lit ''codes'', JArr [])]"

lemma sample_legacy_json: "json_parse u (to_string (JObj sample_legacy)) = Inr (JObj sample_legacy)"
proof -
  have "wf_json (server_to_json (st_server sample_state))"
    by (simp add: server_to_json_def value_obj_def sample_state_def)
  then have "wf_json (JObj sample_legacy)"
    by (simp add: sample_legacy_def i64_defs)
  moreover have "json_depth (JObj sample_legacy) \<le> MAX_DEPTH"
    by (simp add: sample_legacy_def MAX_DEPTH_def server_to_json_def value_obj_def)
  ultimately show ?thesis
    using json_parse_written [of "JObj sample_legacy" "[]" u None] by (simp add: to_string_def)
qed

lemma sample_legacy_read:
  "state_parse ascii_unicode (to_string (JObj sample_legacy)) = Inr (sample_state\<lparr>st_codes := []\<rparr>)"
proof -
  have "subnet_parse (subnet_show (st_subnet sample_state)) = Inr (st_subnet sample_state)"
    using subnet_parse_show by (simp add: sample_state_def subnet_ok_def)
  moreover have "server_from_json ascii_unicode (server_to_json (st_server sample_state)) = Inr (st_server sample_state)"
    by (simp add: server_from_json_Inr server_to_json_def value_obj_def)
  moreover have "sk_address (st_server sample_state) = server_address (st_subnet sample_state)"
    by (simp add: sample_state_def server_address_def)
  ultimately have "state_from_json ascii_unicode (JObj sample_legacy) = Inr (sample_state\<lparr>st_codes := []\<rparr>)"
    by (simp add: state_from_json_Inr sample_legacy_def SCHEMA_VERSION_def LEGACY_SCHEMA_VERSION_def
        tls_from_json_legacy [unfolded LEGACY_SCHEMA_VERSION_def] cloudflare_from_json_def port_field_Inr)
      (simp add: sample_state_def u16_try_from_def)
  then show ?thesis by (simp add: state_parse_def sample_legacy_json)
qed

section \<open>A second code\<close>

definition sample_code2 :: join_code where
  "sample_code2 = JoinCode (lit ''2345-6789'')"

definition sample_draw :: "nat \<Rightarrow> rstr + join_code" where
  "sample_draw i = (if i = 0 then Inr sample_code else Inr sample_code2)"

lemma sample_code2_ok: "code_ok sample_code2"
proof -
  have "join_code_parse (lit ''2345-6789'') = Inr sample_code2"
    by (simp add: join_code_parse_iff significant_def lit_Cons is_ws_def ascii_upper_def is_lower_def
      alphabet_codes sample_code2_def hyphenate_def GROUP_LEN_def)
  then show ?thesis by (rule code_text.parse_ok)
qed

lemma sample_draw_ok: "\<forall>i c. sample_draw i = Inr c \<longrightarrow> code_ok c"
  by (auto simp: sample_draw_def sample_code_ok sample_code2_ok split: if_splits)

lemma sample_run_code:
  "run_code ascii_unicode sample_env sample_draw 1200 sample_disk =
     (Inr (code_output (lit ''net.example.com'') sample_code2 DEFAULT_TTL_SECS),
      Some (to_json_string (snd (issue sample_code2 1200 DEFAULT_TTL_SECS sample_state))))"
proof -
  have "store_lock ascii_unicode sample_env sample_disk = Inr sample_state"
    using sample_holds by (auto simp: store_lock_Inr sample_env_def holds_def)
  moreover have "choose_unused sample_state sample_draw MAX_DRAWS = Inr sample_code2"
    by (simp add: choose_unused_def MAX_DRAWS_def numeral_eq_Suc sample_draw_def sample_state_def
        issue_code_def sample_code_def sample_code2_def)
  ultimately show ?thesis
    by (simp add: run_code_def sample_write issue_def issue_code_def Let_def) (simp add: sample_state_def)
qed

section \<open>A device and a hub that moved\<close>

definition sample_local :: local_info where
  "sample_local = \<lparr>l_name = DeviceName (lit ''laptop''), l_address = Ipv4 10 100 0 2,
     l_subnet = Subnet (Ipv4 10 100 0 0), l_server_public_key = sample_key,
     l_server_endpoint = lit ''old.example.com:51820'', l_server_address = Ipv4 10 100 0 1\<rparr>"

definition sample_reported :: reported where
  "sample_reported = \<lparr>r_subnet = Subnet (Ipv4 10 100 0 0), r_server_public_key = sample_key,
     r_server_endpoint = lit ''net.example.com:51820'', r_server_address = Ipv4 10 100 0 1\<rparr>"

section \<open>A push that fails\<close>

definition sample_sync_fails :: apply_env where
  "sample_sync_fails = sample_apply_env\<lparr>env_up := True, env_sync := Some (WgFailed [] None []),
     env_after_failure := Some (lit ''half'')\<rparr>"

definition sample_sync_works :: apply_env where
  "sample_sync_works = sample_apply_env\<lparr>env_up := True\<rparr>"

definition sample_applier :: applier where
  "sample_applier = (let conf = expose (server_config sample_state) in
     \<lparr>ap_file = Some conf, ap_kernel = Some conf, ap_last_applied = Some conf\<rparr>)"

lemma sample_configs_differ: "expose (server_config sample_joined) \<noteq> expose (server_config sample_state)"
  by (simp add: server_config_def sample_joined_def sample_state_def peer_section_def)

lemma sample_sync_failed:
  "\<exists>ap1. apply_state sample_sync_fails config_path stripped_path sample_joined sample_applier
      = (Inl (WgFailed [] None []), ap1) \<and> ap_kernel ap1 = Some (lit ''half'')"
  using sample_configs_differ
  by (simp add: apply_state_def write_config_def run_action_def plan_def Let_def sample_applier_def
      sample_sync_fails_def sample_apply_env_def)

end
