(* ===== verification/AcmeText.thy ===== *)
theory AcmeText
  imports Interfaces
begin

text \<open>
  \<open>crates/anago-core/src/acme.rs\<close>: the strings of an ACME challenge, and why a token may be put
  into a path.
\<close>

definition HTTP01_PREFIX :: rstr where
  "HTTP01_PREFIX = lit ''/.well-known/acme-challenge/''"

definition DNS01_LABEL :: rstr where
  "DNS01_LABEL = lit ''_acme-challenge''"

definition THUMBPRINT_LEN :: nat where
  "THUMBPRINT_LEN = 43"

definition MAX_TOKEN_LEN :: nat where
  "MAX_TOKEN_LEN = 255"

datatype challenge_token = ChallengeToken (challenge_str: rstr)

datatype thumbprint = Thumbprint (thumbprint_str: rstr)

datatype acme_error =
    EmptyToken
  | TokenTooLong nat
  | TokenCharacter rchar
  | ThumbprintLength nat
  | ThumbprintCharacter rchar

definition is_base64url :: "rchar \<Rightarrow> bool" where
  "is_base64url c \<longleftrightarrow> is_ascii_alnum c \<or> c = 45 \<or> c = 95"

definition challenge_parse :: "rstr \<Rightarrow> acme_error + challenge_token" where
  "challenge_parse input =
    (if input = [] then Inl EmptyToken
     else if MAX_TOKEN_LEN < length (utf8 input) then Inl (TokenTooLong (length (utf8 input)))
     else (case List.find (\<lambda>c. \<not> is_base64url c) input of
             Some bad \<Rightarrow> Inl (TokenCharacter bad)
           | None \<Rightarrow> Inr (ChallengeToken input)))"

definition thumbprint_parse :: "rstr \<Rightarrow> acme_error + thumbprint" where
  "thumbprint_parse input =
    (if length input \<noteq> THUMBPRINT_LEN then Inl (ThumbprintLength (length input))
     else (case List.find (\<lambda>c. \<not> is_base64url c) input of
             Some bad \<Rightarrow> Inl (ThumbprintCharacter bad)
           | None \<Rightarrow> Inr (Thumbprint input)))"

definition http01_path :: "challenge_token \<Rightarrow> rstr" where
  "http01_path t = HTTP01_PREFIX @ challenge_str t"

definition key_authorization :: "challenge_token \<Rightarrow> thumbprint \<Rightarrow> rstr" where
  "key_authorization t p = challenge_str t @ lit ''.'' @ thumbprint_str p"

definition dns01_record_name :: "rstr \<Rightarrow> rstr" where
  "dns01_record_name domain =
     DNS01_LABEL @ lit ''.''
     @ (case strip_suffix_char 46 domain of None \<Rightarrow> domain | Some d \<Rightarrow> d)"

fun acme_error_show :: "unicode \<Rightarrow> acme_error \<Rightarrow> rstr" where
  "acme_error_show u EmptyToken = lit ''the challenge token is empty''"
| "acme_error_show u (TokenTooLong len) =
     lit ''the challenge token is '' @ dec_nat len @ lit '' characters, more than the ''
     @ dec_nat MAX_TOKEN_LEN @ lit '' allowed''"
| "acme_error_show u (TokenCharacter c) =
     lit ''the challenge token contains '' @ debug_char u c @ lit '', which is not base64url''"
| "acme_error_show u (ThumbprintLength len) =
     lit ''the account key thumbprint is '' @ dec_nat len @ lit '' characters, not the ''
     @ dec_nat THUMBPRINT_LEN @ lit '' a base64url SHA-256 digest has''"
| "acme_error_show u (ThumbprintCharacter c) =
     lit ''the account key thumbprint contains '' @ debug_char u c @ lit '', which is not base64url''"

section \<open>What the types guarantee\<close>

definition challenge_ok :: "challenge_token \<Rightarrow> bool" where
  "challenge_ok t \<longleftrightarrow> challenge_str t \<noteq> [] \<and> length (challenge_str t) \<le> 255
     \<and> (\<forall>c \<in> set (challenge_str t). is_base64url c)"

definition thumbprint_ok :: "thumbprint \<Rightarrow> bool" where
  "thumbprint_ok p \<longleftrightarrow> length (thumbprint_str p) = 43
     \<and> (\<forall>c \<in> set (thumbprint_str p). is_base64url c)"

lemma base64url_ascii: "is_base64url c \<Longrightarrow> c < 0x80"
  by (auto simp: is_base64url_def char_class_defs)

lemma base64url_plain: "is_base64url c \<Longrightarrow> c \<noteq> 46 \<and> c \<noteq> 47 \<and> c \<noteq> 37 \<and> 32 < c"
  by (auto simp: is_base64url_def char_class_defs)

lemma length_utf8_ascii: "\<forall>c \<in> set s. c < 0x80 \<Longrightarrow> length (utf8 s) = length s"
  by (induction s) simp_all

lemma length_utf8_ge: "length s \<le> length (utf8 s)"
proof (induction s)
  case (Cons c s)
  have "1 \<le> length (utf8_char c)"
    by (simp add: utf8_char_def)
  with Cons show ?case by simp
qed simp

interpretation challenge_text: text_form challenge_str challenge_parse challenge_ok
proof unfold_locales
  show "challenge_parse (challenge_str t) = Inr t" if "challenge_ok t" for t
  proof -
    have "length (utf8 (challenge_str t)) = length (challenge_str t)"
      using that by (intro length_utf8_ascii) (auto simp: challenge_ok_def dest: base64url_ascii)
    with that show ?thesis
      by (cases t) (auto simp: challenge_parse_def challenge_ok_def MAX_TOKEN_LEN_def find_None_all
          split: option.splits dest: find_Some_set)
  qed
  show "challenge_ok t" if "challenge_parse s = Inr t" for s t
    using that length_utf8_ge [of s]
    by (auto simp: challenge_parse_def challenge_ok_def MAX_TOKEN_LEN_def find_None_all
        split: option.splits if_splits)
qed

interpretation thumbprint_text: text_form thumbprint_str thumbprint_parse thumbprint_ok
  by unfold_locales (auto simp: thumbprint_parse_def thumbprint_ok_def THUMBPRINT_LEN_def
      find_None_all split: option.splits if_splits dest: find_Some_set)

text \<open>
  The key authorization separates again: the token holds no dot, so the first dot is the
  separator and both halves are determined by the string.
\<close>

lemma challenge_plain: "challenge_ok t \<Longrightarrow> 46 \<notin> set (challenge_str t) \<and> 47 \<notin> set (challenge_str t)"
  using base64url_plain by (metis challenge_ok_def)

lemma key_authorization_split:
  assumes "challenge_ok t"
  shows "split_once 46 (key_authorization t p) = Some (challenge_str t, thumbprint_str p)"
proof -
  have "key_authorization t p = challenge_str t @ 46 # thumbprint_str p"
    by (simp add: key_authorization_def lit_Cons)
  then show ?thesis
    using challenge_plain [OF assms] by (simp add: split_once_append)
qed

lemma key_authorization_inject:
  assumes "challenge_ok t" "challenge_ok t'"
  shows "key_authorization t p = key_authorization t' p' \<longleftrightarrow> t = t' \<and> p = p'"
proof
  assume "key_authorization t p = key_authorization t' p'"
  then have "Some (challenge_str t, thumbprint_str p) = Some (challenge_str t', thumbprint_str p')"
    by (simp only: key_authorization_split [OF assms(1), symmetric]
        key_authorization_split [OF assms(2), symmetric])
  then show "t = t' \<and> p = p'"
    by (simp add: challenge_token.expand thumbprint.expand)
qed simp

text \<open>The path has the prefix's segments and exactly one more, which is not a dot segment.\<close>

lemma http01_path_segments:
  assumes "challenge_ok t"
  shows "split_on 47 (http01_path t) =
    [[], lit ''.well-known'', lit ''acme-challenge'', challenge_str t]"
proof -
  have "http01_path t
      = [] @ 47 # lit ''.well-known'' @ 47 # lit ''acme-challenge'' @ 47 # challenge_str t"
    by (simp add: http01_path_def HTTP01_PREFIX_def lit_Cons)
  moreover have "47 \<notin> set (lit ''.well-known'')" "47 \<notin> set (lit ''acme-challenge'')"
    by (simp_all add: lit_Cons)
  ultimately show ?thesis
    using challenge_plain [OF assms] by (simp del: append_Nil add: append_Nil [of "_ # _"])
qed

end
