(* ===== verification/DnsDecide.thy ===== *)
theory DnsDecide
  imports Subnet
begin

text \<open>
  \<open>crates/anago-core/src/dns.rs\<close>: what to do with the hub's A record, given every record at the
  name, the address it should have, and the id remembered from last time.
\<close>

record dns_record =
  dr_id :: rstr
  dr_kind :: rstr
  dr_content :: rstr
  dr_proxied :: bool
  dr_comment :: "rstr option"

definition record_a :: "rstr \<Rightarrow> rstr \<Rightarrow> dns_record" where
  "record_a i content = \<lparr>dr_id = i, dr_kind = lit ''A'', dr_content = content,
     dr_proxied = False, dr_comment = None\<rparr>"

definition is_a :: "dns_record \<Rightarrow> bool" where
  "is_a r = eq_ignore_case (dr_kind r) (lit ''A'')"

definition is_cname :: "dns_record \<Rightarrow> bool" where
  "is_cname r = eq_ignore_case (dr_kind r) (lit ''CNAME'')"

definition points_at :: "dns_record \<Rightarrow> ipv4 \<Rightarrow> bool" where
  "points_at r ip \<longleftrightarrow> ipv4_parse (trim (dr_content r)) = Some ip"

datatype refusal =
    Proxied rstr
  | Cname rstr
  | Ambiguous nat "rstr option"
  | CachedNotAnARecord rstr rstr

datatype upsert =
    Create
  | Update rstr bool
  | Unchanged rstr
  | Refuse refusal

fun upsert_record_id :: "upsert \<Rightarrow> rstr option" where
  "upsert_record_id (Update i _) = Some i"
| "upsert_record_id (Unchanged i) = Some i"
| "upsert_record_id Create = None"
| "upsert_record_id (Refuse _) = None"

fun upsert_refusal :: "upsert \<Rightarrow> refusal option" where
  "upsert_refusal (Refuse r) = Some r"
| "upsert_refusal _ = None"

text \<open>The rules after the cached id was looked at, and the whole decision.\<close>

definition decide_a_record :: "dns_record list \<Rightarrow> ipv4 \<Rightarrow> rstr option \<Rightarrow> upsert" where
  "decide_a_record records desired cached_id =
    (case List.find is_cname records of
       Some cname \<Rightarrow> Refuse (Cname (dr_id cname))
     | None \<Rightarrow>
        (case filter is_a records of
           [] \<Rightarrow> Create
         | [ours] \<Rightarrow>
             if dr_proxied ours then Refuse (Proxied (dr_id ours))
             else if points_at ours desired then Unchanged (dr_id ours)
             else Update (dr_id ours) (cached_id \<noteq> Some (dr_id ours))
         | a_records \<Rightarrow>
             Refuse (Ambiguous (length a_records)
               (case cached_id of
                  None \<Rightarrow> None
                | Some i \<Rightarrow> if \<exists>r \<in> set a_records. dr_id r = i then Some i else None))))"

definition dns_decide :: "dns_record list \<Rightarrow> ipv4 \<Rightarrow> rstr option \<Rightarrow> upsert" where
  "dns_decide records desired cached_id =
    (case Option.bind cached_id (\<lambda>i. List.find (\<lambda>r. dr_id r = i) records) of
       Some cached \<Rightarrow>
         if \<not> is_a cached then Refuse (CachedNotAnARecord (dr_id cached) (dr_kind cached))
         else decide_a_record records desired cached_id
     | None \<Rightarrow> decide_a_record records desired cached_id)"

fun refusal_show :: "refusal \<Rightarrow> rstr" where
  "refusal_show (Proxied i) =
     lit ''the A record ('' @ i @ lit '') is proxied; anago will not turn that off. ''
     @ lit ''WireGuard'' @ [39] @ lit ''s UDP port is not forwarded through the proxy, so set the ''
     @ lit ''record to DNS only (grey cloud) and run this again''"
| "refusal_show (Cname i) =
     lit ''a CNAME ('' @ i @ lit '') already answers to this name, and DNS does not ''
     @ lit ''allow an A record beside it. Remove the CNAME, or point anago at a ''
     @ lit ''name of its own''"
| "refusal_show (Ambiguous count ours) =
     dec_nat count @ lit '' A records answer to this name, so it resolves to a ''
     @ lit ''different address every other lookup and the hub is reachable ''
     @ lit ''only half the time''
     @ (case ours of
          Some i \<Rightarrow> lit ''. anago created '' @ i @ lit ''; remove the others''
        | None \<Rightarrow> lit ''. Leave exactly the one that points at this server'')"
| "refusal_show (CachedNotAnARecord i kind) =
     lit ''the record anago recorded ('' @ i @ lit '') is now a '' @ kind
     @ lit '' record, not an A ''
     @ lit ''record. Something else owns it; sort that out rather than letting anago ''
     @ lit ''overwrite it''"

section \<open>What the decision guarantees\<close>

text \<open>The name is safe to write to: the record \<open>r\<close> is the only A record, not proxied, and
  neither a CNAME nor a cached id of another type stands in the way.\<close>

definition cached_is_a :: "dns_record list \<Rightarrow> rstr option \<Rightarrow> bool" where
  "cached_is_a records cached_id \<longleftrightarrow>
    (\<forall>r. Option.bind cached_id (\<lambda>i. List.find (\<lambda>r. dr_id r = i) records) = Some r \<longrightarrow> is_a r)"

definition writable :: "dns_record list \<Rightarrow> rstr option \<Rightarrow> dns_record \<Rightarrow> bool" where
  "writable records cached_id r \<longleftrightarrow>
     filter is_a records = [r] \<and> \<not> dr_proxied r \<and> (\<forall>c \<in> set records. \<not> is_cname c)
     \<and> cached_is_a records cached_id"

lemma dns_decide_cached_ok:
  "cached_is_a records cached_id \<Longrightarrow>
    dns_decide records desired cached_id = decide_a_record records desired cached_id"
  by (auto simp: dns_decide_def cached_is_a_def split: option.splits)

lemma dns_decide_cached_bad:
  "\<not> cached_is_a records cached_id \<Longrightarrow>
    \<exists>r \<in> set records. \<not> is_a r \<and> cached_id = Some (dr_id r) \<and>
      dns_decide records desired cached_id = Refuse (CachedNotAnARecord (dr_id r) (dr_kind r))"
  by (auto simp: dns_decide_def cached_is_a_def bind_eq_Some_conv dest: find_Some_set
      split: option.splits)

lemma decide_a_record_cases:
  "decide_a_record records desired cached_id =
    (case List.find is_cname records of
       Some cname \<Rightarrow> Refuse (Cname (dr_id cname))
     | None \<Rightarrow>
         if filter is_a records = [] then Create
         else if length (filter is_a records) = 1 then
           (let ours = hd (filter is_a records) in
            if dr_proxied ours then Refuse (Proxied (dr_id ours))
            else if points_at ours desired then Unchanged (dr_id ours)
            else Update (dr_id ours) (cached_id \<noteq> Some (dr_id ours)))
         else Refuse (Ambiguous (length (filter is_a records))
               (case cached_id of
                  None \<Rightarrow> None
                | Some i \<Rightarrow> if \<exists>r \<in> set records. is_a r \<and> dr_id r = i then Some i else None)))"
proof (cases "filter is_a records")
  case (Cons r rs)
  have "(\<exists>x \<in> set records. is_a x \<and> dr_id x = i) \<longleftrightarrow> (\<exists>x \<in> set (r # rs). dr_id x = i)" for i
    unfolding Cons [symmetric] by auto
  then show ?thesis
    by (cases rs) (simp_all add: decide_a_record_def Cons Let_def split: option.splits)
qed (simp add: decide_a_record_def split: option.splits)

lemma dns_decide_writes_iff:
  "(dns_decide records desired cached_id = Unchanged i \<or>
    (\<exists>adopted. dns_decide records desired cached_id = Update i adopted)) \<longleftrightarrow>
   (\<exists>r. writable records cached_id r \<and> i = dr_id r)"
proof (cases "cached_is_a records cached_id")
  case True
  have one: "length (filter is_a records) = Suc 0 \<longleftrightarrow> (\<exists>r. filter is_a records = [r])"
    by (auto simp: length_Suc_conv)
  show ?thesis
    by (auto simp: dns_decide_cached_ok [OF True] decide_a_record_cases writable_def True
        find_None_all one Let_def split: option.splits if_splits dest: find_Some_set)
next
  case False
  then show ?thesis
    using dns_decide_cached_bad [OF False, of desired] by (auto simp: writable_def)
qed

text \<open>Convergence: once the record has the address that was asked for, nothing is left to do.\<close>

lemma points_at_show: "dr_content r = ipv4_show ip \<Longrightarrow> points_at r ip"
proof -
  have "trim (ipv4_show ip) = ipv4_show ip"
    by (rule trim_id, cases ip) (auto simp: is_ws_def dest!: dec_nat_digit simp: is_digit_def)
  then show "dr_content r = ipv4_show ip \<Longrightarrow> points_at r ip"
    by (simp add: points_at_def)
qed

lemma dns_decide_unchanged_iff:
  "dns_decide records desired cached_id = Unchanged i \<longleftrightarrow>
   (\<exists>r. writable records cached_id r \<and> i = dr_id r \<and> points_at r desired)"
proof (cases "cached_is_a records cached_id")
  case True
  have one: "length (filter is_a records) = Suc 0 \<longleftrightarrow> (\<exists>r. filter is_a records = [r])"
    by (auto simp: length_Suc_conv)
  show ?thesis
    by (auto simp: dns_decide_cached_ok [OF True] decide_a_record_cases writable_def True
        find_None_all one Let_def split: option.splits if_splits dest: find_Some_set)
next
  case False
  then show ?thesis
    using dns_decide_cached_bad [OF False, of desired] by (auto simp: writable_def)
qed

lemma dns_decide_update_iff:
  "(\<exists>adopted. dns_decide records desired cached_id = Update i adopted) \<longleftrightarrow>
   (\<exists>r. writable records cached_id r \<and> i = dr_id r \<and> \<not> points_at r desired)"
proof -
  have "dns_decide records desired cached_id = Unchanged i \<Longrightarrow> dns_decide records desired cached_id \<noteq> Update i a" for a
    by simp
  moreover have "writable records cached_id r \<Longrightarrow> writable records cached_id r' \<Longrightarrow> r' = r" for r r'
    by (simp add: writable_def)
  ultimately show ?thesis
    using dns_decide_writes_iff [of records desired cached_id i] dns_decide_unchanged_iff [of records desired cached_id i]
    by metis
qed

lemma dns_decide_create_iff:
  "dns_decide records desired cached_id = Create \<longleftrightarrow>
   (\<forall>r \<in> set records. \<not> is_a r \<and> \<not> is_cname r) \<and> cached_is_a records cached_id"
proof (cases "cached_is_a records cached_id")
  case True
  then show ?thesis
    by (auto simp: dns_decide_cached_ok [OF True] decide_a_record_cases find_None_all filter_empty_conv Let_def
        split: option.splits if_splits dest: find_Some_set)
next
  case False
  then show ?thesis using dns_decide_cached_bad [OF False, of desired] by auto
qed

text \<open>The zone after the write: the record with that id has the new content.\<close>

definition with_content :: "rstr \<Rightarrow> rstr \<Rightarrow> dns_record list \<Rightarrow> dns_record list" where
  "with_content i content records =
     map (\<lambda>r. if dr_id r = i then r\<lparr>dr_content := content\<rparr> else r) records"

lemma with_content_kinds [simp]:
  "is_a (r\<lparr>dr_content := x\<rparr>) = is_a r" "is_cname (r\<lparr>dr_content := x\<rparr>) = is_cname r"
  "is_a (if c then r\<lparr>dr_content := x\<rparr> else r) = is_a r"
  "is_cname (if c then r\<lparr>dr_content := x\<rparr> else r) = is_cname r"
  by (simp_all add: is_a_def is_cname_def)

lemma filter_with_content: "filter is_a (with_content i x records) = with_content i x (filter is_a records)"
  by (simp add: with_content_def filter_map comp_def)

lemma find_unique_id: "distinct (map dr_id records) \<Longrightarrow> r \<in> set records \<Longrightarrow> List.find (\<lambda>q. dr_id q = dr_id r) records = Some r"
  by (induction records) auto

lemma update_converges:
  assumes "distinct (map dr_id records)" "dns_decide records desired cached_id = Update i adopted"
  shows "dns_decide (with_content i (ipv4_show desired) records) desired (Some i) = Unchanged i"
proof -
  from assms(2) dns_decide_update_iff obtain r where w: "writable records cached_id r" and i: "i = dr_id r"
    by blast
  let ?r = "r\<lparr>dr_content := ipv4_show desired\<rparr>" and ?new = "with_content i (ipv4_show desired) records"
  have one: "filter is_a ?new = [?r]"
    unfolding filter_with_content using w by (simp add: writable_def with_content_def i)
  then have "?r \<in> set (filter is_a ?new)" by simp
  then have r: "?r \<in> set ?new" "is_a ?r" by auto
  have "distinct (map dr_id ?new)"
    using assms(1) by (simp add: with_content_def comp_def if_distrib cong: if_cong)
  from find_unique_id [OF this r(1)] have "List.find (\<lambda>q. dr_id q = i) ?new = Some ?r" by (simp add: i)
  then have "cached_is_a ?new (Some i)" using r(2) by (simp add: cached_is_a_def)
  moreover have "\<forall>c \<in> set ?new. \<not> is_cname c"
    using w by (auto simp: writable_def with_content_def)
  ultimately have "writable ?new (Some i) ?r"
    using one w by (simp add: writable_def)
  moreover have "points_at ?r desired" by (simp add: points_at_show)
  ultimately show ?thesis using dns_decide_unchanged_iff [of ?new desired "Some i" i] i by auto
qed

lemma create_converges:
  assumes "dns_decide records desired cached_id = Create" "i \<notin> dr_id ` set records"
  shows "dns_decide (records @ [record_a i (ipv4_show desired)]) desired (Some i) = Unchanged i"
proof -
  let ?r = "record_a i (ipv4_show desired)"
  have a: "is_a ?r" "\<not> is_cname ?r"
    by (simp_all add: is_a_def is_cname_def record_a_def eq_ignore_case_def lit_Cons ascii_lower_def is_upper_def)
  have none: "\<forall>r \<in> set records. \<not> is_a r \<and> \<not> is_cname r"
    using assms(1) dns_decide_create_iff by blast
  then have "filter is_a (records @ [?r]) = [?r]" using a by (simp add: filter_empty_conv)
  moreover have "List.find (\<lambda>q. dr_id q = i) (records @ [?r]) = Some ?r"
    using assms(2) by (induction records) (auto simp: record_a_def)
  then have "cached_is_a (records @ [?r]) (Some i)" using a by (simp add: cached_is_a_def)
  ultimately have "writable (records @ [?r]) (Some i) ?r"
    using none a by (auto simp: writable_def record_a_def)
  moreover have "points_at ?r desired" by (rule points_at_show) (simp add: record_a_def)
  ultimately show ?thesis
    using dns_decide_unchanged_iff [of "records @ [?r]" desired "Some i" i] by (auto simp: record_a_def)
qed

end
