(* ===== verification/X509.thy ===== *)
theory X509
  imports RustText
begin

text \<open>
  \<open>crates/anago-core/src/x509.rs\<close>: the expiry of a DER-encoded certificate, from the element
  cursor to the arithmetic of the proleptic Gregorian calendar.
\<close>

unbundle bit_operations_syntax

section \<open>DER elements\<close>

definition SEQUENCE :: u8 where "SEQUENCE = 0x30"
definition INTEGER :: u8 where "INTEGER = 0x02"
definition VERSION :: u8 where "VERSION = 0xA0"
definition UTC_TIME :: u8 where "UTC_TIME = 0x17"
definition GENERALIZED_TIME :: u8 where "GENERALIZED_TIME = 0x18"

text \<open>\<open>Der\<close> is the bytes that are left; \<open>Der::next\<close> gives tag, contents and what is left then.\<close>

definition be_fold :: "u8 list \<Rightarrow> nat" where
  "be_fold bytes = foldl (\<lambda>n b. push_bit 8 n OR unat b) 0 bytes"

definition der_next :: "u8 list \<Rightarrow> (u8 \<times> u8 list \<times> u8 list) option" where
  "der_next bytes =
    (case bytes of
       tag # first # rest \<Rightarrow>
         let split = (\<lambda>length rest.
           if List.length rest < length then None
           else Some (tag, take length rest, drop length rest))
         in
         if first < 0x80 then split (unat first) rest
         else
           (let count = unat (first AND 0x7F) in
            if count = 0 \<or> 4 < count \<or> length rest < count then None
            else split (be_fold (take count rest)) (drop count rest))
     | _ \<Rightarrow> None)"

definition der_expect :: "u8 \<Rightarrow> u8 list \<Rightarrow> (u8 list \<times> u8 list) option" where
  "der_expect tag bytes =
    (case der_next bytes of
       None \<Rightarrow> None
     | Some (found, contents, rest) \<Rightarrow> if found = tag then Some (contents, rest) else None)"

section \<open>Dates\<close>

text \<open>\<open>i64\<close> division truncates towards zero; \<open>%\<close> goes with it.\<close>

definition is_leap :: "int \<Rightarrow> bool" where
  "is_leap year \<longleftrightarrow> year smod 4 = 0 \<and> (year smod 100 \<noteq> 0 \<or> year smod 400 = 0)"

definition days_in_month :: "int \<Rightarrow> int \<Rightarrow> int" where
  "days_in_month year month =
    (if month \<in> {1, 3, 5, 7, 8, 10, 12} then 31
     else if month \<in> {4, 6, 9, 11} then 30
     else if month = 2 \<and> is_leap year then 29
     else if month = 2 then 28
     else 0)"

definition days_from_civil :: "int \<Rightarrow> int \<Rightarrow> int \<Rightarrow> int" where
  "days_from_civil year month day =
    (let year = (if month \<le> 2 then year - 1 else year);
         era = (if 0 \<le> year then year else year - 399) sdiv 400;
         year_of_era = year - era * 400;
         day_of_year = (153 * (if 2 < month then month - 3 else month + 9) + 2) sdiv 5 + day - 1;
         day_of_era = year_of_era * 365 + year_of_era sdiv 4 - year_of_era sdiv 100 + day_of_year
     in era * 146097 + day_of_era - 719468)"

text \<open>
  \<open>number\<close>: \<open>str::get\<close> by byte range gives nothing where the range leaves the text or splits a
  character. On the bytes, a pair of ASCII digits is never part of a longer character.
\<close>

definition two_digits :: "u8 \<Rightarrow> u8 \<Rightarrow> int option" where
  "two_digits a b =
    (if is_digit (unat a) \<and> is_digit (unat b) then Some (int ((unat a - 48) * 10 + (unat b - 48))) else None)"

definition pair_at :: "u8 list \<Rightarrow> nat \<Rightarrow> int option" where
  "pair_at bytes at =
    (if length bytes < at + 2 then None else two_digits (bytes ! at) (bytes ! (at + 1)))"

definition clock_time :: "int \<Rightarrow> u8 list \<Rightarrow> int option" where
  "clock_time year rest =
    (if rest = [] \<or> last rest \<noteq> byte 90 then None
     else Option.bind (pair_at rest 0) (\<lambda>month.
       Option.bind (pair_at rest 2) (\<lambda>day.
       Option.bind (pair_at rest 4) (\<lambda>hour.
       Option.bind (pair_at rest 6) (\<lambda>minute.
       Option.bind (pair_at rest 8) (\<lambda>second.
         if \<not> (1 \<le> month \<and> month \<le> 12) \<or> day < 1 \<or> days_in_month year month < day
           \<or> 23 < hour \<or> 59 < minute \<or> 60 < second then None
         else Some (days_from_civil year month day * 86400 + hour * 3600 + minute * 60 + second)))))))"

definition x509_time :: "u8 \<Rightarrow> u8 list \<Rightarrow> int option" where
  "x509_time tag t =
    (case utf8_decode t of
       None \<Rightarrow> None
     | Some _ \<Rightarrow>
         if tag = UTC_TIME \<and> length t = 13 then
           Option.bind (pair_at t 0) (\<lambda>short.
             clock_time (if 50 \<le> short then 1900 + short else 2000 + short) (drop 2 t))
         else if tag = GENERALIZED_TIME \<and> length t = 15 then
           Option.bind (pair_at t 0) (\<lambda>century.
           Option.bind (pair_at t 2) (\<lambda>year.
             clock_time (century * 100 + year) (drop 4 t)))
         else None)"

section \<open>The walk\<close>

definition after_serial :: "u8 list \<Rightarrow> int option" where
  "after_serial elems =
    Option.bind (der_expect SEQUENCE elems) (\<lambda>(_, elems).
    Option.bind (der_expect SEQUENCE elems) (\<lambda>(_, elems).
    Option.bind (der_expect SEQUENCE elems) (\<lambda>(validity, _).
    Option.bind (der_next validity) (\<lambda>(_, _, validity).
    Option.bind (der_next validity) (\<lambda>(tag, t, _). x509_time tag t)))))"

definition not_after :: "u8 list \<Rightarrow> int option" where
  "not_after der =
    Option.bind (der_expect SEQUENCE der) (\<lambda>(certificate, _).
    Option.bind (der_expect SEQUENCE certificate) (\<lambda>(elems, _).
    Option.bind (der_next elems) (\<lambda>(tag, _, elems).
      if tag = VERSION then
        Option.bind (der_next elems) (\<lambda>(tag, _, elems).
          if tag \<noteq> INTEGER then None else after_serial elems)
      else if tag \<noteq> INTEGER then None
      else after_serial elems)))"

section \<open>The calendar\<close>

lemma smod_zero: "0 < (m :: int) \<Longrightarrow> y smod m = 0 \<longleftrightarrow> m dvd y"
  by (auto simp: signed_modulo_int_def dvd_eq_mod_eq_0 [symmetric] sgn_if)

lemma is_leap_iff: "is_leap y \<longleftrightarrow> 4 dvd y \<and> (\<not> 100 dvd y \<or> 400 dvd y)"
  by (simp add: is_leap_def smod_zero)

lemma sdiv_nonneg: "0 \<le> (a :: int) \<Longrightarrow> 0 < b \<Longrightarrow> a sdiv b = a div b"
  by (simp add: signed_divide_int_def sgn_if)

lemma era_floor: "(if 0 \<le> y then y else y - 399) sdiv 400 = (y :: int) div 400"
proof (cases "0 \<le> y")
  case False
  then have "(y - 399) sdiv 400 = - ((399 - y) div 400)"
    by (simp add: signed_divide_int_def)
  also have "(399 - y) div 400 = - (y div 400)"
  proof (rule int_div_pos_eq)
    show "399 - y = 400 * (- (y div 400)) + (399 - y mod 400)"
      using div_mult_mod_eq [of y 400] by linarith
    show "0 \<le> 399 - y mod 400" "399 - y mod 400 < 400"
      using pos_mod_bound [of 400 y] pos_mod_sign [of 400 y] by linarith+
  qed
  finally show ?thesis using False by simp
qed (simp add: sdiv_nonneg)

text \<open>One formula for the day number, with years that begin in March.\<close>

definition march_days :: "int \<Rightarrow> int" where
  "march_days y = 365 * y + y div 4 - y div 100 + y div 400"

lemma days_from_civil_closed:
  assumes "1 \<le> m" "m \<le> 12"
  shows "days_from_civil y m d = march_days (if m \<le> 2 then y - 1 else y)
    + (153 * (if 2 < m then m - 3 else m + 9) + 2) div 5 + d - 719469"
proof -
  have year: "y div 400 * 146097 + (y - y div 400 * 400) * 365 + (y - y div 400 * 400) sdiv 4
      - (y - y div 400 * 400) sdiv 100 = march_days y" for y :: int
  proof -
    define q where "q = y div 400"
    have "0 \<le> y - q * 400"
      using div_mult_mod_eq [of y 400] pos_mod_sign [of 400 y] unfolding q_def by linarith
    moreover have "(y - q * 400) div 4 = y div 4 - 100 * q"
      using div_mult_self1 [of 4 y "- 100 * q"] by (simp add: algebra_simps)
    moreover have "(y - q * 400) div 100 = y div 100 - 4 * q"
      using div_mult_self1 [of 100 y "- 4 * q"] by (simp add: algebra_simps)
    ultimately show ?thesis by (simp add: sdiv_nonneg march_days_def flip: q_def)
  qed
  have month: "(153 * (if 2 < m then m - 3 else m + 9) + 2) sdiv 5 = (153 * (if 2 < m then m - 3 else m + 9) + 2) div 5"
    using assms by (intro sdiv_nonneg) auto
  show ?thesis
    unfolding days_from_civil_def Let_def era_floor month
    using year [of "if m \<le> 2 then y - 1 else y"] by simp
qed

lemma div_pred: "0 < (n :: int) \<Longrightarrow> (y - 1) div n = (if n dvd y then y div n - 1 else y div n)"
proof -
  assume n: "0 < n"
  show ?thesis
  proof (cases "n dvd y")
    case True
    then obtain k where "y = n * k" by blast
    moreover have "(n * k - 1) div n = k - 1"
      using n by (intro int_div_pos_eq [where r = "n - 1"]) (simp_all add: algebra_simps)
    ultimately show ?thesis using n by simp
  next
    case False
    then have "0 < y mod n" using n by (metis dvd_eq_mod_eq_0 pos_mod_sign order_le_less)
    then have "(y - 1) div n = y div n"
      using n pos_mod_bound [OF n, of y] by (intro int_div_pos_eq [where r = "y mod n - 1"]) (simp_all add: algebra_simps)
    with False show ?thesis by simp
  qed
qed

lemma step_count:
  fixes q p r :: int
  assumes "c \<longrightarrow> b" "b \<longrightarrow> a"
  shows "365 * y + q - p + r - (365 * (y - 1) + (if a then q - 1 else q) - (if b then p - 1 else p)
      + (if c then r - 1 else r)) = (if a \<and> (\<not> b \<or> c) then 366 else 365)"
  using assms by (cases a; cases b; cases c) simp_all

lemma march_days_step: "march_days y - march_days (y - 1) = (if is_leap y then 366 else 365)"
proof -
  have "400 dvd y \<longrightarrow> 100 dvd y" "100 dvd y \<longrightarrow> 4 dvd y"
    by (rule impI, rule dvd_trans [rotated], assumption, simp)+
  moreover have "(y - 1) div 4 = (if 4 dvd y then y div 4 - 1 else y div 4)"
    "(y - 1) div 100 = (if 100 dvd y then y div 100 - 1 else y div 100)"
    "(y - 1) div 400 = (if 400 dvd y then y div 400 - 1 else y div 400)"
    by (rule div_pred, simp)+
  ultimately show ?thesis
    unfolding march_days_def is_leap_iff by (simp only: step_count)
qed

text \<open>A date and the next one.\<close>

definition date_ok :: "int \<Rightarrow> int \<Rightarrow> int \<Rightarrow> bool" where
  "date_ok y m d \<longleftrightarrow> 1 \<le> m \<and> m \<le> 12 \<and> 1 \<le> d \<and> d \<le> days_in_month y m"

fun next_date :: "int \<times> int \<times> int \<Rightarrow> int \<times> int \<times> int" where
  "next_date (y, m, d) =
    (if d < days_in_month y m then (y, m, d + 1)
     else if m < 12 then (y, m + 1, 1)
     else (y + 1, 1, 1))"

fun day_number :: "int \<times> int \<times> int \<Rightarrow> int" where
  "day_number (y, m, d) = days_from_civil y m d"

lemma month_cases:
  "1 \<le> m \<Longrightarrow> m \<le> (12 :: int) \<Longrightarrow>
    m = 1 \<or> m = 2 \<or> m = 3 \<or> m = 4 \<or> m = 5 \<or> m = 6 \<or> m = 7 \<or> m = 8 \<or> m = 9 \<or> m = 10 \<or> m = 11 \<or> m = 12"
  by presburger

lemma next_month: "1 \<le> m \<Longrightarrow> m < 12 \<Longrightarrow>
    days_from_civil y (m + 1) 1 = days_from_civil y m (days_in_month y m) + 1"
proof -
  assume m: "1 \<le> m" "m < 12"
  have s: "march_days y = march_days (y - 1) + (if is_leap y then 366 else 365)"
    using march_days_step [of y] by linarith
  have "m = 1 \<or> m = 2 \<or> m = 3 \<or> m = 4 \<or> m = 5 \<or> m = 6 \<or> m = 7 \<or> m = 8 \<or> m = 9 \<or> m = 10 \<or> m = 11"
    using m by presburger
  then show ?thesis
    by (elim disjE) (simp_all add: days_from_civil_closed days_in_month_def s)
qed

lemma next_year: "days_from_civil (y + 1) 1 1 = days_from_civil y 12 31 + 1"
  by (simp add: days_from_civil_closed)

lemma day_in_month: "days_from_civil y m d = days_from_civil y m 1 + d - 1"
  by (simp add: days_from_civil_def Let_def)

lemma day_number_next:
  assumes "date_ok y m d"
  shows "day_number (next_date (y, m, d)) = day_number (y, m, d) + 1"
proof (cases "d < days_in_month y m")
  case True
  then show ?thesis
    using day_in_month [of y m "d + 1"] day_in_month [of y m d] by simp
next
  case False
  with assms have d: "d = days_in_month y m" and m: "1 \<le> m" "m \<le> 12" by (auto simp: date_ok_def)
  show ?thesis
  proof (cases "m < 12")
    case True
    then show ?thesis using next_month [OF m(1), of y] d by simp
  next
    case False
    with m have "m = 12" by simp
    then show ?thesis using next_year [of y] d by (simp add: days_in_month_def)
  qed
qed

lemma days_in_month_pos: "1 \<le> m \<Longrightarrow> m \<le> 12 \<Longrightarrow> 28 \<le> days_in_month y m"
  by (drule (1) month_cases, elim disjE) (simp_all add: days_in_month_def)

lemma next_date_ok:
  assumes "date_ok y m d" "next_date (y, m, d) = (y', m', d')"
  shows "date_ok y' m' d'"
  using assms days_in_month_pos [of "m + 1" y] days_in_month_pos [of 1 "y + 1"]
  by (simp add: date_ok_def split: if_splits)

lemma epoch: "days_from_civil 1970 1 1 = 0"
  by (simp add: days_from_civil_closed march_days_def)

section \<open>What a time says\<close>

definition two :: "nat \<Rightarrow> u8 list" where
  "two n = [byte (48 + n div 10), byte (48 + n mod 10)]"

lemma two_digits_Some: "two_digits a b = Some v \<longleftrightarrow> (\<exists>n < 100. [a, b] = two n \<and> v = int n)"
proof
  assume v: "two_digits a b = Some v"
  then have "is_digit (unat a)" "is_digit (unat b)" by (auto simp: two_digits_def split: if_splits)
  then have d: "unat a = 48 + (unat a - 48)" "unat a - 48 \<le> 9" "unat b = 48 + (unat b - 48)" "unat b - 48 \<le> 9"
    unfolding is_digit_def by linarith+
  define x y where "x = unat a - 48" and "y = unat b - 48"
  then have d: "unat a = 48 + x" "x \<le> 9" "unat b = 48 + y" "y \<le> 9" using d by simp_all
  define n where "n = x * 10 + y"
  have "n < 100" "48 + n div 10 = unat a" "48 + n mod 10 = unat b" using d by (simp_all add: n_def)
  moreover have "v = int n" using v d by (simp add: two_digits_def is_digit_def n_def)
  ultimately show "\<exists>n < 100. [a, b] = two n \<and> v = int n" by (auto simp: two_def)
next
  assume "\<exists>n < 100. [a, b] = two n \<and> v = int n"
  then obtain n where n: "n < 100" "a = byte (48 + n div 10)" "b = byte (48 + n mod 10)" "v = int n"
    by (auto simp: two_def)
  moreover have "n div 10 < 10" "n mod 10 < 10" using n(1) by simp_all
  moreover from this n(2,3) have "unat a = 48 + n div 10" "unat b = 48 + n mod 10" by simp_all
  ultimately show "two_digits a b = Some v" by (simp add: two_digits_def is_digit_def less_Suc_eq_le [symmetric])
qed

definition stamp :: "nat \<Rightarrow> nat \<Rightarrow> nat \<Rightarrow> nat \<Rightarrow> nat \<Rightarrow> u8 list" where
  "stamp month day hour minute second = two month @ two day @ two hour @ two minute @ two second @ [byte 90]"

definition clock_ok :: "int \<Rightarrow> nat \<Rightarrow> nat \<Rightarrow> nat \<Rightarrow> nat \<Rightarrow> nat \<Rightarrow> bool" where
  "clock_ok year month day hour minute second \<longleftrightarrow>
    date_ok year (int month) (int day) \<and> hour \<le> 23 \<and> minute \<le> 59 \<and> second \<le> 60"

definition seconds_of :: "int \<Rightarrow> nat \<Rightarrow> nat \<Rightarrow> nat \<Rightarrow> nat \<Rightarrow> nat \<Rightarrow> int" where
  "seconds_of year month day hour minute second =
    days_from_civil year (int month) (int day) * 86400 + int hour * 3600 + int minute * 60 + int second"

lemma days_in_month_le: "days_in_month y m \<le> 31"
  by (simp add: days_in_month_def)

lemma list_of_11: "length xs = 11 \<Longrightarrow> \<exists>a b c d e f g h i j k. xs = [a, b, c, d, e, f, g, h, i, j, k]"
  by (auto simp: eval_nat_numeral length_Suc_conv)

lemma clock_time_iff:
  assumes "length rest = 11"
  shows "clock_time year rest = Some n \<longleftrightarrow>
    (\<exists>month day hour minute second. rest = stamp month day hour minute second
       \<and> clock_ok year month day hour minute second \<and> n = seconds_of year month day hour minute second)"
proof -
  from list_of_11 [OF assms] obtain a b c d e f g h i j k where
    rest: "rest = [a, b, c, d, e, f, g, h, i, j, k]" by blast
  have small: "clock_ok year mo da ho mi se \<Longrightarrow> mo < 100 \<and> da < 100 \<and> ho < 100 \<and> mi < 100 \<and> se < 100"
    for mo da ho mi se
    using days_in_month_le [of year "int mo"] by (auto simp: clock_ok_def date_ok_def)
  have "clock_time year rest = Some n \<longleftrightarrow> k = byte 90 \<and>
     (\<exists>mo da ho mi se. two_digits a b = Some mo \<and> two_digits c d = Some da \<and> two_digits e f = Some ho
       \<and> two_digits g h = Some mi \<and> two_digits i j = Some se
       \<and> 1 \<le> mo \<and> mo \<le> 12 \<and> 1 \<le> da \<and> da \<le> days_in_month year mo \<and> ho \<le> 23 \<and> mi \<le> 59 \<and> se \<le> 60
       \<and> n = days_from_civil year mo da * 86400 + ho * 3600 + mi * 60 + se)"
    by (auto simp: clock_time_def rest pair_at_def bind_eq_Some_conv not_less)
  also have "\<dots> \<longleftrightarrow> (\<exists>mo da ho mi se. k = byte 90 \<and> [a, b] = two mo \<and> [c, d] = two da \<and> [e, f] = two ho
       \<and> [g, h] = two mi \<and> [i, j] = two se
       \<and> clock_ok year mo da ho mi se \<and> n = seconds_of year mo da ho mi se)"
    (is "?l \<longleftrightarrow> ?r")
  proof
    assume ?l
    then show ?r
      unfolding two_digits_Some by (fastforce simp: clock_ok_def date_ok_def seconds_of_def)
  next
    assume ?r
    then obtain mo da ho mi se where r: "k = byte 90" "[a, b] = two mo" "[c, d] = two da" "[e, f] = two ho"
       "[g, h] = two mi" "[i, j] = two se" and ok: "clock_ok year mo da ho mi se" "n = seconds_of year mo da ho mi se"
      by blast
    from small [OF ok(1)] r have "two_digits a b = Some (int mo)" "two_digits c d = Some (int da)"
      "two_digits e f = Some (int ho)" "two_digits g h = Some (int mi)" "two_digits i j = Some (int se)"
      unfolding two_digits_Some by blast+
    with r(1) ok show ?l by (simp add: clock_ok_def date_ok_def seconds_of_def)
  qed
  also have "\<dots> \<longleftrightarrow> (\<exists>month day hour minute second. rest = stamp month day hour minute second
       \<and> clock_ok year month day hour minute second \<and> n = seconds_of year month day hour minute second)"
    by (simp add: rest stamp_def two_def) blast
  finally show ?thesis .
qed

lemma clock_time_stamp:
  "clock_ok year mo da ho mi se \<Longrightarrow> clock_time year (stamp mo da ho mi se) = Some (seconds_of year mo da ho mi se)"
proof -
  have "length (stamp mo da ho mi se) = 11" by (simp add: stamp_def two_def)
  then show "clock_ok year mo da ho mi se \<Longrightarrow> ?thesis" by (subst clock_time_iff) blast+
qed

definition ascii_bytes :: "u8 list \<Rightarrow> bool" where
  "ascii_bytes t \<longleftrightarrow> (\<forall>b \<in> set t. unat b < 0x80)"

lemma utf8_decode_ascii: "ascii_bytes t \<Longrightarrow> utf8_decode t = Some (map unat t)"
proof -
  assume t: "ascii_bytes t"
  then have "utf8 (map unat t) = t" by (induction t) (auto simp: ascii_bytes_def)
  moreover have "valid_str (map unat t)" using t by (induction t) (auto simp: ascii_bytes_def)
  ultimately show ?thesis by (metis utf8_decode_utf8)
qed

lemma ascii_two: "n < 100 \<Longrightarrow> ascii_bytes (two n @ t) \<longleftrightarrow> ascii_bytes t"
proof -
  assume "n < 100"
  then have "n div 10 < 10" by simp
  moreover have "n mod 10 < 80" using mod_less_divisor [of 10 n] by linarith
  ultimately show ?thesis by (simp add: ascii_bytes_def two_def)
qed

lemma clock_small: "clock_ok year mo da ho mi se \<Longrightarrow> mo < 100 \<and> da < 100 \<and> ho < 100 \<and> mi < 100 \<and> se < 100"
  using days_in_month_le [of year "int mo"] by (auto simp: clock_ok_def date_ok_def)

lemma ascii_stamp: "clock_ok year mo da ho mi se \<Longrightarrow> ascii_bytes (stamp mo da ho mi se)"
  by (drule clock_small) (simp add: stamp_def ascii_two, simp add: ascii_bytes_def)

text \<open>The window of the two-digit year, and the two forms of a time.\<close>

definition utc_year :: "nat \<Rightarrow> int" where
  "utc_year yy = (if 50 \<le> yy then 1900 + int yy else 2000 + int yy)"

lemma split_pair: "2 \<le> length t \<Longrightarrow> t = t ! 0 # t ! 1 # drop 2 t"
  by (cases t; cases "tl t") auto

lemma utc_time_iff:
  "x509_time UTC_TIME t = Some n \<longleftrightarrow>
    (\<exists>yy < 100. \<exists>mo da ho mi se. t = two yy @ stamp mo da ho mi se
       \<and> clock_ok (utc_year yy) mo da ho mi se \<and> n = seconds_of (utc_year yy) mo da ho mi se)"
  (is "?l \<longleftrightarrow> ?r")
proof
  assume ?l
  then obtain short where len: "length t = 13" and p: "pair_at t 0 = Some short"
    and c: "clock_time (if 50 \<le> short then 1900 + short else 2000 + short) (drop 2 t) = Some n"
    by (auto simp: x509_time_def bind_eq_Some_conv UTC_TIME_def GENERALIZED_TIME_def split: option.splits if_splits)
  from p len obtain yy where yy: "yy < 100" "[t ! 0, t ! 1] = two yy" "short = int yy"
    by (auto simp: pair_at_def two_digits_Some)
  then have "(if 50 \<le> short then 1900 + short else 2000 + short) = utc_year yy" by (simp add: utc_year_def)
  with c have "clock_time (utc_year yy) (drop 2 t) = Some n" by simp
  then obtain mo da ho mi se where "drop 2 t = stamp mo da ho mi se" "clock_ok (utc_year yy) mo da ho mi se"
    "n = seconds_of (utc_year yy) mo da ho mi se"
    using len by (auto simp: clock_time_iff)
  moreover have "t = [t ! 0, t ! 1] @ drop 2 t" using split_pair [of t] len by simp
  ultimately show ?r using yy by metis
next
  assume ?r
  then obtain yy mo da ho mi se where yy: "yy < 100" and t: "t = two yy @ stamp mo da ho mi se"
    and ok: "clock_ok (utc_year yy) mo da ho mi se" and n: "n = seconds_of (utc_year yy) mo da ho mi se" by blast
  have len: "length t = 13" by (simp add: t two_def stamp_def)
  have "pair_at t 0 = two_digits (byte (48 + yy div 10)) (byte (48 + yy mod 10))"
    using len by (simp add: pair_at_def t two_def)
  also have "\<dots> = Some (int yy)" using yy by (auto simp: two_digits_Some two_def)
  finally have p: "pair_at t 0 = Some (int yy)" .
  have "drop 2 t = stamp mo da ho mi se" by (simp add: t two_def)
  then have c: "clock_time (utc_year yy) (drop 2 t) = Some n"
    using ok n by (simp add: clock_time_stamp)
  have "utf8_decode t = Some (map unat t)"
    using ascii_stamp [OF ok] yy by (intro utf8_decode_ascii) (simp add: t ascii_two)
  with len p c show ?l by (simp add: x509_time_def utc_year_def)
qed

lemma generalized_time_iff:
  "x509_time GENERALIZED_TIME t = Some n \<longleftrightarrow>
    (\<exists>cc < 100. \<exists>yy < 100. \<exists>mo da ho mi se. t = two cc @ two yy @ stamp mo da ho mi se
       \<and> clock_ok (int (cc * 100 + yy)) mo da ho mi se \<and> n = seconds_of (int (cc * 100 + yy)) mo da ho mi se)"
  (is "?l \<longleftrightarrow> ?r")
proof
  assume ?l
  then obtain century year where len: "length t = 15" and p: "pair_at t 0 = Some century" "pair_at t 2 = Some year"
    and c: "clock_time (century * 100 + year) (drop 4 t) = Some n"
    by (auto simp: x509_time_def bind_eq_Some_conv UTC_TIME_def GENERALIZED_TIME_def split: option.splits if_splits)
  from p len obtain cc yy where y: "cc < 100" "[t ! 0, t ! 1] = two cc" "century = int cc"
    "yy < 100" "[t ! 2, t ! 3] = two yy" "year = int yy"
    by (auto simp: pair_at_def two_digits_Some numeral_3_eq_3 eval_nat_numeral)
  then have "clock_time (int (cc * 100 + yy)) (drop 4 t) = Some n" using c by simp
  then obtain mo da ho mi se where "drop 4 t = stamp mo da ho mi se" "clock_ok (int (cc * 100 + yy)) mo da ho mi se"
    "n = seconds_of (int (cc * 100 + yy)) mo da ho mi se"
    using len by (auto simp: clock_time_iff)
  moreover have "t = [t ! 0, t ! 1] @ [t ! 2, t ! 3] @ drop 4 t"
    using split_pair [of t] split_pair [of "drop 2 t"] len by (simp add: eval_nat_numeral)
  ultimately show ?r using y by metis
next
  assume ?r
  then obtain cc yy mo da ho mi se where y: "cc < 100" "yy < 100" and t: "t = two cc @ two yy @ stamp mo da ho mi se"
    and ok: "clock_ok (int (cc * 100 + yy)) mo da ho mi se" and n: "n = seconds_of (int (cc * 100 + yy)) mo da ho mi se"
    by blast
  have len: "length t = 15" by (simp add: t two_def stamp_def)
  have d: "two_digits (byte (48 + k div 10)) (byte (48 + k mod 10)) = Some (int k)" if "k < 100" for k
    using that by (auto simp: two_digits_Some two_def)
  have p: "pair_at t 0 = Some (int cc)" "pair_at t 2 = Some (int yy)"
    using len d [OF y(1)] d [OF y(2)] by (simp_all add: pair_at_def t two_def numeral_2_eq_2)
  have "drop 4 t = stamp mo da ho mi se" by (simp add: t two_def)
  then have c: "clock_time (int (cc * 100 + yy)) (drop 4 t) = Some n"
    using ok n by (simp add: clock_time_stamp)
  have "utf8_decode t = Some (map unat t)"
    using ascii_stamp [OF ok] y by (intro utf8_decode_ascii) (simp add: t ascii_two)
  with len p c show ?l by (simp add: x509_time_def UTC_TIME_def GENERALIZED_TIME_def)
qed

section \<open>What the walk reads\<close>

text \<open>DER as an issuer writes it: the shortest definite length.\<close>

fun be_bytes :: "nat \<Rightarrow> nat \<Rightarrow> u8 list" where
  "be_bytes 0 n = []"
| "be_bytes (Suc k) n = be_bytes k (n div 256) @ [byte (n mod 256)]"

definition der_count :: "nat \<Rightarrow> nat" where
  "der_count n = (if n < 2 ^ 8 then 1 else if n < 2 ^ 16 then 2 else if n < 2 ^ 24 then 3 else 4)"

definition der_length :: "nat \<Rightarrow> u8 list" where
  "der_length n = (if n < 128 then [byte n] else byte (128 + der_count n) # be_bytes (der_count n) n)"

definition der_encode :: "u8 \<Rightarrow> u8 list \<Rightarrow> u8 list" where
  "der_encode tag contents = tag # der_length (length contents) @ contents"

lemma length_be_bytes [simp]: "length (be_bytes k n) = k"
  by (induction k arbitrary: n) simp_all

lemma push_or: "push_bit 8 n OR unat (b :: u8) = n * 256 + unat b"
proof -
  have b: "take_bit 8 (unat b) = unat b" by (rule take_bit_nat_eq_self) simp
  have "push_bit 8 n AND take_bit 8 (unat b) = 0" by (rule bit_eqI) (simp add: bit_simps)
  then have "push_bit 8 n AND unat b = 0" by (simp only: b)
  then have "push_bit 8 n OR unat b = push_bit 8 n + unat b"
    by (rule disjunctive_add_eq_or [symmetric])
  then show ?thesis by (simp add: push_bit_eq_mult)
qed

lemma be_fold_snoc: "be_fold (bs @ [b]) = be_fold bs * 256 + unat b"
  by (simp add: be_fold_def push_or)

lemma be_fold_be_bytes: "n < 256 ^ k \<Longrightarrow> be_fold (be_bytes k n) = n"
proof (induction k arbitrary: n)
  case 0
  then show ?case by (simp add: be_fold_def)
next
  case (Suc k)
  then have "n div 256 < 256 ^ k" by (simp add: less_mult_imp_div_less mult.commute)
  with Suc.IH show ?case by (simp add: be_fold_snoc)
qed

lemma der_count_bounds: "n < 2 ^ 32 \<Longrightarrow> n < 256 ^ der_count n" "1 \<le> der_count n" "der_count n \<le> 4"
  by (auto simp: der_count_def)

lemma low_seven: "unat ((b :: u8) AND 0x7F) = unat b mod 128"
proof -
  have "b AND 0x7F = take_bit 7 b"
    by (simp add: take_bit_eq_mask mask_eq_exp_minus_1)
  then show ?thesis
    by (simp only: unsigned_take_bit_eq) (simp add: take_bit_eq_mod)
qed

lemma der_next_encode:
  assumes "length contents < 2 ^ 32"
  shows "der_next (der_encode tag contents @ rest) = Some (tag, contents, rest)"
proof (cases "length contents < 128")
  case True
  then have "byte (length contents) < 0x80" by (simp add: word_less_nat_alt)
  with True show ?thesis by (simp add: der_next_def der_encode_def der_length_def Let_def)
next
  case False
  let ?n = "length contents"
  let ?k = "der_count ?n"
  have k: "1 \<le> ?k" "?k \<le> 4" "be_fold (be_bytes ?k ?n) = ?n"
    using der_count_bounds [of ?n] assms be_fold_be_bytes by auto
  then have "unat (byte (128 + ?k)) = 128 + ?k" by simp
  then have f: "\<not> byte (128 + ?k) < 0x80" "unat (byte (128 + ?k) AND 0x7F) = ?k"
    using k by (simp_all add: word_less_nat_alt low_seven)
  show ?thesis
    using False f k by (simp add: der_next_def der_encode_def der_length_def Let_def)
qed

lemma der_next_sound:
  assumes "der_next bytes = Some (tag, contents, rest)"
  shows "\<exists>len. bytes = tag # len @ contents @ rest \<and> 1 \<le> length len \<and> length len \<le> 5"
proof -
  from assms obtain first r where b: "bytes = tag # first # r"
    by (auto simp: der_next_def Let_def split: list.splits if_splits)
  show ?thesis
  proof (cases "first < 0x80")
    case True
    with assms b have "contents = take (unat first) r" "rest = drop (unat first) r"
      by (auto simp: der_next_def Let_def split: if_splits)
    then show ?thesis using b by (intro exI [of _ "[first]"]) simp
  next
    case False
    define k where "k = unat (first AND 0x7F)"
    define m where "m = be_fold (take k r)"
    from False assms b have k: "k \<le> 4" "contents = take m (drop k r)" "rest = drop m (drop k r)"
      by (auto simp: der_next_def Let_def k_def m_def split: if_splits)
    then have "r = take k r @ contents @ rest" by (metis append_take_drop_id)
    then show ?thesis using b k(1) by (intro exI [of _ "first # take k r"]) simp
  qed
qed

lemma der_expect_encode:
  "length contents < 2 ^ 32 \<Longrightarrow> der_expect tag (der_encode tag contents @ rest) = Some (contents, rest)"
  by (simp add: der_expect_def der_next_encode)

text \<open>A certificate, as far as the walk goes; \<open>version\<close> is empty in a version 1 certificate.\<close>

definition certificate :: "u8 list option \<Rightarrow> u8 list \<Rightarrow> u8 list \<Rightarrow> u8 list \<Rightarrow> u8 list \<Rightarrow> u8 list \<Rightarrow> u8 list \<Rightarrow> u8 list" where
  "certificate version serial signature issuer validity extensions outer =
    der_encode SEQUENCE (der_encode SEQUENCE
      ((case version of None \<Rightarrow> [] | Some v \<Rightarrow> der_encode VERSION v)
       @ der_encode INTEGER serial @ der_encode SEQUENCE signature @ der_encode SEQUENCE issuer
       @ der_encode SEQUENCE validity @ extensions) @ outer)"

lemma not_after_certificate:
  assumes size: "length (certificate version serial signature issuer validity extensions outer) < 2 ^ 32"
    and validity: "validity = der_encode t1 before @ der_encode tag after @ rest"
  shows "not_after (certificate version serial signature issuer validity extensions outer @ trailing)
    = x509_time tag after"
proof -
  let ?fields = "(case version of None \<Rightarrow> [] | Some v \<Rightarrow> der_encode VERSION v)
       @ der_encode INTEGER serial @ der_encode SEQUENCE signature @ der_encode SEQUENCE issuer
       @ der_encode SEQUENCE validity @ extensions"
  have len: "length c \<le> length (der_encode tg c)" for tg c by (simp add: der_encode_def)
  have small: "length serial < 2 ^ 32" "length signature < 2 ^ 32" "length issuer < 2 ^ 32" "length validity < 2 ^ 32"
    "length ?fields < 2 ^ 32" "length (der_encode SEQUENCE ?fields @ outer) < 2 ^ 32"
    "\<And>v. version = Some v \<Longrightarrow> length v < 2 ^ 32"
    using size len [of serial INTEGER] len [of signature SEQUENCE] len [of issuer SEQUENCE] len [of validity SEQUENCE]
      len [of ?fields SEQUENCE] len [of "der_encode SEQUENCE ?fields @ outer" SEQUENCE] len [of "the version" VERSION]
    unfolding certificate_def by (auto simp del: One_nat_def split: option.splits)
  then have inner: "length before < 2 ^ 32" "length after < 2 ^ 32"
    using len [of before t1] len [of after tag] by (auto simp: validity)
  have tags: "INTEGER \<noteq> VERSION" by (simp add: INTEGER_def VERSION_def)
  have "after_serial (der_encode SEQUENCE signature @ der_encode SEQUENCE issuer
       @ der_encode SEQUENCE validity @ extensions) = x509_time tag after"
    using small inner by (simp add: after_serial_def der_expect_encode validity der_next_encode)
  then show ?thesis
    unfolding not_after_def certificate_def
    using small tags by (cases version) (simp_all add: der_expect_encode der_next_encode)
qed

end
