(* ===== verification/Dnswire.thy ===== *)
theory Dnswire
  imports RustText
begin

text \<open>
  \<open>crates/anago-core/src/dnswire.rs\<close>: the TXT question and the reader of its answer, bytes in and
  bytes out. A position in the message is a \<open>nat\<close>; every read is checked, as \<open>slice::get\<close> does.
\<close>

unbundle bit_operations_syntax

section \<open>Shape\<close>

definition TYPE_TXT :: u16 where "TYPE_TXT = 16"
definition CLASS_IN :: u16 where "CLASS_IN = 1"
definition TYPE_OPT :: u16 where "TYPE_OPT = 41"
definition UDP_PAYLOAD :: u16 where "UDP_PAYLOAD = 1232"
definition RCODE_OK :: u8 where "RCODE_OK = 0"
definition RCODE_NAME_ERROR :: u8 where "RCODE_NAME_ERROR = 3"
definition HEADER_LEN :: nat where "HEADER_LEN = 12"
definition MAX_NAME :: nat where "MAX_NAME = 255"
definition MAX_LABEL :: nat where "MAX_LABEL = 63"
definition MAX_JUMPS :: nat where "MAX_JUMPS = 32"

datatype dns_error = BadName rstr | NotOurQuestion | Malformed rstr

fun dns_error_show :: "dns_error \<Rightarrow> rstr" where
  "dns_error_show (BadName why) = lit ''that is not a DNS name anago can ask about: '' @ why"
| "dns_error_show NotOurQuestion =
     lit ''the DNS answer does not belong to the question that was asked''"
| "dns_error_show (Malformed what) = lit ''the DNS answer could not be read: '' @ what"

record reply =
  rp_rcode :: u8
  rp_truncated :: bool
  rp_values :: "rstr list"

definition reply_answered :: "reply \<Rightarrow> bool" where
  "reply_answered r \<longleftrightarrow> rp_rcode r = RCODE_OK \<or> rp_rcode r = RCODE_NAME_ERROR"

definition reply_holds :: "reply \<Rightarrow> rstr \<Rightarrow> bool" where
  "reply_holds r v \<longleftrightarrow> (\<exists>held \<in> set (rp_values r). held = v)"

text \<open>\<open>u16::to_be_bytes\<close> and \<open>u16::from_be_bytes\<close>.\<close>

definition be16 :: "u16 \<Rightarrow> u8 list" where
  "be16 w = [byte (unat w div 256), byte (unat w mod 256)]"

definition from_be16 :: "u8 \<Rightarrow> u8 \<Rightarrow> u16" where
  "from_be16 a b = of_nat (unat a * 256 + unat b)"

section \<open>The question\<close>

fun encode_labels :: "rstr list \<Rightarrow> dns_error + u8 list" where
  "encode_labels [] = Inr []"
| "encode_labels (label # rest) =
    (if label = [] then Inl (BadName (lit ''an empty label''))
     else if MAX_LABEL < length (utf8 label) then Inl (BadName (lit ''a label longer than 63 bytes''))
     else attempt (encode_labels rest) (\<lambda>wire.
       Inr (byte (length (utf8 label)) # utf8 label @ wire)))"

definition encode_name :: "rstr \<Rightarrow> dns_error + u8 list" where
  "encode_name name =
    (let name = trim_end_matches 46 name in
     if name = [] then Inl (BadName (lit ''empty''))
     else if \<not> (\<forall>c \<in> set name. c < 0x80) then
       Inl (BadName (lit ''not ASCII '' @ [0x2014] @ lit '' needs its xn-- form''))
     else attempt (encode_labels (split_on 46 name)) (\<lambda>labels.
       let wire = labels @ [0] in
       if MAX_NAME < length wire then Inl (BadName (lit ''longer than 255 bytes'')) else Inr wire))"

definition txt_query :: "u16 \<Rightarrow> rstr \<Rightarrow> dns_error + u8 list" where
  "txt_query i name =
    attempt (encode_name name) (\<lambda>question.
      Inr (be16 i @ [0, 0] @ be16 1 @ [0, 0] @ [0, 0] @ be16 1
        @ question @ be16 TYPE_TXT @ be16 CLASS_IN
        @ [0] @ be16 TYPE_OPT @ be16 UDP_PAYLOAD @ [0, 0, 0, 0] @ be16 0))"

section \<open>Names in a message\<close>

text \<open>
  The loop of \<open>read_name\<close>: position, name so far, where the name ended in the stream once a pointer
  was followed, and the pointers followed.
\<close>

function read_name_loop ::
  "u8 list \<Rightarrow> nat \<Rightarrow> rstr \<Rightarrow> nat option \<Rightarrow> nat \<Rightarrow> dns_error + (rstr \<times> nat)"
where
  "read_name_loop message at name after jumps =
    (if length message \<le> at then Inl (Malformed (lit ''a name runs past the end''))
     else let len = message ! at in
       if len AND 0xC0 = 0 then
         (if len = 0 then Inr (name, case after of None \<Rightarrow> at + 1 | Some a \<Rightarrow> a)
          else let start = at + 1; stop = start + unat len in
            if length message < stop then Inl (Malformed (lit ''a label runs past the end''))
            else read_name_loop message stop
              ((if name = [] then [] else name @ [46]) @ utf8_lossy (take (unat len) (drop start message)))
              after jumps)
       else if len AND 0xC0 = 0xC0 then
         (if length message \<le> at + 1 then Inl (Malformed (lit ''a pointer runs past the end''))
          else if MAX_JUMPS < jumps + 1 then Inl (Malformed (lit ''compression pointers in a loop''))
          else read_name_loop message (unat (len AND 0x3F) * 256 + unat (message ! (at + 1))) name
            (Some (case after of None \<Rightarrow> at + 2 | Some a \<Rightarrow> a)) (jumps + 1))
       else Inl (Malformed (lit ''a label length that is not one'')))"
  by pat_completeness auto
termination
  by (relation "measures [\<lambda>(m, at, n, a, j). MAX_JUMPS + 1 - j, \<lambda>(m, at, n, a, j). length m - at]")
    (auto simp: Let_def)

declare read_name_loop.simps [simp del]

definition read_name :: "u8 list \<Rightarrow> nat \<Rightarrow> dns_error + (rstr \<times> nat)" where
  "read_name message start = read_name_loop message start [] None 0"

definition skip_name :: "u8 list \<Rightarrow> nat \<Rightarrow> dns_error + nat" where
  "skip_name message at = attempt (read_name message at) (\<lambda>(_, after). Inr after)"

definition fold_name :: "rstr \<Rightarrow> rstr" where
  "fold_name name = map ascii_lower (trim_end_matches 46 name)"

section \<open>The answer\<close>

text \<open>Each character string is a length and that many bytes, or as many as are left.\<close>

function read_character_strings :: "u8 list \<Rightarrow> rstr" where
  "read_character_strings [] = []"
| "read_character_strings (len # rdata) =
    utf8_lossy (take (unat len) rdata) @ read_character_strings (drop (unat len) rdata)"
  by pat_completeness auto
termination
  by (relation "measure length") auto

fun skip_questions :: "u8 list \<Rightarrow> nat \<Rightarrow> nat \<Rightarrow> dns_error + nat" where
  "skip_questions message 0 at = Inr at"
| "skip_questions message (Suc n) at =
    attempt (skip_name message at) (\<lambda>at.
      if at + 4 \<le> length message then skip_questions message n (at + 4)
      else Inl (Malformed (lit ''a question runs past the end'')))"

text \<open>
  The loop over the answers gives the values; a record that runs past the end stops it, and the
  values so far are the answer.
\<close>

fun read_answers :: "u8 list \<Rightarrow> rstr \<Rightarrow> nat \<Rightarrow> nat \<Rightarrow> rstr list \<Rightarrow> dns_error + rstr list" where
  "read_answers message wanted 0 at vals = Inr vals"
| "read_answers message wanted (Suc n) at vals =
    attempt (read_name message at) (\<lambda>(owner, after).
      let rdata = after + 10 in
      if length message < rdata then Inr vals
      else
        let kind = from_be16 (message ! after) (message ! (after + 1));
            cls = from_be16 (message ! (after + 2)) (message ! (after + 3));
            len = unat (from_be16 (message ! (rdata - 2)) (message ! (rdata - 1)));
            stop = rdata + len
        in
        if length message < stop then Inr vals
        else read_answers message wanted n stop
          (if kind = TYPE_TXT \<and> cls = CLASS_IN \<and> fold_name owner = wanted
           then vals @ [read_character_strings (take len (drop rdata message))] else vals))"

definition read_txt :: "u8 list \<Rightarrow> u16 \<Rightarrow> rstr \<Rightarrow> dns_error + reply" where
  "read_txt message i name =
    (if length message < HEADER_LEN then Inl (Malformed (lit ''shorter than a header''))
     else if from_be16 (message ! 0) (message ! 1) \<noteq> i then Inl NotOurQuestion
     else if message ! 2 AND 0x80 = 0 then Inl (Malformed (lit ''not marked as an answer''))
     else
       let truncated = (message ! 2 AND 0x02 \<noteq> 0);
           rcode = message ! 3 AND 0x0F;
           questions = from_be16 (message ! 4) (message ! 5);
           answers = from_be16 (message ! 6) (message ! 7)
       in
       attempt (skip_questions message (unat questions) HEADER_LEN) (\<lambda>at.
       attempt (read_answers message (fold_name name) (unat answers) at []) (\<lambda>vals.
         Inr \<lparr>rp_rcode = rcode, rp_truncated = truncated, rp_values = vals\<rparr>)))"

section \<open>Bytes\<close>

lemma unat_u16_less: "unat (w :: u16) < 65536"
  using unsigned_less [of w] by simp

lemma from_be16_parts [simp]: "from_be16 (byte (unat w div 256)) (byte (unat w mod 256)) = w"
proof -
  have "unat w div 256 < 256" using unat_u16_less [of w] by (simp add: less_mult_imp_div_less)
  then show ?thesis by (simp add: from_be16_def)
qed

lemma small_label: "unat (b :: u8) < 64 \<Longrightarrow> b AND 0xC0 = 0"
proof -
  assume b: "unat b < 64"
  have "unat (take_bit 6 b) = unat b"
    by (simp only: unsigned_take_bit_eq) (simp add: b take_bit_nat_eq_self)
  then have "b AND 0xC0 = take_bit 6 b AND 0xC0" by (simp only: unat_inject)
  also have "\<dots> = b AND (mask 6 AND 0xC0)" by (simp only: take_bit_eq_mask and.assoc)
  finally have "b AND 0xC0 = b AND (mask 6 AND 0xC0)" .
  then show ?thesis by (simp add: mask_eq_exp_minus_1)
qed

section \<open>Names read as they were written\<close>

definition add_label :: "rstr \<Rightarrow> rstr \<Rightarrow> rstr" where
  "add_label name label = (if name = [] then [] else name @ [46]) @ label"

definition labels_wire :: "rstr list \<Rightarrow> u8 list" where
  "labels_wire labels = concat (map (\<lambda>l. byte (length (utf8 l)) # utf8 l) labels)"

definition label_ok :: "rstr \<Rightarrow> bool" where
  "label_ok l \<longleftrightarrow> l \<noteq> [] \<and> length (utf8 l) \<le> 63 \<and> valid_str l"

lemma utf8_nonempty: "l \<noteq> [] \<Longrightarrow> utf8 l \<noteq> []"
  by (cases l) simp_all

lemma read_labels:
  assumes "\<forall>l \<in> set labels. label_ok l" "drop at m = labels_wire labels @ 0 # rest"
  shows "read_name_loop m at name after jumps =
    Inr (foldl add_label name labels,
      case after of None \<Rightarrow> at + length (labels_wire labels) + 1 | Some a \<Rightarrow> a)"
  using assms
proof (induction labels arbitrary: at name)
  case Nil
  then have "at < length m" "m ! at = 0"
    by (auto simp: labels_wire_def dest: arg_cong [of _ _ length] intro: nth_via_drop)
  then show ?case by (subst read_name_loop.simps) (simp add: labels_wire_def split: option.splits)
next
  case (Cons l labels)
  let ?n = "length (utf8 l)"
  from Cons.prems(1) have l: "l \<noteq> []" "?n \<le> 63" "valid_str l" by (simp_all add: label_ok_def)
  from Cons.prems(2) have d: "drop at m = byte ?n # utf8 l @ labels_wire labels @ 0 # rest"
    by (simp add: labels_wire_def)
  then have at: "at < length m" "m ! at = byte ?n" by (auto intro: nth_via_drop) (metis drop_all list.discI not_le)
  from d have d1: "drop (at + 1) m = utf8 l @ labels_wire labels @ 0 # rest"
    by (metis Suc_eq_plus1 drop_Suc list.sel(3) tl_drop)
  then have d2: "drop (at + 1 + ?n) m = labels_wire labels @ 0 # rest"
    by (metis append_eq_conv_conj drop_drop add.commute)
  from d1 have "length m - (at + 1) = ?n + length (labels_wire labels @ 0 # rest)"
    by (metis length_append length_drop)
  then have fits: "at + 1 + ?n \<le> length m" using at(1) by simp
  have b: "unat (byte ?n) = ?n" "byte ?n \<noteq> 0" "byte ?n AND 0xC0 = 0"
    using l(2) utf8_nonempty [OF l(1)] small_label [of "byte ?n"] by (auto simp flip: unat_inject)
  have "read_name_loop m at name after jumps
      = read_name_loop m (at + 1 + ?n) (add_label name l) after jumps"
    using at b fits d1 l(3)
    by (subst read_name_loop.simps) (simp add: Let_def add_label_def not_le)
  then show ?case
    using Cons.IH [OF _ d2, of "add_label name l"] Cons.prems(1)
    by (simp add: labels_wire_def ac_simps split: option.splits)
qed

lemma foldl_add_label: "name \<noteq> [] \<Longrightarrow> foldl add_label name ls = name @ concat (map ((#) 46) ls)"
  by (induction ls arbitrary: name) (simp_all add: add_label_def)

lemma split_on_join: "concat (map ((#) x) (split_on x s)) = x # s"
  by (induction s) (auto split: list.splits)

lemma labels_join:
  assumes "\<forall>l \<in> set (split_on 46 s). l \<noteq> []"
  shows "foldl add_label [] (split_on 46 s) = s"
proof -
  obtain l ls where ls: "split_on 46 s = l # ls" by (cases "split_on 46 s") simp_all
  with assms have "l \<noteq> []" by simp
  then have "foldl add_label [] (split_on 46 s) = l @ concat (map ((#) 46) ls)"
    by (simp add: ls foldl_add_label) (simp add: add_label_def foldl_add_label)
  moreover have "46 # l @ concat (map ((#) 46) ls) = 46 # s"
    using split_on_join [of 46 s] by (simp add: ls)
  ultimately show ?thesis by simp
qed

lemma encode_labels_Inr:
  "encode_labels ls = Inr wire \<longleftrightarrow> (\<forall>l \<in> set ls. l \<noteq> [] \<and> length (utf8 l) \<le> 63) \<and> wire = labels_wire ls"
  by (induction ls arbitrary: wire) (auto simp: labels_wire_def MAX_LABEL_def result_simps)

lemma split_on_sub: "l \<in> set (split_on x s) \<Longrightarrow> set l \<subseteq> set s"
  by (induction s arbitrary: l) (fastforce split: list.splits if_splits)+

lemma encode_name_Inr:
  assumes "encode_name name = Inr wire"
  defines "ls \<equiv> split_on 46 (trim_end_matches 46 name)"
  shows "wire = labels_wire ls @ [0]" "\<forall>l \<in> set ls. label_ok l" "length wire \<le> 255"
    "foldl add_label [] ls = trim_end_matches 46 name"
proof -
  let ?n = "trim_end_matches 46 name"
  from assms have ascii: "\<forall>c \<in> set ?n. c < 0x80" and enc: "encode_labels ls = Inr (labels_wire ls)"
    and w: "wire = labels_wire ls @ [0]" and len: "length wire \<le> 255"
    by (auto simp: encode_name_def Let_def result_simps encode_labels_Inr MAX_NAME_def split: if_splits)
  have ne: "\<forall>l \<in> set ls. l \<noteq> [] \<and> length (utf8 l) \<le> 63" using enc by (simp add: encode_labels_Inr)
  have "valid_str l" if "l \<in> set ls" for l
    using split_on_sub that ascii unfolding ls_def valid_str_def list_all_iff scalar_def by fastforce
  with ne show "\<forall>l \<in> set ls. label_ok l" by (simp add: label_ok_def)
  show "foldl add_label [] ls = ?n" using ne unfolding ls_def by (intro labels_join) blast
  show "wire = labels_wire ls @ [0]" "length wire \<le> 255" by (fact w, fact len)
qed

text \<open>A name that was encoded is read back, and so is a pointer to it from anywhere later.\<close>

lemma read_name_encoded:
  assumes "encode_name name = Inr wire" "drop at m = wire @ rest"
  shows "read_name m at = Inr (trim_end_matches 46 name, at + length wire)"
  using read_labels [OF encode_name_Inr(2) [OF assms(1)], of at m rest "[]" None 0] assms(2)
    encode_name_Inr(1,4) [OF assms(1)]
  by (simp add: read_name_def)

lemma read_name_pointer:
  assumes enc: "encode_name name = Inr wire" and q: "drop 12 m = wire @ rest"
    and at: "drop at m = 0xC0 # 12 # rest'"
  shows "read_name m at = Inr (trim_end_matches 46 name, at + 2)"
proof -
  have "at + 1 < length m" using arg_cong [OF at, of length] by simp
  moreover have "m ! at = 0xC0" "m ! (at + 1) = 12"
    using at nth_via_drop [of at m] by (auto, metis Suc_eq_plus1 drop_Suc list.sel(3) nth_via_drop tl_drop)
  ultimately have "read_name m at = read_name_loop m 12 [] (Some (at + 2)) 1"
    unfolding read_name_def by (subst read_name_loop.simps) (simp add: Let_def MAX_JUMPS_def not_le)
  also have "\<dots> = Inr (trim_end_matches 46 name, at + 2)"
    using read_labels [OF encode_name_Inr(2) [OF enc], of 12 m rest "[]" "Some (at + 2)" 1] q
      encode_name_Inr(1,4) [OF enc] by simp
  finally show ?thesis .
qed

text \<open>Whatever the message, a name that is read ends inside it, after where it began.\<close>

lemma read_name_loop_bounds:
  "read_name_loop m at name after jumps = Inr (n, e) \<Longrightarrow>
    (case after of None \<Rightarrow> at < e \<and> e \<le> length m | Some a \<Rightarrow> e = a)"
proof (induction m at name after jumps arbitrary: n e rule: read_name_loop.induct)
  case (1 m at name after jumps)
  note run = 1(3) [unfolded read_name_loop.simps [of m at name after jumps] Let_def]
  show ?case
  proof (cases "m ! at AND 0xC0 = 0 \<and> m ! at \<noteq> 0")
    case True
    with run have "at < length m" and fits: "at + 1 + unat (m ! at) \<le> length m"
      by (auto split: if_splits)
    with run True 1(1) [OF _ refl] show ?thesis by (fastforce split: option.splits)
  next
    case False
    show ?thesis
    proof (cases "m ! at AND 0xC0 = 0")
      case True
      with run False show ?thesis by (auto split: if_splits option.splits)
    next
      case no: False
      with run have ptr: "at + 1 < length m" "m ! at AND 0xC0 = 0xC0" "\<not> MAX_JUMPS < jumps + 1"
        and rec: "read_name_loop m (unat (m ! at AND 0x3F) * 256 + unat (m ! (at + 1))) name
            (Some (case after of None \<Rightarrow> at + 2 | Some a \<Rightarrow> a)) (jumps + 1) = Inr (n, e)"
        by (auto split: if_splits)
      have "e = (case after of None \<Rightarrow> at + 2 | Some a \<Rightarrow> a)"
        using 1(2) [OF _ refl no ptr(2) _ ptr(3) rec] ptr(1) by simp
      with ptr(1) show ?thesis by (simp split: option.splits)
    qed
  qed
qed

lemma read_name_bounds: "read_name m at = Inr (n, e) \<Longrightarrow> at < e \<and> e \<le> length m"
  unfolding read_name_def by (drule read_name_loop_bounds) simp

section \<open>An answer as a server lays it out\<close>

text \<open>
  RFC 1035: the owner of a record is spelled out, or is a pointer to the name of the question,
  which stands right after the header.
\<close>

datatype owner = Spelled rstr | SameName

record rr =
  rr_owner :: owner
  rr_kind :: u16
  rr_class :: u16
  rr_ttl :: "u8 list"
  rr_data :: "u8 list"

definition name_wire :: "rstr \<Rightarrow> u8 list" where
  "name_wire name = labels_wire (split_on 46 (trim_end_matches 46 name)) @ [0]"

definition name_encodes :: "rstr \<Rightarrow> bool" where
  "name_encodes name \<longleftrightarrow> encode_name name = Inr (name_wire name)"

fun owner_name :: "rstr \<Rightarrow> owner \<Rightarrow> rstr" where
  "owner_name question (Spelled name) = name"
| "owner_name question SameName = question"

fun owner_wire :: "owner \<Rightarrow> u8 list" where
  "owner_wire (Spelled name) = name_wire name"
| "owner_wire SameName = [0xC0, 12]"

definition rr_wire :: "rr \<Rightarrow> u8 list" where
  "rr_wire r = owner_wire (rr_owner r) @ be16 (rr_kind r) @ be16 (rr_class r) @ rr_ttl r
     @ be16 (of_nat (length (rr_data r))) @ rr_data r"

definition rr_ok :: "rr \<Rightarrow> bool" where
  "rr_ok r \<longleftrightarrow> length (rr_ttl r) = 4 \<and> length (rr_data r) < 65536
     \<and> (case rr_owner r of Spelled name \<Rightarrow> name_encodes name | SameName \<Rightarrow> True)"

definition rr_answers :: "rstr \<Rightarrow> rstr \<Rightarrow> rr \<Rightarrow> bool" where
  "rr_answers question asked r \<longleftrightarrow> rr_kind r = TYPE_TXT \<and> rr_class r = CLASS_IN
     \<and> fold_name (owner_name question (rr_owner r)) = fold_name asked"

definition answer_head :: "u16 \<Rightarrow> u8 \<Rightarrow> u8 \<Rightarrow> nat \<Rightarrow> u8 list \<Rightarrow> rstr \<Rightarrow> u8 list \<Rightarrow> u8 list" where
  "answer_head i flags code n counts question qtail =
     be16 i @ [flags, code] @ be16 1 @ be16 (of_nat n) @ counts @ name_wire question @ qtail"

definition answer_wire :: "u16 \<Rightarrow> u8 \<Rightarrow> u8 \<Rightarrow> u8 list \<Rightarrow> rstr \<Rightarrow> u8 list \<Rightarrow> rr list \<Rightarrow> u8 list \<Rightarrow> u8 list" where
  "answer_wire i flags code counts question qtail records tail =
     answer_head i flags code (length records) counts question qtail @ concat (map rr_wire records) @ tail"

lemma encode_name_wire: "encode_name name = Inr wire \<Longrightarrow> wire = name_wire name \<and> name_encodes name"
  using encode_name_Inr(1) [of name wire] by (simp add: name_wire_def name_encodes_def)

lemma fold_trim [simp]: "fold_name (trim_end_matches 46 n) = fold_name n"
  by (simp add: fold_name_def trim_end_matches_def dropWhile_idem)

lemma nth_of_drop: "drop at m = xs @ ys \<Longrightarrow> k < length xs \<Longrightarrow> m ! (at + k) = xs ! k"
  by (metis add.commute nth_append nth_drop nth_append_left drop_eq_Nil append_is_Nil_conv length_0_conv
      less_nat_zero_code nat_le_linear)

lemma be16_nth [simp]: "be16 w ! 0 = byte (unat w div 256)" "be16 w ! Suc 0 = byte (unat w mod 256)"
    "length (be16 w) = 2"
  by (simp_all add: be16_def)

lemma unat_u16_of_nat: "n < 65536 \<Longrightarrow> unat (of_nat n :: u16) = n"
  by (simp add: unat_of_nat)

lemma read_owner:
  assumes "rr_ok r" "name_encodes question" "drop 12 m = name_wire question @ rest"
    and "drop at m = owner_wire (rr_owner r) @ rest'"
  shows "read_name m at = Inr (trim_end_matches 46 (owner_name question (rr_owner r)), at + length (owner_wire (rr_owner r)))"
proof (cases "rr_owner r")
  case (Spelled name)
  with assms show ?thesis by (auto simp: rr_ok_def name_encodes_def intro: read_name_encoded)
next
  case SameName
  with assms show ?thesis
    using read_name_pointer [of question "name_wire question" m rest at rest'] by (simp add: name_encodes_def)
qed

lemma read_answers_written:
  assumes "name_encodes question" "drop 12 m = name_wire question @ rest"
    and "\<forall>r \<in> set records. rr_ok r" "drop at m = concat (map rr_wire records) @ tail"
  shows "read_answers m (fold_name asked) (length records + n) at vals =
    read_answers m (fold_name asked) n (at + length (concat (map rr_wire records)))
      (vals @ map (\<lambda>r. read_character_strings (rr_data r)) (filter (rr_answers question asked) records))"
  using assms(3,4)
proof (induction records arbitrary: at vals)
  case (Cons r records)
  let ?ow = "owner_wire (rr_owner r)" and ?data = "rr_data r"
  define e where "e = at + length ?ow"
  from Cons.prems(1) have ok: "rr_ok r" and len: "length (rr_ttl r) = 4" "length ?data < 65536"
    by (simp_all add: rr_ok_def)
  let ?recs = "concat (map rr_wire records)"
  let ?next = "?recs @ tail"
  let ?head = "be16 (rr_kind r) @ be16 (rr_class r) @ rr_ttl r @ be16 (of_nat (length ?data))"
  from Cons.prems(2) have d: "drop at m = ?ow @ ?head @ ?data @ ?next"
    by (simp add: rr_wire_def [of r])
  then have d1: "drop e m = ?head @ ?data @ ?next"
    unfolding e_def by (rule drop_append_length)
  have ten: "length ?head = 10" by (simp add: len)
  then have d2: "drop (e + 10) m = ?data @ ?next" using d1
    by (metis append_eq_conv_conj drop_drop add.commute)
  then have d3: "drop (e + 10 + length ?data) m = ?next"
    by (metis append_eq_conv_conj drop_drop add.commute)
  have fits: "e + 10 + length ?data \<le> length m"
    using arg_cong [OF d1, of length] ten by simp
  have nth: "m ! (e + k) = ?head ! k" if "k < 10" for k
    using nth_of_drop [OF d1] that ten by simp
  have parts: "m ! e = byte (unat (rr_kind r) div 256)" "m ! (e + 1) = byte (unat (rr_kind r) mod 256)"
      "m ! (e + 2) = byte (unat (rr_class r) div 256)" "m ! (e + 3) = byte (unat (rr_class r) mod 256)"
      "m ! (e + 8) = byte (length ?data div 256)" "m ! (e + 9) = byte (length ?data mod 256)"
    using nth [of 0] nth [of 1] nth [of 2] nth [of 3] nth [of 8] nth [of 9] len unat_u16_of_nat [OF len(2)]
    by (simp_all add: nth_append be16_def)
  have len_back: "from_be16 (byte (length ?data div 256)) (byte (length ?data mod 256)) = of_nat (length ?data)"
    using from_be16_parts [of "of_nat (length ?data)"] by (simp add: unat_u16_of_nat [OF len(2)])
  have owner: "read_name m at = Inr (trim_end_matches 46 (owner_name question (rr_owner r)), e)"
    unfolding e_def by (rule read_owner [OF ok assms(1,2) d])
  have data: "take (length ?data) (drop (e + 10) m) = ?data" by (simp add: d2)
  let ?vals = "if rr_answers question asked r then vals @ [read_character_strings ?data] else vals"
  have w: "length (rr_wire r) = length ?ow + 10 + length ?data" by (simp add: rr_wire_def len)
  have "read_answers m (fold_name asked) (length (r # records) + n) at vals
      = read_answers m (fold_name asked) (length records + n) (e + 10 + length ?data) ?vals"
    using fits data parts parts(5,6) [unfolded add.commute [of e]]
    by (simp add: owner Let_def not_less len_back unat_u16_of_nat [OF len(2)] rr_answers_def conj_assoc
        split del: if_split cong: if_cong)
  also have "\<dots> = read_answers m (fold_name asked) n (e + 10 + length ?data + length ?recs)
      (?vals @ map (\<lambda>r. read_character_strings (rr_data r)) (filter (rr_answers question asked) records))"
    using Cons.IH [OF _ d3] Cons.prems(1) by simp
  finally show ?case by (simp add: w e_def add.assoc)
qed simp

text \<open>A record whose bytes stop after its owner: the values so far are the answer.\<close>

lemma read_answers_cut:
  assumes ok: "rr_ok r" and q: "name_encodes question" "drop 12 m = name_wire question @ rest"
    and cut: "drop at m = take k (rr_wire r)" "length (owner_wire (rr_owner r)) \<le> k" "k < length (rr_wire r)"
  shows "read_answers m wanted (Suc n) at vals = Inr vals"
proof -
  let ?ow = "owner_wire (rr_owner r)"
  define head where "head = be16 (rr_kind r) @ be16 (rr_class r) @ rr_ttl r @ be16 (of_nat (length (rr_data r)))"
  define e where "e = at + length ?ow"
  from ok have len: "length (rr_ttl r) = 4" "length (rr_data r) < 65536" by (simp_all add: rr_ok_def)
  have wire: "rr_wire r = ?ow @ head @ rr_data r" by (simp add: rr_wire_def head_def)
  with cut(1,2) have d: "drop at m = ?ow @ take (k - length ?ow) (head @ rr_data r)" by simp
  then have de: "drop e m = take (k - length ?ow) (head @ rr_data r)" unfolding e_def by (rule drop_append_length)
  have owner: "read_name m at = Inr (trim_end_matches 46 (owner_name question (rr_owner r)), e)"
    unfolding e_def by (rule read_owner [OF ok q d])
  have ten: "length head = 10" by (simp add: head_def len)
  have left: "length m - e = k - length ?ow" "k - length ?ow < 10 + length (rr_data r)"
    using arg_cong [OF de, of length] cut(2,3) ten by (simp_all add: wire)
  show ?thesis
  proof (cases "length m < e + 10")
    case True
    then show ?thesis by (simp add: owner Let_def)
  next
    case False
    then have "10 \<le> k - length ?ow" using left(1) by linarith
    then have "drop e m = head @ take (k - length ?ow - 10) (rr_data r)" using de ten by simp
    from nth_of_drop [OF this] have nth: "m ! (e + 8) = head ! 8" "m ! (e + 9) = head ! 9" using ten by simp_all
    have "from_be16 (byte (length (rr_data r) div 256)) (byte (length (rr_data r) mod 256)) = of_nat (length (rr_data r))"
      using from_be16_parts [of "of_nat (length (rr_data r))"] by (simp add: unat_u16_of_nat [OF len(2)])
    then have "unat (from_be16 (m ! (e + 8)) (m ! (e + 9))) = length (rr_data r)"
      using nth len unat_u16_of_nat [OF len(2)] by (simp add: head_def nth_append be16_def)
    moreover have "length m < e + 10 + length (rr_data r)" using left by linarith
    ultimately show ?thesis using False by (simp add: owner Let_def add.commute [of e])
  qed
qed

lemma read_txt_frame:
  fixes i :: u16 and code :: u8
  assumes q: "name_encodes question" and n: "n < 65536"
    and shape: "length counts = 4" "length qtail = 4" and flag: "flags AND 0x80 \<noteq> 0"
  defines "head \<equiv> answer_head i flags code n counts question qtail"
  shows "read_txt (head @ body) i' asked =
      (if i' \<noteq> i then Inl NotOurQuestion
       else attempt (read_answers (head @ body) (fold_name asked) n (length head) []) (\<lambda>vals.
         Inr \<lparr>rp_rcode = code AND 0x0F, rp_truncated = (flags AND 2 \<noteq> 0), rp_values = vals\<rparr>))"
    and "drop 12 (head @ body) = name_wire question @ qtail @ body"
proof -
  let ?m = "head @ body"
  let ?n = "length (name_wire question)"
  have front: "length (be16 i @ [flags, code] @ be16 1 @ be16 (of_nat n) @ counts) = 12"
    by (simp add: shape)
  then show d12: "drop 12 ?m = name_wire question @ qtail @ body"
    unfolding head_def answer_head_def by (metis append.assoc append_eq_conv_conj)
  have len: "length head = 12 + ?n + 4" by (simp add: head_def answer_head_def shape)
  then have long: "12 + ?n + 4 \<le> length ?m" by simp
  have bytes: "?m ! 0 = byte (unat i div 256)" "?m ! Suc 0 = byte (unat i mod 256)" "?m ! 2 = flags" "?m ! 3 = code"
     "?m ! 4 = 0" "?m ! 5 = 1" "?m ! 6 = byte (n div 256)" "?m ! 7 = byte (n mod 256)"
    using unat_u16_of_nat [OF n] by (simp_all add: head_def answer_head_def be16_def byte_def)
  have count: "from_be16 (byte (n div 256)) (byte (n mod 256)) = of_nat n"
    using from_be16_parts [of "of_nat n"] by (simp add: unat_u16_of_nat [OF n])
  have one: "unat (from_be16 0 1) = Suc 0" by (simp add: from_be16_def)
  have "read_name ?m 12 = Inr (trim_end_matches 46 question, 12 + ?n)"
    using q d12 by (intro read_name_encoded) (simp_all add: name_encodes_def)
  then have "skip_questions ?m (Suc 0) 12 = Inr (length head)"
    using long by (simp add: skip_name_def len)
  then show "read_txt (head @ body) i' asked =
      (if i' \<noteq> i then Inl NotOurQuestion
       else attempt (read_answers (head @ body) (fold_name asked) n (length head) []) (\<lambda>vals.
         Inr \<lparr>rp_rcode = code AND 0x0F, rp_truncated = (flags AND 2 \<noteq> 0), rp_values = vals\<rparr>))"
    using long flag unat_u16_of_nat [OF n]
    by (simp add: read_txt_def HEADER_LEN_def bytes count one Let_def not_less)
qed

lemma read_txt_written:
  assumes q: "name_encodes question" and rs: "\<forall>r \<in> set records. rr_ok r" "length records < 65536"
    and shape: "length counts = 4" "length qtail = 4" and flag: "flags AND 0x80 \<noteq> 0"
  shows "read_txt (answer_wire i flags code counts question qtail records tail) i' asked =
    (if i' \<noteq> i then Inl NotOurQuestion
     else Inr \<lparr>rp_rcode = code AND 0x0F, rp_truncated = (flags AND 2 \<noteq> 0),
       rp_values = map (\<lambda>r. read_character_strings (rr_data r)) (filter (rr_answers question asked) records)\<rparr>)"
proof -
  let ?head = "answer_head i flags code (length records) counts question qtail"
  let ?body = "concat (map rr_wire records) @ tail"
  note frame = read_txt_frame [OF q rs(2) shape flag, of i code ?body]
  have "drop (length ?head) (?head @ ?body) = ?body" by simp
  from read_answers_written [OF q frame(2) rs(1) this, of asked 0 "[]"]
  show ?thesis by (simp add: answer_wire_def frame(1))
qed

text \<open>The same answer, cut inside a record after its owner; \<open>behind\<close> counts what would follow.\<close>

lemma read_txt_cut:
  assumes q: "name_encodes question" and rs: "\<forall>r \<in> set records. rr_ok r" "rr_ok r"
    and n: "length records + Suc behind < 65536"
    and shape: "length counts = 4" "length qtail = 4" and flag: "flags AND 0x80 \<noteq> 0"
    and cut: "length (owner_wire (rr_owner r)) \<le> k" "k < length (rr_wire r)"
  shows "read_txt (answer_head i flags code (length records + Suc behind) counts question qtail
      @ concat (map rr_wire records) @ take k (rr_wire r)) i asked =
    Inr \<lparr>rp_rcode = code AND 0x0F, rp_truncated = (flags AND 2 \<noteq> 0),
       rp_values = map (\<lambda>r. read_character_strings (rr_data r)) (filter (rr_answers question asked) records)\<rparr>"
proof -
  let ?head = "answer_head i flags code (length records + Suc behind) counts question qtail"
  let ?recs = "concat (map rr_wire records)" and ?part = "take k (rr_wire r)"
  note frame = read_txt_frame [OF q n shape flag, of i code "?recs @ ?part"]
  have d: "drop (length ?head) (?head @ ?recs @ ?part) = ?recs @ ?part"
    "drop (length ?head + length ?recs) (?head @ ?recs @ ?part) = ?part" by simp_all
  show ?thesis
    unfolding frame(1)
    using read_answers_written [OF q frame(2) rs(1) d(1), of asked "Suc behind" "[]"]
      read_answers_cut [OF rs(2) q frame(2) d(2) cut]
    by (simp del: read_answers.simps)
qed

text \<open>A value as the data of a TXT record, in strings of at most 255 bytes.\<close>

function character_strings :: "u8 list \<Rightarrow> u8 list" where
  "character_strings v =
    (if v = [] then [] else byte (min 255 (length v)) # take 255 v @ character_strings (drop 255 v))"
  by pat_completeness auto
termination
  by (relation "measure length") auto

declare character_strings.simps [simp del]

lemma utf8_lossy_ascii: "\<forall>b \<in> set v. unat b < 0x80 \<Longrightarrow> utf8_lossy v = map unat v"
proof -
  assume v: "\<forall>b \<in> set v. unat b < 0x80"
  then have "utf8 (map unat v) = v" by (induction v) auto
  moreover have "valid_str (map unat v)" using v by (induction v) auto
  ultimately show ?thesis by (metis utf8_lossy_utf8)
qed

lemma read_character_strings_written:
  "\<forall>b \<in> set v. unat b < 0x80 \<Longrightarrow> read_character_strings (character_strings v) = map unat v"
proof (induction v rule: character_strings.induct)
  case (1 v)
  show ?case
  proof (cases "v = []")
    case False
    let ?k = "min 255 (length v)"
    have k: "unat (byte ?k) = length (take 255 v)" by simp
    have small: "\<forall>b \<in> set (take 255 v). unat b < 0x80" "\<forall>b \<in> set (drop 255 v). unat b < 0x80"
      using 1(2) by (auto dest: in_set_takeD in_set_dropD)
    have rest: "read_character_strings (character_strings (drop 255 v)) = map unat (drop 255 v)"
      by (rule 1(1) [OF False small(2)])
    from small have "read_character_strings (character_strings v) = map unat (take 255 v) @ map unat (drop 255 v)"
      using False
      by (subst character_strings.simps) (simp only: if_False read_character_strings.simps k append_eq_conv_conj
          take_append drop_append diff_self_eq_0 take_0 append_Nil2 drop_0 drop_all take_all order_refl append_Nil
          utf8_lossy_ascii rest)
    then show ?thesis by (metis append_take_drop_id map_append)
  qed (simp add: character_strings.simps)
qed

end
