(* ===== verification/Render.thy ===== *)
theory Render
  imports SyncDecide Renewal
begin

text \<open>
  \<open>crates/anago-core/src/render.rs\<close>: the table of \<open>anago ls\<close> and the lines of \<open>sync\<close>, of an ACME run and of
  an export, with times relative to now.
\<close>

section \<open>Widths and times\<close>

definition KEY_PREFIX_LEN :: nat where "KEY_PREFIX_LEN = 8"

datatype last_handshake = HsUnknown | HsNever | HsAt int

record peer_row =
  row_name :: rstr
  row_address :: ipv4
  row_public_key :: rstr
  row_last_handshake :: last_handshake

definition char_width :: "rchar \<Rightarrow> nat" where
  "char_width c =
    (if (0x1100 \<le> c \<and> c \<le> 0x115F) \<or> (0x2E80 \<le> c \<and> c \<le> 0x303E) \<or> (0x3041 \<le> c \<and> c \<le> 0x33FF)
      \<or> (0x3400 \<le> c \<and> c \<le> 0x4DBF) \<or> (0x4E00 \<le> c \<and> c \<le> 0x9FFF) \<or> (0xA960 \<le> c \<and> c \<le> 0xA97F)
      \<or> (0xAC00 \<le> c \<and> c \<le> 0xD7A3) \<or> (0xF900 \<le> c \<and> c \<le> 0xFAFF) \<or> (0xFE30 \<le> c \<and> c \<le> 0xFE6F)
      \<or> (0xFF00 \<le> c \<and> c \<le> 0xFF60) \<or> (0xFFE0 \<le> c \<and> c \<le> 0xFFE6) \<or> (0x20000 \<le> c \<and> c \<le> 0x3FFFD)
     then 2 else 1)"

definition display_width :: "rstr \<Rightarrow> nat" where
  "display_width text = sum_list (map char_width text)"

definition abbreviate_key :: "rstr \<Rightarrow> rstr" where
  "abbreviate_key key = (if length key \<le> KEY_PREFIX_LEN then key else take KEY_PREFIX_LEN key @ [0x2026])"

definition format_ago :: "int \<Rightarrow> rstr" where
  "format_ago seconds =
    (if seconds \<le> 9 then lit ''just now''
     else if seconds \<le> 59 then show_int seconds @ lit ''s ago''
     else if seconds \<le> 3599 then show_int (seconds sdiv 60) @ lit ''m ago''
     else if seconds \<le> 86399 then show_int (seconds sdiv 3600) @ lit ''h ago''
     else show_int (seconds sdiv 86400) @ lit ''d ago'')"

definition format_in :: "int \<Rightarrow> rstr" where
  "format_in seconds =
    (if seconds \<le> 0 then lit ''now''
     else if seconds \<le> 59 then lit ''in '' @ show_int seconds @ lit ''s''
     else if seconds \<le> 3599 then lit ''in '' @ show_int (seconds sdiv 60) @ lit ''m''
     else if seconds \<le> 86399 then lit ''in '' @ show_int (seconds sdiv 3600) @ lit ''h''
     else lit ''in '' @ show_int (seconds sdiv 86400) @ lit ''d'')"

definition format_handshake :: "last_handshake \<Rightarrow> int \<Rightarrow> rstr" where
  "format_handshake handshake now =
    (case handshake of
       HsUnknown \<Rightarrow> [0x2014]
     | HsNever \<Rightarrow> lit ''never''
     | HsAt at \<Rightarrow> format_ago (sat_sub now at))"

fun handshake_show :: "last_handshake \<Rightarrow> rstr" where
  "handshake_show HsUnknown = lit ''unknown''"
| "handshake_show HsNever = lit ''never''"
| "handshake_show (HsAt at) = show_int at"

section \<open>The table\<close>

text \<open>
  \<open>write_row\<close>: two blanks before every cell but the first, every cell but the last padded to the
  width of its column, and no blanks at the end. \<open>first\<close> is the test \<open>i > 0\<close>.
\<close>

fun row_line :: "bool \<Rightarrow> rstr list \<Rightarrow> nat list \<Rightarrow> rstr" where
  "row_line first (cell # cells) (width # widths) =
    (if first then [] else [32, 32]) @ cell
    @ (if cells \<noteq> [] then replicate (width - display_width cell) 32 else [])
    @ row_line False cells widths"
| "row_line first _ _ = []"

definition write_row :: "rstr list \<Rightarrow> nat list \<Rightarrow> rstr" where
  "write_row cells widths = trim_end (row_line True cells widths) @ [10]"

definition row_cells :: "int \<Rightarrow> peer_row \<Rightarrow> rstr list" where
  "row_cells now row =
    [row_name row, ipv4_show (row_address row), abbreviate_key (row_public_key row),
     format_handshake (row_last_handshake row) now]"

definition table_headers :: "rstr list" where
  "table_headers = [lit ''NAME'', lit ''ADDRESS'', lit ''PUBLIC KEY'', lit ''LAST HANDSHAKE'']"

definition column_widths :: "rstr list list \<Rightarrow> nat list" where
  "column_widths cells = foldl (\<lambda>widths row. map2 max widths (map display_width row)) (map display_width table_headers) cells"

definition peer_table :: "peer_row list \<Rightarrow> int \<Rightarrow> rstr" where
  "peer_table rows now =
    (if rows = [] then lit ''no devices yet '' @ [0x2014] @ lit '' run `anago code` on the server to add one''
     @ [10]
     else
       let cells = map (row_cells now) rows; widths = column_widths cells
       in write_row table_headers widths @ concat (map (\<lambda>row. write_row row widths) cells))"

section \<open>Sync\<close>

definition sync_summary :: "sync \<Rightarrow> rstr \<Rightarrow> rstr" where
  "sync_summary outcome domain =
    (case outcome of
       SyncUnchanged \<Rightarrow> domain @ lit '': in sync'' @ [10]
     | Unverifiable \<Rightarrow> domain
         @ lit '': still registered; this hub does not report its own settings, so the local config ''
     @ lit ''was not checked'' @ [10]
     | Rewrite changes \<Rightarrow> domain @ lit '': updated the wg config ('' @ changes_show changes @ lit '')'' @ [10]
     | Detached detachment \<Rightarrow> domain @ lit '': '' @ detachment_show detachment @ [10])"

definition rejoin_steps :: "rstr \<Rightarrow> rstr \<Rightarrow> rstr" where
  "rejoin_steps wg_config device_file =
    lit ''`sudo wg-quick down '' @ wg_config @ lit ''`, delete '' @ wg_config @ lit '' and '' @ device_file
    @ lit '', then `anago join <domain> <code>` with a fresh code from `anago code`''"

section \<open>ACME\<close>

datatype acme_step =
    RegisteringAccount
  | ReusingAccount
  | Ordered
  | ServingHttpChallenge "16 word"
  | PublishedDnsChallenge rstr
  | WaitingForDns
  | WaitingForValidation
  | Finalizing
  | RemovedDnsChallenge
  | StoppedHttpChallenge

definition acme_started :: "rstr \<Rightarrow> challenge \<Rightarrow> bool \<Rightarrow> bool \<Rightarrow> rstr" where
  "acme_started domain challenge staging renewing =
    (if renewing then lit ''renewing'' else lit ''requesting'') @ lit '' a certificate for '' @ domain @ lit '' from ''
    @ (if staging then lit ''Let'' @ [39] @ lit ''s Encrypt staging'' else lit ''Let'' @ [39] @ lit ''s Encrypt'') @ lit '' via ''
    @ challenge_as_str challenge @ [10]"

fun acme_step_line :: "acme_step \<Rightarrow> rstr" where
  "acme_step_line RegisteringAccount = lit ''registering an ACME account''"
| "acme_step_line ReusingAccount = lit ''using the existing ACME account''"
| "acme_step_line Ordered = lit ''order placed''"
| "acme_step_line (ServingHttpChallenge port) =
     lit ''answering the challenge on :'' @ dec_nat (unat port) @ lit '' '' @ [0x2014] @ lit '' it must be reachable from outside''"
| "acme_step_line (PublishedDnsChallenge name) = lit ''published the record '' @ name"
| "acme_step_line WaitingForDns = lit ''waiting for the record to propagate''"
| "acme_step_line WaitingForValidation = lit ''waiting for the CA to check it''"
| "acme_step_line Finalizing = lit ''challenge accepted; requesting the certificate''"
| "acme_step_line RemovedDnsChallenge = lit ''removed the challenge record''"
| "acme_step_line StoppedHttpChallenge = lit ''stopped answering; the port is free again''"

definition acme_progress :: "acme_step \<Rightarrow> rstr" where
  "acme_progress step = lit ''  '' @ acme_step_line step @ [10]"

definition staging_warning :: rstr where
  "staging_warning =
    lit ''  WARNING: this is a Let'' @ [39]
     @ lit ''s Encrypt *staging* certificate. Devices will not'' @ [10]
     @ lit ''  trust it, so `anago join` fails with UnknownIssuer '' @ [0x2014]
     @ lit '' that is expected.'' @ [10]
     @ lit ''  Use it to check the wiring, then switch with:'' @ [10]
     @ lit ''      anago server renew --acme-production'' @ [10]"

definition certificate_ready ::
  "rstr \<Rightarrow> challenge \<Rightarrow> int option \<Rightarrow> int \<Rightarrow> int \<Rightarrow> bool \<Rightarrow> bool \<Rightarrow> rstr"
where
  "certificate_ready domain challenge not_after renew_at now staging renewing =
    (if renewing then lit ''renewed the certificate for'' else lit ''issued a certificate for'') @ lit '' '' @ domain @ lit '' via ''
    @ challenge_as_str challenge @ [10]
    @ (case not_after of
         Some not_after \<Rightarrow> lit ''  expires '' @ format_in (sat_sub not_after now) @ lit '', renewing ''
           @ format_in (sat_sub renew_at now) @ [10]
       | None \<Rightarrow> lit ''  expiry could not be read from the certificate; renewing ''
           @ format_in (sat_sub renew_at now) @ lit '' on an assumed lifetime'' @ [10])
    @ (if staging then staging_warning else [])"

definition renewal_not_due :: "int \<Rightarrow> int \<Rightarrow> rstr" where
  "renewal_not_due due_at now =
    lit ''the certificate is current '' @ [0x2014] @ lit '' renewing '' @ format_in (sat_sub due_at now) @ [10]"

definition settings_recorded :: "int \<Rightarrow> int \<Rightarrow> rstr" where
  "settings_recorded due_at now =
    lit ''settings recorded; the certificate is unchanged '' @ [0x2014] @ lit '' renewing '' @ format_in (sat_sub due_at now) @ [10]"

section \<open>Export\<close>

datatype export_form = ExportConf | ExportQr

definition export_warning :: "export_form \<Rightarrow> device_name \<Rightarrow> rstr option \<Rightarrow> rstr" where
  "export_warning form name out_path =
    lit ''WARNING: this is '' @ name_str name
    @ [39] @ lit ''s private key in plain text. Anyone who reads it'' @ [10]
     @ lit ''can join the network as that device.'' @ [10]
    @ (case out_path of
         Some path \<Rightarrow> lit ''  Written to '' @ path @ lit '' (0600). Delete it once the phone has imported it.'' @ [10]
       | None \<Rightarrow>
           (case form of
              ExportConf \<Rightarrow>
                lit ''  To put it in a file, use --out: a shell redirect (>) leaves the mode'' @ [10]
     @ lit ''  to your umask, which is usually world-readable.'' @ [10]
            | ExportQr \<Rightarrow> lit ''  For a file instead, `--export conf --out <path>` writes one at 0600.'' @ [10]))
    @ (if form = ExportQr then
         lit ''  Then take it off the screen and out of the record, in that order:'' @ [10]
     @ lit ''  `clear` moves it from the screen into the scrollback, and your'' @ [10]
     @ lit ''  terminal'' @ [39] @ lit ''s own Clear Scrollback (`clear-history` under tmux)''
     @ [10] @ lit ''  empties that. Neither alone is enough, and some terminals keep'' @ [10]
     @ lit ''  scrollback on disk.'' @ [10]
       else [])
    @ lit ''  '' @ name_str name @ lit '' cannot remove itself afterwards '' @ [0x2014] @ lit '' it keeps no token. Use''
     @ [10] @ lit ''  `anago rm ''
    @ name_str name @ lit ''` on the hub, or on any device that has joined.'' @ [10]"

section \<open>Columns line up\<close>

lemma display_width_append [simp]: "display_width (s @ t) = display_width s + display_width t"
  by (simp add: display_width_def)

lemma display_width_blanks [simp]: "display_width (replicate n 32) = n"
  by (simp add: display_width_def char_width_def sum_list_replicate)

lemma display_width_Nil [simp]: "display_width [] = 0"
  by (simp add: display_width_def)

lemma column_widths_bound:
  assumes "\<forall>row \<in> set cells. length row = 4"
  shows "length (column_widths cells) = 4"
    and "i < 4 \<Longrightarrow> display_width (table_headers ! i) \<le> column_widths cells ! i"
    and "row \<in> set cells \<Longrightarrow> i < 4 \<Longrightarrow> display_width (row ! i) \<le> column_widths cells ! i"
proof -
  let ?step = "\<lambda>widths row. map2 max widths (map display_width row)"
  have grow: "length (foldl ?step ws cells) = 4
      \<and> (\<forall>i < 4. ws ! i \<le> foldl ?step ws cells ! i)
      \<and> (\<forall>row \<in> set cells. \<forall>i < 4. display_width (row ! i) \<le> foldl ?step ws cells ! i)"
    if "length ws = 4" for ws
    using that assms
  proof (induction cells arbitrary: ws)
    case (Cons row cells)
    let ?ws = "?step ws row"
    have ws: "length ?ws = 4" "\<forall>i < 4. ?ws ! i = max (ws ! i) (display_width (row ! i))"
      using Cons.prems by simp_all
    from Cons.IH [OF ws(1)] Cons.prems(2) ws(2) show ?case
      by (auto intro: order_trans [OF max.cobounded1] order_trans [OF max.cobounded2])
  qed simp
  have h: "length (map display_width table_headers) = 4" by (simp add: table_headers_def)
  note g = grow [OF h, folded column_widths_def]
  then show "length (column_widths cells) = 4" by blast
  show "display_width (table_headers ! i) \<le> column_widths cells ! i" if "i < 4"
    using g that h by (metis length_map nth_map)
  show "display_width (row ! i) \<le> column_widths cells ! i" if "row \<in> set cells" "i < 4"
    using g that by blast
qed

text \<open>Where a cell starts in its line: after the padded cells before it and the gaps.\<close>

fun column_start :: "nat list \<Rightarrow> nat \<Rightarrow> nat" where
  "column_start widths 0 = 0"
| "column_start widths (Suc i) = column_start widths i + widths ! i + 2"

lemma row_line_prefix:
  assumes "length cells = length widths" "i < length cells"
    and "\<forall>j < length cells. display_width (cells ! j) \<le> widths ! j"
  shows "\<exists>before after. row_line first cells widths = before @ cells ! i @ after
    \<and> display_width before = column_start widths i + (if first then 0 else 2)"
  using assms
proof (induction cells widths arbitrary: i first rule: list_induct2')
  case (4 cell cells width widths)
  show ?case
  proof (cases i)
    case 0
    then show ?thesis
      by (intro exI [of _ "if first then [] else [32, 32]"] exI [of _
          "(if cells \<noteq> [] then replicate (width - display_width cell) 32 else []) @ row_line False cells widths"])
        (simp add: display_width_def char_width_def)
  next
    case (Suc k)
    then have k: "k < length cells" "cells \<noteq> []" using 4 by auto
    have "\<forall>j < length cells. display_width (cells ! j) \<le> widths ! j" using 4(4) by auto
    with 4(1) [of k False] 4(2) k obtain before after where
      r: "row_line False cells widths = before @ cells ! k @ after" "display_width before = column_start widths k + 2"
      by auto
    let ?head = "(if first then [] else [32, 32]) @ cell @ replicate (width - display_width cell) 32"
    have "display_width cell \<le> width" using 4(4) by auto
    then have "display_width ?head = (if first then 0 else 2) + width"
      by (simp add: display_width_def char_width_def sum_list_replicate)
    moreover have "column_start (width # widths) (Suc k) = column_start widths k + width + 2"
      by (induction k) simp_all
    ultimately show ?thesis
      using r k(2) Suc by (intro exI [of _ "?head @ before"] exI [of _ after]) simp
  qed
qed simp_all

text \<open>A time in the future is never shown as a negative or a larger one.\<close>

lemma format_ago_cases:
  "format_ago s = (if s \<le> 9 then lit ''just now''
     else if s \<le> 59 then dec_nat (nat s) @ lit ''s ago''
     else if s \<le> 3599 then dec_nat (nat s div 60) @ lit ''m ago''
     else if s \<le> 86399 then dec_nat (nat s div 3600) @ lit ''h ago''
     else dec_nat (nat s div 86400) @ lit ''d ago'')"
proof -
  have "s sdiv k = int (nat s div nat k)" if "0 \<le> s" "0 < k" for k :: int
    using that by (cases "s = 0") (simp_all add: signed_divide_int_def zdiv_int)
  then show ?thesis by (simp add: format_ago_def show_int_def nat_int)
qed

lemma row_line_snoc:
  "length cells = length widths \<Longrightarrow> cells \<noteq> [] \<Longrightarrow> \<exists>before. row_line first cells widths = before @ last cells"
proof (induction cells widths arbitrary: first rule: list_induct2')
  case (4 cell cells width widths)
  show ?case
  proof (cases "cells = []")
    case False
    with 4 obtain before where "row_line False cells widths = before @ last cells" by force
    with False show ?thesis by auto
  qed (use 4 in auto)
qed simp_all

lemma trim_end_id: "s \<noteq> [] \<Longrightarrow> \<not> is_ws (last s) \<Longrightarrow> trim_end s = s"
  by (cases s rule: rev_cases) (simp_all add: trim_end_def)

lemma format_handshake_end: "format_handshake h now \<noteq> [] \<and> \<not> is_ws (last (format_handshake h now))"
  by (simp add: format_handshake_def format_ago_def lit_Cons is_ws_def split: last_handshake.splits)

lemma header_end: "last table_headers \<noteq> [] \<and> \<not> is_ws (last (last table_headers))"
  by (simp add: table_headers_def lit_Cons is_ws_def)

text \<open>Nothing of a row is cut off, so every line of the table has cell \<open>i\<close> at the start of column \<open>i\<close>.\<close>

definition lined_up :: "nat list \<Rightarrow> rstr \<Rightarrow> rstr list \<Rightarrow> bool" where
  "lined_up widths line cells \<longleftrightarrow> (\<forall>i < 4. \<exists>before after. line = before @ cells ! i @ after
     \<and> display_width before = column_start widths i)"

lemma write_row_lined_up:
  assumes "length cells = 4" "length widths = 4" "\<forall>j < 4. display_width (cells ! j) \<le> widths ! j"
    and "last cells \<noteq> []" "\<not> is_ws (last (last cells))"
  shows "\<exists>line. write_row cells widths = line @ [10] \<and> lined_up widths line cells"
proof -
  have "cells \<noteq> []" "length cells = length widths" using assms(1,2) by auto
  then obtain before where "row_line True cells widths = before @ last cells" using row_line_snoc by blast
  then have "trim_end (row_line True cells widths) = row_line True cells widths"
    using assms(4,5) by (intro trim_end_id) auto
  moreover have "lined_up widths (row_line True cells widths) cells"
    unfolding lined_up_def using row_line_prefix [of cells widths _ True] assms(1-3) by simp
  ultimately show ?thesis by (auto simp: write_row_def)
qed

lemma peer_table_lined_up:
  assumes "rows \<noteq> []"
  shows "\<exists>widths ls. length widths = 4 \<and> peer_table rows now = concat (map (\<lambda>l. l @ [10]) ls)
    \<and> list_all2 (lined_up widths) ls (table_headers # map (row_cells now) rows)"
proof -
  define cells where "cells = map (row_cells now) rows"
  have four: "\<forall>row \<in> set cells. length row = 4" by (auto simp: cells_def row_cells_def)
  note w = column_widths_bound [OF four]
  let ?w = "column_widths cells"
  have row: "\<exists>line. write_row row ?w = line @ [10] \<and> lined_up ?w line row"
    if "row \<in> set (table_headers # cells)" for row
  proof (rule write_row_lined_up)
    show "length row = 4" "\<forall>j < 4. display_width (row ! j) \<le> ?w ! j"
      using that four w by (auto simp: table_headers_def)
    have "last row \<noteq> [] \<and> \<not> is_ws (last (last row))"
      using that header_end format_handshake_end by (auto simp: cells_def row_cells_def)
    then show "last row \<noteq> []" "\<not> is_ws (last (last row))" by simp_all
  qed (rule w)
  define line where "line row = (SOME l. write_row row ?w = l @ [10] \<and> lined_up ?w l row)" for row
  have line: "write_row row ?w = line row @ [10]" "lined_up ?w (line row) row"
    if "row \<in> set (table_headers # cells)" for row
    using someI_ex [OF row [OF that]] by (simp_all add: line_def)
  have "peer_table rows now = concat (map (\<lambda>row. write_row row ?w) (table_headers # cells))"
    using assms by (simp add: peer_table_def cells_def Let_def)
  also have "\<dots> = concat (map (\<lambda>l. l @ [10]) (map line (table_headers # cells)))"
    using line(1) by (auto intro!: arg_cong [of _ _ concat])
  finally show ?thesis
    using w(1) line(2) unfolding cells_def
    by (intro exI [of _ "column_widths (map (row_cells now) rows)"] exI [of _ "map line (table_headers # map (row_cells now) rows)"])
      (auto simp: list_all2_conv_all_nth nth_Cons split: nat.splits)
qed

end
