(* ===== verification/Device.thy ===== *)
theory Device
  imports WgApply HttpClient Diagnostics Render
begin

text \<open>
  What a device keeps and checks, from \<open>crates/anago/src/join.rs\<close> and \<open>crates/anago/src/sync.rs\<close>: the
  device file, the hub's answers parsed before they are believed, the configuration rendered from
  them, and the errors of a join.
\<close>

section \<open>Errors of a join\<close>

datatype join_error =
    JoinWg wg_error
  | NoName
  | JoinClient client_error
  | JoinRefused rstr
  | JoinBadResponse rstr
  | AlreadyJoined rstr rstr
  | AlreadyRunning
  | JoinNoConfigDir rstr
  | UnsafeConfigDir rstr
  | ConfigExists rstr
  | Save rstr target io_kind rstr
  | SavedNothing rstr rstr rstr
  | Unsent rstr
  | Taken path
  | JoinTooNarrow nat nat
  | JoinDeviceFile rstr

fun join_error_show :: "unicode \<Rightarrow> join_error \<Rightarrow> rstr" where
  "join_error_show u (JoinWg e) = wg_error_show e"
| "join_error_show u NoName = lit ''this machine'' @ [39] @ lit ''s hostname is not a usable device name '' @ [0x2014]
     @ lit '' pass --name''"
| "join_error_show u (JoinClient e) = client_error_show u e"
| "join_error_show u (JoinRefused detail) = detail"
| "join_error_show u (JoinBadResponse detail) = lit ''the hub'' @ [39] @ lit ''s answer made no sense: '' @ detail"
| "join_error_show u (JoinNoConfigDir path) =
     path @ lit '' does not exist '' @ [0x2014]
     @ lit '' anago will not create it as root. Make it as yourself first: `mkdir -p '' @ path @ lit ''`''"
| "join_error_show u (UnsafeConfigDir path) =
     path @ lit '' is not a directory you own '' @ [0x2014]
     @ lit '' anago will not write into it as root. Check it with `ls -ld '' @ path
     @ lit ''`; a symlink or a root-owned directory there has to be sorted out first''"
| "join_error_show u AlreadyRunning =
     lit ''another `anago join` is already running on this device '' @ [0x2014]
     @ lit '' let it finish, or wait for it to fail''"
| "join_error_show u (AlreadyJoined file config) =
     lit ''this device has already joined a network '' @ [0x2014] @ lit '' '' @ file @ lit '' exists. To join again: `sudo wg-quick down '' @ config
     @ lit ''`, delete '' @ config @ lit '' and '' @ file @ lit '', and '' @ [0x2014] @ lit '' if the hub still lists this device '' @ [0x2014]
     @ lit '' `anago rm` it there''"
| "join_error_show u (ConfigExists path) =
     path @ lit '' already exists '' @ [0x2014]
     @ lit '' anago will not replace a WireGuard config it did not write. Move it aside first''"
| "join_error_show u (Save what target kind source) =
     with_target_advice (lit ''could not write '' @ what @ lit '' ('' @ tg_path target @ lit ''): '' @ source) (Some target) kind"
| "join_error_show u (SavedNothing what source recovery) =
     lit ''the hub registered this device but '' @ what @ lit '' ('' @ source @ lit '') '' @ [0x2014] @ lit '' '' @ recovery"
| "join_error_show u (Unsent detail) =
     lit ''the config could not be written to standard output: '' @ detail @ lit '' '' @ [0x2014] @ lit '' so nothing reached the phone''"
| "join_error_show u (Taken path) =
     path @ lit '' was renamed, removed or replaced while the hub was being asked, so the config went ''
     @ lit ''into a file that no longer has that name '' @ [0x2014]
     @ lit '' whatever is there now was left alone, and is not it''"
| "join_error_show u (JoinTooNarrow needed available) =
     lit ''this terminal is '' @ dec_nat available @ lit '' columns and the code needs '' @ dec_nat needed
     @ lit '' '' @ [0x2014]
     @ lit '' a QR wider than the window wraps, and a wrapped one still looks like a QR code. ''
     @ lit ''Widen the window and run this again, or use `--export conf` to hand the same config ''
     @ lit ''over as text''"
| "join_error_show u (JoinDeviceFile detail) = lit ''device file: '' @ detail"

section \<open>The device file\<close>

definition DEVICE_SCHEMA :: int where "DEVICE_SCHEMA = 1"

definition MISSING_PORT :: rstr where
  "MISSING_PORT = lit ''no api_port '' @ [0x2014]
     @ lit '' this file was written by an earlier build that did not record which port it joined ''
     @ lit ''on. Add '' @ [34] @ lit ''api_port'' @ [34]
     @ lit '': <port> to this file: the port the hub serves its API on, which is 443 unless ''
     @ lit ''`server init --api-port` said otherwise''"

record device_config =
  dc_domain :: rstr
  dc_api_port :: "16 word"
  dc_name :: rstr
  dc_address :: rstr
  dc_subnet :: rstr
  dc_token :: rstr
  dc_server_public_key :: rstr
  dc_server_endpoint :: rstr
  dc_server_address :: rstr

definition device_from_response :: "rstr \<Rightarrow> 16 word \<Rightarrow> join_response \<Rightarrow> device_config" where
  "device_from_response domain api_port r =
    \<lparr>dc_domain = domain, dc_api_port = api_port, dc_name = js_name r, dc_address = js_address r,
     dc_subnet = js_subnet r, dc_token = js_token r, dc_server_public_key = js_server_public_key r,
     dc_server_endpoint = js_server_endpoint r, dc_server_address = js_server_address r\<rparr>"

definition device_to_json :: "device_config \<Rightarrow> json" where
  "device_to_json c = value_obj
    [(lit ''version'', JInt DEVICE_SCHEMA),
     (lit ''domain'', JStr (dc_domain c)),
     (lit ''api_port'', JInt (int (unat (dc_api_port c)))),
     (lit ''name'', JStr (dc_name c)),
     (lit ''address'', JStr (dc_address c)),
     (lit ''subnet'', JStr (dc_subnet c)),
     (lit ''token'', JStr (dc_token c)),
     (lit ''server_public_key'', JStr (dc_server_public_key c)),
     (lit ''server_endpoint'', JStr (dc_server_endpoint c)),
     (lit ''server_address'', JStr (dc_server_address c))]"

definition device_to_json_string :: "device_config \<Rightarrow> rstr" where
  "device_to_json_string c = to_string_pretty (device_to_json c)"

definition device_field :: "unicode \<Rightarrow> object \<Rightarrow> rstr \<Rightarrow> join_error + rstr" where
  "device_field u obj name = map_err (\<lambda>e. JoinDeviceFile (decode_error_show u e)) (string_field obj name)"

definition device_parse :: "unicode \<Rightarrow> rstr \<Rightarrow> join_error + device_config" where
  "device_parse u text =
    attempt (map_err (\<lambda>e. JoinDeviceFile (json_error_show e)) (json_parse u text)) (\<lambda>v.
    attempt (map_err (\<lambda>e. JoinDeviceFile (decode_error_show u e)) (object_of v)) (\<lambda>obj.
    attempt (ok_or (JoinDeviceFile (lit ''no version'')) (Option.bind (obj_get obj (lit ''version'')) as_i64)) (\<lambda>version.
    if version \<noteq> DEVICE_SCHEMA then
      Inl (JoinDeviceFile (lit ''device file is version '' @ show_int version @ lit '', this build writes '' @ show_int DEVICE_SCHEMA))
    else
    attempt (ok_or (JoinDeviceFile MISSING_PORT) (obj_get obj (lit ''api_port''))) (\<lambda>port.
    attempt (ok_or (JoinDeviceFile (lit ''api_port is not a port''))
        (Option.bind (as_i64 port) (\<lambda>port. if 0 < port \<and> port \<le> 65535 then Some (of_int port) else None))) (\<lambda>api_port.
    attempt (device_field u obj (lit ''domain'')) (\<lambda>domain.
    attempt (device_field u obj (lit ''name'')) (\<lambda>name.
    attempt (device_field u obj (lit ''address'')) (\<lambda>address.
    attempt (device_field u obj (lit ''subnet'')) (\<lambda>subnet.
    attempt (device_field u obj (lit ''token'')) (\<lambda>token.
    attempt (device_field u obj (lit ''server_public_key'')) (\<lambda>server_public_key.
    attempt (device_field u obj (lit ''server_endpoint'')) (\<lambda>server_endpoint.
    attempt (device_field u obj (lit ''server_address'')) (\<lambda>server_address.
      Inr \<lparr>dc_domain = domain, dc_api_port = api_port, dc_name = name, dc_address = address,
        dc_subnet = subnet, dc_token = token, dc_server_public_key = server_public_key,
        dc_server_endpoint = server_endpoint, dc_server_address = server_address\<rparr>)))))))))))))"

section \<open>The hub's answer, checked\<close>

text \<open>\<open>str::rsplit_once\<close>.\<close>

definition rsplit_once :: "rchar \<Rightarrow> rstr \<Rightarrow> (rstr \<times> rstr) option" where
  "rsplit_once x s = map_option (\<lambda>(a, b). (rev b, rev a)) (split_once x (rev s))"

definition is_host_char :: "rchar \<Rightarrow> bool" where
  "is_host_char c \<longleftrightarrow> is_ascii_alnum c \<or> c = 45 \<or> c = 46"

definition checked_endpoint :: "unicode \<Rightarrow> rstr \<Rightarrow> join_error + rstr" where
  "checked_endpoint u text =
    (let bad = (\<lambda>why. JoinBadResponse (lit ''server endpoint '' @ debug_str u text @ lit '': '' @ why)) in
     attempt (ok_or (bad (lit ''expected host:port'')) (rsplit_once 58 text)) (\<lambda>(host, port).
     if host = [] then Inl (bad (lit ''no host''))
     else if \<not> (\<forall>c \<in> set host. is_host_char c) then Inl (bad (lit ''the host is not a hostname''))
     else attempt (ok_or (bad (lit ''the port is not a number'')) (parse_unsigned 65535 port)) (\<lambda>port.
       if port = 0 then Inl (bad (lit ''port 0 is not a port''))
       else Inr (host @ [58] @ dec_nat port))))"

definition device_profile :: "unicode \<Rightarrow> device_config \<Rightarrow> private_key \<Rightarrow> join_error + client_profile" where
  "device_profile u c key =
    attempt (ok_or (JoinBadResponse (debug_str u (dc_address c) @ lit '' is not an address'')) (ipv4_parse (dc_address c))) (\<lambda>address.
    attempt (map_err (\<lambda>e. JoinBadResponse (lit ''subnet: '' @ subnet_error_show e)) (subnet_parse (dc_subnet c))) (\<lambda>subnet.
    attempt (map_err (\<lambda>e. JoinBadResponse (lit ''server public key: '' @ wg_error_show (WgBadKey e)))
        (parse_key (dc_server_public_key c))) (\<lambda>server_key.
    attempt (checked_endpoint u (dc_server_endpoint c)) (\<lambda>endpoint.
      Inr \<lparr>cp_address = address, cp_subnet = subnet, cp_private_key = key,
        cp_server_public_key = server_key, cp_server_endpoint = endpoint\<rparr>))))"

definition device_validate :: "unicode \<Rightarrow> device_config \<Rightarrow> join_error + unit" where
  "device_validate u c =
    attempt (map_err (\<lambda>e. JoinBadResponse (lit ''name: '' @ name_error_show u e)) (device_name_parse u (dc_name c))) (\<lambda>_.
    attempt (map_err (\<lambda>e. JoinBadResponse (lit ''token: '' @ token_error_show u e)) (token_parse (dc_token c))) (\<lambda>_.
    attempt (ok_or (JoinBadResponse (debug_str u (dc_server_address c) @ lit '' is not the server'' @ [39] @ lit ''s address''))
        (ipv4_parse (dc_server_address c))) (\<lambda>_. Inr ())))"

definition device_server_ip :: "device_config \<Rightarrow> ipv4 option" where
  "device_server_ip c = ipv4_parse (dc_server_address c)"

definition accepted ::
  "unicode \<Rightarrow> rstr \<Rightarrow> rstr \<Rightarrow> 16 word \<Rightarrow> private_key \<Rightarrow> join_error + (device_config \<times> client_profile)"
where
  "accepted u body domain api_port key =
    attempt (map_err (\<lambda>e. JoinBadResponse (json_error_show e)) (json_parse u body)) (\<lambda>v.
    attempt (map_err (\<lambda>e. JoinBadResponse (decode_error_show u e)) (join_response_from_json v)) (\<lambda>answer.
      let config = device_from_response domain api_port answer in
      attempt (device_validate u config) (\<lambda>_.
      attempt (device_profile u config key) (\<lambda>profile. Inr (config, profile)))))"

definition join_body :: "join_code \<Rightarrow> device_name \<Rightarrow> rstr \<Rightarrow> rstr" where
  "join_body code name public_key =
    to_string (join_request_to_json \<lparr>jq_code = code_str code, jq_name = name_str name, jq_public_key = public_key\<rparr>)"

definition trim_matches :: "(rchar \<Rightarrow> bool) \<Rightarrow> rstr \<Rightarrow> rstr" where
  "trim_matches P s = rev (dropWhile P (rev (dropWhile P s)))"

definition name_from_hostname :: "unicode \<Rightarrow> rstr \<Rightarrow> device_name option" where
  "name_from_hostname u hostname =
    (let label = hd (split_on 46 hostname);
         cleaned = map (\<lambda>c. if is_allowed u c then c else 45) label;
         trimmed = trim_matches (\<lambda>c. c = 45 \<or> c = 95) cleaned
     in case device_name_parse u trimmed of Inl _ \<Rightarrow> None | Inr name \<Rightarrow> Some name)"

definition explain_join :: "unicode \<Rightarrow> nat \<Rightarrow> rstr \<Rightarrow> rstr" where
  "explain_join u code body =
    (let failure = describe u code body;
         advice = (case fl_code failure of
             Some EcInvalidCode \<Rightarrow> lit '' '' @ [0x2014]
     @ lit '' codes are single use and expire; run `anago code` on the server for another''
           | Some EcNameTaken \<Rightarrow> lit '' '' @ [0x2014] @ lit '' pick another with --name, or `anago rm` the old device''
           | Some EcInvalidName \<Rightarrow> lit '' '' @ [0x2014] @ lit '' see the name rules in the docs (letters, digits, - and _)''
           | Some EcSubnetFull \<Rightarrow> lit '' '' @ [0x2014] @ lit '' every address is taken; remove a device first''
           | Some EcInvalidPublicKey \<Rightarrow> lit '' '' @ [0x2014] @ lit '' this looks like a bug in anago, not something you did''
           | _ \<Rightarrow> [])
     in lit ''the hub refused the join: '' @ fl_message failure @ advice)"

definition undo_credentials :: "unicode \<Rightarrow> rstr \<Rightarrow> (device_name \<times> device_token) option" where
  "undo_credentials u body =
    (let text_of = (\<lambda>v name. Option.bind (Option.bind (as_object v) (\<lambda>obj. obj_get obj name)) as_str)
     in
     case json_parse u body of
       Inl _ \<Rightarrow> None
     | Inr v \<Rightarrow>
         Option.bind (text_of v (lit ''name'')) (\<lambda>name.
         case device_name_parse u name of
           Inl _ \<Rightarrow> None
         | Inr name \<Rightarrow>
             Option.bind (text_of v (lit ''token'')) (\<lambda>token.
             case token_parse token of
               Inl _ \<Rightarrow> None
             | Inr token \<Rightarrow> Some (name, token))))"

section \<open>What sync compares\<close>

datatype sync_error =
    Unreachable rstr
  | Busy
  | Untrusted rstr
  | SyncDetached detachment
  | NoDeviceFile rstr rstr
  | SyncDeviceFile rstr
  | SyncBadResponse rstr
  | SyncRefused rstr
  | NoPrivateKey rstr rstr
  | SyncWrite rstr rstr
  | ApplyFailed rstr

definition local_of :: "unicode \<Rightarrow> device_config \<Rightarrow> sync_error + local_info" where
  "local_of u c =
    (let field = (\<lambda>what detail. SyncDeviceFile (what @ lit '': '' @ detail)) in
     attempt (map_err (\<lambda>e. field (lit ''name'') (name_error_show u e)) (device_name_parse u (dc_name c))) (\<lambda>name.
     attempt (ok_or (field (lit ''address'') (debug_str u (dc_address c) @ lit '' is not an IPv4 address'')) (ipv4_parse (dc_address c))) (\<lambda>address.
     attempt (map_err (\<lambda>e. field (lit ''subnet'') (subnet_error_show e)) (subnet_parse (dc_subnet c))) (\<lambda>subnet.
     attempt (ok_or (field (lit ''server_address'') (debug_str u (dc_server_address c) @ lit '' is not an IPv4 address''))
         (ipv4_parse (dc_server_address c))) (\<lambda>server_address.
       Inr \<lparr>l_name = name, l_address = address, l_subnet = subnet,
         l_server_public_key = dc_server_public_key c, l_server_endpoint = dc_server_endpoint c,
         l_server_address = server_address\<rparr>)))))"

definition reported_of :: "unicode \<Rightarrow> peers_response \<Rightarrow> sync_error + reported option" where
  "reported_of u r =
    (case pr_hub r of
       None \<Rightarrow> Inr None
     | Some hub \<Rightarrow>
         let bad = (\<lambda>what detail. SyncBadResponse (what @ lit '': '' @ detail)) in
         attempt (map_err (\<lambda>e. bad (lit ''subnet'') (subnet_error_show e)) (subnet_parse (hub_subnet hub))) (\<lambda>subnet.
         attempt (map_err (\<lambda>e. bad (lit ''server_public_key'') (wg_error_show (WgBadKey e)))
             (parse_key (hub_server_public_key hub))) (\<lambda>key.
         attempt (map_err (\<lambda>e. bad (lit ''server_endpoint'') (join_error_show u e))
             (checked_endpoint u (hub_server_endpoint hub))) (\<lambda>endpoint.
         attempt (ok_or (bad (lit ''server_address'') (debug_str u (hub_server_address hub) @ lit '' is not an IPv4 address''))
             (ipv4_parse (hub_server_address hub))) (\<lambda>address.
           Inr (Some \<lparr>r_subnet = subnet, r_server_public_key = key, r_server_endpoint = endpoint,
             r_server_address = address\<rparr>))))))"

definition roster_member_of :: "unicode \<Rightarrow> peer_info \<Rightarrow> sync_error + roster_member" where
  "roster_member_of u p =
    attempt (map_err (\<lambda>e. SyncBadResponse (lit ''peer name: '' @ name_error_show u e)) (device_name_parse u (pi_name p))) (\<lambda>name.
    attempt (ok_or (SyncBadResponse (debug_str u (pi_address p) @ lit '' is not an IPv4 address'')) (ipv4_parse (pi_address p))) (\<lambda>address.
      Inr \<lparr>m_name = name, m_address = address\<rparr>))"

text \<open>\<open>collect\<close> into a \<open>Result\<close>: the first error, or all the values.\<close>

fun try_map :: "('a \<Rightarrow> 'e + 'b) \<Rightarrow> 'a list \<Rightarrow> 'e + 'b list" where
  "try_map f [] = Inr []"
| "try_map f (x # xs) = attempt (f x) (\<lambda>y. attempt (try_map f xs) (\<lambda>ys. Inr (y # ys)))"

definition roster_of :: "unicode \<Rightarrow> peers_response \<Rightarrow> sync_error + roster_member list" where
  "roster_of u r = try_map (roster_member_of u) (pr_peers r)"

definition updated :: "device_config \<Rightarrow> reported option \<Rightarrow> device_config" where
  "updated c rep =
    (case rep of
       None \<Rightarrow> c
     | Some r \<Rightarrow> c\<lparr>dc_server_public_key := r_server_public_key r, dc_server_endpoint := r_server_endpoint r,
         dc_server_address := ipv4_show (r_server_address r)\<rparr>)"

definition profile_of :: "unicode \<Rightarrow> device_config \<Rightarrow> private_key \<Rightarrow> sync_error + client_profile" where
  "profile_of u c key =
    attempt (local_of u c) (\<lambda>loc.
      Inr \<lparr>cp_address = l_address loc, cp_subnet = l_subnet loc, cp_private_key = key,
        cp_server_public_key = dc_server_public_key c, cp_server_endpoint = dc_server_endpoint c\<rparr>)"

definition interface_of :: "path \<Rightarrow> rstr" where
  "interface_of wg_config = (case path_file_stem wg_config of None \<Rightarrow> WG_INTERFACE | Some stem \<Rightarrow> stem)"

end
