(* ===== verification/FsUtil.thy ===== *)
theory FsUtil
  imports Diagnostics
begin

text \<open>
  \<open>crates/anago/src/fsutil.rs\<close> on Unix: the writes through a temporary sibling, the work inside an
  open directory and the locks, over a small model of the system calls they make. A name leads to
  an inode, a file that is open is held by its inode. Every call may fail, a write may stop half
  way, and the file system after each call is kept in a trace, so that a statement about all of the
  trace is one about a crash at any moment.
\<close>

unbundle bit_operations_syntax

section \<open>The file system\<close>

type_synonym u32 = "32 word"

type_synonym io_err = "io_kind \<times> rstr"

datatype entry = FileAt nat | DirAt "nat \<times> nat" | LinkAt "nat \<times> nat"

text \<open>A regular file, and whether its contents are known to be on disk.\<close>

record inode =
  f_bytes :: "u8 list"
  f_mode :: u32
  f_owner :: "nat \<times> nat"
  f_synced :: bool

record fs =
  fs_names :: "path \<Rightarrow> entry option"
  fs_files :: "nat \<Rightarrow> inode"
  fs_next :: nat

record world =
  w_fs :: fs
  w_steps :: nat
  w_trace :: "fs list"

text \<open>
  The system: which call fails and how, how much a failing write got through, what is behind a
  symbolic link, the umask, who the process is, its number, and the locks other processes hold.
\<close>

record sys_env =
  se_fault :: "nat \<Rightarrow> io_err option"
  se_partial :: "nat \<Rightarrow> nat"
  se_link :: "path \<Rightarrow> io_err + u8 list"
  se_link_there :: "path \<Rightarrow> bool"
  se_umask :: u32
  se_self :: "nat \<times> nat"
  se_pid :: nat
  se_locked :: "path \<Rightarrow> bool"
  se_unicode :: unicode

section \<open>Input and output\<close>

type_synonym 'a io = "sys_env \<Rightarrow> world \<Rightarrow> (io_err + 'a) \<times> world"

definition io_return :: "'a \<Rightarrow> 'a io" where
  "io_return x = (\<lambda>env w. (Inr x, w))"

definition io_throw :: "io_err \<Rightarrow> 'a io" where
  "io_throw e = (\<lambda>env w. (Inl e, w))"

definition io_bind :: "'a io \<Rightarrow> ('a \<Rightarrow> 'b io) \<Rightarrow> 'b io" where
  "io_bind m f = (\<lambda>env w. case m env w of (Inl e, w') \<Rightarrow> (Inl e, w') | (Inr x, w') \<Rightarrow> f x env w')"

text \<open>The result as a value: what \<open>match\<close> and \<open>let _ =\<close> on a \<open>Result\<close> do.\<close>

definition io_catch :: "'a io \<Rightarrow> (io_err + 'a) io" where
  "io_catch m = (\<lambda>env w. case m env w of (r, w') \<Rightarrow> (Inr r, w'))"

definition io_then :: "'a io \<Rightarrow> 'b io \<Rightarrow> 'b io" where
  "io_then m k = io_bind m (\<lambda>_. k)"

definition io_ignore :: "'a io \<Rightarrow> unit io" where
  "io_ignore m = io_bind (io_catch m) (\<lambda>_. io_return ())"

definition io_reject :: "(io_err + 'a) \<Rightarrow> 'a io" where
  "io_reject r = (case r of Inl e \<Rightarrow> io_throw e | Inr x \<Rightarrow> io_return x)"

definition io_asks :: "(sys_env \<Rightarrow> 'a) \<Rightarrow> 'a io" where
  "io_asks g = (\<lambda>env w. (Inr (g env), w))"

definition advance :: "fs \<Rightarrow> world \<Rightarrow> world" where
  "advance s w = \<lparr>w_fs = s, w_steps = w_steps w + 1, w_trace = s # w_trace w\<rparr>"

text \<open>A call: a fault leaves everything, otherwise the effect decides.\<close>

definition sys_call :: "(sys_env \<Rightarrow> fs \<Rightarrow> io_err + ('a \<times> fs)) \<Rightarrow> 'a io" where
  "sys_call effect = (\<lambda>env w.
    case se_fault env (w_steps w) of
      Some e \<Rightarrow> (Inl e, advance (w_fs w) w)
    | None \<Rightarrow>
        (case effect env (w_fs w) of
           Inl e \<Rightarrow> (Inl e, advance (w_fs w) w)
         | Inr (x, s) \<Rightarrow> (Inr x, advance s w)))"

section \<open>System calls\<close>

definition no_entry :: io_err where "no_entry = (IoNotFound, lit ''No such file or directory'')"
definition exists_already :: io_err where "exists_already = (IoAlreadyExists, lit ''File exists'')"
definition is_a_directory :: io_err where "is_a_directory = (IoOther (lit ''IsADirectory''), lit ''Is a directory'')"
definition not_a_directory :: io_err where "not_a_directory = (IoNotADirectory, lit ''Not a directory'')"
definition link_loop :: io_err where
  "link_loop = (IoOther (lit ''FilesystemLoop''), lit ''Too many levels of symbolic links'')"
definition not_utf8 :: io_err where
  "not_utf8 = (IoOther (lit ''InvalidData''), lit ''stream did not contain valid UTF-8'')"

definition set_name :: "path \<Rightarrow> entry option \<Rightarrow> fs \<Rightarrow> fs" where
  "set_name p e s = s\<lparr>fs_names := (fs_names s)(p := e)\<rparr>"

definition set_file :: "nat \<Rightarrow> (inode \<Rightarrow> inode) \<Rightarrow> fs \<Rightarrow> fs" where
  "set_file i f s = s\<lparr>fs_files := (fs_files s)(i := f (fs_files s i))\<rparr>"

definition new_file :: "path \<Rightarrow> inode \<Rightarrow> fs \<Rightarrow> fs" where
  "new_file p f s =
    s\<lparr>fs_names := (fs_names s)(p \<mapsto> FileAt (fs_next s)), fs_files := (fs_files s)(fs_next s := f),
      fs_next := fs_next s + 1\<rparr>"

definition sys_unlink :: "path \<Rightarrow> unit io" where
  "sys_unlink p = sys_call (\<lambda>_ s.
    case fs_names s p of
      None \<Rightarrow> Inl no_entry
    | Some (DirAt _) \<Rightarrow> Inl is_a_directory
    | Some _ \<Rightarrow> Inr ((), set_name p None s))"

text \<open>\<open>open\<close> with \<open>O_CREAT\<close>, \<open>O_EXCL\<close> and \<open>O_NOFOLLOW\<close>: the umask only clears bits.\<close>

definition sys_create :: "path \<Rightarrow> u32 \<Rightarrow> nat io" where
  "sys_create p mode = sys_call (\<lambda>env s.
    if fs_names s p \<noteq> None then Inl exists_already
    else Inr (fs_next s, new_file p \<lparr>f_bytes = [], f_mode = mode AND NOT (se_umask env), f_owner = se_self env, f_synced = False\<rparr> s))"

text \<open>\<open>open\<close> of what is there, with \<open>O_NOFOLLOW\<close>.\<close>

definition sys_open :: "path \<Rightarrow> nat io" where
  "sys_open p = sys_call (\<lambda>_ s.
    case fs_names s p of
      None \<Rightarrow> Inl no_entry
    | Some (DirAt _) \<Rightarrow> Inl is_a_directory
    | Some (LinkAt _) \<Rightarrow> Inl link_loop
    | Some (FileAt i) \<Rightarrow> Inr (i, s))"

definition sys_fchmod :: "nat \<Rightarrow> u32 \<Rightarrow> unit io" where
  "sys_fchmod i mode = sys_call (\<lambda>_ s. Inr ((), set_file i (\<lambda>f. f\<lparr>f_mode := mode\<rparr>) s))"

definition sys_fchown :: "nat \<Rightarrow> nat \<times> nat \<Rightarrow> unit io" where
  "sys_fchown i owner = sys_call (\<lambda>_ s. Inr ((), set_file i (\<lambda>f. f\<lparr>f_owner := owner\<rparr>) s))"

definition sys_fsync :: "nat \<Rightarrow> unit io" where
  "sys_fsync i = sys_call (\<lambda>_ s. Inr ((), set_file i (\<lambda>f. f\<lparr>f_synced := True\<rparr>) s))"

definition fill_with :: "u8 list \<Rightarrow> inode \<Rightarrow> inode" where
  "fill_with bytes f = f\<lparr>f_bytes := bytes, f_synced := False\<rparr>"

text \<open>\<open>write_all\<close> into an empty file; one that fails leaves a part.\<close>

definition sys_write :: "nat \<Rightarrow> u8 list \<Rightarrow> unit io" where
  "sys_write i contents = (\<lambda>env w.
    case se_fault env (w_steps w) of
      Some e \<Rightarrow> (Inl e, advance (set_file i (fill_with (take (se_partial env (w_steps w)) contents)) (w_fs w)) w)
    | None \<Rightarrow> (Inr (), advance (set_file i (fill_with contents) (w_fs w)) w))"

text \<open>\<open>rename\<close> onto another name of the same file does nothing, as POSIX has it.\<close>

definition sys_rename :: "path \<Rightarrow> path \<Rightarrow> unit io" where
  "sys_rename from to = sys_call (\<lambda>_ s.
    case (fs_names s from, fs_names s to) of
      (None, _) \<Rightarrow> Inl no_entry
    | (Some e, Some (DirAt _)) \<Rightarrow> Inl is_a_directory
    | (Some e, target) \<Rightarrow>
        if target = Some e then Inr ((), s) else Inr ((), set_name to (Some e) (set_name from None s)))"

definition sys_link :: "path \<Rightarrow> path \<Rightarrow> unit io" where
  "sys_link from to = sys_call (\<lambda>_ s.
    case fs_names s from of
      None \<Rightarrow> Inl no_entry
    | Some e \<Rightarrow> if fs_names s to \<noteq> None then Inl exists_already else Inr ((), set_name to (Some e) s))"

definition sys_read_fd :: "nat \<Rightarrow> u8 list io" where
  "sys_read_fd i = sys_call (\<lambda>_ s. Inr (f_bytes (fs_files s i), s))"

text \<open>\<open>fs::read\<close> follows a link.\<close>

definition sys_read :: "path \<Rightarrow> u8 list io" where
  "sys_read p = sys_call (\<lambda>env s.
    case fs_names s p of
      None \<Rightarrow> Inl no_entry
    | Some (FileAt i) \<Rightarrow> Inr (f_bytes (fs_files s i), s)
    | Some (DirAt _) \<Rightarrow> Inl is_a_directory
    | Some (LinkAt _) \<Rightarrow> (case se_link env p of Inl e \<Rightarrow> Inl e | Inr b \<Rightarrow> Inr (b, s)))"

definition as_text :: "u8 list \<Rightarrow> rstr io" where
  "as_text bytes = (case utf8_decode bytes of None \<Rightarrow> io_throw not_utf8 | Some t \<Rightarrow> io_return t)"

text \<open>\<open>fs::read_to_string\<close> and \<open>Path::exists\<close>, which follow a link.\<close>

definition fs_read_to_string :: "path \<Rightarrow> rstr io" where
  "fs_read_to_string p = io_bind (sys_read p) as_text"

definition path_exists :: "path \<Rightarrow> bool io" where
  "path_exists p =
    io_bind (io_catch (sys_call (\<lambda>env s. Inr
      ((case fs_names s p of None \<Rightarrow> False | Some (LinkAt _) \<Rightarrow> se_link_there env p | Some _ \<Rightarrow> True), s))))
      (\<lambda>r. io_return (case r of Inl _ \<Rightarrow> False | Inr b \<Rightarrow> b))"

text \<open>The owner and the entry at a name, without following a link.\<close>

definition sys_lstat :: "path \<Rightarrow> (entry \<times> (nat \<times> nat)) io" where
  "sys_lstat p = sys_call (\<lambda>_ s.
    case fs_names s p of
      None \<Rightarrow> Inl no_entry
    | Some (FileAt i) \<Rightarrow> Inr ((FileAt i, f_owner (fs_files s i)), s)
    | Some (DirAt own) \<Rightarrow> Inr ((DirAt own, own), s)
    | Some (LinkAt own) \<Rightarrow> Inr ((LinkAt own, own), s))"

text \<open>
  \<open>create_dir_all\<close>: what is above the directory is not tracked.
\<close>

definition sys_mkdir_all :: "path \<Rightarrow> unit io" where
  "sys_mkdir_all p = sys_call (\<lambda>env s.
    case fs_names s p of
      None \<Rightarrow> Inr ((), set_name p (Some (DirAt (se_self env))) s)
    | Some (DirAt _) \<Rightarrow> Inr ((), s)
    | Some (FileAt _) \<Rightarrow> Inl exists_already
    | Some (LinkAt _) \<Rightarrow> if se_link_there env p then Inr ((), s) else Inl exists_already)"

definition sys_chmod_dir :: "path \<Rightarrow> u32 \<Rightarrow> unit io" where
  "sys_chmod_dir p mode = sys_call (\<lambda>_ s. Inr ((), s))"

definition sys_open_dir :: "path \<Rightarrow> (nat \<times> nat) io" where
  "sys_open_dir p = sys_call (\<lambda>_ s.
    case fs_names s p of
      None \<Rightarrow> Inl no_entry
    | Some (DirAt own) \<Rightarrow> Inr (own, s)
    | Some _ \<Rightarrow> Inl not_a_directory)"

text \<open>\<open>flock\<close> without waiting: false when another process holds it.\<close>

definition sys_try_lock :: "path \<Rightarrow> bool io" where
  "sys_try_lock p = sys_call (\<lambda>env s. Inr (\<not> se_locked env p, s))"

definition sys_lock :: "path \<Rightarrow> unit io" where
  "sys_lock p = sys_call (\<lambda>_ s. Inr ((), s))"

section \<open>Names\<close>

definition PRIVATE_FILE_MODE :: u32 where "PRIVATE_FILE_MODE = 384"
definition PRIVATE_DIR_MODE :: u32 where "PRIVATE_DIR_MODE = 448"
definition SYSTEM_FILE_MODE :: u32 where "SYSTEM_FILE_MODE = 420"

definition sibling :: "path \<Rightarrow> rstr \<Rightarrow> path io" where
  "sibling p suffix = (\<lambda>env.
    (case path_file_name p of
       None \<Rightarrow> io_throw (IoOther (lit ''InvalidInput''), debug_str (se_unicode env) p @ lit '' has no file name'')
     | Some name \<Rightarrow> io_return (path_with_file_name p (name @ suffix))) env)"

definition temp_sibling :: "path \<Rightarrow> path io" where
  "temp_sibling p = sibling p (lit ''.tmp'')"

definition unique_temp_sibling :: "path \<Rightarrow> path io" where
  "unique_temp_sibling p = io_bind (io_asks se_pid) (\<lambda>pid. sibling p (lit ''.'' @ dec_nat pid @ lit ''.tmp''))"

section \<open>Creating\<close>

definition or_remove :: "nat \<Rightarrow> path \<Rightarrow> io_err + unit \<Rightarrow> nat io" where
  "or_remove fd p outcome =
    (case outcome of
       Inr _ \<Rightarrow> io_return fd
     | Inl e \<Rightarrow> io_then (io_ignore (sys_unlink p)) (io_throw e))"

definition create_new_with :: "path \<Rightarrow> u32 \<Rightarrow> nat io" where
  "create_new_with p mode =
    io_bind (sys_create p mode) (\<lambda>fd. io_bind (io_catch (sys_fchmod fd mode)) (or_remove fd p))"

definition open_new_private :: "path \<Rightarrow> nat io" where
  "open_new_private p = create_new_with p PRIVATE_FILE_MODE"

definition replace_with :: "path \<Rightarrow> u32 \<Rightarrow> nat io" where
  "replace_with p mode =
    io_bind (io_catch (sys_unlink p)) (\<lambda>removed.
      case removed of
        Inr _ \<Rightarrow> create_new_with p mode
      | Inl (kind, text) \<Rightarrow> if kind = IoNotFound then create_new_with p mode else io_throw (kind, text))"

definition create_private_new :: "path \<Rightarrow> nat io" where
  "create_private_new p = replace_with p PRIVATE_FILE_MODE"

definition ensure_private_dir :: "path \<Rightarrow> unit io" where
  "ensure_private_dir p = io_then (sys_mkdir_all p) (sys_chmod_dir p PRIVATE_DIR_MODE)"

section \<open>Writing\<close>

text \<open>\<open>sync_parent\<close> is best effort and changes no name; it is left out.\<close>

definition give_fd_to :: "nat \<Rightarrow> (nat \<times> nat) option \<Rightarrow> unit io" where
  "give_fd_to fd owner = (case owner of Some o' \<Rightarrow> sys_fchown fd o' | None \<Rightarrow> io_return ())"

definition fill_file :: "nat \<Rightarrow> u8 list \<Rightarrow> (nat \<times> nat) option \<Rightarrow> unit io" where
  "fill_file fd contents owner =
    io_then (sys_write fd contents) (io_then (give_fd_to fd owner) (sys_fsync fd))"

definition rename_or_remove :: "path \<Rightarrow> path \<Rightarrow> unit io" where
  "rename_or_remove tmp p =
    io_bind (io_catch (sys_rename tmp p)) (\<lambda>renamed.
      case renamed of
        Inr _ \<Rightarrow> io_return ()
      | Inl e \<Rightarrow> io_then (io_ignore (sys_unlink tmp)) (io_throw e))"

definition write_private_owned :: "path \<Rightarrow> u8 list \<Rightarrow> (nat \<times> nat) option \<Rightarrow> unit io" where
  "write_private_owned p contents owner =
    io_bind (temp_sibling p) (\<lambda>tmp.
    io_bind (create_private_new tmp) (\<lambda>fd.
    io_bind (io_catch (fill_file fd contents owner)) (\<lambda>written.
    io_then (or_remove fd tmp written) (rename_or_remove tmp p))))"

definition write_private :: "path \<Rightarrow> rstr \<Rightarrow> unit io" where
  "write_private p contents = write_private_owned p (utf8 contents) None"

definition write_private_bytes :: "path \<Rightarrow> u8 list \<Rightarrow> unit io" where
  "write_private_bytes p contents = write_private_owned p contents None"

definition write_system :: "path \<Rightarrow> rstr \<Rightarrow> unit io" where
  "write_system p contents =
    io_bind (temp_sibling p) (\<lambda>tmp.
    io_bind (replace_with tmp SYSTEM_FILE_MODE) (\<lambda>fd.
    io_bind (io_catch (io_then (sys_write fd (utf8 contents)) (sys_fsync fd))) (\<lambda>wrote.
    case wrote of
      Inl e \<Rightarrow> io_then (io_ignore (sys_unlink tmp)) (io_throw e)
    | Inr _ \<Rightarrow> rename_or_remove tmp p)))"

definition create_new_private_owned :: "path \<Rightarrow> rstr \<Rightarrow> (nat \<times> nat) option \<Rightarrow> unit io" where
  "create_new_private_owned p contents owner =
    io_bind (unique_temp_sibling p) (\<lambda>tmp.
    io_bind (create_new_with tmp PRIVATE_FILE_MODE) (\<lambda>fd.
    io_bind (io_catch (fill_file fd (utf8 contents) owner)) (\<lambda>written.
    case written of
      Inl e \<Rightarrow> io_then (io_ignore (sys_unlink tmp)) (io_throw e)
    | Inr _ \<Rightarrow>
        io_bind (io_catch (sys_link tmp p)) (\<lambda>linked.
        io_then (io_ignore (sys_unlink tmp)) (io_reject linked)))))"

definition create_new_private :: "path \<Rightarrow> rstr \<Rightarrow> unit io" where
  "create_new_private p contents = create_new_private_owned p contents None"

section \<open>Two files that have to agree\<close>

definition prepare_private :: "path \<Rightarrow> u8 list \<Rightarrow> path io" where
  "prepare_private p contents =
    io_bind (sibling p (lit ''.tmp'')) (\<lambda>tmp.
    io_bind (create_private_new tmp) (\<lambda>fd.
    io_then (sys_write fd contents) (
    io_then (sys_fsync fd) (io_return tmp))))"

definition back_up :: "path \<Rightarrow> path option io" where
  "back_up p =
    io_bind (io_catch (sys_read p)) (\<lambda>previous.
      case previous of
        Inl (kind, text) \<Rightarrow> if kind = IoNotFound then io_return None else io_throw (kind, text)
      | Inr previous \<Rightarrow>
          io_bind (sibling p (lit ''.bak'')) (\<lambda>backup.
          io_bind (create_private_new backup) (\<lambda>fd.
          io_then (sys_write fd previous) (
          io_then (sys_fsync fd) (io_return (Some backup))))))"

definition undo :: "path \<Rightarrow> path option \<Rightarrow> io_err \<Rightarrow> io_err io" where
  "undo p backup cause =
    io_bind (io_catch (case backup of Some b \<Rightarrow> sys_rename b p | None \<Rightarrow> sys_unlink p)) (\<lambda>undone.
      case undone of
        Inr _ \<Rightarrow> io_return cause
      | Inl e \<Rightarrow> io_return (fst cause,
          snd cause @ lit ''; and '' @ p @ lit '' could not be put back afterwards ('' @ snd e @ lit '')''
          @ (case backup of Some b \<Rightarrow> lit '' '' @ [0x2014] @ lit '' the previous contents are in '' @ b | None \<Rightarrow> [])))"

definition remove_backup :: "path option \<Rightarrow> unit io" where
  "remove_backup backup = (case backup of Some b \<Rightarrow> io_ignore (sys_unlink b) | None \<Rightarrow> io_return ())"

definition write_private_pair :: "path \<times> rstr \<Rightarrow> path \<times> rstr \<Rightarrow> unit io" where
  "write_private_pair first second =
    io_bind (prepare_private (fst first) (utf8 (snd first))) (\<lambda>first_tmp.
    io_bind (io_catch (prepare_private (fst second) (utf8 (snd second)))) (\<lambda>prepared.
    case prepared of
      Inl e \<Rightarrow> io_then (io_ignore (sys_unlink first_tmp)) (io_throw e)
    | Inr second_tmp \<Rightarrow>
    io_bind (io_catch (back_up (fst first))) (\<lambda>backed.
    case backed of
      Inl e \<Rightarrow>
        io_then (io_ignore (sys_unlink first_tmp)) (io_then (io_ignore (sys_unlink second_tmp)) (io_throw e))
    | Inr backup \<Rightarrow>
    io_bind (io_catch (sys_rename first_tmp (fst first))) (\<lambda>renamed.
    case renamed of
      Inl e \<Rightarrow>
        io_then (io_ignore (sys_unlink first_tmp)) (io_then (io_ignore (sys_unlink second_tmp))
          (io_then (remove_backup backup) (io_throw e)))
    | Inr _ \<Rightarrow>
    io_bind (io_catch (sys_rename second_tmp (fst second))) (\<lambda>renamed.
    case renamed of
      Inl e \<Rightarrow>
        io_then (io_ignore (sys_unlink second_tmp))
          (io_bind (undo (fst first) backup e) io_throw)
    | Inr _ \<Rightarrow> remove_backup backup)))))"

section \<open>Inside an open directory\<close>

text \<open>
  A handle stands for the directory it holds, whatever happens to the name it was opened by; the
  names inside it are written with that directory in front.
\<close>

datatype dir_handle = DirHandle (dh_path: path) (dh_owner: nat)

definition dir_open :: "path \<Rightarrow> dir_handle io" where
  "dir_open p = (if 0 \<in> set p then io_throw (IoOther (lit ''InvalidInput''), lit ''path contains a NUL'')
    else io_bind (sys_open_dir p) (\<lambda>own. io_return (DirHandle p (fst own))))"

definition dir_owner :: "dir_handle \<Rightarrow> nat io" where
  "dir_owner d = sys_call (\<lambda>_ s. Inr (dh_owner d, s))"

definition dir_open_owned :: "path \<Rightarrow> nat \<Rightarrow> dir_handle io" where
  "dir_open_owned p uid =
    io_bind (dir_open p) (\<lambda>handle.
    io_bind (dir_owner handle) (\<lambda>owner.
      if owner \<noteq> uid then io_throw (IoPermissionDenied, p @ lit '' is not owned by uid '' @ dec_nat uid)
      else io_return handle))"

definition c_name :: "dir_handle \<Rightarrow> rstr \<Rightarrow> path io" where
  "c_name d name = io_bind (io_asks se_unicode) (\<lambda>u.
    if name = [] \<or> 47 \<in> set name \<or> 92 \<in> set name \<or> name = [46] \<or> name = [46, 46] then
      io_throw (IoOther (lit ''InvalidInput''), debug_str u name @ lit '' is not a file name'')
    else if 0 \<in> set name then io_throw (IoOther (lit ''InvalidInput''), lit ''name contains a NUL'')
    else io_return (path_join (dh_path d) name))"

definition temp_name :: "rstr \<Rightarrow> rstr io" where
  "temp_name name = io_bind (io_asks se_pid) (\<lambda>pid. io_return (name @ lit ''.'' @ dec_nat pid @ lit ''.tmp''))"

definition dir_exists :: "dir_handle \<Rightarrow> rstr \<Rightarrow> bool io" where
  "dir_exists d name = io_bind (c_name d name) (\<lambda>p.
    io_bind (io_catch (sys_lstat p)) (\<lambda>r.
      case r of
        Inr _ \<Rightarrow> io_return True
      | Inl (kind, text) \<Rightarrow> if kind = IoNotFound then io_return False else io_throw (kind, text)))"

definition dir_owner_of :: "dir_handle \<Rightarrow> rstr \<Rightarrow> (nat \<times> nat) io" where
  "dir_owner_of d name = io_bind (c_name d name) (\<lambda>p. io_bind (sys_lstat p) (\<lambda>(_, own). io_return own))"

definition dir_read_to_string :: "dir_handle \<Rightarrow> rstr \<Rightarrow> rstr io" where
  "dir_read_to_string d name = io_bind (c_name d name) (\<lambda>p.
    io_bind (sys_open p) (\<lambda>fd. io_bind (sys_read_fd fd) as_text))"

definition dir_remove :: "dir_handle \<Rightarrow> rstr \<Rightarrow> unit io" where
  "dir_remove d name = io_bind (c_name d name) sys_unlink"

definition ignore_missing :: "unit io \<Rightarrow> unit io" where
  "ignore_missing m = io_bind (io_catch m) (\<lambda>r.
    case r of
      Inr _ \<Rightarrow> io_return ()
    | Inl (kind, text) \<Rightarrow> if kind = IoNotFound then io_return () else io_throw (kind, text))"

definition dir_write_temp :: "dir_handle \<Rightarrow> rstr \<Rightarrow> rstr \<Rightarrow> (nat \<times> nat) option \<Rightarrow> unit io" where
  "dir_write_temp d tmp contents owner =
    io_bind (io_bind (c_name d tmp) (\<lambda>p. sys_create p PRIVATE_FILE_MODE)) (\<lambda>fd.
    io_bind (io_catch (fill_file fd (utf8 contents) owner)) (\<lambda>written.
      case written of
        Inl e \<Rightarrow> io_then (io_ignore (dir_remove d tmp)) (io_throw e)
      | Inr _ \<Rightarrow> io_return ()))"

definition dir_link :: "dir_handle \<Rightarrow> rstr \<Rightarrow> rstr \<Rightarrow> unit io" where
  "dir_link d from to = io_bind (c_name d from) (\<lambda>p. io_bind (c_name d to) (sys_link p))"

definition dir_rename :: "dir_handle \<Rightarrow> rstr \<Rightarrow> rstr \<Rightarrow> unit io" where
  "dir_rename d from to = io_bind (c_name d from) (\<lambda>p. io_bind (c_name d to) (sys_rename p))"

definition dir_create_new_private :: "dir_handle \<Rightarrow> rstr \<Rightarrow> rstr \<Rightarrow> (nat \<times> nat) option \<Rightarrow> unit io" where
  "dir_create_new_private d name contents owner =
    io_bind (temp_name name) (\<lambda>tmp.
    io_then (ignore_missing (dir_remove d tmp)) (
    io_then (dir_write_temp d tmp contents owner) (
    io_bind (io_catch (dir_link d tmp name)) (\<lambda>linked.
    io_then (io_ignore (dir_remove d tmp)) (io_reject linked)))))"

definition dir_write_private :: "dir_handle \<Rightarrow> rstr \<Rightarrow> rstr \<Rightarrow> (nat \<times> nat) option \<Rightarrow> unit io" where
  "dir_write_private d name contents owner =
    io_bind (temp_name name) (\<lambda>tmp.
    io_then (ignore_missing (dir_remove d tmp)) (
    io_then (dir_write_temp d tmp contents owner) (
    io_bind (io_catch (dir_rename d tmp name)) (\<lambda>renamed.
    case renamed of
      Inl e \<Rightarrow> io_then (io_ignore (dir_remove d tmp)) (io_throw e)
    | Inr _ \<Rightarrow> io_return ()))))"

section \<open>Locks\<close>

text \<open>True when the lock was taken; a lock is on the file's own name and nothing is ever renamed there.\<close>

definition dir_try_lock :: "dir_handle \<Rightarrow> rstr \<Rightarrow> (nat \<times> nat) option \<Rightarrow> bool io" where
  "dir_try_lock d name owner =
    io_bind (c_name d name) (\<lambda>p.
    io_bind (io_catch (sys_create p PRIVATE_FILE_MODE)) (\<lambda>created.
    io_then (case created of
        Inr fd \<Rightarrow> give_fd_to fd owner
      | Inl (kind, text) \<Rightarrow>
          if kind = IoAlreadyExists then io_bind (sys_open p) (\<lambda>_. io_return ()) else io_throw (kind, text))
      (sys_try_lock p)))"

definition lock_file :: "path \<Rightarrow> unit io" where
  "lock_file p =
    io_bind (io_catch (create_new_with p PRIVATE_FILE_MODE)) (\<lambda>created.
      case created of
        Inr _ \<Rightarrow> io_return ()
      | Inl (kind, text) \<Rightarrow>
          if kind = IoAlreadyExists then io_bind (sys_open p) (\<lambda>_. io_return ()) else io_throw (kind, text))"

definition lock_acquire :: "path \<Rightarrow> unit io" where
  "lock_acquire p = io_then (lock_file p) (sys_lock p)"

definition lock_try_acquire :: "path \<Rightarrow> bool io" where
  "lock_try_acquire p = io_then (lock_file p) (sys_try_lock p)"

end
