(* ===== verification/FsLogic.thy ===== *)
theory FsLogic
  imports FsUtil
begin

text \<open>
  A small program logic for the input and output of \<open>FsUtil\<close>: \<open>wp env m Q R w\<close> says that running \<open>m\<close>
  from the world \<open>w\<close> ends in \<open>Q\<close> with a value or in \<open>R\<close> with an error. Its equations run a program
  step by step; the rules below them speak of what is seen at the names of the file system.
\<close>

named_theorems wp_simps "running input and output one step"

definition wp :: "sys_env \<Rightarrow> 'a io \<Rightarrow> ('a \<Rightarrow> world \<Rightarrow> bool) \<Rightarrow> (io_err \<Rightarrow> world \<Rightarrow> bool) \<Rightarrow> world \<Rightarrow> bool" where
  "wp env m Q R w = (case m env w of (Inr x, w') \<Rightarrow> Q x w' | (Inl e, w') \<Rightarrow> R e w')"

lemma wp_return [wp_simps]: "wp env (io_return x) Q R = Q x"
  by (simp add: fun_eq_iff wp_def io_return_def)

lemma wp_throw [wp_simps]: "wp env (io_throw e) Q R = R e"
  by (simp add: fun_eq_iff wp_def io_throw_def)

lemma wp_asks [wp_simps]: "wp env (io_asks g) Q R = Q (g env)"
  by (simp add: fun_eq_iff wp_def io_asks_def)

lemma wp_bind [wp_simps]: "wp env (io_bind m f) Q R = wp env m (\<lambda>x. wp env (f x) Q R) R"
  by (simp add: fun_eq_iff wp_def io_bind_def split: prod.splits sum.splits)

lemma wp_then [wp_simps]: "wp env (io_then m k) Q R = wp env m (\<lambda>_. wp env k Q R) R"
  by (simp add: io_then_def wp_simps)

lemma wp_catch [wp_simps]: "wp env (io_catch m) Q R = wp env m (\<lambda>x. Q (Inr x)) (\<lambda>e. Q (Inl e))"
  by (simp add: fun_eq_iff wp_def io_catch_def split: prod.splits sum.splits)

lemma wp_ignore [wp_simps]: "wp env (io_ignore m) Q R = wp env m (\<lambda>_. Q ()) (\<lambda>_. Q ())"
  by (simp add: fun_eq_iff wp_def io_ignore_def io_bind_def io_catch_def io_return_def split: prod.splits sum.splits)

lemma wp_reject [wp_simps]: "wp env (io_reject r) Q R = (case r of Inl e \<Rightarrow> R e | Inr x \<Rightarrow> Q x)"
  by (cases r) (simp_all add: io_reject_def wp_simps)

lemma wp_if [wp_simps]: "wp env (if c then m else n) Q R = (if c then wp env m Q R else wp env n Q R)"
  by simp

lemma wp_call:
  "wp env (sys_call effect) Q R w =
    (case se_fault env (w_steps w) of
       Some e \<Rightarrow> R e (advance (w_fs w) w)
     | None \<Rightarrow> (case effect env (w_fs w) of Inl e \<Rightarrow> R e (advance (w_fs w) w) | Inr (x, s) \<Rightarrow> Q x (advance s w)))"
  by (simp add: wp_def sys_call_def split: option.splits sum.splits prod.splits)

lemma wp_mono:
  "wp env m Q R w \<Longrightarrow> (\<And>x w'. Q x w' \<Longrightarrow> Q' x w') \<Longrightarrow> (\<And>e w'. R e w' \<Longrightarrow> R' e w') \<Longrightarrow> wp env m Q' R' w"
  by (auto simp: wp_def split: prod.splits sum.splits)

lemma wp_conj: "wp env m Q R w \<Longrightarrow> wp env m Q' R' w \<Longrightarrow> wp env m (\<lambda>x w'. Q x w' \<and> Q' x w') (\<lambda>e w'. R e w' \<and> R' e w') w"
  by (auto simp: wp_def split: prod.splits sum.splits)

lemma advance_simps [simp]:
  "w_fs (advance s w) = s" "w_trace (advance s w) = s # w_trace w" "w_steps (advance s w) = Suc (w_steps w)"
  by (simp_all add: advance_def)

section \<open>What is seen at a name\<close>

definition seen :: "fs \<Rightarrow> entry \<Rightarrow> inode + entry" where
  "seen s e = (case e of FileAt i \<Rightarrow> Inl (fs_files s i) | _ \<Rightarrow> Inr e)"

definition look :: "fs \<Rightarrow> path \<Rightarrow> (inode + entry) option" where
  "look s p = map_option (seen s) (fs_names s p)"

lemma seen_simps [simp]:
  "seen s (FileAt i) = Inl (fs_files s i)" "seen s (DirAt own) = Inr (DirAt own)" "seen s (LinkAt own) = Inr (LinkAt own)"
  by (simp_all add: seen_def)

text \<open>Numbers of files in use are below the next one; a file may be reached by one name only.\<close>

definition fs_ok :: "fs \<Rightarrow> bool" where
  "fs_ok s \<longleftrightarrow> (\<forall>p i. fs_names s p = Some (FileAt i) \<longrightarrow> i < fs_next s)"

definition sole :: "fs \<Rightarrow> path \<Rightarrow> nat \<Rightarrow> bool" where
  "sole s p i \<longleftrightarrow> fs_names s p = Some (FileAt i) \<and> (\<forall>q. fs_names s q = Some (FileAt i) \<longrightarrow> q = p)"

lemma fs_simps [simp]:
  "fs_names (set_name p e s) = (fs_names s)(p := e)" "fs_files (set_name p e s) = fs_files s"
  "fs_next (set_name p e s) = fs_next s"
  "fs_names (set_file i f s) = fs_names s" "fs_files (set_file i f s) = (fs_files s)(i := f (fs_files s i))"
  "fs_next (set_file i f s) = fs_next s"
  "fs_names (new_file p n s) = (fs_names s)(p \<mapsto> FileAt (fs_next s))"
  "fs_files (new_file p n s) = (fs_files s)(fs_next s := n)" "fs_next (new_file p n s) = fs_next s + 1"
  by (simp_all add: set_name_def set_file_def new_file_def)

lemma fs_ok_steps [simp]:
  "fs_ok s \<Longrightarrow> fs_ok (set_name p None s)"
  "fs_ok s \<Longrightarrow> fs_ok (set_file i f s)"
  "fs_ok s \<Longrightarrow> fs_ok (new_file p n s)"
  "fs_ok s \<Longrightarrow> fs_names s q = Some e \<Longrightarrow> fs_ok (set_name p (Some e) s)"
  "fs_ok s \<Longrightarrow> fs_names s q = Some e \<Longrightarrow> fs_ok (set_name p (Some e) (set_name r None s))"
  by (auto simp: fs_ok_def less_Suc_eq)

lemma sole_new: "fs_ok s \<Longrightarrow> sole (new_file p n s) p (fs_next s)"
  by (auto simp: sole_def fs_ok_def)

lemma sole_file [simp]: "sole (set_file j f s) p i = sole s p i"
  by (simp add: sole_def)

lemma look_name: "look (set_name p e s) q = (if q = p then map_option (seen s) e else look s q)"
proof -
  have "seen (set_name p e s) = seen s" by (simp add: seen_def fun_eq_iff split: entry.split)
  then show ?thesis by (simp add: look_def)
qed

lemma look_file:
  assumes "sole s p i"
  shows "look (set_file i f s) q = (if q = p then Some (Inl (f (fs_files s i))) else look s q)"
proof (cases "q = p")
  case False
  then have "fs_names s q \<noteq> Some (FileAt i)" using assms unfolding sole_def by blast
  then have "\<And>e. fs_names s q = Some e \<Longrightarrow> seen (set_file i f s) e = seen s e"
    by (simp add: seen_def split: entry.split)
  with False show ?thesis by (cases "fs_names s q") (simp_all add: look_def)
qed (use assms in \<open>simp add: look_def sole_def\<close>)

lemma look_new:
  assumes "fs_ok s"
  shows "look (new_file p n s) q = (if q = p then Some (Inl n) else look s q)"
proof (cases "q = p")
  case False
  have "\<And>e. fs_names s q = Some e \<Longrightarrow> seen (new_file p n s) e = seen s e"
    using assms unfolding fs_ok_def by (fastforce simp: seen_def split: entry.split)
  with False show ?thesis by (cases "fs_names s q") (simp_all add: look_def)
qed (simp add: look_def)

lemmas look_steps = look_name look_file look_new

lemma look_None [simp]: "look s p = None \<longleftrightarrow> fs_names s p = None"
  by (simp add: look_def)

lemma look_entry: "fs_names s p = Some e \<Longrightarrow> look s p = Some (seen s e)"
  by (simp add: look_def)

section \<open>A scratch name\<close>

text \<open>
  Between the start of a write and its rename the file system differs from what it was, \<open>s\<^sub>0\<close>, at the
  scratch name only, and what this run puts under that name is a new file that is never open to
  more people than asked.
\<close>

definition scratched :: "fs \<Rightarrow> path \<Rightarrow> u32 \<Rightarrow> fs \<Rightarrow> bool" where
  "scratched s0 tmp mode s \<longleftrightarrow>
    fs_ok s0 \<and> fs_ok s \<and> fs_next s0 \<le> fs_next s
    \<and> (\<forall>q. q \<noteq> tmp \<longrightarrow> fs_names s q = fs_names s0 q) \<and> (\<forall>i < fs_next s0. fs_files s i = fs_files s0 i)
    \<and> (fs_names s tmp = fs_names s0 tmp \<or> fs_names s tmp = None
        \<or> (\<exists>i \<ge> fs_next s0. fs_names s tmp = Some (FileAt i) \<and> f_mode (fs_files s i) AND NOT mode = 0))"

lemma look_same:
  assumes "fs_ok s0" "fs_names s q = fs_names s0 q" "\<forall>i < fs_next s0. fs_files s i = fs_files s0 i"
  shows "look s q = look s0 q"
proof (cases "fs_names s0 q")
  case (Some e)
  then show ?thesis using assms by (cases e) (auto simp: look_def fs_ok_def)
qed (use assms in \<open>simp add: look_def\<close>)

lemma scratched_look: "scratched s0 tmp mode s \<Longrightarrow> q \<noteq> tmp \<Longrightarrow> look s q = look s0 q"
  by (rule look_same) (auto simp: scratched_def)

definition traced :: "(fs \<Rightarrow> bool) \<Rightarrow> world \<Rightarrow> bool" where
  "traced I w \<longleftrightarrow> (\<forall>s \<in> set (w_trace w). I s)"

lemma traced_advance [simp]: "traced I (advance s w) \<longleftrightarrow> I s \<and> traced I w"
  by (simp add: traced_def)

lemma scratched_refl: "fs_ok s \<Longrightarrow> scratched s tmp mode s"
  by (simp add: scratched_def)

lemma scratched_unlink: "scratched s0 tmp mode s \<Longrightarrow> scratched s0 tmp mode (set_name tmp None s)"
  by (auto simp: scratched_def)

lemma scratched_create:
  "scratched s0 tmp mode s \<Longrightarrow> f_mode n AND NOT mode = 0 \<Longrightarrow> scratched s0 tmp mode (new_file tmp n s)"
  by (auto simp: scratched_def)

lemma scratched_file:
  assumes "scratched s0 tmp mode s" "sole s tmp i" "fs_next s0 \<le> i" "f_mode (f (fs_files s i)) AND NOT mode = 0"
  shows "scratched s0 tmp mode (set_file i f s)"
proof -
  have "fs_names s tmp = Some (FileAt i)" using assms(2) by (simp add: sole_def)
  with assms(1,3,4) show ?thesis unfolding scratched_def by simp
qed

lemma scratched_next: "scratched s0 tmp mode s \<Longrightarrow> fs_next s0 \<le> fs_next s"
  by (simp add: scratched_def)

text \<open>
  A state that differs from \<open>s\<^sub>0\<close> at the scratch name only is harmless, and so is every state a step
  on the scratch name leads to. The rules carry an arbitrary property \<open>I\<close> of all states passed
  through that the harmless states have.
\<close>

definition harmless :: "(fs \<Rightarrow> bool) \<Rightarrow> fs \<Rightarrow> path \<Rightarrow> u32 \<Rightarrow> world \<Rightarrow> bool" where
  "harmless I s0 tmp mode w \<longleftrightarrow>
    scratched s0 tmp mode (w_fs w) \<and> traced I w \<and> (\<forall>s. scratched s0 tmp mode s \<longrightarrow> I s)"

lemma harmless_advance:
  "harmless I s0 tmp mode w \<Longrightarrow> scratched s0 tmp mode s \<Longrightarrow> harmless I s0 tmp mode (advance s w)"
  by (simp add: harmless_def)

lemma harmless_stay: "harmless I s0 tmp mode w \<Longrightarrow> harmless I s0 tmp mode (advance (w_fs w) w)"
  by (simp add: harmless_def)

lemma harmless_scratched: "harmless I s0 tmp mode w \<Longrightarrow> scratched s0 tmp mode (w_fs w)"
  by (simp add: harmless_def)

lemma harmless_ok: "harmless I s0 tmp mode w \<Longrightarrow> fs_ok (w_fs w)"
  by (simp add: harmless_def scratched_def)

lemma mask_clear: "((m :: u32) AND NOT u) AND NOT m = 0" "(m :: u32) AND NOT m = 0"
  by (simp_all add: bit_eq_iff bit_simps)

lemma wp_unlink_scratch:
  assumes "harmless I s0 tmp mode w"
  shows "wp env (sys_unlink tmp)
    (\<lambda>_ w'. harmless I s0 tmp mode w' \<and> fs_names (w_fs w') tmp = None)
    (\<lambda>_ w'. harmless I s0 tmp mode w') w"
  using assms
  by (auto simp: sys_unlink_def wp_call scratched_unlink harmless_scratched
      intro!: harmless_advance split: option.split entry.split)

definition fresh_file :: "u32 \<Rightarrow> nat \<times> nat \<Rightarrow> inode \<Rightarrow> bool" where
  "fresh_file mode own f \<longleftrightarrow> f_bytes f = [] \<and> f_mode f = mode \<and> f_owner f = own"

lemma wp_create_scratch:
  assumes "harmless I s0 tmp mode w"
  shows "wp env (sys_create tmp mode)
    (\<lambda>i w'. harmless I s0 tmp mode w' \<and> sole (w_fs w') tmp i \<and> fs_next s0 \<le> i
      \<and> fresh_file (mode AND NOT (se_umask env)) (se_self env) (fs_files (w_fs w') i))
    (\<lambda>_ w'. harmless I s0 tmp mode w') w"
proof -
  have "scratched s0 tmp mode (new_file tmp \<lparr>f_bytes = [], f_mode = mode AND NOT (se_umask env), f_owner = se_self env, f_synced = False\<rparr> (w_fs w))"
    using assms by (intro scratched_create harmless_scratched) (simp_all add: mask_clear)
  with assms show ?thesis
    by (auto simp: sys_create_def wp_call fresh_file_def intro: harmless_advance harmless_stay sole_new harmless_ok
        scratched_next harmless_scratched split: option.split)
qed

text \<open>A step on the file that is open, whose only name is the scratch name.\<close>

definition writing :: "(fs \<Rightarrow> bool) \<Rightarrow> fs \<Rightarrow> path \<Rightarrow> u32 \<Rightarrow> nat \<Rightarrow> (inode \<Rightarrow> bool) \<Rightarrow> world \<Rightarrow> bool" where
  "writing I s0 tmp mode i P w \<longleftrightarrow> 
    harmless I s0 tmp mode w \<and> sole (w_fs w) tmp i \<and> fs_next s0 \<le> i \<and> P (fs_files (w_fs w) i)"

lemma writing_harmless: "writing I s0 tmp mode i P w \<Longrightarrow> harmless I s0 tmp mode w"
  by (simp add: writing_def)

lemma writing_step:
  assumes "writing I s0 tmp mode i P w" "\<And>f. P f \<Longrightarrow> P' (g f) \<and> f_mode (g f) AND NOT mode = 0"
  shows "writing I s0 tmp mode i P' (advance (set_file i g (w_fs w)) w)"
  using assms by (auto simp: writing_def intro: harmless_advance scratched_file harmless_scratched)

lemma wp_file_step:
  assumes "writing I s0 tmp mode i P w" "\<And>f. P f \<Longrightarrow> P' (g f) \<and> f_mode (g f) AND NOT mode = 0"
  shows "wp env (sys_call (\<lambda>_ s. Inr ((), set_file i g s)))
    (\<lambda>_ w'. writing I s0 tmp mode i P' w') (\<lambda>_ w'. writing I s0 tmp mode i P w') w"
  using assms(1) writing_step [where P = P and P' = P' and g = g, OF assms]
  by (auto simp: wp_call writing_def harmless_stay split: option.split)

lemma wp_create_new:
  assumes "harmless I s0 tmp mode w"
  shows "wp env (create_new_with tmp mode)
    (\<lambda>i w'. writing I s0 tmp mode i (fresh_file mode (se_self env)) w')
    (\<lambda>_ w'. harmless I s0 tmp mode w') w"
  unfolding create_new_with_def wp_simps
proof (rule wp_mono [OF wp_create_scratch [OF assms]])
  fix i w'
  assume "harmless I s0 tmp mode w' \<and> sole (w_fs w') tmp i \<and> fs_next s0 \<le> i
    \<and> fresh_file (mode AND NOT (se_umask env)) (se_self env) (fs_files (w_fs w') i)"
  then have "writing I s0 tmp mode i (fresh_file (mode AND NOT (se_umask env)) (se_self env)) w'"
    by (simp add: writing_def)
  then show "wp env (sys_fchmod i mode)
      (\<lambda>x. wp env (or_remove i tmp (Inr x)) (\<lambda>i w'. writing I s0 tmp mode i (fresh_file mode (se_self env)) w') (\<lambda>_ w'. harmless I s0 tmp mode w'))
      (\<lambda>e. wp env (or_remove i tmp (Inl e)) (\<lambda>i w'. writing I s0 tmp mode i (fresh_file mode (se_self env)) w') (\<lambda>_ w'. harmless I s0 tmp mode w')) w'"
    unfolding sys_fchmod_def
    by (rule wp_mono [OF wp_file_step [where P' = "fresh_file mode (se_self env)"]])
      (auto simp: fresh_file_def mask_clear or_remove_def wp_simps
        intro: wp_mono [OF wp_unlink_scratch] dest: writing_harmless)
qed auto

lemma wp_replace_with:
  assumes "harmless I s0 tmp mode w"
  shows "wp env (replace_with tmp mode)
    (\<lambda>i w'. writing I s0 tmp mode i (fresh_file mode (se_self env)) w')
    (\<lambda>_ w'. harmless I s0 tmp mode w') w"
  unfolding replace_with_def wp_simps
  by (rule wp_mono [OF wp_unlink_scratch [OF assms]])
    (auto simp: wp_simps intro: wp_create_new split: prod.split)

definition given :: "(nat \<times> nat) option \<Rightarrow> sys_env \<Rightarrow> nat \<times> nat" where
  "given owner env = (case owner of Some own \<Rightarrow> own | None \<Rightarrow> se_self env)"

definition finished :: "u8 list \<Rightarrow> u32 \<Rightarrow> nat \<times> nat \<Rightarrow> inode" where
  "finished contents mode own = \<lparr>f_bytes = contents, f_mode = mode, f_owner = own, f_synced = True\<rparr>"

lemma wp_write_step:
  assumes "writing I s0 tmp mode i (\<lambda>f. f_mode f = m \<and> f_owner f = own) w" "m AND NOT mode = 0"
  shows "wp env (sys_write i contents)
    (\<lambda>_ w'. writing I s0 tmp mode i (\<lambda>f. f_bytes f = contents \<and> f_mode f = m \<and> f_owner f = own) w')
    (\<lambda>_ w'. harmless I s0 tmp mode w') w"
proof -
  note step = writing_step [OF assms(1)]
  have "writing I s0 tmp mode i (\<lambda>f. f_bytes f = b \<and> f_mode f = m \<and> f_owner f = own)
      (advance (set_file i (fill_with b) (w_fs w)) w)" for b
    by (rule step) (auto simp: fill_with_def assms(2))
  then show ?thesis
    by (auto simp: wp_def sys_write_def writing_def split: option.split)
qed

lemma wp_give_fd_to:
  assumes "writing I s0 tmp mode i (\<lambda>f. f_bytes f = b \<and> f_mode f = m \<and> f_owner f = se_self env) w" "m AND NOT mode = 0"
  shows "wp env (give_fd_to i owner)
    (\<lambda>_ w'. writing I s0 tmp mode i (\<lambda>f. f_bytes f = b \<and> f_mode f = m \<and> f_owner f = given owner env) w')
    (\<lambda>_ w'. harmless I s0 tmp mode w') w"
proof (cases owner)
  case None
  then show ?thesis using assms by (simp add: give_fd_to_def given_def wp_simps)
next
  case (Some own)
  show ?thesis
    unfolding give_fd_to_def Some option.case sys_fchown_def given_def
    by (rule wp_mono [OF wp_file_step [OF assms(1)]]) (auto simp: assms(2) writing_def)
qed

lemma wp_fill_file:
  assumes "writing I s0 tmp mode i (\<lambda>f. f_mode f = m \<and> f_owner f = se_self env) w" "m AND NOT mode = 0"
  shows "wp env (fill_file i contents owner)
    (\<lambda>_ w'. writing I s0 tmp mode i (\<lambda>f. f = finished contents m (given owner env)) w')
    (\<lambda>_ w'. harmless I s0 tmp mode w') w"
  unfolding fill_file_def wp_simps
proof (rule wp_mono [OF wp_write_step [OF assms]])
  fix w'
  assume "writing I s0 tmp mode i (\<lambda>f. f_bytes f = contents \<and> f_mode f = m \<and> f_owner f = se_self env) w'"
  from wp_give_fd_to [OF this assms(2)]
  show "wp env (give_fd_to i owner)
    (\<lambda>_. wp env (sys_fsync i) (\<lambda>_ w'. writing I s0 tmp mode i (\<lambda>f. f = finished contents m (given owner env)) w')
      (\<lambda>_ w'. harmless I s0 tmp mode w')) (\<lambda>_ w'. harmless I s0 tmp mode w') w'"
    unfolding sys_fsync_def
  proof (rule wp_mono)
    fix w''
    assume "writing I s0 tmp mode i (\<lambda>f. f_bytes f = contents \<and> f_mode f = m \<and> f_owner f = given owner env) w''"
    then show "wp env (sys_call (\<lambda>_ s. Inr ((), set_file i (\<lambda>f. f\<lparr>f_synced := True\<rparr>) s)))
      (\<lambda>_ w'. writing I s0 tmp mode i (\<lambda>f. f = finished contents m (given owner env)) w')
      (\<lambda>_ w'. harmless I s0 tmp mode w') w''"
      by (rule wp_mono [OF wp_file_step [where P' = "\<lambda>f. f = finished contents m (given owner env)"]])
        (auto simp: finished_def assms(2) writing_def)
  qed
qed auto

end
