(* ===== verification/FsFacts.thy ===== *)
theory FsFacts
  imports FsLogic
begin

text \<open>
  What the writes of \<open>FsUtil\<close> promise, whatever fails and wherever a crash stops them: a name holds
  what it held or the whole new contents, nothing else changes but a scratch name that is never
  open to more people than asked for, and what is under the name afterwards follows the result.
\<close>

section \<open>Names of siblings\<close>

text \<open>A name of one component is found again behind the directory it was put into.\<close>

definition plain_name :: "rstr \<Rightarrow> bool" where
  "plain_name m \<longleftrightarrow> m \<noteq> [] \<and> 47 \<notin> set m \<and> m \<noteq> [46] \<and> m \<noteq> [46, 46]"

lemma path_trim_plain:
  assumes "plain_name m" "base = [] \<or> last base = 47"
  shows "path_trim (base @ m) = base @ m"
proof -
  obtain m' c where m: "m = m' @ [c]" using assms(1) by (cases m rule: rev_cases) (auto simp: plain_name_def)
  have "47 \<notin> set m'" using assms(1) m by (simp add: plain_name_def)
  then have "m' \<noteq> [] \<Longrightarrow> last m' \<noteq> 47" by (metis last_in_set)
  then have "c \<noteq> 47" "c = 46 \<Longrightarrow> m' \<noteq> [] \<and> last m' \<noteq> 47"
    using assms(1) m by (auto simp: plain_name_def)
  then show ?thesis by (subst path_trim.simps) (auto simp: m append_eq_Cons_conv simp flip: append_assoc)
qed

lemma path_file_name_plain:
  assumes "plain_name m" "base = [] \<or> last base = 47"
  shows "path_file_name (base @ m) = Some m"
proof -
  have "takeWhile (\<lambda>c. c \<noteq> 47) (rev m @ rev base) = rev m"
    using assms by (cases "rev base") (auto simp: takeWhile_append plain_name_def last_rev hd_rev [symmetric])
  then show ?thesis
    using assms by (simp add: path_file_name_def path_cut_def path_trim_plain) (simp add: plain_name_def)
qed

lemma path_file_name_join: "plain_name m \<Longrightarrow> path_file_name (path_join d m) = Some m"
proof -
  assume m: "plain_name m"
  then have "\<not> path_is_absolute m" by (cases m) (auto simp: plain_name_def path_is_absolute_def)
  then show ?thesis
    using m path_file_name_plain [OF m, of d] path_file_name_plain [OF m, of "d @ [47]"] by (simp add: path_join_def)
qed

lemma path_file_name_is_plain: "path_file_name p = Some n \<Longrightarrow> plain_name n"
  by (auto simp: path_file_name_def plain_name_def Let_def path_cut_def dest: set_takeWhileD split: if_splits)

lemma plain_name_append: "plain_name n \<Longrightarrow> 47 \<notin> set suffix \<Longrightarrow> 3 \<le> length suffix \<Longrightarrow> plain_name (n @ suffix)"
  by (auto simp: plain_name_def append_eq_Cons_conv)

lemma sibling_name:
  assumes "path_file_name p = Some n" "47 \<notin> set suffix" "3 \<le> length suffix"
  shows "path_file_name (path_with_file_name p (n @ suffix)) = Some (n @ suffix)"
  using assms plain_name_append [OF path_file_name_is_plain]
  by (simp add: path_with_file_name_def path_file_name_join)

lemma sibling_differs:
  assumes "path_file_name p = Some n" "47 \<notin> set suffix" "3 \<le> length suffix"
  shows "path_with_file_name p (n @ suffix) \<noteq> p"
  using sibling_name [OF assms] assms(1,3) by auto

section \<open>Publishing by rename\<close>

definition published :: "fs \<Rightarrow> path \<Rightarrow> path \<Rightarrow> inode \<Rightarrow> fs \<Rightarrow> bool" where
  "published s0 p tmp new s \<longleftrightarrow>
    fs_ok s \<and> look s p = Some (Inl new) \<and> fs_names s tmp = None \<and> (\<forall>q. q \<noteq> p \<longrightarrow> q \<noteq> tmp \<longrightarrow> look s q = look s0 q)"

lemma published_rename:
  assumes "scratched s0 tmp mode s" "sole s tmp i" "fs_files s i = new" "p \<noteq> tmp"
  shows "published s0 p tmp new (set_name p (Some (FileAt i)) (set_name tmp None s))"
proof -
  have "fs_ok s" using assms(1) unfolding scratched_def by blast
  moreover have "fs_names s tmp = Some (FileAt i)" using assms(2) unfolding sole_def by blast
  ultimately have "fs_ok (set_name p (Some (FileAt i)) (set_name tmp None s))" by simp
  with assms(3,4) scratched_look [OF assms(1)] show ?thesis by (simp add: published_def look_name)
qed

lemma wp_rename_or_remove:
  assumes "writing I s0 tmp mode i (\<lambda>f. f = new) w" "p \<noteq> tmp" "\<And>s. published s0 p tmp new s \<Longrightarrow> I s"
  shows "wp env (rename_or_remove tmp p)
    (\<lambda>_ w'. published s0 p tmp new (w_fs w') \<and> traced I w') (\<lambda>_ w'. harmless I s0 tmp mode w') w"
proof -
  let ?s = "set_name p (Some (FileAt i)) (set_name tmp None (w_fs w))"
  have w: "harmless I s0 tmp mode w" "sole (w_fs w) tmp i" "fs_files (w_fs w) i = new"
    using assms(1) by (simp_all add: writing_def)
  then have tmp: "fs_names (w_fs w) tmp = Some (FileAt i)" "fs_names (w_fs w) p \<noteq> Some (FileAt i)"
    using assms(2) by (auto simp: sole_def)
  have pub: "published s0 p tmp new ?s"
    using w assms(2) by (intro published_rename harmless_scratched) auto
  with assms(3) w have "traced I (advance ?s w)" by (simp add: harmless_def)
  with pub tmp show ?thesis
    unfolding rename_or_remove_def wp_simps sys_rename_def wp_call
    by (auto simp: wp_simps intro!: wp_mono [OF wp_unlink_scratch] harmless_stay [OF w(1)] split: option.split entry.split)
qed

lemma wp_or_remove_Inl:
  assumes "harmless I s0 tmp mode w"
  shows "wp env (or_remove i tmp (Inl e)) Q (\<lambda>_ w'. harmless I s0 tmp mode w') w"
  using assms by (auto simp: or_remove_def wp_simps intro: wp_mono [OF wp_unlink_scratch])

lemma wp_drop_scratch:
  assumes "harmless I s0 tmp mode w"
  shows "wp env (io_then (io_ignore (sys_unlink tmp)) (io_throw e)) Q (\<lambda>_ w'. harmless I s0 tmp mode w') w"
  using assms by (auto simp: wp_simps intro: wp_mono [OF wp_unlink_scratch])

lemma fresh_mode: "writing I s0 tmp mode i (fresh_file m own) w \<Longrightarrow> writing I s0 tmp mode i (\<lambda>f. f_mode f = m \<and> f_owner f = own) w"
  by (simp add: writing_def fresh_file_def)

lemma wp_temp_sibling:
  assumes "path_file_name p = Some n"
  shows "wp env (temp_sibling p) Q R = Q (path_with_file_name p (n @ lit ''.tmp''))"
  using assms by (simp add: fun_eq_iff temp_sibling_def sibling_def wp_def io_return_def)

lemma temp_differs: "path_file_name p = Some n \<Longrightarrow> p \<noteq> path_with_file_name p (n @ lit ''.tmp'')"
  using sibling_differs [of p n "lit ''.tmp''"] by (auto simp: lit_def)

lemma wp_write_private_owned:
  assumes name: "path_file_name p = Some n" and tmp: "tmp = path_with_file_name p (n @ lit ''.tmp'')"
    and w: "harmless I s0 tmp PRIVATE_FILE_MODE w"
    and I: "\<And>s. published s0 p tmp (finished contents PRIVATE_FILE_MODE (given owner env)) s \<Longrightarrow> I s"
  shows "wp env (write_private_owned p contents owner)
    (\<lambda>_ w'. published s0 p tmp (finished contents PRIVATE_FILE_MODE (given owner env)) (w_fs w') \<and> traced I w')
    (\<lambda>_ w'. harmless I s0 tmp PRIVATE_FILE_MODE w') w"
  unfolding write_private_owned_def wp_simps wp_temp_sibling [OF name] tmp [symmetric] create_private_new_def
proof (rule wp_mono [OF wp_replace_with [OF w]])
  fix i w'
  assume "writing I s0 tmp PRIVATE_FILE_MODE i (fresh_file PRIVATE_FILE_MODE (se_self env)) w'"
  note wp_fill_file [OF fresh_mode [OF this] mask_clear(2)]
  then show "wp env (fill_file i contents owner)
     (\<lambda>x. wp env (or_remove i tmp (Inr x)) (\<lambda>_. wp env (rename_or_remove tmp p)
        (\<lambda>_ w'. published s0 p tmp (finished contents PRIVATE_FILE_MODE (given owner env)) (w_fs w') \<and> traced I w')
        (\<lambda>_ w'. harmless I s0 tmp PRIVATE_FILE_MODE w')) (\<lambda>_ w'. harmless I s0 tmp PRIVATE_FILE_MODE w'))
     (\<lambda>e. wp env (or_remove i tmp (Inl e)) (\<lambda>_. wp env (rename_or_remove tmp p)
        (\<lambda>_ w'. published s0 p tmp (finished contents PRIVATE_FILE_MODE (given owner env)) (w_fs w') \<and> traced I w')
        (\<lambda>_ w'. harmless I s0 tmp PRIVATE_FILE_MODE w')) (\<lambda>_ w'. harmless I s0 tmp PRIVATE_FILE_MODE w')) w'"
    by (rule wp_mono)
      (auto simp: or_remove_def [of _ _ "Inr _"] wp_simps temp_differs [OF name] tmp intro!: wp_rename_or_remove wp_or_remove_Inl I)
qed auto

lemma wp_write_system:
  assumes name: "path_file_name p = Some n" and tmp: "tmp = path_with_file_name p (n @ lit ''.tmp'')"
    and w: "harmless I s0 tmp SYSTEM_FILE_MODE w"
    and I: "\<And>s. published s0 p tmp (finished (utf8 contents) SYSTEM_FILE_MODE (se_self env)) s \<Longrightarrow> I s"
  shows "wp env (write_system p contents)
    (\<lambda>_ w'. published s0 p tmp (finished (utf8 contents) SYSTEM_FILE_MODE (se_self env)) (w_fs w') \<and> traced I w')
    (\<lambda>_ w'. harmless I s0 tmp SYSTEM_FILE_MODE w') w"
proof -
  have fill: "io_then (sys_write i b) (sys_fsync i) = fill_file i b None" for i b
    by (simp add: fill_file_def give_fd_to_def io_then_def io_bind_def io_return_def fun_eq_iff split: prod.split sum.split)
  show ?thesis
    unfolding write_system_def wp_simps wp_temp_sibling [OF name] tmp [symmetric] fill
  proof (rule wp_mono [OF wp_replace_with [OF w]])
    fix i w'
    assume "writing I s0 tmp SYSTEM_FILE_MODE i (fresh_file SYSTEM_FILE_MODE (se_self env)) w'"
    note wp_fill_file [where contents = "utf8 contents" and owner = None, OF fresh_mode [OF this] mask_clear(2), unfolded given_def option.case]
    then show "wp env (fill_file i (utf8 contents) None)
       (\<lambda>x. wp env (case Inr x of Inl e \<Rightarrow> io_then (io_ignore (sys_unlink tmp)) (io_throw e) | Inr _ \<Rightarrow> rename_or_remove tmp p)
          (\<lambda>_ w'. published s0 p tmp (finished (utf8 contents) SYSTEM_FILE_MODE (se_self env)) (w_fs w') \<and> traced I w')
          (\<lambda>_ w'. harmless I s0 tmp SYSTEM_FILE_MODE w'))
       (\<lambda>e. wp env (case Inl e of Inl e \<Rightarrow> io_then (io_ignore (sys_unlink tmp)) (io_throw e) | Inr _ \<Rightarrow> rename_or_remove tmp p)
          (\<lambda>_ w'. published s0 p tmp (finished (utf8 contents) SYSTEM_FILE_MODE (se_self env)) (w_fs w') \<and> traced I w')
          (\<lambda>_ w'. harmless I s0 tmp SYSTEM_FILE_MODE w')) w'"
      by (rule wp_mono)
        (auto simp: temp_differs [OF name] tmp intro!: wp_rename_or_remove wp_drop_scratch I)
  qed auto
qed

section \<open>Publishing by link\<close>

text \<open>The name is new, and the scratch name may still be a second one of the same file.\<close>

definition placed :: "fs \<Rightarrow> path \<Rightarrow> path \<Rightarrow> inode \<Rightarrow> fs \<Rightarrow> bool" where
  "placed s0 p tmp new s \<longleftrightarrow>
    fs_ok s \<and> fs_names s0 p = None \<and> look s p = Some (Inl new) \<and> (look s tmp = None \<or> look s tmp = Some (Inl new))
    \<and> (\<forall>q. q \<noteq> p \<longrightarrow> q \<noteq> tmp \<longrightarrow> look s q = look s0 q)"

lemma wp_unlink_placed:
  assumes "placed s0 p tmp new (w_fs w)" "traced I w" "p \<noteq> tmp" "\<And>s. placed s0 p tmp new s \<Longrightarrow> I s"
  shows "wp env (sys_unlink tmp) (\<lambda>_ w'. placed s0 p tmp new (w_fs w') \<and> traced I w')
    (\<lambda>_ w'. placed s0 p tmp new (w_fs w') \<and> traced I w') w"
proof -
  have "placed s0 p tmp new (set_name tmp None (w_fs w))"
    using assms(1,3) by (auto simp: placed_def look_steps)
  then show ?thesis
    using assms by (auto simp: sys_unlink_def wp_call split: option.split entry.split)
qed

lemma wp_link_scratch:
  assumes "writing I s0 tmp mode i (\<lambda>f. f = new) w" "p \<noteq> tmp" "\<And>s. placed s0 p tmp new s \<Longrightarrow> I s"
  shows "wp env (sys_link tmp p)
    (\<lambda>_ w'. placed s0 p tmp new (w_fs w') \<and> traced I w')
    (\<lambda>_ w'. writing I s0 tmp mode i (\<lambda>f. f = new) w') w"
proof -
  let ?s = "set_name p (Some (FileAt i)) (w_fs w)"
  have w: "harmless I s0 tmp mode w" "fs_names (w_fs w) tmp = Some (FileAt i)" "fs_files (w_fs w) i = new"
    using assms(1) by (simp_all add: writing_def sole_def)
  have "placed s0 p tmp new ?s" if "fs_names (w_fs w) p = None"
  proof -
    from harmless_scratched [OF w(1)] assms(2) have old: "\<forall>q. q \<noteq> tmp \<longrightarrow> look (w_fs w) q = look s0 q"
      by (simp add: scratched_look)
    with that assms(2) have "fs_names s0 p = None" by (metis look_None)
    with old w assms(2) harmless_ok [OF w(1)] show ?thesis
      by (auto simp: placed_def look_name look_entry)
  qed
  with w assms show ?thesis
    by (auto simp: sys_link_def wp_call writing_def intro: harmless_stay dest: harmless_def [THEN iffD1] split: option.split)
qed

lemma wp_link_and_drop:
  assumes "writing I s0 tmp mode i (\<lambda>f. f = new) w" "p \<noteq> tmp" "\<And>s. placed s0 p tmp new s \<Longrightarrow> I s"
  shows "wp env (io_bind (io_catch (sys_link tmp p)) (\<lambda>linked. io_then (io_ignore (sys_unlink tmp)) (io_reject linked)))
    (\<lambda>_ w'. placed s0 p tmp new (w_fs w') \<and> traced I w') (\<lambda>_ w'. harmless I s0 tmp mode w') w"
  unfolding wp_simps
  by (rule wp_mono [OF wp_link_scratch [OF assms]])
    (auto intro: wp_mono [OF wp_unlink_placed] wp_mono [OF wp_unlink_scratch] dest: writing_harmless simp: assms(2,3))

definition create_sibling :: "sys_env \<Rightarrow> rstr" where
  "create_sibling env = lit ''.'' @ dec_nat (se_pid env) @ lit ''.tmp''"

lemma create_sibling_plain: "47 \<notin> set (create_sibling env)" "92 \<notin> set (create_sibling env)" "0 \<notin> set (create_sibling env)"
  "3 \<le> length (create_sibling env)"
  by (auto simp: create_sibling_def lit_def is_digit_def dest: dec_nat_digit)

lemma wp_create_new_private_owned:
  assumes name: "path_file_name p = Some n" and tmp: "tmp = path_with_file_name p (n @ create_sibling env)"
    and w: "harmless I s0 tmp PRIVATE_FILE_MODE w"
    and I: "\<And>s. placed s0 p tmp (finished (utf8 contents) PRIVATE_FILE_MODE (given owner env)) s \<Longrightarrow> I s"
  shows "wp env (create_new_private_owned p contents owner)
    (\<lambda>_ w'. placed s0 p tmp (finished (utf8 contents) PRIVATE_FILE_MODE (given owner env)) (w_fs w') \<and> traced I w')
    (\<lambda>_ w'. harmless I s0 tmp PRIVATE_FILE_MODE w') w"
proof -
  let ?Q = "\<lambda>_ w'. placed s0 p tmp (finished (utf8 contents) PRIVATE_FILE_MODE (given owner env)) (w_fs w') \<and> traced I w'"
  let ?R = "\<lambda>_ w'. harmless I s0 tmp PRIVATE_FILE_MODE w'"
  have differs: "p \<noteq> tmp" using sibling_differs [OF name] create_sibling_plain [of env] tmp by metis
  have start: "wp env (unique_temp_sibling p) Q R = Q tmp" for Q R
    using name by (simp add: fun_eq_iff unique_temp_sibling_def wp_simps sibling_def tmp create_sibling_def wp_def io_return_def)
  show ?thesis
    unfolding create_new_private_owned_def wp_simps start
  proof (rule wp_mono [OF wp_create_new [OF w]])
    fix i w'
    assume "writing I s0 tmp PRIVATE_FILE_MODE i (fresh_file PRIVATE_FILE_MODE (se_self env)) w'"
    note wp_fill_file [where contents = "utf8 contents" and owner = owner, OF fresh_mode [OF this] mask_clear(2)]
    then show "wp env (fill_file i (utf8 contents) owner)
       (\<lambda>x. wp env (case Inr x of Inl e \<Rightarrow> io_then (io_ignore (sys_unlink tmp)) (io_throw e)
          | Inr _ \<Rightarrow> io_bind (io_catch (sys_link tmp p)) (\<lambda>linked. io_then (io_ignore (sys_unlink tmp)) (io_reject linked))) ?Q ?R)
       (\<lambda>e. wp env (case Inl e of Inl e \<Rightarrow> io_then (io_ignore (sys_unlink tmp)) (io_throw e)
          | Inr _ \<Rightarrow> io_bind (io_catch (sys_link tmp p)) (\<lambda>linked. io_then (io_ignore (sys_unlink tmp)) (io_reject linked))) ?Q ?R) w'"
      by (rule wp_mono)
        (auto intro!: wp_link_and_drop wp_drop_scratch simp: differs I)
  qed auto
qed

section \<open>Writes inside an open directory\<close>

definition component :: "rstr \<Rightarrow> bool" where
  "component m \<longleftrightarrow> m \<noteq> [] \<and> 47 \<notin> set m \<and> 92 \<notin> set m \<and> 0 \<notin> set m \<and> m \<noteq> [46] \<and> m \<noteq> [46, 46]"

lemma component_plain: "component m \<Longrightarrow> plain_name m"
  by (simp add: component_def plain_name_def)

lemma component_temp: "component m \<Longrightarrow> component (m @ create_sibling env)"
  using create_sibling_plain [of env] by (auto simp: component_def append_eq_Cons_conv)

lemma path_join_inject: "component a \<Longrightarrow> component b \<Longrightarrow> path_join d a = path_join d b \<longleftrightarrow> a = b"
  by (metis component_plain path_file_name_join option.inject)

lemma wp_c_name: "component m \<Longrightarrow> wp env (c_name d m) Q R = Q (path_join (dh_path d) m)"
  by (simp add: c_name_def component_def wp_simps)

lemma wp_temp_name: "wp env (temp_name m) Q R = Q (m @ create_sibling env)"
  by (simp add: temp_name_def create_sibling_def wp_simps)

lemma temp_name_differs:
  "component m \<Longrightarrow> path_join (dh_path d) m \<noteq> path_join (dh_path d) (m @ create_sibling env)"
  using create_sibling_plain(4) [of env] by (auto simp: path_join_inject component_temp)

definition dir_mode :: "sys_env \<Rightarrow> u32" where
  "dir_mode env = PRIVATE_FILE_MODE AND NOT (se_umask env)"

lemma wp_dir_write_temp:
  assumes "component tmp" "harmless I s0 (path_join (dh_path d) tmp) PRIVATE_FILE_MODE w"
  shows "wp env (dir_write_temp d tmp contents owner)
    (\<lambda>_ w'. \<exists>i. writing I s0 (path_join (dh_path d) tmp) PRIVATE_FILE_MODE i
       (\<lambda>f. f = finished (utf8 contents) (dir_mode env) (given owner env)) w')
    (\<lambda>_ w'. harmless I s0 (path_join (dh_path d) tmp) PRIVATE_FILE_MODE w') w"
  unfolding dir_write_temp_def dir_remove_def wp_simps wp_c_name [OF assms(1)]
proof (rule wp_mono [OF wp_create_scratch [OF assms(2)]])
  fix i w'
  let ?p = "path_join (dh_path d) tmp"
  let ?Q = "\<lambda>_ w'. \<exists>i. writing I s0 ?p PRIVATE_FILE_MODE i (\<lambda>f. f = finished (utf8 contents) (dir_mode env) (given owner env)) w'"
  let ?R = "\<lambda>_ w'. harmless I s0 ?p PRIVATE_FILE_MODE w'"
  assume "harmless I s0 ?p PRIVATE_FILE_MODE w' \<and> sole (w_fs w') ?p i \<and> fs_next s0 \<le> i
    \<and> fresh_file (PRIVATE_FILE_MODE AND NOT (se_umask env)) (se_self env) (fs_files (w_fs w') i)"
  then have "writing I s0 ?p PRIVATE_FILE_MODE i (fresh_file (dir_mode env) (se_self env)) w'"
    by (simp add: writing_def dir_mode_def)
  note wp_fill_file [where contents = "utf8 contents" and owner = owner, OF fresh_mode [OF this]]
  then show "wp env (fill_file i (utf8 contents) owner)
     (\<lambda>x. wp env (case Inr x of Inl e \<Rightarrow> io_then (io_ignore (io_bind (c_name d tmp) sys_unlink)) (io_throw e) | Inr _ \<Rightarrow> io_return ()) ?Q ?R)
     (\<lambda>e. wp env (case Inl e of Inl e \<Rightarrow> io_then (io_ignore (io_bind (c_name d tmp) sys_unlink)) (io_throw e) | Inr _ \<Rightarrow> io_return ()) ?Q ?R) w'"
    by (rule wp_mono) (auto simp: dir_mode_def mask_clear wp_simps wp_c_name [OF assms(1)] intro!: wp_mono [OF wp_unlink_scratch])
qed auto

lemma wp_clear_temp:
  assumes "component tmp" "harmless I s0 (path_join (dh_path d) tmp) mode w"
  shows "wp env (ignore_missing (dir_remove d tmp))
    (\<lambda>_ w'. harmless I s0 (path_join (dh_path d) tmp) mode w')
    (\<lambda>_ w'. harmless I s0 (path_join (dh_path d) tmp) mode w') w"
  unfolding ignore_missing_def dir_remove_def wp_simps wp_c_name [OF assms(1)]
  by (rule wp_mono [OF wp_unlink_scratch [OF assms(2)]]) (auto simp: wp_simps split: prod.split)

lemma dir_rename_eq:
  assumes "component tmp" "component m"
  shows "wp env (io_bind (io_catch (dir_rename d tmp m)) (\<lambda>renamed. case renamed of
      Inl e \<Rightarrow> io_then (io_ignore (dir_remove d tmp)) (io_throw e) | Inr _ \<Rightarrow> io_return ())) Q R w
    = wp env (rename_or_remove (path_join (dh_path d) tmp) (path_join (dh_path d) m)) Q R w"
  by (simp add: dir_rename_def dir_remove_def rename_or_remove_def wp_simps wp_c_name assms)

lemma dir_link_eq:
  assumes "component tmp" "component m"
  shows "wp env (io_bind (io_catch (dir_link d tmp m)) (\<lambda>linked. io_then (io_ignore (dir_remove d tmp)) (io_reject linked))) Q R w
    = wp env (io_bind (io_catch (sys_link (path_join (dh_path d) tmp) (path_join (dh_path d) m)))
        (\<lambda>linked. io_then (io_ignore (sys_unlink (path_join (dh_path d) tmp))) (io_reject linked))) Q R w"
  by (simp add: dir_link_def dir_remove_def wp_simps wp_c_name assms)

lemma wp_dir_write_private:
  assumes name: "component m" and p: "p = path_join (dh_path d) m"
    and tmp: "tmp = path_join (dh_path d) (m @ create_sibling env)"
    and w: "harmless I s0 tmp PRIVATE_FILE_MODE w"
    and I: "\<And>s. published s0 p tmp (finished (utf8 contents) (dir_mode env) (given owner env)) s \<Longrightarrow> I s"
  shows "wp env (dir_write_private d m contents owner)
    (\<lambda>_ w'. published s0 p tmp (finished (utf8 contents) (dir_mode env) (given owner env)) (w_fs w') \<and> traced I w')
    (\<lambda>_ w'. harmless I s0 tmp PRIVATE_FILE_MODE w') w"
  unfolding dir_write_private_def wp_bind [of _ "temp_name m"] wp_then wp_temp_name
    dir_rename_eq [OF component_temp [OF name] name]
  by (rule wp_mono [OF wp_clear_temp [OF component_temp [OF name]]])
    (use w in \<open>auto simp: tmp p temp_name_differs [OF name] I [unfolded p tmp]
      intro!: wp_mono [OF wp_dir_write_temp [OF component_temp [OF name]]] wp_rename_or_remove\<close>)

lemma wp_dir_create_new_private:
  assumes name: "component m" and p: "p = path_join (dh_path d) m"
    and tmp: "tmp = path_join (dh_path d) (m @ create_sibling env)"
    and w: "harmless I s0 tmp PRIVATE_FILE_MODE w"
    and I: "\<And>s. placed s0 p tmp (finished (utf8 contents) (dir_mode env) (given owner env)) s \<Longrightarrow> I s"
  shows "wp env (dir_create_new_private d m contents owner)
    (\<lambda>_ w'. placed s0 p tmp (finished (utf8 contents) (dir_mode env) (given owner env)) (w_fs w') \<and> traced I w')
    (\<lambda>_ w'. harmless I s0 tmp PRIVATE_FILE_MODE w') w"
  unfolding dir_create_new_private_def wp_bind [of _ "temp_name m"] wp_then wp_temp_name
    dir_link_eq [OF component_temp [OF name] name]
  by (rule wp_mono [OF wp_clear_temp [OF component_temp [OF name]]])
    (use w in \<open>auto simp: tmp p temp_name_differs [OF name] I [unfolded p tmp]
      intro!: wp_mono [OF wp_dir_write_temp [OF component_temp [OF name]]] wp_link_and_drop\<close>)

end
