(* ===== verification/FsPair.thy ===== *)
theory FsPair
  imports FsFacts
begin

text \<open>
  \<open>write_private_pair\<close>: a certificate and its key are published together. At every moment the second
  file is the new one only when the first is, and afterwards both are new or both read as before,
  unless putting the first one back failed, which the error says.
\<close>

section \<open>Scratch files and backups\<close>

lemma writing_weaken: "writing I s0 tmp mode i P w \<Longrightarrow> (\<And>f. P f \<Longrightarrow> P' f) \<Longrightarrow> writing I s0 tmp mode i P' w"
  by (auto simp: writing_def)

lemma wp_write_and_sync:
  assumes "writing I s0 tmp PRIVATE_FILE_MODE i (fresh_file PRIVATE_FILE_MODE (se_self env)) w"
  shows "wp env (io_then (sys_write i contents) (io_then (sys_fsync i) (io_return x)))
    (\<lambda>y w'. y = x \<and> writing I s0 tmp PRIVATE_FILE_MODE i (\<lambda>f. f = finished contents PRIVATE_FILE_MODE (se_self env)) w')
    (\<lambda>_ w'. harmless I s0 tmp PRIVATE_FILE_MODE w') w"
proof -
  have "wp env (fill_file i contents None) (\<lambda>_ w'. x = x \<and> writing I s0 tmp PRIVATE_FILE_MODE i (\<lambda>f. f = finished contents PRIVATE_FILE_MODE (se_self env)) w')
    (\<lambda>_ w'. harmless I s0 tmp PRIVATE_FILE_MODE w') w"
    using wp_fill_file [where contents = contents and owner = None, OF fresh_mode [OF assms] mask_clear(2), unfolded given_def option.case]
    by simp
  then show ?thesis by (simp add: fill_file_def give_fd_to_def wp_simps)
qed

lemma wp_prepare_private:
  assumes name: "path_file_name p = Some n" and tmp: "tmp = path_with_file_name p (n @ lit ''.tmp'')"
    and w: "harmless I s0 tmp PRIVATE_FILE_MODE w"
  shows "wp env (prepare_private p contents)
    (\<lambda>t w'. t = tmp \<and> (\<exists>i. writing I s0 tmp PRIVATE_FILE_MODE i (\<lambda>f. f = finished contents PRIVATE_FILE_MODE (se_self env)) w'))
    (\<lambda>_ w'. harmless I s0 tmp PRIVATE_FILE_MODE w') w"
  unfolding prepare_private_def wp_bind wp_temp_sibling [OF name, unfolded temp_sibling_def] tmp [symmetric] create_private_new_def
  by (rule wp_mono [OF wp_replace_with [OF w]]) (auto intro: wp_mono [OF wp_write_and_sync])

text \<open>What reading a name gives.\<close>

definition reads :: "sys_env \<Rightarrow> fs \<Rightarrow> path \<Rightarrow> u8 list option" where
  "reads env s p = (case look s p of
     None \<Rightarrow> None
   | Some (Inl f) \<Rightarrow> Some (f_bytes f)
   | Some (Inr (LinkAt _)) \<Rightarrow> (case se_link env p of Inl _ \<Rightarrow> None | Inr b \<Rightarrow> Some b)
   | Some (Inr _) \<Rightarrow> None)"

lemma reads_look: "look s p = look s' p \<Longrightarrow> reads env s p = reads env s' p"
  by (simp add: reads_def)

lemma reads_file: "look s p = Some (Inl f) \<Longrightarrow> reads env s p = Some (f_bytes f)"
  by (simp add: reads_def)

text \<open>A fault never says that a file is missing: that is only said of one that is.\<close>

definition honest :: "sys_env \<Rightarrow> bool" where
  "honest env \<longleftrightarrow> (\<forall>n e. se_fault env n = Some e \<longrightarrow> fst e \<noteq> IoNotFound)"

lemma wp_sys_read:
  assumes "honest env" "harmless I s0 tmp mode w" "p \<noteq> tmp"
  shows "wp env (sys_read p)
    (\<lambda>b w'. harmless I s0 tmp mode w' \<and> reads env s0 p = Some b)
    (\<lambda>e w'. harmless I s0 tmp mode w' \<and> (fst e = IoNotFound \<longrightarrow> reads env s0 p = None)) w"
proof -
  have same: "reads env s0 p = reads env (w_fs w) p"
    using scratched_look [OF harmless_scratched [OF assms(2)] assms(3)] by (rule reads_look [symmetric])
  show ?thesis
    unfolding sys_read_def wp_call same
    using assms(1) harmless_stay [OF assms(2)]
    by (auto simp: honest_def reads_def look_def split: option.split entry.split sum.split)
qed

lemma bak_differs: "path_file_name p = Some n \<Longrightarrow> p \<noteq> path_with_file_name p (n @ lit ''.bak'')"
  using sibling_differs [of p n "lit ''.bak''"] by (auto simp: lit_def)

lemma wp_back_up:
  assumes "honest env" and name: "path_file_name p = Some n" and bak: "bak = path_with_file_name p (n @ lit ''.bak'')"
    and w: "harmless I s0 bak PRIVATE_FILE_MODE w"
  shows "wp env (back_up p)
    (\<lambda>b w'. harmless I s0 bak PRIVATE_FILE_MODE w' \<and> (case b of
        None \<Rightarrow> reads env s0 p = None
      | Some q \<Rightarrow> q = bak \<and> (\<exists>i prev. reads env s0 p = Some prev \<and>
          writing I s0 bak PRIVATE_FILE_MODE i (\<lambda>f. f = finished prev PRIVATE_FILE_MODE (se_self env)) w')))
    (\<lambda>_ w'. harmless I s0 bak PRIVATE_FILE_MODE w') w"
proof -
  have sib: "wp env (sibling p (lit ''.bak'')) Q R = Q bak" for Q R
    using name by (simp add: fun_eq_iff sibling_def wp_def io_return_def bak)
  have "p \<noteq> bak" using bak_differs [OF name] bak by simp
  show ?thesis
    unfolding back_up_def wp_bind wp_catch
    by (rule wp_mono [OF wp_sys_read [OF assms(1) w \<open>p \<noteq> bak\<close>]])
      (auto simp: wp_bind wp_return wp_throw wp_if sib create_private_new_def dest: writing_harmless split: prod.split
        intro!: wp_mono [OF wp_replace_with] wp_mono [OF wp_write_and_sync])
qed

section \<open>Several names at once\<close>

text \<open>Outside the scratch names \<open>T\<close> the files \<open>G\<close> lie over what was there.\<close>

definition overlay :: "fs \<Rightarrow> path set \<Rightarrow> (path \<Rightarrow> inode option) \<Rightarrow> fs \<Rightarrow> bool" where
  "overlay s0 T G s \<longleftrightarrow> fs_ok s \<and>
    (\<forall>q. q \<notin> T \<longrightarrow> look s q = (case G q of Some f \<Rightarrow> Some (Inl f) | None \<Rightarrow> look s0 q))"

lemma overlay_scratched: "overlay s0 T G s \<Longrightarrow> scratched s tmp m s' \<Longrightarrow> tmp \<in> T \<Longrightarrow> overlay s0 T G s'"
proof -
  assume o: "overlay s0 T G s" and sc: "scratched s tmp m s'" and "tmp \<in> T"
  then have "q \<notin> T \<Longrightarrow> look s' q = look s q" for q by (metis scratched_look)
  moreover have "fs_ok s'" using sc unfolding scratched_def by blast
  ultimately show ?thesis using o by (simp add: overlay_def)
qed

lemma overlay_unlink: "overlay s0 T G s \<Longrightarrow> t \<in> T \<Longrightarrow> overlay s0 T G (set_name t None s)"
  by (auto simp: overlay_def look_name)

lemma overlay_rename:
  assumes "overlay s0 T G s" "t \<in> T" "p \<notin> T" "sole s t i" "fs_files s i = f"
  shows "overlay s0 T (G(p \<mapsto> f)) (set_name p (Some (FileAt i)) (set_name t None s))"
proof -
  have "fs_ok s" using assms(1) by (simp add: overlay_def)
  moreover have "fs_names s t = Some (FileAt i)" using assms(4) unfolding sole_def by blast
  ultimately have "fs_ok (set_name p (Some (FileAt i)) (set_name t None s))" by simp
  with assms(1,2,3,5) show ?thesis by (auto simp: overlay_def look_name)
qed

lemma sole_unlink: "sole s q i \<Longrightarrow> q \<noteq> t \<Longrightarrow> sole (set_name t None s) q i"
  by (simp add: sole_def)

lemma sole_rename: "sole s q i \<Longrightarrow> q \<noteq> t \<Longrightarrow> q \<noteq> p \<Longrightarrow> i \<noteq> j \<Longrightarrow> sole (set_name p (Some (FileAt j)) (set_name t None s)) q i"
  by (auto simp: sole_def)

lemma sole_apart: "sole s q i \<Longrightarrow> sole s r j \<Longrightarrow> q \<noteq> r \<Longrightarrow> i \<noteq> j"
  by (auto simp: sole_def)

lemma wp_unlink_cases:
  assumes "traced I w" "I (w_fs w)" "I (set_name t None (w_fs w))"
  shows "wp env (sys_unlink t)
    (\<lambda>_ w'. w_fs w' = set_name t None (w_fs w) \<and> traced I w') (\<lambda>_ w'. w_fs w' = w_fs w \<and> traced I w') w"
  using assms by (auto simp: sys_unlink_def wp_call split: option.split entry.split)

lemma wp_rename_cases:
  assumes "traced I w" "I (w_fs w)" "sole (w_fs w) t i" "t \<noteq> p"
    "I (set_name p (Some (FileAt i)) (set_name t None (w_fs w)))"
  shows "wp env (sys_rename t p)
    (\<lambda>_ w'. w_fs w' = set_name p (Some (FileAt i)) (set_name t None (w_fs w)) \<and> traced I w')
    (\<lambda>_ w'. w_fs w' = w_fs w \<and> traced I w') w"
proof -
  have "fs_names (w_fs w) t = Some (FileAt i)" "fs_names (w_fs w) p \<noteq> Some (FileAt i)"
    using assms(3,4) unfolding sole_def by blast+
  with assms(1,2,5) show ?thesis by (auto simp: sys_rename_def wp_call split: option.split entry.split)
qed

text \<open>A scratch file that stays while another scratch name is written.\<close>

lemma sole_scratched:
  assumes "sole s q i" "scratched s tmp m s'" "q \<noteq> tmp"
  shows "sole s' q i \<and> fs_files s' i = fs_files s i"
proof -
  have i: "i < fs_next s" and ok: "fs_ok s"
    using assms(1,2) unfolding sole_def scratched_def fs_ok_def by blast+
  have "fs_names s' tmp = fs_names s tmp \<or> fs_names s' tmp = None \<or> (\<exists>j \<ge> fs_next s. fs_names s' tmp = Some (FileAt j))"
    using assms(2) unfolding scratched_def by blast
  moreover have "fs_names s tmp \<noteq> Some (FileAt i)" using assms(1,3) unfolding sole_def by blast
  ultimately have tmp: "fs_names s' tmp \<noteq> Some (FileAt i)" using i by auto
  have "fs_names s' r = Some (FileAt i) \<longleftrightarrow> r = q" for r
  proof (cases "r = tmp")
    case False
    then have "fs_names s' r = fs_names s r" using assms(2) unfolding scratched_def by blast
    then show ?thesis using assms(1) unfolding sole_def by metis
  qed (use tmp assms(3) in simp)
  then show ?thesis using assms(2) i unfolding sole_def scratched_def by blast
qed

section \<open>The pair\<close>

definition pair_names :: "path \<Rightarrow> path \<Rightarrow> path \<Rightarrow> path \<Rightarrow> path \<Rightarrow> bool" where
  "pair_names p1 p2 t1 t2 b1 \<longleftrightarrow>
    (\<exists>n1 n2. path_file_name p1 = Some n1 \<and> path_file_name p2 = Some n2
      \<and> t1 = path_with_file_name p1 (n1 @ lit ''.tmp'') \<and> b1 = path_with_file_name p1 (n1 @ lit ''.bak'')
      \<and> t2 = path_with_file_name p2 (n2 @ lit ''.tmp''))
    \<and> distinct [p1, p2, t1, t2, b1]"

definition private_new :: "sys_env \<Rightarrow> u8 list \<Rightarrow> inode" where
  "private_new env b = finished b PRIVATE_FILE_MODE (se_self env)"

text \<open>The first name is back: it reads as before, and nothing else was changed.\<close>

definition put_back :: "sys_env \<Rightarrow> fs \<Rightarrow> path \<Rightarrow> path set \<Rightarrow> fs \<Rightarrow> bool" where
  "put_back env s0 p1 T s \<longleftrightarrow>
    reads env s p1 = reads env s0 p1 \<and> (\<forall>q. q \<notin> T \<longrightarrow> q \<noteq> p1 \<longrightarrow> look s q = look s0 q)"

definition pair_state :: "sys_env \<Rightarrow> fs \<Rightarrow> path \<Rightarrow> path \<Rightarrow> path set \<Rightarrow> inode \<Rightarrow> inode \<Rightarrow> fs \<Rightarrow> bool" where
  "pair_state env s0 p1 p2 T f1 f2 s \<longleftrightarrow>
    overlay s0 T Map.empty s \<or> overlay s0 T [p1 \<mapsto> f1] s \<or> overlay s0 T [p1 \<mapsto> f1, p2 \<mapsto> f2] s \<or> put_back env s0 p1 T s"

definition backed_up :: "sys_env \<Rightarrow> fs \<Rightarrow> path \<Rightarrow> path \<Rightarrow> path option \<Rightarrow> fs \<Rightarrow> bool" where
  "backed_up env s0 p1 b1 b s \<longleftrightarrow> (case b of
     None \<Rightarrow> reads env s0 p1 = None
   | Some q \<Rightarrow> q = b1 \<and> (\<exists>i prev. reads env s0 p1 = Some prev \<and> sole s b1 i \<and> fs_files s i = private_new env prev))"

definition reported :: "path \<Rightarrow> io_err \<Rightarrow> bool" where
  "reported p e \<longleftrightarrow> (\<exists>a b. snd e = a @ lit ''; and '' @ p @ lit '' could not be put back afterwards ('' @ b)"

lemma overlay_put_back: "overlay s0 T Map.empty s \<Longrightarrow> p1 \<notin> T \<Longrightarrow> put_back env s0 p1 T s"
  by (auto simp: overlay_def put_back_def intro: reads_look)

lemma wp_undo:
  assumes o: "overlay s0 T [p1 \<mapsto> f1] (w_fs w)" and tr: "traced (pair_state env s0 p1 p2 T f1 f2) w"
    and b: "backed_up env s0 p1 b1 b (w_fs w)" and b1: "b1 \<in> T" and p1: "p1 \<notin> T"
  shows "wp env (io_bind (undo p1 b cause) io_throw) Q
    (\<lambda>e w'. traced (pair_state env s0 p1 p2 T f1 f2) w' \<and>
      (put_back env s0 p1 T (w_fs w') \<or> (overlay s0 T [p1 \<mapsto> f1] (w_fs w') \<and> reported p1 e))) w"
proof (cases b)
  case None
  let ?s = "set_name p1 None (w_fs w)"
  have "put_back env s0 p1 T ?s"
    using b None o by (auto simp: put_back_def reads_def look_name backed_up_def overlay_def)
  then have "pair_state env s0 p1 p2 T f1 f2 ?s" "put_back env s0 p1 T ?s" by (simp_all add: pair_state_def)
  with o tr None show ?thesis
    by (auto simp: undo_def wp_simps reported_def pair_state_def intro!: wp_mono [OF wp_unlink_cases])
next
  case (Some q)
  then obtain i prev where i: "q = b1" "reads env s0 p1 = Some prev" "sole (w_fs w) b1 i" "fs_files (w_fs w) i = private_new env prev"
    using b by (auto simp: backed_up_def)
  let ?s = "set_name p1 (Some (FileAt i)) (set_name b1 None (w_fs w))"
  have "overlay s0 T ([p1 \<mapsto> f1](p1 \<mapsto> private_new env prev)) ?s"
    using overlay_rename [OF o b1 p1 i(3,4)] .
  then have "put_back env s0 p1 T ?s"
    using i(2) p1 by (auto simp: put_back_def overlay_def reads_def private_new_def finished_def)
  then have s: "pair_state env s0 p1 p2 T f1 f2 ?s" "put_back env s0 p1 T ?s" by (simp_all add: pair_state_def)
  have "b1 \<noteq> p1" using b1 p1 by auto
  with s o tr Some i(1,3) show ?thesis
    by (auto simp: undo_def wp_simps reported_def pair_state_def intro!: wp_mono [OF wp_rename_cases])
qed

lemma wp_remove_backup:
  assumes "overlay s0 T G (w_fs w)" "traced I w" "b \<noteq> None \<longrightarrow> the b \<in> T" "\<And>s. overlay s0 T G s \<Longrightarrow> I s"
  shows "wp env (remove_backup b) (\<lambda>_ w'. overlay s0 T G (w_fs w') \<and> traced I w') R w"
  using assms
  by (cases b) (auto simp: remove_backup_def wp_simps overlay_unlink intro!: wp_mono [OF wp_unlink_cases])

lemma backed_up_unlink: "backed_up env s0 p1 b1 b s \<Longrightarrow> t \<noteq> b1 \<Longrightarrow> backed_up env s0 p1 b1 b (set_name t None s)"
  using sole_unlink [of s b1 _ t] by (fastforce simp: backed_up_def split: option.splits)

lemma backed_up_rename:
  assumes "backed_up env s0 p1 b1 b s" "t \<noteq> b1" "p \<noteq> b1" "sole s t j"
  shows "backed_up env s0 p1 b1 b (set_name p (Some (FileAt j)) (set_name t None s))"
proof (cases b)
  case (Some q)
  then obtain i prev where i: "q = b1" "reads env s0 p1 = Some prev" "sole s b1 i" "fs_files s i = private_new env prev"
    using assms(1) by (auto simp: backed_up_def)
  have "sole (set_name p (Some (FileAt j)) (set_name t None s)) b1 i"
    using sole_rename [OF i(3), of t p j] sole_apart [OF i(3) assms(4)] assms(2,3) by blast
  with i Some show ?thesis by (auto simp: backed_up_def)
qed (use assms(1) in \<open>simp add: backed_up_def\<close>)

lemma wp_second_half:
  assumes o: "overlay s0 T [p1 \<mapsto> f1] (w_fs w)" and tr: "traced (pair_state env s0 p1 p2 T f1 f2) w"
    and t2: "sole (w_fs w) t2 i2" "fs_files (w_fs w) i2 = f2" and b: "backed_up env s0 p1 b1 b (w_fs w)"
    and names: "t2 \<in> T" "b1 \<in> T" "p1 \<notin> T" "p2 \<notin> T" "t2 \<noteq> b1"
  shows "wp env (io_bind (io_catch (sys_rename t2 p2)) (\<lambda>renamed.
      case renamed of
        Inl e \<Rightarrow> io_then (io_ignore (sys_unlink t2)) (io_bind (undo p1 b e) io_throw)
      | Inr _ \<Rightarrow> remove_backup b))
    (\<lambda>_ w'. traced (pair_state env s0 p1 p2 T f1 f2) w' \<and> overlay s0 T [p1 \<mapsto> f1, p2 \<mapsto> f2] (w_fs w'))
    (\<lambda>e w'. traced (pair_state env s0 p1 p2 T f1 f2) w' \<and>
      (put_back env s0 p1 T (w_fs w') \<or> (overlay s0 T [p1 \<mapsto> f1] (w_fs w') \<and> reported p1 e))) w"
proof -
  let ?I = "pair_state env s0 p1 p2 T f1 f2"
  let ?s = "set_name p2 (Some (FileAt i2)) (set_name t2 None (w_fs w))"
  have both: "overlay s0 T [p1 \<mapsto> f1, p2 \<mapsto> f2] ?s" using overlay_rename [OF o names(1,4) t2] .
  have inv: "?I (w_fs w)" "?I ?s" "?I (set_name t2 None (w_fs w))"
    using o both overlay_unlink [OF o names(1)] by (simp_all add: pair_state_def)
  have "t2 \<noteq> p2" "b \<noteq> None \<longrightarrow> the b \<in> T" using names b by (auto simp: backed_up_def split: option.splits)
  have failed: "wp env (sys_unlink t2) (\<lambda>_. wp env (io_bind (undo p1 b e) io_throw) Q R) (\<lambda>_. wp env (io_bind (undo p1 b e) io_throw) Q R) w'"
    if "w_fs w' = w_fs w" "traced ?I w'"
      and R: "R = (\<lambda>e w'. traced ?I w' \<and> (put_back env s0 p1 T (w_fs w') \<or> (overlay s0 T [p1 \<mapsto> f1] (w_fs w') \<and> reported p1 e)))"
    for e w' Q R
    unfolding R
    by (rule wp_mono [OF wp_unlink_cases [OF that(2)]])
      (use that(1) inv o b names overlay_unlink [OF o names(1)] in \<open>auto intro!: wp_undo [where ?b1.0 = b1] simp: backed_up_unlink\<close>)
  show ?thesis
    unfolding wp_bind [of _ "io_catch (sys_rename t2 p2)"] wp_catch
  proof (rule wp_mono [OF wp_rename_cases [OF tr inv(1) t2(1) \<open>t2 \<noteq> p2\<close> inv(2)]])
    fix w' assume "w_fs w' = ?s \<and> traced ?I w'"
    then show "wp env (case Inr x of Inl e \<Rightarrow> io_then (io_ignore (sys_unlink t2)) (io_bind (undo p1 b e) io_throw) | Inr _ \<Rightarrow> remove_backup b)
      (\<lambda>_ w'. traced ?I w' \<and> overlay s0 T [p1 \<mapsto> f1, p2 \<mapsto> f2] (w_fs w'))
      (\<lambda>e w'. traced ?I w' \<and> (put_back env s0 p1 T (w_fs w') \<or> (overlay s0 T [p1 \<mapsto> f1] (w_fs w') \<and> reported p1 e))) w'" for x
      using both \<open>b \<noteq> None \<longrightarrow> the b \<in> T\<close>
      by (auto intro!: wp_mono [OF wp_remove_backup [where G = "[p1 \<mapsto> f1, p2 \<mapsto> f2]" and I = ?I and T = T and ?s0.0 = s0 and R = "\<lambda>_ _. False"]] simp: pair_state_def)
  next
    fix e w' assume "w_fs w' = w_fs w \<and> traced ?I w'"
    then show "wp env (case Inl e of Inl e \<Rightarrow> io_then (io_ignore (sys_unlink t2)) (io_bind (undo p1 b e) io_throw) | Inr _ \<Rightarrow> remove_backup b)
      (\<lambda>_ w'. traced ?I w' \<and> overlay s0 T [p1 \<mapsto> f1, p2 \<mapsto> f2] (w_fs w'))
      (\<lambda>e w'. traced ?I w' \<and> (put_back env s0 p1 T (w_fs w') \<or> (overlay s0 T [p1 \<mapsto> f1] (w_fs w') \<and> reported p1 e))) w'"
      by (simp add: wp_then wp_ignore failed)
  qed
qed

lemma wp_first_half:
  assumes o: "overlay s0 T Map.empty (w_fs w)" and tr: "traced (pair_state env s0 p1 p2 T f1 f2) w"
    and t1: "sole (w_fs w) t1 i1" "fs_files (w_fs w) i1 = f1"
    and t2: "sole (w_fs w) t2 i2" "fs_files (w_fs w) i2 = f2" and b: "backed_up env s0 p1 b1 b (w_fs w)"
    and T: "T = {t1, t2, b1}" and names: "distinct [p1, p2, t1, t2, b1]"
  shows "wp env (io_bind (io_catch (sys_rename t1 p1)) (\<lambda>renamed.
      case renamed of
        Inl e \<Rightarrow> io_then (io_ignore (sys_unlink t1)) (io_then (io_ignore (sys_unlink t2)) (io_then (remove_backup b) (io_throw e)))
      | Inr _ \<Rightarrow> io_bind (io_catch (sys_rename t2 p2)) (\<lambda>renamed.
          case renamed of
            Inl e \<Rightarrow> io_then (io_ignore (sys_unlink t2)) (io_bind (undo p1 b e) io_throw)
          | Inr _ \<Rightarrow> remove_backup b)))
    (\<lambda>_ w'. traced (pair_state env s0 p1 p2 T f1 f2) w' \<and> overlay s0 T [p1 \<mapsto> f1, p2 \<mapsto> f2] (w_fs w'))
    (\<lambda>e w'. traced (pair_state env s0 p1 p2 T f1 f2) w' \<and>
      (put_back env s0 p1 T (w_fs w') \<or> (overlay s0 T [p1 \<mapsto> f1] (w_fs w') \<and> reported p1 e))) w"
proof -
  let ?I = "pair_state env s0 p1 p2 T f1 f2"
  let ?s = "set_name p1 (Some (FileAt i1)) (set_name t1 None (w_fs w))"
  have one: "overlay s0 T [p1 \<mapsto> f1] ?s" using overlay_rename [OF o _ _ t1] T names by auto
  have inv: "?I (w_fs w)" "?I ?s" using o one by (simp_all add: pair_state_def)
  have "t1 \<noteq> p1" using names by auto
  have bT: "b \<noteq> None \<longrightarrow> the b \<in> T" using b T by (auto simp: backed_up_def split: option.splits)
  have clean: "wp env (sys_unlink t) (\<lambda>_ w'. overlay s0 T Map.empty (w_fs w') \<and> traced ?I w')
      (\<lambda>_ w'. overlay s0 T Map.empty (w_fs w') \<and> traced ?I w') w'"
    if "overlay s0 T Map.empty (w_fs w')" "traced ?I w'" "t \<in> T" for w' t
    using that overlay_unlink [OF that(1,3)]
    by (auto intro!: wp_mono [OF wp_unlink_cases] simp: pair_state_def)
  define R where "R = (\<lambda>e w'. traced ?I w' \<and>
    (put_back env s0 p1 T (w_fs w') \<or> (overlay s0 T [p1 \<mapsto> f1] (w_fs w') \<and> reported p1 e)))"
  have p1: "p1 \<notin> T" using T names by auto
  have drop: "wp env (io_then (remove_backup b) (io_throw e)) Q R w'"
    if "overlay s0 T Map.empty (w_fs w') \<and> traced ?I w'" for w' Q e
    unfolding wp_then wp_throw
    by (rule wp_mono [OF wp_remove_backup [where G = Map.empty and T = T and ?s0.0 = s0 and I = ?I and R = R]])
      (use that bT p1 in \<open>auto simp: pair_state_def R_def overlay_put_back\<close>)
  have drop2: "wp env (io_then (io_ignore (sys_unlink t)) k) Q R w'"
    if "overlay s0 T Map.empty (w_fs w') \<and> traced ?I w'" "t \<in> T"
      "\<And>w'. overlay s0 T Map.empty (w_fs w') \<and> traced ?I w' \<Longrightarrow> wp env k Q R w'" for w' Q t k
    unfolding wp_then wp_ignore
    by (rule wp_mono [OF clean]) (use that in auto)
  show ?thesis
    unfolding wp_bind [of _ "io_catch (sys_rename t1 p1)"] wp_catch
  proof (rule wp_mono [OF wp_rename_cases [OF tr inv(1) t1(1) \<open>t1 \<noteq> p1\<close> inv(2)]])
    fix x w' assume "w_fs w' = ?s \<and> traced ?I w'"
    then show "wp env (case Inr x of Inl e \<Rightarrow> io_then (io_ignore (sys_unlink t1)) (io_then (io_ignore (sys_unlink t2)) (io_then (remove_backup b) (io_throw e)))
      | Inr _ \<Rightarrow> io_bind (io_catch (sys_rename t2 p2)) (\<lambda>renamed.
          case renamed of
            Inl e \<Rightarrow> io_then (io_ignore (sys_unlink t2)) (io_bind (undo p1 b e) io_throw)
          | Inr _ \<Rightarrow> remove_backup b))
      (\<lambda>_ w'. traced ?I w' \<and> overlay s0 T [p1 \<mapsto> f1, p2 \<mapsto> f2] (w_fs w'))
      (\<lambda>e w'. traced ?I w' \<and> (put_back env s0 p1 T (w_fs w') \<or> (overlay s0 T [p1 \<mapsto> f1] (w_fs w') \<and> reported p1 e))) w'"
      unfolding sum.case
      using one t2 names T b t1 sole_rename [OF t2(1), of t1 p1 i1] sole_apart [OF t2(1) t1(1)]
      by (intro wp_second_half) (auto intro: backed_up_rename)
  next
    fix e w' assume "w_fs w' = w_fs w \<and> traced ?I w'"
    then have w': "overlay s0 T Map.empty (w_fs w')" "traced ?I w'" using o by simp_all
    show "wp env (case Inl e of Inl e \<Rightarrow> io_then (io_ignore (sys_unlink t1)) (io_then (io_ignore (sys_unlink t2)) (io_then (remove_backup b) (io_throw e)))
      | Inr _ \<Rightarrow> io_bind (io_catch (sys_rename t2 p2)) (\<lambda>renamed.
          case renamed of
            Inl e \<Rightarrow> io_then (io_ignore (sys_unlink t2)) (io_bind (undo p1 b e) io_throw)
          | Inr _ \<Rightarrow> remove_backup b))
      (\<lambda>_ w'. traced ?I w' \<and> overlay s0 T [p1 \<mapsto> f1, p2 \<mapsto> f2] (w_fs w'))
      (\<lambda>e w'. traced ?I w' \<and> (put_back env s0 p1 T (w_fs w') \<or> (overlay s0 T [p1 \<mapsto> f1] (w_fs w') \<and> reported p1 e))) w'"
      unfolding sum.case R_def [symmetric]
      by (intro drop2 drop) (use w' T in auto)
  qed
qed

lemma overlay_refl: "fs_ok s \<Longrightarrow> overlay s T Map.empty s"
  by (simp add: overlay_def)

lemma overlay_harmless:
  assumes "overlay s0 T Map.empty (w_fs w)" "traced (pair_state env s0 p1 p2 T f1 f2) w" "t \<in> T"
  shows "harmless (pair_state env s0 p1 p2 T f1 f2) (w_fs w) t m w"
  unfolding harmless_def
  using assms overlay_scratched [OF assms(1) _ assms(3)]
  by (auto simp: pair_state_def intro: scratched_refl simp: overlay_def [of s0 T Map.empty "w_fs w"])

lemma harmless_overlay:
  assumes "overlay s0 T Map.empty s" "harmless I s t m w" "t \<in> T"
  shows "overlay s0 T Map.empty (w_fs w) \<and> traced I w"
  using overlay_scratched [OF assms(1) harmless_scratched [OF assms(2)] assms(3)] assms(2) by (simp add: harmless_def)

lemma sole_harmless:
  "sole s q i \<and> fs_files s i = f \<Longrightarrow> harmless I s t m w \<Longrightarrow> q \<noteq> t \<Longrightarrow> sole (w_fs w) q i \<and> fs_files (w_fs w) i = f"
  using sole_scratched [OF _ harmless_scratched] by blast

lemma writing_sole: "writing I s0 t m i (\<lambda>f. f = f0) w \<Longrightarrow> sole (w_fs w) t i \<and> fs_files (w_fs w) i = f0"
  by (simp add: writing_def)

lemma wp_write_private_pair:
  assumes honest: "honest env" and names: "pair_names p1 p2 t1 t2 b1" and T: "T = {t1, t2, b1}"
    and w: "fs_ok (w_fs w)" "w_fs w = s0" "w_trace w = []"
    and f: "f1 = private_new env (utf8 c1)" "f2 = private_new env (utf8 c2)"
  shows "wp env (write_private_pair (p1, c1) (p2, c2))
    (\<lambda>_ w'. traced (pair_state env s0 p1 p2 T f1 f2) w' \<and> overlay s0 T [p1 \<mapsto> f1, p2 \<mapsto> f2] (w_fs w'))
    (\<lambda>e w'. traced (pair_state env s0 p1 p2 T f1 f2) w' \<and>
      (put_back env s0 p1 T (w_fs w') \<or> (overlay s0 T [p1 \<mapsto> f1] (w_fs w') \<and> reported p1 e))) w"
proof -
  let ?I = "pair_state env s0 p1 p2 T f1 f2"
  define R where "R = (\<lambda>e w'. traced ?I w' \<and>
    (put_back env s0 p1 T (w_fs w') \<or> (overlay s0 T [p1 \<mapsto> f1] (w_fs w') \<and> reported p1 e)))"
  obtain n1 n2 where n: "path_file_name p1 = Some n1" "path_file_name p2 = Some n2"
    "t1 = path_with_file_name p1 (n1 @ lit ''.tmp'')" "b1 = path_with_file_name p1 (n1 @ lit ''.bak'')"
    "t2 = path_with_file_name p2 (n2 @ lit ''.tmp'')" and dist: "distinct [p1, p2, t1, t2, b1]"
    using names unfolding pair_names_def by blast
  have p1: "p1 \<notin> T" using dist T by auto
  have start: "overlay s0 T Map.empty (w_fs w) \<and> traced ?I w" using w overlay_refl by (simp add: traced_def)
  have fail: "R e w'" if "overlay s0 T Map.empty (w_fs w') \<and> traced ?I w'" for e w'
    using that p1 by (simp add: R_def overlay_put_back)
  have clean: "wp env (io_then (io_ignore (sys_unlink t)) k) Q R w'"
    if "overlay s0 T Map.empty (w_fs w') \<and> traced ?I w'" "t \<in> T"
      "\<And>w'. overlay s0 T Map.empty (w_fs w') \<and> traced ?I w' \<Longrightarrow> wp env k Q R w'" for w' Q t k
    unfolding wp_then wp_ignore
    by (rule wp_mono [OF wp_unlink_cases [where I = ?I]])
      (use that overlay_unlink in \<open>auto simp: pair_state_def\<close>)
  have throw: "wp env (io_throw e) Q R w'" if "overlay s0 T Map.empty (w_fs w') \<and> traced ?I w'" for e w' Q
    using fail [OF that] by (simp add: wp_simps)
  have h: "harmless ?I (w_fs w') t m w'" if "overlay s0 T Map.empty (w_fs w') \<and> traced ?I w'" "t \<in> T" for w' t m
    using overlay_harmless that by blast
  have o: "overlay s0 T Map.empty (w_fs w'') \<and> traced ?I w''"
    if "overlay s0 T Map.empty (w_fs w') \<and> traced ?I w'" "harmless ?I (w_fs w') t m w''" "t \<in> T" for w' w'' t m
    using harmless_overlay that by blast
  have in_T: "t1 \<in> T" "t2 \<in> T" "b1 \<in> T" and apart: "t1 \<noteq> t2" "t1 \<noteq> b1" "t2 \<noteq> b1" using T dist by auto
  show ?thesis
    unfolding write_private_pair_def fst_conv snd_conv wp_bind R_def [symmetric]
  proof (rule wp_mono [OF wp_prepare_private [OF n(1,3) h [OF start in_T(1)]]], goal_cases)
    case (1 t w1)
    then obtain i1 where w1: "t = t1" "harmless ?I (w_fs w) t1 PRIVATE_FILE_MODE w1"
      "sole (w_fs w1) t1 i1 \<and> fs_files (w_fs w1) i1 = f1"
      using writing_harmless writing_sole f(1) by (fastforce simp: private_new_def)
    note o1 = o [OF start w1(2) in_T(1)]
    show ?case
      unfolding wp_catch
    proof (rule wp_mono [OF wp_prepare_private [OF n(2,5) h [OF o1 in_T(2)]]], goal_cases)
      case (1 t' w2)
      then obtain i2 where w2: "t' = t2" "harmless ?I (w_fs w1) t2 PRIVATE_FILE_MODE w2"
        "sole (w_fs w2) t2 i2 \<and> fs_files (w_fs w2) i2 = f2"
        using writing_harmless writing_sole f(2) by (fastforce simp: private_new_def)
      note o2 = o [OF o1 w2(2) in_T(2)] and s2 = sole_harmless [OF w1(3) w2(2) apart(1)]
      have same: "reads env (w_fs w2) p1 = reads env s0 p1"
        using o2 p1 by (intro reads_look) (auto simp: overlay_def)
      show ?case
        unfolding sum.case wp_bind wp_catch
      proof (rule wp_mono [OF wp_back_up [OF honest n(1,4) h [OF o2 in_T(3)]]], goal_cases)
        case (1 b w3)
        then have w3: "harmless ?I (w_fs w2) b1 PRIVATE_FILE_MODE w3" by simp
        have b: "backed_up env s0 p1 b1 b (w_fs w3)"
          using 1 same writing_sole by (fastforce simp: backed_up_def private_new_def split: option.splits)
        note o3 = o [OF o2 w3 in_T(3)] and s3 = sole_harmless [OF s2 w3 apart(2)] and s4 = sole_harmless [OF w2(3) w3 apart(3)]
        show ?case
          using wp_first_half [OF conjunct1 [OF o3] conjunct2 [OF o3] conjunct1 [OF s3] conjunct2 [OF s3]
              conjunct1 [OF s4] conjunct2 [OF s4] b T dist]
          unfolding sum.case wp_bind wp_catch R_def w1(1) w2(1) .
      next
        case (2 e w3)
        show ?case
          unfolding sum.case w1(1) w2(1)
          by (intro clean throw o [OF o2 2 in_T(3)] in_T)
      qed
    next
      case (2 e w2)
      show ?case
        unfolding sum.case w1(1) by (intro clean throw o [OF o1 2 in_T(2)] in_T)
    qed
  next
    case (2 e w1)
    then show ?case using fail o [OF start 2 in_T(1)] by blast
  qed
qed

end
