(* ===== verification/DeviceRun.thy ===== *)
theory DeviceRun
  imports Device FsPair
begin

text \<open>
  A command on a device: its files, the hub it talks to and its standard output, passed from step to
  step. The hub is any function from requests to responses with a state of its own, so the hub of
  this development can be put in its place. While the hub is asked, other processes may have
  changed the files. What a WireGuard tool answers may depend on the files it is told to read.
\<close>

record 'h site =
  si_world :: world
  si_hub :: 'h
  si_out :: "rstr list"
  si_err :: "rstr list"

record 'h dev_env =
  de_sys :: sys_env
  de_send :: "client_request \<Rightarrow> 'h \<Rightarrow> (client_error + client_response) \<times> 'h"
  de_meanwhile :: "fs \<Rightarrow> fs"
  de_path_var :: rstr
  de_os :: rstr
  de_link_runs :: "path \<Rightarrow> bool"
  de_wg :: "cmd \<Rightarrow> rstr option \<Rightarrow> fs \<Rightarrow> wg_error + rstr"
  de_hostname :: "rstr option"
  de_stdout :: "rstr \<Rightarrow> rstr option"

type_synonym ('h, 'e, 'a) run = "'h dev_env \<Rightarrow> 'h site \<Rightarrow> ('e + 'a) \<times> 'h site"

definition run_return :: "'a \<Rightarrow> ('h, 'e, 'a) run" where
  "run_return x = (\<lambda>env s. (Inr x, s))"

definition run_throw :: "'e \<Rightarrow> ('h, 'e, 'a) run" where
  "run_throw e = (\<lambda>env s. (Inl e, s))"

definition run_bind :: "('h, 'e, 'a) run \<Rightarrow> ('a \<Rightarrow> ('h, 'e, 'b) run) \<Rightarrow> ('h, 'e, 'b) run" where
  "run_bind m f = (\<lambda>env s. case m env s of (Inl e, s') \<Rightarrow> (Inl e, s') | (Inr x, s') \<Rightarrow> f x env s')"

definition run_then :: "('h, 'e, 'a) run \<Rightarrow> ('h, 'e, 'b) run \<Rightarrow> ('h, 'e, 'b) run" where
  "run_then m k = run_bind m (\<lambda>_. k)"

definition run_catch :: "('h, 'e, 'a) run \<Rightarrow> ('h, 'f, 'e + 'a) run" where
  "run_catch m = (\<lambda>env s. case m env s of (r, s') \<Rightarrow> (Inr r, s'))"

text \<open>A value that is already a \<open>Result\<close>, and the question mark with a change of error.\<close>

definition run_lift :: "'e + 'a \<Rightarrow> ('h, 'e, 'a) run" where
  "run_lift r = (\<lambda>env s. (r, s))"

definition run_env :: "('h dev_env \<Rightarrow> 'a) \<Rightarrow> ('h, 'e, 'a) run" where
  "run_env f = (\<lambda>env s. (Inr (f env), s))"

definition run_map_err :: "('e \<Rightarrow> 'f) \<Rightarrow> ('h, 'e, 'a) run \<Rightarrow> ('h, 'f, 'a) run" where
  "run_map_err f m = (\<lambda>env s. case m env s of (r, s') \<Rightarrow> (map_err f r, s'))"

definition on_files :: "'a io \<Rightarrow> ('h, io_err, 'a) run" where
  "on_files m = (\<lambda>env s. case m (de_sys env) (si_world s) of (r, w) \<Rightarrow> (r, s\<lparr>si_world := w\<rparr>))"

definition ask :: "client_request \<Rightarrow> ('h, client_error, client_response) run" where
  "ask request = (\<lambda>env s.
    case de_send env request (si_hub s) of
      (r, h) \<Rightarrow> (r, s\<lparr>si_hub := h, si_world := advance (de_meanwhile env (w_fs (si_world s))) (si_world s)\<rparr>))"

definition put_out :: "rstr \<Rightarrow> ('h, rstr, unit) run" where
  "put_out text = (\<lambda>env s.
    case de_stdout env text of
      Some e \<Rightarrow> (Inl e, s)
    | None \<Rightarrow> (Inr (), s\<lparr>si_out := si_out s @ [text]\<rparr>))"

text \<open>A line on standard error, which is never an error of its own.\<close>

definition put_err :: "rstr \<Rightarrow> ('h, 'e, unit) run" where
  "put_err text = (\<lambda>env s. (Inr (), s\<lparr>si_err := si_err s @ [text]\<rparr>))"

end
