(* ===== verification/WgRun.thy ===== *)
theory WgRun
  imports DeviceRun
begin

text \<open>
  \<open>crates/anago/src/wg.rs\<close> on Unix, the part that looks and runs: a tool is looked for along \<open>PATH\<close>,
  a command is run and its output read, a keypair is made by two of them.
\<close>

section \<open>Looking for the tools\<close>

fun install_hint :: "platform \<Rightarrow> rstr" where
  "install_hint MacOs = lit ''install it with: brew install wireguard-tools''"
| "install_hint Linux =
     lit ''install the wireguard-tools package: apt install wireguard-tools ''
     @ lit ''(Debian/Ubuntu), dnf install wireguard-tools (Fedora), ''
     @ lit ''pacman -S wireguard-tools (Arch)''"
| "install_hint Windows =
     lit ''install the official WireGuard client: `winget install WireGuard.WireGuard` ''
     @ lit ''(or download it from https://www.wireguard.com/install/) '' @ [0x2014] @ lit '' it provides ''
     @ lit ''wg.exe and the tunnel service anago drives ('' @ [0xa7] @ lit ''11.1)''"
| "install_hint OtherPlatform =
     lit ''anago needs WireGuard'' @ [39] @ lit ''s tools (wg, and wg-quick outside Windows); ''
     @ lit ''see https://www.wireguard.com/install/''"

text \<open>\<open>is_executable_file\<close>: a regular file with one of the three execute bits, behind a link or not.\<close>

definition is_executable_file :: "path \<Rightarrow> ('h, 'e, bool) run" where
  "is_executable_file p = (\<lambda>env s.
    case on_files (sys_call (\<lambda>_ t. Inr
      ((case fs_names t p of
          Some (FileAt i) \<Rightarrow> f_mode (fs_files t i) AND 73 \<noteq> 0
        | Some (LinkAt _) \<Rightarrow> de_link_runs env p
        | _ \<Rightarrow> False), t))) env s of
      (r, s') \<Rightarrow> (Inr (case r of Inr b \<Rightarrow> b | Inl _ \<Rightarrow> False), s'))"

fun first_executable :: "path list \<Rightarrow> ('h, 'e, path option) run" where
  "first_executable [] = run_return None"
| "first_executable (p # ps) =
     run_bind (is_executable_file p) (\<lambda>found. if found then run_return (Some p) else first_executable ps)"

definition find_in_path :: "rstr \<Rightarrow> rstr \<Rightarrow> ('h, 'e, path option) run" where
  "find_in_path path_var program =
    first_executable (map (\<lambda>dir. path_join dir program) (filter (\<lambda>dir. dir \<noteq> []) (split_on 58 path_var)))"

definition check_tool :: "rstr \<Rightarrow> rstr \<Rightarrow> platform \<Rightarrow> ('h, wg_error, unit) run" where
  "check_tool path_var tool platform =
    run_bind (find_in_path path_var tool) (\<lambda>found.
      if found \<noteq> None then run_return () else run_throw (WgNotFound tool (install_hint platform)))"

definition check_tools :: "rstr \<Rightarrow> platform \<Rightarrow> ('h, wg_error, unit) run" where
  "check_tools path_var platform = run_then (check_tool path_var WG platform) (check_tool path_var WG_QUICK platform)"

definition check_tools_from_env :: "('h, wg_error, unit) run" where
  "check_tools_from_env =
    run_bind (run_env (\<lambda>env. (de_path_var env, platform_from (de_os env)))) (\<lambda>(path_var, platform). check_tools path_var platform)"

definition check_keygen_from_env :: "('h, wg_error, unit) run" where
  "check_keygen_from_env =
    run_bind (run_env (\<lambda>env. (de_path_var env, platform_from (de_os env)))) (\<lambda>(path_var, platform). check_tool path_var WG platform)"

section \<open>Running them\<close>

definition run_cmd :: "cmd \<Rightarrow> rstr option \<Rightarrow> ('h, wg_error, rstr) run" where
  "run_cmd c input = (\<lambda>env s. (de_wg env c input (w_fs (si_world s)), s))"

definition generate_keypair :: "('h, wg_error, private_key \<times> rstr) run" where
  "generate_keypair =
    run_bind (run_cmd genkey None) (\<lambda>private.
    run_bind (run_lift (map_err WgBadKey (parse_key private))) (\<lambda>private.
    run_bind (run_cmd pubkey (Some private)) (\<lambda>public.
    run_bind (run_lift (map_err WgBadKey (parse_key public))) (\<lambda>public.
    run_return (PrivateKey private, public)))))"

definition bring_up :: "path \<Rightarrow> ('h, wg_error, rstr) run" where
  "bring_up config = run_cmd (quick_up config) None"

definition stripped_config :: "path \<Rightarrow> rstr \<Rightarrow> ('h, wg_error, rstr) run" where
  "stripped_config config text = run_cmd (quick_strip config) None"

end
