(* ===== verification/JoinRun.thy ===== *)
theory JoinRun
  imports WgRun
begin

text \<open>
  \<open>crates/anago/src/join.rs\<close>, the runs: \<open>anago join\<close> from the checks before the code is spent to the
  files written after the hub's answer, the claims that hold the two names meanwhile, the undo on
  the hub, and \<open>--export\<close>, which writes nothing but the file it was told to.
\<close>

section \<open>Claims\<close>

definition CLAIM_MARKER :: rstr where
  "CLAIM_MARKER = lit ''# anago: unfinished join '' @ [0x2014] @ lit '' safe to delete'' @ [10]"

definition is_stale_claim :: "rstr \<Rightarrow> bool" where
  "is_stale_claim contents \<longleftrightarrow> contents = CLAIM_MARKER"

definition save_error :: "rstr \<Rightarrow> target \<Rightarrow> io_err \<Rightarrow> join_error" where
  "save_error what target e = Save what target (fst e) (snd e)"

definition occupied_at :: "dir_handle \<Rightarrow> rstr \<Rightarrow> bool io" where
  "occupied_at d name =
    io_bind (io_catch (dir_read_to_string d name)) (\<lambda>r.
      case r of
        Inr contents \<Rightarrow> io_return (\<not> is_stale_claim contents)
      | Inl _ \<Rightarrow> io_bind (io_catch (dir_exists d name)) (\<lambda>r. io_return (case r of Inr b \<Rightarrow> b | Inl _ \<Rightarrow> False)))"

definition occupied :: "path \<Rightarrow> bool io" where
  "occupied p =
    io_bind (io_catch (fs_read_to_string p)) (\<lambda>r.
      case r of
        Inr contents \<Rightarrow> io_return (\<not> is_stale_claim contents)
      | Inl _ \<Rightarrow> path_exists p)"

text \<open>Neither question ever fails; a failure to look is an answer.\<close>

definition check_not_joined :: "dir_handle \<Rightarrow> client_paths \<Rightarrow> path \<Rightarrow> ('h, join_error, unit) run" where
  "check_not_joined d paths wg_config =
    run_bind (run_catch (on_files (occupied_at d DEVICE_FILE))) (\<lambda>taken.
    if taken = Inr True then run_throw (AlreadyJoined (device_file paths) wg_config)
    else
      run_bind (run_catch (on_files (occupied wg_config))) (\<lambda>taken.
      if taken = Inr True then run_throw (ConfigExists wg_config) else run_return ()))"

definition claim_system :: "path \<Rightarrow> ('h, join_error, unit) run" where
  "claim_system p =
    run_bind (run_catch (on_files (create_new_private p CLAIM_MARKER))) (\<lambda>created.
      case created of
        Inr _ \<Rightarrow> run_return ()
      | Inl e \<Rightarrow>
          if fst e = IoAlreadyExists then
            run_bind (run_catch (on_files (fs_read_to_string p))) (\<lambda>existing.
              if is_stale_claim (case existing of Inr t \<Rightarrow> t | Inl _ \<Rightarrow> []) then
                run_map_err (save_error (lit ''a config file'') (system_file p)) (on_files (write_private p CLAIM_MARKER))
              else run_throw (ConfigExists p))
          else run_throw (save_error (lit ''a config file'') (system_file p) e))"

definition claim_user ::
  "dir_handle \<Rightarrow> rstr \<Rightarrow> client_paths \<Rightarrow> path \<Rightarrow> (nat \<times> nat) option \<Rightarrow> ('h, join_error, unit) run"
where
  "claim_user d name paths wg_config owner =
    run_bind (run_catch (on_files (dir_create_new_private d name CLAIM_MARKER owner))) (\<lambda>created.
      case created of
        Inr _ \<Rightarrow> run_return ()
      | Inl e \<Rightarrow>
          if fst e = IoAlreadyExists then
            run_bind (run_catch (on_files (dir_read_to_string d name))) (\<lambda>existing.
              if is_stale_claim (case existing of Inr t \<Rightarrow> t | Inl _ \<Rightarrow> []) then
                run_map_err (save_error (lit ''a config file'') (user_file (device_file paths)))
                  (on_files (dir_write_private d name CLAIM_MARKER owner))
              else run_throw (AlreadyJoined (device_file paths) wg_config))
          else run_throw (save_error (lit ''a config file'') (user_file (device_file paths)) e))"

text \<open>The reservation's \<open>Drop\<close>: what a join that did not finish takes away again.\<close>

definition release :: "dir_handle \<Rightarrow> path \<Rightarrow> bool \<Rightarrow> unit io" where
  "release d wg_config device_claimed =
    io_then (io_ignore (sys_unlink wg_config))
      (if device_claimed then io_ignore (dir_remove d DEVICE_FILE) else io_return ())"

text \<open>
  \<open>Reservation::claim\<close>, the rest of the run while it is held, and its \<open>Drop\<close> unless the rest
  committed, that is returned a value.
\<close>

definition while_reserved ::
  "dir_handle \<Rightarrow> client_paths \<Rightarrow> path \<Rightarrow> (nat \<times> nat) option \<Rightarrow> ('h, join_error, 'a) run \<Rightarrow> ('h, join_error, 'a) run"
where
  "while_reserved d paths wg_config owner body =
    run_then (claim_system wg_config) (
    run_bind (run_catch (claim_user d DEVICE_FILE paths wg_config owner)) (\<lambda>claimed.
      case claimed of
        Inl e \<Rightarrow> run_then (run_catch (on_files (release d wg_config False))) (run_throw e)
      | Inr _ \<Rightarrow>
          run_bind (run_catch body) (\<lambda>r.
            case r of
              Inr x \<Rightarrow> run_return x
            | Inl e \<Rightarrow> run_then (run_catch (on_files (release d wg_config True))) (run_throw e))))"

section \<open>The directory and the lock\<close>

definition is_symlink_loop :: "io_err \<Rightarrow> bool" where
  "is_symlink_loop e \<longleftrightarrow> fst e = fst link_loop"

definition prepare_client_dir :: "client_paths \<Rightarrow> invoking_user option \<Rightarrow> ('h, join_error, dir_handle) run" where
  "prepare_client_dir paths invoking =
    (let dir = client_dir paths; failed = save_error (lit ''the config directory'') (user_directory dir) in
     case invoking of
       None \<Rightarrow>
         run_then (run_map_err failed (on_files (ensure_private_dir dir))) (run_map_err failed (on_files (dir_open dir)))
     | Some user \<Rightarrow>
         run_bind (run_catch (on_files (dir_open_owned dir (iu_uid user)))) (\<lambda>opened.
           case opened of
             Inr handle \<Rightarrow> run_return handle
           | Inl e \<Rightarrow>
               if fst e = IoNotFound then run_throw (JoinNoConfigDir dir)
               else if fst e = IoPermissionDenied \<or> fst e = IoNotADirectory \<or> is_symlink_loop e then
                 run_throw (UnsafeConfigDir dir)
               else run_throw (failed e)))"

definition owner_of_user :: "invoking_user option \<Rightarrow> (nat \<times> nat) option" where
  "owner_of_user invoking = map_option (\<lambda>user. (iu_uid user, iu_gid user)) invoking"

definition acquire_join_lock :: "dir_handle \<Rightarrow> invoking_user option \<Rightarrow> ('h, join_error, unit) run" where
  "acquire_join_lock d invoking =
    run_bind (run_map_err (save_error (lit ''the join lock'') (user_file (path_join (dh_path d) JOIN_LOCK)))
      (on_files (dir_try_lock d JOIN_LOCK (owner_of_user invoking)))) (\<lambda>taken.
    if taken then run_return () else run_throw AlreadyRunning)"

section \<open>After the hub's answer\<close>

definition publish ::
  "device_config \<Rightarrow> client_profile \<Rightarrow> dir_handle \<Rightarrow> client_paths \<Rightarrow> path \<Rightarrow> (nat \<times> nat) option \<Rightarrow> ('h, join_error, unit) run"
where
  "publish config profile d paths wg_config owner =
    run_then (run_map_err (save_error (lit ''the WireGuard config'') (system_file wg_config))
      (on_files (write_private wg_config (expose (client_config profile))))) (
    run_bind (run_catch (on_files (dir_write_private d DEVICE_FILE (device_to_json_string config) owner))) (\<lambda>written.
      case written of
        Inr _ \<Rightarrow> run_return ()
      | Inl e \<Rightarrow>
          run_then (run_catch (on_files (sys_unlink wg_config)))
            (run_throw (save_error (lit ''the device file'') (user_file (device_file paths)) e))))"

definition finish ::
  "unicode \<Rightarrow> rstr \<Rightarrow> rstr \<Rightarrow> 16 word \<Rightarrow> private_key \<Rightarrow> dir_handle \<Rightarrow> client_paths \<Rightarrow> path \<Rightarrow> (nat \<times> nat) option
    \<Rightarrow> ('h, join_error, device_config) run"
where
  "finish u body domain api_port key d paths wg_config owner =
    run_bind (run_lift (accepted u body domain api_port key)) (\<lambda>(config, profile).
    run_then (publish config profile d paths wg_config owner) (run_return config))"

section \<open>Undoing a registration\<close>

definition delete_request :: "rstr \<Rightarrow> 16 word \<Rightarrow> device_name \<Rightarrow> device_token \<Rightarrow> client_request" where
  "delete_request domain api_port name token =
    \<lparr>rq_method = Delete, rq_host = domain, rq_port = api_port,
      rq_path = PATH_PEERS @ lit ''/'' @ encode_segment (name_str name),
      rq_body = None, rq_authorization = Some (device_header (token_str token))\<rparr>"

definition undo_registration ::
  "unicode \<Rightarrow> rstr \<Rightarrow> 16 word \<Rightarrow> device_name \<Rightarrow> device_token \<Rightarrow> ('h, join_error, unit) run"
where
  "undo_registration u domain api_port name token =
    run_bind (run_map_err JoinClient (ask (delete_request domain api_port name token))) (\<lambda>response.
    if is_success response then run_return ()
    else run_throw (JoinRefused (explain_join u (cr_status response) (cr_body response))))"

datatype undo_outcome = UndoDone | UndoFailed rstr | UndoUnknown

fun recovery_note :: "undo_outcome \<Rightarrow> rstr" where
  "recovery_note UndoDone =
     lit ''the hub has been told to forget this device, so the same command can be ''
     @ lit ''run again once the problem is fixed (the join code, though, is spent '' @ [0x2014] @ lit '' get ''
     @ lit ''another with `anago code`)''"
| "recovery_note (UndoFailed name) =
     lit ''the hub still lists '' @ name @ lit '' '' @ [0x2014] @ lit '' remove it there with `anago rm '' @ name @ lit ''` before ''
     @ lit ''retrying, and get a fresh code with `anago code`''"
| "recovery_note UndoUnknown =
     lit ''the hub may have registered this device under a name this build ''
     @ lit ''could not read '' @ [0x2014] @ lit '' check `anago ls` on the server and `anago rm` it before ''
     @ lit ''retrying, with a fresh code from `anago code`''"

definition NOTHING_SAVED :: rstr where "NOTHING_SAVED = lit ''nothing could be saved on this machine''"
definition NOTHING_HANDED_OVER :: rstr where "NOTHING_HANDED_OVER = lit ''the config never reached the phone''"

definition post_registration ::
  "unicode \<Rightarrow> rstr \<Rightarrow> rstr \<Rightarrow> 16 word \<Rightarrow> rstr \<Rightarrow> join_error \<Rightarrow> ('h, join_error, 'a) run"
where
  "post_registration u body domain api_port what cause =
    run_bind
      (case undo_credentials u body of
         Some (name, token) \<Rightarrow>
           run_bind (run_catch (undo_registration u domain api_port name token)) (\<lambda>r.
             run_return (case r of Inr _ \<Rightarrow> UndoDone | Inl _ \<Rightarrow> UndoFailed (name_str name)))
       | None \<Rightarrow> run_return UndoUnknown)
      (\<lambda>outcome. run_throw (SavedNothing what (join_error_show u cause) (recovery_note outcome)))"

section \<open>anago join\<close>

definition join_http_request :: "rstr \<Rightarrow> 16 word \<Rightarrow> rstr \<Rightarrow> client_request" where
  "join_http_request domain api_port body =
    \<lparr>rq_method = Post, rq_host = domain, rq_port = api_port, rq_path = PATH_JOIN,
      rq_body = Some (json_body body), rq_authorization = None\<rparr>"

text \<open>What runs while the reservation is held.\<close>

definition register ::
  "unicode \<Rightarrow> rstr \<Rightarrow> join_code \<Rightarrow> device_name \<Rightarrow> 16 word \<Rightarrow> dir_handle \<Rightarrow> client_paths \<Rightarrow> path \<Rightarrow> (nat \<times> nat) option
    \<Rightarrow> ('h, join_error, device_config) run"
where
  "register u domain code name api_port d paths wg_config owner =
    run_bind (run_map_err JoinWg generate_keypair) (\<lambda>(private_key, public_key).
    run_bind (run_map_err JoinClient (ask (join_http_request domain api_port (join_body code name public_key)))) (\<lambda>response.
    if \<not> is_success response then
      run_throw (JoinRefused (explain_join u (cr_status response) (cr_body response)))
    else
      run_bind (run_catch (finish u (cr_body response) domain api_port private_key d paths wg_config owner)) (\<lambda>finished.
        case finished of
          Inr config \<Rightarrow> run_return config
        | Inl e \<Rightarrow> post_registration u (cr_body response) domain api_port NOTHING_SAVED e)))"

definition join_run ::
  "unicode \<Rightarrow> rstr \<Rightarrow> join_code \<Rightarrow> device_name option \<Rightarrow> 16 word \<Rightarrow> client_paths \<Rightarrow> path \<Rightarrow> invoking_user option
    \<Rightarrow> ('h, join_error, device_config) run"
where
  "join_run u domain code name api_port paths wg_config invoking =
    run_then (run_map_err JoinWg check_tools_from_env) (
    run_bind (run_env de_hostname) (\<lambda>hostname.
    run_bind (run_lift (ok_or NoName
      (case name of Some n \<Rightarrow> Some n | None \<Rightarrow> Option.bind hostname (name_from_hostname u)))) (\<lambda>name.
    run_bind (prepare_client_dir paths invoking) (\<lambda>d.
    run_then (acquire_join_lock d invoking) (
    run_then (check_not_joined d paths wg_config) (
    run_then
      (case path_parent wg_config of
         None \<Rightarrow> run_return ()
       | Some parent \<Rightarrow>
           run_map_err (save_error (lit ''the WireGuard directory'') (system_directory parent)) (on_files (ensure_private_dir parent))) (
    while_reserved d paths wg_config (owner_of_user invoking)
      (register u domain code name api_port d paths wg_config (owner_of_user invoking)))))))))"

end
