(* ===== verification/FsFrame.thy ===== *)
theory FsFrame
  imports FsPair
begin

text \<open>
  Which names an operation can change: \<open>confined env T m\<close> says that whatever fails, running \<open>m\<close> leaves
  everything outside \<open>T\<close> as it was. The rules for the steps of a program are those of the logic,
  the rules for the writes follow from what they promise.
\<close>

named_theorems confined_rules "operations and the names they can change"

definition confined :: "sys_env \<Rightarrow> path set \<Rightarrow> 'a io \<Rightarrow> bool" where
  "confined env T m \<longleftrightarrow> (\<forall>w. fs_ok (w_fs w) \<longrightarrow>
    fs_ok (w_fs (snd (m env w))) \<and> (\<forall>q. q \<notin> T \<longrightarrow> look (w_fs (snd (m env w))) q = look (w_fs w) q))"

lemma confined_wp:
  assumes "confined env T m" "fs_ok (w_fs w)"
  shows "wp env m (\<lambda>_ w'. fs_ok (w_fs w') \<and> (\<forall>q. q \<notin> T \<longrightarrow> look (w_fs w') q = look (w_fs w) q))
    (\<lambda>_ w'. fs_ok (w_fs w') \<and> (\<forall>q. q \<notin> T \<longrightarrow> look (w_fs w') q = look (w_fs w) q)) w"
  using assms by (auto simp: confined_def wp_def split: prod.split sum.split)

lemma confinedI:
  assumes "\<And>w. fs_ok (w_fs w) \<Longrightarrow>
    wp env m (\<lambda>_ w'. fs_ok (w_fs w') \<and> (\<forall>q. q \<notin> T \<longrightarrow> look (w_fs w') q = look (w_fs w) q))
      (\<lambda>_ w'. fs_ok (w_fs w') \<and> (\<forall>q. q \<notin> T \<longrightarrow> look (w_fs w') q = look (w_fs w) q)) w"
  shows "confined env T m"
  unfolding confined_def
proof (intro allI impI)
  fix w :: world
  assume "fs_ok (w_fs w)"
  from assms [OF this]
  show "fs_ok (w_fs (snd (m env w))) \<and> (\<forall>q. q \<notin> T \<longrightarrow> look (w_fs (snd (m env w))) q = look (w_fs w) q)"
    by (simp add: wp_def split: prod.splits sum.splits)
qed

lemma confined_mono: "confined env S m \<Longrightarrow> S \<subseteq> T \<Longrightarrow> confined env T m"
  by (auto simp: confined_def)

lemma confined_return [confined_rules]: "confined env T (io_return x)"
  by (simp add: confined_def io_return_def)

lemma confined_throw [confined_rules]: "confined env T (io_throw e)"
  by (simp add: confined_def io_throw_def)

lemma confined_asks [confined_rules]: "confined env T (io_asks g)"
  by (simp add: confined_def io_asks_def)

lemma confined_bind [confined_rules]:
  assumes "confined env T m" "\<And>x. confined env T (f x)"
  shows "confined env T (io_bind m f)"
proof (rule confinedI, unfold wp_bind, rule wp_mono [OF confined_wp [OF assms(1)]])
  fix w w' :: world and x
  assume w': "fs_ok (w_fs w') \<and> (\<forall>q. q \<notin> T \<longrightarrow> look (w_fs w') q = look (w_fs w) q)"
  show "wp env (f x) (\<lambda>_ w'. fs_ok (w_fs w') \<and> (\<forall>q. q \<notin> T \<longrightarrow> look (w_fs w') q = look (w_fs w) q))
      (\<lambda>_ w'. fs_ok (w_fs w') \<and> (\<forall>q. q \<notin> T \<longrightarrow> look (w_fs w') q = look (w_fs w) q)) w'"
    by (rule wp_mono [OF confined_wp [OF assms(2)]]) (use w' in auto)
qed auto

lemma confined_then [confined_rules]: "confined env T m \<Longrightarrow> confined env T k \<Longrightarrow> confined env T (io_then m k)"
  by (simp add: io_then_def confined_bind)

lemma confined_catch [confined_rules]: "confined env T m \<Longrightarrow> confined env T (io_catch m)"
  by (auto simp: confined_def io_catch_def split: prod.split)

lemma confined_ignore [confined_rules]: "confined env T m \<Longrightarrow> confined env T (io_ignore m)"
  by (simp add: io_ignore_def confined_bind confined_catch confined_return)

lemma confined_if [confined_rules]: "confined env T m \<Longrightarrow> confined env T k \<Longrightarrow> confined env T (if c then m else k)"
  by simp

lemma confined_sum [confined_rules]:
  "(\<And>e. confined env T (f e)) \<Longrightarrow> (\<And>x. confined env T (g x)) \<Longrightarrow> confined env T (case r of Inl e \<Rightarrow> f e | Inr x \<Rightarrow> g x)"
  by (cases r) simp_all

lemma confined_option [confined_rules]:
  "confined env T f \<Longrightarrow> (\<And>x. confined env T (g x)) \<Longrightarrow> confined env T (case r of None \<Rightarrow> f | Some x \<Rightarrow> g x)"
  by (cases r) simp_all

lemma confined_prod [confined_rules]: "(\<And>a b. confined env T (f a b)) \<Longrightarrow> confined env T (case r of (a, b) \<Rightarrow> f a b)"
  by (cases r) simp_all

lemma confined_call:
  assumes "\<And>s x s'. fs_ok s \<Longrightarrow> effect env s = Inr (x, s') \<Longrightarrow> fs_ok s' \<and> (\<forall>q. q \<notin> T \<longrightarrow> look s' q = look s q)"
  shows "confined env T (sys_call effect)"
  using assms by (intro confinedI) (auto simp: wp_call split: option.split sum.split)

lemma confined_look_only: "(\<And>s x s'. effect env s = Inr (x, s') \<Longrightarrow> s' = s) \<Longrightarrow> confined env T (sys_call effect)"
  by (rule confined_call) blast

lemma confined_unlink [confined_rules]: "p \<in> T \<Longrightarrow> confined env T (sys_unlink p)"
  unfolding sys_unlink_def
  by (rule confined_call) (auto simp: look_name split: option.splits entry.splits)

lemma confined_open [confined_rules]: "confined env T (sys_open p)"
  unfolding sys_open_def by (rule confined_look_only) (auto split: option.splits entry.splits)

lemma confined_read_fd [confined_rules]: "confined env T (sys_read_fd i)"
  unfolding sys_read_fd_def by (rule confined_look_only) auto

lemma confined_read [confined_rules]: "confined env T (sys_read p)"
  unfolding sys_read_def by (rule confined_look_only) (auto split: option.splits entry.splits sum.splits)

lemma confined_lstat [confined_rules]: "confined env T (sys_lstat p)"
  unfolding sys_lstat_def by (rule confined_look_only) (auto split: option.splits entry.splits)

lemma confined_open_dir [confined_rules]: "confined env T (sys_open_dir p)"
  unfolding sys_open_dir_def by (rule confined_look_only) (auto split: option.splits entry.splits)

lemma confined_try_lock [confined_rules]: "confined env T (sys_try_lock p)"
  unfolding sys_try_lock_def by (rule confined_look_only) auto

lemma confined_chmod_dir [confined_rules]: "confined env T (sys_chmod_dir p m)"
  unfolding sys_chmod_dir_def by (rule confined_look_only) auto

lemma confined_mkdir [confined_rules]: "p \<in> T \<Longrightarrow> confined env T (sys_mkdir_all p)"
  unfolding sys_mkdir_all_def
  by (rule confined_call) (auto simp: look_name fs_ok_def split: option.splits entry.splits if_splits)

lemma confined_as_text [confined_rules]: "confined env T (as_text b)"
  unfolding as_text_def by (intro confined_rules)

lemma confined_c_name [confined_rules]: "confined env T (c_name d m)"
  unfolding c_name_def by (intro confined_rules)

lemma confined_exists [confined_rules]: "confined env T (path_exists p)"
  unfolding path_exists_def by (intro confined_rules confined_look_only) auto

lemma confined_read_to_string [confined_rules]: "confined env T (fs_read_to_string p)"
  unfolding fs_read_to_string_def by (intro confined_rules)

lemma confined_dir_read [confined_rules]: "confined env T (dir_read_to_string d m)"
  unfolding dir_read_to_string_def by (intro confined_rules)

lemma confined_dir_exists [confined_rules]: "confined env T (dir_exists d m)"
  unfolding dir_exists_def by (intro confined_rules)

lemma confined_dir_open [confined_rules]: "confined env T (dir_open p)"
  unfolding dir_open_def by (intro confined_rules)

lemma confined_dir_open_owned [confined_rules]: "confined env T (dir_open_owned p uid)"
  unfolding dir_open_owned_def dir_owner_def by (intro confined_rules confined_look_only) auto

lemma confined_ensure_dir [confined_rules]: "p \<in> T \<Longrightarrow> confined env T (ensure_private_dir p)"
  unfolding ensure_private_dir_def by (intro confined_rules)

section \<open>Writes\<close>

lemma harmless_start: "fs_ok (w_fs w) \<Longrightarrow> harmless (\<lambda>_. True) (w_fs w) tmp mode w"
  by (simp add: harmless_def scratched_refl traced_def)

lemma scratched_frame: "scratched s0 tmp mode s \<Longrightarrow> tmp \<in> T \<Longrightarrow> fs_ok s \<and> (\<forall>q. q \<notin> T \<longrightarrow> look s q = look s0 q)"
  by (intro conjI allI impI; (erule scratched_look)?) (auto simp: scratched_def)

lemma published_frame:
  "published s0 p tmp new s \<Longrightarrow> p \<in> T \<Longrightarrow> tmp \<in> T \<Longrightarrow> fs_ok s \<and> (\<forall>q. q \<notin> T \<longrightarrow> look s q = look s0 q)"
  by (intro conjI allI impI) (metis published_def)+

lemma placed_frame:
  "placed s0 p tmp new s \<Longrightarrow> p \<in> T \<Longrightarrow> tmp \<in> T \<Longrightarrow> fs_ok s \<and> (\<forall>q. q \<notin> T \<longrightarrow> look s q = look s0 q)"
  by (intro conjI allI impI) (metis placed_def)+

lemma confined_write_private_owned [confined_rules]:
  assumes "path_file_name p = Some n" "p \<in> T" "path_with_file_name p (n @ lit ''.tmp'') \<in> T"
  shows "confined env T (write_private_owned p contents owner)"
  by (intro confinedI wp_mono [OF wp_write_private_owned [OF assms(1) refl harmless_start]])
    (use assms in \<open>auto dest: published_frame scratched_frame harmless_scratched\<close>)

lemma confined_create_new_private [confined_rules]:
  assumes "path_file_name p = Some n" "p \<in> T" "path_with_file_name p (n @ create_sibling env) \<in> T"
  shows "confined env T (create_new_private_owned p contents owner)"
  by (intro confinedI wp_mono [OF wp_create_new_private_owned [OF assms(1) refl harmless_start]])
    (use assms in \<open>auto dest: placed_frame scratched_frame harmless_scratched\<close>)

lemma confined_dir_write_private [confined_rules]:
  assumes "component m" "path_join (dh_path d) m \<in> T" "path_join (dh_path d) (m @ create_sibling env) \<in> T"
  shows "confined env T (dir_write_private d m contents owner)"
  by (intro confinedI wp_mono [OF wp_dir_write_private [OF assms(1) refl refl harmless_start]])
    (use assms in \<open>auto dest: published_frame scratched_frame harmless_scratched\<close>)

lemma confined_dir_create_new_private [confined_rules]:
  assumes "component m" "path_join (dh_path d) m \<in> T" "path_join (dh_path d) (m @ create_sibling env) \<in> T"
  shows "confined env T (dir_create_new_private d m contents owner)"
  by (intro confinedI wp_mono [OF wp_dir_create_new_private [OF assms(1) refl refl harmless_start]])
    (use assms in \<open>auto dest: placed_frame scratched_frame harmless_scratched\<close>)

lemma confined_dir_remove [confined_rules]:
  assumes "component m" "path_join (dh_path d) m \<in> T"
  shows "confined env T (dir_remove d m)"
proof -
  have "dir_remove d m = (\<lambda>e. sys_unlink (path_join (dh_path d) m) e)"
    using assms(1) by (auto simp: dir_remove_def c_name_def io_bind_def io_asks_def io_return_def component_def fun_eq_iff)
  then show ?thesis using confined_unlink [OF assms(2)] by simp
qed

text \<open>A lock file is made or opened; an owner is given to one that was made.\<close>

lemma confined_dir_try_lock [confined_rules]:
  assumes "component m" "path_join (dh_path d) m \<in> T"
  shows "confined env T (dir_try_lock d m owner)"
proof -
  let ?p = "path_join (dh_path d) m"
  let ?Q = "\<lambda>s0 _ w'. fs_ok (w_fs w') \<and> (\<forall>q. q \<notin> T \<longrightarrow> look (w_fs w') q = look s0 q)"
  have attempt_lock: "wp env (sys_try_lock ?p) (?Q s) (?Q s) w'" if "?Q s () w'" for s w'
    using that by (auto simp: sys_try_lock_def wp_call split: option.split)
  have after: "?Q s () w'" if "harmless (\<lambda>_. True) s ?p PRIVATE_FILE_MODE w'" for s w'
    using scratched_frame [OF harmless_scratched [OF that] assms(2)] by simp
  show ?thesis
  proof (rule confinedI, unfold dir_try_lock_def wp_bind wp_c_name [OF assms(1)] wp_catch,
      rule wp_mono [OF wp_create_scratch [OF harmless_start]], goal_cases)
    case (2 w i w')
    then have w: "writing (\<lambda>_. True) (w_fs w) ?p PRIVATE_FILE_MODE i (fresh_file (dir_mode env) (se_self env)) w'"
      by (simp add: writing_def dir_mode_def)
    have give: "wp env (give_fd_to i owner) (\<lambda>_ w'. harmless (\<lambda>_. True) (w_fs w) ?p PRIVATE_FILE_MODE w')
      (\<lambda>_ w'. harmless (\<lambda>_. True) (w_fs w) ?p PRIVATE_FILE_MODE w') w'"
      using w by (auto simp: give_fd_to_def sys_fchown_def wp_simps fresh_file_def dir_mode_def mask_clear
          split: option.split intro!: wp_mono [OF wp_file_step [where P' = "\<lambda>f. True"]] dest: writing_harmless)
    show ?case
      unfolding sum.case wp_then
      by (rule wp_mono [OF give]) (use after attempt_lock in auto)
  next
    case (3 w e w')
    note a = after [OF 3(2)]
    then show ?case
      using attempt_lock
      by (auto simp: wp_simps sys_open_def wp_call split: prod.split option.split entry.split)
  qed auto
qed

lemma confined_lock_acquire [confined_rules]:
  assumes "p \<in> T"
  shows "confined env T (lock_acquire p)"
proof -
  let ?Q = "\<lambda>s0 _ w'. fs_ok (w_fs w') \<and> (\<forall>q. q \<notin> T \<longrightarrow> look (w_fs w') q = look s0 q)"
  have after: "?Q s () w'" if "harmless (\<lambda>_. True) s p PRIVATE_FILE_MODE w'" for s w'
    using scratched_frame [OF harmless_scratched [OF that] assms] by simp
  have create: "wp env (create_new_with p PRIVATE_FILE_MODE) (?Q (w_fs w)) (?Q (w_fs w)) w" if "fs_ok (w_fs w)" for w
    by (rule wp_mono [OF wp_create_new [OF harmless_start [OF that]]]) (use after in \<open>auto dest: writing_harmless\<close>)
  show ?thesis
    unfolding lock_acquire_def lock_file_def
    by (rule confinedI, unfold wp_then wp_bind wp_catch, rule wp_mono [OF create])
      (auto simp: wp_simps sys_open_def sys_lock_def wp_call split: prod.split option.split entry.split)
qed

end
