(* ===== verification/RunLogic.thy ===== *)
theory RunLogic
  imports WgRun FsFrame
begin

text \<open>
  What a run of a command does, by its steps: \<open>rp\<close> is the weakest precondition over the outcome and
  the site, with the logic of the file operations below it. \<open>frame\<close> says which names may have changed,
  \<open>lessened\<close> that they can only be gone.
\<close>

section \<open>Running a command\<close>

named_theorems rp_simps "running a command one step"

definition rp :: "'h dev_env \<Rightarrow> ('h, 'e, 'a) run \<Rightarrow> ('a \<Rightarrow> 'h site \<Rightarrow> bool) \<Rightarrow> ('e \<Rightarrow> 'h site \<Rightarrow> bool) \<Rightarrow> 'h site \<Rightarrow> bool" where
  "rp env m Q R s = (case m env s of (Inr x, s') \<Rightarrow> Q x s' | (Inl e, s') \<Rightarrow> R e s')"

lemma rp_return [rp_simps]: "rp env (run_return x) Q R = Q x"
  by (simp add: fun_eq_iff rp_def run_return_def)

lemma rp_throw [rp_simps]: "rp env (run_throw e) Q R = R e"
  by (simp add: fun_eq_iff rp_def run_throw_def)

lemma rp_bind [rp_simps]: "rp env (run_bind m f) Q R = rp env m (\<lambda>x. rp env (f x) Q R) R"
  by (simp add: fun_eq_iff rp_def run_bind_def split: prod.splits sum.splits)

lemma rp_then [rp_simps]: "rp env (run_then m k) Q R = rp env m (\<lambda>_. rp env k Q R) R"
  by (simp add: run_then_def rp_simps)

lemma rp_catch [rp_simps]: "rp env (run_catch m) Q R = rp env m (\<lambda>x. Q (Inr x)) (\<lambda>e. Q (Inl e))"
  by (simp add: fun_eq_iff rp_def run_catch_def split: prod.splits sum.splits)

lemma rp_lift [rp_simps]: "rp env (run_lift r) Q R = (case r of Inl e \<Rightarrow> R e | Inr x \<Rightarrow> Q x)"
  by (cases r) (simp_all add: fun_eq_iff rp_def run_lift_def)

lemma rp_env [rp_simps]: "rp env (run_env f) Q R = Q (f env)"
  by (simp add: fun_eq_iff rp_def run_env_def)

lemma rp_map_err [rp_simps]: "rp env (run_map_err f m) Q R = rp env m Q (\<lambda>e. R (f e))"
  by (simp add: fun_eq_iff rp_def run_map_err_def map_err_def split: prod.splits sum.splits)

lemma rp_if [rp_simps]: "rp env (if c then m else n) Q R = (if c then rp env m Q R else rp env n Q R)"
  by simp

lemma rp_on_files:
  "rp env (on_files m) Q R s =
    wp (de_sys env) m (\<lambda>x w. Q x (s\<lparr>si_world := w\<rparr>)) (\<lambda>e w. R e (s\<lparr>si_world := w\<rparr>)) (si_world s)"
  by (simp add: rp_def on_files_def wp_def split: prod.splits sum.splits)

lemma rp_mono:
  "rp env m Q R s \<Longrightarrow> (\<And>x s'. Q x s' \<Longrightarrow> Q' x s') \<Longrightarrow> (\<And>e s'. R e s' \<Longrightarrow> R' e s') \<Longrightarrow> rp env m Q' R' s"
  by (auto simp: rp_def split: prod.splits sum.splits)

abbreviation files :: "'h site \<Rightarrow> fs" where
  "files s \<equiv> w_fs (si_world s)"

definition frame :: "fs \<Rightarrow> path set \<Rightarrow> fs \<Rightarrow> bool" where
  "frame s0 T s \<longleftrightarrow> fs_ok s0 \<and> fs_ok s \<and> (\<forall>q. q \<notin> T \<longrightarrow> look s q = look s0 q)"

lemma frame_refl: "fs_ok s \<Longrightarrow> frame s T s"
  by (simp add: frame_def)

lemma frame_trans: "frame s0 T s \<Longrightarrow> frame s U s' \<Longrightarrow> frame s0 (T \<union> U) s'"
  by (simp add: frame_def)

lemma frame_mono: "frame s0 T s \<Longrightarrow> T \<subseteq> U \<Longrightarrow> frame s0 U s"
  by (auto simp: frame_def)

lemma frame_look: "frame s0 T s \<Longrightarrow> q \<notin> T \<Longrightarrow> look s q = look s0 q"
  by (simp add: frame_def)

lemma frame_ok: "frame s0 T s \<Longrightarrow> fs_ok s"
  by (simp add: frame_def)

lemma rp_confined:
  assumes "confined (de_sys env) T m" "fs_ok (files s)"
  shows "rp env (on_files m) (\<lambda>_ s'. frame (files s) T (files s') \<and> si_hub s' = si_hub s)
    (\<lambda>_ s'. frame (files s) T (files s') \<and> si_hub s' = si_hub s) s"
  unfolding rp_on_files by (rule wp_mono [OF confined_wp [OF assms]]) (use assms(2) in \<open>auto simp: frame_def\<close>)

section \<open>Reading back\<close>

lemma wp_as_text:
  "wp env (as_text b) (\<lambda>t w'. w' = w \<and> b = utf8 t) (\<lambda>_ w'. w' = w) w"
  by (auto simp: as_text_def wp_simps split: option.split dest: utf8_decode_sound)

lemma wp_fs_read_to_string:
  "wp env (fs_read_to_string p) (\<lambda>t w'. w_fs w' = w_fs w \<and> reads env (w_fs w) p = Some (utf8 t)) (\<lambda>_ w'. w_fs w' = w_fs w) w"
  unfolding fs_read_to_string_def wp_simps sys_read_def wp_call
  by (auto simp: reads_def look_def split: option.split entry.split sum.split intro!: wp_mono [OF wp_as_text])

lemma wp_dir_read_to_string:
  assumes "component m"
  shows "wp env (dir_read_to_string d m)
    (\<lambda>t w'. w_fs w' = w_fs w \<and> (\<exists>f. look (w_fs w) (path_join (dh_path d) m) = Some (Inl f) \<and> f_bytes f = utf8 t))
    (\<lambda>_ w'. w_fs w' = w_fs w) w"
  unfolding dir_read_to_string_def wp_bind wp_c_name [OF assms] sys_open_def sys_read_fd_def wp_call
  by (auto simp: look_def split: option.split entry.split sum.split intro!: wp_mono [OF wp_as_text])

lemma rp_fs_read_to_string:
  "rp env (on_files (fs_read_to_string p))
    (\<lambda>t s'. files s' = files s \<and> si_hub s' = si_hub s \<and> reads (de_sys env) (files s) p = Some (utf8 t))
    (\<lambda>_ s'. files s' = files s \<and> si_hub s' = si_hub s) s"
  unfolding rp_on_files by (rule wp_mono [OF wp_fs_read_to_string]) auto

lemma rp_dir_read_to_string:
  assumes "component m"
  shows "rp env (on_files (dir_read_to_string d m))
    (\<lambda>t s'. files s' = files s \<and> si_hub s' = si_hub s
      \<and> (\<exists>f. look (files s) (path_join (dh_path d) m) = Some (Inl f) \<and> f_bytes f = utf8 t))
    (\<lambda>_ s'. files s' = files s \<and> si_hub s' = si_hub s) s"
  unfolding rp_on_files by (rule wp_mono [OF wp_dir_read_to_string [OF assms]]) auto

text \<open>Names may be gone, nothing else changes.\<close>

definition lessened :: "fs \<Rightarrow> path set \<Rightarrow> fs \<Rightarrow> bool" where
  "lessened s0 T s \<longleftrightarrow> frame s0 T s \<and> (\<forall>q. look s q = look s0 q \<or> look s q = None)"

lemma lessened_trans: "lessened s0 T s \<Longrightarrow> lessened s U s' \<Longrightarrow> lessened s0 (T \<union> U) s'"
  unfolding lessened_def by (metis frame_trans)

lemma lessened_mono: "lessened s0 T s \<Longrightarrow> T \<subseteq> U \<Longrightarrow> lessened s0 U s"
  unfolding lessened_def by (metis frame_mono)

lemma wp_unlink_lessened:
  assumes "fs_ok (w_fs w)"
  shows "wp env (sys_unlink q) (\<lambda>_ w'. lessened (w_fs w) {q} (w_fs w')) (\<lambda>_ w'. lessened (w_fs w) {q} (w_fs w')) w"
  using assms by (auto simp: sys_unlink_def wp_call lessened_def frame_def look_name split: option.split entry.split)

lemma lessened_ok: "lessened s0 T s \<Longrightarrow> fs_ok s"
  by (simp add: lessened_def frame_def)

lemma lessened_look: "lessened s0 T s \<Longrightarrow> look s q = look s0 q \<or> look s q = None"
  by (simp add: lessened_def)

lemma rp_unlink:
  assumes "fs_ok (files s)"
  shows "rp env (run_catch (on_files (sys_unlink q)))
    (\<lambda>_ s'. si_hub s' = si_hub s \<and> lessened (files s) {q} (files s')) R s"
  unfolding rp_catch rp_on_files by (rule wp_mono [OF wp_unlink_lessened [OF assms]]) auto

lemma rp_confined_ignore:
  assumes "confined (de_sys env) T m" "fs_ok (files s)"
  shows "rp env (run_map_err f (on_files m)) (\<lambda>_ s'. si_hub s' = si_hub s \<and> frame (files s) T (files s'))
    (\<lambda>_ s'. si_hub s' = si_hub s \<and> frame (files s) T (files s')) s"
  unfolding rp_map_err by (rule rp_mono [OF rp_confined [OF assms]]) auto

section \<open>Looking for the tools\<close>

lemma rp_is_executable_file:
  assumes "fs_ok (files s)"
  shows "rp env (is_executable_file p) (\<lambda>_ s'. si_hub s' = si_hub s \<and> frame (files s) {} (files s'))
    (\<lambda>_ s'. si_hub s' = si_hub s \<and> frame (files s) {} (files s')) s"
  using assms frame_refl [OF assms]
  by (auto simp: rp_def is_executable_file_def on_files_def sys_call_def split: option.split)

lemma rp_first_executable:
  "fs_ok (files s) \<Longrightarrow> rp env (first_executable ps) (\<lambda>_ s'. si_hub s' = si_hub s \<and> frame (files s) {} (files s'))
    (\<lambda>_ s'. si_hub s' = si_hub s \<and> frame (files s) {} (files s')) s"
proof (induction ps arbitrary: s)
  case Nil
  then show ?case by (simp add: rp_simps frame_refl)
next
  case (Cons p ps)
  show ?case
    unfolding first_executable.simps rp_bind
  proof (rule rp_mono [OF rp_is_executable_file [OF Cons.prems]], goal_cases)
    case (1 found s1)
    then have "fs_ok (files s1)" by (simp add: frame_def)
    from 1 show ?case
      by (cases found) (auto simp: rp_simps frame_def intro!: rp_mono [OF Cons.IH [OF \<open>fs_ok (files s1)\<close>]])
  qed simp
qed

lemma rp_check_tool:
  "fs_ok (files s) \<Longrightarrow> rp env (check_tool path_var tool platform) (\<lambda>_ s'. si_hub s' = si_hub s \<and> frame (files s) {} (files s'))
    (\<lambda>_ s'. si_hub s' = si_hub s \<and> frame (files s) {} (files s')) s"
  unfolding check_tool_def find_in_path_def rp_bind
  by (rule rp_mono [OF rp_first_executable]) (auto simp: rp_simps)

lemma rp_check_tools:
  assumes ok: "fs_ok (files s)"
  shows "rp env check_tools_from_env (\<lambda>_ s'. si_hub s' = si_hub s \<and> frame (files s) {} (files s'))
    (\<lambda>_ s'. si_hub s' = si_hub s \<and> frame (files s) {} (files s')) s"
proof -
  have second: "rp env (check_tool path_var tool platform) (\<lambda>_ s'. si_hub s' = si_hub s \<and> frame (files s) {} (files s'))
      (\<lambda>_ s'. si_hub s' = si_hub s \<and> frame (files s) {} (files s')) s1"
    if "si_hub s1 = si_hub s" "frame (files s) {} (files s1)" for path_var tool platform s1
    by (rule rp_mono [OF rp_check_tool [OF frame_ok [OF that(2)]]]) (use that in \<open>auto simp: frame_def\<close>)
  show ?thesis
    unfolding check_tools_from_env_def check_tools_def rp_bind rp_env prod.case rp_then
    by (rule rp_mono [OF rp_check_tool [OF ok]]) (auto intro!: second)
qed

section \<open>Writing a private file\<close>

text \<open>The temporary sibling of a file that is replaced.\<close>

definition wg_temp :: "path \<Rightarrow> path" where
  "wg_temp p = path_with_file_name p (the (path_file_name p) @ lit ''.tmp'')"

lemma rp_write_wg:
  assumes "path_file_name p \<noteq> None" "fs_ok (files s)"
  shows "rp env (on_files (write_private p contents))
    (\<lambda>_ s'. si_hub s' = si_hub s \<and> frame (files s) {p, wg_temp p} (files s')
      \<and> look (files s') p = Some (Inl (finished (utf8 contents) PRIVATE_FILE_MODE (se_self (de_sys env)))))
    (\<lambda>_ s'. si_hub s' = si_hub s \<and> frame (files s) {wg_temp p} (files s')) s"
proof -
  obtain n where n: "path_file_name p = Some n" using assms(1) by auto
  then have temp: "wg_temp p = path_with_file_name p (n @ lit ''.tmp'')" by (simp add: wg_temp_def)
  show ?thesis
    unfolding write_private_def rp_on_files
    by (rule wp_mono [OF wp_write_private_owned [OF n temp harmless_start [OF assms(2)]]])
      (use assms(2) in \<open>auto simp: frame_def published_def given_def
        dest!: harmless_scratched scratched_frame [where T = "{wg_temp p}"]\<close>)
qed

section \<open>Asking the hub\<close>

text \<open>Nobody else touches the files while the hub is asked.\<close>

definition quiet :: "'h dev_env \<Rightarrow> bool" where
  "quiet env \<longleftrightarrow> (\<forall>s. de_meanwhile env s = s)"

lemma rp_ask:
  "quiet env \<Longrightarrow> rp env (ask rq)
    (\<lambda>r s'. files s' = files s \<and> de_send env rq (si_hub s) = (Inr r, si_hub s'))
    (\<lambda>e s'. files s' = files s \<and> de_send env rq (si_hub s) = (Inl e, si_hub s')) s"
  by (auto simp: rp_def ask_def quiet_def split: prod.split sum.split)

lemma rp_generate_keypair:
  "rp env generate_keypair (\<lambda>(key, public) s'. s' = s \<and> key_ok (private_key_str key) \<and> key_ok public) (\<lambda>_ s'. s' = s) s"
  unfolding generate_keypair_def rp_simps run_cmd_def
  by (auto simp: rp_def run_bind_def run_lift_def run_return_def map_err_def parse_key_iff split: sum.split prod.split)

section \<open>Names a run keeps within\<close>

lemma rp_put_err [rp_simps]: "rp env (put_err t) Q R s = Q () (s\<lparr>si_err := si_err s @ [t]\<rparr>)"
  by (simp add: rp_def put_err_def)

definition within :: "'h site \<Rightarrow> path set \<Rightarrow> 'h site \<Rightarrow> bool" where
  "within s T s' \<longleftrightarrow> si_hub s' = si_hub s \<and> frame (files s) T (files s')"

lemma within_trans: "within s T s' \<Longrightarrow> within s' U s'' \<Longrightarrow> within s (T \<union> U) s''"
  by (auto simp: within_def frame_def)

lemma within_step: "within s T s' \<Longrightarrow> within s' U s'' \<Longrightarrow> U \<subseteq> T \<Longrightarrow> within s T s''"
  by (auto simp: within_def frame_def)

lemma within_ok: "within s T s' \<Longrightarrow> fs_ok (files s')"
  by (simp add: within_def frame_def)

lemma within_refl: "fs_ok (files s) \<Longrightarrow> within s T s"
  by (simp add: within_def frame_refl)

text \<open>A run that keeps within some names, and the rules to see it.\<close>

definition keeps :: "'h dev_env \<Rightarrow> path set \<Rightarrow> ('h, 'e, 'a) run \<Rightarrow> bool" where
  "keeps env T m \<longleftrightarrow> (\<forall>s. fs_ok (files s) \<longrightarrow> rp env m (\<lambda>_ s'. within s T s') (\<lambda>_ s'. within s T s') s)"

named_theorems keeps_rules "runs and the names they keep within"

lemma keeps_rp: "keeps env T m \<Longrightarrow> within s T s1 \<Longrightarrow> rp env m (\<lambda>_ s'. within s T s') (\<lambda>_ s'. within s T s') s1"
  using within_ok [of s T s1] unfolding keeps_def
  by (auto elim!: rp_mono allE [of _ s1] intro: within_step)

lemma keepsI: "(\<And>s. fs_ok (files s) \<Longrightarrow> rp env m (\<lambda>_ s'. within s T s') (\<lambda>_ s'. within s T s') s) \<Longrightarrow> keeps env T m"
  by (simp add: keeps_def)

lemma keeps_mono: "keeps env S m \<Longrightarrow> S \<subseteq> T \<Longrightarrow> keeps env T m"
proof (rule keepsI)
  fix s :: "'a site"
  assume "keeps env S m" "S \<subseteq> T" and ok: "fs_ok (files s)"
  then show "rp env m (\<lambda>_ s'. within s T s') (\<lambda>_ s'. within s T s') s"
    by (intro rp_mono [OF keeps_rp [OF _ within_refl [OF ok]], of env S m]) (auto simp: within_def intro: frame_mono)
qed

lemma keeps_return [keeps_rules]: "keeps env T (run_return x)"
  by (rule keepsI) (simp add: rp_simps within_refl)

lemma keeps_throw [keeps_rules]: "keeps env T (run_throw e)"
  by (rule keepsI) (simp add: rp_simps within_refl)

lemma keeps_lift [keeps_rules]: "keeps env T (run_lift r)"
  by (rule keepsI) (simp add: rp_simps within_refl split: sum.split)

lemma keeps_env [keeps_rules]: "keeps env T (run_env f)"
  by (rule keepsI) (simp add: rp_simps within_refl)

lemma keeps_put_err [keeps_rules]: "keeps env T (put_err t)"
  by (rule keepsI) (simp add: rp_simps within_def frame_refl)

lemma keeps_bind [keeps_rules]: "keeps env T m \<Longrightarrow> (\<And>x. keeps env T (f x)) \<Longrightarrow> keeps env T (run_bind m f)"
  by (rule keepsI, unfold rp_bind, erule rp_mono [OF keeps_rp [OF _ within_refl]])
    (auto intro: keeps_rp)

lemma keeps_then [keeps_rules]: "keeps env T m \<Longrightarrow> keeps env T k \<Longrightarrow> keeps env T (run_then m k)"
  by (simp add: run_then_def keeps_bind)

lemma keeps_catch [keeps_rules]: "keeps env T m \<Longrightarrow> keeps env T (run_catch m)"
  by (simp add: keeps_def rp_catch)

lemma keeps_map_err [keeps_rules]: "keeps env T m \<Longrightarrow> keeps env T (run_map_err f m)"
  by (simp add: keeps_def rp_map_err)

lemma keeps_if [keeps_rules]: "keeps env T m \<Longrightarrow> keeps env T k \<Longrightarrow> keeps env T (if c then m else k)"
  by simp

lemma keeps_sum [keeps_rules]:
  "(\<And>e. keeps env T (f e)) \<Longrightarrow> (\<And>x. keeps env T (g x)) \<Longrightarrow> keeps env T (case r of Inl e \<Rightarrow> f e | Inr x \<Rightarrow> g x)"
  by (cases r) simp_all

lemma keeps_option [keeps_rules]:
  "keeps env T f \<Longrightarrow> (\<And>x. keeps env T (g x)) \<Longrightarrow> keeps env T (case r of None \<Rightarrow> f | Some x \<Rightarrow> g x)"
  by (cases r) simp_all

lemma keeps_on_files [keeps_rules]: "confined (de_sys env) T m \<Longrightarrow> keeps env T (on_files m)"
  by (rule keepsI, rule rp_mono [OF rp_confined]) (auto simp: within_def)

lemma keeps_run_cmd [keeps_rules]: "keeps env T (run_cmd c input)"
  by (rule keepsI, simp add: rp_def run_cmd_def within_refl split: sum.split)

lemma keeps_write_private [keeps_rules]:
  assumes "path_file_name p \<noteq> None" "p \<in> T" "wg_temp p \<in> T"
  shows "keeps env T (on_files (write_private p contents))"
proof -
  obtain n where n: "path_file_name p = Some n" using assms(1) by auto
  then show ?thesis
    using assms unfolding write_private_def
    by (intro keeps_on_files confined_write_private_owned [OF n]) (simp_all add: wg_temp_def)
qed

end
