(* ===== verification/JoinFacts.thy ===== *)
theory JoinFacts
  imports JoinRun RunLogic
begin

text \<open>
  What a join leaves in the two files, whatever fails: a name that was taken stays as it was, a join
  that reports success has written both files whole from an answer it accepted, and one that does
  not leaves no device file that looks like a finished join.
\<close>

section \<open>Claims\<close>

definition claim_file :: "sys_env \<Rightarrow> u32 \<Rightarrow> (nat \<times> nat) option \<Rightarrow> inode" where
  "claim_file env mode owner = finished (utf8 CLAIM_MARKER) mode (given owner env)"

text \<open>A name that is free, or that holds what a killed join left.\<close>

definition vacant :: "sys_env \<Rightarrow> fs \<Rightarrow> path \<Rightarrow> bool" where
  "vacant env s p \<longleftrightarrow> look s p = None \<or> reads env s p = Some (utf8 CLAIM_MARKER)"

text \<open>The other temporary sibling of the WireGuard file, the device file and its own.\<close>

definition wg_claim_temp :: "sys_env \<Rightarrow> path \<Rightarrow> path" where
  "wg_claim_temp env p = path_with_file_name p (the (path_file_name p) @ create_sibling env)"

lemma rp_claim_system:
  assumes name: "path_file_name p \<noteq> None" and ok: "fs_ok (files s)"
    and apart: "p \<noteq> wg_claim_temp (de_sys env) p"
  shows "rp env (claim_system p)
    (\<lambda>_ s'. si_hub s' = si_hub s \<and> frame (files s) {p, wg_temp p, wg_claim_temp (de_sys env) p} (files s')
      \<and> vacant (de_sys env) (files s) p \<and> look (files s') p = Some (Inl (claim_file (de_sys env) PRIVATE_FILE_MODE None)))
    (\<lambda>_ s'. si_hub s' = si_hub s \<and> frame (files s) {wg_temp p, wg_claim_temp (de_sys env) p} (files s')) s"
proof -
  let ?env = "de_sys env" and ?T = "{wg_temp p, wg_claim_temp (de_sys env) p}"
  let ?m = "claim_file (de_sys env) PRIVATE_FILE_MODE None"
  obtain n where n: "path_file_name p = Some n" using name by auto
  then have temps: "wg_claim_temp ?env p = path_with_file_name p (n @ create_sibling ?env)"
    "wg_temp p = path_with_file_name p (n @ lit ''.tmp'')"
    by (simp_all add: wg_claim_temp_def wg_temp_def)
  have create: "wp ?env (create_new_private p CLAIM_MARKER)
      (\<lambda>_ w'. placed (files s) p (wg_claim_temp ?env p) ?m (w_fs w'))
      (\<lambda>_ w'. frame (files s) {wg_claim_temp ?env p} (w_fs w')) (si_world s)"
    unfolding create_new_private_def
    by (rule wp_mono [OF wp_create_new_private_owned [OF n temps(1) harmless_start [OF ok]]])
      (use ok in \<open>auto simp: claim_file_def frame_def dest!: harmless_scratched scratched_frame [where T = "{wg_claim_temp ?env p}"]\<close>)
  have over: "rp env (on_files (write_private p CLAIM_MARKER))
      (\<lambda>_ s''. si_hub s'' = si_hub s \<and> frame (files s) ({p} \<union> ?T) (files s'') \<and> look (files s'') p = Some (Inl ?m))
      (\<lambda>_ s''. si_hub s'' = si_hub s \<and> frame (files s) ?T (files s'')) s'"
    if "frame (files s) {wg_claim_temp ?env p} (files s')" "si_hub s' = si_hub s" for s'
    unfolding write_private_def rp_on_files
    by (rule wp_mono [OF wp_write_private_owned [OF n temps(2) harmless_start [OF frame_ok [OF that(1)]]]])
      (use that in \<open>auto simp: claim_file_def frame_def published_def
        dest!: harmless_scratched scratched_frame [where T = "{wg_temp p}"]\<close>)
  show ?thesis
    unfolding claim_system_def rp_bind rp_catch rp_on_files
  proof (rule wp_mono [OF create], goal_cases)
    case (1 x w')
    then show ?case
      using ok placed_frame [OF 1, of "{p, wg_claim_temp ?env p}"]
      by (auto simp: rp_simps frame_def vacant_def placed_def)
  next
    case (2 e w')
    then have f: "frame (files s) {wg_claim_temp ?env p} (files (s\<lparr>si_world := w'\<rparr>))" by simp
    then have same: "reads ?env (w_fs w') p = reads ?env (files s) p"
      using apart by (auto intro: reads_look frame_look)
    let ?s = "s\<lparr>si_world := w'\<rparr>"
    let ?Q = "\<lambda>_ s'. si_hub s' = si_hub s \<and> frame (files s) {p, wg_temp p, wg_claim_temp ?env p} (files s')
      \<and> vacant ?env (files s) p \<and> look (files s') p = Some (Inl ?m)"
    let ?R = "\<lambda>_ s'. si_hub s' = si_hub s \<and> frame (files s) ?T (files s')"
    have stay: "?R e s'" if "files s' = files ?s" "si_hub s' = si_hub s" for e s'
      using that frame_mono [OF f, of ?T] by simp
    have reread: "rp env (if is_stale_claim t
          then run_map_err (save_error (lit ''a config file'') (system_file p)) (on_files (write_private p CLAIM_MARKER))
          else run_throw (ConfigExists p)) ?Q ?R s'"
      if "files s' = files ?s" "si_hub s' = si_hub s" "t = CLAIM_MARKER \<longrightarrow> reads ?env (files ?s) p = Some (utf8 t)" for s' t
    proof (cases "t = CLAIM_MARKER")
      case True
      then have "vacant ?env (files s) p" using that(3) same by (simp add: vacant_def)
      with True show ?thesis
        using that(1,2) f by (auto simp: rp_simps is_stale_claim_def insert_commute intro!: rp_mono [OF over])
    next
      case False
      with stay [OF that(1,2)] show ?thesis by (simp add: rp_simps is_stale_claim_def)
    qed
    show ?case
    proof (cases "fst e = IoAlreadyExists")
      case True
      show ?thesis
        unfolding sum.case if_P [OF True] rp_bind rp_catch
        by (rule rp_mono [OF rp_fs_read_to_string]; rule reread) (auto simp: CLAIM_MARKER_def lit_def)
    next
      case False
      then show ?thesis using stay [of ?s] by (simp add: rp_simps)
    qed
  qed
qed

lemma component_device_file: "component DEVICE_FILE" "component JOIN_LOCK"
  by (simp_all add: component_def DEVICE_FILE_def JOIN_LOCK_def lit_def)

definition device_at :: "path \<Rightarrow> path" where
  "device_at dir = path_join dir DEVICE_FILE"

definition device_temp :: "sys_env \<Rightarrow> path \<Rightarrow> path" where
  "device_temp env dir = path_join dir (DEVICE_FILE @ create_sibling env)"

definition vacant_file :: "fs \<Rightarrow> path \<Rightarrow> bool" where
  "vacant_file s p \<longleftrightarrow> look s p = None \<or> (\<exists>f. look s p = Some (Inl f) \<and> f_bytes f = utf8 CLAIM_MARKER)"

lemma rp_dir_write:
  assumes "frame s0 {device_temp (de_sys env) (dh_path d)} (files s)"
  shows "rp env (on_files (dir_write_private d DEVICE_FILE contents owner))
    (\<lambda>_ s'. si_hub s' = si_hub s \<and> frame s0 {device_at (dh_path d), device_temp (de_sys env) (dh_path d)} (files s')
      \<and> look (files s') (device_at (dh_path d)) = Some (Inl (finished (utf8 contents) (dir_mode (de_sys env)) (given owner (de_sys env)))))
    (\<lambda>_ s'. si_hub s' = si_hub s \<and> frame s0 {device_temp (de_sys env) (dh_path d)} (files s')) s"
  unfolding rp_on_files
  by (rule wp_mono [OF wp_dir_write_private [OF component_device_file(1) refl refl harmless_start [OF frame_ok [OF assms]]]])
    (use assms in \<open>auto simp: frame_def published_def device_at_def device_temp_def
      dest!: harmless_scratched scratched_frame [where T = "{device_temp (de_sys env) (dh_path d)}"]\<close>)

lemma rp_claim_user:
  assumes ok: "fs_ok (files s)"
  shows "rp env (claim_user d DEVICE_FILE paths wg_config owner)
    (\<lambda>_ s'. si_hub s' = si_hub s \<and> frame (files s) {device_at (dh_path d), device_temp (de_sys env) (dh_path d)} (files s')
      \<and> vacant_file (files s) (device_at (dh_path d))
      \<and> look (files s') (device_at (dh_path d)) = Some (Inl (claim_file (de_sys env) (dir_mode (de_sys env)) owner)))
    (\<lambda>_ s'. si_hub s' = si_hub s \<and> frame (files s) {device_temp (de_sys env) (dh_path d)} (files s')) s"
proof -
  let ?env = "de_sys env" and ?D = "device_at (dh_path d)" and ?T = "device_temp (de_sys env) (dh_path d)"
  let ?m = "claim_file ?env (dir_mode ?env) owner"
  let ?Q = "\<lambda>_ s'. si_hub s' = si_hub s \<and> frame (files s) {?D, ?T} (files s') \<and> vacant_file (files s) ?D
    \<and> look (files s') ?D = Some (Inl ?m)"
  let ?R = "\<lambda>_ s'. si_hub s' = si_hub s \<and> frame (files s) {?T} (files s')"
  have apart: "?D \<noteq> ?T"
    using temp_name_differs [OF component_device_file(1), of d ?env] by (simp add: device_at_def device_temp_def)
  have create: "rp env (on_files (dir_create_new_private d DEVICE_FILE CLAIM_MARKER owner)) ?Q ?R s"
    unfolding rp_on_files
    by (rule wp_mono [OF wp_dir_create_new_private [OF component_device_file(1) refl refl harmless_start [OF ok]]])
      (use ok in \<open>auto simp: frame_def placed_def vacant_file_def claim_file_def device_at_def device_temp_def
        dest!: harmless_scratched scratched_frame [where T = "{?T}"]\<close>)
  have reread: "rp env (if is_stale_claim t
        then run_map_err (save_error (lit ''a config file'') (user_file (device_file paths)))
          (on_files (dir_write_private d DEVICE_FILE CLAIM_MARKER owner))
        else run_throw (AlreadyJoined (device_file paths) wg_config)) ?Q ?R s'"
    if "?R e s'" "t = CLAIM_MARKER \<longrightarrow> (\<exists>f. look (files s') ?D = Some (Inl f) \<and> f_bytes f = utf8 t)" for s' t e
  proof (cases "t = CLAIM_MARKER")
    case True
    moreover have "look (files s') ?D = look (files s) ?D" using that(1) apart by (auto intro: frame_look)
    ultimately have "vacant_file (files s) ?D" using that(2) by (auto simp: vacant_file_def)
    with True that(1) show ?thesis
      by (auto simp: rp_simps is_stale_claim_def claim_file_def intro!: rp_mono [OF rp_dir_write])
  next
    case False
    with that(1) show ?thesis by (simp add: rp_simps is_stale_claim_def)
  qed
  show ?thesis
    unfolding claim_user_def rp_bind rp_catch
  proof (rule rp_mono [OF create], goal_cases)
    case (2 e s')
    show ?case
    proof (cases "fst e = IoAlreadyExists")
      case True
      show ?thesis
        unfolding sum.case if_P [OF True] rp_bind rp_catch
        by (rule rp_mono [OF rp_dir_read_to_string [OF component_device_file(1)]]; rule reread)
          (use 2 in \<open>auto simp: CLAIM_MARKER_def lit_def device_at_def\<close>)
    qed (use 2 in \<open>simp add: rp_simps\<close>)
  qed (simp add: rp_simps)
qed

lemma rp_release:
  assumes "fs_ok (files s)"
  shows "rp env (run_catch (on_files (release d p claimed)))
    (\<lambda>_ s'. si_hub s' = si_hub s \<and> lessened (files s) ({p} \<union> (if claimed then {device_at (dh_path d)} else {})) (files s')) R s"
proof -
  have remove: "wp e (dir_remove d DEVICE_FILE) Q R = wp e (sys_unlink (device_at (dh_path d))) Q R" for e Q R
    by (simp add: dir_remove_def wp_simps wp_c_name component_device_file device_at_def)
  have second: "wp e (sys_unlink (device_at (dh_path d))) (\<lambda>_ w'. lessened s0 ({p} \<union> {device_at (dh_path d)}) (w_fs w'))
      (\<lambda>_ w'. lessened s0 ({p} \<union> {device_at (dh_path d)}) (w_fs w')) w" if "lessened s0 {p} (w_fs w)" for e s0 w
    using wp_unlink_lessened [OF lessened_ok [OF that]] by (rule wp_mono) (rule lessened_trans [OF that], assumption)+
  show ?thesis
    unfolding release_def rp_catch rp_on_files wp_then wp_ignore
    by (rule wp_mono [OF wp_unlink_lessened [OF assms]]; cases claimed)
      (auto simp: wp_simps remove intro!: wp_mono [OF second])
qed

section \<open>After the hub's answer\<close>

definition joined_files ::
  "sys_env \<Rightarrow> path \<Rightarrow> path \<Rightarrow> (nat \<times> nat) option \<Rightarrow> device_config \<Rightarrow> client_profile \<Rightarrow> fs \<Rightarrow> bool"
where
  "joined_files env dir wg_config owner config profile s \<longleftrightarrow>
    look s wg_config = Some (Inl (finished (utf8 (expose (client_config profile))) PRIVATE_FILE_MODE (se_self env)))
    \<and> look s (device_at dir) = Some (Inl (finished (utf8 (device_to_json_string config)) (dir_mode env) (given owner env)))"

text \<open>The names a join uses are not one another.\<close>

definition join_names :: "sys_env \<Rightarrow> path \<Rightarrow> path \<Rightarrow> bool" where
  "join_names env dir p \<longleftrightarrow> path_file_name p \<noteq> None
    \<and> distinct [p, device_at dir, wg_temp p, wg_claim_temp env p, device_temp env dir, dir, path_join (dir) JOIN_LOCK]
    \<and> (\<forall>parent. path_parent p = Some parent \<longrightarrow> parent \<noteq> p \<and> parent \<noteq> device_at dir)"

lemma rp_publish:
  assumes names: "join_names (de_sys env) (dh_path d) p" and ok: "fs_ok (files s)"
  shows "rp env (publish config profile d paths p owner)
    (\<lambda>_ s'. si_hub s' = si_hub s \<and> frame (files s) {p, wg_temp p, device_at (dh_path d), device_temp (de_sys env) (dh_path d)} (files s')
      \<and> joined_files (de_sys env) (dh_path d) p owner config profile (files s'))
    (\<lambda>_ s'. si_hub s' = si_hub s \<and> frame (files s) {p, wg_temp p, device_temp (de_sys env) (dh_path d)} (files s')) s"
proof -
  let ?D = "device_at (dh_path d)" and ?T = "device_temp (de_sys env) (dh_path d)"
  have pn: "path_file_name p \<noteq> None" and pD: "p \<noteq> ?D" "p \<noteq> ?T" using names by (auto simp: join_names_def)
  show ?thesis
    unfolding publish_def rp_then rp_map_err
  proof (rule rp_mono [OF rp_write_wg [OF pn ok]], goal_cases)
    case (1 x s1)
    then have ok1: "fs_ok (files s1)" by (simp add: frame_def)
    show ?case
      unfolding rp_bind rp_catch
    proof (rule rp_mono [OF rp_dir_write [OF frame_refl [OF ok1]]], goal_cases)
      case (1 x s2)
      then show ?case
        using \<open>si_hub s1 = si_hub s \<and> _\<close> pD
        by (auto simp: rp_simps joined_files_def frame_def)
    next
      case (2 e s2)
      then have s2: "frame (files s) {p, wg_temp p, ?T} (files s2)" "si_hub s2 = si_hub s"
        using \<open>si_hub s1 = si_hub s \<and> _\<close> by (auto simp: frame_def)
      show ?case
        unfolding sum.case rp_then rp_throw
        by (rule rp_mono [OF rp_unlink [OF frame_ok [OF s2(1)]]]) (use s2 in \<open>auto simp: lessened_def frame_def\<close>)
    qed
  next
    case (2 e s1)
    then show ?case using frame_mono [of "files s" "{wg_temp p}" "files s1"] by auto
  qed
qed

lemma rp_finish:
  assumes names: "join_names (de_sys env) (dh_path d) p" and ok: "fs_ok (files s)"
  shows "rp env (finish u body domain api_port key d paths p owner)
    (\<lambda>config s'. si_hub s' = si_hub s \<and> frame (files s) {p, wg_temp p, device_at (dh_path d), device_temp (de_sys env) (dh_path d)} (files s')
      \<and> (\<exists>profile. accepted u body domain api_port key = Inr (config, profile)
           \<and> joined_files (de_sys env) (dh_path d) p owner config profile (files s')))
    (\<lambda>_ s'. si_hub s' = si_hub s \<and> frame (files s) {p, wg_temp p, device_temp (de_sys env) (dh_path d)} (files s')) s"
proof (cases "accepted u body domain api_port key")
  case (Inl e)
  then show ?thesis using frame_refl [OF ok] by (simp add: finish_def rp_simps)
next
  case (Inr r)
  then show ?thesis
    by (cases r) (auto simp: finish_def rp_simps intro!: rp_mono [OF rp_publish [OF names ok]])
qed

section \<open>The run\<close>

text \<open>The one request of a join, and what the hub did with it and with the request that undoes it.\<close>

definition join_asked ::
  "'h dev_env \<Rightarrow> rstr \<Rightarrow> join_code \<Rightarrow> device_name \<Rightarrow> 16 word \<Rightarrow> 'h \<Rightarrow> rstr \<Rightarrow> client_error + client_response \<Rightarrow> 'h \<Rightarrow> bool"
where
  "join_asked env domain code name api_port h public_key r h' \<longleftrightarrow>
    key_ok public_key \<and> de_send env (join_http_request domain api_port (join_body code name public_key)) h = (r, h')"

definition undo_asked ::
  "unicode \<Rightarrow> 'h dev_env \<Rightarrow> rstr \<Rightarrow> 16 word \<Rightarrow> rstr \<Rightarrow> 'h \<Rightarrow> undo_outcome \<Rightarrow> 'h \<Rightarrow> bool"
where
  "undo_asked u env domain api_port body h outcome h' \<longleftrightarrow>
    (case undo_credentials u body of
       None \<Rightarrow> outcome = UndoUnknown \<and> h' = h
     | Some (name, token) \<Rightarrow> \<exists>r. de_send env (delete_request domain api_port name token) h = (r, h')
         \<and> outcome = (case r of Inr response \<Rightarrow> if is_success response then UndoDone else UndoFailed (name_str name)
              | Inl _ \<Rightarrow> UndoFailed (name_str name)))"

text \<open>How a join that failed left the hub.\<close>

definition hub_after_failure ::
  "unicode \<Rightarrow> 'h dev_env \<Rightarrow> rstr \<Rightarrow> join_code \<Rightarrow> device_name \<Rightarrow> 16 word \<Rightarrow> 'h \<Rightarrow> join_error \<Rightarrow> 'h \<Rightarrow> bool"
where
  "hub_after_failure u env domain code name api_port h e h' \<longleftrightarrow>
    h' = h
    \<or> (\<exists>public_key r. join_asked env domain code name api_port h public_key r h' \<and> (\<forall>response. r = Inr response \<longrightarrow> \<not> is_success response))
    \<or> (\<exists>public_key response h1 cause outcome. join_asked env domain code name api_port h public_key (Inr response) h1
         \<and> is_success response \<and> undo_asked u env domain api_port (cr_body response) h1 outcome h'
         \<and> e = SavedNothing NOTHING_SAVED (join_error_show u cause) (recovery_note outcome))"

lemma hub_after_undo:
  assumes "join_asked env domain code name api_port h public_key (Inr response) h1" "is_success response"
    "undo_asked u env domain api_port (cr_body response) h1 outcome h'"
  shows "hub_after_failure u env domain code name api_port h (SavedNothing NOTHING_SAVED (join_error_show u cause) (recovery_note outcome)) h'"
  unfolding hub_after_failure_def using assms by blast

lemma rp_post_registration:
  assumes "quiet env"
  shows "rp env (post_registration u body domain api_port what cause) Q
    (\<lambda>e s'. files s' = files s \<and> (\<exists>outcome. undo_asked u env domain api_port body (si_hub s) outcome (si_hub s')
      \<and> e = SavedNothing what (join_error_show u cause) (recovery_note outcome))) s"
proof (cases "undo_credentials u body")
  case None
  then show ?thesis by (simp add: post_registration_def rp_simps undo_asked_def)
next
  case (Some nt)
  obtain name token where nt: "nt = (name, token)" by fastforce
  show ?thesis
    unfolding post_registration_def Some nt option.case prod.case undo_registration_def rp_bind rp_catch rp_map_err
    by (rule rp_mono [OF rp_ask [OF assms]])
      (auto simp: rp_simps undo_asked_def Some nt split: if_splits)
qed

lemma rp_register:
  assumes q: "quiet env" and names: "join_names (de_sys env) (dh_path d) p" and ok: "fs_ok (files s)"
  shows "rp env (register u domain code name api_port d paths p owner)
    (\<lambda>config s'. frame (files s) {p, wg_temp p, device_at (dh_path d), device_temp (de_sys env) (dh_path d)} (files s')
      \<and> (\<exists>key public_key profile response.
           join_asked env domain code name api_port (si_hub s) public_key (Inr response) (si_hub s')
           \<and> is_success response \<and> key_ok (private_key_str key)
           \<and> accepted u (cr_body response) domain api_port key = Inr (config, profile)
           \<and> joined_files (de_sys env) (dh_path d) p owner config profile (files s')))
    (\<lambda>e s'. frame (files s) {p, wg_temp p, device_temp (de_sys env) (dh_path d)} (files s')
      \<and> hub_after_failure u env domain code name api_port (si_hub s) e (si_hub s')) s"
  unfolding register_def rp_bind rp_map_err
proof (rule rp_mono [OF rp_generate_keypair], goal_cases)
  case (1 keys s0)
  then obtain key public_key where k: "keys = (key, public_key)" "s0 = s" "key_ok (private_key_str key)" "key_ok public_key"
    by auto
  show ?case
    unfolding k prod.case rp_bind rp_map_err
  proof (rule rp_mono [OF rp_ask [OF q]], goal_cases)
    case (1 response s1)
    then have a: "join_asked env domain code name api_port (si_hub s) public_key (Inr response) (si_hub s1)"
      and f1: "files s1 = files s" using k(4) by (simp_all add: join_asked_def)
    show ?case
    proof (cases "is_success response")
      case False
      then show ?thesis
        using a f1 frame_refl [OF ok] by (auto simp: rp_simps hub_after_failure_def)
    next
      case True
      have ok1: "fs_ok (files s1)" using ok f1 by simp
      show ?thesis
        unfolding if_not_P [of "\<not> is_success response", unfolded not_not, OF True] rp_bind rp_catch
      proof (rule rp_mono [OF rp_finish [OF names ok1]], goal_cases)
        case (1 config s2)
        then show ?case using a True k(3) f1 by (auto simp: rp_simps)
      next
        case (2 e s2)
        show ?case
          unfolding sum.case
          by (rule rp_mono [OF rp_post_registration [OF q]]) (use 2 f1 hub_after_undo [OF a True] in auto)
      qed
    qed
  next
    case (2 e s1)
    then show ?case using k(4) frame_refl [OF ok] by (auto simp: hub_after_failure_def join_asked_def)
  qed
next
  case (2 e s0)
  then show ?case using frame_refl [OF ok] by (simp add: hub_after_failure_def)
qed

text \<open>
  The two files a join is about: as they were, or, where the name was free or held a claim, gone, a
  claim, or, for the WireGuard file alone, the text that was written before the device file failed.
\<close>

definition not_joined :: "sys_env \<Rightarrow> path \<Rightarrow> path \<Rightarrow> (nat \<times> nat) option \<Rightarrow> fs \<Rightarrow> fs \<Rightarrow> bool" where
  "not_joined env dir p owner s0 s \<longleftrightarrow>
    (look s p = look s0 p \<or> vacant env s0 p)
    \<and> (look s (device_at dir) = look s0 (device_at dir)
       \<or> (vacant_file s0 (device_at dir)
          \<and> (look s (device_at dir) = None \<or> look s (device_at dir) = Some (Inl (claim_file env (dir_mode env) owner)))))"

lemma frame_steps:
  "frame s0 T s \<Longrightarrow> q \<notin> T \<Longrightarrow> frame s U s' \<Longrightarrow> q \<notin> U \<Longrightarrow> look s' q = look s0 q"
  by (simp add: frame_def)

lemma vacant_same: "look s p = look s0 p \<Longrightarrow> vacant env s p = vacant env s0 p" "look s p = look s0 p \<Longrightarrow> vacant_file s p = vacant_file s0 p"
  by (simp_all add: vacant_def vacant_file_def reads_def)

definition join_succeeded ::
  "unicode \<Rightarrow> 'h dev_env \<Rightarrow> rstr \<Rightarrow> join_code \<Rightarrow> device_name \<Rightarrow> 16 word \<Rightarrow> path \<Rightarrow> path \<Rightarrow> (nat \<times> nat) option \<Rightarrow> 'h
    \<Rightarrow> device_config \<Rightarrow> 'h site \<Rightarrow> bool"
where
  "join_succeeded u env domain code name api_port dir p owner h config s \<longleftrightarrow>
    (\<exists>key public_key profile response.
       join_asked env domain code name api_port h public_key (Inr response) (si_hub s)
       \<and> is_success response \<and> key_ok (private_key_str key)
       \<and> accepted u (cr_body response) domain api_port key = Inr (config, profile)
       \<and> joined_files (de_sys env) dir p owner config profile (files s))"

lemma rp_while_reserved:
  assumes q: "quiet env" and names: "join_names (de_sys env) (dh_path d) p" and ok: "fs_ok (files s)"
  shows "rp env (while_reserved d paths p owner (register u domain code name api_port d paths p owner))
    (\<lambda>config s'. join_succeeded u env domain code name api_port (dh_path d) p owner (si_hub s) config s'
      \<and> vacant (de_sys env) (files s) p \<and> vacant_file (files s) (device_at (dh_path d)))
    (\<lambda>e s'. not_joined (de_sys env) (dh_path d) p owner (files s) (files s')
      \<and> hub_after_failure u env domain code name api_port (si_hub s) e (si_hub s')) s"
proof -
  let ?env = "de_sys env" and ?D = "device_at (dh_path d)"
  let ?DT = "device_temp ?env (dh_path d)" and ?C = "{wg_temp p, wg_claim_temp ?env p}"
  have pn: "path_file_name p \<noteq> None" and apart: "p \<noteq> wg_claim_temp ?env p" "p \<noteq> wg_temp p" "p \<noteq> ?D" "p \<noteq> ?DT"
    "?D \<notin> ?C" "?D \<noteq> ?DT" "?DT \<notin> ?C"
    using names by (auto simp: join_names_def)
  have same: "hub_after_failure u env domain code name api_port h e h" for h e by (simp add: hub_after_failure_def)
  show ?thesis
    unfolding while_reserved_def rp_then
  proof (rule rp_mono [OF rp_claim_system [OF pn ok apart(1)]], goal_cases)
    case (1 x s1)
    then have f1: "frame (files s) ({p} \<union> ?C) (files s1)" and h1: "si_hub s1 = si_hub s" and v: "vacant ?env (files s) p"
      by (auto simp: insert_commute)
    have D1: "look (files s1) ?D = look (files s) ?D" using f1 apart by (auto intro: frame_look)
    show ?case
      unfolding rp_bind rp_catch
    proof (rule rp_mono [OF rp_claim_user [OF frame_ok [OF f1]]], goal_cases)
      case (1 x s2)
      then have f2: "frame (files s1) {?D, ?DT} (files s2)" and h2: "si_hub s2 = si_hub s1"
        and vD: "vacant_file (files s) ?D" and D2: "look (files s2) ?D = Some (Inl (claim_file ?env (dir_mode ?env) owner))"
        using vacant_same(2) [OF D1] by auto
      show ?case
        unfolding sum.case rp_bind rp_catch
      proof (rule rp_mono [OF rp_register [OF q names frame_ok [OF f2]]], goal_cases)
        case (1 config s3)
        then show ?case using v vD h1 h2 by (auto simp: rp_simps join_succeeded_def)
      next
        case (2 e s3)
        then have f3: "frame (files s2) {p, wg_temp p, ?DT} (files s3)"
          and hub: "hub_after_failure u env domain code name api_port (si_hub s) e (si_hub s3)" using h1 h2 by auto
        have "look (files s3) ?D = look (files s2) ?D" using f3 apart by (auto intro: frame_look)
        then show ?case
          unfolding sum.case rp_then rp_throw
          using hub v vD D2
          by (intro rp_mono [OF rp_release [OF frame_ok [OF f3]]]) (auto simp: not_joined_def dest: lessened_look [where q = ?D])
      qed
    next
      case (2 e s2)
      then have f2: "frame (files s1) {?DT} (files s2)" and h2: "si_hub s2 = si_hub s1" by auto
      have "look (files s2) ?D = look (files s) ?D" using f2 D1 apart by (simp add: frame_look)
      then show ?case
        unfolding sum.case rp_then rp_throw
        using v h1 h2 same apart
        by (intro rp_mono [OF rp_release [OF frame_ok [OF f2]]]) (auto simp: not_joined_def lessened_def frame_def)
    qed
  next
    case (2 e s1)
    then show ?case using same apart by (auto simp: not_joined_def frame_def)
  qed
qed

lemma rp_prepare_client_dir:
  assumes "fs_ok (files s)"
  shows "rp env (prepare_client_dir paths invoking)
    (\<lambda>d s'. dh_path d = client_dir paths \<and> si_hub s' = si_hub s \<and> frame (files s) {client_dir paths} (files s'))
    (\<lambda>_ s'. si_hub s' = si_hub s \<and> frame (files s) {client_dir paths} (files s')) s"
proof -
  let ?dir = "client_dir paths"
  have c: "confined (de_sys env) {?dir} (ensure_private_dir ?dir)" by (intro confined_rules) simp
  have opened: "wp e (dir_open ?dir) (\<lambda>d w'. dh_path d = ?dir \<and> w_fs w' = w_fs w) (\<lambda>_ w'. w_fs w' = w_fs w) w" for e w
    by (auto simp: dir_open_def wp_simps sys_open_dir_def wp_call split: option.split entry.split)
  have owned: "wp e (dir_open_owned ?dir uid) (\<lambda>d w'. dh_path d = ?dir \<and> w_fs w' = w_fs w) (\<lambda>_ w'. w_fs w' = w_fs w) w" for e uid w
    unfolding dir_open_owned_def wp_bind dir_owner_def
    by (rule wp_mono [OF opened]) (auto simp: wp_simps wp_call split: option.split)
  show ?thesis
  proof (cases invoking)
    case None
    show ?thesis
      unfolding prepare_client_dir_def Let_def None option.case rp_then rp_map_err
      by (rule rp_mono [OF rp_confined [OF c assms]])
        (auto simp: rp_on_files intro!: wp_mono [OF opened])
  next
    case (Some user)
    show ?thesis
      unfolding prepare_client_dir_def Let_def Some option.case rp_bind rp_catch rp_on_files
      by (rule wp_mono [OF owned]) (auto simp: rp_simps frame_refl assms)
  qed
qed

lemma rp_join_lock:
  assumes "fs_ok (files s)"
  shows "rp env (acquire_join_lock d invoking)
    (\<lambda>_ s'. si_hub s' = si_hub s \<and> frame (files s) {path_join (dh_path d) JOIN_LOCK} (files s'))
    (\<lambda>_ s'. si_hub s' = si_hub s \<and> frame (files s) {path_join (dh_path d) JOIN_LOCK} (files s')) s"
proof -
  have "confined (de_sys env) {path_join (dh_path d) JOIN_LOCK} (dir_try_lock d JOIN_LOCK (owner_of_user invoking))"
    by (intro confined_rules component_device_file) simp
  from rp_confined [OF this assms] show ?thesis
    unfolding acquire_join_lock_def rp_bind rp_map_err by (rule rp_mono) (auto simp: rp_simps)
qed

lemma confined_occupied: "confined env T (occupied_at d m)" "confined env T (occupied p)"
  unfolding occupied_at_def occupied_def by (intro confined_rules)+

lemma rp_check_not_joined:
  assumes "fs_ok (files s)"
  shows "rp env (check_not_joined d paths p)
    (\<lambda>_ s'. si_hub s' = si_hub s \<and> frame (files s) {} (files s'))
    (\<lambda>_ s'. si_hub s' = si_hub s \<and> frame (files s) {} (files s')) s"
proof -
  note first = rp_confined [OF confined_occupied(1) assms]
  have second: "rp env (on_files (occupied p)) (\<lambda>_ s''. si_hub s'' = si_hub s \<and> frame (files s) {} (files s''))
      (\<lambda>_ s''. si_hub s'' = si_hub s \<and> frame (files s) {} (files s'')) s'"
    if "si_hub s' = si_hub s" "frame (files s) {} (files s')" for s'
    by (rule rp_mono [OF rp_confined [OF confined_occupied(2) frame_ok [OF that(2)]]])
      (use that in \<open>auto simp: frame_def\<close>)
  show ?thesis
    unfolding check_not_joined_def rp_bind rp_catch
    by (rule rp_mono [OF first]) (auto simp: rp_simps intro!: rp_mono [OF second])
qed

definition join_name :: "unicode \<Rightarrow> 'h dev_env \<Rightarrow> device_name option \<Rightarrow> device_name option" where
  "join_name u env name = (case name of Some n \<Rightarrow> Some n | None \<Rightarrow> Option.bind (de_hostname env) (name_from_hostname u))"

lemma not_joined_same:
  assumes "look s1 p = look s0 p" "look s1 (device_at dir) = look s0 (device_at dir)" "not_joined env dir p owner s1 s"
  shows "not_joined env dir p owner s0 s"
  using assms vacant_same(1) [OF assms(1)] vacant_same(2) [OF assms(2)] by (simp add: not_joined_def)

lemma not_joined_refl: "look s p = look s0 p \<Longrightarrow> look s (device_at dir) = look s0 (device_at dir) \<Longrightarrow> not_joined env dir p owner s0 s"
  by (simp add: not_joined_def)

lemma rp_join_run:
  fixes env :: "'h dev_env"
  assumes q: "quiet env" and names: "join_names (de_sys env) (client_dir paths) p" and ok: "fs_ok (files s)"
  shows "rp env (join_run u domain code name api_port paths p invoking)
    (\<lambda>config s'. vacant (de_sys env) (files s) p \<and> vacant_file (files s) (device_at (client_dir paths))
      \<and> (\<exists>n. join_name u env name = Some n
           \<and> join_succeeded u env domain code n api_port (client_dir paths) p (owner_of_user invoking) (si_hub s) config s'))
    (\<lambda>e s'. not_joined (de_sys env) (client_dir paths) p (owner_of_user invoking) (files s) (files s')
      \<and> (si_hub s' = si_hub s \<or> (\<exists>n. join_name u env name = Some n
           \<and> hub_after_failure u env domain code n api_port (si_hub s) e (si_hub s')))) s"
proof -
  let ?dir = "client_dir paths" and ?own = "owner_of_user invoking"
  let ?D = "device_at ?dir" and ?L = "path_join ?dir JOIN_LOCK"
  define P where "P = (case path_parent p of None \<Rightarrow> {} | Some parent \<Rightarrow> {parent})"
  define T where "T = {?dir, ?L} \<union> P"
  have out: "p \<notin> T" "?D \<notin> T"
    using names by (auto simp: join_names_def T_def P_def split: option.splits)
  define Q where "Q = (\<lambda>config s'. vacant (de_sys env) (files s) p \<and> vacant_file (files s) ?D
    \<and> (\<exists>n. join_name u env name = Some n \<and> join_succeeded u env domain code n api_port ?dir p ?own (si_hub s) config s'))"
  define R where "R = (\<lambda>e s'. not_joined (de_sys env) ?dir p ?own (files s) (files s')
    \<and> (si_hub s' = si_hub s \<or> (\<exists>n. join_name u env name = Some n \<and> hub_after_failure u env domain code n api_port (si_hub s) e (si_hub s'))))"
  have early: "R e s'" if "si_hub s' = si_hub s" "frame (files s) T (files s')" for e s'
    using that out by (simp add: R_def not_joined_refl frame_look)
  have step: "frame (files s) T (files s')" if "frame (files s) T (files s1)" "frame (files s1) U (files s')" "U \<subseteq> T" for s1 s' :: "'h site" and U
    using frame_mono [OF frame_trans [OF that(1,2)], of T] that(3) by auto
  have reserved: "rp env (while_reserved d paths p ?own (register u domain code n api_port d paths p ?own)) Q R s'"
    if d: "dh_path d = ?dir" and n: "join_name u env name = Some n" and s': "si_hub s' = si_hub s" "frame (files s) T (files s')" for d n s'
  proof -
    have l: "look (files s') p = look (files s) p" "look (files s') ?D = look (files s) ?D"
      using frame_look [OF s'(2)] out by auto
    show ?thesis
      by (rule rp_mono [OF rp_while_reserved [OF q names [folded d] frame_ok [OF s'(2)]]])
        (auto simp: Q_def R_def d n s'(1) vacant_same(1) [OF l(1)] vacant_same(2) [OF l(2)] intro: not_joined_same [OF l])
  qed
  have parent: "rp env (run_then (case path_parent p of None \<Rightarrow> run_return ()
      | Some parent \<Rightarrow> run_map_err (save_error (lit ''the WireGuard directory'') (system_directory parent)) (on_files (ensure_private_dir parent)))
      (while_reserved d paths p ?own (register u domain code n api_port d paths p ?own))) Q R s1"
    if d: "dh_path d = ?dir" and n: "join_name u env name = Some n" and s1: "si_hub s1 = si_hub s" "frame (files s) T (files s1)" for d n s1
  proof (cases "path_parent p")
    case None
    then show ?thesis using reserved [OF d n s1] by (simp add: rp_simps)
  next
    case (Some q)
    have c: "confined (de_sys env) {q} (ensure_private_dir q)" by (intro confined_rules) simp
    have "{q} \<subseteq> T" using Some by (simp add: T_def P_def)
    show ?thesis
      unfolding Some option.case rp_then
      by (rule rp_mono [OF rp_confined_ignore [OF c frame_ok [OF s1(2)]]])
        (use s1 \<open>{q} \<subseteq> T\<close> in \<open>auto intro!: reserved [OF d n] early intro: step\<close>)
  qed
  have check: "rp env (run_then (check_not_joined d paths p) (run_then (case path_parent p of None \<Rightarrow> run_return ()
      | Some parent \<Rightarrow> run_map_err (save_error (lit ''the WireGuard directory'') (system_directory parent)) (on_files (ensure_private_dir parent)))
      (while_reserved d paths p ?own (register u domain code n api_port d paths p ?own)))) Q R s1"
    if d: "dh_path d = ?dir" and n: "join_name u env name = Some n" and s1: "si_hub s1 = si_hub s" "frame (files s) T (files s1)" for d n s1
    unfolding rp_then [of env "check_not_joined d paths p"]
    by (rule rp_mono [OF rp_check_not_joined [OF frame_ok [OF s1(2)]]])
      (use s1 in \<open>auto intro!: parent [OF d n] early intro: step\<close>)
  have lock: "rp env (run_then (acquire_join_lock d invoking) (run_then (check_not_joined d paths p) (run_then (case path_parent p of None \<Rightarrow> run_return ()
      | Some parent \<Rightarrow> run_map_err (save_error (lit ''the WireGuard directory'') (system_directory parent)) (on_files (ensure_private_dir parent)))
      (while_reserved d paths p ?own (register u domain code n api_port d paths p ?own))))) Q R s1"
    if d: "dh_path d = ?dir" and n: "join_name u env name = Some n" and s1: "si_hub s1 = si_hub s" "frame (files s) T (files s1)" for d n s1
  proof -
    have L: "{path_join (dh_path d) JOIN_LOCK} \<subseteq> T" by (simp add: d T_def)
    show ?thesis
      unfolding rp_then [of env "acquire_join_lock d invoking"]
      by (rule rp_mono [OF rp_join_lock [OF frame_ok [OF s1(2)]]])
        (use s1 L in \<open>auto intro!: check [OF d n] early intro: step\<close>)
  qed
  have start: "frame (files s) T (files s)" using frame_refl [OF ok] .
  have dirT: "{?dir} \<subseteq> T" by (simp add: T_def)
  have name: "rp env (run_bind (run_env de_hostname) (\<lambda>hostname.
      run_bind (run_lift (ok_or NoName (case name of Some n \<Rightarrow> Some n | None \<Rightarrow> Option.bind hostname (name_from_hostname u)))) (\<lambda>name.
      run_bind (prepare_client_dir paths invoking) (\<lambda>d.
      run_then (acquire_join_lock d invoking) (run_then (check_not_joined d paths p) (run_then (case path_parent p of None \<Rightarrow> run_return ()
      | Some parent \<Rightarrow> run_map_err (save_error (lit ''the WireGuard directory'') (system_directory parent)) (on_files (ensure_private_dir parent)))
      (while_reserved d paths p ?own (register u domain code name api_port d paths p ?own)))))))) Q R s1"
    if s1: "si_hub s1 = si_hub s" "frame (files s) T (files s1)" for s1
  proof (cases "join_name u env name")
    case None
    then show ?thesis using early [OF s1] by (simp add: rp_simps join_name_def [symmetric] ok_or_def)
  next
    case (Some n)
    show ?thesis
      unfolding rp_bind rp_env rp_lift join_name_def [symmetric] Some ok_or_def option.case sum.case
      by (rule rp_mono [OF rp_prepare_client_dir [OF frame_ok [OF s1(2)]]])
        (use s1 dirT in \<open>auto intro!: lock [OF _ Some] early intro: step\<close>)
  qed
  have "rp env (join_run u domain code name api_port paths p invoking) Q R s"
    unfolding join_run_def rp_then [of env "run_map_err JoinWg check_tools_from_env"] rp_map_err
    by (rule rp_mono [OF rp_check_tools [OF ok]]) (auto intro!: name early intro: frame_mono)
  then show ?thesis unfolding Q_def R_def .
qed

end
