(* ===== verification/Qr.thy ===== *)
theory Qr
  imports RustText
begin

text \<open>
  \<open>crates/anago-core/src/qr.rs\<close> and \<open>crates/anago/src/qrcode.rs\<close>: a grid of modules drawn with block
  characters, in the wider style that fits the terminal. The encoder is a library; \<open>qr_encode\<close> takes
  the side and the lookup function it gives.
\<close>

section \<open>Modules\<close>

definition SMALLEST :: nat where "SMALLEST = 21"
definition QUIET :: nat where "QUIET = 4"

record modules =
  md_size :: nat
  md_dark :: "bool list"

definition modules_new :: "nat \<Rightarrow> bool list \<Rightarrow> modules option" where
  "modules_new side dark =
    (if 0 < side \<and> length dark = side * side then Some \<lparr>md_size = side, md_dark = dark\<rparr> else None)"

definition is_dark :: "modules \<Rightarrow> nat \<Rightarrow> nat \<Rightarrow> bool" where
  "is_dark m x y =
    (if md_size m \<le> x \<or> md_size m \<le> y then False else md_dark m ! (y * md_size m + x))"

text \<open>\<open>qrcode::encode\<close>: None is a text too long for any version.\<close>

definition qr_encode :: "(nat \<times> (nat \<Rightarrow> nat \<Rightarrow> bool)) option \<Rightarrow> modules option" where
  "qr_encode code =
    Option.bind code (\<lambda>(side, get_module).
      modules_new side (concat (map (\<lambda>y. map (\<lambda>x. get_module x y) [0..<side]) [0..<side])))"

text \<open>\<open>qrcode::columns\<close> on Unix, over what the ioctl gave.\<close>

definition ASSUMED_COLUMNS :: nat where "ASSUMED_COLUMNS = 80"

definition terminal_columns :: "16 word option \<Rightarrow> nat" where
  "terminal_columns asked =
    (case asked of
       None \<Rightarrow> ASSUMED_COLUMNS
     | Some ws_col \<Rightarrow> if ws_col = 0 then ASSUMED_COLUMNS else unat ws_col)"

section \<open>Styles\<close>

datatype blocks = FullBlocks | HalfBlocks

definition qr_columns :: "nat \<Rightarrow> blocks \<Rightarrow> nat" where
  "qr_columns side blocks =
    (let modules = side + 2 * QUIET in
     case blocks of FullBlocks \<Rightarrow> modules * 2 | HalfBlocks \<Rightarrow> modules)"

definition div_ceil2 :: "nat \<Rightarrow> nat" where
  "div_ceil2 n = (n + 1) div 2"

definition qr_rows :: "nat \<Rightarrow> blocks \<Rightarrow> nat" where
  "qr_rows side blocks =
    (let modules = side + 2 * QUIET in
     case blocks of FullBlocks \<Rightarrow> modules | HalfBlocks \<Rightarrow> div_ceil2 modules)"

definition qr_fit :: "nat \<Rightarrow> nat \<Rightarrow> blocks option" where
  "qr_fit side available = List.find (\<lambda>blocks. qr_columns side blocks \<le> available) [FullBlocks, HalfBlocks]"

section \<open>Drawing\<close>

definition INK :: rstr where "INK = 0x1B # lit ''[30;47m''"
definition RESET :: rstr where "RESET = 0x1B # lit ''[0m''"

datatype drawing = Code rstr | QrTooNarrow nat nat

definition quiet_dark :: "modules \<Rightarrow> nat \<Rightarrow> nat \<Rightarrow> bool" where
  "quiet_dark m x y \<longleftrightarrow> QUIET \<le> x \<and> QUIET \<le> y \<and> is_dark m (x - QUIET) (y - QUIET)"

definition half_block :: "bool \<Rightarrow> bool \<Rightarrow> rchar" where
  "half_block upper lower =
    (case (upper, lower) of
       (True, True) \<Rightarrow> 0x2588
     | (True, False) \<Rightarrow> 0x2580
     | (False, True) \<Rightarrow> 0x2584
     | (False, False) \<Rightarrow> 32)"

definition draw_with :: "modules \<Rightarrow> blocks \<Rightarrow> rstr" where
  "draw_with m blocks =
    (let span = md_size m + 2 * QUIET in
     case blocks of
       FullBlocks \<Rightarrow> concat (map (\<lambda>y.
         INK @ concat (map (\<lambda>x. if quiet_dark m x y then [0x2588, 0x2588] else [32, 32]) [0..<span])
         @ RESET @ [10]) [0..<span])
     | HalfBlocks \<Rightarrow> concat (map (\<lambda>pair.
         INK @ map (\<lambda>x. half_block (quiet_dark m x (pair * 2)) (quiet_dark m x (pair * 2 + 1))) [0..<span]
         @ RESET @ [10]) [0..<div_ceil2 span]))"

definition qr_draw :: "modules \<Rightarrow> nat \<Rightarrow> drawing" where
  "qr_draw m available =
    (case qr_fit (md_size m) available of
       None \<Rightarrow> QrTooNarrow (qr_columns (md_size m) HalfBlocks) available
     | Some blocks \<Rightarrow> Code (draw_with m blocks))"

fun drawing_show :: "drawing \<Rightarrow> rstr" where
  "drawing_show (Code text) = text"
| "drawing_show (QrTooNarrow needed available) =
     lit ''the code needs '' @ dec_nat needed @ lit '' columns and this terminal has '' @ dec_nat available"

section \<open>What a scanner sees\<close>

text \<open>
  The lines of a drawing without the colour sequences, and the colour of the pixel at a position
  of the span: a full block is two cells wide, a half block two pixels tall.
\<close>

definition screen :: "rstr \<Rightarrow> rstr list" where
  "screen text = map (\<lambda>l. take (length l - length INK - length RESET) (drop (length INK) l)) (lines text)"

fun pixel :: "blocks \<Rightarrow> rstr list \<Rightarrow> nat \<Rightarrow> nat \<Rightarrow> bool" where
  "pixel FullBlocks ls x y \<longleftrightarrow> ls ! y ! (2 * x) = 0x2588 \<and> ls ! y ! (2 * x + 1) = 0x2588"
| "pixel HalfBlocks ls x y \<longleftrightarrow>
     ls ! (y div 2) ! x = 0x2588 \<or> (if even y then ls ! (y div 2) ! x = 0x2580 else ls ! (y div 2) ! x = 0x2584)"

lemma screen_rows:
  assumes "\<forall>r \<in> set rs. 10 \<notin> set r"
  shows "screen (concat (map (\<lambda>r. INK @ r @ RESET @ [10]) rs)) = rs"
  using assms
proof (induction rs)
  case (Cons r rs)
  have "10 \<notin> set (INK @ r @ RESET)"
    using Cons.prems by (simp add: INK_def RESET_def lit_Cons)
  from lines_Cons [OF this] have "lines (concat (map (\<lambda>r. INK @ r @ RESET @ [10]) (r # rs)))
      = strip_cr (INK @ r @ RESET) # lines (concat (map (\<lambda>r. INK @ r @ RESET @ [10]) rs))" by simp
  moreover have "strip_cr (INK @ r @ RESET) = INK @ r @ RESET"
    by (simp add: strip_cr_def RESET_def lit_Cons)
  ultimately show ?case using Cons by (simp add: screen_def)
qed (simp add: screen_def)

definition full_row :: "modules \<Rightarrow> nat \<Rightarrow> rstr" where
  "full_row m y = concat (map (\<lambda>x. if quiet_dark m x y then [0x2588, 0x2588] else [32, 32]) [0..<md_size m + 2 * QUIET])"

definition half_row :: "modules \<Rightarrow> nat \<Rightarrow> rstr" where
  "half_row m pair =
    map (\<lambda>x. half_block (quiet_dark m x (pair * 2)) (quiet_dark m x (pair * 2 + 1))) [0..<md_size m + 2 * QUIET]"

lemma concat_pairs:
  "length (concat (map (\<lambda>x. [f x, f x]) [0..<n])) = 2 * n"
  "x < n \<Longrightarrow> concat (map (\<lambda>x. [f x, f x]) [0..<n]) ! (2 * x) = f x
    \<and> concat (map (\<lambda>x. [f x, f x]) [0..<n]) ! (2 * x + 1) = f x"
proof (induction n)
  case (Suc n)
  {
    case 1
    show ?case using Suc.IH(1) by simp
  next
    case 2
    then show ?case using Suc.IH by (cases "x = n") (simp_all add: nth_append)
  }
qed simp_all

lemma full_row_pairs: "full_row m y = concat (map (\<lambda>x. [if quiet_dark m x y then 0x2588 else 32, if quiet_dark m x y then 0x2588 else 32])
    [0..<md_size m + 2 * QUIET])"
  unfolding full_row_def by (intro arg_cong [of _ _ concat] map_cong refl) simp

lemma half_block_not_lf [simp]: "half_block a b \<noteq> 10" "10 \<noteq> half_block a b"
  by (simp_all add: half_block_def split: bool.splits)

lemma screen_draw:
  "screen (draw_with m FullBlocks) = map (full_row m) [0..<md_size m + 2 * QUIET]"
  "screen (draw_with m HalfBlocks) = map (half_row m) [0..<div_ceil2 (md_size m + 2 * QUIET)]"
proof -
  have "screen (concat (map (\<lambda>r. INK @ r @ RESET @ [10]) (map (full_row m) [0..<md_size m + 2 * QUIET])))
      = map (full_row m) [0..<md_size m + 2 * QUIET]"
    by (rule screen_rows) (auto simp: full_row_def split: if_splits)
  then show "screen (draw_with m FullBlocks) = map (full_row m) [0..<md_size m + 2 * QUIET]"
    by (simp add: draw_with_def full_row_def comp_def Let_def)
  have "screen (concat (map (\<lambda>r. INK @ r @ RESET @ [10]) (map (half_row m) [0..<div_ceil2 (md_size m + 2 * QUIET)])))
      = map (half_row m) [0..<div_ceil2 (md_size m + 2 * QUIET)]"
    by (rule screen_rows) (auto simp: half_row_def)
  then show "screen (draw_with m HalfBlocks) = map (half_row m) [0..<div_ceil2 (md_size m + 2 * QUIET)]"
    by (simp add: draw_with_def half_row_def comp_def Let_def)
qed

lemma draw_shape:
  "length (screen (draw_with m blocks)) = qr_rows (md_size m) blocks"
  "l \<in> set (screen (draw_with m blocks)) \<Longrightarrow> length l = qr_columns (md_size m) blocks"
proof -
  show "length (screen (draw_with m blocks)) = qr_rows (md_size m) blocks"
    by (cases blocks) (simp_all add: screen_draw qr_rows_def)
  have "length (full_row m y) = 2 * (md_size m + 2 * QUIET)" for y
    unfolding full_row_pairs by (rule concat_pairs)
  then show "l \<in> set (screen (draw_with m blocks)) \<Longrightarrow> length l = qr_columns (md_size m) blocks"
    by (cases blocks) (auto simp: screen_draw qr_columns_def half_row_def)
qed

lemma pixel_drawn:
  assumes "x < md_size m + 2 * QUIET" "y < md_size m + 2 * QUIET"
  shows "pixel blocks (screen (draw_with m blocks)) x y = quiet_dark m x y"
proof (cases blocks)
  case FullBlocks
  let ?f = "\<lambda>x. if quiet_dark m x y then 0x2588 else 32 :: nat"
  have row: "screen (draw_with m FullBlocks) ! y = concat (map (\<lambda>x. [?f x, ?f x]) [0..<md_size m + 2 * QUIET])"
    using assms(2) by (simp add: screen_draw full_row_pairs)
  have "screen (draw_with m FullBlocks) ! y ! (2 * x) = ?f x"
    "screen (draw_with m FullBlocks) ! y ! (2 * x + 1) = ?f x"
    unfolding row using concat_pairs(2) [OF assms(1), of ?f] by blast+
  then show ?thesis by (simp add: FullBlocks)
next
  case HalfBlocks
  have "y div 2 < div_ceil2 (md_size m + 2 * QUIET)" using assms(2) unfolding div_ceil2_def by linarith
  then have cell: "screen (draw_with m HalfBlocks) ! (y div 2) ! x
      = half_block (quiet_dark m x (y div 2 * 2)) (quiet_dark m x (y div 2 * 2 + 1))"
    using assms(1) by (simp add: screen_draw half_row_def)
  have "y = (if even y then y div 2 * 2 else y div 2 * 2 + 1)" by presburger
  then show ?thesis
    unfolding HalfBlocks pixel.simps cell
    by (cases "even y") (auto simp: half_block_def split: bool.splits)
qed

lemma qr_draw_Code:
  assumes "qr_draw m available = Code text"
  shows "\<exists>blocks. text = draw_with m blocks \<and> qr_columns (md_size m) blocks \<le> available
    \<and> (blocks = HalfBlocks \<longrightarrow> available < qr_columns (md_size m) FullBlocks)"
  using assms by (auto simp: qr_draw_def qr_fit_def split: option.splits if_splits)

lemma qr_draw_TooNarrow:
  "(\<exists>n a. qr_draw m available = QrTooNarrow n a) \<longleftrightarrow> available < qr_columns (md_size m) HalfBlocks"
  by (auto simp: qr_draw_def qr_fit_def qr_columns_def)

lemma concat_grid_nth:
  "x < n \<Longrightarrow> y < k \<Longrightarrow> concat (map (\<lambda>y. map (\<lambda>x. f x y) [0..<n]) [0..<k]) ! (y * n + x) = f x y"
proof (induction k)
  case (Suc k)
  have len: "length (concat (map (\<lambda>y. map (\<lambda>x. f x y) [0..<n]) [0..<k])) = k * n" for k
    by (induction k) simp_all
  show ?case
  proof (cases "y = k")
    case True
    then show ?thesis using Suc.prems by (simp add: nth_append len)
  next
    case False
    then have "y < k" using Suc.prems by simp
    moreover from this have "y * n + x < k * n"
      using Suc.prems(1) by (metis add.commute add_less_cancel_left less_le_trans mult_Suc mult_le_mono1 Suc_leI)
    ultimately show ?thesis using Suc by (simp add: nth_append len)
  qed
qed simp

lemma qr_encode_dark:
  assumes "qr_encode (Some (side, get)) = Some m"
  shows "md_size m = side \<and> (\<forall>x < side. \<forall>y < side. is_dark m x y = get x y)"
  using assms by (auto simp: qr_encode_def modules_new_def is_dark_def concat_grid_nth split: if_splits)

lemma qr_encode_Some: "0 < side \<Longrightarrow> \<exists>m. qr_encode (Some (side, get)) = Some m"
proof -
  have len: "length (concat (map (\<lambda>y. map (\<lambda>x. get x y) [0..<side]) [0..<k])) = k * side" for k
    by (induction k) simp_all
  show "0 < side \<Longrightarrow> ?thesis" by (simp add: qr_encode_def modules_new_def len del: length_concat)
qed

end
