(* ===== verification/ExportRun.thy ===== *)
theory ExportRun
  imports JoinFacts Qr
begin

text \<open>
  \<open>anago join --export\<close> in \<open>crates/anago/src/join.rs\<close>: a phone is registered and its configuration is
  handed over as text, in a file or as a drawing. The file is taken before the code is spent; while
  the hub is asked its name may come to mean another file, which is then left alone.
\<close>

section \<open>The file that was taken\<close>

definition sys_fstat :: "nat \<Rightarrow> unit io" where
  "sys_fstat fd = sys_call (\<lambda>_ s. Inr ((), s))"

definition claimed_take :: "path \<Rightarrow> ('h, join_error, nat) run" where
  "claimed_take p = run_map_err (save_error (lit ''the config file'') (user_file p)) (on_files (open_new_private p))"

definition is_ours :: "path \<Rightarrow> nat \<Rightarrow> bool io" where
  "is_ours p fd =
    io_bind (io_catch (sys_fstat fd)) (\<lambda>held.
    io_bind (io_catch (sys_lstat p)) (\<lambda>named.
      io_return (case (held, named) of (Inr _, Inr (e, _)) \<Rightarrow> e = FileAt fd | _ \<Rightarrow> False)))"

definition claimed_fill :: "path \<Rightarrow> nat \<Rightarrow> rstr \<Rightarrow> ('h, join_error, unit) run" where
  "claimed_fill p fd text =
    run_then (run_map_err (save_error (lit ''the config file'') (user_file p))
      (on_files (io_then (sys_write fd (utf8 text)) (sys_fsync fd)))) (
    run_bind (run_catch (on_files (is_ours p fd))) (\<lambda>ours.
      if ours = Inr True then run_return () else run_throw (Taken p)))"

text \<open>\<open>Drop\<close> of a file that was not kept.\<close>

definition claimed_drop :: "path \<Rightarrow> nat \<Rightarrow> unit io" where
  "claimed_drop p fd =
    io_bind (is_ours p fd) (\<lambda>ours. if ours then io_ignore (sys_unlink p) else io_return ())"

section \<open>Handing over\<close>

datatype handover = HandText | HandFile path | HandQr nat

datatype handed = HandedText | HandedFile path | HandedQr

fun handover_claims :: "handover \<Rightarrow> path option" where
  "handover_claims (HandFile p) = Some p"
| "handover_claims HandText = None"
| "handover_claims (HandQr columns) = None"

fun handover_handed :: "handover \<Rightarrow> handed" where
  "handover_handed HandText = HandedText"
| "handover_handed (HandFile p) = HandedFile p"
| "handover_handed (HandQr columns) = HandedQr"

definition drawn_code :: "(rstr \<Rightarrow> (nat \<times> (nat \<Rightarrow> nat \<Rightarrow> bool)) option) \<Rightarrow> rstr \<Rightarrow> nat \<Rightarrow> join_error + rstr" where
  "drawn_code encoder text cols =
    attempt (ok_or (JoinBadResponse (lit ''the config is too long to put in a QR code'')) (qr_encode (encoder text))) (\<lambda>m.
      case qr_draw m cols of
        Code drawn \<Rightarrow> Inr drawn
      | QrTooNarrow needed available \<Rightarrow> Inl (JoinTooNarrow needed available))"

definition to_stdout :: "rstr \<Rightarrow> ('h, join_error, unit) run" where
  "to_stdout text = run_map_err Unsent (put_out text)"

definition hand_over ::
  "unicode \<Rightarrow> (rstr \<Rightarrow> (nat \<times> (nat \<Rightarrow> nat \<Rightarrow> bool)) option) \<Rightarrow> rstr \<Rightarrow> rstr \<Rightarrow> 16 word \<Rightarrow> private_key \<Rightarrow> handover
    \<Rightarrow> nat option \<Rightarrow> ('h, join_error, device_config) run"
where
  "hand_over u encoder body domain api_port key dest claimed =
    run_bind (run_lift (accepted u body domain api_port key)) (\<lambda>(config, profile).
    run_then
      (let text = expose (export_profile profile) in
       case dest of
         HandFile p \<Rightarrow> (case claimed of
             Some fd \<Rightarrow> claimed_fill p fd text
           | None \<Rightarrow> run_throw (Unsent (lit ''no file was claimed'')))
       | HandText \<Rightarrow> to_stdout text
       | HandQr cols \<Rightarrow> run_bind (run_lift (drawn_code encoder text cols)) to_stdout)
      (run_return config))"

section \<open>The run\<close>

definition with_claim :: "path option \<Rightarrow> (nat option \<Rightarrow> ('h, join_error, 'a) run) \<Rightarrow> ('h, join_error, 'a) run" where
  "with_claim claims body =
    (case claims of
       None \<Rightarrow> body None
     | Some p \<Rightarrow>
         run_bind (claimed_take p) (\<lambda>fd.
         run_bind (run_catch (body (Some fd))) (\<lambda>r.
           case r of
             Inr x \<Rightarrow> run_return x
           | Inl e \<Rightarrow> run_then (run_catch (on_files (claimed_drop p fd))) (run_throw e))))"

definition export_register ::
  "unicode \<Rightarrow> (rstr \<Rightarrow> (nat \<times> (nat \<Rightarrow> nat \<Rightarrow> bool)) option) \<Rightarrow> rstr \<Rightarrow> join_code \<Rightarrow> device_name \<Rightarrow> 16 word \<Rightarrow> handover
    \<Rightarrow> nat option \<Rightarrow> ('h, join_error, device_config \<times> handed) run"
where
  "export_register u encoder domain code name api_port dest claimed =
    run_bind (run_map_err JoinWg generate_keypair) (\<lambda>(private_key, public_key).
    run_bind (run_map_err JoinClient (ask (join_http_request domain api_port (join_body code name public_key)))) (\<lambda>response.
    if \<not> is_success response then
      run_throw (JoinRefused (explain_join u (cr_status response) (cr_body response)))
    else
      run_bind (run_catch (hand_over u encoder (cr_body response) domain api_port private_key dest claimed)) (\<lambda>r.
        case r of
          Inr config \<Rightarrow> run_return (config, handover_handed dest)
        | Inl e \<Rightarrow> post_registration u (cr_body response) domain api_port NOTHING_HANDED_OVER e)))"

definition export_conf ::
  "unicode \<Rightarrow> (rstr \<Rightarrow> (nat \<times> (nat \<Rightarrow> nat \<Rightarrow> bool)) option) \<Rightarrow> rstr \<Rightarrow> join_code \<Rightarrow> device_name \<Rightarrow> 16 word \<Rightarrow> handover
    \<Rightarrow> ('h, join_error, device_config \<times> handed) run"
where
  "export_conf u encoder domain code name api_port dest =
    run_then (run_map_err JoinWg check_keygen_from_env) (
    run_then
      (case dest of
         HandQr cols \<Rightarrow>
           let least = qr_columns SMALLEST HalfBlocks in
           if cols < least then run_throw (JoinTooNarrow least cols) else run_return ()
       | _ \<Rightarrow> run_return ())
      (with_claim (handover_claims dest) (export_register u encoder domain code name api_port dest)))"

section \<open>What is said afterwards\<close>

definition indented :: "rstr list \<Rightarrow> rstr" where
  "indented ls = concat (map (\<lambda>line. if line = [] then [10] else lit ''     '' @ line @ [10]) ls)"

definition export_note :: "device_name \<Rightarrow> handed \<Rightarrow> rstr" where
  "export_note name handed =
    (let n = name_str name in
     (case handed of
        HandedQr \<Rightarrow> lit ''This code carries the phone'' @ [39] @ lit ''s private key. Anything that can''
     @ [10] @ lit ''read it has the key.'' @ [10, 10]
      | _ \<Rightarrow> lit ''This is the phone'' @ [39] @ lit ''s private key, in plain text.'' @ [10, 10])
     @ (case handed of
        HandedFile path \<Rightarrow> indented [
          (lit ''It is in '') @ path @ (lit '' (0600). Move it to the phone, then''),
          (lit ''delete it: `rm '') @ path @ (lit ''`. Backups and cloud-synced''),
          (lit ''folders are the real risk '' @ [0x2014] @ lit '' a .conf left in''),
          (lit ''~/Documents copies itself somewhere quietly.'')]
      | HandedText \<Rightarrow> indented [
          (lit ''Move it to the phone, then take it off the screen and out''),
          (lit ''of the record. Both: neither on its own is enough.''),
          [],
          (lit ''`clear` (or Ctrl-L) takes it off the screen '' @ [0x2014] @ lit '' and puts it''),
          (lit ''in the scrollback. So clear that next, with your terminal'' @ [39] @ lit ''s''),
          (lit ''own command: Clear Scrollback in its menu, or''),
          (lit ''`clear-history` under tmux. In that order nothing is left;''),
          (lit ''clearing the record first only files the screen away after''),
          (lit ''it. Some terminals keep scrollback on disk, and over SSH''),
          (lit ''it is at both ends.''),
          [],
          (lit ''For a file, use --out rather than `>`: a shell redirect''),
          (lit ''takes its mode from your umask, which is usually 0644.''),
          (lit ''anago'' @ [39] @ lit ''s own file is 0600, and never replaces one that''),
          (lit ''is already there.'')]
      | HandedQr \<Rightarrow> indented [
          (lit ''Scan it, then take it off the screen and out of the''),
          (lit ''record. Both: neither on its own is enough.''),
          [],
          (lit ''`clear` (or Ctrl-L) takes it off the screen '' @ [0x2014] @ lit '' and puts it''),
          (lit ''in the scrollback. So clear that next, with your terminal'' @ [39] @ lit ''s''),
          (lit ''own command: Clear Scrollback in its menu, or''),
          (lit ''`clear-history` under tmux, which empties the record and''),
          (lit ''leaves what is on the pane exactly where it is. In that''),
          (lit ''order nothing is left.''),
          [],
          (lit ''A photograph of the screen keeps it too, and a QR is the''),
          (lit ''shape people photograph.''),
          [],
          (lit ''For a file instead, `--export conf --out <path>` writes''),
          (lit ''one at 0600.'')])
     @ [10]
     @ indented [
         (lit ''The hub knows this phone as '') @ n @ (lit '', like any other device.''),
         (lit ''What it cannot do is remove itself '' @ [0x2014] @ lit '' it has no anago and no''),
         (lit ''token '' @ [0x2014] @ lit '' so somebody else does: `anago rm '') @ n @ (lit ''` on the''),
         (lit ''hub, or on any device that has joined.'')]
     @ (if handed = HandedQr then [10] @ indented [
         (lit ''If the phone will not read it, that is the way out too:''),
         (lit ''some fonts draw the half-height blocks with a seam, and a''),
         (lit ''code nothing can scan cannot be re-sent '' @ [0x2014] @ lit '' the key is only''),
         (lit ''on this screen. `anago rm '') @ n @ (lit ''`, a fresh `anago code`,''),
         (lit ''then `--export conf` hands the same config over as text.'')]
        else []))"

section \<open>Files of others\<close>

text \<open>
  Other processes may rename, remove and create what they like while the hub is asked, but the
  number of a file that is still open is not given to another one.
\<close>

definition meddling :: "(fs \<Rightarrow> fs) \<Rightarrow> bool" where
  "meddling f \<longleftrightarrow> (\<forall>s. fs_ok s \<longrightarrow> fs_ok (f s) \<and> fs_next s \<le> fs_next (f s))"

text \<open>What is at the name and is not the file this run made.\<close>

definition foreign :: "fs \<Rightarrow> path \<Rightarrow> nat \<Rightarrow> entry \<Rightarrow> bool" where
  "foreign s p fd e \<longleftrightarrow> fs_names s p = Some e \<and> e \<noteq> FileAt fd"

lemma wp_is_ours:
  "wp env (is_ours p fd) (\<lambda>ours w'. w_fs w' = w_fs w \<and> (ours \<longrightarrow> fs_names (w_fs w) p = Some (FileAt fd))) R w"
  unfolding is_ours_def wp_simps sys_fstat_def sys_lstat_def wp_call
  by (auto split: option.split entry.split)

lemma wp_claimed_drop:
  "wp env (claimed_drop p fd) (\<lambda>_ w'. \<forall>q e. foreign (w_fs w) q fd e \<longrightarrow> fs_names (w_fs w') q = Some e) R w"
  unfolding claimed_drop_def wp_bind
  by (rule wp_mono [OF wp_is_ours [where R = R]])
    (auto simp: wp_simps foreign_def sys_unlink_def wp_call split: option.split entry.split)

end
