(* ===== verification/SyncRun.thy ===== *)
theory SyncRun
  imports JoinRun Render
begin

text \<open>
  \<open>crates/anago/src/sync.rs\<close>, the run: the device file is read, the hub is asked, and when its settings
  changed the configuration is written, handed to the kernel, and only then recorded in the device
  file. How a run ends, what it prints and what the quiet form keeps.
\<close>

section \<open>Endings\<close>

datatype ending = Fine | Passed | Stop

fun exit_code :: "ending \<Rightarrow> int" where
  "exit_code Fine = 0"
| "exit_code Passed = 0"
| "exit_code Stop = 1"

record synced =
  sy_ending :: ending
  sy_report :: rstr

fun ending_of :: "sync \<Rightarrow> ending" where
  "ending_of SyncUnchanged = Fine"
| "ending_of Unverifiable = Fine"
| "ending_of (Rewrite changes) = Fine"
| "ending_of (Detached detachment) = Stop"

fun sync_error_ending :: "sync_error \<Rightarrow> ending" where
  "sync_error_ending (Unreachable detail) = Passed"
| "sync_error_ending Busy = Passed"
| "sync_error_ending e = Stop"

fun sync_error_show :: "sync_error \<Rightarrow> rstr" where
  "sync_error_show (Unreachable detail) =
     lit ''could not reach the hub ('' @ detail @ lit ''). Nothing is wrong with the tunnel '' @ [0x2014] @ lit '' ''
     @ lit ''the hub routes between devices whether or not this one has synced''"
| "sync_error_show Busy =
     lit ''another sync is already running, so this one stopped '' @ [0x2014] @ lit '' whatever it ''
     @ lit ''finds is what this run would have found''"
| "sync_error_show (Untrusted detail) =
     lit ''the hub'' @ [39] @ lit ''s certificate did not verify: '' @ detail @ lit ''. On a caf'' @ [0xe9] @ lit '' or hotel ''
     @ lit ''network this is usually the portal intercepting the connection '' @ [0x2014] @ lit '' but a ''
     @ lit ''real interception looks the same, so nothing was sent''"
| "sync_error_show (SyncDetached detachment) = detachment_show detachment"
| "sync_error_show (NoDeviceFile path detail) =
     path @ lit '': '' @ detail @ lit ''. This device has not joined a hub, or the file was ''
     @ lit ''moved '' @ [0x2014] @ lit '' `anago join <domain> <code>` writes it''"
| "sync_error_show (SyncDeviceFile detail) = lit ''the device file is unusable: '' @ detail"
| "sync_error_show (SyncBadResponse detail) =
     lit ''the hub'' @ [39] @ lit ''s answer could not be read: '' @ detail @ lit ''. Nothing was changed''"
| "sync_error_show (SyncRefused detail) = lit ''the hub refused: '' @ detail"
| "sync_error_show (NoPrivateKey path detail) =
     lit ''the hub'' @ [39] @ lit ''s settings changed, but '' @ path @ lit '' has no key to build a new config ''
     @ lit ''from ('' @ detail @ lit ''). The private key exists only in that file, so there is ''
     @ lit ''nothing to repair '' @ [0x2014] @ lit '' join again with `anago join <domain> <code>`''"
| "sync_error_show (SyncWrite path detail) = lit ''could not write '' @ path @ lit '': '' @ detail"
| "sync_error_show (ApplyFailed detail) =
     lit ''the new config was written but `wg` would not take it: '' @ detail @ lit ''. The ''
     @ lit ''next run writes the same file and tries again''"

record hub_paths =
  hp_domain :: rstr
  hp_wg_config :: rstr
  hp_device_file :: rstr

definition sync_report :: "sync \<Rightarrow> hub_paths \<Rightarrow> bool \<Rightarrow> rstr" where
  "sync_report outcome hub quiet =
    (if quiet \<and> ending_of outcome \<noteq> Stop then []
     else
       let out = sync_summary outcome (hp_domain hub) in
       case outcome of
         Detached _ \<Rightarrow> trim_end out @ lit ''. To use this device again: ''
           @ rejoin_steps (hp_wg_config hub) (hp_device_file hub) @ [10]
       | _ \<Rightarrow> out)"

definition complaint :: "sync_error \<Rightarrow> bool \<Rightarrow> rstr" where
  "complaint e quiet =
    (if quiet \<and> sync_error_ending e \<noteq> Stop then [] else lit ''anago: '' @ sync_error_show e @ [10])"

section \<open>The directory of the device file\<close>

record home =
  ho_dir :: dir_handle
  ho_name :: rstr

definition home_path :: "home \<Rightarrow> path" where
  "home_path home = path_join (dh_path (ho_dir home)) (ho_name home)"

definition home_open :: "path \<Rightarrow> ('h, sync_error, home) run" where
  "home_open p =
    run_bind (run_lift (ok_or (NoDeviceFile p (lit ''it has no directory'')) (path_parent p))) (\<lambda>dir.
    run_bind (run_lift (ok_or (NoDeviceFile p (lit ''it has no file name'')) (path_file_name p))) (\<lambda>name.
    run_bind (run_map_err (\<lambda>e. NoDeviceFile p (snd e)) (on_files (dir_open dir))) (\<lambda>d.
    run_return \<lparr>ho_dir = d, ho_name = name\<rparr>)))"

definition home_read :: "unicode \<Rightarrow> home \<Rightarrow> ('h, sync_error, device_config) run" where
  "home_read u home =
    run_bind (run_map_err (\<lambda>e. NoDeviceFile (home_path home) (snd e)) (on_files (dir_read_to_string (ho_dir home) (ho_name home)))) (\<lambda>text.
    run_lift (map_err (\<lambda>e. SyncDeviceFile (join_error_show u e)) (device_parse u text)))"

definition home_owner :: "home \<Rightarrow> ('h, sync_error, nat \<times> nat) run" where
  "home_owner home =
    run_map_err (\<lambda>e. NoDeviceFile (home_path home) (snd e)) (on_files (dir_owner_of (ho_dir home) (ho_name home)))"

definition home_lock :: "home \<Rightarrow> ('h, sync_error, unit) run" where
  "home_lock home =
    run_bind (run_catch (home_owner home)) (\<lambda>owner.
    run_bind (run_catch (on_files (dir_try_lock (ho_dir home) SYNC_LOCK (case owner of Inr o' \<Rightarrow> Some o' | Inl _ \<Rightarrow> None)))) (\<lambda>taken.
      case taken of
        Inr True \<Rightarrow> run_return ()
      | Inr False \<Rightarrow> run_throw Busy
      | Inl e \<Rightarrow> run_throw (SyncWrite (path_join (dh_path (ho_dir home)) SYNC_LOCK) (snd e))))"

definition home_write :: "home \<Rightarrow> device_config \<Rightarrow> ('h, sync_error, unit) run" where
  "home_write home config =
    run_bind (home_owner home) (\<lambda>owner.
    run_map_err (\<lambda>e. SyncWrite (home_path home) (snd e))
      (on_files (dir_write_private (ho_dir home) (ho_name home) (device_to_json_string config) (Some owner))))"

text \<open>The second argument is \<open>paths::client_config_dir_from_env\<close>.\<close>

definition sync_device_file :: "path option \<Rightarrow> path_error + client_paths \<Rightarrow> sync_error + path" where
  "sync_device_file config_path from_env =
    (case config_path of
       Some p \<Rightarrow> Inr p
     | None \<Rightarrow> (case from_env of
           Inr paths \<Rightarrow> Inr (device_file paths)
         | Inl e \<Rightarrow> Inl (SyncDeviceFile (path_error_show e))))"

section \<open>Asking the hub\<close>

fun unreachable_or_worse :: "unicode \<Rightarrow> client_error \<Rightarrow> sync_error" where
  "unreachable_or_worse u e =
    (case e of
       Resolve _ _ \<Rightarrow> Unreachable (client_error_show u e)
     | Connect _ _ \<Rightarrow> Unreachable (client_error_show u e)
     | Timeout _ _ \<Rightarrow> Unreachable (client_error_show u e)
     | ClientIo _ \<Rightarrow> Unreachable (client_error_show u e)
     | TlsFailed _ \<Rightarrow> Untrusted (client_error_show u e)
     | NoRoots \<Rightarrow> Untrusted (client_error_show u e)
     | BadHost _ \<Rightarrow> SyncDeviceFile (client_error_show u e)
     | BadHeaderValue _ \<Rightarrow> SyncDeviceFile (client_error_show u e)
     | TooLarge _ \<Rightarrow> SyncBadResponse (client_error_show u e)
     | BadResponse _ \<Rightarrow> SyncBadResponse (client_error_show u e))"

definition peers_request :: "device_config \<Rightarrow> device_token \<Rightarrow> client_request" where
  "peers_request config token =
    \<lparr>rq_method = Get, rq_host = dc_domain config, rq_port = dc_api_port config, rq_path = PATH_PEERS,
      rq_body = None, rq_authorization = Some (device_header (token_str token))\<rparr>"

definition sync_ask_hub :: "unicode \<Rightarrow> device_config \<Rightarrow> ('h, sync_error, peers_response) run" where
  "sync_ask_hub u config =
    run_bind (run_lift (map_err (\<lambda>e. SyncDeviceFile (lit ''token: '' @ token_error_show u e)) (token_parse (dc_token config)))) (\<lambda>token.
    run_bind (run_map_err (unreachable_or_worse u) (ask (peers_request config token))) (\<lambda>response.
    if cr_status response = 401 then run_throw (SyncDetached DetachUnauthorized)
    else if \<not> is_success response then
      run_throw (SyncRefused (fl_message (describe u (cr_status response) (cr_body response))))
    else
      run_bind (run_lift (map_err (\<lambda>e. SyncBadResponse (json_error_show e)) (json_parse u (cr_body response)))) (\<lambda>v.
      run_lift (map_err (\<lambda>e. SyncBadResponse (decode_error_show u e)) (peers_response_from_json v)))))"

section \<open>Applying what changed\<close>

definition stripped_at :: "path \<Rightarrow> path" where
  "stripped_at wg_config =
    path_with_file_name wg_config ((case path_file_name wg_config of Some n \<Rightarrow> n | None \<Rightarrow> []) @ lit ''.stripped'')"

text \<open>\<open>Stripped::write\<close>, its use, and its \<open>Drop\<close> on every way out.\<close>

definition with_stripped :: "path \<Rightarrow> rstr \<Rightarrow> (path \<Rightarrow> ('h, sync_error, 'a) run) \<Rightarrow> ('h, sync_error, 'a) run" where
  "with_stripped wg_config contents body =
    (let p = stripped_at wg_config in
     run_then (run_map_err (\<lambda>e. SyncWrite p (snd e)) (on_files (write_private p contents))) (
     run_bind (run_catch (body p)) (\<lambda>r.
     run_then (run_catch (on_files (sys_unlink p))) (run_lift r))))"

definition usable_key :: "rstr \<Rightarrow> rstr option" where
  "usable_key existing =
    Option.bind (private_key_line existing) (\<lambda>text. case parse_key text of Inr key \<Rightarrow> Some key | Inl _ \<Rightarrow> None)"

definition sync_apply :: "unicode \<Rightarrow> device_config \<Rightarrow> reported option \<Rightarrow> path \<Rightarrow> home \<Rightarrow> ('h, sync_error, unit) run" where
  "sync_apply u config rep wg_config home =
    run_bind (run_map_err (\<lambda>e. NoPrivateKey wg_config (snd e)) (on_files (fs_read_to_string wg_config))) (\<lambda>existing.
    run_bind (run_lift (ok_or (NoPrivateKey wg_config (lit ''no usable PrivateKey line'')) (usable_key existing))) (\<lambda>key.
    run_bind (run_lift (profile_of u (updated config rep) (PrivateKey key))) (\<lambda>profile.
    run_then (run_map_err (\<lambda>e. SyncWrite wg_config (snd e)) (on_files (write_private wg_config (expose (client_config profile))))) (
    run_bind (run_map_err (\<lambda>e. ApplyFailed (wg_error_show e)) (stripped_config wg_config (expose (client_config profile)))) (\<lambda>stripped.
    run_then (with_stripped wg_config stripped (\<lambda>p.
      run_map_err (\<lambda>e. ApplyFailed (wg_error_show e)) (run_cmd (syncconf (interface_of wg_config) p) None)))
    (home_write home (updated config rep)))))))"

section \<open>The run\<close>

definition synced_as :: "sync \<Rightarrow> hub_paths \<Rightarrow> bool \<Rightarrow> synced" where
  "synced_as outcome hub quiet = \<lparr>sy_ending = ending_of outcome, sy_report = sync_report outcome hub quiet\<rparr>"

definition sync_attempt ::
  "unicode \<Rightarrow> path option \<Rightarrow> path_error + client_paths \<Rightarrow> path \<Rightarrow> bool \<Rightarrow> ('h, sync_error, synced) run"
where
  "sync_attempt u config_path from_env wg_config quiet =
    run_bind (run_lift (sync_device_file config_path from_env)) (\<lambda>p.
    run_bind (home_open p) (\<lambda>home.
    run_bind (home_read u home) (\<lambda>config.
    run_bind (run_lift (local_of u config)) (\<lambda>loc.
    run_then (home_lock home) (
    let hub = \<lparr>hp_domain = dc_domain config, hp_wg_config = wg_config, hp_device_file = home_path home\<rparr> in
    run_bind (run_catch (sync_ask_hub u config)) (\<lambda>asked.
      case asked of
        Inl (SyncDetached detachment) \<Rightarrow> run_return (synced_as (Detached detachment) hub quiet)
      | Inl e \<Rightarrow> run_throw e
      | Inr response \<Rightarrow>
          run_bind (run_lift (reported_of u response)) (\<lambda>rep.
          run_bind (run_lift (roster_of u response)) (\<lambda>roster.
          let outcome = sync_decide loc rep roster in
          run_then
            (case outcome of Rewrite _ \<Rightarrow> sync_apply u config rep wg_config home | _ \<Rightarrow> run_return ())
            (run_return (synced_as outcome hub quiet))))))))))"

definition sync_run ::
  "unicode \<Rightarrow> path option \<Rightarrow> path_error + client_paths \<Rightarrow> path \<Rightarrow> bool \<Rightarrow> ('h, sync_error, synced) run"
where
  "sync_run u config_path from_env wg_config quiet =
    run_bind (run_catch (sync_attempt u config_path from_env wg_config quiet)) (\<lambda>r.
      run_return (case r of
          Inr s \<Rightarrow> s
        | Inl e \<Rightarrow> \<lparr>sy_ending = sync_error_ending e, sy_report = complaint e quiet\<rparr>))"

end
