(* ===== verification/DeviceFacts.thy ===== *)
theory DeviceFacts
  imports Device
begin

text \<open>
  Facts about a device's data: the device file reads back as written, an endpoint that is accepted is
  a host name and a port, and the configuration rendered from a hub's answer has the lines the program
  meant and no others, whatever the hub sent.
\<close>

section \<open>The device file\<close>

definition device_ok :: "device_config \<Rightarrow> bool" where
  "device_ok c \<longleftrightarrow> dc_api_port c \<noteq> 0 \<and> valid_str (dc_domain c) \<and> valid_str (dc_name c) \<and> valid_str (dc_address c)
    \<and> valid_str (dc_subnet c) \<and> valid_str (dc_token c) \<and> valid_str (dc_server_public_key c)
    \<and> valid_str (dc_server_endpoint c) \<and> valid_str (dc_server_address c)"

lemma port_range: "0 \<le> uint (p :: 16 word)" "uint p \<le> 65535"
  using unsigned_less [of p, where 'a = int] by simp_all

lemma port_int: "(p :: 16 word) \<noteq> 0 \<Longrightarrow> 0 < int (unat p) \<and> int (unat p) \<le> 65535 \<and> of_int (int (unat p)) = p"
  using port_range [of p] by (simp add: uint_0_iff le_less)

lemma port_back: "0 < n \<Longrightarrow> n \<le> 65535 \<Longrightarrow> (of_int n :: 16 word) \<noteq> 0"
  by (simp add: word_of_int_eq_0_iff zdvd_not_zless)

lemma device_json_facts:
  assumes "device_ok c"
  shows "wf_json (device_to_json c)" "json_depth (device_to_json c) \<le> MAX_DEPTH"
proof -
  have "in_i64 n" if "0 \<le> n" "n \<le> 65535" for n using that by (simp add: i64_defs)
  from this [OF port_range] have "in_i64 (int (unat (dc_api_port c)))" by simp
  with assms show "wf_json (device_to_json c)"
    by (simp add: device_to_json_def value_obj_def device_ok_def DEVICE_SCHEMA_def i64_defs)
  show "json_depth (device_to_json c) \<le> MAX_DEPTH"
    by (simp add: device_to_json_def value_obj_def MAX_DEPTH_def)
qed

lemma device_parse_written:
  assumes "device_ok c"
  shows "device_parse u (device_to_json_string c) = Inr c"
proof -
  have "json_parse u (device_to_json_string c) = Inr (device_to_json c)"
    using json_parse_written [OF device_json_facts [OF assms], of "[]"]
    by (simp add: device_to_json_string_def to_string_pretty_def)
  moreover have "object_of (device_to_json c) = Inr (the (as_object (device_to_json c)))"
    by (simp add: device_to_json_def value_obj_def)
  ultimately show ?thesis
    using assms port_int [of "dc_api_port c"]
    by (simp add: device_parse_def device_to_json_def value_obj_def obj_get_def device_field_def string_field_def
        DEVICE_SCHEMA_def device_ok_def)
qed

lemma device_parse_ok:
  assumes "device_parse u text = Inr c"
  shows "device_ok c"
proof -
  from assms obtain obj where p: "json_parse u text = Inr (JObj obj)"
    and strings: "string_field obj (lit ''domain'') = Inr (dc_domain c)" "string_field obj (lit ''name'') = Inr (dc_name c)"
      "string_field obj (lit ''address'') = Inr (dc_address c)" "string_field obj (lit ''subnet'') = Inr (dc_subnet c)"
      "string_field obj (lit ''token'') = Inr (dc_token c)" "string_field obj (lit ''server_public_key'') = Inr (dc_server_public_key c)"
      "string_field obj (lit ''server_endpoint'') = Inr (dc_server_endpoint c)"
      "string_field obj (lit ''server_address'') = Inr (dc_server_address c)"
    and port: "\<exists>n. 0 < n \<and> n \<le> 65535 \<and> of_int n = dc_api_port c"
    by (fastforce simp: device_parse_def device_field_def result_simps object_of_Inr bind_eq_Some_conv split: if_splits)
  from json_parse_sound [OF p] have wf: "wf_json (JObj obj)" by blast
  have "dc_api_port c \<noteq> 0" using port port_back by metis
  then show ?thesis unfolding device_ok_def using strings [THEN string_field_valid [OF wf]] by blast
qed

section \<open>Endpoints\<close>

definition endpoint_ok :: "rstr \<Rightarrow> bool" where
  "endpoint_ok e \<longleftrightarrow> (\<exists>host port. e = host @ [58] @ dec_nat port \<and> host \<noteq> [] \<and> (\<forall>c \<in> set host. is_host_char c)
     \<and> 0 < port \<and> port \<le> 65535)"

lemma rsplit_once_append: "x \<notin> set b \<Longrightarrow> rsplit_once x (a @ x # b) = Some (a, b)"
  using split_once_append [of x "rev b" "rev a"] by (simp add: rsplit_once_def)

lemma host_char_facts: "is_host_char c \<Longrightarrow> c < 0x80 \<and> \<not> is_ws c \<and> c \<noteq> 58 \<and> c \<noteq> 61"
  by (auto simp: is_host_char_def char_class_defs is_ws_def)

lemma checked_endpoint_ok: "checked_endpoint u text = Inr e \<Longrightarrow> endpoint_ok e"
proof -
  assume "checked_endpoint u text = Inr e"
  then obtain host t port where "host \<noteq> []" "\<forall>c \<in> set host. is_host_char c"
    and t: "parse_unsigned 65535 t = Some port" and "port \<noteq> 0" "e = host @ [58] @ dec_nat port"
    by (auto simp: checked_endpoint_def Let_def result_simps split: if_splits)
  moreover have "port \<le> 65535" using t by (auto simp: parse_unsigned_def Let_def split: if_splits)
  ultimately show ?thesis unfolding endpoint_ok_def by blast
qed

lemma checked_endpoint_id: "endpoint_ok e \<Longrightarrow> checked_endpoint u e = Inr e"
proof -
  assume "endpoint_ok e"
  then obtain host port where e: "e = host @ 58 # dec_nat port" "host \<noteq> []" "\<forall>c \<in> set host. is_host_char c"
    "0 < port" "port \<le> 65535" by (auto simp: endpoint_ok_def)
  have "rsplit_once 58 e = Some (host, dec_nat port)"
    unfolding e(1) by (rule rsplit_once_append) (simp add: is_digit_def)
  with e show ?thesis by (simp add: checked_endpoint_def Let_def)
qed

interpretation endpoint_text: text_form "\<lambda>e. e" "checked_endpoint u" endpoint_ok for u
  by unfold_locales (auto intro: checked_endpoint_id checked_endpoint_ok)

lemma endpoint_plain: "endpoint_ok e \<Longrightarrow> c \<in> set e \<Longrightarrow> c < 0x80 \<and> \<not> is_ws c"
proof -
  assume "endpoint_ok e" and c: "c \<in> set e"
  then obtain host port where "e = host @ [58] @ dec_nat port" "\<forall>c \<in> set host. is_host_char c"
    unfolding endpoint_ok_def by blast
  with c have "is_host_char c \<or> c = 58 \<or> is_digit c" using dec_nat_digit by auto
  moreover have "is_digit c \<Longrightarrow> is_host_char c" by (simp add: is_host_char_def is_ascii_alnum_def)
  moreover have "\<not> is_ws 58" by (simp add: is_ws_def)
  ultimately show "c < 0x80 \<and> \<not> is_ws c" using host_char_facts [of c] by auto
qed

section \<open>No line but the program's\<close>

definition client_lines :: "client_profile \<Rightarrow> rstr list" where
  "client_lines p =
    [lit ''[Interface]'', lit ''# anago '' @ [0x2014] @ lit '' generated file, edits are overwritten'',
     lit ''Address = '' @ ipv4_show (cp_address p) @ lit ''/24'', lit ''PrivateKey = '' @ private_key_str (cp_private_key p), [],
     lit ''[Peer]'', lit ''# anago server'', lit ''PublicKey = '' @ cp_server_public_key p,
     lit ''Endpoint = '' @ cp_server_endpoint p, lit ''AllowedIPs = '' @ subnet_show (cp_subnet p), lit ''PersistentKeepalive = 25'']"

definition profile_ok :: "client_profile \<Rightarrow> bool" where
  "profile_ok p \<longleftrightarrow> key_ok (private_key_str (cp_private_key p)) \<and> key_ok (cp_server_public_key p)
     \<and> endpoint_ok (cp_server_endpoint p)"

lemma key_plain: "key_ok k \<Longrightarrow> plain_line k"
  by (rule plain_line_no_ws) (simp add: key_ok_no_ws)

lemma render_client_unlines: "render_client p True = unlines (client_lines p)"
  by (simp add: render_client_def client_lines_def PREFIX_LEN_def PERSISTENT_KEEPALIVE_SECS_def dec_nat.simps lit_Cons)

lemma subnet_show_no_ws: "c \<in> set (subnet_show s) \<Longrightarrow> \<not> is_ws c"
  by (cases s; cases "network s") (auto simp: subnet_show_def PREFIX_LEN_def is_ws_def is_digit_def dest!: dec_nat_digit)

lemma client_lines_plain: "profile_ok p \<Longrightarrow> l \<in> set (client_lines p) \<Longrightarrow> plain_line l"
proof -
  assume ok: "profile_ok p" and l: "l \<in> set (client_lines p)"
  have "plain_line (cp_server_endpoint p)"
    using ok by (intro plain_line_no_ws) (auto simp: profile_ok_def dest: endpoint_plain)
  moreover have "plain_line (subnet_show (cp_subnet p))" by (rule plain_line_no_ws) (rule subnet_show_no_ws)
  moreover have "plain_line (ipv4_show (cp_address p))"
    by (cases "cp_address p") (auto simp: plain_line_def is_digit_def)
  ultimately show ?thesis
    using ok l key_plain by (auto simp: client_lines_def profile_ok_def lit_Cons)
qed

lemma client_config_lines: "profile_ok p \<Longrightarrow> lines (expose (client_config p)) = client_lines p"
  by (simp add: client_config_def render_client_unlines lines_unlines client_lines_plain)

lemma accepted_profile:
  assumes "accepted u body domain port key = Inr (config, profile)" "key_ok (private_key_str key)"
  shows "profile_ok profile" "cp_private_key profile = key"
proof -
  from assms(1) have p: "device_profile u config key = Inr profile"
    by (auto simp: accepted_def Let_def result_simps)
  then show "cp_private_key profile = key" by (auto simp: device_profile_def result_simps)
  from p obtain a b k e where "profile = \<lparr>cp_address = a, cp_subnet = b, cp_private_key = key,
      cp_server_public_key = k, cp_server_endpoint = e\<rparr>"
    and "parse_key (dc_server_public_key config) = Inr k" "checked_endpoint u (dc_server_endpoint config) = Inr e"
    by (auto simp: device_profile_def result_simps)
  with assms(2) show "profile_ok profile"
    by (auto simp: profile_ok_def parse_key_iff dest: checked_endpoint_ok)
qed

end
