(* ===== verification/SyncFacts.thy ===== *)
theory SyncFacts
  imports SyncRun RunLogic DeviceFacts
begin

text \<open>
  What a sync leaves: the device file is recorded last, so a run that fails at any step leaves it as
  it was and the next run decides the same again; a run that ends well has written both files, has
  handed the kernel the new configuration, and finds nothing to do the next time the hub says the same.
\<close>

section \<open>Files\<close>

definition home_temp :: "sys_env \<Rightarrow> home \<Rightarrow> path" where
  "home_temp env home = path_join (dh_path (ho_dir home)) (ho_name home @ create_sibling env)"

text \<open>The names a sync uses are not one another.\<close>

definition sync_names :: "sys_env \<Rightarrow> home \<Rightarrow> path \<Rightarrow> bool" where
  "sync_names env home p \<longleftrightarrow> path_file_name p \<noteq> None \<and> component (ho_name home)
    \<and> distinct [p, home_path home, wg_temp p, stripped_at p, wg_temp (stripped_at p), home_temp env home]"

definition sync_scratch :: "path \<Rightarrow> path set" where
  "sync_scratch p = {p, wg_temp p, stripped_at p, wg_temp (stripped_at p)}"

lemma stripped_has_name: "path_file_name p \<noteq> None \<Longrightarrow> path_file_name (stripped_at p) \<noteq> None"
proof -
  assume "path_file_name p \<noteq> None"
  then obtain n where n: "path_file_name p = Some n" by auto
  have "path_file_name (path_with_file_name p (n @ lit ''.stripped'')) = Some (n @ lit ''.stripped'')"
    by (rule sibling_name [OF n]) (simp_all add: lit_def)
  with n show ?thesis by (simp add: stripped_at_def)
qed

lemma rp_dir_write_private:
  assumes "component m" "fs_ok (files s)"
  shows "rp env (on_files (dir_write_private d m contents owner))
    (\<lambda>_ s'. si_hub s' = si_hub s
      \<and> frame (files s) {path_join (dh_path d) m, path_join (dh_path d) (m @ create_sibling (de_sys env))} (files s')
      \<and> look (files s') (path_join (dh_path d) m) =
          Some (Inl (finished (utf8 contents) (dir_mode (de_sys env)) (given owner (de_sys env)))))
    (\<lambda>_ s'. si_hub s' = si_hub s
      \<and> frame (files s) {path_join (dh_path d) (m @ create_sibling (de_sys env))} (files s')) s"
proof -
  let ?t = "path_join (dh_path d) (m @ create_sibling (de_sys env))"
  show ?thesis
    unfolding rp_on_files
    by (rule wp_mono [OF wp_dir_write_private [OF assms(1) refl refl harmless_start [OF assms(2)]]])
      (use assms(2) in \<open>auto simp: frame_def published_def
        dest!: harmless_scratched scratched_frame [where T = "{?t}"]\<close>)
qed

text \<open>Who owns the entry at a name.\<close>

definition owner_at :: "fs \<Rightarrow> path \<Rightarrow> (nat \<times> nat) option" where
  "owner_at s p = (case look s p of
     Some (Inl f) \<Rightarrow> Some (f_owner f)
   | Some (Inr (DirAt own)) \<Rightarrow> Some own
   | Some (Inr (LinkAt own)) \<Rightarrow> Some own
   | _ \<Rightarrow> None)"

lemma rp_home_owner:
  assumes "component (ho_name home)"
  shows "rp env (home_owner home)
    (\<lambda>own s'. files s' = files s \<and> si_hub s' = si_hub s \<and> owner_at (files s) (home_path home) = Some own)
    (\<lambda>_ s'. files s' = files s \<and> si_hub s' = si_hub s) s"
  unfolding home_owner_def rp_map_err rp_on_files dir_owner_of_def wp_bind wp_c_name [OF assms] sys_lstat_def wp_call
  by (auto simp: wp_simps owner_at_def home_path_def look_def split: option.split entry.split prod.split)

lemma rp_home_write:
  assumes "component (ho_name home)" "fs_ok (files s)"
  shows "rp env (home_write home config)
    (\<lambda>_ s'. si_hub s' = si_hub s \<and> frame (files s) {home_path home, home_temp (de_sys env) home} (files s')
      \<and> (\<exists>own. owner_at (files s) (home_path home) = Some own
          \<and> look (files s') (home_path home) =
              Some (Inl (finished (utf8 (device_to_json_string config)) (dir_mode (de_sys env)) own))))
    (\<lambda>_ s'. si_hub s' = si_hub s \<and> frame (files s) {home_temp (de_sys env) home} (files s')) s"
  unfolding home_write_def rp_bind
proof (rule rp_mono [OF rp_home_owner [OF assms(1)]], goal_cases)
  case (1 own s1)
  then have ok1: "fs_ok (files s1)" using assms(2) by simp
  show ?case
    unfolding rp_map_err
    by (rule rp_mono [OF rp_dir_write_private [OF assms(1) ok1]])
      (use 1 in \<open>auto simp: home_path_def home_temp_def given_def\<close>)
qed (use assms(2) in \<open>simp add: frame_refl\<close>)

lemma rp_run_cmd:
  "rp env (run_cmd c input) (\<lambda>out s'. s' = s \<and> de_wg env c input (files s) = Inr out) (\<lambda>_ s'. s' = s) s"
  by (auto simp: rp_def run_cmd_def split: sum.split prod.split)

section \<open>Applying\<close>

lemma rp_with_stripped:
  assumes name: "path_file_name p \<noteq> None" and ok: "fs_ok (files s)"
  shows "rp env (with_stripped p contents (\<lambda>q. run_map_err g (run_cmd (c q) None)))
    (\<lambda>_ s'. si_hub s' = si_hub s \<and> frame (files s) {stripped_at p, wg_temp (stripped_at p)} (files s')
      \<and> (\<exists>t out. frame (files s) {stripped_at p, wg_temp (stripped_at p)} t
          \<and> reads (de_sys env) t (stripped_at p) = Some (utf8 contents)
          \<and> de_wg env (c (stripped_at p)) None t = Inr out))
    (\<lambda>_ s'. si_hub s' = si_hub s \<and> frame (files s) {stripped_at p, wg_temp (stripped_at p)} (files s')) s"
proof -
  let ?q = "stripped_at p" and ?T = "{stripped_at p, wg_temp (stripped_at p)}"
  show ?thesis
    unfolding with_stripped_def Let_def rp_then [of env "run_map_err _ _" "run_bind _ _"] rp_map_err
  proof (rule rp_mono [OF rp_write_wg [OF stripped_has_name [OF name] ok]], goal_cases)
    case (1 x s1)
    then have f1: "frame (files s) ?T (files s1)" and h1: "si_hub s1 = si_hub s"
      and r1: "reads (de_sys env) (files s1) ?q = Some (utf8 contents)"
      by (auto simp: reads_file finished_def)
    have drop: "rp env (run_then (run_catch (on_files (sys_unlink ?q))) (run_lift r)) Q R s1"
      if "\<And>x s'. r = Inr x \<Longrightarrow> si_hub s' = si_hub s \<Longrightarrow> frame (files s) ?T (files s') \<Longrightarrow> Q x s'"
        "\<And>e s'. r = Inl e \<Longrightarrow> si_hub s' = si_hub s \<Longrightarrow> frame (files s) ?T (files s') \<Longrightarrow> R e s'" for r Q R
    proof -
      have all: "frame (files s) ?T (files s')" if "lessened (files s1) {?q} (files s')" for s' :: "'a site"
        using that f1 by (auto simp: lessened_def frame_def)
      show ?thesis
        unfolding rp_then
        by (rule rp_mono [OF rp_unlink [OF frame_ok [OF f1]]])
          (use that all h1 in \<open>auto simp: rp_simps split: sum.split\<close>)
    qed
    show ?case
      unfolding rp_bind rp_catch rp_map_err
      by (rule rp_mono [OF rp_run_cmd]) (auto intro!: drop simp: h1 intro: f1 r1)
  next
    case (2 e s1)
    then show ?case using frame_mono by auto
  qed
qed

text \<open>The kernel took the configuration: it was stripped from the file and the stripped text handed over.\<close>

definition handed_over :: "'h dev_env \<Rightarrow> path \<Rightarrow> client_profile \<Rightarrow> bool" where
  "handed_over env p profile \<longleftrightarrow> (\<exists>t stripped t' out.
     reads (de_sys env) t p = Some (utf8 (expose (client_config profile)))
     \<and> de_wg env (quick_strip p) None t = Inr stripped
     \<and> reads (de_sys env) t' (stripped_at p) = Some (utf8 stripped)
     \<and> de_wg env (syncconf (interface_of p) (stripped_at p)) None t' = Inr out)"

definition applied ::
  "unicode \<Rightarrow> 'h dev_env \<Rightarrow> device_config \<Rightarrow> path \<Rightarrow> home \<Rightarrow> fs \<Rightarrow> fs \<Rightarrow> bool"
where
  "applied u env config p home s0 s \<longleftrightarrow> (\<exists>existing key profile own.
     reads (de_sys env) s0 p = Some (utf8 existing) \<and> usable_key existing = Some key
     \<and> profile_of u config (PrivateKey key) = Inr profile
     \<and> look s p = Some (Inl (finished (utf8 (expose (client_config profile))) PRIVATE_FILE_MODE (se_self (de_sys env))))
     \<and> owner_at s0 (home_path home) = Some own
     \<and> look s (home_path home) = Some (Inl (finished (utf8 (device_to_json_string config)) (dir_mode (de_sys env)) own))
     \<and> handed_over env p profile)"

lemma owner_at_look: "look s p = look s' p \<Longrightarrow> owner_at s p = owner_at s' p"
  by (simp add: owner_at_def)

lemma rp_sync_apply:
  assumes names: "sync_names (de_sys env) home p" and ok: "fs_ok (files s)"
  shows "rp env (sync_apply u config rep p home)
    (\<lambda>_ s'. si_hub s' = si_hub s
      \<and> frame (files s) (sync_scratch p \<union> {home_path home, home_temp (de_sys env) home}) (files s')
      \<and> applied u env (updated config rep) p home (files s) (files s'))
    (\<lambda>_ s'. si_hub s' = si_hub s \<and> frame (files s) (sync_scratch p \<union> {home_temp (de_sys env) home}) (files s')) s"
proof -
  let ?e = "de_sys env" and ?c = "updated config rep" and ?D = "home_path home" and ?t = "home_temp (de_sys env) home"
  let ?Q = "\<lambda>_ s'. si_hub s' = si_hub s \<and> frame (files s) (sync_scratch p \<union> {?D, ?t}) (files s')
      \<and> applied u env ?c p home (files s) (files s')"
  let ?R = "\<lambda>_ s'. si_hub s' = si_hub s \<and> frame (files s) (sync_scratch p \<union> {?t}) (files s')"
  have n: "path_file_name p \<noteq> None" "component (ho_name home)" using names by (simp_all add: sync_names_def)
  have apart: "?D \<notin> sync_scratch p" "p \<noteq> ?D" "p \<noteq> ?t" "p \<noteq> stripped_at p" "p \<noteq> wg_temp (stripped_at p)" "?D \<noteq> ?t"
    using names by (auto simp: sync_names_def sync_scratch_def)
  have last: "rp env (home_write home ?c) ?Q ?R s3"
    if "si_hub s3 = si_hub s" "frame (files s) (sync_scratch p) (files s3)"
      and r: "reads ?e (files s) p = Some (utf8 existing)" "usable_key existing = Some key"
        "profile_of u ?c (PrivateKey key) = Inr profile"
      and l: "look (files s3) p = Some (Inl (finished (utf8 (expose (client_config profile))) PRIVATE_FILE_MODE (se_self ?e)))"
      and k: "handed_over env p profile" for s3 existing key profile
  proof (rule rp_mono [OF rp_home_write [OF n(2) frame_ok [OF that(2)]]], goal_cases)
    case (1 x s4)
    then obtain own where own: "owner_at (files s3) ?D = Some own"
      and D: "look (files s4) ?D = Some (Inl (finished (utf8 (device_to_json_string ?c)) (dir_mode ?e) own))" by blast
    have "owner_at (files s) ?D = Some own"
      using own frame_look [OF that(2) apart(1)] owner_at_look by metis
    moreover have "look (files s4) p = look (files s3) p" using 1 apart by (auto intro: frame_look)
    ultimately have "applied u env ?c p home (files s) (files s4)"
      unfolding applied_def using r l k D by auto
    then show ?case using 1 that(1) frame_mono [OF frame_trans [OF that(2)], of "{?D, ?t}" "files s4"] by auto
  next
    case (2 e s4)
    then show ?case using that(1) frame_mono [OF frame_trans [OF that(2)], of "{?t}" "files s4"] by auto
  qed
  have hand: "rp env (run_bind (run_map_err g (stripped_config p (expose (client_config profile)))) (\<lambda>stripped.
      run_then (with_stripped p stripped (\<lambda>q. run_map_err g' (run_cmd (syncconf (interface_of p) q) None))) (home_write home ?c))) ?Q ?R s2"
    if s2: "si_hub s2 = si_hub s" "frame (files s) {p, wg_temp p} (files s2)"
      and r: "reads ?e (files s) p = Some (utf8 existing)" "usable_key existing = Some key"
        "profile_of u ?c (PrivateKey key) = Inr profile"
      and l: "look (files s2) p = Some (Inl (finished (utf8 (expose (client_config profile))) PRIVATE_FILE_MODE (se_self ?e)))"
    for s2 existing key profile and g g' :: "wg_error \<Rightarrow> sync_error"
    unfolding rp_bind rp_map_err stripped_config_def
  proof (rule rp_mono [OF rp_run_cmd], goal_cases)
    case (1 stripped s2')
    then have [simp]: "s2' = s2" and strip: "de_wg env (quick_strip p) None (files s2) = Inr stripped" by auto
    show ?case
      unfolding rp_then \<open>s2' = s2\<close>
    proof (rule rp_mono [OF rp_with_stripped [OF n(1) frame_ok [OF s2(2)]]], goal_cases)
      case (1 y s3)
      have "reads ?e (files s2) p = Some (utf8 (expose (client_config profile)))"
        using reads_file [OF l] by (simp add: finished_def)
      with 1 have "handed_over env p profile" unfolding handed_over_def using strip by blast
      moreover have "look (files s3) p = look (files s2) p" using 1 apart by (auto intro: frame_look)
      moreover have "frame (files s) (sync_scratch p) (files s3)"
        using 1 frame_mono [OF frame_trans [OF s2(2)], of "{stripped_at p, wg_temp (stripped_at p)}" "files s3"]
        by (auto simp: sync_scratch_def)
      ultimately show ?case using 1 s2(1) l by (intro last [OF _ _ r]) auto
    next
      case (2 e s3)
      then show ?case
        using s2(1) frame_mono [OF frame_trans [OF s2(2)], of "{stripped_at p, wg_temp (stripped_at p)}" "files s3"]
        by (auto simp: sync_scratch_def)
    qed
  next
    case (2 e s2')
    then show ?case using s2 frame_mono [OF s2(2)] by (auto simp: sync_scratch_def)
  qed
  show ?thesis
    unfolding sync_apply_def
  proof (subst rp_bind, subst rp_map_err, rule rp_mono [OF rp_fs_read_to_string], goal_cases)
    case (1 existing s1)
    then have s1: "files s1 = files s" "si_hub s1 = si_hub s" and r: "reads ?e (files s) p = Some (utf8 existing)" by auto
    have ok1: "fs_ok (files s1)" using ok s1 by simp
    have stay: "?R e s1" for e using s1 frame_refl [OF ok] by simp
    show ?case
    proof (cases "usable_key existing")
      case None
      then show ?thesis using stay by (simp add: rp_simps ok_or_def)
    next
      case (Some key)
      show ?thesis
      proof (cases "profile_of u ?c (PrivateKey key)")
        case (Inl e)
        then show ?thesis using stay Some by (simp add: rp_simps ok_or_def)
      next
        case (Inr profile)
        show ?thesis
          unfolding Some ok_or_def option.case
        proof (subst rp_bind, subst rp_lift, unfold sum.case, subst rp_bind, subst rp_lift, unfold Inr sum.case,
              subst rp_then, subst rp_map_err, rule rp_mono [OF rp_write_wg [OF n(1) ok1]], goal_cases)
          case (1 x s2)
          then show ?case using s1 by (intro hand [OF _ _ r Some Inr]) auto
        next
          case (2 e s2)
          then show ?case using s1 frame_mono [of "files s" "{wg_temp p}" "files s2"] by (simp add: sync_scratch_def)
        qed
      qed
    qed
  next
    case (2 e s1)
    then show ?case using frame_refl [OF ok] by simp
  qed
qed

section \<open>What is decided\<close>

text \<open>What a device knows, what the hub answered, and the decision between them.\<close>

definition decided ::
  "unicode \<Rightarrow> rstr \<Rightarrow> peers_response \<Rightarrow> device_config \<Rightarrow> reported option \<Rightarrow> sync \<Rightarrow> bool"
where
  "decided u text response config rep outcome \<longleftrightarrow> (\<exists>loc roster.
     device_parse u text = Inr config \<and> local_of u config = Inr loc
     \<and> reported_of u response = Inr rep \<and> roster_of u response = Inr roster
     \<and> sync_decide loc rep roster = outcome)"

lemma decided_fun:
  "decided u text response config rep outcome \<Longrightarrow> decided u text response config' rep' outcome'
    \<Longrightarrow> config' = config \<and> rep' = rep \<and> outcome' = outcome"
  by (auto simp: decided_def)

lemma rewrite_has_report: "sync_decide loc rep roster = Rewrite c \<Longrightarrow> \<exists>r. rep = Some r"
  by (auto simp: sync_decide_def sync_roster_def sync_compare_def split: option.splits if_splits)

lemma valid_plain: "\<forall>c \<in> set s. c < 0x80 \<Longrightarrow> valid_str s"
  by (auto simp: valid_str_def list_all_iff scalar_def)

lemma reported_facts:
  assumes "reported_of u response = Inr (Some r)"
  shows "key_ok (r_server_public_key r)" "endpoint_ok (r_server_endpoint r)"
  using assms checked_endpoint_ok by (auto simp: reported_of_def result_simps parse_key_iff split: option.splits)

text \<open>After the rewrite the device file says what the hub said, so there is nothing left to do.\<close>

lemma rewrite_settles:
  assumes "decided u text response config rep (Rewrite c)"
  shows "decided u (device_to_json_string (updated config rep)) response (updated config rep) rep SyncUnchanged"
proof -
  from assms obtain loc roster r where p: "device_parse u text = Inr config" and l: "local_of u config = Inr loc"
    and rep: "reported_of u response = Inr (Some r)" and ro: "roster_of u response = Inr roster"
    and d: "sync_decide loc (Some r) roster = Rewrite c" and r: "rep = Some r"
    unfolding decided_def using rewrite_has_report by metis
  have ok: "device_ok config" by (rule device_parse_ok [OF p])
  have valid: "valid_str (r_server_public_key r)" "valid_str (r_server_endpoint r)" "valid_str (ipv4_show (r_server_address r))"
    using reported_facts [OF rep] key_ok_valid endpoint_plain by (auto intro!: valid_plain [of "r_server_endpoint r"])
  have "device_ok (updated config rep)" using ok valid by (simp add: device_ok_def updated_def r)
  moreover have "local_of u (updated config rep) = Inr (adopt loc r)"
    using l by (auto simp: local_of_def Let_def result_simps updated_def r adopt_def)
  moreover have "sync_decide (adopt loc r) rep roster = SyncUnchanged"
  proof (cases "fits loc rep roster")
    case True
    then have "fits (adopt loc r) rep roster" by (simp add: fits_adopt)
    then show ?thesis using hub_matches_adopt sync_compare_unchanged r by (simp add: sync_decide_fits)
  next
    case False
    then show ?thesis using sync_decide_misfit d r by fastforce
  qed
  ultimately show ?thesis
    unfolding decided_def using device_parse_written rep ro r by blast
qed

section \<open>The run\<close>

text \<open>The hub answered the request for the roster with a success whose body reads as \<open>response\<close>.\<close>

definition hub_said ::
  "unicode \<Rightarrow> 'h dev_env \<Rightarrow> device_config \<Rightarrow> 'h \<Rightarrow> peers_response \<Rightarrow> 'h \<Rightarrow> bool"
where
  "hub_said u env config h response h' \<longleftrightarrow> (\<exists>token r v.
     token_parse (dc_token config) = Inr token \<and> de_send env (peers_request config token) h = (Inr r, h')
     \<and> is_success r \<and> json_parse u (cr_body r) = Inr v \<and> peers_response_from_json v = Inr response)"

lemma rp_sync_ask_hub:
  assumes "quiet env"
  shows "rp env (sync_ask_hub u config)
    (\<lambda>response s'. files s' = files s \<and> hub_said u env config (si_hub s) response (si_hub s'))
    (\<lambda>_ s'. files s' = files s) s"
proof (cases "token_parse (dc_token config)")
  case (Inl e)
  then show ?thesis by (simp add: sync_ask_hub_def rp_simps map_err_def)
next
  case (Inr token)
  show ?thesis
    unfolding sync_ask_hub_def
    by (subst rp_bind, simp add: rp_lift Inr map_err_def, subst rp_bind, subst rp_map_err,
        rule rp_mono [OF rp_ask [OF assms]])
      (auto simp: rp_simps hub_said_def Inr map_err_def split: sum.split)
qed

definition home_at :: "path \<Rightarrow> nat \<Rightarrow> rstr \<Rightarrow> home" where
  "home_at dir own name = \<lparr>ho_dir = DirHandle dir own, ho_name = name\<rparr>"

lemma home_at_paths [simp]:
  "home_path (home_at dir own name) = path_join dir name"
  "home_temp env (home_at dir own name) = path_join dir (name @ create_sibling env)"
  "ho_name (home_at dir own name) = name" "dh_path (ho_dir (home_at dir own name)) = dir"
  by (simp_all add: home_path_def home_temp_def home_at_def)

lemma rp_home_open:
  "rp env (home_open p)
    (\<lambda>home s'. files s' = files s \<and> si_hub s' = si_hub s
      \<and> (\<exists>dir own name. path_parent p = Some dir \<and> path_file_name p = Some name \<and> home = home_at dir own name))
    (\<lambda>_ s'. files s' = files s \<and> si_hub s' = si_hub s) s"
proof -
  have opened: "rp env (on_files (dir_open dir))
      (\<lambda>d s'. files s' = files s \<and> si_hub s' = si_hub s \<and> dh_path d = dir)
      (\<lambda>_ s'. files s' = files s \<and> si_hub s' = si_hub s) s" for dir
    unfolding rp_on_files dir_open_def
    by (auto simp: wp_simps sys_open_dir_def wp_call split: option.split entry.split)
  have d: "\<lparr>ho_dir = d, ho_name = name\<rparr> = home_at (dh_path d) (dh_owner d) name" for d name
    by (simp add: home_at_def)
  show ?thesis
  proof (cases "path_parent p")
    case None
    then show ?thesis by (simp add: home_open_def rp_simps ok_or_def)
  next
    case dir: (Some dir)
    show ?thesis
    proof (cases "path_file_name p")
      case None
      then show ?thesis using dir by (simp add: home_open_def rp_simps ok_or_def)
    next
      case (Some name)
      show ?thesis
        unfolding home_open_def dir Some ok_or_def option.case rp_bind rp_lift sum.case rp_map_err
        by (rule rp_mono [OF opened]) (auto simp: rp_simps d)
    qed
  qed
qed

text \<open>The device file holds the text.\<close>

definition holds_text :: "fs \<Rightarrow> path \<Rightarrow> rstr \<Rightarrow> bool" where
  "holds_text s p text \<longleftrightarrow> (\<exists>f. look s p = Some (Inl f) \<and> f_bytes f = utf8 text)"

lemma rp_home_read:
  assumes "component name"
  shows "rp env (home_read u (home_at dir own name))
    (\<lambda>config s'. files s' = files s \<and> si_hub s' = si_hub s
      \<and> (\<exists>text. holds_text (files s) (path_join dir name) text \<and> device_parse u text = Inr config))
    (\<lambda>_ s'. files s' = files s \<and> si_hub s' = si_hub s) s"
  unfolding home_read_def home_at_paths rp_bind rp_map_err
  by (rule rp_mono [OF rp_dir_read_to_string [OF assms]])
    (auto simp: rp_simps holds_text_def map_err_def split: sum.split)

lemma component_sync_lock: "component SYNC_LOCK"
  by (simp add: component_def SYNC_LOCK_def lit_def)

lemma rp_home_lock:
  assumes name: "component name" and ok: "fs_ok (files s)"
  shows "rp env (home_lock (home_at dir own name))
    (\<lambda>_ s'. si_hub s' = si_hub s \<and> frame (files s) {path_join dir SYNC_LOCK} (files s'))
    (\<lambda>_ s'. si_hub s' = si_hub s \<and> frame (files s) {path_join dir SYNC_LOCK} (files s')) s"
proof -
  have lock: "rp env (run_bind (run_catch (on_files (dir_try_lock (DirHandle dir own) SYNC_LOCK o'))) (\<lambda>taken.
      case taken of
        Inr True \<Rightarrow> run_return () | Inr False \<Rightarrow> run_throw Busy | Inl e \<Rightarrow> run_throw (SyncWrite (path_join dir SYNC_LOCK) (snd e))))
    (\<lambda>_ s'. si_hub s' = si_hub s \<and> frame (files s) {path_join dir SYNC_LOCK} (files s'))
    (\<lambda>_ s'. si_hub s' = si_hub s \<and> frame (files s) {path_join dir SYNC_LOCK} (files s')) s1"
    if "files s1 = files s" "si_hub s1 = si_hub s" for o' s1
  proof -
    have c: "confined (de_sys env) {path_join dir SYNC_LOCK} (dir_try_lock (DirHandle dir own) SYNC_LOCK o')"
      by (intro confined_rules component_sync_lock) simp
    have "fs_ok (files s1)" using ok that by simp
    from rp_confined [OF c this] show ?thesis
      unfolding rp_bind rp_catch by (rule rp_mono) (use that in \<open>auto simp: rp_simps split: bool.split\<close>)
  qed
  show ?thesis
    unfolding home_lock_def home_at_paths
    by (subst rp_bind, subst rp_catch, rule rp_mono [OF rp_home_owner])
      (use name lock in \<open>auto simp: home_at_def\<close>)
qed

text \<open>
  What a run leaves. Either it ended well, with nothing to do or everything done, or it left the device
  file alone; and nothing at all was written unless the hub's settings had changed.
\<close>

definition sync_settled ::
  "unicode \<Rightarrow> 'h dev_env \<Rightarrow> path \<Rightarrow> path \<Rightarrow> rstr \<Rightarrow> 'h site \<Rightarrow> 'h site \<Rightarrow> bool"
where
  "sync_settled u env p dir name s s' \<longleftrightarrow> (\<exists>text config response rep outcome own.
     holds_text (files s) (path_join dir name) text
     \<and> hub_said u env config (si_hub s) response (si_hub s')
     \<and> decided u text response config rep outcome
     \<and> (case outcome of
          Rewrite _ \<Rightarrow> applied u env (updated config rep) p (home_at dir own name) (files s) (files s')
            \<and> decided u (device_to_json_string (updated config rep)) response (updated config rep) rep SyncUnchanged
        | Detached _ \<Rightarrow> False
        | _ \<Rightarrow> frame (files s) {path_join dir SYNC_LOCK} (files s')))"

definition sync_left ::
  "unicode \<Rightarrow> 'h dev_env \<Rightarrow> path \<Rightarrow> path \<Rightarrow> rstr \<Rightarrow> 'h site \<Rightarrow> ending \<Rightarrow> 'h site \<Rightarrow> bool"
where
  "sync_left u env p dir name s ending s' \<longleftrightarrow>
    (case ending of
       Fine \<Rightarrow> sync_settled u env p dir name s s'
     | Passed \<Rightarrow> frame (files s) {path_join dir SYNC_LOCK} (files s')
     | Stop \<Rightarrow> look (files s') (path_join dir name) = look (files s) (path_join dir name))"

lemma sync_left_untouched:
  assumes "frame (files s) {path_join dir SYNC_LOCK} (files s')" "path_join dir name \<noteq> path_join dir SYNC_LOCK"
    "ending \<noteq> Fine"
  shows "sync_left u env p dir name s ending s'"
  using assms by (cases ending) (auto simp: sync_left_def frame_look)

lemma applied_start:
  assumes "applied u env config p (home_at dir own name) s1 s'"
    and "look s1 p = look s p" "look s1 (path_join dir name) = look s (path_join dir name)"
  shows "applied u env config p (home_at dir own name) s s'"
  using assms reads_look [OF assms(2)] owner_at_look [OF assms(3)] by (simp add: applied_def)

definition apart_from_lock :: "path \<Rightarrow> rstr \<Rightarrow> path \<Rightarrow> bool" where
  "apart_from_lock dir name p \<longleftrightarrow> path_join dir SYNC_LOCK \<noteq> p \<and> path_join dir SYNC_LOCK \<noteq> path_join dir name"

text \<open>An error of the rewrite is one a person has to see.\<close>

definition stops :: "('h, sync_error, 'a) run \<Rightarrow> bool" where
  "stops m \<longleftrightarrow> (\<forall>env s e. fst (m env s) = Inl e \<longrightarrow> sync_error_ending e = Stop)"

lemma stops_bind: "stops m \<Longrightarrow> (\<And>x. stops (f x)) \<Longrightarrow> stops (run_bind m f)"
  unfolding stops_def run_bind_def by (auto split: prod.splits sum.splits) (metis fst_conv)

lemma stops_map_err: "(\<And>e. sync_error_ending (f e) = Stop) \<Longrightarrow> stops (run_map_err f m)"
  unfolding stops_def run_map_err_def map_err_def by (auto split: prod.splits sum.splits)

lemma stops_lift: "(\<And>e. r = Inl e \<Longrightarrow> sync_error_ending e = Stop) \<Longrightarrow> stops (run_lift r)"
  by (simp add: stops_def run_lift_def)

lemma stops_with_stripped: "(\<And>q. stops (body q)) \<Longrightarrow> stops (with_stripped p contents body)"
proof -
  assume b: "\<And>q. stops (body q)"
  have inner: "stops (run_bind (run_catch (body q)) (\<lambda>r. run_then (run_catch m) (run_lift r)))" for q and m :: "('a, io_err, unit) run"
    using b [of q] unfolding stops_def run_bind_def run_then_def run_catch_def run_lift_def
    by (auto split: prod.splits sum.splits) (metis fst_conv)
  show ?thesis
    unfolding with_stripped_def Let_def run_then_def [of "run_map_err _ _" "run_bind _ _"]
    by (rule stops_bind [OF _ inner]) (rule stops_map_err, simp)
qed

lemma stops_profile: "profile_of u config key = Inl e \<Longrightarrow> sync_error_ending e = Stop"
  by (auto simp: profile_of_def local_of_def Let_def result_simps ok_or_def map_err_def split: option.splits sum.splits)

lemma stops_apply: "stops (sync_apply u config rep p home)"
  unfolding sync_apply_def run_then_def stripped_config_def home_write_def home_owner_def
  by (intro stops_bind stops_map_err stops_lift stops_with_stripped)
    (auto simp: ok_or_def dest: stops_profile split: option.splits)

lemma rp_stops: "stops m \<Longrightarrow> rp env m Q R s \<Longrightarrow> rp env m Q (\<lambda>e s'. R e s' \<and> sync_error_ending e = Stop) s"
  unfolding stops_def rp_def by (auto split: prod.splits sum.splits) (metis fst_conv)

lemma sync_error_not_fine: "sync_error_ending e \<noteq> Fine"
  by (cases e) simp_all

lemma rp_after_answer:
  fixes env :: "'h dev_env"
  assumes names: "sync_names (de_sys env) (home_at dir own name) p" and lock: "apart_from_lock dir name p"
    and s1: "frame (files s) {path_join dir SYNC_LOCK} (files s1)"
    and held: "holds_text (files s) (path_join dir name) text" and said: "hub_said u env config (si_hub s) response (si_hub s1)"
    and parts: "device_parse u text = Inr config" "local_of u config = Inr loc"
      "reported_of u response = Inr rep" "roster_of u response = Inr roster"
  shows "rp env (run_then
      (case sync_decide loc rep roster of Rewrite _ \<Rightarrow> sync_apply u config rep p (home_at dir own name) | _ \<Rightarrow> run_return ())
      (run_return (synced_as (sync_decide loc rep roster) hub q)))
    (\<lambda>y s'. sync_left u env p dir name s (sy_ending y) s')
    (\<lambda>e s'. sync_left u env p dir name s (sync_error_ending e) s') s1"
proof -
  let ?o = "sync_decide loc rep roster" and ?D = "path_join dir name" and ?L = "path_join dir SYNC_LOCK"
  have d: "decided u text response config rep ?o" using parts by (auto simp: decided_def)
  have out: "p \<noteq> ?L" "?D \<noteq> ?L" using lock by (auto simp: apart_from_lock_def)
  have D1: "look (files s1) ?D = look (files s) ?D" "look (files s1) p = look (files s) p"
    using frame_look [OF s1] out by auto
  have Dout: "?D \<notin> sync_scratch p \<union> {home_temp (de_sys env) (home_at dir own name)}"
    using names by (auto simp: sync_names_def sync_scratch_def)
  show ?thesis
  proof (cases ?o)
    case (Rewrite c)
    show ?thesis
      unfolding Rewrite sync.case rp_then
    proof (rule rp_mono [OF rp_stops [OF stops_apply rp_sync_apply [OF names frame_ok [OF s1]]]], goal_cases)
      case (1 x s')
      then have a: "applied u env (updated config rep) p (home_at dir own name) (files s) (files s')"
        using applied_start D1 by blast
      have "hub_said u env config (si_hub s) response (si_hub s')" using 1 said by simp
      then have "sync_settled u env p dir name s s'"
        unfolding sync_settled_def using held d a rewrite_settles [OF d [unfolded Rewrite]] Rewrite by force
      then show ?case by (simp add: rp_simps synced_as_def sync_left_def)
    next
      case (2 e s')
      then show ?case using D1 Dout frame_look [of "files s1" _ "files s'" ?D] by (auto simp: sync_left_def)
    qed
  next
    case (Detached det)
    then show ?thesis using D1 by (simp add: rp_simps synced_as_def sync_left_def)
  next
    case SyncUnchanged
    then have "sync_settled u env p dir name s s1"
      unfolding sync_settled_def using held d said s1 by force
    then show ?thesis by (simp add: rp_simps synced_as_def sync_left_def SyncUnchanged)
  next
    case Unverifiable
    then have "sync_settled u env p dir name s s1"
      unfolding sync_settled_def using held d said s1 by force
    then show ?thesis by (simp add: rp_simps synced_as_def sync_left_def Unverifiable)
  qed
qed

lemma rp_sync_run:
  fixes env :: "'h dev_env"
  assumes q: "quiet env" and ok: "fs_ok (files s)"
    and at: "sync_device_file config_path from_env = Inr (path_join dir name)"
    and parts: "path_parent (path_join dir name) = Some dir" "path_file_name (path_join dir name) = Some name" "component name"
    and names: "\<And>own. sync_names (de_sys env) (home_at dir own name) p" and lock: "apart_from_lock dir name p"
  shows "rp env (sync_run u config_path from_env p silent)
    (\<lambda>y s'. sync_left u env p dir name s (sy_ending y) s') (\<lambda>_ _. False) s"
proof -
  let ?L = "path_join dir SYNC_LOCK" and ?D = "path_join dir name"
  define Q where "Q = (\<lambda>(y :: synced) (s' :: 'h site). sync_left u env p dir name s (sy_ending y) s')"
  define R where "R = (\<lambda>e (s' :: 'h site). sync_left u env p dir name s (sync_error_ending e) s')"
  have out: "?D \<noteq> ?L" using lock by (auto simp: apart_from_lock_def)
  have early: "R e s'" if "frame (files s) {?L} (files s')" for e s'
    unfolding R_def by (rule sync_left_untouched [OF that out sync_error_not_fine])
  have same: "frame (files s) {?L} (files s')" if "files s' = files s" for s' :: "'h site"
    using that frame_refl [OF ok] by simp
  note [simp] = same
  have asked: "rp env (run_bind (run_catch (sync_ask_hub u config)) (\<lambda>asked.
      case asked of
        Inl (SyncDetached detachment) \<Rightarrow> run_return (synced_as (Detached detachment) hub silent)
      | Inl e \<Rightarrow> run_throw e
      | Inr response \<Rightarrow>
          run_bind (run_lift (reported_of u response)) (\<lambda>rep.
          run_bind (run_lift (roster_of u response)) (\<lambda>roster.
          let outcome = sync_decide loc rep roster in
          run_then
            (case outcome of Rewrite _ \<Rightarrow> sync_apply u config rep p (home_at dir own name) | _ \<Rightarrow> run_return ())
            (run_return (synced_as outcome hub silent)))))) Q R s1"
    if s1: "si_hub s1 = si_hub s" "frame (files s) {?L} (files s1)" and held: "holds_text (files s) ?D t"
      and c: "device_parse u t = Inr config" "local_of u config = Inr loc" for config loc hub own t s1
  proof (subst rp_bind, subst rp_catch, rule rp_mono [OF rp_sync_ask_hub [OF q]], goal_cases)
    case (1 response s2)
    then have s2: "frame (files s) {?L} (files s2)" and said: "hub_said u env config (si_hub s) response (si_hub s2)"
      using s1 by simp_all
    show ?case
    proof (cases "reported_of u response")
      case (Inl e)
      then show ?thesis using early [OF s2] by (simp add: rp_simps)
    next
      case rep: (Inr rep)
      show ?thesis
      proof (cases "roster_of u response")
        case (Inl e)
        then show ?thesis using early [OF s2] rep by (simp add: rp_simps)
      next
        case (Inr roster)
        show ?thesis
          using rp_after_answer [OF names lock s2 held said c rep Inr, where hub = hub and q = silent, folded Q_def R_def]
          by (simp add: rp_bind rp_lift rep Inr Let_def Q_def R_def)
      qed
    qed
  next
    case (2 e s2)
    then have s2: "frame (files s) {?L} (files s2)" using s1 by simp
    then have "look (files s2) ?D = look (files s) ?D" using out by (simp add: frame_look)
    then show ?case
      using early [OF s2] by (cases e) (simp_all add: rp_simps Q_def synced_as_def sync_left_def)
  qed
  have "rp env (sync_attempt u config_path from_env p silent) Q R s"
    unfolding sync_attempt_def
  proof (subst rp_bind, subst rp_lift, unfold at sum.case, subst rp_bind, rule rp_mono [OF rp_home_open], goal_cases)
    case (1 home s1)
    then obtain own where home: "home = home_at dir own name" and s1: "files s1 = files s" "si_hub s1 = si_hub s"
      using parts by auto
    show ?case
      unfolding home
    proof (subst rp_bind, rule rp_mono [OF rp_home_read [OF parts(3)]], goal_cases)
      case (1 config s2)
      then obtain t where s2: "files s2 = files s" "si_hub s2 = si_hub s" and held: "holds_text (files s) ?D t"
        and c: "device_parse u t = Inr config" using s1 by auto
      have ok2: "fs_ok (files s2)" using ok s2 by simp
      show ?case
      proof (cases "local_of u config")
        case (Inl e)
        then show ?thesis using early [OF same [OF s2(1)]] by (simp add: rp_simps)
      next
        case (Inr loc)
        show ?thesis
          unfolding Inr Let_def
        proof (subst rp_bind, subst rp_lift, unfold sum.case, subst rp_then, rule rp_mono [OF rp_home_lock [OF parts(3) ok2]], goal_cases)
          case (1 x s3)
          then have s3: "si_hub s3 = si_hub s" "frame (files s) {?L} (files s3)" using s2 by simp_all
          show ?case by (rule asked [OF s3 held c Inr, unfolded Let_def])
        next
          case (2 e s3)
          then show ?case using s2 early by simp
        qed
      qed
    next
      case (2 e s2)
      then show ?case using s1 early by simp
    qed
  next
    case (2 e s1)
    then show ?case using early by simp
  qed
  then show ?thesis
    unfolding sync_run_def rp_bind rp_catch
    by (rule rp_mono) (simp_all add: rp_simps Q_def R_def)
qed

end
