(* ===== verification/HubFiles.thy ===== *)
theory HubFiles
  imports Store WgApply WgRun
begin

text \<open>
  The hub's side of the files: \<open>crates/anago/src/store.rs\<close> and \<open>crates/anago/src/wgapply.rs\<close> step by step
  over the file operations and the tools, where \<open>Store\<close> and \<open>WgApply\<close> keep only what they leave.
\<close>

section \<open>The store\<close>

definition files_read :: "unicode \<Rightarrow> path \<Rightarrow> ('h, store_error, server_state) run" where
  "files_read u root =
    (let p = sp_state_file (ServerPaths root) in
     run_bind (run_map_err (\<lambda>e. StoreIo p (fst e) (snd e)) (on_files (fs_read_to_string p))) (\<lambda>text.
     run_lift (map_err (StoreParse p) (state_parse u text))))"

definition files_write :: "path \<Rightarrow> server_state \<Rightarrow> ('h, store_error, unit) run" where
  "files_write root st =
    (let p = sp_state_file (ServerPaths root) in
     run_map_err (\<lambda>e. StoreIo p (fst e) (snd e)) (on_files (write_private p (to_json_string st))))"

text \<open>\<open>Store::lock\<close>; the guard's \<open>commit\<close> is \<open>files_write\<close>.\<close>

definition files_lock :: "unicode \<Rightarrow> path \<Rightarrow> ('h, store_error, server_state) run" where
  "files_lock u root =
    (let lock = sp_state_lock (ServerPaths root) in
     run_then
       (run_map_err (\<lambda>e. StoreIo (if fst e = IoNotFound then sp_state_file (ServerPaths root) else lock) (fst e) (snd e))
         (on_files (lock_acquire lock)))
       (files_read u root))"

section \<open>The interface\<close>

record interface =
  if_name :: rstr
  if_config_path :: path

definition interface_show :: "interface \<Rightarrow> rstr" where
  "interface_show i = if_name i @ lit '' ('' @ if_config_path i @ lit '')''"

definition path_with_extension :: "path \<Rightarrow> rstr \<Rightarrow> path" where
  "path_with_extension p ext =
    (case path_file_stem p of None \<Rightarrow> p | Some stem \<Rightarrow> path_with_file_name p (stem @ lit ''.'' @ ext))"

definition files_write_config :: "server_state \<Rightarrow> path \<Rightarrow> ('h, wg_error, bool) run" where
  "files_write_config st p =
    (let wanted = expose (server_config st) in
     run_bind (run_catch (on_files (fs_read_to_string p))) (\<lambda>current.
     if current = Inr wanted then run_return False
     else run_then (run_map_err (\<lambda>e. WgSpawn (lit ''write '' @ p) (snd e)) (on_files (write_private p wanted))) (run_return True)))"

definition interface_is_up :: "interface \<Rightarrow> ('h, 'e, bool) run" where
  "interface_is_up i =
    run_bind (run_catch (run_cmd (show_dump (if_name i)) None)) (\<lambda>r. run_return (case r of Inr _ \<Rightarrow> True | Inl _ \<Rightarrow> False))"

fun forwarding_hint :: "platform \<Rightarrow> rstr" where
  "forwarding_hint Linux =
     lit ''IPv4 forwarding is off, so devices can reach this server but not each other. ''
     @ lit ''Turn it on now with `sysctl -w net.ipv4.ip_forward=1`, and keep it across ''
     @ lit ''reboots with `echo net.ipv4.ip_forward=1 > /etc/sysctl.d/99-anago.conf`''"
| "forwarding_hint MacOs =
     lit ''IPv4 forwarding is off, so devices can reach this server but not each other. ''
     @ lit ''Turn it on with `sysctl -w net.inet.ip.forwarding=1` (macOS resets this on reboot)''"
| "forwarding_hint Windows =
     lit ''IPv4 forwarding is off, so devices can reach this server but not each other. ''
     @ lit ''Turn it on in an elevated PowerShell with ''
     @ lit ''`Set-NetIPInterface -InterfaceAlias anago -Forwarding Enabled` ''
     @ lit ''(and for the LAN adapter the same way '' @ [0x2014] @ lit '' Windows keeps this across reboots)''"
| "forwarding_hint OtherPlatform =
     lit ''IPv4 forwarding is off, so devices can reach this server but not each other. ''
     @ lit ''Enable IP forwarding for this host''"

definition IP_FORWARD_PROC :: path where "IP_FORWARD_PROC = lit ''/proc/sys/net/ipv4/ip_forward''"

definition read_forwarding :: "('h, 'e, bool option) run" where
  "read_forwarding =
    run_bind (run_catch (on_files (fs_read_to_string IP_FORWARD_PROC))) (\<lambda>r.
      run_return (case r of Inr text \<Rightarrow> Some (forwarding_is_enabled text) | Inl _ \<Rightarrow> None))"

definition warn_if_forwarding_is_off :: "platform \<Rightarrow> ('h, 'e, unit) run" where
  "warn_if_forwarding_is_off platform =
    run_bind read_forwarding (\<lambda>r.
      if r = Some False then put_err (lit ''anago: '' @ forwarding_hint platform) else run_return ())"

text \<open>
  One action. On Unix \<open>bring_up\<close> is \<open>wg-quick up\<close>; the stripped file is removed whatever \<open>wg\<close> says.
\<close>

definition files_action :: "interface \<Rightarrow> rstr \<Rightarrow> action \<Rightarrow> ('h, wg_error, unit) run" where
  "files_action i wanted act =
    (case act of
       BringUp \<Rightarrow> run_then (bring_up (if_config_path i)) (run_return ())
     | ActSync \<Rightarrow>
         run_bind (stripped_config (if_config_path i) wanted) (\<lambda>stripped.
         let p = path_with_extension (if_config_path i) (lit ''stripped'') in
         run_then (run_map_err (\<lambda>e. WgSpawn (lit ''write '' @ p) (snd e)) (on_files (write_private p stripped))) (
         run_bind (run_catch (run_cmd (syncconf (if_name i) p) None)) (\<lambda>result.
         run_then (run_catch (on_files (sys_unlink p))) (
         run_then (run_lift result) (run_return ()))))))"

text \<open>\<open>WgApplier::apply\<close>: the last applied text goes in and comes out.\<close>

definition files_apply :: "interface \<Rightarrow> server_state \<Rightarrow> rstr option \<Rightarrow> ('h, wg_error, rstr option) run" where
  "files_apply i st last_applied =
    (let wanted = expose (server_config st) in
     run_then (files_write_config st (if_config_path i)) (
     run_bind (interface_is_up i) (\<lambda>up.
       case plan up last_applied wanted of
         None \<Rightarrow> run_return last_applied
       | Some act \<Rightarrow>
           run_then (files_action i wanted act) (
           run_then (run_bind (run_env de_os) (\<lambda>os. warn_if_forwarding_is_off (platform_from os)))
             (run_return (Some wanted))))))"

end
