(* ===== verification/RmLs.thy ===== *)
theory RmLs
  imports HubFiles SyncRun Api
begin

text \<open>
  \<open>crates/anago/src/ls.rs\<close> and \<open>crates/anago/src/rm.rs\<close>: the list of devices and the removal of one, from
  the hub's own files where they are there, from the hub's answers otherwise.
\<close>

section \<open>Where the answer comes from\<close>

datatype source = FromServer | FromDevice

definition NOT_SET_UP :: rstr where
  "NOT_SET_UP = lit ''this machine is neither a hub nor a joined device '' @ [0x2014] @ lit '' run ''
     @ lit ''`anago server init` here, or `anago join` with a code from one''"

fun choose_source :: "bool \<Rightarrow> bool \<Rightarrow> source option" where
  "choose_source True has_device_file = Some FromServer"
| "choose_source False True = Some FromDevice"
| "choose_source False False = None"

section \<open>anago ls\<close>

datatype ls_error =
    LsNotSetUp
  | LsNoConfigDir rstr
  | LsState store_error
  | LsDeviceFile rstr
  | LsJoin join_error
  | LsClient client_error
  | LsRefused rstr
  | LsBadResponse rstr

fun ls_error_show :: "unicode \<Rightarrow> ls_error \<Rightarrow> rstr" where
  "ls_error_show u LsNotSetUp = NOT_SET_UP"
| "ls_error_show u (LsNoConfigDir detail) = detail"
| "ls_error_show u (LsState e) = store_error_show u e"
| "ls_error_show u (LsDeviceFile detail) = lit ''device file: '' @ detail"
| "ls_error_show u (LsJoin e) = join_error_show u e"
| "ls_error_show u (LsClient e) = client_error_show u e"
| "ls_error_show u (LsRefused detail) = detail"
| "ls_error_show u (LsBadResponse detail) = lit ''the hub'' @ [39] @ lit ''s answer made no sense: '' @ detail"

definition row_from_state :: "dump_peer list option \<Rightarrow> peer \<Rightarrow> peer_row" where
  "row_from_state dump p =
    \<lparr>row_name = name_str (p_name p), row_address = p_address p, row_public_key = p_public_key p,
      row_last_handshake = (case dump of
          None \<Rightarrow> HsUnknown
        | Some entries \<Rightarrow> (case List.find (\<lambda>entry. dp_public_key entry = p_public_key p) entries of
              None \<Rightarrow> HsUnknown
            | Some entry \<Rightarrow> (case dp_last_handshake entry of Some at \<Rightarrow> HsAt at | None \<Rightarrow> HsNever)))\<rparr>"

definition rows_from_state :: "server_state \<Rightarrow> dump_peer list option \<Rightarrow> peer_row list" where
  "rows_from_state st dump = map (row_from_state dump) (st_peers st)"

definition row_from_info :: "unicode \<Rightarrow> peer_info \<Rightarrow> ls_error + peer_row" where
  "row_from_info u p =
    (let bad = (\<lambda>what. LsBadResponse (lit ''peer '' @ debug_str u (pi_name p) @ lit '': '' @ what)) in
     attempt (map_err (\<lambda>e. bad (name_error_show u e)) (device_name_parse u (pi_name p))) (\<lambda>name.
     attempt (ok_or (bad (debug_str u (pi_address p) @ lit '' is not an address'')) (ipv4_parse (pi_address p))) (\<lambda>address.
     attempt (map_err (\<lambda>e. bad (wg_error_show (WgBadKey e))) (parse_key (pi_public_key p))) (\<lambda>key.
       Inr \<lparr>row_name = name_str name, row_address = address, row_public_key = key, row_last_handshake = HsUnknown\<rparr>))))"

definition rows_from_response :: "unicode \<Rightarrow> peers_response \<Rightarrow> ls_error + peer_row list" where
  "rows_from_response u r = try_map (row_from_info u) (pr_peers r)"

definition ls_explain :: "unicode \<Rightarrow> nat \<Rightarrow> rstr \<Rightarrow> path \<Rightarrow> path \<Rightarrow> rstr" where
  "ls_explain u code body dev_file wg_config =
    (let failure = describe u code body;
         advice = (if fl_code failure = Some EcUnauthorized then
             lit '' '' @ [0x2014] @ lit '' this device'' @ [39] @ lit ''s token is no longer accepted, which is what `anago rm` on the ''
             @ lit ''hub does. To use it again: '' @ rejoin_steps wg_config dev_file
           else [])
     in lit ''the hub would not list devices: '' @ fl_message failure @ advice)"

definition handshakes :: "path \<Rightarrow> ('h, 'e, dump_peer list option) run" where
  "handshakes wg_dir =
    (let interface = interface_of (wg_config_path wg_dir) in
     run_bind (run_catch (run_cmd (show_dump interface) None)) (\<lambda>r.
       case r of
         Inr text \<Rightarrow> run_return (Some (parse_dump text))
       | Inl e \<Rightarrow> run_then
           (put_err (lit ''anago: could not ask wg when devices were last seen ('' @ wg_error_show e @ lit '')''))
           (run_return None)))"

definition ls_ask_hub :: "unicode \<Rightarrow> device_config \<Rightarrow> path \<Rightarrow> path \<Rightarrow> ('h, ls_error, peers_response) run" where
  "ls_ask_hub u config dev_file wg_config =
    run_bind (run_lift (map_err (\<lambda>e. LsDeviceFile (lit ''token: '' @ token_error_show u e)) (token_parse (dc_token config)))) (\<lambda>token.
    run_bind (run_map_err LsClient (ask (peers_request config token))) (\<lambda>response.
    if \<not> is_success response then
      run_throw (LsRefused (ls_explain u (cr_status response) (cr_body response) dev_file wg_config))
    else
      run_bind (run_lift (map_err (\<lambda>e. LsBadResponse (json_error_show e)) (json_parse u (cr_body response)))) (\<lambda>v.
      run_lift (map_err (\<lambda>e. LsBadResponse (decode_error_show u e)) (peers_response_from_json v)))))"

text \<open>
  The directory is asked for only when the state file is not there, in both commands; the last
  argument is what asking gives.
\<close>

definition source_of :: "path \<Rightarrow> (rstr \<Rightarrow> 'e) \<Rightarrow> 'e \<Rightarrow> path_error + client_paths \<Rightarrow> ('h, 'e, source \<times> client_paths option) run" where
  "source_of root no_dir not_set_up client_paths =
    run_bind (run_catch (on_files (path_exists (sp_state_file (ServerPaths root))))) (\<lambda>r.
    let has_state = (r = Inr True) in
    run_bind (if has_state then run_return None
       else run_bind (run_lift (map_err (\<lambda>e. no_dir (path_error_show e)) client_paths)) (\<lambda>paths. run_return (Some paths))) (\<lambda>paths.
    run_bind (case paths of None \<Rightarrow> run_return (Inr False) | Some p \<Rightarrow> run_catch (on_files (path_exists (device_file p)))) (\<lambda>r.
    run_bind (run_lift (ok_or not_set_up (choose_source has_state (r = Inr True)))) (\<lambda>source.
    run_return (source, paths)))))"

definition ls_run :: "unicode \<Rightarrow> path \<Rightarrow> path \<Rightarrow> path_error + client_paths \<Rightarrow> int \<Rightarrow> ('h, ls_error, rstr) run" where
  "ls_run u root wg_dir client_paths now =
    run_bind (source_of root LsNoConfigDir LsNotSetUp client_paths) (\<lambda>(source, paths).
    run_bind
      (case (source, paths) of
         (FromDevice, Some paths) \<Rightarrow>
           let f = device_file paths in
           run_bind (run_map_err (\<lambda>e. LsDeviceFile (f @ lit '': '' @ snd e)) (on_files (fs_read_to_string f))) (\<lambda>text.
           run_bind (run_lift (map_err LsJoin (device_parse u text))) (\<lambda>config.
           run_bind (ls_ask_hub u config f (wg_config_path wg_dir)) (\<lambda>response.
           run_lift (rows_from_response u response))))
       | _ \<Rightarrow>
           run_bind (run_map_err LsState (files_read u root)) (\<lambda>st.
           run_bind (handshakes wg_dir) (\<lambda>dump.
           run_return (rows_from_state st dump))))
      (\<lambda>rows. run_return (peer_table rows now)))"

section \<open>anago rm\<close>

datatype rm_error =
    RmNotSetUp
  | RmNoConfigDir rstr
  | RmNotFound rstr
  | RmState store_error
  | RmDeviceFile rstr
  | RmClient client_error
  | RmRefused rstr
  | RmBadResponse rstr

fun rm_error_show :: "unicode \<Rightarrow> rm_error \<Rightarrow> rstr" where
  "rm_error_show u RmNotSetUp = NOT_SET_UP"
| "rm_error_show u (RmNoConfigDir detail) = detail"
| "rm_error_show u (RmNotFound name) =
     lit ''no device called '' @ name @ lit '' is registered '' @ [0x2014] @ lit '' `anago ls` shows what is''"
| "rm_error_show u (RmState e) = store_error_show u e"
| "rm_error_show u (RmDeviceFile detail) = lit ''device file: '' @ detail"
| "rm_error_show u (RmClient e) = client_error_show u e"
| "rm_error_show u (RmRefused detail) = detail"
| "rm_error_show u (RmBadResponse detail) = lit ''the hub'' @ [39] @ lit ''s answer made no sense: '' @ detail"

record removed =
  rm_name :: rstr
  rm_address :: rstr
  rm_interface_updated :: "bool option"
  rm_was_self :: bool

definition rm_report :: "removed \<Rightarrow> path \<Rightarrow> path \<Rightarrow> rstr" where
  "rm_report r dev_file wg_config =
    lit ''Removed '' @ rm_name r @ lit '' ('' @ rm_address r @ lit ''); its address is free again and its token no longer works.'' @ [10]
    @ (case rm_interface_updated r of
         Some True \<Rightarrow> lit ''The hub'' @ [39] @ lit ''s WireGuard interface has been updated.'' @ [10]
       | Some False \<Rightarrow> lit ''The state file is updated, but the WireGuard interface was not '' @ [0x2014] @ lit '' ''
           @ lit ''the device may still reach the hub until `anago server run` applies ''
           @ lit ''the state again.'' @ [10]
       | None \<Rightarrow> [])
    @ (if rm_was_self r then
         [10] @ lit ''That was this device. Its config is now stale: '' @ rejoin_steps wg_config dev_file @ [10]
       else [])"

definition removed_from_peer :: "peer \<Rightarrow> bool option \<Rightarrow> bool \<Rightarrow> removed" where
  "removed_from_peer p updated_interface was_self =
    \<lparr>rm_name = name_str (p_name p), rm_address = ipv4_show (p_address p),
      rm_interface_updated = updated_interface, rm_was_self = was_self\<rparr>"

definition checked_peer :: "unicode \<Rightarrow> peer_info \<Rightarrow> device_name \<Rightarrow> rm_error + (rstr \<times> rstr)" where
  "checked_peer u p requested =
    attempt (map_err (\<lambda>e. RmBadResponse (lit ''the removed device'' @ [39] @ lit ''s name: '' @ name_error_show u e))
      (device_name_parse u (pi_name p))) (\<lambda>name.
    if name \<noteq> requested then
      Inl (RmBadResponse (lit ''asked to remove '' @ name_str requested @ lit '', but the hub says it removed '' @ name_str name))
    else
      attempt (ok_or (RmBadResponse (debug_str u (pi_address p) @ lit '' is not an address'')) (ipv4_parse (pi_address p))) (\<lambda>_.
      attempt (map_err (\<lambda>e. RmBadResponse (lit ''the removed device'' @ [39] @ lit ''s public key: '' @ wg_error_show (WgBadKey e)))
        (parse_key (pi_public_key p))) (\<lambda>_.
        Inr (name_str name, pi_address p))))"

definition rm_explain :: "unicode \<Rightarrow> nat \<Rightarrow> rstr \<Rightarrow> device_name \<Rightarrow> path \<Rightarrow> path \<Rightarrow> rstr" where
  "rm_explain u code body name dev_file wg_config =
    (let failure = describe u code body;
         advice = (case fl_code failure of
             Some EcNotFound \<Rightarrow> lit '' '' @ [0x2014] @ lit '' no device called '' @ name_str name
               @ lit '' is registered; `anago ls` shows what is''
           | Some EcUnauthorized \<Rightarrow> lit '' '' @ [0x2014] @ lit '' this device'' @ [39]
               @ lit ''s token is no longer accepted, so it cannot remove anything. ''
               @ lit ''If it was removed from the hub: '' @ rejoin_steps wg_config dev_file
           | _ \<Rightarrow> [])
     in lit ''the hub would not remove '' @ name_str name @ lit '': '' @ fl_message failure @ advice)"

definition remove_remotely ::
  "unicode \<Rightarrow> device_name \<Rightarrow> device_config \<Rightarrow> client_paths \<Rightarrow> path \<Rightarrow> ('h, rm_error, removed) run"
where
  "remove_remotely u name config paths wg_config =
    run_bind (run_lift (map_err (\<lambda>e. RmDeviceFile (lit ''token: '' @ token_error_show u e)) (token_parse (dc_token config)))) (\<lambda>token.
    run_bind (run_map_err RmClient (ask (delete_request (dc_domain config) (dc_api_port config) name token))) (\<lambda>response.
    if \<not> is_success response then
      run_throw (RmRefused (rm_explain u (cr_status response) (cr_body response) name (device_file paths) wg_config))
    else
      run_bind (run_lift (map_err (\<lambda>e. RmBadResponse (json_error_show e)) (json_parse u (cr_body response)))) (\<lambda>v.
      run_bind (run_lift (map_err (\<lambda>e. RmBadResponse (decode_error_show u e)) (peer_info_from_json v))) (\<lambda>info.
      run_bind (run_lift (checked_peer u info name)) (\<lambda>(name_back, address).
      run_return \<lparr>rm_name = name_back, rm_address = address, rm_interface_updated = None,
        rm_was_self = (name_str name = dc_name config)\<rparr>)))))"

text \<open>The second lock reads the state again, and only a failure of it or of the push is reported as such.\<close>

definition remove_locally :: "unicode \<Rightarrow> device_name \<Rightarrow> path \<Rightarrow> path \<Rightarrow> ('h, rm_error, removed) run" where
  "remove_locally u name root wg_dir =
    run_bind (run_map_err RmState (files_lock u root)) (\<lambda>st.
    case remove_peer name st of
      (None, _) \<Rightarrow> run_throw (RmNotFound (name_str name))
    | (Some p, st') \<Rightarrow>
        run_then (run_map_err RmState (files_write root st')) (
        run_bind (run_catch (files_lock u root)) (\<lambda>again.
        run_bind
          (case again of
             Inr st'' \<Rightarrow>
               run_bind (run_catch (files_apply \<lparr>if_name = WG_INTERFACE, if_config_path = wg_config_path wg_dir\<rparr> st'' None)) (\<lambda>r.
                 case r of
                   Inr _ \<Rightarrow> run_return True
                 | Inl e \<Rightarrow> run_then (put_err (lit ''anago: the wg interface was not updated: '' @ wg_error_show e)) (run_return False))
           | Inl e \<Rightarrow>
               run_then (put_err (lit ''anago: could not re-read the state to update the interface: '' @ store_error_show u e))
                 (run_return False))
          (\<lambda>done. run_return (removed_from_peer p (Some done) False)))))"

definition rm_run :: "unicode \<Rightarrow> device_name \<Rightarrow> path \<Rightarrow> path \<Rightarrow> path_error + client_paths \<Rightarrow> ('h, rm_error, removed) run" where
  "rm_run u name root wg_dir client_paths =
    run_bind (source_of root RmNoConfigDir RmNotSetUp client_paths) (\<lambda>(source, paths).
      case (source, paths) of
        (FromDevice, Some paths) \<Rightarrow>
          let f = device_file paths in
          run_bind (run_map_err (\<lambda>e. RmDeviceFile (f @ lit '': '' @ snd e)) (on_files (fs_read_to_string f))) (\<lambda>text.
          run_bind (run_lift (map_err (\<lambda>e. RmDeviceFile (join_error_show u e)) (device_parse u text))) (\<lambda>config.
          remove_remotely u name config paths (wg_config_path wg_dir)))
      | _ \<Rightarrow> remove_locally u name root wg_dir)"

end
