(* ===== verification/HubFilesFacts.thy ===== *)
theory HubFilesFacts
  imports RmLs RunLogic
begin

text \<open>
  The store over the file operations does what \<open>Store\<close> says of it: a lock reads what the disk holds or
  fails, a commit replaces the text whole or leaves it, whatever step fails. A removal on the hub's
  own machine follows.
\<close>

section \<open>The store's promises\<close>

text \<open>The text of the state file, none when there is no file to read.\<close>

definition disk_of :: "sys_env \<Rightarrow> path \<Rightarrow> fs \<Rightarrow> disk" where
  "disk_of env root s = Option.bind (reads env s (sp_state_file (ServerPaths root))) utf8_decode"

text \<open>The root is a directory's name, so the state file, its temporary sibling and the lock are three names.\<close>

definition root_ok :: "path \<Rightarrow> bool" where
  "root_ok root \<longleftrightarrow> path_file_name (sp_state_file (ServerPaths root)) \<noteq> None
    \<and> sp_state_lock (ServerPaths root) \<noteq> sp_state_file (ServerPaths root)"

lemma disk_frame: "frame s T s' \<Longrightarrow> sp_state_file (ServerPaths root) \<notin> T \<Longrightarrow> disk_of env root s' = disk_of env root s"
  using reads_look [OF frame_look] unfolding disk_of_def by metis

lemma wp_read_decoded:
  "wp env (fs_read_to_string p)
    (\<lambda>t w'. w_fs w' = w_fs w \<and> Option.bind (reads env (w_fs w) p) utf8_decode = Some t) (\<lambda>_ w'. w_fs w' = w_fs w) w"
  unfolding fs_read_to_string_def wp_simps sys_read_def wp_call as_text_def
  by (auto simp: reads_def look_def wp_simps split: option.split entry.split sum.split)

lemma rp_files_read:
  "rp env (files_read u root)
    (\<lambda>st s'. files s' = files s \<and> si_hub s' = si_hub s \<and> holds u (disk_of (de_sys env) root (files s)) st)
    (\<lambda>e s'. files s' = files s \<and> si_hub s' = si_hub s
      \<and> (\<exists>io. io_root io = root \<and> io_lock io = None \<and> store_read u io (disk_of (de_sys env) root (files s)) = Inl e)) s"
proof -
  let ?p = "sp_state_file (ServerPaths root)" and ?d = "disk_of (de_sys env) root (files s)"
  have failed: "\<exists>io. io_root io = root \<and> io_lock io = None \<and> store_read u io ?d = Inl (StoreIo ?p (fst e) (snd e))" for e
    by (rule exI [of _ "\<lparr>io_root = root, io_lock = None, io_read = Some e, io_absent = [], io_write = None\<rparr>"])
      (simp add: store_read_def read_to_string_def state_file_def split: prod.split)
  have parsed: "\<exists>io. io_root io = root \<and> io_lock io = None \<and> store_read u io (Some t) = Inl (StoreParse ?p e)"
    if "state_parse u t = Inl e" for t e
    by (rule exI [of _ "\<lparr>io_root = root, io_lock = None, io_read = None, io_absent = [], io_write = None\<rparr>"])
      (use that in \<open>simp add: store_read_def read_to_string_def state_file_def ok_or_def\<close>)
  have read: "rp env (on_files (fs_read_to_string ?p)) (\<lambda>t s'. files s' = files s \<and> si_hub s' = si_hub s \<and> ?d = Some t)
      (\<lambda>_ s'. files s' = files s \<and> si_hub s' = si_hub s) s"
    unfolding rp_on_files by (rule wp_mono [OF wp_read_decoded]) (auto simp: disk_of_def)
  show ?thesis
    unfolding files_read_def Let_def rp_bind rp_map_err
    by (rule rp_mono [OF read]) (auto simp: rp_simps holds_def map_err_def failed intro: parsed split: sum.split)
qed

lemma rp_files_write:
  assumes root: "root_ok root" and ok: "fs_ok (files s)" and u: "unicode_laws u" and st: "state_typed u st"
  shows "rp env (files_write root st)
    (\<lambda>_ s'. si_hub s' = si_hub s
      \<and> frame (files s) {sp_state_file (ServerPaths root), wg_temp (sp_state_file (ServerPaths root))} (files s')
      \<and> disk_of (de_sys env) root (files s') = Some (to_json_string st))
    (\<lambda>_ s'. si_hub s' = si_hub s \<and> frame (files s) {wg_temp (sp_state_file (ServerPaths root))} (files s')
      \<and> disk_of (de_sys env) root (files s') = disk_of (de_sys env) root (files s)) s"
proof -
  let ?p = "sp_state_file (ServerPaths root)"
  have n: "path_file_name ?p \<noteq> None" using root by (simp add: root_ok_def)
  have t: "?p \<noteq> wg_temp ?p" using n temp_differs by (auto simp: wg_temp_def)
  have valid: "valid_str (to_json_string st)"
    unfolding to_json_string_def to_string_pretty_def by (rule valid_written(1) [OF state_to_json_wf [OF u st]])
  show ?thesis
    unfolding files_write_def Let_def rp_map_err
    by (rule rp_mono [OF rp_write_wg [OF n ok]])
      (use t valid in \<open>auto simp: disk_of_def reads_file finished_def utf8_decode_utf8 intro: disk_frame [unfolded disk_of_def]\<close>)
qed

lemma rp_files_lock:
  assumes root: "root_ok root" and ok: "fs_ok (files s)"
  shows "rp env (files_lock u root)
    (\<lambda>st s'. si_hub s' = si_hub s \<and> frame (files s) {sp_state_lock (ServerPaths root)} (files s')
      \<and> holds u (disk_of (de_sys env) root (files s)) st)
    (\<lambda>e s'. si_hub s' = si_hub s \<and> frame (files s) {sp_state_lock (ServerPaths root)} (files s')
      \<and> (\<exists>io. io_root io = root \<and> store_lock u io (disk_of (de_sys env) root (files s)) = Inl e)) s"
proof -
  let ?l = "sp_state_lock (ServerPaths root)" and ?p = "sp_state_file (ServerPaths root)"
  have c: "confined (de_sys env) {?l} (lock_acquire ?l)" by (intro confined_rules) simp
  have locked: "\<exists>io. io_root io = root \<and> store_lock u io d = Inl (StoreIo (if fst e = IoNotFound then ?p else ?l) (fst e) (snd e))" for e d
    by (rule exI [of _ "\<lparr>io_root = root, io_lock = Some e, io_read = None, io_absent = [], io_write = None\<rparr>"])
      (simp add: store_lock_def state_file_def state_lock_def split: prod.split)
  have unread: "\<exists>io. io_root io = root \<and> store_lock u io d = Inl e"
    if "\<exists>io. io_root io = root \<and> io_lock io = None \<and> store_read u io d = Inl e" for e d
    using that by (auto simp: store_lock_def)
  show ?thesis
    unfolding files_lock_def Let_def
  proof (subst rp_then, subst rp_map_err, rule rp_mono [OF rp_confined [OF c ok]], goal_cases)
    case (1 x s1)
    then have "disk_of (de_sys env) root (files s1) = disk_of (de_sys env) root (files s)"
      using root by (auto simp: root_ok_def intro: disk_frame)
    with 1 show ?case by (intro rp_mono [OF rp_files_read]) (auto intro!: unread)
  next
    case (2 e s1)
    then show ?case using locked by blast
  qed
qed

section \<open>Pushing and removing\<close>

definition push_names :: "path \<Rightarrow> path set" where
  "push_names p = (let q = path_with_extension p (lit ''stripped'') in {p, wg_temp p, q, wg_temp q})"

definition push_ok :: "path \<Rightarrow> bool" where
  "push_ok p \<longleftrightarrow> path_file_name p \<noteq> None \<and> path_file_name (path_with_extension p (lit ''stripped'')) \<noteq> None"

lemma keeps_files_apply:
  assumes "push_ok (if_config_path i)"
  shows "keeps env (push_names (if_config_path i)) (files_apply i st last_applied)"
proof -
  let ?T = "push_names (if_config_path i)"
  have n: "path_file_name (if_config_path i) \<noteq> None" "path_file_name (path_with_extension (if_config_path i) (lit ''stripped'')) \<noteq> None"
    using assms by (simp_all add: push_ok_def)
  have act: "keeps env ?T (files_action i wanted a)" for wanted a
    unfolding files_action_def Let_def bring_up_def stripped_config_def
    by (cases a; simp only: action.case)
      (intro keeps_write_private keeps_rules confined_unlink n; simp add: push_names_def Let_def)+
  have config: "keeps env ?T (files_write_config st (if_config_path i))"
    unfolding files_write_config_def Let_def
    by (intro keeps_write_private keeps_rules confined_read_to_string n; simp add: push_names_def Let_def)
  show ?thesis
    unfolding files_apply_def Let_def interface_is_up_def warn_if_forwarding_is_off_def read_forwarding_def
    by (intro keeps_rules config act confined_read_to_string)
qed

text \<open>What a removal on the hub's own machine leaves in the state file.\<close>

definition removed_locally :: "unicode \<Rightarrow> device_name \<Rightarrow> disk \<Rightarrow> removed \<Rightarrow> disk \<Rightarrow> bool" where
  "removed_locally u name d r d' \<longleftrightarrow> (\<exists>st p st'. holds u d st \<and> remove_peer name st = (Some p, st')
     \<and> d' = Some (to_json_string st') \<and> rm_name r = name_str name \<and> rm_address r = ipv4_show (p_address p)
     \<and> rm_interface_updated r \<noteq> None \<and> \<not> rm_was_self r)"

lemma rp_remove_locally:
  assumes root: "root_ok root" and ok: "fs_ok (files s)" and u: "unicode_laws u"
    and push: "push_ok (wg_config_path wg_dir)" "sp_state_file (ServerPaths root) \<notin> push_names (wg_config_path wg_dir)"
  shows "rp env (remove_locally u name root wg_dir)
    (\<lambda>r s'. removed_locally u name (disk_of (de_sys env) root (files s)) r (disk_of (de_sys env) root (files s')))
    (\<lambda>e s'. disk_of (de_sys env) root (files s') = disk_of (de_sys env) root (files s)) s"
proof -
  let ?p = "sp_state_file (ServerPaths root)" and ?l = "sp_state_lock (ServerPaths root)" and ?c = "wg_config_path wg_dir"
  let ?d = "\<lambda>s. disk_of (de_sys env) root (files s)"
  have lp: "?p \<noteq> ?l" using root by (auto simp: root_ok_def)
  let ?T = "insert ?l (push_names ?c)"
  have locking: "keeps env ?T (files_lock u root)"
    unfolding files_lock_def files_read_def Let_def
    by (intro keeps_rules confined_lock_acquire confined_read_to_string) simp
  have pushing: "keeps env ?T (files_apply \<lparr>if_name = WG_INTERFACE, if_config_path = ?c\<rparr> st None)" for st
    by (rule keeps_mono [OF keeps_files_apply]) (use push(1) in auto)
  have after: "rp env (run_bind (run_catch (files_lock u root)) (\<lambda>again. run_bind
      (case again of
         Inr st'' \<Rightarrow> run_bind (run_catch (files_apply \<lparr>if_name = WG_INTERFACE, if_config_path = ?c\<rparr> st'' None)) (\<lambda>r.
             case r of Inr _ \<Rightarrow> run_return True
             | Inl e \<Rightarrow> run_then (put_err (lit ''anago: the wg interface was not updated: '' @ wg_error_show e)) (run_return False))
       | Inl e \<Rightarrow> run_then (put_err (lit ''anago: could not re-read the state to update the interface: '' @ store_error_show u e))
            (run_return False))
      (\<lambda>done. run_return (removed_from_peer p (Some done) False)))) Q R s2"
    if ok2: "fs_ok (files s2)" and Q: "\<And>b s'. within s2 ?T s' \<Longrightarrow> Q (removed_from_peer p (Some b) False) s'" for s2 p Q R
  proof (subst rp_bind, subst rp_catch, rule rp_mono [OF keeps_rp [OF locking within_refl [OF ok2]]], goal_cases)
    case (1 st s3)
    then show ?case
      by (simp add: rp_bind rp_catch) (rule rp_mono [OF keeps_rp [OF pushing]], assumption, auto simp: rp_simps intro!: Q simp: within_def)
  next
    case (2 e s3)
    then show ?case by (auto simp: rp_simps intro!: Q simp: within_def)
  qed
  show ?thesis
    unfolding remove_locally_def
  proof (subst rp_bind, subst rp_map_err, rule rp_mono [OF rp_files_lock [OF root ok]], goal_cases)
    case (1 st s1)
    then have s1: "fs_ok (files s1)" and d1: "?d s1 = ?d s" and st: "holds u (?d s) st"
      using lp by (auto intro: frame_ok disk_frame)
    obtain r st' where rm: "remove_peer name st = (r, st')" by fastforce
    show ?case
    proof (cases r)
      case None
      then show ?thesis using d1 by (simp add: rm rp_simps)
    next
      case (Some p)
      have typed: "state_typed u st'" using remove_peer_typed [OF rm holds_typed [OF u st]] .
      have nm: "p_name p = name" using rm Some by (auto simp: remove_peer_Some)
      show ?thesis
        unfolding rm Some prod.case option.case
      proof (subst rp_then, subst rp_map_err, rule rp_mono [OF rp_files_write [OF root s1 u typed]], goal_cases)
        case (1 x s2)
        then have ok2: "fs_ok (files s2)" and d2: "?d s2 = Some (to_json_string st')" by (auto simp: frame_def)
        have same: "?d s' = ?d s2" if "within s2 ?T s'" for s' :: "'a site"
          using that lp push(2) by (intro disk_frame [of _ ?T]) (auto simp: within_def)
        have final: "removed_locally u name (?d s) (removed_from_peer p (Some b) False) (?d s')" if "within s2 ?T s'" for b and s' :: "'a site"
          unfolding removed_locally_def
          using st rm Some nm same [OF that] d2 by (intro exI [of _ st] exI [of _ p] exI [of _ st']) (simp add: removed_from_peer_def)
        show ?case
          by (rule after [OF ok2]) (rule final)
      next
        case (2 e s2)
        then show ?case using d1 by simp
      qed
    qed
  next
    case (2 e s1)
    then show ?case using lp by (auto intro: disk_frame)
  qed
qed

end
