(* ===== verification/Network.thy ===== *)
theory Network
  imports HubWire JoinFacts
begin

text \<open>
  A device and the hub: the hub of \<open>Hub\<close> put behind the requests of a device. The router of
  \<open>crates/anago/src/api.rs\<close> picks the handler, the answer travels as the bytes of a response and is read
  back by the client; a request may not arrive and an answer may be lost.
\<close>

section \<open>The hub behind a request\<close>

datatype fate = Delivered | NeverSent client_error | AnswerLost client_error

text \<open>
  What one request meets: the hub's file system, clock and random source, whether it and its answer
  arrive, the reason phrase and the fields the server library adds, and what that library answers
  where no route fits.
\<close>

record net_env =
  ne_io :: io_env
  ne_now :: int
  ne_minted :: "rstr + device_token"
  ne_fate :: fate
  ne_reason :: rstr
  ne_fields :: "(rstr \<times> rstr) list"
  ne_outside :: "client_request \<Rightarrow> http_response"

definition segment_of :: "rstr \<Rightarrow> rstr option" where
  "segment_of path =
    (case strip_prefix (PATH_PEERS @ lit ''/'') path of
       Some segment \<Rightarrow>
         if segment \<noteq> [] \<and> 47 \<notin> set segment then Option.bind (percent_decode segment) utf8_decode else None
     | None \<Rightarrow> None)"

definition authorization_of :: "client_request \<Rightarrow> rstr option option" where
  "authorization_of rq = map_option (\<lambda>h. Some (header_value_str h)) (rq_authorization rq)"

definition body_of :: "client_request \<Rightarrow> u8 list" where
  "body_of rq = (case rq_body rq of None \<Rightarrow> [] | Some b \<Rightarrow> utf8 (rb_content b))"

definition router ::
  "unicode \<Rightarrow> (u8 list \<Rightarrow> u8 list) \<Rightarrow> net_env \<Rightarrow> client_request \<Rightarrow> disk \<Rightarrow> http_response \<times> disk"
where
  "router u sha ne rq d =
    (if rq_method rq = Post \<and> rq_path rq = PATH_JOIN then
       handle_join u sha (ne_io ne) (ne_now ne) (ne_minted ne) (body_of rq) d
     else if rq_method rq = Get \<and> rq_path rq = PATH_PEERS then
       handle_peers u sha (ne_io ne) (ne_now ne) (authorization_of rq) d
     else
       (case (rq_method rq, segment_of (rq_path rq)) of
          (Delete, Some name) \<Rightarrow> handle_remove u sha (ne_io ne) (ne_now ne) (authorization_of rq) name d
        | _ \<Rightarrow> (ne_outside ne rq, d)))"

definition answer_bytes :: "net_env \<Rightarrow> http_response \<Rightarrow> u8 list" where
  "answer_bytes ne r = response_wire (resp_status r) (ne_reason ne) (resp_headers r @ ne_fields ne) (utf8 (resp_body r))"

definition net_send ::
  "unicode \<Rightarrow> (u8 list \<Rightarrow> u8 list) \<Rightarrow> (nat \<Rightarrow> net_env) \<Rightarrow> client_request \<Rightarrow> disk \<times> nat
    \<Rightarrow> (client_error + client_response) \<times> (disk \<times> nat)"
where
  "net_send u sha nes rq h =
    (let ne = nes (snd h); (r, d') = router u sha ne rq (fst h) in
     case ne_fate ne of
       NeverSent e \<Rightarrow> (Inl e, (fst h, snd h + 1))
     | AnswerLost e \<Rightarrow> (Inl e, (d', snd h + 1))
     | Delivered \<Rightarrow> (parse_bounded (answer_bytes ne r), (d', snd h + 1)))"

text \<open>What is documented of the parts around the hub.\<close>

definition net_ok :: "net_env \<Rightarrow> bool" where
  "net_ok ne \<longleftrightarrow> in_i64 (ne_now ne) \<and> (\<forall>t. ne_minted ne = Inr t \<longrightarrow> hex_ok (token_str t))
    \<and> wire_line (ne_reason ne) \<and> (\<forall>f \<in> set (ne_fields ne). field_ok f)
    \<and> (\<forall>rq. (resp_status (ne_outside ne rq) < 200 \<or> 300 \<le> resp_status (ne_outside ne rq)) \<and> resp_status (ne_outside ne rq) \<le> 65535
         \<and> (\<forall>f \<in> set (resp_headers (ne_outside ne rq)). field_ok f))"

section \<open>Statuses\<close>

definition fair_status :: "http_response \<Rightarrow> bool" where
  "fair_status r \<longleftrightarrow> resp_status r \<le> 65535 \<and> (200 \<le> resp_status r \<and> resp_status r < 300 \<longrightarrow> resp_status r = 200)
    \<and> (\<forall>f \<in> set (resp_headers r). field_ok f)"

lemma fields_plain: "field_ok (lit ''content-type'', lit ''application/json'')" "field_ok (lit ''www-authenticate'', lit ''Bearer'')"
  by (simp_all add: field_ok_def wire_line_def lit_Cons)

lemma fair_json: "fair_status (json_response 200 body)"
  using fields_plain by (simp add: fair_status_def json_response_def)

lemma fair_error: "fair_status (error_response e)"
  using fields_plain by (cases "ae_code e") (simp_all add: fair_status_def error_response_def json_response_def Let_def)

lemma fair_internal: "fair_status (internal_error m)"
  by (simp add: internal_error_def fair_error)

lemma fair_join: "fair_status (fst (handle_join u sha env now minted body d))"
  by (auto simp: handle_join_def fair_json fair_error fair_internal split: sum.split prod.split)

lemma fair_caller: "fair_status (fst (with_caller u sha env now header change d))"
  by (auto simp: with_caller_def fair_json fair_error fair_internal split: sum.split prod.split)

lemma fair_outside: "net_ok ne \<Longrightarrow> fair_status (ne_outside ne rq)"
  unfolding net_ok_def fair_status_def by (metis leD)

lemma fair_router: "net_ok ne \<Longrightarrow> fair_status (fst (router u sha ne rq d))"
  by (auto simp: router_def handle_peers_def handle_remove_def fair_join fair_caller fair_outside
      split: http_method.split option.split)

text \<open>A success the client reads is a 200 of a handler, and its body is the handler's.\<close>

lemma answer_parts:
  assumes "net_ok ne" "fair_status r" "parse_bounded (answer_bytes ne r) = Inr a"
  shows "cr_status a = resp_status r" "utf8_decode (utf8 (resp_body r)) = Some (cr_body a)"
proof -
  have fs: "\<forall>f \<in> set (resp_headers r @ ne_fields ne). field_ok f" using assms(1,2) by (auto simp: net_ok_def fair_status_def)
  have "parse_response (answer_bytes ne r) = Inr a" using assms(3) by (simp add: parse_bounded_def split: if_splits)
  then show "cr_status a = resp_status r" "utf8_decode (utf8 (resp_body r)) = Some (cr_body a)"
    using parse_response_wire [OF _ _ fs, of "resp_status r" "ne_reason ne" "utf8 (resp_body r)"] assms(1,2)
    by (auto simp: answer_bytes_def net_ok_def fair_status_def split: option.splits if_splits)
qed

lemma answer_read:
  assumes "net_ok ne" "fair_status r" "parse_bounded (answer_bytes ne r) = Inr a" "is_success a"
  shows "resp_status r = 200 \<and> (valid_str (resp_body r) \<longrightarrow> cr_body a = resp_body r)"
  using answer_parts [OF assms(1-3)] assms(2,4) by (auto simp: fair_status_def is_success_def)

section \<open>A device that joined\<close>

text \<open>A name and a code in the form their parsers give.\<close>

definition join_inputs_ok :: "unicode \<Rightarrow> join_code \<Rightarrow> device_name \<Rightarrow> bool" where
  "join_inputs_ok u code name \<longleftrightarrow> join_code_parse (code_str code) = Inr code
    \<and> device_name_parse u (name_str name) = Inr name \<and> valid_str (name_str name) \<and> valid_str (code_str code)"

lemma join_body_read:
  assumes "join_inputs_ok u code name" "key_ok key"
  shows "parse_body u (utf8 (join_body code name key)) =
    Inr \<lparr>jq_code = code_str code, jq_name = name_str name, jq_public_key = key\<rparr>"
proof -
  let ?rq = "\<lparr>jq_code = code_str code, jq_name = name_str name, jq_public_key = key\<rparr>"
  have ok: "join_request_ok ?rq" using assms key_ok_valid by (simp add: join_request_ok_def join_inputs_ok_def)
  have "valid_str (to_string (join_request_to_json ?rq))" by (rule join_request_codec.valid_text [OF ok])
  with join_request_codec.parse_written [OF ok, of u] join_request_codec.dec_enc [OF ok] show ?thesis
    by (simp add: parse_body_def join_body_def ok_or_def)
qed

text \<open>The device the hub lists, and what is in the device file about it.\<close>

definition registered_as ::
  "(u8 list \<Rightarrow> u8 list) \<Rightarrow> device_name \<Rightarrow> rstr \<Rightarrow> device_config \<Rightarrow> peer \<Rightarrow> bool"
where
  "registered_as sha name key config q \<longleftrightarrow> p_name q = name \<and> p_public_key q = key
    \<and> dc_name config = name_str name \<and> dc_address config = ipv4_show (p_address q)
    \<and> (\<exists>token. token_parse (dc_token config) = Inr token \<and> p_token_hash q = hash_token sha token)"

lemma parse_key_id: "key_ok k \<Longrightarrow> parse_key k = Inr k"
  using key_ok_no_ws by (simp add: parse_key_iff trim_id)

lemma token_parse_str: "hex_ok (token_str t) \<Longrightarrow> token_parse (token_str t) = Inr t"
  by (cases t) (simp add: token_parse_def hex_ok_def)

lemma join_answered:
  assumes parts: "parts_ok u sha" and nets: "\<forall>k. net_ok (nes k)"
    and d: "holds u d st" "state_safe st" and inputs: "join_inputs_ok u code name"
    and send: "net_send u sha nes (join_http_request domain port (join_body code name key)) (d, k) = (Inr a, h')"
    and success: "is_success a" and key: "key_ok key"
  shows "\<exists>st' q token. holds u (fst h') st' \<and> state_safe st' \<and> st_peers st' = st_peers st @ [q]
    \<and> p_name q = name \<and> p_public_key q = key \<and> hex_ok (token_str token) \<and> p_token_hash q = hash_token sha token
    \<and> p_address q = Min (usable_addresses (st_subnet st) - p_address ` set (st_peers st))
    \<and> cr_body a = to_string (join_response_to_json (join_answer st' token q)) \<and> join_response_ok (join_answer st' token q)"
proof -
  let ?ne = "nes k" and ?body = "join_body code name key"
  obtain r d1 where run: "router u sha ?ne (join_http_request domain port ?body) d = (r, d1)" by fastforce
  then have join: "handle_join u sha (ne_io ?ne) (ne_now ?ne) (ne_minted ?ne) (utf8 ?body) d = (r, d1)"
    by (simp add: router_def join_http_request_def body_of_def json_body_def)
  have fair: "fair_status r" using fair_join [of u sha "ne_io ?ne" "ne_now ?ne" "ne_minted ?ne" "utf8 ?body" d] join by simp
  have d1: "fst h' = d1" and read: "parse_bounded (answer_bytes ?ne r) = Inr a"
    using send run by (auto simp: net_send_def Let_def split: fate.splits)
  note ans = answer_read [OF nets [rule_format] fair read success]
  from join obtain token where minted: "ne_minted ?ne = Inr token"
    using ans by (cases rule: handle_join_cases) auto
  have hex: "hex_ok (token_str token)" and now: "in_i64 (ne_now ?ne)" using nets [rule_format, of k] minted by (auto simp: net_ok_def)
  obtain rq reg i q st' where rq: "parse_body u (utf8 ?body) = Inr rq" "registration_of u rq (hash_token sha token) = Inr reg"
    and st': "holds u d1 st'" "st_peers st' = st_peers st @ [q]" "p_token_hash q = hash_token sha token"
      "p_address q = Min (usable_addresses (st_subnet st) - p_address ` set (st_peers st))"
      "p_name q = rg_name reg" "p_public_key q = rg_public_key reg"
    and safe: "state_safe st'" and body: "resp_body r = to_string (join_response_to_json (join_answer st' token q))"
      "join_response_ok (join_answer st' token q)"
    using handle_join_done [OF parts d now hex join [unfolded minted]] ans by blast
  have reg: "rg_name reg = name" "rg_public_key reg = key"
    using rq inputs key by (auto simp: join_body_read [OF inputs key] registration_of_Inr join_inputs_ok_def parse_key_id)
  have "valid_str (resp_body r)" unfolding body(1) by (rule join_response_codec.valid_text [OF body(2)])
  then have "cr_body a = to_string (join_response_to_json (join_answer st' token q))" using ans body(1) by simp
  then show ?thesis using st' reg safe d1 hex body(2) by blast
qed

lemma join_registers:
  assumes parts: "parts_ok u sha" and nets: "\<forall>k. net_ok (nes k)"
    and d: "holds u d st" "state_safe st" and inputs: "join_inputs_ok u code name"
    and send: "net_send u sha nes (join_http_request domain port (join_body code name key)) (d, k) = (Inr a, h')"
    and success: "is_success a" and key: "key_ok key"
    and config: "accepted u (cr_body a) domain port private = Inr (config, profile)"
  shows "\<exists>st' q. holds u (fst h') st' \<and> state_safe st' \<and> st_peers st' = st_peers st @ [q] \<and> registered_as sha name key config q
    \<and> p_address q = Min (usable_addresses (st_subnet st) - p_address ` set (st_peers st))"
proof -
  obtain st' q token where st': "holds u (fst h') st'" "state_safe st'" "st_peers st' = st_peers st @ [q]"
    "p_name q = name" "p_public_key q = key" "p_token_hash q = hash_token sha token"
    "p_address q = Min (usable_addresses (st_subnet st) - p_address ` set (st_peers st))"
    and hex: "hex_ok (token_str token)"
    and cr: "cr_body a = to_string (join_response_to_json (join_answer st' token q))" "join_response_ok (join_answer st' token q)"
    using join_answered [OF parts nets d inputs send success key] by blast
  have "config = device_from_response domain port (join_answer st' token q)"
    using config join_response_codec.parse_written [OF cr(2), of u] join_response_codec.dec_enc [OF cr(2)]
    by (auto simp: accepted_def cr(1) Let_def result_simps)
  then have "registered_as sha name key config q"
    using st' token_parse_str [OF hex] by (simp add: registered_as_def device_from_response_def join_answer_def)
  then show ?thesis using st' by blast
qed

section \<open>A join that is taken back\<close>

text \<open>Against this hub the answer always names what an undo needs.\<close>

lemma answer_has_credentials:
  assumes "join_response_ok (join_answer st token q)" "hex_ok (token_str token)"
    and "device_name_parse u (name_str (p_name q)) = Inr (p_name q)"
  shows "undo_credentials u (to_string (join_response_to_json (join_answer st token q))) = Some (p_name q, token)"
  using join_response_codec.parse_written [OF assms(1), of u] assms(2,3) token_parse_str
  by (simp add: undo_credentials_def join_response_to_json_def value_obj_def join_answer_def obj_get_def Let_def)

lemma strip_prefix_append: "strip_prefix p (p @ s) = Some s"
  by (simp add: strip_prefix_def)

lemma segment_of_name:
  assumes "valid_str n" "n \<noteq> []"
  shows "segment_of (PATH_PEERS @ lit ''/'' @ encode_segment n) = Some n"
proof -
  have "47 \<notin> set (encode_segment n)"
    using encode_segment_plain [of 47 n] by (auto simp: is_unreserved_def char_class_defs)
  moreover have "encode_segment n \<noteq> []"
  proof
    assume "encode_segment n = []"
    then have "utf8 n = []" using percent_decode_encode [of n] by simp
    then have "utf8_decode (utf8 n) = Some []" by simp
    then show False using assms utf8_decode_utf8 [OF assms(1)] by simp
  qed
  ultimately show ?thesis
    using assms strip_prefix_append [of "PATH_PEERS @ lit ''/''" "encode_segment n"]
    by (simp add: segment_of_def percent_decode_encode)
qed

lemma removal_restores:
  assumes parts: "parts_ok u sha" and nets: "\<forall>k. net_ok (nes k)"
    and d: "holds u d st'" "state_safe st'" and ps: "st_peers st' = ps @ [q]"
    and name: "device_name_parse u (name_str (p_name q)) = Inr (p_name q)" "valid_str (name_str (p_name q))" "name_str (p_name q) \<noteq> []"
    and send: "net_send u sha nes (delete_request domain port (p_name q) token) (d, k) = (Inr a, h')"
    and success: "is_success a"
  shows "\<exists>st''. holds u (fst h') st'' \<and> map member_of (st_peers st'') = map member_of ps \<and> st_codes st'' = st_codes st'"
proof -
  let ?ne = "nes k" and ?rq = "delete_request domain port (p_name q) token"
  obtain r d1 where run: "router u sha ?ne ?rq d = (r, d1)" by fastforce
  then have rm: "handle_remove u sha (ne_io ?ne) (ne_now ?ne) (authorization_of ?rq) (name_str (p_name q)) d = (r, d1)"
    using segment_of_name [OF name(2,3)] by (simp add: router_def delete_request_def)
  have fair: "fair_status r" using fair_router [OF nets [rule_format], of u sha k ?rq d] run by simp
  have d1: "fst h' = d1" and read: "parse_bounded (answer_bytes ?ne r) = Inr a"
    using send run by (auto simp: net_send_def Let_def split: fate.splits)
  have ok: "resp_status r = 200" using answer_read [OF nets [rule_format] fair read success] by simp
  have u: "unicode_laws u" and now: "in_i64 (ne_now ?ne)" using parts nets [rule_format, of k] by (auto simp: parts_ok_def net_ok_def)
  obtain p st'' where p: "device_name_parse u (name_str (p_name q)) = Inr (p_name p)" "p \<in> set (st_peers st')"
    and st'': "holds u d1 st''" "map member_of (st_peers st'') = map member_of (remove1 p (st_peers st'))" "st_codes st'' = st_codes st'"
    using handle_remove_done [OF u d(1) now rm ok] by blast
  have dist: "distinct (map p_name (ps @ [q]))" using d(2) by (simp add: state_safe_def ps)
  have "p_name p = p_name q" using p(1) name(1) by simp
  then have "p = q" using p(2) dist by (auto simp: ps image_iff)
  moreover have "q \<notin> set ps" using dist by auto
  ultimately have "remove1 p (st_peers st') = ps" by (simp add: ps remove1_append)
  then show ?thesis using st'' d1 by auto
qed

section \<open>The whole of a join\<close>

text \<open>The roster of the hub's file, without the times of last contact.\<close>

definition same_roster :: "unicode \<Rightarrow> disk \<Rightarrow> disk \<Rightarrow> bool" where
  "same_roster u d d' \<longleftrightarrow> (\<exists>st st'. holds u d st \<and> holds u d' st'
     \<and> map member_of (st_peers st') = map member_of (st_peers st))"

lemma same_roster_refl: "holds u d st \<Longrightarrow> same_roster u d d"
  by (auto simp: same_roster_def)

lemma refused_join_keeps:
  assumes nets: "\<forall>k. net_ok (nes k)" and "holds u d st"
    and send: "net_send u sha nes (join_http_request domain port body) (d, k) = (Inr a, h')" and no: "\<not> is_success a"
  shows "fst h' = d"
proof -
  let ?ne = "nes k"
  obtain r d1 where run: "router u sha ?ne (join_http_request domain port body) d = (r, d1)" by fastforce
  then have join: "handle_join u sha (ne_io ?ne) (ne_now ?ne) (ne_minted ?ne) (utf8 body) d = (r, d1)"
    by (simp add: router_def join_http_request_def body_of_def json_body_def)
  have fair: "fair_status r" using fair_join [of u sha "ne_io ?ne" "ne_now ?ne" "ne_minted ?ne" "utf8 body" d] join by simp
  have d1: "fst h' = d1" and read: "parse_bounded (answer_bytes ?ne r) = Inr a"
    using send run by (auto simp: net_send_def Let_def split: fate.splits)
  have "cr_status a = resp_status r" by (rule answer_parts(1) [OF nets [rule_format] fair read])
  then have "resp_status r \<noteq> 200" using no by (auto simp: is_success_def)
  with join d1 show ?thesis by (cases rule: handle_join_cases) auto
qed

text \<open>How a join that failed left the hub's roster, and what it said about it.\<close>

definition roster_after_failure ::
  "unicode \<Rightarrow> (client_request \<Rightarrow> 'h \<Rightarrow> (client_error + client_response) \<times> 'h) \<Rightarrow> disk \<Rightarrow> 'h \<Rightarrow> join_error \<Rightarrow> disk \<Rightarrow> bool"
where
  "roster_after_failure u send d h e d' \<longleftrightarrow>
    same_roster u d d'
    \<or> (\<exists>rq c h'. rq_path rq = PATH_JOIN \<and> send rq h = (Inl c, h'))
    \<or> (\<exists>cause n. e = SavedNothing NOTHING_SAVED cause (recovery_note (UndoFailed n)))"

lemma roster_of_failure:
  assumes parts: "parts_ok u sha" and nets: "\<forall>k. net_ok (nes k)"
    and d: "holds u d st" "state_safe st" and inputs: "join_inputs_ok u code name" "name_str name \<noteq> []"
    and env: "de_send env = net_send u sha nes"
    and hub: "hub_after_failure u env domain code name port (d, k) e h'"
  shows "roster_after_failure u (net_send u sha nes) d (d, k) e (fst h')"
  using hub unfolding hub_after_failure_def
proof (elim disjE exE conjE)
  assume "h' = (d, k)"
  then show ?thesis using same_roster_refl [OF d(1)] by (simp add: roster_after_failure_def)
next
  fix key r
  assume asked: "join_asked env domain code name port (d, k) key r h'" and no: "\<forall>a. r = Inr a \<longrightarrow> \<not> is_success a"
  show ?thesis
  proof (cases r)
    case (Inl c)
    then have "rq_path (join_http_request domain port (join_body code name key)) = PATH_JOIN
        \<and> net_send u sha nes (join_http_request domain port (join_body code name key)) (d, k) = (Inl c, h')"
      using asked env by (simp add: join_asked_def join_http_request_def)
    then show ?thesis unfolding roster_after_failure_def by blast
  next
    case (Inr a)
    then have "net_send u sha nes (join_http_request domain port (join_body code name key)) (d, k) = (Inr a, h')"
      using asked env by (simp add: join_asked_def)
    then have "fst h' = d" using refused_join_keeps [OF nets d(1)] no Inr by blast
    then show ?thesis using same_roster_refl [OF d(1)] by (simp add: roster_after_failure_def)
  qed
next
  fix key a h1 cause outcome
  assume asked: "join_asked env domain code name port (d, k) key (Inr a) h1" and yes: "is_success a"
    and undo: "undo_asked u env domain port (cr_body a) h1 outcome h'"
    and e: "e = SavedNothing NOTHING_SAVED (join_error_show u cause) (recovery_note outcome)"
  obtain st' q token where st': "holds u (fst h1) st'" "state_safe st'" "st_peers st' = st_peers st @ [q]" "p_name q = name"
    and hex: "hex_ok (token_str token)"
    and cr: "cr_body a = to_string (join_response_to_json (join_answer st' token q))" "join_response_ok (join_answer st' token q)"
    using join_answered [OF parts nets d inputs(1) _ yes] asked env by (fastforce simp: join_asked_def)
  have n: "device_name_parse u (name_str (p_name q)) = Inr (p_name q)" "valid_str (name_str (p_name q))" "name_str (p_name q) \<noteq> []"
    using inputs st'(4) by (simp_all add: join_inputs_ok_def)
  have "undo_credentials u (cr_body a) = Some (p_name q, token)"
    unfolding cr(1) by (rule answer_has_credentials [OF cr(2) hex n(1)])
  then obtain r where send: "net_send u sha nes (delete_request domain port (p_name q) token) h1 = (r, h')"
    and o': "outcome = (case r of Inr response \<Rightarrow> if is_success response then UndoDone else UndoFailed (name_str (p_name q))
        | Inl _ \<Rightarrow> UndoFailed (name_str (p_name q)))"
    using undo env by (auto simp: undo_asked_def)
  show ?thesis
  proof (cases "outcome = UndoDone")
    case True
    then obtain b where b: "r = Inr b" "is_success b" using o' by (auto split: sum.splits if_splits)
    obtain st'' where "holds u (fst h') st''" "map member_of (st_peers st'') = map member_of (st_peers st)"
      using removal_restores [OF parts nets st'(1,2,3) n, of domain port token "snd h1"] send b by auto
    then show ?thesis using d(1) unfolding roster_after_failure_def same_roster_def by blast
  next
    case False
    then show ?thesis using o' e by (auto simp: roster_after_failure_def split: sum.splits if_splits)
  qed
qed

text \<open>The device file a join leaves, and the device the hub lists.\<close>

definition joined_network ::
  "unicode \<Rightarrow> (u8 list \<Rightarrow> u8 list) \<Rightarrow> path \<Rightarrow> server_state \<Rightarrow> device_config \<Rightarrow> fs \<Rightarrow> disk \<Rightarrow> bool"
where
  "joined_network u sha dir st config s d' \<longleftrightarrow> (\<exists>st' q name key f.
     holds u d' st' \<and> state_safe st' \<and> st_peers st' = st_peers st @ [q] \<and> registered_as sha name key config q
     \<and> look s (device_at dir) = Some (Inl f) \<and> f_bytes f = utf8 (device_to_json_string config))"

lemma join_and_hub:
  fixes env :: "(disk \<times> nat) dev_env"
  assumes parts: "parts_ok u sha" and nets: "\<forall>k. net_ok (nes k)" and env: "quiet env" "de_send env = net_send u sha nes"
    and d: "holds u d st" "state_safe st" "si_hub s = (d, k)"
    and files: "join_names (de_sys env) (client_dir paths) p" "fs_ok (files s)"
    and inputs: "\<And>n. join_name u env name = Some n \<Longrightarrow> join_inputs_ok u code n \<and> name_str n \<noteq> []"
  shows "rp env (join_run u domain code name port paths p invoking)
    (\<lambda>config s'. joined_network u sha (client_dir paths) st config (files s') (fst (si_hub s')))
    (\<lambda>e s'. not_joined (de_sys env) (client_dir paths) p (owner_of_user invoking) (files s) (files s')
      \<and> roster_after_failure u (net_send u sha nes) d (d, k) e (fst (si_hub s'))) s"
proof (rule rp_mono [OF rp_join_run [OF env(1) files]], goal_cases)
  case (1 config s')
  then obtain n key pk profile a where n: "join_name u env name = Some n" "key_ok pk" "is_success a"
    "de_send env (join_http_request domain port (join_body code n pk)) (d, k) = (Inr a, si_hub s')"
    "accepted u (cr_body a) domain port key = Inr (config, profile)"
    "joined_files (de_sys env) (client_dir paths) p (owner_of_user invoking) config profile (files s')"
    by (auto simp: join_succeeded_def join_asked_def d(3))
  then show ?case
    using join_registers [OF parts nets d(1,2) _ _ n(3,2,5), of code n k "si_hub s'"] inputs [OF n(1)] env(2)
    by (fastforce simp: joined_network_def joined_files_def finished_def)
next
  case (2 e s')
  have same: "roster_after_failure u (net_send u sha nes) d (d, k) e d"
    using same_roster_refl [OF d(1)] by (simp add: roster_after_failure_def)
  from 2 show ?case
    using roster_of_failure [OF parts nets d(1,2) _ _ env(2), where h' = "si_hub s'"] inputs same by (fastforce simp: d(3))
qed

text \<open>An answer that is lost leaves the device on the hub's list and nothing on the device to undo it with.\<close>

lemma lost_answer_registers:
  assumes "ne_fate (nes k) = AnswerLost c"
    and "handle_join u sha (ne_io (nes k)) (ne_now (nes k)) (ne_minted (nes k)) (utf8 body) d = (r, d')"
  shows "net_send u sha nes (join_http_request domain port body) (d, k) = (Inl c, (d', k + 1))"
  using assms by (simp add: net_send_def router_def join_http_request_def body_of_def json_body_def)

end
