(* ===== verification/Args.thy ===== *)
theory Args
  imports RustText
begin

text \<open>
  \<open>crates/anago/src/args.rs\<close>: the arguments of a command against the flags it declares.
\<close>

datatype flag_kind = BooleanFlag | ValueFlag

record flag =
  fg_name :: rstr
  fg_kind :: flag_kind

definition boolean_flag :: "string \<Rightarrow> flag" where
  "boolean_flag name = \<lparr>fg_name = lit name, fg_kind = BooleanFlag\<rparr>"

definition value_flag :: "string \<Rightarrow> flag" where
  "value_flag name = \<lparr>fg_name = lit name, fg_kind = ValueFlag\<rparr>"

record parsed_args =
  pa_positionals :: "rstr list"
  pa_flags :: "(rstr \<times> rstr option) list"

datatype arg_error =
    UnknownFlag rstr
  | MissingValue rstr
  | EmptyValue rstr
  | UnexpectedValue rstr
  | DuplicateFlag rstr
  | RequiredFlag rstr

fun arg_error_show :: "arg_error \<Rightarrow> rstr" where
  "arg_error_show (UnknownFlag token) = lit ''unknown flag '' @ token"
| "arg_error_show (MissingValue name) = lit ''--'' @ name @ lit '' needs a value''"
| "arg_error_show (EmptyValue name) = lit ''--'' @ name @ lit '' needs a non-empty value''"
| "arg_error_show (UnexpectedValue name) = lit ''--'' @ name @ lit '' does not take a value''"
| "arg_error_show (DuplicateFlag name) = lit ''--'' @ name @ lit '' was given more than once''"
| "arg_error_show (RequiredFlag name) = lit ''--'' @ name @ lit '' is required''"

definition starts_dash :: "rstr \<Rightarrow> bool" where
  "starts_dash arg \<longleftrightarrow> (case arg of [] \<Rightarrow> False | c # _ \<Rightarrow> c = 45)"

definition is_flag_like :: "rstr \<Rightarrow> bool" where
  "is_flag_like arg \<longleftrightarrow> starts_dash arg \<and> arg \<noteq> lit ''-''"

definition find_flag :: "flag list \<Rightarrow> rstr \<Rightarrow> flag option" where
  "find_flag spec token =
    Option.bind (strip_prefix (lit ''--'') token) (\<lambda>name. List.find (\<lambda>f. fg_name f = name) spec)"

text \<open>The value of a flag, and how many of the next arguments it took.\<close>

definition flag_value :: "flag \<Rightarrow> rstr option \<Rightarrow> rstr list \<Rightarrow> arg_error + (rstr option \<times> nat)" where
  "flag_value f inline argv =
    (case fg_kind f of
       BooleanFlag \<Rightarrow>
         if inline \<noteq> None then Inl (UnexpectedValue (fg_name f)) else Inr (None, 0)
     | ValueFlag \<Rightarrow>
         attempt
           (case inline of
              Some v \<Rightarrow> Inr (v, 0)
            | None \<Rightarrow>
                (case argv of
                   next_arg # _ \<Rightarrow>
                     if \<not> is_flag_like next_arg then Inr (next_arg, 1) else Inl (MissingValue (fg_name f))
                 | [] \<Rightarrow> Inl (MissingValue (fg_name f)))) (\<lambda>(v, n).
           if v = [] then Inl (EmptyValue (fg_name f)) else Inr (Some v, n)))"

definition push_positional :: "rstr \<Rightarrow> parsed_args \<Rightarrow> parsed_args" where
  "push_positional arg p = p\<lparr>pa_positionals := pa_positionals p @ [arg]\<rparr>"

definition split_flag :: "rstr \<Rightarrow> rstr \<times> rstr option" where
  "split_flag arg = (case split_once 61 arg of Some (token, v) \<Rightarrow> (token, Some v) | None \<Rightarrow> (arg, None))"

text \<open>One flag: what is added to the parsed flags, and how many of the next arguments it took.\<close>

definition take_flag :: "flag list \<Rightarrow> rstr \<Rightarrow> rstr list \<Rightarrow> parsed_args \<Rightarrow> arg_error + (parsed_args \<times> nat)" where
  "take_flag spec arg argv p =
    (case split_flag arg of (token, inline) \<Rightarrow>
     attempt (ok_or (UnknownFlag token) (find_flag spec token)) (\<lambda>f.
     attempt (flag_value f inline argv) (\<lambda>(v, n).
       if \<exists>(name, _) \<in> set (pa_flags p). name = fg_name f then Inl (DuplicateFlag (fg_name f))
       else Inr (p\<lparr>pa_flags := pa_flags p @ [(fg_name f, v)]\<rparr>, n))))"

function args_loop :: "flag list \<Rightarrow> bool \<Rightarrow> rstr list \<Rightarrow> parsed_args \<Rightarrow> arg_error + parsed_args" where
  "args_loop spec rest_positional [] p = Inr p"
| "args_loop spec rest_positional (arg # argv) p =
    (if rest_positional then args_loop spec True argv (push_positional arg p)
     else if arg = lit ''--'' then args_loop spec True argv p
     else if arg = lit ''-'' \<or> \<not> starts_dash arg then args_loop spec False argv (push_positional arg p)
     else attempt (take_flag spec arg argv p) (\<lambda>(p', n). args_loop spec False (drop n argv) p'))"
  by pat_completeness auto
termination
  by (relation "measure (\<lambda>(spec, rest, argv, p). length argv)") (auto simp: less_Suc_eq_le)

definition args_parse :: "rstr list \<Rightarrow> flag list \<Rightarrow> arg_error + parsed_args" where
  "args_parse argv spec = args_loop spec False argv \<lparr>pa_positionals = [], pa_flags = []\<rparr>"

definition is_set :: "parsed_args \<Rightarrow> string \<Rightarrow> bool" where
  "is_set p name \<longleftrightarrow> (\<exists>(f, _) \<in> set (pa_flags p). f = lit name)"

definition arg_value :: "parsed_args \<Rightarrow> string \<Rightarrow> rstr option" where
  "arg_value p name = Option.bind (List.find (\<lambda>(f, _). f = lit name) (pa_flags p)) snd"

definition arg_require :: "parsed_args \<Rightarrow> string \<Rightarrow> arg_error + rstr" where
  "arg_require p name = ok_or (RequiredFlag (lit name)) (arg_value p name)"

section \<open>What a parse guarantees\<close>

text \<open>Every flag was declared, has a value exactly when it takes one, and is there once.\<close>

definition args_ok :: "flag list \<Rightarrow> parsed_args \<Rightarrow> bool" where
  "args_ok spec p \<longleftrightarrow> distinct (map fst (pa_flags p))
    \<and> (\<forall>(name, v) \<in> set (pa_flags p). \<exists>f \<in> set spec. fg_name f = name
        \<and> (case fg_kind f of BooleanFlag \<Rightarrow> v = None | ValueFlag \<Rightarrow> (\<exists>t. v = Some t \<and> t \<noteq> [])))"

lemma find_flag_Some:
  "find_flag spec token = Some f \<Longrightarrow> f \<in> set spec \<and> token = lit ''--'' @ fg_name f"
  by (auto simp: find_flag_def bind_eq_Some_conv strip_prefix_def dest!: find_Some_set split: if_splits)
    (metis append_take_drop_id)+

lemma flag_value_Inr:
  "flag_value f inline argv = Inr (v, n) \<Longrightarrow>
    (case fg_kind f of BooleanFlag \<Rightarrow> v = None | ValueFlag \<Rightarrow> (\<exists>t. v = Some t \<and> t \<noteq> []))"
  by (auto simp: flag_value_def attempt_eq_Inr split: flag_kind.splits if_splits prod.splits)

lemma take_flag_ok:
  assumes "take_flag spec arg argv p = Inr (p', n)" "args_ok spec p"
  shows "args_ok spec p' \<and> pa_positionals p' = pa_positionals p"
proof -
  obtain token inline where s: "split_flag arg = (token, inline)" by force
  from assms(1) obtain f v where f: "find_flag spec token = Some f" "flag_value f inline argv = Inr (v, n)"
    "\<forall>(name, _) \<in> set (pa_flags p). name \<noteq> fg_name f"
    and p': "p' = p\<lparr>pa_flags := pa_flags p @ [(fg_name f, v)]\<rparr>"
    by (auto simp: take_flag_def s attempt_eq_Inr ok_or_eq_Inr split: if_splits)
  from f(1) have "f \<in> set spec" by (simp add: find_flag_Some)
  moreover have "fg_name f \<notin> fst ` set (pa_flags p)" using f(3) by fastforce
  ultimately show ?thesis
    using assms(2) flag_value_Inr [OF f(2)] by (auto simp: args_ok_def p')
qed

lemma args_loop_ok:
  "args_loop spec rest argv p = Inr p' \<Longrightarrow> args_ok spec p \<Longrightarrow> args_ok spec p'"
proof (induction spec rest argv p rule: args_loop.induct)
  case (2 spec rest arg argv p)
  have pushed: "args_ok spec (push_positional arg p)"
    using 2(6) by (simp add: args_ok_def push_positional_def)
  show ?case
  proof (cases "rest \<or> arg = lit ''--'' \<or> arg = lit ''-'' \<or> \<not> starts_dash arg")
    case True
    then show ?thesis
      using 2 pushed by (auto split: if_splits)
  next
    case False
    then obtain q n where q: "take_flag spec arg argv p = Inr (q, n)" "args_loop spec False (drop n argv) q = Inr p'"
      using 2(5) by (auto simp: attempt_eq_Inr split: if_splits)
    from 2(4) [of "(q, n)" q n] False q take_flag_ok [OF q(1) 2(6)] show ?thesis by simp
  qed
qed simp

lemma args_parse_ok: "args_parse argv spec = Inr p \<Longrightarrow> args_ok spec p"
  unfolding args_parse_def by (erule args_loop_ok) (simp add: args_ok_def)

text \<open>After \<open>--\<close> everything is positional, so every name can be given.\<close>

lemma args_loop_rest: "args_loop spec True argv p = Inr (p\<lparr>pa_positionals := pa_positionals p @ argv\<rparr>)"
  by (induction argv arbitrary: p) (simp_all add: push_positional_def)

lemma args_after_dashes:
  "args_parse (lit ''--'' # argv) spec = Inr \<lparr>pa_positionals = argv, pa_flags = []\<rparr>"
  by (simp add: args_parse_def args_loop_rest)

lemma arg_value_nonempty: "args_ok spec p \<Longrightarrow> arg_value p name = Some v \<Longrightarrow> v \<noteq> []"
proof -
  assume ok: "args_ok spec p" and v: "arg_value p name = Some v"
  from v obtain fl where "(fl, Some v) \<in> set (pa_flags p)"
    by (auto simp: arg_value_def bind_eq_Some_conv dest!: find_Some_set)
  from bspec [OF conjunct2 [OF ok [unfolded args_ok_def]] this] show ?thesis
    by (auto split: flag_kind.splits) (metis flag_kind.exhaust)
qed

text \<open>
  The command line that says what was parsed: each flag with its value behind an equals sign, then the
  positional arguments behind \<open>--\<close>. It is read back as it was.
\<close>

definition spelled :: "rstr \<times> rstr option \<Rightarrow> rstr" where
  "spelled fv = (case fv of (name, v) \<Rightarrow> lit ''--'' @ name @ (case v of None \<Rightarrow> [] | Some t \<Rightarrow> 61 # t))"

definition command_line :: "parsed_args \<Rightarrow> rstr list" where
  "command_line p = map spelled (pa_flags p) @ lit ''--'' # pa_positionals p"

definition spec_ok :: "flag list \<Rightarrow> bool" where
  "spec_ok spec \<longleftrightarrow> distinct (map fg_name spec) \<and> (\<forall>f \<in> set spec. fg_name f \<noteq> [] \<and> 61 \<notin> set (fg_name f))"

lemma find_distinct:
  "distinct (map g xs) \<Longrightarrow> x \<in> set xs \<Longrightarrow> List.find (\<lambda>y. g y = g x) xs = Some x"
  by (induction xs) (auto simp: image_iff)

lemma take_flag_spelled:
  assumes spec: "spec_ok spec" and f: "f \<in> set spec" "fg_name f = name"
    and v: "case fg_kind f of BooleanFlag \<Rightarrow> v = None | ValueFlag \<Rightarrow> (\<exists>t. v = Some t \<and> t \<noteq> [])"
    and new: "name \<notin> fst ` set (pa_flags p)"
  shows "take_flag spec (spelled (name, v)) argv p = Inr (p\<lparr>pa_flags := pa_flags p @ [(name, v)]\<rparr>, 0)"
proof -
  have name: "name \<noteq> []" "61 \<notin> set name" and "distinct (map fg_name spec)"
    using spec f by (auto simp: spec_ok_def)
  then have found: "find_flag spec (lit ''--'' @ name) = Some f"
    using find_distinct [of fg_name spec f] f by (simp add: find_flag_def strip_prefix_def)
  have split: "split_flag (spelled (name, v)) = (lit ''--'' @ name, v)"
  proof (cases v)
    case None
    then show ?thesis
      using name split_once_None [of 61 "lit ''--'' @ name"] by (simp add: split_flag_def spelled_def lit_Cons del: split_once.simps)
  next
    case (Some t)
    then show ?thesis
      using name split_once_append [of 61 "lit ''--'' @ name" t] by (simp add: split_flag_def spelled_def lit_Cons del: split_once.simps)
  qed
  from v have "flag_value f v argv = Inr (v, 0)"
    by (auto simp: flag_value_def split: flag_kind.splits)
  moreover have "\<not> (\<exists>(n, _) \<in> set (pa_flags p). n = fg_name f)"
    using new f(2) by force
  ultimately show ?thesis
    using f(2) by (simp add: take_flag_def split found)
qed

lemma args_loop_spelled:
  assumes spec: "spec_ok spec"
  shows "args_ok spec (p\<lparr>pa_flags := pa_flags p @ fs\<rparr>) \<Longrightarrow>
    args_loop spec False (map spelled fs @ rest) p = args_loop spec False rest (p\<lparr>pa_flags := pa_flags p @ fs\<rparr>)"
proof (induction fs arbitrary: p)
  case (Cons fv fs)
  obtain name v where fv: "fv = (name, v)" by force
  from Cons.prems obtain f where f: "f \<in> set spec" "fg_name f = name"
    "case fg_kind f of BooleanFlag \<Rightarrow> v = None | ValueFlag \<Rightarrow> (\<exists>t. v = Some t \<and> t \<noteq> [])"
    and new: "name \<notin> fst ` set (pa_flags p)"
    by (auto simp: args_ok_def fv)
  have plain: "spelled fv \<noteq> lit ''--'' \<and> spelled fv \<noteq> lit ''-'' \<and> starts_dash (spelled fv)"
    using f spec by (auto simp: fv spelled_def spec_ok_def lit_Cons starts_dash_def)
  show ?case
    using Cons.IH [of "p\<lparr>pa_flags := pa_flags p @ [(name, v)]\<rparr>"] Cons.prems plain
      take_flag_spelled [OF spec f new, of "map spelled fs @ rest"]
    by (simp add: fv)
qed simp

lemma args_roundtrip:
  assumes "spec_ok spec" "args_ok spec p"
  shows "args_parse (command_line p) spec = Inr p"
  using args_loop_spelled [OF assms(1), of "\<lparr>pa_positionals = [], pa_flags = []\<rparr>" "pa_flags p" "lit ''--'' # pa_positionals p"]
    assms(2)
  by (simp add: args_parse_def command_line_def args_loop_rest args_ok_def)

end
