(* ===== verification/Cloudflare.thy ===== *)
theory Cloudflare
  imports DnsDecide AcmeText Wgconf RunLogic
begin

text \<open>
  \<open>crates/anago/src/cfapi.rs\<close>: where the API token comes from, what the answers of Cloudflare mean, the
  zone a domain lives in, the hub's A record and the TXT record of a DNS-01 challenge. JSON is read and
  produced by \<open>serde_json\<close>, a package: its reader and its writer are the parameter \<open>serde\<close>, and its public
  \<open>Value\<close> is a data type here, a number by what \<open>sv_as_i64\<close> makes of it.
\<close>

section \<open>Values of the package\<close>

datatype svalue =
    SNull
  | SBool bool
  | SNumber "int option"
  | SString rstr
  | SArray "svalue list"
  | SObject "(rstr \<times> svalue) list"

record serde =
  sj_read :: "rstr \<Rightarrow> rstr + svalue"
  sj_write :: "svalue \<Rightarrow> rstr"

fun sv_get :: "svalue \<Rightarrow> rstr \<Rightarrow> svalue option" where
  "sv_get (SObject members) key = map_of members key"
| "sv_get _ key = None"

fun sv_as_str :: "svalue \<Rightarrow> rstr option" where
  "sv_as_str (SString s) = Some s"
| "sv_as_str _ = None"

fun sv_as_bool :: "svalue \<Rightarrow> bool option" where
  "sv_as_bool (SBool b) = Some b"
| "sv_as_bool _ = None"

fun sv_as_i64 :: "svalue \<Rightarrow> int option" where
  "sv_as_i64 (SNumber n) = n"
| "sv_as_i64 _ = None"

fun sv_as_array :: "svalue \<Rightarrow> svalue list option" where
  "sv_as_array (SArray items) = Some items"
| "sv_as_array _ = None"

section \<open>Names of the API and errors\<close>

definition API_HOST :: rstr where "API_HOST = lit ''api.cloudflare.com''"
definition VERIFY_PATH :: rstr where "VERIFY_PATH = lit ''/client/v4/user/tokens/verify''"
definition ZONES_PATH :: rstr where "ZONES_PATH = lit ''/client/v4/zones''"
definition TOKEN_ENV :: rstr where "TOKEN_ENV = lit ''CLOUDFLARE_API_TOKEN''"

datatype token_source = FileSource path | FlagSource | EnvSource

fun source_show :: "token_source \<Rightarrow> rstr" where
  "source_show (FileSource p) = p"
| "source_show FlagSource = lit ''--cf-token''"
| "source_show EnvSource = TOKEN_ENV"

datatype cf_error =
    BothFlags
  | CfEmpty token_source
  | CfMalformed token_source
  | CfRead path rstr
  | CfRejected rstr
  | CfForbidden rstr
  | NotActive rstr
  | ApiFailure nat rstr
  | NotADomain rstr
  | NotAscii rstr
  | ZoneNotFound rstr "rstr list"
  | ZoneAmbiguous rstr nat
  | ZoneNotActive rstr rstr
  | RecordRefused refusal
  | Undecodable rstr
  | CfClient client_error

definition SCOPE_HINT :: rstr where
  "SCOPE_HINT = lit ''it must be an API token (not the Global API Key) with both Zone '' @ [0x2192]
     @ lit '' DNS '' @ [0x2192] @ lit '' Edit (to write the record) and Zone '' @ [0x2192]
     @ lit '' Zone '' @ [0x2192]
     @ lit '' Read (to find the zone), on the zone that holds this domain''"

text \<open>\<open>[String]::join\<close>.\<close>

fun join_with :: "rstr \<Rightarrow> rstr list \<Rightarrow> rstr" where
  "join_with sep [] = []"
| "join_with sep [x] = x"
| "join_with sep (x # y # xs) = x @ sep @ join_with sep (y # xs)"

fun cf_error_show :: "unicode \<Rightarrow> cf_error \<Rightarrow> rstr" where
  "cf_error_show u BothFlags =
     lit ''--cf-token and --cf-token-file were both given; pass one. The file is the safer of ''
     @ lit ''the two '' @ [0x2014]
     @ lit '' a token in argv is visible to `ps` and lands in shell history''"
| "cf_error_show u (CfEmpty token_source) = lit ''the Cloudflare token from '' @ source_show token_source @ lit '' is empty''"
| "cf_error_show u (CfMalformed token_source) =
     lit ''the Cloudflare token from '' @ source_show token_source @ lit '' has whitespace inside it, so it is probably a partial copy''"
| "cf_error_show u (CfRead p token_source) = lit ''could not read the Cloudflare token from '' @ p @ lit '': '' @ token_source"
| "cf_error_show u (CfRejected detail) =
     lit ''Cloudflare would not accept the token: '' @ detail @ lit ''. Check it was copied whole, and that '' @ SCOPE_HINT"
| "cf_error_show u (CfForbidden detail) =
     lit ''Cloudflare accepted the token but will not let it do this: '' @ detail
     @ lit ''. A token that only *reads* DNS passes every check until this point '' @ [0x2014]
     @ lit '' '' @ SCOPE_HINT"
| "cf_error_show u (NotActive st) =
     (if st = lit ''expired'' then lit ''that Cloudflare token has expired. Create a new one '' @ [0x2014] @ lit '' '' @ SCOPE_HINT
      else if st = lit ''disabled'' then
        lit ''that Cloudflare token is disabled. Re-enable it in the dashboard, or create a new one''
      else lit ''that Cloudflare token is not active (status '' @ debug_str u st @ lit ''); check it in the dashboard'')"
| "cf_error_show u (ApiFailure st message) = lit ''Cloudflare answered '' @ dec_nat st @ lit '': '' @ message"
| "cf_error_show u (NotADomain domain) =
     debug_str u domain
     @ lit '' is not a domain a zone can be found for '' @ [0x2014]
     @ lit '' it needs at least a name and a suffix, like example.com''"
| "cf_error_show u (NotAscii name) =
     debug_str u name
     @ lit '' is an internationalized name, and Cloudflare, TLS, and DNS all want its Punycode ''
     @ lit ''spelling (xn--...). anago will not convert it for you: doing that correctly is more ''
     @ lit ''than Punycode, and getting it subtly wrong would point this record at a name nobody ''
     @ lit ''types. Cloudflare'' @ [39]
     @ lit ''s dashboard shows the xn-- form beside the name '' @ [0x2014]
     @ lit '' use that spelling''"
| "cf_error_show u (ZoneNotFound domain tried) =
     lit ''no Cloudflare zone holds '' @ domain @ lit '' (tried '' @ join_with (lit '', '') tried
     @ lit ''). Either the domain is not on the account this token belongs to, or the token ''
     @ lit ''cannot see the zone it is on '' @ [0x2014]
     @ lit '' one scoped to a single zone lists that zone and no other, which looks exactly like ''
     @ lit ''an empty account from here. Look for the domain in that account'' @ [39]
     @ lit ''s dashboard, and add the zone to the token'' @ [39] @ lit ''s Zone Resources''"
| "cf_error_show u (ZoneAmbiguous name count) =
     dec_nat count @ lit '' zones are named '' @ name
     @ lit '' on the accounts this token can see; anago will not guess which one you meant. Scope ''
     @ lit ''the token to one zone''"
| "cf_error_show u (ZoneNotActive name st) =
     lit ''the zone '' @ name @ lit '' is '' @ debug_str u st
     @ lit '', not active '' @ [0x2014]
     @ lit '' Cloudflare holds its records but is not answering for the name, so a record added ''
     @ lit ''here would change nothing. Point the domain'' @ [39]
     @ lit ''s nameservers at Cloudflare first''"
| "cf_error_show u (RecordRefused refusal) =
     lit ''anago did not change the DNS record for this name: '' @ refusal_show refusal"
| "cf_error_show u (Undecodable detail) = lit ''Cloudflare'' @ [39] @ lit ''s answer could not be read: '' @ detail"
| "cf_error_show u (CfClient e) = client_error_show u e"

definition fallback_notice :: "unicode \<Rightarrow> cf_error \<Rightarrow> rstr" where
  "fallback_notice u e =
     lit ''Cloudflare could not set the DNS record: '' @ cf_error_show u e @ ([10] @ lit ''Nothing else is affected '' @ [0x2014]
     @ lit '' add the record below by hand and carry on.'' @ [10])"

section \<open>The token\<close>

record cf_token =
  ct_value :: rstr
  ct_source :: token_source

definition cf_token_parse :: "rstr \<Rightarrow> token_source \<Rightarrow> cf_error + cf_token" where
  "cf_token_parse v token_source =
    (let trimmed = trim v in
     if trimmed = [] then Inl (CfEmpty token_source)
     else if \<exists>c \<in> set trimmed. is_ws c \<or> is_control c then Inl (CfMalformed token_source)
     else Inr \<lparr>ct_value = trimmed, ct_source = token_source\<rparr>)"

definition token_header :: "cf_token \<Rightarrow> client_error + header_value" where
  "token_header token = bearer (ct_value token)"

definition choose_token :: "rstr option \<Rightarrow> rstr option \<Rightarrow> rstr option \<Rightarrow> cf_error + token_source option" where
  "choose_token file_flag flag env_value =
    (case (file_flag, flag) of
       (Some _, Some _) \<Rightarrow> Inl BothFlags
     | (Some p, None) \<Rightarrow> Inr (Some (FileSource p))
     | (None, Some _) \<Rightarrow> Inr (Some FlagSource)
     | (None, None) \<Rightarrow>
        (case env_value of
           Some v \<Rightarrow> if trim v \<noteq> [] then Inr (Some EnvSource) else Inr None
         | None \<Rightarrow> Inr None))"

record loaded =
  ld_token :: cf_token
  ld_warning :: "rstr option"

fun oct_nat :: "nat \<Rightarrow> rstr" where
  "oct_nat n = (if n < 8 then [48 + n] else oct_nat (n div 8) @ [48 + n mod 8])"

declare oct_nat.simps [simp del]

definition pad_left :: "nat \<Rightarrow> rchar \<Rightarrow> rstr \<Rightarrow> rstr" where
  "pad_left width c s = replicate (width - length s) c @ s"

definition file_permission_warning :: "path \<Rightarrow> u32 option \<Rightarrow> rstr option" where
  "file_permission_warning p mode =
    (case mode of
       None \<Rightarrow> None
     | Some m \<Rightarrow>
        if m AND 63 = 0 then None
        else Some (p @ lit '' is readable by other users (mode ''
          @ pad_left 4 48 (oct_nat (unat (m AND 4095)))
          @ lit '') '' @ [0x2014] @ lit '' that token can edit every record in the zone; `chmod 600 '' @ p @ lit ''`''))"

definition token_from_file :: "rstr \<Rightarrow> path \<Rightarrow> u32 option \<Rightarrow> cf_error + loaded" where
  "token_from_file contents p mode =
    attempt (cf_token_parse contents (FileSource p)) (\<lambda>token.
      Inr \<lparr>ld_token = token, ld_warning = file_permission_warning p mode\<rparr>)"

text \<open>
  \<open>fs::metadata\<close> follows a link. The mode of a directory and of what is behind a link is not kept by
  the file system here: it is the parameter \<open>other_mode\<close>.
\<close>

definition token_file_mode :: "(path \<Rightarrow> u32 option) \<Rightarrow> path \<Rightarrow> u32 option io" where
  "token_file_mode other_mode p =
    io_bind (io_catch (sys_call (\<lambda>_ s.
      case fs_names s p of
        None \<Rightarrow> Inl no_entry
      | Some (FileAt i) \<Rightarrow> Inr (Some (f_mode (fs_files s i)), s)
      | Some _ \<Rightarrow> Inr (other_mode p, s))))
      (\<lambda>r. io_return (case r of Inl _ \<Rightarrow> None | Inr m \<Rightarrow> m))"

definition load_token :: "(path \<Rightarrow> u32 option) \<Rightarrow> token_source \<Rightarrow> rstr option \<Rightarrow> rstr option \<Rightarrow> ('h, cf_error, loaded) run" where
  "load_token other_mode token_source flag env_value =
    (case token_source of
       FileSource p \<Rightarrow>
         run_bind (run_map_err (\<lambda>(_, shown). CfRead p shown) (on_files (fs_read_to_string p))) (\<lambda>contents.
         run_bind (run_map_err (\<lambda>(_, shown). CfRead p shown) (on_files (token_file_mode other_mode p))) (\<lambda>mode.
         run_lift (token_from_file contents p mode)))
     | FlagSource \<Rightarrow>
         run_lift (attempt (cf_token_parse (case flag of None \<Rightarrow> [] | Some v \<Rightarrow> v) token_source) (\<lambda>token.
           Inr \<lparr>ld_token = token, ld_warning = None\<rparr>))
     | EnvSource \<Rightarrow>
         run_lift (attempt (cf_token_parse (case env_value of None \<Rightarrow> [] | Some v \<Rightarrow> v) token_source) (\<lambda>token.
           Inr \<lparr>ld_token = token, ld_warning = None\<rparr>)))"

section \<open>What an answer means\<close>

definition first_api_message :: "serde \<Rightarrow> rstr \<Rightarrow> rstr" where
  "first_api_message j body =
    (case Option.bind (case sj_read j body of Inl _ \<Rightarrow> None | Inr v \<Rightarrow> Some v) (\<lambda>v.
       Option.bind (sv_get v (lit ''errors'')) (\<lambda>errors.
       Option.bind (sv_as_array errors) (\<lambda>items.
       Option.bind (case items of [] \<Rightarrow> None | e # _ \<Rightarrow> Some e) (\<lambda>e.
       Option.bind (sv_get e (lit ''message'')) (\<lambda>m.
       Option.bind (sv_as_str m) (\<lambda>message.
         case Option.bind (sv_get e (lit ''code'')) sv_as_i64 of
           Some code \<Rightarrow> Some (message @ lit '' (code '' @ show_int code @ lit '')'')
         | None \<Rightarrow> Some message)))))) of
       Some message \<Rightarrow> message
     | None \<Rightarrow> lit ''Cloudflare gave no reason'')"

definition parse_result :: "serde \<Rightarrow> nat \<Rightarrow> rstr \<Rightarrow> cf_error + svalue" where
  "parse_result j st body =
    (if st = 401 then Inl (CfRejected (first_api_message j body))
     else if st = 403 then Inl (CfForbidden (first_api_message j body))
     else attempt (map_err Undecodable (sj_read j body)) (\<lambda>v.
       if Option.bind (sv_get v (lit ''success'')) sv_as_bool \<noteq> Some True then
         Inl (ApiFailure st (first_api_message j body))
       else ok_or (ApiFailure st (lit ''the response has no result'')) (sv_get v (lit ''result''))))"

record verified =
  vf_id :: rstr
  vf_status :: rstr

definition str_or_empty :: "svalue \<Rightarrow> rstr \<Rightarrow> rstr" where
  "str_or_empty v key = (case Option.bind (sv_get v key) sv_as_str of None \<Rightarrow> [] | Some s \<Rightarrow> s)"

definition parse_verify :: "serde \<Rightarrow> nat \<Rightarrow> rstr \<Rightarrow> cf_error + verified" where
  "parse_verify j st body =
    attempt (parse_result j st body) (\<lambda>result.
      let token_status = str_or_empty result (lit ''status'') in
      if token_status \<noteq> lit ''active'' then Inl (NotActive token_status)
      else Inr \<lparr>vf_id = str_or_empty result (lit ''id''), vf_status = token_status\<rparr>)"

text \<open>A request to the API, with the conversion of its errors.\<close>

definition api_request :: "http_method \<Rightarrow> rstr \<Rightarrow> rstr option \<Rightarrow> header_value \<Rightarrow> client_request" where
  "api_request method target body authorization =
    \<lparr>rq_method = method, rq_host = API_HOST, rq_port = 443, rq_path = target,
     rq_body = map_option json_body body, rq_authorization = Some authorization\<rparr>"

definition api_send :: "client_request \<Rightarrow> ('h, cf_error, client_response) run" where
  "api_send request = run_map_err CfClient (ask request)"

definition cf_get :: "header_value \<Rightarrow> rstr \<Rightarrow> ('h, cf_error, client_response) run" where
  "cf_get authorization target = api_send (api_request Get target None authorization)"

definition authorized :: "cf_token \<Rightarrow> ('h, cf_error, header_value) run" where
  "authorized token = run_lift (map_err CfClient (token_header token))"

definition cf_verify :: "serde \<Rightarrow> cf_token \<Rightarrow> ('h, cf_error, verified) run" where
  "cf_verify j token =
    run_bind (authorized token) (\<lambda>authorization.
    run_bind (cf_get authorization VERIFY_PATH) (\<lambda>response.
    run_lift (parse_verify j (cr_status response) (cr_body response))))"

section \<open>Names\<close>

definition ascii_only :: "rstr \<Rightarrow> bool" where
  "ascii_only s \<longleftrightarrow> (\<forall>c \<in> set s. c < 0x80)"

definition dns_name :: "rstr \<Rightarrow> cf_error + rstr" where
  "dns_name name =
    (let name = trim_end_matches 46 (trim name) in
     if name = [] then Inl (NotADomain name)
     else if \<not> ascii_only name then Inl (NotAscii name)
     else Inr (map ascii_lower name))"

definition cf_fold_name :: "rstr \<Rightarrow> rstr" where
  "cf_fold_name name = map ascii_lower (trim_end_matches 46 (trim name))"

section \<open>The zone\<close>

record zone =
  zn_id :: rstr
  zn_name :: rstr
  zn_status :: rstr
  zn_servers :: "rstr list"

definition zone_candidates :: "rstr \<Rightarrow> cf_error + rstr list" where
  "zone_candidates domain =
    attempt (dns_name domain) (\<lambda>domain.
      let labels = split_on 46 domain in
      if length labels < 2 \<or> [] \<in> set labels then Inl (NotADomain domain)
      else Inr (map (\<lambda>start. join_with [46] (drop start labels)) [0..<length labels - 1]))"

definition zones_query :: "rstr \<Rightarrow> rstr" where
  "zones_query candidate = ZONES_PATH @ lit ''?name='' @ encode_segment candidate"

definition string_at :: "svalue \<Rightarrow> rstr \<Rightarrow> rstr \<Rightarrow> nat \<Rightarrow> cf_error + rstr" where
  "string_at v key what st =
    (case Option.bind (sv_get v key) sv_as_str of
       Some s \<Rightarrow>
         if s \<noteq> [] then Inr s
         else Inl (ApiFailure st (lit ''a '' @ what @ lit '' in the answer has an empty '' @ key))
     | None \<Rightarrow> Inl (ApiFailure st (lit ''a '' @ what @ lit '' in the answer has no usable '' @ key)))"

definition name_servers_at :: "svalue \<Rightarrow> rstr list" where
  "name_servers_at zn =
    (case Option.bind (sv_get zn (lit ''name_servers'')) sv_as_array of
       None \<Rightarrow> [] | Some servers \<Rightarrow> List.map_filter sv_as_str servers)"

text \<open>Collecting results stops at the first error.\<close>

fun collect :: "('a \<Rightarrow> 'e + 'b) \<Rightarrow> 'a list \<Rightarrow> 'e + 'b list" where
  "collect f [] = Inr []"
| "collect f (x # xs) = attempt (f x) (\<lambda>y. attempt (collect f xs) (\<lambda>ys. Inr (y # ys)))"

definition zone_at :: "nat \<Rightarrow> svalue \<Rightarrow> cf_error + zone" where
  "zone_at st v =
    attempt (string_at v (lit ''id'') (lit ''zone'') st) (\<lambda>i.
    attempt (string_at v (lit ''name'') (lit ''zone'') st) (\<lambda>name.
    attempt (string_at v (lit ''status'') (lit ''zone'') st) (\<lambda>st.
    Inr \<lparr>zn_id = i, zn_name = name, zn_status = st, zn_servers = name_servers_at v\<rparr>)))"

definition parse_zones :: "serde \<Rightarrow> nat \<Rightarrow> rstr \<Rightarrow> cf_error + zone list" where
  "parse_zones j st body =
    attempt (parse_result j st body) (\<lambda>result.
    attempt (ok_or (ApiFailure st (lit ''the zone list is not a list'')) (sv_as_array result)) (\<lambda>items.
    collect (zone_at st) items))"

definition pick :: "zone list \<Rightarrow> rstr \<Rightarrow> cf_error + zone option" where
  "pick zones candidate =
    (let matching = filter (\<lambda>z. eq_ignore_case (zn_name z) candidate) zones in
     if 1 < length matching then Inl (ZoneAmbiguous candidate (length matching))
     else (case matching of
             [] \<Rightarrow> Inr None
           | z # _ \<Rightarrow>
              if zn_status z \<noteq> lit ''active'' then Inl (ZoneNotActive (zn_name z) (zn_status z))
              else Inr (Some z)))"

text \<open>The loop of \<open>find_zone\<close> over the candidates that are left.\<close>

fun walk_candidates :: "serde \<Rightarrow> header_value \<Rightarrow> rstr list \<Rightarrow> ('h, cf_error, zone option) run" where
  "walk_candidates j authorization [] = run_return None"
| "walk_candidates j authorization (candidate # rest) =
    run_bind (cf_get authorization (zones_query candidate)) (\<lambda>response.
    run_bind (run_lift (attempt (parse_zones j (cr_status response) (cr_body response))
        (\<lambda>zones. pick zones candidate))) (\<lambda>found.
    case found of
      Some z \<Rightarrow> run_return (Some z)
    | None \<Rightarrow> walk_candidates j authorization rest))"

definition find_zone :: "serde \<Rightarrow> cf_token \<Rightarrow> rstr \<Rightarrow> ('h, cf_error, zone) run" where
  "find_zone j token domain =
    run_bind (run_lift (zone_candidates domain)) (\<lambda>candidates.
    run_bind (authorized token) (\<lambda>authorization.
    run_bind (walk_candidates j authorization candidates) (\<lambda>found.
    case found of
      Some z \<Rightarrow> run_return z
    | None \<Rightarrow> run_throw (ZoneNotFound domain candidates))))"

section \<open>The A record\<close>

definition TTL_AUTOMATIC :: int where "TTL_AUTOMATIC = 1"
definition PER_PAGE :: nat where "PER_PAGE = 100"

definition records_path :: "rstr \<Rightarrow> rstr" where
  "records_path zone_id = ZONES_PATH @ lit ''/'' @ encode_segment zone_id @ lit ''/dns_records''"

definition record_path :: "rstr \<Rightarrow> rstr \<Rightarrow> rstr" where
  "record_path zone_id record_id = records_path zone_id @ lit ''/'' @ encode_segment record_id"

definition records_query :: "rstr \<Rightarrow> rstr \<Rightarrow> rstr" where
  "records_query zone_id name =
     records_path zone_id @ lit ''?name.exact='' @ encode_segment name @ lit ''&per_page='' @ dec_nat PER_PAGE"

definition comment_at :: "svalue \<Rightarrow> rstr option" where
  "comment_at v =
    (case map_option trim (Option.bind (sv_get v (lit ''comment'')) sv_as_str) of
       Some c \<Rightarrow> if c \<noteq> [] then Some c else None
     | None \<Rightarrow> None)"

definition proxiable :: "rstr \<Rightarrow> bool" where
  "proxiable kind \<longleftrightarrow> (\<exists>p \<in> set [lit ''A'', lit ''AAAA'', lit ''CNAME'']. eq_ignore_case kind p)"

definition proxied_at :: "svalue \<Rightarrow> rstr \<Rightarrow> nat \<Rightarrow> cf_error + bool" where
  "proxied_at v kind st =
    (case sv_get v (lit ''proxied'') of
       Some (SBool on) \<Rightarrow> Inr on
     | Some _ \<Rightarrow> Inl (ApiFailure st
         (lit ''a '' @ kind @ lit '' record in the answer has a proxied flag that is not true or false''))
     | None \<Rightarrow>
        if proxiable kind then Inl (ApiFailure st
          (lit ''a '' @ kind @ lit '' record in the answer has no proxied flag, so anago cannot tell whether it is behind ''
     @ lit ''the proxy''))
        else Inr False)"

text \<open>The fields of a record, in the order the code reads them.\<close>

definition record_at :: "nat \<Rightarrow> svalue \<Rightarrow> cf_error + dns_record" where
  "record_at st v =
    attempt (string_at v (lit ''type'') (lit ''record'') st) (\<lambda>kind.
    attempt (string_at v (lit ''id'') (lit ''record'') st) (\<lambda>i.
    attempt (string_at v (lit ''content'') (lit ''record'') st) (\<lambda>content.
    attempt (proxied_at v kind st) (\<lambda>proxied.
    Inr \<lparr>dr_id = i, dr_kind = kind, dr_content = content, dr_proxied = proxied, dr_comment = comment_at v\<rparr>))))"

fun read_records :: "nat \<Rightarrow> rstr \<Rightarrow> svalue list \<Rightarrow> cf_error + dns_record list" where
  "read_records st wanted [] = Inr []"
| "read_records st wanted (item # items) =
    attempt (string_at item (lit ''name'') (lit ''record'') st) (\<lambda>name.
      if cf_fold_name name \<noteq> wanted then read_records st wanted items
      else attempt (record_at st item) (\<lambda>r.
           attempt (read_records st wanted items) (\<lambda>rs. Inr (r # rs))))"

definition parse_records :: "serde \<Rightarrow> nat \<Rightarrow> rstr \<Rightarrow> rstr \<Rightarrow> cf_error + dns_record list" where
  "parse_records j st body name =
    attempt (parse_result j st body) (\<lambda>result.
    attempt (ok_or (ApiFailure st (lit ''the record list is not a list'')) (sv_as_array result)) (\<lambda>items.
      if PER_PAGE \<le> length items then Inl (ApiFailure st
        (name @ lit '' has at least '' @ dec_nat PER_PAGE
         @ lit '' records, more than one page '' @ [0x2014]
     @ lit '' anago will not judge what to do here from a partial list''))
      else read_records st (cf_fold_name name) items))"

definition parse_record :: "serde \<Rightarrow> nat \<Rightarrow> rstr \<Rightarrow> cf_error + dns_record" where
  "parse_record j st body = attempt (parse_result j st body) (record_at st)"

definition create_body :: "serde \<Rightarrow> rstr \<Rightarrow> ipv4 \<Rightarrow> rstr" where
  "create_body j name desired = sj_write j (SObject
    [(lit ''type'', SString (lit ''A'')), (lit ''name'', SString name), (lit ''content'', SString (ipv4_show desired)),
     (lit ''ttl'', SNumber (Some TTL_AUTOMATIC)), (lit ''proxied'', SBool False)])"

definition update_body :: "serde \<Rightarrow> ipv4 \<Rightarrow> rstr" where
  "update_body j desired = sj_write j (SObject [(lit ''content'', SString (ipv4_show desired))])"

datatype cf_applied =
    Created rstr
  | Updated rstr bool
  | LeftAlone rstr

fun applied_record_id :: "cf_applied \<Rightarrow> rstr" where
  "applied_record_id (Created i) = i"
| "applied_record_id (Updated i _) = i"
| "applied_record_id (LeftAlone i) = i"

fun applied_show :: "cf_applied \<Rightarrow> rstr" where
  "applied_show (Created i) = lit ''created the A record, DNS only '' @ [0x2014] @ lit '' no orange cloud ('' @ i @ lit '')''"
| "applied_show (Updated i adopted) =
     (if adopted then
        lit ''took over the A record that was already at this name and pointed it at this server ('' @ i
        @ lit '') '' @ [0x2014] @ lit '' anago did not create that record''
      else lit ''pointed the A record at this server ('' @ i @ lit '')'')"
| "applied_show (LeftAlone i) = lit ''the A record already points at this server; left alone ('' @ i @ lit '')''"

record written =
  wr_applied :: cf_applied
  wr_warning :: "rstr option"

definition record_warning :: "unicode \<Rightarrow> dns_record \<Rightarrow> ipv4 \<Rightarrow> rstr option" where
  "record_warning u r desired =
    (if dr_proxied r then Some
       (lit ''warning: Cloudflare says that record is proxied (orange cloud) although anago asked ''
     @ lit ''for DNS only. WireGuard'' @ [39]
     @ lit ''s UDP port is not forwarded through the proxy, so HTTPS will work and the tunnel ''
     @ lit ''will not. Set the record to DNS only in the dashboard (''
        @ dr_id r @ lit '').'')
     else if \<not> points_at r desired then Some
       (lit ''warning: the record now reads '' @ debug_str u (dr_content r) @ lit '', not '' @ ipv4_show desired
        @ lit ''. Check it in the dashboard before relying on the name ('' @ dr_id r @ lit '').'')
     else None)"

definition write_record ::
  "serde \<Rightarrow> header_value \<Rightarrow> http_method \<Rightarrow> rstr \<Rightarrow> rstr \<Rightarrow> ('h, cf_error, dns_record) run" where
  "write_record j authorization method target body =
    run_bind (api_send (api_request method target (Some body) authorization)) (\<lambda>response.
    run_lift (parse_record j (cr_status response) (cr_body response)))"

text \<open>The listing that every use of a name starts with.\<close>

definition list_records ::
  "serde \<Rightarrow> header_value \<Rightarrow> rstr \<Rightarrow> rstr \<Rightarrow> ('h, cf_error, dns_record list) run" where
  "list_records j authorization zone_id name =
    run_bind (cf_get authorization (records_query zone_id name)) (\<lambda>listed.
    run_lift (parse_records j (cr_status listed) (cr_body listed) name))"

definition apply_record ::
  "serde \<Rightarrow> cf_token \<Rightarrow> rstr \<Rightarrow> rstr \<Rightarrow> ipv4 \<Rightarrow> rstr option \<Rightarrow> ('h, cf_error, written) run" where
  "apply_record j token zone_id name desired cached_id =
    run_bind (run_lift (dns_name name)) (\<lambda>name.
    run_bind (authorized token) (\<lambda>authorization.
    run_bind (list_records j authorization zone_id name) (\<lambda>records.
    run_bind (run_env (\<lambda>env. se_unicode (de_sys env))) (\<lambda>u.
    case dns_decide records desired cached_id of
      Refuse refusal \<Rightarrow> run_throw (RecordRefused refusal)
    | Unchanged record_id \<Rightarrow> run_return \<lparr>wr_applied = LeftAlone record_id, wr_warning = None\<rparr>
    | Create \<Rightarrow>
        run_bind (write_record j authorization Post (records_path zone_id) (create_body j name desired)) (\<lambda>r.
        run_return \<lparr>wr_applied = Created (dr_id r), wr_warning = record_warning u r desired\<rparr>)
    | Update record_id adopted \<Rightarrow>
        run_bind (write_record j authorization Patch (record_path zone_id record_id) (update_body j desired)) (\<lambda>r.
        run_return \<lparr>wr_applied = Updated (dr_id r) adopted, wr_warning = record_warning u r desired\<rparr>)))))"

section \<open>The challenge record\<close>

definition CHALLENGE_TTL :: int where "CHALLENGE_TTL = 60"
definition CHALLENGE_MARKER :: rstr where "CHALLENGE_MARKER = lit ''anago DNS-01 challenge''"
definition CHALLENGE_LIFETIME_SECS :: int where "CHALLENGE_LIFETIME_SECS = 10 * 60"

definition challenge_name :: "rstr \<Rightarrow> cf_error + rstr" where
  "challenge_name domain =
    attempt (dns_name domain) (\<lambda>d. dns_name (dns01_record_name d))"

definition challenge_comment :: "nat \<Rightarrow> int \<Rightarrow> rstr" where
  "challenge_comment pid now =
     CHALLENGE_MARKER @ lit '' at='' @ show_int now @ lit '' pid='' @ dec_nat pid"

text \<open>\<open>str::split_whitespace\<close>: the parts between white space that are not empty.\<close>

fun pieces :: "rstr \<Rightarrow> rstr \<Rightarrow> rstr list" where
  "pieces part [] = (if part = [] then [] else [rev part])"
| "pieces part (c # s) =
    (if is_ws c then (if part = [] then pieces [] s else rev part # pieces [] s)
     else pieces (c # part) s)"

definition split_whitespace :: "rstr \<Rightarrow> rstr list" where
  "split_whitespace s = pieces [] s"

definition written_at :: "rstr \<Rightarrow> int option" where
  "written_at comment =
    (if strip_prefix CHALLENGE_MARKER comment = None then None
     else Option.bind (find_map (strip_prefix (lit ''at='')) (split_whitespace comment)) parse_i64)"

definition txt_body :: "serde \<Rightarrow> nat \<Rightarrow> rstr \<Rightarrow> rstr \<Rightarrow> int \<Rightarrow> rstr" where
  "txt_body j pid name v now = sj_write j (SObject
    [(lit ''type'', SString (lit ''TXT'')), (lit ''name'', SString name), (lit ''content'', SString v),
     (lit ''ttl'', SNumber (Some CHALLENGE_TTL)), (lit ''comment'', SString (challenge_comment pid now))])"

definition past_lifetime :: "dns_record \<Rightarrow> int \<Rightarrow> bool" where
  "past_lifetime r now =
    (case Option.bind (dr_comment r) written_at of
       None \<Rightarrow> False | Some since \<Rightarrow> CHALLENGE_LIFETIME_SECS < sat_sub now since)"

definition is_txt :: "dns_record \<Rightarrow> bool" where
  "is_txt r = eq_ignore_case (dr_kind r) (lit ''TXT'')"

definition stale_challenges :: "dns_record list \<Rightarrow> int \<Rightarrow> dns_record list" where
  "stale_challenges records now = filter (\<lambda>r. is_txt r \<and> past_lifetime r now) records"

definition parse_delete :: "serde \<Rightarrow> nat \<Rightarrow> rstr \<Rightarrow> cf_error + unit" where
  "parse_delete j st body =
    (if st = 404 then Inr () else attempt (parse_result j st body) (\<lambda>_. Inr ()))"

definition delete_record :: "serde \<Rightarrow> header_value \<Rightarrow> rstr \<Rightarrow> rstr \<Rightarrow> ('h, cf_error, unit) run" where
  "delete_record j authorization zone_id record_id =
    run_bind (api_send (api_request Delete (record_path zone_id record_id) None authorization)) (\<lambda>response.
    run_lift (parse_delete j (cr_status response) (cr_body response)))"

text \<open>The guard: it holds the id of the record while the record is there.\<close>

record challenge_guard =
  ch_token :: cf_token
  ch_zone_id :: rstr
  ch_name :: rstr
  ch_record_id :: "rstr option"

fun sweep :: "serde \<Rightarrow> header_value \<Rightarrow> rstr \<Rightarrow> dns_record list \<Rightarrow> ('h, cf_error, unit) run" where
  "sweep j authorization zone_id [] = run_return ()"
| "sweep j authorization zone_id (stale # rest) =
    run_then (delete_record j authorization zone_id (dr_id stale)) (sweep j authorization zone_id rest)"

definition challenge_publish ::
  "serde \<Rightarrow> cf_token \<Rightarrow> rstr \<Rightarrow> rstr \<Rightarrow> rstr \<Rightarrow> int \<Rightarrow> ('h, cf_error, challenge_guard) run" where
  "challenge_publish j token zone_id domain v now =
    run_bind (run_lift (challenge_name domain)) (\<lambda>name.
    run_bind (authorized token) (\<lambda>authorization.
    run_bind (list_records j authorization zone_id name) (\<lambda>records.
    run_then (sweep j authorization zone_id (stale_challenges records now)) (
    run_bind (run_env (\<lambda>env. se_pid (de_sys env))) (\<lambda>pid.
    run_bind (write_record j authorization Post (records_path zone_id) (txt_body j pid name v now)) (\<lambda>created.
    run_return \<lparr>ch_token = token, ch_zone_id = zone_id, ch_name = name, ch_record_id = Some (dr_id created)\<rparr>))))))"

definition left_behind :: "unicode \<Rightarrow> rstr \<Rightarrow> rstr \<Rightarrow> cf_error \<Rightarrow> rstr" where
  "left_behind u name record_id e =
     lit ''anago: warning: the DNS-01 challenge record could not be removed: '' @ cf_error_show u e @ ([10] @ lit ''       delete the TXT record '') @ record_id @ lit '' at '' @ name @ (lit '' in the Cloudflare dashboard; nothing needs it after validation'' @ [10])"

text \<open>A delete under the token of the guard: what \<open>remove\<close> and \<open>drop\<close> try.\<close>

definition take_out :: "serde \<Rightarrow> challenge_guard \<Rightarrow> rstr \<Rightarrow> ('h, cf_error, unit) run" where
  "take_out j ch record_id =
    run_bind (authorized (ch_token ch)) (\<lambda>authorization.
    delete_record j authorization (ch_zone_id ch) record_id)"

definition settle :: "cf_error + unit \<Rightarrow> challenge_guard \<Rightarrow> challenge_guard" where
  "settle removed ch = (case removed of Inr _ \<Rightarrow> ch\<lparr>ch_record_id := None\<rparr> | Inl _ \<Rightarrow> ch)"

definition challenge_drop :: "serde \<Rightarrow> challenge_guard \<Rightarrow> ('h, 'e, unit) run" where
  "challenge_drop j ch =
    (case ch_record_id ch of
       None \<Rightarrow> run_return ()
     | Some record_id \<Rightarrow>
         run_bind (run_catch (take_out j ch record_id)) (\<lambda>removed.
         case removed of
           Inr _ \<Rightarrow> run_return ()
         | Inl e \<Rightarrow>
             run_bind (run_env (\<lambda>env. se_unicode (de_sys env))) (\<lambda>u.
             put_err (left_behind u (ch_name ch) record_id e))))"

text \<open>\<open>remove\<close> takes the guard, so what is left of it is dropped at the end of the call.\<close>

definition challenge_remove :: "serde \<Rightarrow> challenge_guard \<Rightarrow> ('h, cf_error, unit) run" where
  "challenge_remove j ch =
    (case ch_record_id ch of
       None \<Rightarrow> run_return ()
     | Some record_id \<Rightarrow>
         run_bind (run_catch (take_out j ch record_id)) (\<lambda>removed.
         run_then (challenge_drop j (settle removed ch)) (run_lift removed)))"

end
