(* ===== verification/AcmePlan.thy ===== *)
theory AcmePlan
  imports Cloudflare
begin

text \<open>
  The decisions of \<open>crates/anago/src/acme.rs\<close> before anything is ordered: where the certificate comes
  from, whether the account on disk is used, whether the credentials file is the one the state names, and
  what a port that cannot be opened means. The two directories of the CA are constants of the package
  \<open>instant_acme\<close>, the parameter \<open>ca_urls\<close>.
\<close>

section \<open>The plan\<close>

record ca_urls =
  ca_production :: rstr
  ca_staging :: rstr

record plan_request =
  pr_tls_cert :: "rstr option"
  pr_tls_key :: "rstr option"
  pr_acme_email :: "rstr option"
  pr_staging :: bool
  pr_challenge :: "challenge option"
  pr_token :: "token_source option"

datatype ca_plan =
    ManualPlan rstr rstr
  | AcmePlan (plan_directory: rstr) (plan_challenge: challenge) (plan_contact: rstr) (plan_staging: bool)

datatype plan_error =
    HalfAPair rstr rstr
  | AcmeFlagsWithCertificate "rstr list"
  | NoContact
  | Dns01WithoutToken

fun plan_needs_token :: "ca_plan \<Rightarrow> bool" where
  "plan_needs_token (AcmePlan d c e s) \<longleftrightarrow> c = Dns01"
| "plan_needs_token (ManualPlan c k) \<longleftrightarrow> False"

fun plan_is_manual :: "ca_plan \<Rightarrow> bool" where
  "plan_is_manual (ManualPlan c k) \<longleftrightarrow> True"
| "plan_is_manual (AcmePlan d c e s) \<longleftrightarrow> False"

definition ca_directory :: "ca_urls \<Rightarrow> bool \<Rightarrow> rstr" where
  "ca_directory ca staging = (if staging then ca_staging ca else ca_production ca)"

definition acme_flags :: "plan_request \<Rightarrow> rstr list" where
  "acme_flags r =
    (if pr_acme_email r \<noteq> None then [lit ''--acme-email''] else [])
    @ (if pr_staging r then [lit ''--acme-staging''] else [])
    @ (if pr_challenge r \<noteq> None then [lit ''--acme-challenge''] else [])"

definition acme_plan :: "ca_urls \<Rightarrow> plan_request \<Rightarrow> plan_error + ca_plan" where
  "acme_plan ca r =
    (case (pr_tls_cert r, pr_tls_key r) of
       (Some cert, Some key) \<Rightarrow>
         if acme_flags r \<noteq> [] then Inl (AcmeFlagsWithCertificate (acme_flags r))
         else Inr (ManualPlan cert key)
     | (Some _, None) \<Rightarrow> Inl (HalfAPair (lit ''--tls-cert'') (lit ''--tls-key''))
     | (None, Some _) \<Rightarrow> Inl (HalfAPair (lit ''--tls-key'') (lit ''--tls-cert''))
     | (None, None) \<Rightarrow>
        (case map_option trim (pr_acme_email r) of
           None \<Rightarrow> Inl NoContact
         | Some contact \<Rightarrow>
            if contact = [] then Inl NoContact
            else attempt
              (case pr_challenge r of
                 Some asked \<Rightarrow>
                   if asked = Dns01 \<and> pr_token r = None then Inl Dns01WithoutToken else Inr asked
               | None \<Rightarrow> Inr (if pr_token r \<noteq> None then Dns01 else Http01)) (\<lambda>challenge.
              Inr (AcmePlan (ca_directory ca (pr_staging r)) challenge contact (pr_staging r)))))"

fun plan_error_show :: "plan_error \<Rightarrow> rstr" where
  "plan_error_show (HalfAPair one missing) =
     one @ lit '' was given without '' @ missing
     @ lit ''. Both are needed to use a certificate you already have '' @ [0x2014]
     @ lit '' or leave both out and anago will get one for you''"
| "plan_error_show (AcmeFlagsWithCertificate flags) =
     join_with (lit '' and '') flags
     @ lit '' cannot be used with --tls-cert/--tls-key: that pair means anago serves the ''
     @ lit ''certificate you gave it and never orders one, so nothing here would renew. Leave the ''
     @ lit ''pair out to have anago issue and renew a certificate, or drop these flags to keep ''
     @ lit ''serving your own''"
| "plan_error_show NoContact =
     lit ''--acme-email is needed to order a certificate. It is the address Let'' @ [39]
     @ lit ''s Encrypt writes to when a certificate is about to expire, which is the one warning ''
     @ lit ''that arrives if automatic renewal quietly stops working''"
| "plan_error_show Dns01WithoutToken =
     lit ''--acme-challenge dns-01 needs a Cloudflare token '' @ [0x2014]
     @ lit '' the challenge is a TXT record anago has to write. Pass --cf-token-file <path>, or ''
     @ lit ''leave the challenge out and anago will use http-01, which needs port 80 open instead''"

section \<open>The account\<close>

definition contact_uri :: "rstr \<Rightarrow> rstr" where
  "contact_uri email = lit ''mailto:'' @ trim email"

datatype fresh = FirstTime | DifferentCa rstr | KeyGone rstr

datatype account_plan =
    Reuse (ap_credentials: path) (ap_account_url: rstr) (ap_update_contact: bool)
  | RegisterAccount (ap_credentials: path) (ap_why: fresh)

definition account_registration ::
  "acme option \<Rightarrow> rstr \<Rightarrow> rstr \<Rightarrow> path \<Rightarrow> bool \<Rightarrow> account_plan" where
  "account_registration existing directory contact default_path key_exists =
    (case existing of
       None \<Rightarrow> RegisterAccount default_path FirstTime
     | Some acme \<Rightarrow>
        if ac_directory acme \<noteq> directory then
          RegisterAccount (ac_account_key_path acme) (DifferentCa (ac_directory acme))
        else if \<not> key_exists then
          RegisterAccount (ac_account_key_path acme) (KeyGone (ac_account_key_path acme))
        else Reuse (ac_account_key_path acme) (ac_account_url acme) (ac_contact acme \<noteq> Some contact))"

text \<open>The credentials file, and what is waiting to be written into it.\<close>

record pending =
  pn_path :: path
  pn_fresh :: "rstr option"

definition pending_uncommitted :: "pending \<Rightarrow> bool" where
  "pending_uncommitted p \<longleftrightarrow> pn_fresh p \<noteq> None"

datatype wrong_account =
    WrongUnreadable rstr
  | WrongCa "rstr option"
  | WrongId "rstr option" rstr

definition belongs_to :: "serde \<Rightarrow> rstr \<Rightarrow> rstr \<Rightarrow> rstr \<Rightarrow> wrong_account + unit" where
  "belongs_to j body directory account_url =
    attempt (map_err WrongUnreadable (sj_read j body)) (\<lambda>v.
      let ca = Option.bind (sv_get v (lit ''directory'')) sv_as_str;
          found = Option.bind (sv_get v (lit ''id'')) sv_as_str
      in if ca \<noteq> Some directory then Inl (WrongCa ca)
         else if account_url \<noteq> [] \<and> found \<noteq> Some account_url then Inl (WrongId found account_url)
         else Inr ())"

section \<open>The listener of a challenge\<close>

definition CHALLENGE_PORT :: nat where "CHALLENGE_PORT = 80"

datatype listen_problem = PermissionProblem | InUse | OtherProblem

section \<open>Errors\<close>

text \<open>A length of time is a count of nanoseconds, as for the HTTPS client.\<close>

datatype failure_kind = OrdinaryFailure | RateLimited

text \<open>\<open>str::contains\<close>.\<close>

fun contains_str :: "rstr \<Rightarrow> rstr \<Rightarrow> bool" where
  "contains_str needle [] \<longleftrightarrow> needle = []"
| "contains_str needle (c # s) \<longleftrightarrow> take (length needle) (c # s) = needle \<or> contains_str needle s"

definition classify :: "rstr \<Rightarrow> failure_kind" where
  "classify detail =
    (let detail = map ascii_lower detail in
     if contains_str (lit ''ratelimited'') detail \<or> contains_str (lit ''rate limit'') detail \<or> contains_str (lit ''too many'') detail
     then RateLimited else OrdinaryFailure)"

datatype acme_fail =
    AfClient rstr
  | AfRegister rstr rstr
  | AfSignIn rstr rstr
  | AfContact rstr rstr
  | AfRead path rstr
  | AfWrite path rstr
  | AfUnreadable path rstr
  | AfWrongAccount path wrong_account rstr
  | AfListen nat listen_problem rstr
  | AfOrder rstr rstr "nat option"
  | AfNoChallenge rstr challenge
  | AfBadToken rstr
  | AfNotOurs path
  | AfNoAddressFamily nat
  | AfDns01 rstr rstr
  | AfPropagation rstr
  | AfValidation rstr challenge "rstr list" rstr "nat option"
  | AfFinalize rstr rstr "nat option"

fun fail_retry_after :: "acme_fail \<Rightarrow> nat option" where
  "fail_retry_after (AfOrder _ _ r) = r"
| "fail_retry_after (AfFinalize _ _ r) = r"
| "fail_retry_after (AfValidation _ _ _ _ r) = r"
| "fail_retry_after _ = None"

fun ca_detail :: "acme_fail \<Rightarrow> rstr option" where
  "ca_detail (AfOrder _ d _) = Some d"
| "ca_detail (AfFinalize _ d _) = Some d"
| "ca_detail (AfValidation _ _ _ d _) = Some d"
| "ca_detail (AfRegister _ d) = Some d"
| "ca_detail (AfSignIn _ d) = Some d"
| "ca_detail (AfDns01 _ d) = Some d"
| "ca_detail (AfPropagation d) = Some d"
| "ca_detail _ = None"

definition detail_of :: "acme_fail \<Rightarrow> rstr" where
  "detail_of e = (case ca_detail e of None \<Rightarrow> [] | Some d \<Rightarrow> d)"

definition no_automatic_switch :: rstr where
  "no_automatic_switch =
     lit ''anago did not switch to another challenge on its own: http-01 needs port '' @ dec_nat CHALLENGE_PORT
     @ lit '' open to the internet, and that is not a change to make on somebody'' @ [39]
     @ lit ''s behalf. Fix the token or the zone and run this again, or ask for it with ''
     @ lit ''--acme-challenge http-01''"

definition plural :: "nat \<Rightarrow> rstr" where
  "plural count = (if count = 1 then [] else lit ''s'')"

definition about_wait :: "nat \<Rightarrow> rstr" where
  "about_wait delay =
    (let secs = delay div SECOND in
     if 3600 \<le> secs then
       (let count = (secs + 3599) div 3600 in dec_nat count @ lit '' hour'' @ plural count)
     else (let count = max ((secs + 59) div 60) 1 in dec_nat count @ lit '' minute'' @ plural count))"

definition rate_limit_note :: "rstr \<Rightarrow> nat option \<Rightarrow> rstr" where
  "rate_limit_note detail retry_after =
    (if classify detail = OrdinaryFailure then []
     else ([10]
     @ lit ''That is a rate limit rather than a fault in what you typed. ACME limits refill over ''
     @ lit ''hours, not minutes, so running this again now spends an attempt and changes nothing.'')
       @ (case retry_after of
            None \<Rightarrow> []
          | Some wait \<Rightarrow> lit '' It asked for about '' @ about_wait wait @ lit '' before the next attempt.''))"

definition or_else_name :: "rstr \<Rightarrow> rstr option \<Rightarrow> rstr" where
  "or_else_name other found = (case found of None \<Rightarrow> other | Some f \<Rightarrow> f)"

fun acme_fail_show :: "acme_fail \<Rightarrow> rstr" where
  "acme_fail_show (AfClient detail) = lit ''the ACME client could not be started: '' @ detail"
| "acme_fail_show (AfRegister directory detail) =
     lit ''could not register an account with the CA at '' @ directory @ lit '': '' @ detail
     @ lit ''. Check that this machine can reach it, and that the address given to --acme-email ''
     @ lit ''is one the CA will accept.''
     @ rate_limit_note detail None"
| "acme_fail_show (AfSignIn directory detail) =
     lit ''could not use the existing ACME account at '' @ directory @ lit '': '' @ detail
     @ lit ''. If the account was removed at the CA, delete the credentials file and anago will ''
     @ lit ''register a new one''"
| "acme_fail_show (AfContact contact detail) =
     lit ''the CA would not take '' @ contact @ lit '' as the contact address: '' @ detail
     @ lit ''. The certificate is unaffected, but expiry warnings would go to the old address''"
| "acme_fail_show (AfRead p detail) = lit ''could not read the ACME account key at '' @ p @ lit '': '' @ detail"
| "acme_fail_show (AfWrite p detail) = lit ''could not save the ACME account key at '' @ p @ lit '': '' @ detail"
| "acme_fail_show (AfWrongAccount p wrong directory) =
     (case wrong of
        WrongCa found \<Rightarrow>
          lit ''the ACME account key at '' @ p @ lit '' belongs to '' @ or_else_name (lit ''no CA it will name'') found
          @ lit '', not to '' @ directory
          @ lit ''. anago will not use it: the file decides which CA is contacted, so this would ''
     @ lit ''quietly order from a CA you did not ask for. Restore the right file, or delete this ''
     @ lit ''one and anago will register a new account with ''
          @ directory
      | WrongId found expected \<Rightarrow>
          lit ''the ACME account key at '' @ p @ lit '' is account '' @ or_else_name (lit ''one with no id'') found
          @ lit '', but this hub is registered as '' @ expected
          @ lit ''. Restore the right file, or delete this one and anago will register a new account''
      | WrongUnreadable _ \<Rightarrow> lit ''the ACME account key at '' @ p @ lit '' could not be checked'')"
| "acme_fail_show (AfListen port problem detail) =
     (case problem of
        PermissionProblem \<Rightarrow>
          lit ''port '' @ dec_nat port
          @ lit '' cannot be opened without privilege '' @ [0x2014]
     @ lit '' ports below 1024 belong to root. Run this with sudo, or give the binary ''
     @ lit ''CAP_NET_BIND_SERVICE. A DNS-01 challenge needs no port at all: pass --acme-challenge ''
     @ lit ''dns-01 with a Cloudflare token''
      | InUse \<Rightarrow>
          lit ''something is already listening on port '' @ dec_nat port
          @ lit '' '' @ [0x2014]
     @ lit '' a web server (nginx, caddy, apache) is the usual answer. anago needs it for the ''
     @ lit ''seconds the CA takes to fetch one file: stop that server for a moment and run this ''
     @ lit ''again, or use --acme-challenge dns-01 with a Cloudflare token and leave port ''
          @ dec_nat port @ lit '' alone''
      | OtherProblem \<Rightarrow> lit ''port '' @ dec_nat port @ lit '' could not be opened: '' @ detail)"
| "acme_fail_show (AfNotOurs p) =
     lit ''the certificate at '' @ p
     @ lit '' is not one anago issued, so there is nothing here to renew. `anago server renew ''
     @ lit ''--acme-email <you@example.com>` switches this hub to certificates anago gets and ''
     @ lit ''keeps up to date''"
| "acme_fail_show (AfNoAddressFamily port) =
     lit ''port '' @ dec_nat port
     @ lit '' could not be opened on IPv4 or IPv6 '' @ [0x2014]
     @ lit '' this host appears to have neither. A hub needs one of them to be reachable at all''"
| "acme_fail_show (AfDns01 domain detail) =
     lit ''the DNS-01 challenge record for '' @ domain @ lit '' could not be managed: '' @ detail @ [10] @ no_automatic_switch"
| "acme_fail_show (AfPropagation detail) =
     detail @ ([10]
     @ lit ''The challenge record is taken back out of the zone as this run stops; if that did ''
     @ lit ''not work, the warning above says which record to delete by hand.'' @ [10]) @ no_automatic_switch"
| "acme_fail_show (AfOrder domain detail retry_after) =
     lit ''the certificate order for '' @ domain @ lit '' did not go through: '' @ detail @ rate_limit_note detail retry_after"
| "acme_fail_show (AfNoChallenge domain challenge) =
     lit ''the CA does not offer a '' @ challenge_as_str challenge @ lit '' challenge for '' @ domain"
| "acme_fail_show (AfBadToken detail) = lit ''the CA sent a challenge token anago will not serve: '' @ detail"
| "acme_fail_show (AfValidation domain challenge looked_at detail retry_after) =
     (case challenge of
        Http01 \<Rightarrow>
          lit ''the CA could not verify '' @ domain @ lit '': '' @ detail @ lit ''. It fetches '' @ join_with (lit '', '') looked_at
          @ lit '' from outside, so the thing to check is that port 80 is open all the way in ''
     @ [0x2014] @ lit '' the cloud security group as well as the host firewall '' @ [0x2014]
     @ lit '' and that the name resolves to this server.''
          @ rate_limit_note detail retry_after
      | Dns01 \<Rightarrow>
          lit ''the CA could not verify '' @ domain @ lit '': '' @ detail @ lit ''. It resolves '' @ join_with (lit '', '') looked_at
          @ lit '' itself, from its own side of the internet, so what to look at is DNS and not this ''
     @ lit ''machine: whether the zone anago wrote into is the one actually answering for that ''
     @ lit ''name (a delegated subzone answers for itself), whether something stale is still at ''
     @ lit ''it, and whether the token may edit the zone that matters.''
          @ rate_limit_note detail retry_after @ [10] @ no_automatic_switch)"
| "acme_fail_show (AfFinalize domain detail retry_after) =
     domain @ lit '' was verified and the certificate still did not arrive: '' @ detail
     @ lit ''. Nothing was saved; running this again re-uses the authorization the CA already ''
     @ lit ''granted.''
     @ rate_limit_note detail retry_after"
| "acme_fail_show (AfUnreadable p detail) =
     lit ''the ACME account key at '' @ p @ lit '' is not readable as account credentials: '' @ detail
     @ lit ''. Restore the file from a backup, or delete it '' @ [0x2014]
     @ lit '' anago will register a new account, which costs nothing but the old account'' @ [39]
     @ lit ''s history''"

section \<open>The credentials file\<close>

definition store_text :: "path \<Rightarrow> rstr \<Rightarrow> ('h, acme_fail, unit) run" where
  "store_text p body =
    run_then
      (case path_parent p of
         None \<Rightarrow> run_return ()
       | Some dir \<Rightarrow> run_map_err (\<lambda>(_, shown). AfWrite dir shown) (on_files (ensure_private_dir dir)))
      (run_map_err (\<lambda>(_, shown). AfWrite p shown) (on_files (write_private p body)))"

definition pending_commit :: "pending \<Rightarrow> ('h, acme_fail, unit) run" where
  "pending_commit pn =
    (case pn_fresh pn of None \<Rightarrow> run_return () | Some body \<Rightarrow> store_text (pn_path pn) body)"

text \<open>The credentials are a value of the package, read by \<open>parse_credentials\<close> from the text of the file.\<close>

definition load_credentials ::
  "serde \<Rightarrow> (rstr \<Rightarrow> rstr + 'c) \<Rightarrow> path \<Rightarrow> rstr \<Rightarrow> rstr \<Rightarrow> ('h, acme_fail, 'c) run" where
  "load_credentials j parse_credentials p directory account_url =
    run_bind (run_map_err (\<lambda>(_, shown). AfRead p shown) (on_files (fs_read_to_string p))) (\<lambda>body.
    case belongs_to j body directory account_url of
      Inl wrong \<Rightarrow> run_throw
        (case wrong of
           WrongUnreadable detail \<Rightarrow> AfUnreadable p detail
         | _ \<Rightarrow> AfWrongAccount p wrong directory)
    | Inr _ \<Rightarrow> run_lift (map_err (AfUnreadable p) (parse_credentials body)))"

definition dns01_error :: "unicode \<Rightarrow> rstr \<Rightarrow> cf_error \<Rightarrow> acme_fail" where
  "dns01_error u domain e = AfDns01 domain (cf_error_show u e)"

text \<open>A certificate and its key, and their publication as a pair.\<close>

record issued_pair =
  is_certificate :: rstr
  is_key :: rstr
  is_warnings :: "rstr list"

definition save_issued :: "path \<Rightarrow> path \<Rightarrow> issued_pair \<Rightarrow> ('h, acme_fail, unit) run" where
  "save_issued certificate key issued =
    run_then
      (case path_parent key of
         None \<Rightarrow> run_return ()
       | Some dir \<Rightarrow> run_map_err (\<lambda>(_, shown). AfWrite dir shown) (on_files (ensure_private_dir dir)))
      (run_map_err (\<lambda>(_, shown). AfWrite (key @ lit '' and '' @ certificate) shown)
        (on_files (write_private_pair (key, is_key issued) (certificate, is_certificate issued))))"

section \<open>What the plan guarantees\<close>

text \<open>
  A plan to order has a contact, the directory of the flag and a challenge that can be proven; a pair of
  files means that nothing is ordered.
\<close>

lemma acme_plan_acme:
  assumes "acme_plan ca r = Inr (AcmePlan d c e s)"
  shows "pr_tls_cert r = None \<and> pr_tls_key r = None \<and> e \<noteq> [] \<and> (\<exists>email. pr_acme_email r = Some email \<and> e = trim email)
    \<and> s = pr_staging r \<and> d = ca_directory ca s \<and> (c = Dns01 \<longrightarrow> pr_token r \<noteq> None)
    \<and> (\<forall>asked. pr_challenge r = Some asked \<longrightarrow> c = asked)"
  using assms
  by (auto simp: acme_plan_def attempt_eq_Inr split: option.splits if_splits)

lemma acme_plan_manual:
  "acme_plan ca r = Inr (ManualPlan cert key) \<longleftrightarrow>
    pr_tls_cert r = Some cert \<and> pr_tls_key r = Some key \<and> pr_acme_email r = None \<and> \<not> pr_staging r \<and> pr_challenge r = None"
  by (auto simp: acme_plan_def acme_flags_def attempt_eq_Inr split: option.splits if_splits)

text \<open>An account is used again only at the CA that was asked for.\<close>

lemma reuse_same_ca:
  assumes "account_registration existing directory contact default_path key_exists = Reuse p url update"
  shows "\<exists>acme. existing = Some acme \<and> ac_directory acme = directory \<and> key_exists \<and> p = ac_account_key_path acme
    \<and> url = ac_account_url acme \<and> (\<not> update \<longrightarrow> ac_contact acme = Some contact)"
  using assms by (auto simp: account_registration_def split: option.splits if_splits)

lemma belongs_to_ok:
  assumes "belongs_to j body directory url = Inr ()"
  shows "\<exists>v. sj_read j body = Inr v \<and> Option.bind (sv_get v (lit ''directory'')) sv_as_str = Some directory
    \<and> (url \<noteq> [] \<longrightarrow> Option.bind (sv_get v (lit ''id'')) sv_as_str = Some url)"
  using assms by (auto simp: belongs_to_def attempt_eq_Inr map_err_eq_Inr Let_def split: if_splits)

end
