(* ===== verification/Cli.thy ===== *)
theory Cli
  imports Args AcmePlan
begin

text \<open>
  \<open>crates/anago/src/cli.rs\<close>: the command line as a command of the program, or the reason why it is none.
\<close>

section \<open>Commands\<close>

definition DEFAULT_SUBNET :: rstr where "DEFAULT_SUBNET = lit ''10.100.0.0/24''"
definition DEFAULT_LISTEN_PORT :: u16 where "DEFAULT_LISTEN_PORT = 51820"
definition DEFAULT_API_PORT :: u16 where "DEFAULT_API_PORT = 443"
definition DEFAULT_INTERVAL :: nat where "DEFAULT_INTERVAL = 5 * 60 * SECOND"
definition MIN_INTERVAL :: nat where "MIN_INTERVAL = 60 * SECOND"
definition MAX_INTERVAL :: nat where "MAX_INTERVAL = 24 * 60 * 60 * SECOND"

record server_init_args =
  si_domain :: rstr
  si_tls_cert :: "rstr option"
  si_tls_key :: "rstr option"
  si_acme_email :: "rstr option"
  si_acme_staging :: bool
  si_acme_challenge :: "challenge option"
  si_cf_token :: "cf_token option"
  si_cf_token_file :: "rstr option"
  si_subnet :: subnet
  si_listen_port :: u16
  si_api_port :: u16
  si_systemd :: bool

datatype ca_choice = StagingCa | ProductionCa

record server_renew_args =
  sr_force :: bool
  sr_dns_only :: bool
  sr_ca :: "ca_choice option"
  sr_acme_email :: "rstr option"
  sr_acme_challenge :: "challenge option"
  sr_cf_token :: "cf_token option"
  sr_cf_token_file :: "rstr option"

datatype timer_choice = InstallTimer nat | UninstallTimer

record sync_args =
  sy_quiet :: bool
  sy_config :: "path option"
  sy_timer :: "timer_choice option"

datatype export_kind = ExportQr | ExportConf "path option"

record join_args =
  jn_domain :: rstr
  jn_code :: join_code
  jn_name :: "device_name option"
  jn_api_port :: u16
  jn_export :: "export_kind option"

datatype command =
    ServerInit server_init_args
  | ServerRenew server_renew_args
  | ServerRun bool
  | SyncCommand sync_args
  | CodeCommand
  | JoinCommand join_args
  | LsCommand
  | RmCommand device_name
  | HelpCommand "rstr option"
  | VersionCommand

datatype cli_error =
    ArgFailed arg_error
  | UnknownCommand rstr
  | MissingSubcommand rstr
  | MissingArgument rstr rstr
  | TooManyArguments rstr
  | BadValue rstr rstr
  | BadArgument rstr rstr
  | Contradiction rstr rstr
  | Orphan rstr rstr
  | Needs rstr rstr rstr
  | PlanFailed plan_error
  | TokenFailed cf_error
  | NotYet rstr rstr rstr

fun cli_error_show :: "unicode \<Rightarrow> cli_error \<Rightarrow> rstr" where
  "cli_error_show u (ArgFailed e) = arg_error_show e"
| "cli_error_show u (UnknownCommand name) = lit ''unknown command '' @ debug_str u name"
| "cli_error_show u (MissingSubcommand command) = lit ''`anago '' @ command @ lit ''` needs a subcommand''"
| "cli_error_show u (MissingArgument command what) = lit ''`anago '' @ command @ lit ''` needs '' @ what"
| "cli_error_show u (TooManyArguments command) = lit ''`anago '' @ command @ lit ''` got more arguments than it takes''"
| "cli_error_show u (BadValue name message) = lit ''--'' @ name @ lit '': '' @ message"
| "cli_error_show u (Contradiction one other) =
     one @ lit '' and '' @ other @ lit '' cannot both be given; pass one and run it again''"
| "cli_error_show u (Orphan name needs) = name @ lit '' only means something with '' @ needs"
| "cli_error_show u (Needs name needs because) = name @ lit '' needs '' @ needs @ lit '' '' @ [0x2014] @ lit '' '' @ because"
| "cli_error_show u (PlanFailed e) = plan_error_show e"
| "cli_error_show u (TokenFailed e) = cf_error_show u e"
| "cli_error_show u (BadArgument what message) = what @ lit '': '' @ message"
| "cli_error_show u (NotYet what milestone because) = what @ lit '' arrives in '' @ milestone @ lit '' '' @ [0x2014] @ lit '' '' @ because"

fun cli_exit_code :: "cli_error \<Rightarrow> int" where
  "cli_exit_code (NotYet _ _ _) = 1"
| "cli_exit_code _ = 2"

section \<open>Values\<close>

definition cli_challenge :: "unicode \<Rightarrow> parsed_args \<Rightarrow> cli_error + challenge option" where
  "cli_challenge u p =
    (case arg_value p ''acme-challenge'' of
       None \<Rightarrow> Inr None
     | Some t \<Rightarrow>
        (case challenge_from_str t of
           Some c \<Rightarrow> Inr (Some c)
         | None \<Rightarrow> Inl (BadValue (lit ''acme-challenge'')
             (debug_str u t @ lit '' is not a challenge '' @ [0x2014] @ lit '' expected '' @ challenge_as_str Http01 @ lit '' or ''
              @ challenge_as_str Dns01))))"

definition cli_token :: "parsed_args \<Rightarrow> cli_error + cf_token option" where
  "cli_token p =
    (case arg_value p ''cf-token'' of
       None \<Rightarrow> Inr None
     | Some t \<Rightarrow> map_err TokenFailed (attempt (cf_token_parse t FlagSource) (\<lambda>token. Inr (Some token))))"

definition cli_port :: "unicode \<Rightarrow> parsed_args \<Rightarrow> string \<Rightarrow> u16 \<Rightarrow> cli_error + u16" where
  "cli_port u p name otherwise =
    (case arg_value p name of
       None \<Rightarrow> Inr otherwise
     | Some t \<Rightarrow>
        (case parse_unsigned 65535 t of
           Some n \<Rightarrow>
             if n = 0 then Inl (BadValue (lit name) (debug_str u t @ lit '' is not a port number (1-65535)''))
             else Inr (of_nat n)
         | None \<Rightarrow> Inl (BadValue (lit name) (debug_str u t @ lit '' is not a port number (1-65535)''))))"

definition cli_domain :: "rstr \<Rightarrow> cli_error + rstr" where
  "cli_domain t =
    (if contains_str (lit ''://'') t then Inl (BadArgument (lit ''domain'') (lit ''give the hostname only, without https://''))
     else if 47 \<in> set t then Inl (BadArgument (lit ''domain'') (lit ''give the hostname only, without a path''))
     else if 58 \<in> set t then Inl (BadArgument (lit ''domain'') (lit ''give the hostname only, without a port''))
     else if \<exists>c \<in> set t. is_ws c then Inl (BadArgument (lit ''domain'') (lit ''a domain cannot contain spaces''))
     else if 46 \<notin> set t then Inl (BadArgument (lit ''domain'') (lit ''expected a full domain, e.g. net.example.com''))
     else Inr t)"

definition reject_extra_positionals :: "parsed_args \<Rightarrow> string \<Rightarrow> cli_error + unit" where
  "reject_extra_positionals p command =
    (if pa_positionals p = [] then Inr () else Inl (TooManyArguments (lit command)))"

definition cli_out :: "parsed_args \<Rightarrow> path option" where
  "cli_out p = arg_value p ''out''"

definition cli_export :: "unicode \<Rightarrow> parsed_args \<Rightarrow> cli_error + export_kind option" where
  "cli_export u p =
    (case arg_value p ''export'' of
       None \<Rightarrow> if cli_out p \<noteq> None then Inl (Orphan (lit ''--out'') (lit ''--export conf'')) else Inr None
     | Some kind \<Rightarrow>
        if kind = lit ''conf'' then Inr (Some (ExportConf (cli_out p)))
        else if kind = lit ''qr'' then
          (if cli_out p = None then Inr (Some ExportQr) else Inl (Contradiction (lit ''--export qr'') (lit ''--out'')))
        else Inl (BadValue (lit ''export'') (debug_str u kind @ lit '' is not qr or conf'')))"

definition cli_config :: "unicode \<Rightarrow> parsed_args \<Rightarrow> cli_error + path option" where
  "cli_config u p =
    (case arg_value p ''config'' of
       None \<Rightarrow> Inr None
     | Some t \<Rightarrow>
        if \<not> path_is_absolute t then Inl (BadValue (lit ''config'')
          (debug_str u t @ lit '' is a relative path '' @ [0x2014]
     @ lit '' give the full path from /, because the timer that reads it runs from somewhere else ''
     @ lit ''entirely''))
        else Inr (Some t))"

text \<open>\<open>str::strip_suffix\<close> of one character, and \<open>saturating_mul\<close> of a \<open>u64\<close>.\<close>

definition interval_units :: "(rchar \<times> nat) list" where
  "interval_units = [(115, 1), (109, 60), (104, 60 * 60)]"

definition u64_max :: nat where "u64_max = 18446744073709551615"

definition cli_interval :: "unicode \<Rightarrow> parsed_args \<Rightarrow> cli_error + nat" where
  "cli_interval u p =
    (case arg_value p ''interval'' of
       None \<Rightarrow> Inr DEFAULT_INTERVAL
     | Some t \<Rightarrow>
        attempt (ok_or (BadValue (lit ''interval'') (debug_str u t @ lit '' has no unit '' @ [0x2014] @ lit '' write it as 90s, 5m or 1h''))
          (find_map (\<lambda>(c, seconds). map_option (\<lambda>digits. (digits, seconds)) (strip_suffix_char c t)) interval_units))
          (\<lambda>(digits, seconds).
        attempt (ok_or (BadValue (lit ''interval'') (debug_str u t @ lit '' is not a length of time '' @ [0x2014] @ lit '' try 5m''))
          (parse_unsigned u64_max digits)) (\<lambda>count.
        let interval = min u64_max (count * seconds) * SECOND in
        if interval < MIN_INTERVAL then Inl (BadValue (lit ''interval'')
          (debug_str u t @ lit '' is shorter than a minute. Most changes ask nothing of a device, so syncing that ''
     @ lit ''often only polls the hub''))
        else if MAX_INTERVAL < interval then Inl (BadValue (lit ''interval'')
          (debug_str u t @ lit '' is longer than a day, which is not a timer any more '' @ [0x2014]
     @ lit '' the peer list would be a day stale''))
        else Inr interval)))"

section \<open>The commands of the server\<close>

definition server_init_spec :: "flag list" where
  "server_init_spec =
    [value_flag ''domain'', value_flag ''tls-cert'', value_flag ''tls-key'', value_flag ''subnet'',
     value_flag ''port'', value_flag ''api-port'', boolean_flag ''no-systemd'', value_flag ''acme-email'',
     boolean_flag ''acme-staging'', value_flag ''acme-challenge'', value_flag ''cf-token'',
     value_flag ''cf-token-file'']"

definition check_combination :: "ca_urls \<Rightarrow> server_init_args \<Rightarrow> cli_error + unit" where
  "check_combination ca a =
    attempt (map_err TokenFailed
      (choose_token (si_cf_token_file a) (map_option ct_value (si_cf_token a)) None)) (\<lambda>token.
      case acme_plan ca
          \<lparr>pr_tls_cert = si_tls_cert a, pr_tls_key = si_tls_key a, pr_acme_email = si_acme_email a,
           pr_staging = si_acme_staging a, pr_challenge = si_acme_challenge a, pr_token = token\<rparr> of
        Inr _ \<Rightarrow> Inr ()
      | Inl e \<Rightarrow> if e = Dns01WithoutToken then Inr () else Inl (PlanFailed e))"

definition cli_server_init :: "unicode \<Rightarrow> ca_urls \<Rightarrow> rstr list \<Rightarrow> cli_error + command" where
  "cli_server_init u ca argv =
    attempt (map_err ArgFailed (args_parse argv server_init_spec)) (\<lambda>p.
    attempt (reject_extra_positionals p ''server init'') (\<lambda>_.
    attempt (map_err (\<lambda>e. BadValue (lit ''subnet'') (subnet_error_show e))
      (subnet_parse (case arg_value p ''subnet'' of None \<Rightarrow> DEFAULT_SUBNET | Some t \<Rightarrow> t))) (\<lambda>subnet.
    attempt (map_err ArgFailed (arg_require p ''domain'')) (\<lambda>domain.
    attempt (cli_domain domain) (\<lambda>domain.
    attempt (cli_challenge u p) (\<lambda>challenge.
    attempt (cli_token p) (\<lambda>token.
    attempt (cli_port u p ''port'' DEFAULT_LISTEN_PORT) (\<lambda>listen_port.
    attempt (cli_port u p ''api-port'' DEFAULT_API_PORT) (\<lambda>api_port.
    let a = \<lparr>si_domain = domain, si_tls_cert = arg_value p ''tls-cert'', si_tls_key = arg_value p ''tls-key'',
             si_acme_email = arg_value p ''acme-email'', si_acme_staging = is_set p ''acme-staging'',
             si_acme_challenge = challenge, si_cf_token = token, si_cf_token_file = arg_value p ''cf-token-file'',
             si_subnet = subnet, si_listen_port = listen_port, si_api_port = api_port,
             si_systemd = (\<not> is_set p ''no-systemd'')\<rparr>
    in attempt (check_combination ca a) (\<lambda>_. Inr (ServerInit a)))))))))))"

definition server_renew_spec :: "flag list" where
  "server_renew_spec =
    [boolean_flag ''force'', boolean_flag ''dns'', boolean_flag ''acme-staging'', boolean_flag ''acme-production'',
     value_flag ''acme-email'', value_flag ''acme-challenge'', value_flag ''cf-token'', value_flag ''cf-token-file'']"

definition mixed_flags :: "server_renew_args \<Rightarrow> rstr list" where
  "mixed_flags a =
    (if sr_force a then [lit ''--force''] else [])
    @ (if sr_ca a \<noteq> None then [lit ''--acme-staging/--acme-production''] else [])
    @ (if sr_acme_email a \<noteq> None then [lit ''--acme-email''] else [])
    @ (if sr_acme_challenge a \<noteq> None then [lit ''--acme-challenge''] else [])"

definition cli_server_renew :: "unicode \<Rightarrow> rstr list \<Rightarrow> cli_error + command" where
  "cli_server_renew u argv =
    attempt (map_err ArgFailed (args_parse argv server_renew_spec)) (\<lambda>p.
    attempt (reject_extra_positionals p ''server renew'') (\<lambda>_.
    attempt (case (is_set p ''acme-staging'', is_set p ''acme-production'') of
        (True, True) \<Rightarrow> Inl (Contradiction (lit ''--acme-staging'') (lit ''--acme-production''))
      | (True, False) \<Rightarrow> Inr (Some StagingCa)
      | (False, True) \<Rightarrow> Inr (Some ProductionCa)
      | (False, False) \<Rightarrow> Inr None) (\<lambda>ca.
    attempt (cli_challenge u p) (\<lambda>challenge.
    attempt (cli_token p) (\<lambda>token.
    let a = \<lparr>sr_force = is_set p ''force'', sr_dns_only = is_set p ''dns'', sr_ca = ca,
             sr_acme_email = arg_value p ''acme-email'', sr_acme_challenge = challenge,
             sr_cf_token = token, sr_cf_token_file = arg_value p ''cf-token-file''\<rparr>
    in attempt (map_err TokenFailed
          (choose_token (sr_cf_token_file a) (map_option ct_value (sr_cf_token a)) None)) (\<lambda>_.
       if sr_dns_only a then
         (case mixed_flags a of
            other # _ \<Rightarrow> Inl (Contradiction (lit ''--dns'') other)
          | [] \<Rightarrow> Inr (ServerRenew a))
       else Inr (ServerRenew a)))))))"

definition cli_server_run :: "rstr list \<Rightarrow> cli_error + command" where
  "cli_server_run argv =
    attempt (map_err ArgFailed (args_parse argv [boolean_flag ''service''])) (\<lambda>p.
      if pa_positionals p \<noteq> [] then Inl (TooManyArguments (lit ''server run''))
      else Inr (ServerRun (is_set p ''service'')))"

definition cli_server :: "unicode \<Rightarrow> ca_urls \<Rightarrow> rstr list \<Rightarrow> cli_error + command" where
  "cli_server u ca argv =
    (case argv of
       [] \<Rightarrow> Inl (MissingSubcommand (lit ''server''))
     | head # rest \<Rightarrow>
        if head = lit ''init'' then cli_server_init u ca rest
        else if head = lit ''renew'' then cli_server_renew u rest
        else if head = lit ''run'' then cli_server_run rest
        else if head = lit ''status'' then
          Inl (NotYet (lit ''anago server status'') (lit ''M3'') (lit ''`anago ls` on the server already shows peers and handshakes''))
        else Inl (UnknownCommand (lit ''server '' @ head)))"

section \<open>The commands of a device\<close>

definition join_spec :: "flag list" where
  "join_spec = [value_flag ''name'', value_flag ''api-port'', value_flag ''export'', value_flag ''out'']"

definition join_places :: "parsed_args \<Rightarrow> cli_error + (rstr \<times> rstr)" where
  "join_places p =
    (case pa_positionals p of
       [host, code] \<Rightarrow> Inr (host, code)
     | [] \<Rightarrow> Inl (MissingArgument (lit ''join'') (lit ''<domain> <code>''))
     | [_] \<Rightarrow> Inl (MissingArgument (lit ''join'') (lit ''<code>''))
     | _ \<Rightarrow> Inl (TooManyArguments (lit ''join'')))"

definition join_name_of :: "unicode \<Rightarrow> parsed_args \<Rightarrow> export_kind option \<Rightarrow> cli_error + device_name option" where
  "join_name_of u p export =
    (case arg_value p ''name'' of
       Some t \<Rightarrow> map_err (\<lambda>e. BadValue (lit ''name'') (name_error_show u e))
         (attempt (device_name_parse u t) (\<lambda>n. Inr (Some n)))
     | None \<Rightarrow>
         if export \<noteq> None then Inl (Needs (lit ''--export'') (lit ''--name'')
           (lit ''without it the name would be this machine'' @ [39]
     @ lit ''s hostname, and what is being registered is the phone''))
         else Inr None)"

definition cli_join :: "unicode \<Rightarrow> rstr list \<Rightarrow> cli_error + command" where
  "cli_join u argv =
    attempt (map_err ArgFailed (args_parse argv join_spec)) (\<lambda>p.
    attempt (cli_export u p) (\<lambda>export.
    attempt (join_places p) (\<lambda>(host, code).
    attempt (join_name_of u p export) (\<lambda>name.
    attempt (cli_port u p ''api-port'' DEFAULT_API_PORT) (\<lambda>api_port.
    attempt (cli_domain host) (\<lambda>domain.
    attempt (map_err (\<lambda>e. BadArgument (lit ''join code'') (code_error_show u e)) (join_code_parse code)) (\<lambda>code.
    Inr (JoinCommand \<lparr>jn_domain = domain, jn_code = code, jn_name = name, jn_api_port = api_port,
      jn_export = export\<rparr>))))))))"

definition sync_spec :: "flag list" where
  "sync_spec =
    [boolean_flag ''quiet'', value_flag ''config'', boolean_flag ''install-timer'',
     boolean_flag ''uninstall-timer'', value_flag ''interval'']"

definition cli_sync :: "unicode \<Rightarrow> rstr list \<Rightarrow> cli_error + command" where
  "cli_sync u argv =
    attempt (map_err ArgFailed (args_parse argv sync_spec)) (\<lambda>p.
    attempt (reject_extra_positionals p ''sync'') (\<lambda>_.
    attempt (case (is_set p ''install-timer'', is_set p ''uninstall-timer'') of
        (True, True) \<Rightarrow> Inl (Contradiction (lit ''--install-timer'') (lit ''--uninstall-timer''))
      | (True, False) \<Rightarrow> attempt (cli_interval u p) (\<lambda>interval. Inr (Some (InstallTimer interval)))
      | (False, True) \<Rightarrow> Inr (Some UninstallTimer)
      | (False, False) \<Rightarrow> Inr None) (\<lambda>timer.
    if is_set p ''interval'' \<and> (timer = None \<or> timer = Some UninstallTimer) then
      Inl (Orphan (lit ''--interval'') (lit ''--install-timer''))
    else if timer \<noteq> None \<and> is_set p ''quiet'' then
      Inl (Orphan (lit ''--quiet'') (lit ''a sync run '' @ [0x2014] @ lit '' the installed timer is quiet already''))
    else if timer = Some UninstallTimer \<and> is_set p ''config'' then
      Inl (Orphan (lit ''--config'') (lit ''a sync run or --install-timer '' @ [0x2014]
     @ lit '' removing the timer reads no device file''))
    else attempt (cli_config u p) (\<lambda>config.
      Inr (SyncCommand \<lparr>sy_quiet = is_set p ''quiet'', sy_config = config, sy_timer = timer\<rparr>)))))"

definition rm_place :: "parsed_args \<Rightarrow> cli_error + rstr" where
  "rm_place p =
    (case pa_positionals p of
       [name] \<Rightarrow> Inr name
     | [] \<Rightarrow> Inl (MissingArgument (lit ''rm'') (lit ''<name>''))
     | _ \<Rightarrow> Inl (TooManyArguments (lit ''rm'')))"

definition cli_rm :: "unicode \<Rightarrow> rstr list \<Rightarrow> cli_error + command" where
  "cli_rm u argv =
    attempt (map_err ArgFailed (args_parse argv [])) (\<lambda>p.
    attempt (rm_place p) (\<lambda>name.
    attempt (map_err (\<lambda>e. BadArgument (lit ''device name'') (name_error_show u e)) (device_name_parse u name)) (\<lambda>n.
    Inr (RmCommand n))))"

definition no_args :: "command \<Rightarrow> string \<Rightarrow> rstr list \<Rightarrow> cli_error + command" where
  "no_args command name argv =
    attempt (map_err ArgFailed (args_parse argv [])) (\<lambda>p.
      if pa_positionals p \<noteq> [] then Inl (TooManyArguments (lit name)) else Inr command)"

section \<open>The whole line\<close>

text \<open>The scan of \<open>help_or_version\<close>: the topic so far and whether help is wanted.\<close>

fun help_scan :: "rstr option \<Rightarrow> bool \<Rightarrow> rstr list \<Rightarrow> command + (rstr option \<times> bool)" where
  "help_scan topic wants [] = Inr (topic, wants)"
| "help_scan topic wants (arg # argv) =
    (if arg = lit ''--'' then Inr (topic, wants)
     else if arg = lit ''--version'' \<or> arg = lit ''-V'' then Inl VersionCommand
     else if arg = lit ''--help'' \<or> arg = lit ''-h'' then help_scan topic True argv
     else help_scan (if topic = None \<and> \<not> starts_dash arg then Some arg else topic) wants argv)"

definition help_or_version :: "rstr list \<Rightarrow> command option" where
  "help_or_version argv =
    (case help_scan None (argv = []) argv of
       Inl command \<Rightarrow> Some command
     | Inr (topic, wants) \<Rightarrow>
        if wants then Some (HelpCommand
          (if topic = Some (lit ''help'') then List.find (\<lambda>arg. arg \<noteq> lit ''help'') argv else topic))
        else None)"

text \<open>An empty line is answered by \<open>help_or_version\<close>, so the \<open>expect\<close> behind it cannot fail.\<close>

definition cli_parse :: "unicode \<Rightarrow> ca_urls \<Rightarrow> rstr list \<Rightarrow> cli_error + command" where
  "cli_parse u ca argv =
    (case help_or_version argv of
       Some command \<Rightarrow> Inr command
     | None \<Rightarrow>
        let head = hd argv; rest = tl argv in
        if head = lit ''server'' then cli_server u ca rest
        else if head = lit ''code'' then no_args CodeCommand ''code'' rest
        else if head = lit ''join'' then cli_join u rest
        else if head = lit ''ls'' then no_args LsCommand ''ls'' rest
        else if head = lit ''rm'' then cli_rm u rest
        else if head = lit ''help'' then Inr (HelpCommand (case rest of [] \<Rightarrow> None | t # _ \<Rightarrow> Some t))
        else if head = lit ''sync'' then cli_sync u rest
        else if head = lit ''ping'' then Inl (NotYet (lit ''anago ping'') (lit ''M3'')
          (lit ''name resolution lands with it '' @ [0x2014]
     @ lit '' use the private address from `anago ls`''))
        else Inl (UnknownCommand head))"

section \<open>Help\<close>

definition help_init :: rstr where
  "help_init =
     (lit ''usage: anago server init --domain <d>'' @ [10]
     @ lit ''                        [--tls-cert <path> --tls-key <path>]'' @ [10]
     @ lit ''                        [--acme-email <address>] [--acme-staging]'' @ [10]
     @ lit ''                        [--acme-challenge http-01|dns-01]'' @ [10]
     @ lit ''                        [--cf-token <token> | --cf-token-file <path>]'' @ [10]
     @ lit ''                        [--subnet '')
     @ DEFAULT_SUBNET
     @ (lit ''] [--port '')
     @ dec_nat (unat DEFAULT_LISTEN_PORT)
     @ (lit '']'' @ [10] @ lit ''                        [--api-port '')
     @ dec_nat (unat DEFAULT_API_PORT)
     @ (lit ''] [--no-systemd]'' @ [10, 10]
     @ lit ''Sets up the hub on this machine: generates its wg keypair, writes the'' @ [10]
     @ lit ''state file, prints the DNS record to add and the ports to open, then'' @ [10]
     @ lit ''issues the first join code.'' @ [10, 10]
     @ lit ''The certificate pair decides everything else. Give both and anago'' @ [10]
     @ lit ''serves the certificate you already have and never renews it. Leave both'' @ [10]
     @ lit ''out and anago orders one from Let'' @ [39] @ lit ''s Encrypt and renews it ''
     @ [0x2014] @ lit '' which needs'' @ [10]
     @ lit ''--acme-email, the address the CA writes to before an expiry.'' @ [10, 10]
     @ lit ''--acme-challenge defaults to dns-01 when there is a Cloudflare token'' @ [10]
     @ lit ''and http-01 when there is not. http-01 needs port 80 reachable; dns-01'' @ [10]
     @ lit ''needs the token, which is also what lets anago add the A record for'' @ [10]
     @ lit ''you. The token can come from --cf-token-file (safest), --cf-token'' @ [10]
     @ lit ''(visible to `ps` and in shell history), or '')
     @ TOKEN_ENV
     @ (lit ''.'' @ [10, 10] @ lit ''Create the token with both Zone '' @ [0x2192] @ lit '' DNS ''
     @ [0x2192] @ lit '' Edit and Zone '' @ [0x2192] @ lit '' Zone '' @ [0x2192]
     @ lit '' Read, on'' @ [10]
     @ lit ''the zone that holds the domain. The second is what finds the zone, and'' @ [10]
     @ lit ''a token without it passes every other check before it fails.'' @ [10, 10]
     @ lit ''--acme-staging orders from Let'' @ [39] @ lit ''s Encrypt'' @ [39]
     @ lit ''s staging CA. Nothing trusts'' @ [10]
     @ lit ''those certificates, so `anago join` will refuse them '' @ [0x2014]
     @ lit '' it is for'' @ [10]
     @ lit ''checking the wiring without spending the production limits. Staging has'' @ [10]
     @ lit ''limits of its own; they are far larger, not absent.'' @ [10])"

definition help_renew :: rstr where
  "help_renew =
     (lit ''usage: anago server renew [--force] [--dns]'' @ [10]
     @ lit ''                         [--acme-staging | --acme-production]'' @ [10]
     @ lit ''                         [--acme-email <address>]'' @ [10]
     @ lit ''                         [--acme-challenge http-01|dns-01]'' @ [10]
     @ lit ''                         [--cf-token <token> | --cf-token-file <path>]'' @ [10, 10]
     @ lit ''Run on the hub. Orders the certificate again, changes how it will be'' @ [10]
     @ lit ''ordered next time, or pushes the A record '' @ [0x2014]
     @ lit '' never all three, and never'' @ [10]
     @ lit ''anything to do with WireGuard: no tunnel drops for any of this.'' @ [10, 10]
     @ lit ''With no flags it decides for itself. If the certificate is not due yet'' @ [10]
     @ lit ''it says when it will be and does nothing, so it is safe in cron.'' @ [10]
     @ lit ''--force orders one anyway, which spends one of the CA'' @ [39]
     @ lit ''s few per week'' @ [10] @ lit ''for this name.'' @ [10, 10]
     @ lit ''A flag that changes *which* certificate you would get '' @ [0x2014]
     @ lit '' moving between'' @ [10])
     @ lit ''staging''
     @ (lit '' and the real CA, or taking over a hub set up with'' @ [10]
     @ lit ''--tls-cert/--tls-key '' @ [0x2014]
     @ lit '' orders one straight away; --force is not needed'' @ [10]
     @ lit ''and would not mean anything. Going *to* '')
     @ lit ''staging''
     @ (lit '' is the one to think'' @ [10]
     @ lit ''about: what it orders replaces the certificate this hub is serving, and'' @ [10]
     @ lit ''nothing trusts it, so `join` fails until --acme-production brings a real'' @ [10]
     @ lit ''one back. A flag that does not change which certificate you get'' @ [10]
     @ lit ''(--acme-email, --acme-challenge, the token) is written down and applies'' @ [10]
     @ lit ''from the next renewal.'' @ [10, 10]
     @ lit ''--dns pushes the A record at this machine'' @ [39]
     @ lit ''s current address and stops.'' @ [10]
     @ lit ''That is for a server whose public IP changed; nothing else here does'' @ [10]
     @ lit ''it, and `server init` refuses to run twice.'' @ [10])"

definition help_join :: rstr where
  "help_join =
     (lit ''usage: anago join <domain> <code> [--name <name>] [--api-port <port>]'' @ [10]
     @ lit ''       anago join <domain> <code> --export conf --name <name> [--out <path>]''
     @ [10] @ lit ''       anago join <domain> <code> --export qr --name <name>'' @ [10, 10]
     @ lit ''Registers this device with the hub at <domain>. The wg keypair is made'' @ [10]
     @ lit ''here and the private key never leaves '' @ [0x2014]
     @ lit '' the server sees the public half'' @ [10] @ lit ''only. Without --name the machine''
     @ [39] @ lit ''s hostname is used.'' @ [10, 10] @ lit ''--api-port has to match the hub''
     @ [39] @ lit ''s; pass it when the server was set up'' @ [10]
     @ lit ''with a non-default one.'' @ [10, 10]
     @ lit ''--export registers a phone instead, and leaves nothing on this machine:'' @ [10]
     @ lit ''no wg config and no device file. --name is required there, because the'' @ [10]
     @ lit ''hostname default would name this machine. `conf` prints the config,'' @ [10]
     @ lit ''`--out` puts it in a file at 0600 instead (an existing file is an error,'' @ [10]
     @ lit ''never an overwrite). `qr` draws it on the terminal and takes no --out ''
     @ [0x2014, 10] @ lit ''anago writes no image files. Its width follows the hub'' @ [39]
     @ lit ''s name, so 80'' @ [10]
     @ lit ''columns is enough for an ordinary one and a long name needs more; the'' @ [10]
     @ lit ''size is only known once the hub has answered, and a window too narrow'' @ [10]
     @ lit ''for it is refused rather than drawn wrapped. Either way what comes out'' @ [10]
     @ lit ''is the phone'' @ [39] @ lit ''s private key: move it, then delete the file ''
     @ [0x2014] @ lit '' or, on'' @ [10]
     @ lit ''screen, clear the screen and then the scrollback, which are two'' @ [10]
     @ lit ''different commands.'' @ [10, 10]
     @ lit ''Join codes are single use and expire; ask the server for another with'' @ [10]
     @ lit ''`anago code`. Format: '')
     @ lit ''XXXX-XXXX''
     @ ([10])"

definition help_sync :: rstr where
  "help_sync =
     (lit ''usage: anago sync [--quiet] [--config <path>]'' @ [10]
     @ lit ''       anago sync --install-timer [--interval '')
     @ lit ''5m''
     @ (lit ''] [--config <path>]'' @ [10] @ lit ''       anago sync --uninstall-timer''
     @ [10, 10] @ lit ''Run on a device, as root. Asks the hub for the peer list and rewrites''
     @ [10] @ lit ''the WireGuard config only if something changed.'' @ [10, 10]
     @ lit ''Nothing here is needed to reach the hub '' @ [0x2014]
     @ lit '' it already knows every'' @ [10]
     @ lit ''device. Syncing is how *this* device hears about the others.'' @ [10, 10]
     @ lit ''--config gives the full path to device.json, from / down. Without it'' @ [10]
     @ lit ''anago works the path out the way `ls` and `rm` do, which needs your'' @ [10]
     @ lit ''user session; a timer has none, so the installed unit carries the path'' @ [10]
     @ lit ''on its command line. --quiet goes on that command line too, so opening'' @ [10]
     @ lit ''the unit file says why it is silent.'' @ [10, 10]
     @ lit ''--install-timer writes the unit and starts it: a systemd timer on'' @ [10]
     @ lit ''Linux, a LaunchDaemon on macOS. Where neither exists, it prints a cron'' @ [10]
     @ lit ''line instead of pretending. --interval takes 90s, 5m or 1h '' @ [0x2014]
     @ lit '' between'' @ [10])
     @ lit ''1m''
     @ (lit '' and '')
     @ lit ''24h''
     @ (lit ''. A cron line narrows that further, to periods that divide'' @ [10]
     @ lit ''an hour or a day: cron repeats on the clock, not on a stopwatch.'' @ [10])"

definition help_code :: rstr where
  "help_code =
     (lit ''usage: anago code'' @ [10, 10]
     @ lit ''Run on the server. Issues a join code, prints the exact `anago join`'' @ [10]
     @ lit ''line to run on the new device, and stores the code in the state file.'' @ [10])"

definition help_ls :: rstr where
  "help_ls =
     (lit ''usage: anago ls'' @ [10, 10]
     @ lit ''Lists registered devices. On the server it also shows when each device'' @ [10]
     @ lit ''last completed a handshake; over the API that column reads as unknown.'' @ [10])"

definition help_rm :: rstr where
  "help_rm =
     (lit ''usage: anago rm <name>'' @ [10, 10]
     @ lit ''Removes a device. Its address returns to the pool and its token stops'' @ [10]
     @ lit ''working immediately.'' @ [10])"

definition help_all :: rstr where
  "help_all =
     (lit ''anago '')
     @ VERSION_TEXT
     @ (lit '' '' @ [0x2014] @ lit '' self-hosted WireGuard private network'' @ [10, 10]
     @ lit ''usage:'' @ [10]
     @ lit ''  anago server init --domain <d>    set this machine up as the hub'' @ [10]
     @ lit ''  anago server renew                order the certificate again, or change how''
     @ [10] @ lit ''  anago server run                  run the hub (systemd does this for you)''
     @ [10] @ lit ''  anago code                        issue a join code (on the server)''
     @ [10] @ lit ''  anago join <domain> <code>        register this device'' @ [10]
     @ lit ''  anago sync                        pull the peer list (on a device)'' @ [10]
     @ lit ''  anago ls                          list devices'' @ [10]
     @ lit ''  anago rm <name>                   remove a device'' @ [10, 10]
     @ lit ''  -h, --help                        show this, or `anago help <command>`'' @ [10]
     @ lit ''  -V, --version                     show the version'' @ [10, 10]
     @ lit ''`anago join --export qr|conf` registers a phone; `anago sync'' @ [10]
     @ lit ''--install-timer` schedules the check. Later milestones: `anago ping`'' @ [10]
     @ lit ''and `anago server status` (M3).'' @ [10])"

definition cli_help :: "rstr option \<Rightarrow> rstr" where
  "cli_help topic =
    (if topic = Some (lit ''server'') \<or> topic = Some (lit ''init'') then help_init
     else if topic = Some (lit ''renew'') then help_renew
     else if topic = Some (lit ''join'') then help_join
     else if topic = Some (lit ''sync'') then help_sync
     else if topic = Some (lit ''code'') then help_code
     else if topic = Some (lit ''ls'') then help_ls
     else if topic = Some (lit ''rm'') then help_rm
     else help_all)"

end
