(* ===== verification/CloudflareFacts.thy ===== *)
theory CloudflareFacts
  imports Cloudflare
begin

text \<open>
  What the Cloudflare calls do, by the requests they send. The other side is any function of the requests
  so far: the state of the hub is their list, so each statement is about what was sent and in which order,
  whatever was answered.
\<close>

section \<open>Requests that were sent\<close>

type_synonym answers = "client_request list \<Rightarrow> client_request \<Rightarrow> client_error + client_response"

definition recorded :: "answers \<Rightarrow> client_request \<Rightarrow> client_request list
    \<Rightarrow> (client_error + client_response) \<times> client_request list" where
  "recorded answer request sent = (answer sent request, sent @ [request])"

lemma rp_api_send:
  assumes "de_send env = recorded answer"
  shows "rp env (api_send request)
    (\<lambda>response s'. answer (si_hub s) request = Inr response \<and> si_hub s' = si_hub s @ [request]
      \<and> si_err s' = si_err s)
    (\<lambda>_ s'. (\<exists>e. answer (si_hub s) request = Inl e) \<and> si_hub s' = si_hub s @ [request] \<and> si_err s' = si_err s) s"
  by (cases "answer (si_hub s) request")
    (simp_all add: api_send_def rp_map_err rp_def ask_def assms recorded_def)

text \<open>A step that reads an answer and sends nothing.\<close>

lemma rp_lift_plain:
  "rp env (run_lift r) (\<lambda>x s'. r = Inr x \<and> s' = s) (\<lambda>e s'. r = Inl e \<and> s' = s) s"
  by (cases r) (simp_all add: rp_simps)

section \<open>Names\<close>

lemma ascii_lower_twice: "map ascii_lower (map ascii_lower s) = map ascii_lower s"
  by simp

lemma dns_name_Inr:
  "dns_name name = Inr n \<Longrightarrow> n \<noteq> [] \<and> ascii_only n \<and> n = cf_fold_name name"
  by (auto simp: dns_name_def cf_fold_name_def Let_def ascii_only_def ascii_lower_def is_upper_def split: if_splits)

lemma zone_candidates_Inr:
  assumes "zone_candidates domain = Inr cs"
  obtains labels where "labels = split_on 46 (cf_fold_name domain)" "2 \<le> length labels" "[] \<notin> set labels"
    "cs = map (\<lambda>start. join_with [46] (drop start labels)) [0..<length labels - 1]"
  using assms
  by (auto simp: zone_candidates_def attempt_eq_Inr Let_def split: if_splits dest!: dns_name_Inr)

section \<open>The zone\<close>

definition zone_request :: "header_value \<Rightarrow> rstr \<Rightarrow> client_request" where
  "zone_request authorization candidate = api_request Get (zones_query candidate) None authorization"

text \<open>The zones of the name that an answer lists.\<close>

definition zones_named :: "serde \<Rightarrow> client_error + client_response \<Rightarrow> rstr \<Rightarrow> zone list option" where
  "zones_named j answered candidate =
    (case answered of
       Inl _ \<Rightarrow> None
     | Inr response \<Rightarrow>
        (case parse_zones j (cr_status response) (cr_body response) of
           Inl _ \<Rightarrow> None
         | Inr zones \<Rightarrow> Some (filter (\<lambda>z. eq_ignore_case (zn_name z) candidate) zones)))"

lemma pick_Some:
  "pick zones c = Inr (Some z) \<longleftrightarrow> filter (\<lambda>z. eq_ignore_case (zn_name z) c) zones = [z] \<and> zn_status z = lit ''active''"
  by (cases "filter (\<lambda>z. eq_ignore_case (zn_name z) c) zones") (auto simp: pick_def Let_def)

lemma pick_None: "pick zones c = Inr None \<longleftrightarrow> filter (\<lambda>z. eq_ignore_case (zn_name z) c) zones = []"
  by (cases "filter (\<lambda>z. eq_ignore_case (zn_name z) c) zones") (auto simp: pick_def Let_def)

text \<open>The candidates before the one that was found were asked for and held no zone.\<close>

fun walked :: "serde \<Rightarrow> answers \<Rightarrow> header_value \<Rightarrow> client_request list \<Rightarrow> rstr list \<Rightarrow> bool" where
  "walked j answer auth sent [] \<longleftrightarrow> True"
| "walked j answer auth sent (c # cs) \<longleftrightarrow>
     zones_named j (answer sent (zone_request auth c)) c = Some []
     \<and> walked j answer auth (sent @ [zone_request auth c]) cs"

definition zone_found_at ::
  "serde \<Rightarrow> answers \<Rightarrow> header_value \<Rightarrow> client_request list \<Rightarrow> rstr list \<Rightarrow> zone \<Rightarrow> client_request list \<Rightarrow> bool" where
  "zone_found_at j answer auth sent cs z sent' \<longleftrightarrow>
    (\<exists>before c after. cs = before @ c # after \<and> walked j answer auth sent before
      \<and> zones_named j (answer (sent @ map (zone_request auth) before) (zone_request auth c)) c = Some [z]
      \<and> zn_status z = lit ''active''
      \<and> sent' = sent @ map (zone_request auth) (before @ [c]))"

lemma rp_walk_candidates:
  assumes env: "de_send env = recorded answer"
  shows "rp env (walk_candidates j auth cs)
    (\<lambda>found s'. case found of
        Some z \<Rightarrow> zone_found_at j answer auth (si_hub s) cs z (si_hub s')
      | None \<Rightarrow> walked j answer auth (si_hub s) cs \<and> si_hub s' = si_hub s @ map (zone_request auth) cs)
    (\<lambda>_ s'. \<exists>n. si_hub s' = si_hub s @ map (zone_request auth) (take n cs)) s"
proof (induction cs arbitrary: s)
  case Nil
  then show ?case by (simp add: rp_simps)
next
  case (Cons c cs)
  show ?case
    unfolding walk_candidates.simps rp_bind cf_get_def zone_request_def [symmetric]
  proof (rule rp_mono [OF rp_api_send [OF env]], goal_cases)
    case (1 response s1)
    let ?r = "attempt (parse_zones j (cr_status response) (cr_body response)) (\<lambda>zones. pick zones c)"
    show ?case
    proof (rule rp_mono [OF rp_lift_plain], goal_cases)
      case (1 found s2)
      from 1 have found: "?r = Inr found" and s2: "s2 = s1" by simp_all
      then obtain zones where zones: "parse_zones j (cr_status response) (cr_body response) = Inr zones"
        and picked: "pick zones c = Inr found"
        by (auto simp: attempt_eq_Inr)
      have sent: "answer (si_hub s) (zone_request auth c) = Inr response" "si_hub s1 = si_hub s @ [zone_request auth c]"
        using \<open>answer (si_hub s) (zone_request auth c) = Inr response \<and> _\<close> by simp_all
      show ?case
      proof (cases found)
        case None
        with picked have none: "zones_named j (answer (si_hub s) (zone_request auth c)) c = Some []"
          by (simp add: zones_named_def sent zones pick_None)
        show ?thesis
          unfolding None option.case s2
        proof (rule rp_mono [OF Cons.IH], goal_cases)
          case (1 found' s3)
          then show ?case
          proof (cases found')
            case (Some z)
            with 1 obtain before c' after where f: "cs = before @ c' # after"
              "walked j answer auth (si_hub s1) before"
              "zones_named j (answer (si_hub s1 @ map (zone_request auth) before) (zone_request auth c')) c' = Some [z]"
              "zn_status z = lit ''active''" "si_hub s3 = si_hub s1 @ map (zone_request auth) (before @ [c'])"
              by (auto simp: zone_found_at_def)
            have "zone_found_at j answer auth (si_hub s) (c # cs) z (si_hub s3)"
              unfolding zone_found_at_def
              by (rule exI [of _ "c # before"], rule exI [of _ c'], rule exI [of _ after]) (use f none sent in simp)
            then show ?thesis by (simp add: Some)
          qed (use none sent in simp)
        next
          case (2 e s3)
          then obtain n where "si_hub s3 = si_hub s1 @ map (zone_request auth) (take n cs)" by blast
          then show ?case by (intro exI [of _ "Suc n"]) (simp add: sent)
        qed
      next
        case (Some z)
        with picked sent zones show ?thesis
          by (auto simp: rp_simps s2 zone_found_at_def zones_named_def pick_Some
              intro!: exI [of _ "[] :: rstr list"] exI [of _ c] exI [of _ cs])
      qed
    next
      case (2 e s2)
      with 1 show ?case by (intro exI [of _ 1]) simp
    qed
  next
    case (2 e s1)
    then show ?case by (intro exI [of _ 1]) simp
  qed
qed

text \<open>
  The zone that is used is the most specific one that exists: the names are asked for from the whole name
  upwards, each one before it held no zone, and the zone is the only one of its name and active.
\<close>

lemma rp_find_zone:
  assumes env: "de_send env = recorded answer"
  shows "rp env (find_zone j token domain)
    (\<lambda>z s'. \<exists>auth cs. token_header token = Inr auth \<and> zone_candidates domain = Inr cs
      \<and> zone_found_at j answer auth (si_hub s) cs z (si_hub s'))
    (\<lambda>e s'. si_hub s' = si_hub s \<or> (\<exists>auth cs n. zone_candidates domain = Inr cs
      \<and> si_hub s' = si_hub s @ map (zone_request auth) (take n cs))) s"
  unfolding find_zone_def rp_bind
proof (rule rp_mono [OF rp_lift_plain], goal_cases)
  case (1 cs s1)
  then have cs: "zone_candidates domain = Inr cs" and s1: "s1 = s" by simp_all
  show ?case
    unfolding authorized_def s1
  proof (rule rp_mono [OF rp_lift_plain], goal_cases)
    case (1 auth s2)
    then have auth: "token_header token = Inr auth" and s2: "s2 = s" by (simp_all add: map_err_eq_Inr)
    show ?case
      unfolding s2
    proof (rule rp_mono [OF rp_walk_candidates [OF env]], goal_cases)
      case (1 found s3)
      then show ?case
      proof (cases found)
        case None
        with 1 cs have "si_hub s3 = si_hub s @ map (zone_request auth) (take (length cs) cs)" by simp
        then show ?thesis using cs None by (simp only: option.case rp_throw) blast
      qed (use cs auth in \<open>auto simp: rp_simps\<close>)
    qed (use cs in blast)
  qed simp
qed simp

section \<open>The A record\<close>

definition list_request :: "header_value \<Rightarrow> rstr \<Rightarrow> rstr \<Rightarrow> client_request" where
  "list_request auth zone_id name = api_request Get (records_query zone_id name) None auth"

definition create_request :: "serde \<Rightarrow> header_value \<Rightarrow> rstr \<Rightarrow> rstr \<Rightarrow> ipv4 \<Rightarrow> client_request" where
  "create_request j auth zone_id name desired =
    api_request Post (records_path zone_id) (Some (create_body j name desired)) auth"

definition update_request :: "serde \<Rightarrow> header_value \<Rightarrow> rstr \<Rightarrow> rstr \<Rightarrow> ipv4 \<Rightarrow> client_request" where
  "update_request j auth zone_id record_id desired =
    api_request Patch (record_path zone_id record_id) (Some (update_body j desired)) auth"

definition record_delete_request :: "header_value \<Rightarrow> rstr \<Rightarrow> rstr \<Rightarrow> client_request" where
  "record_delete_request auth zone_id record_id = api_request Delete (record_path zone_id record_id) None auth"

text \<open>The records that an answer to the listing holds.\<close>

definition listed_as :: "serde \<Rightarrow> rstr \<Rightarrow> client_error + client_response \<Rightarrow> dns_record list \<Rightarrow> bool" where
  "listed_as j name answered records \<longleftrightarrow>
    (\<exists>response. answered = Inr response \<and> parse_records j (cr_status response) (cr_body response) name = Inr records)"

lemma rp_list_records:
  assumes "de_send env = recorded answer"
  shows "rp env (list_records j auth zone_id name)
    (\<lambda>records s'. listed_as j name (answer (si_hub s) (list_request auth zone_id name)) records
      \<and> si_hub s' = si_hub s @ [list_request auth zone_id name] \<and> si_err s' = si_err s)
    (\<lambda>_ s'. si_hub s' = si_hub s @ [list_request auth zone_id name] \<and> si_err s' = si_err s) s"
  unfolding list_records_def rp_bind cf_get_def list_request_def [symmetric]
  by (rule rp_mono [OF rp_api_send [OF assms]])
    (auto simp: rp_simps listed_as_def split: sum.split)

lemma rp_write_record:
  assumes "de_send env = recorded answer"
  shows "rp env (write_record j auth method target body)
    (\<lambda>_ s'. si_hub s' = si_hub s @ [api_request method target (Some body) auth] \<and> si_err s' = si_err s)
    (\<lambda>_ s'. si_hub s' = si_hub s @ [api_request method target (Some body) auth] \<and> si_err s' = si_err s) s"
  unfolding write_record_def rp_bind
  by (rule rp_mono [OF rp_api_send [OF assms]]) (auto simp: rp_simps split: sum.split)

text \<open>What a decision asks for.\<close>

fun decided_requests :: "serde \<Rightarrow> header_value \<Rightarrow> rstr \<Rightarrow> rstr \<Rightarrow> ipv4 \<Rightarrow> upsert \<Rightarrow> client_request list" where
  "decided_requests j auth zone_id name desired Create = [create_request j auth zone_id name desired]"
| "decided_requests j auth zone_id name desired (Update i adopted) = [update_request j auth zone_id i desired]"
| "decided_requests j auth zone_id name desired (Unchanged i) = []"
| "decided_requests j auth zone_id name desired (Refuse r) = []"

fun did_as_decided :: "upsert \<Rightarrow> cf_applied \<Rightarrow> bool" where
  "did_as_decided Create a \<longleftrightarrow> (\<exists>i. a = Created i)"
| "did_as_decided (Update i adopted) a \<longleftrightarrow> (\<exists>i'. a = Updated i' adopted)"
| "did_as_decided (Unchanged i) a \<longleftrightarrow> a = LeftAlone i"
| "did_as_decided (Refuse r) a \<longleftrightarrow> False"

text \<open>
  The listing comes before anything is written, whatever id was remembered, and what is written is what
  the decision on that listing asks for, once.
\<close>

lemma rp_apply_record:
  assumes env: "de_send env = recorded answer"
  shows "rp env (apply_record j token zone_id name desired cached_id)
    (\<lambda>w s'. \<exists>auth n records. token_header token = Inr auth \<and> dns_name name = Inr n
      \<and> listed_as j n (answer (si_hub s) (list_request auth zone_id n)) records
      \<and> si_hub s' = si_hub s @ list_request auth zone_id n
          # decided_requests j auth zone_id n desired (dns_decide records desired cached_id)
      \<and> did_as_decided (dns_decide records desired cached_id) (wr_applied w))
    (\<lambda>e s'. si_hub s' = si_hub s \<or> (\<exists>auth n. token_header token = Inr auth \<and> dns_name name = Inr n
      \<and> (si_hub s' = si_hub s @ [list_request auth zone_id n]
        \<or> (\<exists>records. listed_as j n (answer (si_hub s) (list_request auth zone_id n)) records
          \<and> si_hub s' = si_hub s @ list_request auth zone_id n
              # decided_requests j auth zone_id n desired (dns_decide records desired cached_id))))) s"
  unfolding apply_record_def rp_bind
proof (rule rp_mono [OF rp_lift_plain], goal_cases)
  case (1 n s1)
  then have n: "dns_name name = Inr n" and s1: "s1 = s" by simp_all
  show ?case
    unfolding authorized_def s1
  proof (rule rp_mono [OF rp_lift_plain], goal_cases)
    case (1 auth s2)
    then have auth: "token_header token = Inr auth" and s2: "s2 = s" by (simp_all add: map_err_eq_Inr)
    show ?case
      unfolding s2
    proof (rule rp_mono [OF rp_list_records [OF env]], goal_cases)
      case (1 records s3)
      then have listed: "listed_as j n (answer (si_hub s) (list_request auth zone_id n)) records"
        and s3: "si_hub s3 = si_hub s @ [list_request auth zone_id n]" by simp_all
      note writes = rp_write_record [OF env, where j = j and auth = auth and s = s3]
      show ?case
      proof (cases "dns_decide records desired cached_id")
        case Create
        show ?thesis
          unfolding rp_env Create upsert.case rp_bind
          by (rule rp_mono [OF writes]) (use n auth listed s3 Create in \<open>auto simp: rp_simps create_request_def\<close>)
      next
        case (Update i adopted)
        show ?thesis
          unfolding rp_env Update upsert.case rp_bind
          by (rule rp_mono [OF writes]) (use n auth listed s3 Update in \<open>auto simp: rp_simps update_request_def\<close>)
      qed (use n auth listed s3 in \<open>auto simp: rp_simps\<close>)
    qed (use n auth in auto)
  qed simp
qed simp

section \<open>The challenge record\<close>

lemma pieces_word:
  "\<forall>c \<in> set w. \<not> is_ws c \<Longrightarrow> pieces part (w @ s) = pieces (rev w @ part) s"
  by (induction w arbitrary: part) simp_all

lemma split_whitespace_word:
  assumes "\<forall>c \<in> set w. \<not> is_ws c" "w \<noteq> []" "is_ws c"
  shows "split_whitespace (w @ c # s) = w # split_whitespace s"
  using assms by (simp add: split_whitespace_def pieces_word)

lemma split_whitespace_last:
  assumes "\<forall>c \<in> set w. \<not> is_ws c" "w \<noteq> []"
  shows "split_whitespace w = [w]"
  using assms pieces_word [of w "[]" "[]"] by (simp add: split_whitespace_def)

lemma dec_nat_no_ws: "\<forall>c \<in> set (dec_nat n). \<not> is_ws c"
  using is_digit_not_ws by (auto dest: dec_nat_digit)

lemma show_int_no_ws: "\<forall>c \<in> set (show_int n). \<not> is_ws c"
  using dec_nat_no_ws by (auto simp: show_int_def is_ws_def)

definition plain_word :: "rstr \<Rightarrow> bool" where
  "plain_word w \<longleftrightarrow> w \<noteq> [] \<and> (\<forall>c \<in> set w. \<not> is_ws c)"

lemma split_five:
  assumes "plain_word a" "plain_word b" "plain_word c" "plain_word d" "plain_word e"
  shows "split_whitespace (a @ 32 # b @ 32 # c @ 32 # d @ 32 # e) = [a, b, c, d, e]"
  using assms by (simp add: plain_word_def split_whitespace_word split_whitespace_last is_ws_def [of 32])

text \<open>The time in a comment is read back, so the age of a record is the one it has.\<close>

lemma written_at_comment:
  assumes "in_i64 now"
  shows "written_at (challenge_comment pid now) = Some now"
proof -
  have e: "challenge_comment pid now = lit ''anago'' @ 32 # lit ''DNS-01'' @ 32 # lit ''challenge'' @ 32
      # (lit ''at='' @ show_int now) @ 32 # (lit ''pid='' @ dec_nat pid)"
    by (simp add: challenge_comment_def CHALLENGE_MARKER_def lit_Cons)
  have "split_whitespace (challenge_comment pid now) =
      [lit ''anago'', lit ''DNS-01'', lit ''challenge'', lit ''at='' @ show_int now, lit ''pid='' @ dec_nat pid]"
    unfolding e
  proof (rule split_five)
    show "plain_word (lit ''at='' @ show_int now)" "plain_word (lit ''pid='' @ dec_nat pid)"
      using show_int_no_ws dec_nat_no_ws by (auto simp: plain_word_def lit_Cons is_ws_def)
  qed (simp_all add: plain_word_def lit_Cons is_ws_def)
  then have "find_map (strip_prefix (lit ''at='')) (split_whitespace (challenge_comment pid now)) = Some (show_int now)"
    by (simp add: strip_prefix_def lit_Cons)
  moreover have "strip_prefix CHALLENGE_MARKER (challenge_comment pid now) \<noteq> None"
    by (simp add: challenge_comment_def strip_prefix_def)
  ultimately show ?thesis
    using assms by (simp add: written_at_def)
qed

text \<open>What a sweep removes carries the marker of anago and a time that is more than the lifetime ago.\<close>

lemma sat_above: "600 < sat n \<Longrightarrow> 600 < n"
  by (auto simp: sat_def i64_min_def i64_max_def split: if_splits)

lemma stale_is_old_and_ours:
  assumes "r \<in> set (stale_challenges records now)"
  shows "r \<in> set records \<and> is_txt r
    \<and> (\<exists>c t. dr_comment r = Some c \<and> strip_prefix CHALLENGE_MARKER c \<noteq> None \<and> written_at c = Some t \<and> t + 600 < now)"
proof -
  from assms have r: "r \<in> set records" "is_txt r" "past_lifetime r now"
    by (simp_all add: stale_challenges_def)
  from r(3) obtain c t where c: "dr_comment r = Some c" "written_at c = Some t" "600 < sat_sub now t"
    by (auto simp: past_lifetime_def bind_eq_Some_conv CHALLENGE_LIFETIME_SECS_def split: option.splits)
  from c(3) have "600 < now - t"
    unfolding sat_sub_def by (rule sat_above)
  moreover from c(2) have "strip_prefix CHALLENGE_MARKER c \<noteq> None"
    by (simp add: written_at_def split: if_splits)
  ultimately show ?thesis
    using r c by auto
qed

lemma live_challenge_kept:
  assumes "dr_comment r = Some (challenge_comment pid t)" "in_i64 t" "now \<le> t + 600"
  shows "r \<notin> set (stale_challenges records now)"
  using stale_is_old_and_ours [of r records now] assms written_at_comment [of t pid] by auto

definition gone_by :: "serde \<Rightarrow> client_error + client_response \<Rightarrow> bool" where
  "gone_by j answered \<longleftrightarrow>
    (\<exists>response. answered = Inr response \<and> parse_delete j (cr_status response) (cr_body response) = Inr ())"

lemma rp_delete_record:
  assumes "de_send env = recorded answer"
  shows "rp env (delete_record j auth zone_id i)
    (\<lambda>_ s'. gone_by j (answer (si_hub s) (record_delete_request auth zone_id i))
      \<and> si_hub s' = si_hub s @ [record_delete_request auth zone_id i] \<and> si_err s' = si_err s)
    (\<lambda>_ s'. \<not> gone_by j (answer (si_hub s) (record_delete_request auth zone_id i))
      \<and> si_hub s' = si_hub s @ [record_delete_request auth zone_id i] \<and> si_err s' = si_err s) s"
  unfolding delete_record_def rp_bind record_delete_request_def [symmetric]
  by (rule rp_mono [OF rp_api_send [OF assms]]) (auto simp: rp_simps gone_by_def split: sum.split)

abbreviation sweep_requests :: "header_value \<Rightarrow> rstr \<Rightarrow> dns_record list \<Rightarrow> client_request list" where
  "sweep_requests auth zone_id records \<equiv> map (\<lambda>r. record_delete_request auth zone_id (dr_id r)) records"

lemma rp_sweep:
  assumes env: "de_send env = recorded answer"
  shows "rp env (sweep j auth zone_id rs)
    (\<lambda>_ s'. si_hub s' = si_hub s @ sweep_requests auth zone_id rs)
    (\<lambda>_ s'. \<exists>k \<le> length rs. si_hub s' = si_hub s @ take k (sweep_requests auth zone_id rs)) s"
proof (induction rs arbitrary: s)
  case Nil
  then show ?case by (simp add: rp_simps)
next
  case (Cons r rs)
  show ?case
    unfolding sweep.simps rp_then
  proof (rule rp_mono [OF rp_delete_record [OF env]], goal_cases)
    case (1 x s1)
    then have sent: "si_hub s1 = si_hub s @ [record_delete_request auth zone_id (dr_id r)]" by simp
    show ?case
    proof (rule rp_mono [OF Cons.IH], goal_cases)
      case (2 e s2)
      then obtain k where "k \<le> length rs" "si_hub s2 = si_hub s1 @ take k (sweep_requests auth zone_id rs)" by blast
      then show ?case by (intro exI [of _ "Suc k"]) (simp add: sent)
    qed (simp add: sent)
  next
    case (2 e s1)
    then show ?case by (intro exI [of _ 1]) simp
  qed
qed

definition txt_request :: "serde \<Rightarrow> header_value \<Rightarrow> rstr \<Rightarrow> nat \<Rightarrow> rstr \<Rightarrow> rstr \<Rightarrow> int \<Rightarrow> client_request" where
  "txt_request j auth zone_id pid name v now =
    api_request Post (records_path zone_id) (Some (txt_body j pid name v now)) auth"

text \<open>
  Publishing lists the name, removes what is stale on it and adds one record: the requests are these, in
  this order, or a first part of them when a call failed.
\<close>

definition publish_requests ::
  "serde \<Rightarrow> header_value \<Rightarrow> rstr \<Rightarrow> nat \<Rightarrow> rstr \<Rightarrow> rstr \<Rightarrow> int \<Rightarrow> dns_record list \<Rightarrow> client_request list" where
  "publish_requests j auth zone_id pid n v now records =
    list_request auth zone_id n # sweep_requests auth zone_id (stale_challenges records now)
      @ [txt_request j auth zone_id pid n v now]"

lemma rp_challenge_publish:
  assumes env: "de_send env = recorded answer"
  shows "rp env (challenge_publish j token zone_id domain v now)
    (\<lambda>ch s'. \<exists>auth n records. token_header token = Inr auth \<and> challenge_name domain = Inr n
      \<and> listed_as j n (answer (si_hub s) (list_request auth zone_id n)) records
      \<and> si_hub s' = si_hub s @ publish_requests j auth zone_id (se_pid (de_sys env)) n v now records
      \<and> ch_zone_id ch = zone_id \<and> ch_name ch = n \<and> ch_token ch = token \<and> ch_record_id ch \<noteq> None)
    (\<lambda>e s'. si_hub s' = si_hub s \<or> (\<exists>auth n. token_header token = Inr auth \<and> challenge_name domain = Inr n
      \<and> (si_hub s' = si_hub s @ [list_request auth zone_id n]
        \<or> (\<exists>records k. listed_as j n (answer (si_hub s) (list_request auth zone_id n)) records
          \<and> si_hub s' = si_hub s @ take k (publish_requests j auth zone_id (se_pid (de_sys env)) n v now records))))) s"
  unfolding challenge_publish_def rp_bind
proof (rule rp_mono [OF rp_lift_plain], goal_cases)
  case (1 n s1)
  then have n: "challenge_name domain = Inr n" and s1: "s1 = s" by simp_all
  show ?case
    unfolding authorized_def s1
  proof (rule rp_mono [OF rp_lift_plain], goal_cases)
    case (1 auth s2)
    then have auth: "token_header token = Inr auth" and s2: "s2 = s" by (simp_all add: map_err_eq_Inr)
    show ?case
      unfolding s2
    proof (rule rp_mono [OF rp_list_records [OF env]], goal_cases)
      case (1 records s3)
      then have listed: "listed_as j n (answer (si_hub s) (list_request auth zone_id n)) records"
        and s3: "si_hub s3 = si_hub s @ [list_request auth zone_id n]" by simp_all
      let ?all = "publish_requests j auth zone_id (se_pid (de_sys env)) n v now records"
      show ?case
        unfolding rp_then
      proof (rule rp_mono [OF rp_sweep [OF env]], goal_cases)
        case (1 x s4)
        then have s4: "si_hub s4 @ [txt_request j auth zone_id (se_pid (de_sys env)) n v now] = si_hub s @ ?all"
          by (simp add: s3 publish_requests_def)
        show ?case
          unfolding rp_bind rp_env
        proof (rule rp_mono [OF rp_write_record [OF env]], goal_cases)
          case (1 created s5)
          then show ?case
            using n auth listed s4 by (auto simp: rp_simps txt_request_def)
        next
          case (2 e s5)
          then have "si_hub s5 = si_hub s @ take (length ?all) ?all"
            using s4 by (simp add: txt_request_def)
          then show ?case using n auth listed by blast
        qed
      next
        case (2 e s4)
        then obtain k where "k \<le> length (stale_challenges records now)"
          "si_hub s4 = si_hub s3 @ take k (sweep_requests auth zone_id (stale_challenges records now))" by blast
        then have "si_hub s4 = si_hub s @ take (Suc k) ?all"
          by (simp add: s3 publish_requests_def)
        then show ?case using n auth listed by blast
      qed
    qed (use n auth in auto)
  qed simp
qed simp

text \<open>
  The way out: a removal that worked was one delete of the guarded record. After one that failed the guard
  tried again, and when that failed too the record is named on standard error.
\<close>

lemma rp_take_out:
  assumes env: "de_send env = recorded answer"
  shows "rp env (take_out j ch i)
    (\<lambda>_ s'. \<exists>auth. token_header (ch_token ch) = Inr auth \<and> gone_by j (answer (si_hub s) (record_delete_request auth (ch_zone_id ch) i))
      \<and> si_hub s' = si_hub s @ [record_delete_request auth (ch_zone_id ch) i] \<and> si_err s' = si_err s)
    (\<lambda>_ s'. si_err s' = si_err s \<and> (si_hub s' = si_hub s \<or>
      (\<exists>auth. token_header (ch_token ch) = Inr auth
        \<and> si_hub s' = si_hub s @ [record_delete_request auth (ch_zone_id ch) i]))) s"
  unfolding take_out_def rp_bind authorized_def
proof (rule rp_mono [OF rp_lift_plain], goal_cases)
  case (1 auth s1)
  then have auth: "token_header (ch_token ch) = Inr auth" "s1 = s" by (simp_all add: map_err_eq_Inr)
  show ?case
    unfolding auth(2) by (rule rp_mono [OF rp_delete_record [OF env]]) (use auth(1) in auto)
qed simp

lemma rp_challenge_drop:
  assumes env: "de_send env = recorded answer" and i: "ch_record_id ch = Some i"
  shows "rp env (challenge_drop j ch)
    (\<lambda>_ s'. (si_hub s' = si_hub s \<or> (\<exists>auth. si_hub s' = si_hub s @ [record_delete_request auth (ch_zone_id ch) i]))
      \<and> ((\<exists>auth. gone_by j (answer (si_hub s) (record_delete_request auth (ch_zone_id ch) i)) \<and> si_err s' = si_err s)
        \<or> (\<exists>e. si_err s' = si_err s @ [left_behind (se_unicode (de_sys env)) (ch_name ch) i e])))
    R s"
  unfolding challenge_drop_def i option.case rp_bind rp_catch
proof (rule rp_mono [OF rp_take_out [OF env, of j ch i s]], goal_cases)
  case (2 e s1)
  then show ?case
    by (auto simp: rp_simps rp_def put_err_def run_bind_def run_env_def)
qed (auto simp: rp_simps)

lemma drop_disarmed: "challenge_drop j (ch\<lparr>ch_record_id := None\<rparr>) = run_return ()"
  by (simp add: challenge_drop_def)

lemma rp_challenge_remove:
  assumes env: "de_send env = recorded answer" and i: "ch_record_id ch = Some i"
  shows "rp env (challenge_remove j ch)
    (\<lambda>_ s'. \<exists>auth. gone_by j (answer (si_hub s) (record_delete_request auth (ch_zone_id ch) i))
      \<and> si_hub s' = si_hub s @ [record_delete_request auth (ch_zone_id ch) i] \<and> si_err s' = si_err s)
    (\<lambda>_ s'. (\<exists>auth sent. gone_by j (answer sent (record_delete_request auth (ch_zone_id ch) i)) \<and> si_err s' = si_err s)
      \<or> (\<exists>e. si_err s' = si_err s @ [left_behind (se_unicode (de_sys env)) (ch_name ch) i e])) s"
  unfolding challenge_remove_def i option.case rp_bind rp_catch
proof (rule rp_mono [OF rp_take_out [OF env, of j ch i s]], goal_cases)
  case (1 x s1)
  then obtain auth where "gone_by j (answer (si_hub s) (record_delete_request auth (ch_zone_id ch) i))"
    "si_hub s1 = si_hub s @ [record_delete_request auth (ch_zone_id ch) i]" "si_err s1 = si_err s" by blast
  then show ?case
    by (simp add: settle_def rp_then drop_disarmed rp_return rp_lift) blast
next
  case (2 e s1)
  then have err: "si_err s1 = si_err s" by simp
  show ?case
    unfolding settle_def sum.case rp_then
  proof (rule rp_mono [OF rp_challenge_drop [OF env i, where R = "\<lambda>_ _. False"]], goal_cases)
    case (1 x s2)
    then show ?case unfolding rp_lift sum.case err by blast
  qed simp
qed

end
