(* ===== verification/CliFacts.thy ===== *)
theory CliFacts
  imports Cli CloudflareFacts Api
begin

text \<open>
  What a command line that is accepted guarantees to the code that runs it, and that the line \<open>anago code\<close>
  prints is one that joins the hub it was printed on, at the default port.
\<close>

section \<open>Accepted commands\<close>

definition domain_text :: "rstr \<Rightarrow> bool" where
  "domain_text d \<longleftrightarrow> 46 \<in> set d \<and> 47 \<notin> set d \<and> 58 \<notin> set d \<and> (\<forall>c \<in> set d. \<not> is_ws c)"

definition token_text :: "cf_token \<Rightarrow> bool" where
  "token_text t \<longleftrightarrow> ct_value t \<noteq> [] \<and> (\<forall>c \<in> set (ct_value t). \<not> is_ws c \<and> \<not> is_control c)
    \<and> ct_source t = FlagSource"

text \<open>The certificate: a pair of files and no flag of ACME, or no file and an address for the CA.\<close>

definition init_certificate_ok :: "server_init_args \<Rightarrow> bool" where
  "init_certificate_ok a \<longleftrightarrow>
    (si_tls_cert a \<noteq> None \<and> si_tls_key a \<noteq> None \<and> si_acme_email a = None \<and> \<not> si_acme_staging a
      \<and> si_acme_challenge a = None)
    \<or> (si_tls_cert a = None \<and> si_tls_key a = None \<and> (\<exists>e. si_acme_email a = Some e \<and> trim e \<noteq> []))"

fun command_ok :: "unicode \<Rightarrow> command \<Rightarrow> bool" where
  "command_ok u (ServerInit a) \<longleftrightarrow>
     domain_text (si_domain a) \<and> subnet_ok (si_subnet a) \<and> si_listen_port a \<noteq> 0 \<and> si_api_port a \<noteq> 0
     \<and> (si_cf_token a = None \<or> si_cf_token_file a = None)
     \<and> (\<forall>t. si_cf_token a = Some t \<longrightarrow> token_text t)
     \<and> init_certificate_ok a"
| "command_ok u (ServerRenew a) \<longleftrightarrow>
     (sr_cf_token a = None \<or> sr_cf_token_file a = None)
     \<and> (\<forall>t. sr_cf_token a = Some t \<longrightarrow> token_text t)
     \<and> (sr_dns_only a \<longrightarrow> \<not> sr_force a \<and> sr_ca a = None \<and> sr_acme_email a = None \<and> sr_acme_challenge a = None)"
| "command_ok u (SyncCommand a) \<longleftrightarrow>
     (\<forall>p. sy_config a = Some p \<longrightarrow> path_is_absolute p)
     \<and> (\<forall>i. sy_timer a = Some (InstallTimer i) \<longrightarrow> MIN_INTERVAL \<le> i \<and> i \<le> MAX_INTERVAL)
     \<and> (sy_timer a \<noteq> None \<longrightarrow> \<not> sy_quiet a) \<and> (sy_timer a = Some UninstallTimer \<longrightarrow> sy_config a = None)"
| "command_ok u (JoinCommand a) \<longleftrightarrow>
     domain_text (jn_domain a) \<and> code_ok (jn_code a) \<and> jn_api_port a \<noteq> 0
     \<and> (\<forall>n. jn_name a = Some n \<longrightarrow> name_ok u n) \<and> (jn_export a \<noteq> None \<longrightarrow> jn_name a \<noteq> None)"
| "command_ok u (RmCommand n) \<longleftrightarrow> name_ok u n"
| "command_ok u _ \<longleftrightarrow> True"

lemma cli_domain_Inr: "cli_domain t = Inr d \<Longrightarrow> d = t \<and> domain_text d"
  by (auto simp: cli_domain_def domain_text_def split: if_splits)

lemma parse_unsigned_u16: "parse_unsigned 65535 t = Some n \<Longrightarrow> n \<le> 65535"
  by (auto simp: parse_unsigned_def Let_def split: if_splits list.splits)

lemma cli_port_Inr: "cli_port u p name d = Inr q \<Longrightarrow> d \<noteq> 0 \<Longrightarrow> q \<noteq> 0"
proof -
  have small: "(of_nat n :: 16 word) \<noteq> 0" if "n \<le> 65535" "n \<noteq> 0" for n
    using that by (auto simp: word_of_nat_eq_0_iff dest: dvd_imp_le)
  assume "cli_port u p name d = Inr q" "d \<noteq> 0"
  then show ?thesis
    using small by (auto simp: cli_port_def split: option.splits if_splits dest: parse_unsigned_u16)
qed

lemma cli_port_zero: "d \<noteq> 0 \<Longrightarrow> cli_port u p name d \<noteq> Inr 0"
  using cli_port_Inr by blast

lemma cf_token_parse_Inr:
  "cf_token_parse t s = Inr k \<Longrightarrow> ct_value k = trim t \<and> ct_value k \<noteq> [] \<and> ct_source k = s
    \<and> (\<forall>c \<in> set (ct_value k). \<not> is_ws c \<and> \<not> is_control c)"
  by (auto simp: cf_token_parse_def Let_def split: if_splits)

lemma cli_token_Inr: "cli_token p = Inr (Some t) \<Longrightarrow> token_text t"
  by (auto simp: cli_token_def map_err_eq_Inr attempt_eq_Inr token_text_def split: option.splits dest!: cf_token_parse_Inr)

lemma choose_source_Inr: "choose_token f t e = Inr r \<Longrightarrow> f = None \<or> t = None"
  by (auto simp: choose_token_def split: option.splits)

lemma cli_config_Inr: "cli_config u p = Inr (Some t) \<Longrightarrow> path_is_absolute t"
  by (auto simp: cli_config_def split: option.splits if_splits)

lemma cli_config_None: "cli_config u p = Inr c \<Longrightarrow> \<not> is_set p ''config'' \<Longrightarrow> c = None"
  by (force simp: cli_config_def arg_value_def is_set_def bind_eq_Some_conv split: option.splits if_splits
      dest!: find_Some_set)

lemma cli_interval_Inr: "cli_interval u p = Inr i \<Longrightarrow> MIN_INTERVAL \<le> i \<and> i \<le> MAX_INTERVAL"
  by (auto simp: cli_interval_def attempt_eq_Inr ok_or_eq_Inr Let_def MIN_INTERVAL_def MAX_INTERVAL_def
      DEFAULT_INTERVAL_def SECOND_def split: option.splits if_splits prod.splits)

text \<open>What holds of the flags when the plan stands, or fails only for a token that may come later.\<close>

lemma plan_certificate:
  assumes "acme_plan ca r = Inr x \<or> acme_plan ca r = Inl Dns01WithoutToken"
  shows "(pr_tls_cert r \<noteq> None \<and> pr_tls_key r \<noteq> None \<and> pr_acme_email r = None \<and> \<not> pr_staging r \<and> pr_challenge r = None)
    \<or> (pr_tls_cert r = None \<and> pr_tls_key r = None \<and> (\<exists>e. pr_acme_email r = Some e \<and> trim e \<noteq> []))"
  using assms
  by (auto simp: acme_plan_def acme_flags_def split: option.splits if_splits)

lemma check_combination_Inr:
  assumes "check_combination ca a = Inr v"
  shows "(si_cf_token a = None \<or> si_cf_token_file a = None) \<and> init_certificate_ok a"
proof -
  let ?r = "\<lambda>token. \<lparr>pr_tls_cert = si_tls_cert a, pr_tls_key = si_tls_key a, pr_acme_email = si_acme_email a,
           pr_staging = si_acme_staging a, pr_challenge = si_acme_challenge a, pr_token = token\<rparr>"
  from assms obtain token where t: "choose_token (si_cf_token_file a) (map_option ct_value (si_cf_token a)) None = Inr token"
    and c: "(case acme_plan ca (?r token) of Inr _ \<Rightarrow> Inr ()
        | Inl e \<Rightarrow> if e = Dns01WithoutToken then Inr () else Inl (PlanFailed e)) = Inr v"
    unfolding check_combination_def attempt_eq_Inr map_err_eq_Inr by blast
  then obtain x where "acme_plan ca (?r token) = Inr x \<or> acme_plan ca (?r token) = Inl Dns01WithoutToken"
    by (cases "acme_plan ca (?r token)") (auto split: if_splits)
  then have "init_certificate_ok a"
    using plan_certificate [of ca "?r token" x] by (simp add: init_certificate_ok_def)
  with choose_source_Inr [OF t] show ?thesis by auto
qed

lemmas cli_results = attempt_eq_Inr map_err_eq_Inr ok_or_eq_Inr

lemma server_init_ok: "cli_server_init u ca argv = Inr c \<Longrightarrow> command_ok u c"
  by (auto simp: cli_server_init_def cli_results Let_def DEFAULT_LISTEN_PORT_def DEFAULT_API_PORT_def cli_port_zero
      dest!: cli_domain_Inr check_combination_Inr subnet_parse_ok dest: cli_token_Inr)

lemma server_renew_ok: "cli_server_renew u argv = Inr c \<Longrightarrow> command_ok u c"
  by (auto simp: cli_server_renew_def cli_results Let_def mixed_flags_def
      split: if_splits list.splits bool.splits dest!: choose_source_Inr dest: cli_token_Inr)

lemma sync_ok: "cli_sync u argv = Inr c \<Longrightarrow> command_ok u c"
  by (auto simp: cli_sync_def cli_results split: if_splits bool.splits
      dest: cli_interval_Inr cli_config_Inr cli_config_None)

lemma join_name_of_Inr:
  assumes "unicode_laws u" "join_name_of u p export = Inr name"
  shows "(\<forall>n. name = Some n \<longrightarrow> name_ok u n) \<and> (export \<noteq> None \<longrightarrow> name \<noteq> None)"
  using assms by (auto simp: join_name_of_def cli_results split: option.splits if_splits intro: device_name_parse_ok)

lemma join_ok:
  assumes "unicode_laws u" "cli_join u argv = Inr c"
  shows "command_ok u c"
  using assms(2)
  by (auto simp: cli_join_def cli_results DEFAULT_API_PORT_def cli_port_zero
      dest!: cli_domain_Inr code_text.parse_ok join_name_of_Inr [OF assms(1)])

lemma rm_ok: "unicode_laws u \<Longrightarrow> cli_rm u argv = Inr c \<Longrightarrow> command_ok u c"
  by (auto simp: cli_rm_def cli_results intro: device_name_parse_ok)

lemma help_ok: "help_or_version argv = Some c \<Longrightarrow> command_ok u c"
proof -
  have scan: "help_scan topic wants argv = Inl c \<Longrightarrow> c = VersionCommand" for topic wants
    by (induction topic wants argv rule: help_scan.induct) (auto split: if_splits)
  assume "help_or_version argv = Some c"
  then show ?thesis
    by (auto simp: help_or_version_def split: sum.splits if_splits dest: scan)
qed

lemma no_args_ok: "no_args k name argv = Inr c \<Longrightarrow> c = k"
  by (auto simp: no_args_def cli_results split: if_splits)

lemma server_run_ok: "cli_server_run argv = Inr c \<Longrightarrow> command_ok u c"
  by (auto simp: cli_server_run_def cli_results split: if_splits)

lemma server_ok: "cli_server u ca argv = Inr c \<Longrightarrow> command_ok u c"
  by (auto simp: cli_server_def split: list.splits if_splits
      dest: server_init_ok server_renew_ok intro: server_run_ok)

lemma cli_parse_ok:
  assumes "unicode_laws u" "cli_parse u ca argv = Inr c"
  shows "command_ok u c"
proof (cases "help_or_version argv")
  case (Some k)
  with assms(2) show ?thesis by (simp add: cli_parse_def help_ok)
next
  case None
  show ?thesis
    using assms(2) unfolding cli_parse_def None option.case Let_def
    by (auto split: if_splits dest: server_ok sync_ok no_args_ok intro: join_ok [OF assms(1)] rm_ok [OF assms(1)])
qed

section \<open>The printed line\<close>

lemma contains_str_subset: "contains_str needle s \<Longrightarrow> set needle \<subseteq> set s"
proof (induction s)
  case (Cons c s)
  have "set (take n xs) \<subseteq> set xs" for n and xs :: rstr
    by (rule set_take_subset)
  with Cons show ?case
    by (metis (no_types, lifting) contains_str.simps(2) set_subset_Cons subset_trans)
qed simp

lemma cli_domain_text: "domain_text d \<Longrightarrow> cli_domain d = Inr d"
  using contains_str_subset [of "lit ''://''" d] by (auto simp: cli_domain_def domain_text_def lit_Cons)

lemma plain_arg:
  assumes "\<not> starts_dash arg"
  shows "arg \<noteq> lit ''--'' \<and> arg \<noteq> lit ''--version'' \<and> arg \<noteq> lit ''-V'' \<and> arg \<noteq> lit ''--help'' \<and> arg \<noteq> lit ''-h''"
  using assms by (auto simp: starts_dash_def lit_Cons)

lemma alphabet_alnum: "\<forall>x \<in> set ALPHABET. is_ascii_alnum x"
  by (simp add: alphabet_codes char_class_defs)

lemma code_str_plain:
  assumes "code_ok c"
  shows "\<not> starts_dash (code_str c)" "code_str c \<noteq> []" "\<forall>x \<in> set (code_str c). \<not> is_ws x"
    "last (code_str c) \<noteq> 13" "10 \<notin> set (code_str c)"
proof -
  from assms obtain t where t: "length t = 8" "set t \<subseteq> set ALPHABET" "c = JoinCode (hyphenate t)"
    by (auto simp: code_ok_def)
  then obtain a b where e: "hyphenate t = a @ 45 # b" "a @ b = t" "length a = 4"
    by (auto simp: hyphenate_def GROUP_LEN_def)
  have letters: "\<forall>x \<in> set t. is_ascii_alnum x"
    using t(2) alphabet_alnum by blast
  then have plain: "x \<noteq> 45 \<and> x \<noteq> 13 \<and> x \<noteq> 10 \<and> \<not> is_ws x" if "x \<in> set t" for x
    using that is_ascii_alnum_not_ws by (auto simp: char_class_defs)
  have parts: "a \<noteq> []" "b \<noteq> []" "set a \<subseteq> set t" "set b \<subseteq> set t"
    using e t(1) by auto
  have s: "code_str c = a @ 45 # b" using t(3) e(1) by simp
  show "\<not> starts_dash (code_str c)"
    using plain parts by (cases a) (auto simp: s starts_dash_def)
  show "code_str c \<noteq> []" by (simp add: s)
  show "\<forall>x \<in> set (code_str c). \<not> is_ws x" "10 \<notin> set (code_str c)"
    using plain parts by (auto simp: s is_ws_def [of 45])
  have last_letter: "last b \<in> set t" using last_in_set [OF parts(2)] parts(4) by blast
  show "last (code_str c) \<noteq> 13"
    using plain [OF last_letter] parts(2) by (simp add: s)
qed

text \<open>The line joins the hub of its domain with its code, at port 443: it names no port.\<close>

lemma join_line_parses:
  assumes d: "domain_text domain" "\<not> starts_dash domain" and c: "code_ok code"
  shows "cli_parse u ca [lit ''join'', domain, code_str code] =
    Inr (JoinCommand \<lparr>jn_domain = domain, jn_code = code, jn_name = None, jn_api_port = DEFAULT_API_PORT,
      jn_export = None\<rparr>)"
proof -
  have join: "\<not> starts_dash (lit ''join'')" by (simp add: starts_dash_def lit_Cons)
  have d': "domain \<noteq> []" using d by (auto simp: domain_text_def)
  have none: "help_or_version [lit ''join'', domain, code_str code] = None"
    using plain_arg [OF join] plain_arg [OF d(2)] plain_arg [OF code_str_plain(1) [OF c]]
    by (simp add: help_or_version_def)
  have args: "args_parse [domain, code_str code] join_spec =
      Inr \<lparr>pa_positionals = [domain, code_str code], pa_flags = []\<rparr>"
    using plain_arg [OF d(2)] plain_arg [OF code_str_plain(1) [OF c]] d(2) code_str_plain(1) [OF c]
    by (simp add: args_parse_def push_positional_def)
  show ?thesis
    unfolding cli_parse_def none option.case Let_def list.sel
    by (simp add: lit_inject cli_join_def args join_places_def join_name_of_def arg_value_def cli_export_def cli_out_def
        cli_port_def cli_domain_text [OF d(1)] code_text.parse_shown [OF c])
qed

lemma leading_ws: "is_ws c \<Longrightarrow> split_whitespace (c # s) = split_whitespace s"
  by (simp add: split_whitespace_def)

lemma third_line:
  assumes "10 \<notin> set a" "10 \<notin> set b" "last b \<noteq> 13"
  shows "lines (a @ 10 # 10 # b @ 10 # s) ! 2 = b"
proof -
  have "split_on 10 (a @ 10 # 10 # b @ 10 # s) = a # [] # b # split_on 10 s"
    using assms split_on_append [of 10 "[]" "b @ 10 # s"] by simp
  then show ?thesis
    using assms(3) by (simp add: lines_def Let_def strip_cr_def)
qed

lemma code_output_line:
  assumes d: "domain_text domain" and c: "code_ok code"
  shows "split_whitespace (lines (code_output domain code ttl) ! 2) = [lit ''anago'', lit ''join'', domain, code_str code]"
proof -
  let ?line = "lit ''     anago join '' @ domain @ lit '' '' @ code_str code"
  have "is_ws 10" by (simp add: is_ws_def)
  then have dl: "10 \<notin> set domain" using d by (auto simp: domain_text_def)
  have no: "10 \<notin> set ?line" "?line \<noteq> []" "last ?line \<noteq> 13"
    using dl code_str_plain(2,4,5) [OF c] by (simp_all add: lit_Cons)
  have e: "code_output domain code ttl = lit ''Run this on the device you are adding:'' @ 10 # 10 # ?line @ 10
      # 10 # (lit ''Single use, good for '' @ show_int (ttl sdiv 60) @ lit '' minutes.'' @ [10])"
    by (simp add: code_output_def)
  have "10 \<notin> set (lit ''Run this on the device you are adding:'')" by (simp add: lit_Cons)
  then have "lines (code_output domain code ttl) ! 2 = ?line"
    unfolding e using no by (intro third_line)
  moreover have "split_whitespace ?line = [lit ''anago'', lit ''join'', domain, code_str code]"
  proof -
    have space_ws: "is_ws 32" by (simp add: is_ws_def)
    have lead: "?line = 32 # 32 # 32 # 32 # 32 # (lit ''anago'' @ 32 # (lit ''join'' @ 32 # (domain @ 32 # code_str code)))"
      by (simp add: lit_Cons)
    have "split_whitespace ?line = split_whitespace (lit ''anago'' @ 32 # (lit ''join'' @ 32 # (domain @ 32 # code_str code)))"
      unfolding lead by (simp only: leading_ws space_ws)
    also have "\<dots> = [lit ''anago'', lit ''join'', domain, code_str code]"
    proof -
      have w: "plain_word (lit ''anago'')" "plain_word (lit ''join'')" "plain_word domain" "plain_word (code_str code)"
        using d code_str_plain [OF c] by (auto simp: plain_word_def lit_Cons is_ws_def [of 97] is_ws_def [of 110]
            is_ws_def [of 103] is_ws_def [of 111] is_ws_def [of 106] is_ws_def [of 105] domain_text_def)
      then show ?thesis
        by (simp add: plain_word_def split_whitespace_word split_whitespace_last is_ws_def [of 32])
    qed
    finally show ?thesis .
  qed
  ultimately show ?thesis by simp
qed

end
