(* ===== verification/RenewLoop.thy ===== *)
theory RenewLoop
  imports AcmePlan Render ServerState
begin

text \<open>
  The schedule of \<open>crates/anago/src/acme.rs\<close>: how long to wait after a failure, what a wait belongs to, what a
  tick of the renewal loop decides, and the loop itself as a function of what it reads, of what a renewal
  answers and of the clock. A length of time is a count of nanoseconds; \<open>as_secs\<close> divides.
\<close>

section \<open>How long\<close>

definition CHECK_EVERY :: nat where "CHECK_EVERY = 60 * 60 * SECOND"
definition RETRY_BASE :: nat where "RETRY_BASE = 15 * 60 * SECOND"
definition RETRY_CAP :: nat where "RETRY_CAP = 24 * 60 * 60 * SECOND"
definition RATE_LIMITED_FLOOR :: nat where "RATE_LIMITED_FLOOR = 60 * 60 * SECOND"

text \<open>\<open>Duration::checked_mul\<close>: a length of time holds its seconds as a \<open>u64\<close>.\<close>

definition checked_duration :: "nat \<Rightarrow> nat option" where
  "checked_duration d = (if d div SECOND < 2 ^ 64 then Some d else None)"

definition retry_delay :: "nat \<Rightarrow> nat" where
  "retry_delay failures =
    (let doublings = min (failures - 1) 16 in
     min (case checked_duration (RETRY_BASE * 2 ^ doublings) of Some d \<Rightarrow> d | None \<Rightarrow> RETRY_CAP) RETRY_CAP)"

definition ca_cooldown :: "failure_kind \<Rightarrow> nat option \<Rightarrow> nat" where
  "ca_cooldown kind retry_after =
    max (case kind of OrdinaryFailure \<Rightarrow> 0 | RateLimited \<Rightarrow> RATE_LIMITED_FLOOR)
      (case retry_after of None \<Rightarrow> 0 | Some d \<Rightarrow> d)"

definition next_attempt :: "nat \<Rightarrow> failure_kind \<Rightarrow> nat option \<Rightarrow> nat" where
  "next_attempt failures kind retry_after = max (retry_delay failures) (ca_cooldown kind retry_after)"

text \<open>\<open>as_secs() as i64\<close>: the cast of a \<open>u64\<close> wraps.\<close>

definition secs_i64 :: "nat \<Rightarrow> int" where
  "secs_i64 d = sint (of_nat (d div SECOND) :: 64 word)"

section \<open>What a failure is remembered as\<close>

record renewal_failure =
  rf_detail :: rstr
  rf_kind :: failure_kind
  rf_retry_after :: "nat option"

definition local_failure :: "rstr \<Rightarrow> renewal_failure" where
  "local_failure detail = \<lparr>rf_detail = detail, rf_kind = OrdinaryFailure, rf_retry_after = None\<rparr>"

definition busy_failure :: renewal_failure where
  "busy_failure = local_failure (lit ''another renewal is already running on this hub'')"

definition failure_of :: "acme_fail \<Rightarrow> renewal_failure" where
  "failure_of e =
    \<lparr>rf_detail = acme_fail_show e, rf_kind = classify (detail_of e), rf_retry_after = fail_retry_after e\<rparr>"

record attempt_scope =
  at_directory :: "rstr option"
  at_account :: "rstr option"
  at_issued_at :: "int option"

definition attempt_of :: "tls \<Rightarrow> attempt_scope" where
  "attempt_of t =
    (case tls_renewable t of
       Some acme \<Rightarrow> \<lparr>at_directory = Some (ac_directory acme), at_account = Some (ac_account_url acme),
         at_issued_at = Some (ac_issued_at acme)\<rparr>
     | None \<Rightarrow> \<lparr>at_directory = None, at_account = None, at_issued_at = None\<rparr>)"

record cooldown =
  cd_until :: int
  cd_directory :: "rstr option"

record renewals =
  rn_failures :: nat
  rn_not_before :: int
  rn_against :: "attempt_scope option"
  rn_cooldown :: "cooldown option"

definition renewals_new :: renewals where
  "renewals_new = \<lparr>rn_failures = 0, rn_not_before = 0, rn_against = None, rn_cooldown = None\<rparr>"

definition not_before :: "renewals \<Rightarrow> int" where
  "not_before r = max (rn_not_before r) (case rn_cooldown r of None \<Rightarrow> 0 | Some wait \<Rightarrow> cd_until wait)"

definition cooldown_after :: "int \<Rightarrow> failure_kind \<Rightarrow> nat option \<Rightarrow> attempt_scope option \<Rightarrow> cooldown option \<Rightarrow> cooldown option" where
  "cooldown_after now kind retry_after against standing =
    (let imposed = ca_cooldown kind retry_after in
     if imposed = 0 then standing
     else
       let ends = sat_add now (secs_i64 imposed) in
       case standing of
         Some existing \<Rightarrow>
           if ends \<le> cd_until existing then standing
           else Some \<lparr>cd_until = ends, cd_directory = Option.bind against at_directory\<rparr>
       | None \<Rightarrow> Some \<lparr>cd_until = ends, cd_directory = Option.bind against at_directory\<rparr>)"

definition record_failed :: "int \<Rightarrow> failure_kind \<Rightarrow> nat option \<Rightarrow> tls option \<Rightarrow> renewals \<Rightarrow> nat \<times> renewals" where
  "record_failed now kind retry_after against r =
    (let failures = min (rn_failures r + 1) 4294967295;
         scope = map_option attempt_of against;
         r' = \<lparr>rn_failures = failures,
               rn_not_before = sat_add now (secs_i64 (retry_delay failures)),
               rn_against = scope,
               rn_cooldown = cooldown_after now kind retry_after scope (rn_cooldown r)\<rparr>
     in (nat (max (sat_sub (not_before r') now) 0) * SECOND, r'))"

datatype forgotten = ForgotNothing | ForgotCertificate | ForgotScope

definition settings_changed :: "tls \<Rightarrow> renewals \<Rightarrow> forgotten \<times> renewals" where
  "settings_changed t r =
    (let now = attempt_of t;
         elsewhere = (case rn_cooldown r of
             None \<Rightarrow> False
           | Some wait \<Rightarrow>
              (case (cd_directory wait, at_directory now) of
                 (Some refused_at, Some directory) \<Rightarrow> directory \<noteq> refused_at
               | _ \<Rightarrow> False));
         r1 = (if elsewhere then r\<lparr>rn_cooldown := None\<rparr> else r)
     in case rn_against r of
          None \<Rightarrow> (ForgotNothing, r1)
        | Some against \<Rightarrow>
            if at_issued_at against \<noteq> at_issued_at now then
              (ForgotCertificate, r1\<lparr>rn_failures := 0, rn_not_before := 0, rn_against := None, rn_cooldown := None\<rparr>)
            else if at_directory against \<noteq> at_directory now \<or> at_account against \<noteq> at_account now then
              (ForgotScope, r1\<lparr>rn_failures := 0, rn_not_before := 0, rn_against := None\<rparr>)
            else (ForgotNothing, r1))"

section \<open>What a tick decides\<close>

datatype tick = TickRenew | TickNotDue int | TickWaiting int | TickNotOurs

definition tick :: "tls \<Rightarrow> int \<Rightarrow> renewals \<Rightarrow> tick" where
  "tick t now r =
    (case tls_renewal_due t RENEWAL_LEAD_SECS of
       None \<Rightarrow> TickNotOurs
     | Some due_at \<Rightarrow>
        if \<not> tls_needs_renewal t now RENEWAL_LEAD_SECS then TickNotDue due_at
        else if now < not_before r then TickWaiting (not_before r)
        else TickRenew)"

definition sleep_until :: "int \<Rightarrow> int \<Rightarrow> nat" where
  "sleep_until ends now = min (nat (max (sat_sub ends now) 1) * SECOND) CHECK_EVERY"

fun sleep_for :: "tick \<Rightarrow> int \<Rightarrow> nat" where
  "sleep_for TickRenew now = 0"
| "sleep_for TickNotOurs now = CHECK_EVERY"
| "sleep_for (TickNotDue due_at) now = sleep_until due_at now"
| "sleep_for (TickWaiting ends) now = sleep_until ends now"

section \<open>What is said\<close>

definition while_you_wait :: "int option \<Rightarrow> int \<Rightarrow> nat option \<Rightarrow> rstr" where
  "while_you_wait not_after now wait =
    (case not_after of
       None \<Rightarrow> lit ''anago could not read the expiry from the certificate on disk, so whether it outlasts ''
     @ lit ''that wait is worth checking by hand.''
     | Some not_after \<Rightarrow>
        let left = sat_sub not_after now in
        if left \<le> 0 then
          lit ''The certificate on disk expired '' @ format_ago (sat_sub now not_after)
          @ lit '', so the control API is untrusted already and stays that way until one arrives. ''
     @ lit ''Tunnels are not affected '' @ [0x2014] @ lit '' WireGuard uses no certificate ''
     @ [0x2014] @ lit '' but `join` and `sync` cannot reach the hub.''
        else
          (case map_option (\<lambda>w. min (int (w div SECOND)) i64_max) wait of
             Some waiting \<Rightarrow>
               if left \<le> waiting then
                 lit ''The certificate on disk expires '' @ format_in left
                 @ lit '', sooner than that '' @ [0x2014]
     @ lit '' the control API stops being trusted in the meantime. Tunnels are not affected ''
     @ [0x2014] @ lit '' WireGuard uses no certificate '' @ [0x2014]
     @ lit '' but `join` and `sync` cannot reach the hub until a certificate arrives.''
               else lit ''The certificate on disk keeps working until it expires '' @ format_in left @ lit '', so waiting costs nothing.''
           | None \<Rightarrow>
               lit ''The certificate on disk expires '' @ format_in left
               @ lit '', and the CA did not say how long its limit takes to refill '' @ [0x2014]
     @ lit '' which comes first is worth watching.''))"

datatype standing = NoCertificateYet | Serving "int option" int

definition rate_limit_advice :: "acme_fail \<Rightarrow> standing \<Rightarrow> rstr" where
  "rate_limit_advice e hub =
    (if classify (detail_of e) = OrdinaryFailure then []
     else case hub of
       NoCertificateYet \<Rightarrow> ([10]
     @ lit ''--acme-staging orders from a CA with its own separate limits, and nothing here has a ''
     @ lit ''certificate yet to lose '' @ [0x2014]
     @ lit '' that is where to check the wiring while this one refills.'')
     | Serving not_after now \<Rightarrow>
         [10] @ while_you_wait not_after now (fail_retry_after e) @ ([10]
     @ lit ''Not --acme-staging: that flag is a different CA, a different CA re-issues, and ''
     @ lit ''nothing trusts a staging certificate '' @ [0x2014]
     @ lit '' it would replace what is on disk with one `join` refuses.''))"

definition waiting_line :: "nat \<Rightarrow> nat \<Rightarrow> failure_kind \<Rightarrow> int option \<Rightarrow> int \<Rightarrow> rstr" where
  "waiting_line delay failures kind not_after now =
    (case kind of
       RateLimited \<Rightarrow> lit ''the CA is rate limiting this hub, so the next attempt is in about '' @ about_wait delay
     | OrdinaryFailure \<Rightarrow> lit ''attempt '' @ dec_nat failures @ lit '' '' @ [0x2014] @ lit '' the next one is in about '' @ about_wait delay)
    @ lit ''. '' @ while_you_wait not_after now (Some delay)"

section \<open>What a renewal writes into the state\<close>

record renewed =
  nw_certificate_path :: rstr
  nw_key_path :: rstr
  nw_zone_id :: "rstr option"
  nw_account_url :: rstr
  nw_not_after :: "int option"
  nw_warnings :: "rstr list"

definition record_zone :: "rstr option \<Rightarrow> cloudflare option \<Rightarrow> cloudflare option" where
  "record_zone zone_id cf =
    (case (zone_id, cf) of
       (Some z, Some c) \<Rightarrow> Some (if cf_zone_id c \<noteq> z then c\<lparr>cf_zone_id := z, cf_record_id := None\<rparr> else c)
     | _ \<Rightarrow> cf)"

definition record_renewed :: "renewed \<Rightarrow> int \<Rightarrow> server_state \<Rightarrow> server_state" where
  "record_renewed n now st =
    (let t = (st_tls st)\<lparr>tls_not_after := nw_not_after n, tls_cert_path := nw_certificate_path n,
               tls_key_path := nw_key_path n\<rparr>;
         t' = (case tls_renewable_mut (\<lambda>acme. acme_issued now (nw_not_after n) (acme\<lparr>ac_account_url := nw_account_url n\<rparr>)) t of
                 None \<Rightarrow> t | Some changed \<Rightarrow> changed)
     in st\<lparr>st_tls := t', st_cloudflare := record_zone (nw_zone_id n) (st_cloudflare st)\<rparr>)"

section \<open>The loop\<close>

text \<open>
  One round: the time at its start, what the state file gave, what a renewal answers if one is started, and
  the time after it. The loop keeps two schedules, one for renewals and one for a state file that cannot be
  read.
\<close>

record round =
  ro_at :: int
  ro_read :: "rstr + tls"
  ro_renew :: "renewal_failure + unit"
  ro_then :: int

record loop_state =
  lp_renewals :: renewals
  lp_unreadable :: renewals

definition loop_start :: loop_state where
  "loop_start = \<lparr>lp_renewals = renewals_new, lp_unreadable = renewals_new\<rparr>"

text \<open>What one round did: the certificate it showed to the listener, whether it renewed, its lines and its sleep.\<close>

record did =
  di_refreshed :: "tls option"
  di_step :: tick
  di_lines :: "rstr list"
  di_sleep :: nat

fun forgotten_lines :: "forgotten \<Rightarrow> rstr list" where
  "forgotten_lines ForgotNothing = []"
| "forgotten_lines ForgotCertificate =
     [lit ''anago: a new certificate arrived from elsewhere '' @ [0x2014]
     @ lit '' the renewal schedule starts over'']"
| "forgotten_lines ForgotScope =
     [lit ''anago: this hub has a different ACME account now '' @ [0x2014]
     @ lit '' the renewal schedule starts over'']"

text \<open>The first half of a round: read, compare the settings, decide.\<close>

definition loop_look :: "round \<Rightarrow> loop_state \<Rightarrow> tick \<times> tls option \<times> rstr list \<times> loop_state" where
  "loop_look ro s =
    (case ro_read ro of
       Inr t \<Rightarrow>
         (case settings_changed t (lp_renewals s) of (what, r) \<Rightarrow>
            (tick t (ro_at ro) r, Some t, forgotten_lines what,
             \<lparr>lp_renewals = r, lp_unreadable = renewals_new\<rparr>))
     | Inl detail \<Rightarrow>
         (case record_failed (ro_at ro) OrdinaryFailure None None (lp_unreadable s) of (delay, un) \<Rightarrow>
            (TickWaiting (not_before un), None,
             [lit ''anago: the state file could not be read, so the certificate cannot be checked: '' @ detail,
              lit ''       '' @ waiting_line delay (rn_failures un) OrdinaryFailure None (ro_at ro)],
             s\<lparr>lp_unreadable := un\<rparr>)))"

definition loop_round :: "round \<Rightarrow> loop_state \<Rightarrow> did \<times> loop_state" where
  "loop_round ro s =
    (case loop_look ro s of (what, current, said, s1) \<Rightarrow>
     if what = TickRenew then
       (case ro_renew ro of
          Inr _ \<Rightarrow>
            (\<lparr>di_refreshed = current, di_step = what, di_lines = said, di_sleep = 0\<rparr>,
             s1\<lparr>lp_renewals := renewals_new\<rparr>)
        | Inl failure \<Rightarrow>
            (case record_failed (ro_then ro) (rf_kind failure) (rf_retry_after failure) current (lp_renewals s1) of
               (delay, r) \<Rightarrow>
                 (\<lparr>di_refreshed = current, di_step = what,
                   di_lines = said
                     @ [lit ''anago: renewal failed: '' @ rf_detail failure,
                        lit ''       '' @ waiting_line delay (rn_failures r) (rf_kind failure)
                          (Option.bind current tls_not_after) (ro_at ro)],
                   di_sleep = sleep_for what (ro_at ro)\<rparr>,
                  s1\<lparr>lp_renewals := r\<rparr>)))
     else (\<lparr>di_refreshed = current, di_step = what, di_lines = said, di_sleep = sleep_for what (ro_at ro)\<rparr>, s1))"

fun loop_run :: "round list \<Rightarrow> loop_state \<Rightarrow> did list \<times> loop_state" where
  "loop_run [] s = ([], s)"
| "loop_run (ro # ros) s =
    (case loop_round ro s of (d, s1) \<Rightarrow> case loop_run ros s1 of (ds, s2) \<Rightarrow> (d # ds, s2))"

end
