(* ===== verification/RenewFacts.thy ===== *)
theory RenewFacts
  imports RenewLoop
begin

text \<open>
  What the schedule promises: a failure never brings the next attempt forward, what the CA asked to be
  waited is waited whatever else changes on the hub, the loop never sleeps past the next look, and a
  renewal changes nothing of the state but the certificate and where its zone is.
\<close>

section \<open>The arithmetic\<close>

lemma SECOND_pos: "0 < SECOND"
  by (simp add: SECOND_def)

lemma retry_delay_closed: "retry_delay n = min (900 * 2 ^ min (n - 1) 16) 86400 * SECOND"
proof -
  have "900 * 2 ^ min (n - 1) 16 < (2 :: nat) ^ 64"
  proof -
    have "(2 :: nat) ^ min (n - 1) 16 \<le> 2 ^ 16" by (rule power_increasing) simp_all
    then show ?thesis by simp
  qed
  moreover have "RETRY_BASE * 2 ^ k div SECOND = 900 * 2 ^ k" for k
    by (simp add: RETRY_BASE_def SECOND_def)
  ultimately have "checked_duration (RETRY_BASE * 2 ^ min (n - 1) 16) = Some (RETRY_BASE * 2 ^ min (n - 1) 16)"
    by (simp add: checked_duration_def)
  then show ?thesis
    by (simp add: retry_delay_def Let_def RETRY_BASE_def RETRY_CAP_def SECOND_def min_def)
qed

lemma retry_delay_secs: "retry_delay n div SECOND = min (900 * 2 ^ min (n - 1) 16) 86400"
  using SECOND_pos by (simp add: retry_delay_closed)

lemma retry_delay_range: "900 \<le> retry_delay n div SECOND" "retry_delay n div SECOND \<le> 86400"
  by (simp_all add: retry_delay_secs)

lemma retry_delay_mono: "m \<le> n \<Longrightarrow> retry_delay m \<le> retry_delay n"
  unfolding retry_delay_closed
  by (intro mult_le_mono min.mono power_increasing order_refl) auto

lemma secs_i64_small: "d div SECOND < 2 ^ 63 \<Longrightarrow> secs_i64 d = int (d div SECOND)"
  by (simp add: secs_i64_def sint_uint uint_nat unat_of_nat signed_take_bit_int_eq_self)

lemma retry_secs [simp]: "secs_i64 (retry_delay n) = int (min (900 * 2 ^ min (n - 1) 16) 86400)"
  using retry_delay_range(2) [of n] by (subst secs_i64_small) (simp_all add: retry_delay_secs)

text \<open>A clock that is not near the end of an \<open>i64\<close>.\<close>

definition renewal_clock_ok :: "int \<Rightarrow> bool" where
  "renewal_clock_ok now \<longleftrightarrow> 0 \<le> now \<and> now < 2 ^ 62"

definition wait_ok :: "nat \<Rightarrow> bool" where
  "wait_ok d \<longleftrightarrow> d div SECOND < 2 ^ 62"

lemma add_clock:
  assumes "renewal_clock_ok now" "0 \<le> s" "s < 2 ^ 62"
  shows "sat_add now s = now + s"
  using assms by (simp add: renewal_clock_ok_def sat_add_def sat_def i64_min_def i64_max_def)

section \<open>A failure\<close>

lemma not_before_ge: "rn_not_before r \<le> not_before r" "rn_cooldown r = Some w \<Longrightarrow> cd_until w \<le> not_before r"
  by (simp_all add: not_before_def)

lemma cooldown_after_ge:
  assumes now: "renewal_clock_ok now" and d: "wait_ok (ca_cooldown kind ra)"
  shows "(\<forall>w. standing = Some w \<longrightarrow> (\<exists>w'. cooldown_after now kind ra scope standing = Some w' \<and> cd_until w \<le> cd_until w'))
    \<and> (ca_cooldown kind ra \<noteq> 0 \<longrightarrow> (\<exists>w'. cooldown_after now kind ra scope standing = Some w'
        \<and> now + int (ca_cooldown kind ra div SECOND) \<le> cd_until w'
        \<and> (standing = None \<or> (\<exists>w. standing = Some w \<and> w' = w) \<or> cd_directory w' = Option.bind scope at_directory)
        \<and> (standing = None \<longrightarrow> cd_directory w' = Option.bind scope at_directory)))"
proof -
  have "sat_add now (secs_i64 (ca_cooldown kind ra)) = now + int (ca_cooldown kind ra div SECOND)"
    using d by (subst secs_i64_small) (auto simp: wait_ok_def intro!: add_clock [OF now])
  note ends = this
  show ?thesis
    by (cases standing; cases "ca_cooldown kind ra = 0") (simp_all add: cooldown_after_def Let_def ends)
qed

lemma record_failed_delay:
  "record_failed now kind ra t r = (delay, r') \<Longrightarrow> delay = nat (max (sat_sub (not_before r') now) 0) * SECOND"
  by (simp only: record_failed_def Let_def prod.inject) (elim conjE, hypsubst, rule refl)

lemma record_failed_waits:
  assumes f: "record_failed now kind ra t r = (delay, r')" and now: "renewal_clock_ok now" and d: "wait_ok (ca_cooldown kind ra)"
  shows "now + int (retry_delay (rn_failures r') div SECOND) \<le> not_before r'
    \<and> now + int (ca_cooldown kind ra div SECOND) \<le> not_before r'
    \<and> (\<forall>w. rn_cooldown r = Some w \<longrightarrow> cd_until w \<le> not_before r')
    \<and> rn_failures r' = min (rn_failures r + 1) 4294967295
    \<and> rn_against r' = map_option attempt_of t"
proof -
  from f have r': "rn_failures r' = min (rn_failures r + 1) 4294967295"
    "rn_not_before r' = sat_add now (secs_i64 (retry_delay (rn_failures r')))"
    "rn_against r' = map_option attempt_of t"
    "rn_cooldown r' = cooldown_after now kind ra (map_option attempt_of t) (rn_cooldown r)"
    by (auto simp: record_failed_def Let_def)
  have own: "rn_not_before r' = now + int (retry_delay (rn_failures r') div SECOND)"
    using retry_delay_range(2) [of "rn_failures r'"]
    by (subst r'(2), subst add_clock [OF now]) (simp_all add: retry_delay_secs)
  note ge = cooldown_after_ge [OF now d, of "rn_cooldown r" "map_option attempt_of t"]
  have "now + int (ca_cooldown kind ra div SECOND) \<le> not_before r'"
  proof (cases "ca_cooldown kind ra = 0")
    case True
    then show ?thesis using own not_before_ge(1) [of r'] by simp
  next
    case False
    with ge r'(4) obtain w' where "rn_cooldown r' = Some w'" "now + int (ca_cooldown kind ra div SECOND) \<le> cd_until w'"
      by auto
    then show ?thesis using not_before_ge(2) [of r' w'] by linarith
  qed
  moreover have "cd_until w \<le> not_before r'" if w: "rn_cooldown r = Some w" for w
  proof -
    from ge w r'(4) obtain w' where "rn_cooldown r' = Some w'" "cd_until w \<le> cd_until w'"
      by auto
    then show ?thesis using not_before_ge(2) [of r' w'] by linarith
  qed
  ultimately show ?thesis
    using r' own not_before_ge(1) [of r'] by simp
qed

section \<open>Waiting\<close>

text \<open>The certificate of the hub is still to come from the CA \<open>D\<close>, and none arrived since \<open>issued\<close>.\<close>

definition same_ca :: "rstr \<Rightarrow> int \<Rightarrow> round \<Rightarrow> bool" where
  "same_ca D issued ro \<longleftrightarrow>
    (case ro_read ro of
       Inl _ \<Rightarrow> True
     | Inr t \<Rightarrow> (\<exists>acme. tls_renewable t = Some acme \<and> ac_directory acme = D \<and> ac_issued_at acme = issued))"

text \<open>The wait of the CA, as the schedule holds it.\<close>

definition ca_wait :: "rstr \<Rightarrow> int \<Rightarrow> int \<Rightarrow> renewals \<Rightarrow> bool" where
  "ca_wait D issued ends r \<longleftrightarrow>
    (\<exists>w. rn_cooldown r = Some w \<and> ends \<le> cd_until w \<and> (cd_directory w = None \<or> cd_directory w = Some D))
    \<and> (\<forall>a. rn_against r = Some a \<longrightarrow> at_issued_at a = Some issued)"

lemma ca_wait_settings:
  assumes "ca_wait D issued ends r" "tls_renewable t = Some acme" "ac_directory acme = D" "ac_issued_at acme = issued"
  shows "ca_wait D issued ends (snd (settings_changed t r))"
  using assms
  by (auto simp: ca_wait_def settings_changed_def Let_def attempt_of_def split: option.splits)

lemma tick_waits: "ends \<le> not_before r \<Longrightarrow> now < ends \<Longrightarrow> tick t now r \<noteq> TickRenew"
  by (auto simp: tick_def split: option.split)

lemma ca_wait_not_before: "ca_wait D issued ends r \<Longrightarrow> ends \<le> not_before r"
  by (auto simp: ca_wait_def not_before_def)

lemma ca_wait_round:
  assumes "ca_wait D issued ends (lp_renewals s)" "same_ca D issued ro" "ro_at ro < ends"
    and "loop_round ro s = (d, s')"
  shows "ca_wait D issued ends (lp_renewals s') \<and> di_step d \<noteq> TickRenew"
proof (cases "ro_read ro")
  case (Inl detail)
  with assms(1,4) show ?thesis
    by (auto simp: loop_round_def loop_look_def split: prod.splits)
next
  case (Inr t)
  with assms(2) obtain acme where acme: "tls_renewable t = Some acme" "ac_directory acme = D" "ac_issued_at acme = issued"
    by (auto simp: same_ca_def)
  obtain what r where sc: "settings_changed t (lp_renewals s) = (what, r)" by force
  have "ca_wait D issued ends r"
    using ca_wait_settings [OF assms(1) acme] by (simp add: sc)
  moreover from this have "tick t (ro_at ro) r \<noteq> TickRenew"
    using assms(3) by (intro tick_waits [OF ca_wait_not_before])
  ultimately show ?thesis
    using assms(4) by (auto simp: loop_round_def loop_look_def Inr sc)
qed

lemma ca_wait_run:
  assumes "ca_wait D issued ends (lp_renewals s)" "\<forall>ro \<in> set ros. same_ca D issued ro \<and> ro_at ro < ends"
  shows "\<forall>d \<in> set (fst (loop_run ros s)). di_step d \<noteq> TickRenew"
  using assms
proof (induction ros arbitrary: s)
  case (Cons ro ros)
  obtain d s1 where r: "loop_round ro s = (d, s1)" by force
  obtain ds s2 where rs: "loop_run ros s1 = (ds, s2)" by force
  from ca_wait_round [OF Cons.prems(1) _ _ r] Cons.prems(2)
  have "ca_wait D issued ends (lp_renewals s1)" "di_step d \<noteq> TickRenew" by auto
  with Cons.IH [of s1] Cons.prems(2) show ?case by (simp add: r rs)
qed simp

text \<open>A round in which a renewal was refused.\<close>

definition refused :: "round \<Rightarrow> loop_state \<Rightarrow> renewal_failure \<Rightarrow> acme \<Rightarrow> bool" where
  "refused ro s f acme \<longleftrightarrow> di_step (fst (loop_round ro s)) = TickRenew \<and> ro_renew ro = Inl f
    \<and> (\<exists>t. ro_read ro = Inr t \<and> tls_renewable t = Some acme)"

lemma refused_round:
  assumes "refused ro s f acme"
  obtains t what r delay r' where "ro_read ro = Inr t" "tls_renewable t = Some acme"
    "settings_changed t (lp_renewals s) = (what, r)" "tick t (ro_at ro) r = TickRenew"
    "record_failed (ro_then ro) (rf_kind f) (rf_retry_after f) (Some t) r = (delay, r')"
    "lp_renewals (snd (loop_round ro s)) = r'"
proof -
  from assms obtain t where t: "ro_read ro = Inr t" "tls_renewable t = Some acme" by (auto simp: refused_def)
  obtain what r where sc: "settings_changed t (lp_renewals s) = (what, r)" by force
  obtain delay r' where rf: "record_failed (ro_then ro) (rf_kind f) (rf_retry_after f) (Some t) r = (delay, r')" by force
  have tk: "tick t (ro_at ro) r = TickRenew"
    using assms t by (auto simp: refused_def loop_round_def loop_look_def sc split: if_splits)
  have "lp_renewals (snd (loop_round ro s)) = r'"
    using assms t tk rf by (auto simp: refused_def loop_round_def loop_look_def sc)
  with t sc tk rf that show thesis by blast
qed

lemma settings_cooldown_directory:
  assumes "settings_changed t r = (what, r')" "tls_renewable t = Some acme" "rn_cooldown r' = Some w"
  shows "cd_directory w = None \<or> cd_directory w = Some (ac_directory acme)"
  using assms by (auto simp: settings_changed_def Let_def attempt_of_def split: option.splits if_splits)

text \<open>
  What the CA asked to be waited is waited: after a refusal with a wait there is no renewal before it ran
  out, as long as the CA stays the same and no certificate came from elsewhere. Another challenge, another
  account, another contact and a state file that cannot be read for a while change nothing about it.
\<close>

lemma wait_of_the_ca:
  assumes ref: "refused ro s f acme" and now: "renewal_clock_ok (ro_then ro)"
    and d: "wait_ok (ca_cooldown (rf_kind f) (rf_retry_after f))" "0 < ca_cooldown (rf_kind f) (rf_retry_after f)"
    and later: "\<forall>l \<in> set ros. same_ca (ac_directory acme) (ac_issued_at acme) l
      \<and> ro_at l < ro_then ro + int (ca_cooldown (rf_kind f) (rf_retry_after f) div SECOND)"
  shows "\<forall>d \<in> set (fst (loop_run ros (snd (loop_round ro s)))). di_step d \<noteq> TickRenew"
proof -
  from ref obtain t what r delay r' where t: "ro_read ro = Inr t" "tls_renewable t = Some acme"
    and sc: "settings_changed t (lp_renewals s) = (what, r)"
    and rf: "record_failed (ro_then ro) (rf_kind f) (rf_retry_after f) (Some t) r = (delay, r')"
    and s1: "lp_renewals (snd (loop_round ro s)) = r'"
    by (rule refused_round)
  let ?ends = "ro_then ro + int (ca_cooldown (rf_kind f) (rf_retry_after f) div SECOND)"
  have r': "rn_cooldown r' = cooldown_after (ro_then ro) (rf_kind f) (rf_retry_after f) (Some (attempt_of t)) (rn_cooldown r)"
    "rn_against r' = Some (attempt_of t)"
    using rf by (auto simp: record_failed_def Let_def)
  have dir: "at_directory (attempt_of t) = Some (ac_directory acme)" "at_issued_at (attempt_of t) = Some (ac_issued_at acme)"
    by (simp_all add: attempt_of_def t)
  from cooldown_after_ge [OF now d(1), of "rn_cooldown r" "Some (attempt_of t)"] d(2) obtain w' where
    w': "rn_cooldown r' = Some w'" "?ends \<le> cd_until w'"
      "rn_cooldown r = Some w' \<or> cd_directory w' = Some (ac_directory acme)"
    by (auto simp: r' dir)
  then have "ca_wait (ac_directory acme) (ac_issued_at acme) ?ends r'"
    using settings_cooldown_directory [OF sc t(2)] by (auto simp: ca_wait_def r' dir)
  then show ?thesis
    using ca_wait_run [of "ac_directory acme" "ac_issued_at acme" ?ends "snd (loop_round ro s)" ros] later by (simp add: s1)
qed

text \<open>
  The backoff belongs to the account, the CA and the certificate: while these stay, the next attempt is at
  least the delay of the failures so far away, a quarter of an hour after the first.
\<close>

definition own_wait :: "attempt_scope \<Rightarrow> int \<Rightarrow> renewals \<Rightarrow> bool" where
  "own_wait a ends r \<longleftrightarrow> rn_against r = Some a \<and> ends \<le> rn_not_before r"

lemma own_wait_settings:
  "own_wait (attempt_of t) ends r \<Longrightarrow> own_wait (attempt_of t) ends (snd (settings_changed t r))"
  by (auto simp: own_wait_def settings_changed_def Let_def)

lemma own_wait_round:
  assumes "own_wait a ends (lp_renewals s)" "\<forall>t. ro_read ro = Inr t \<longrightarrow> attempt_of t = a" "ro_at ro < ends"
    and "loop_round ro s = (d, s')"
  shows "own_wait a ends (lp_renewals s') \<and> di_step d \<noteq> TickRenew"
proof (cases "ro_read ro")
  case (Inl detail)
  with assms(1,4) show ?thesis
    by (auto simp: loop_round_def loop_look_def split: prod.splits)
next
  case (Inr t)
  with assms(2) have a: "attempt_of t = a" by simp
  obtain what r where sc: "settings_changed t (lp_renewals s) = (what, r)" by force
  have own: "own_wait a ends r"
    using own_wait_settings [of t ends "lp_renewals s"] assms(1) by (simp add: sc a)
  then have "ends \<le> not_before r" by (auto simp: own_wait_def not_before_def)
  then have "tick t (ro_at ro) r \<noteq> TickRenew"
    using assms(3) by (rule tick_waits)
  with own show ?thesis
    using assms(4) by (auto simp: loop_round_def loop_look_def Inr sc)
qed

lemma own_wait_run:
  assumes "own_wait a ends (lp_renewals s)"
    "\<forall>ro \<in> set ros. (\<forall>t. ro_read ro = Inr t \<longrightarrow> attempt_of t = a) \<and> ro_at ro < ends"
  shows "\<forall>d \<in> set (fst (loop_run ros s)). di_step d \<noteq> TickRenew"
  using assms
proof (induction ros arbitrary: s)
  case (Cons ro ros)
  obtain d s1 where r: "loop_round ro s = (d, s1)" by force
  obtain ds s2 where rs: "loop_run ros s1 = (ds, s2)" by force
  from own_wait_round [OF Cons.prems(1) _ _ r] Cons.prems(2)
  have "own_wait a ends (lp_renewals s1)" "di_step d \<noteq> TickRenew" by auto
  with Cons.IH [of s1] Cons.prems(2) show ?case by (simp add: r rs)
qed simp

lemma backoff_kept:
  assumes ref: "refused ro s f acme" and now: "renewal_clock_ok (ro_then ro)"
    and later: "\<forall>l \<in> set ros. (\<forall>t. ro_read l = Inr t \<longrightarrow> ro_read ro = Inr t' \<longrightarrow> attempt_of t = attempt_of t')
      \<and> ro_at l < ro_then ro + int (retry_delay (rn_failures (lp_renewals (snd (loop_round ro s)))) div SECOND)"
    and t': "ro_read ro = Inr t'"
  shows "\<forall>d \<in> set (fst (loop_run ros (snd (loop_round ro s)))). di_step d \<noteq> TickRenew"
proof -
  from ref obtain t what r delay r' where t: "ro_read ro = Inr t"
    and rf: "record_failed (ro_then ro) (rf_kind f) (rf_retry_after f) (Some t) r = (delay, r')"
    and s1: "lp_renewals (snd (loop_round ro s)) = r'"
    by (rule refused_round)
  have "rn_not_before r' = ro_then ro + int (retry_delay (rn_failures r') div SECOND)"
  proof -
    have "rn_not_before r' = sat_add (ro_then ro) (secs_i64 (retry_delay (rn_failures r')))"
      using rf by (auto simp: record_failed_def Let_def)
    also have "\<dots> = ro_then ro + int (retry_delay (rn_failures r') div SECOND)"
      using retry_delay_range(2) [of "rn_failures r'"] by (subst add_clock [OF now]) (simp_all add: retry_delay_secs)
    finally show ?thesis .
  qed
  moreover have "rn_against r' = Some (attempt_of t)"
    using rf by (auto simp: record_failed_def Let_def)
  ultimately have "own_wait (attempt_of t) (ro_then ro + int (retry_delay (rn_failures r') div SECOND)) r'"
    by (simp add: own_wait_def)
  then show ?thesis
    using own_wait_run [of "attempt_of t" _ "snd (loop_round ro s)" ros] later t t' by (auto simp: s1)
qed

section \<open>Sleeping\<close>

text \<open>The hub looks at least once an hour, never sleeps past what it waits for, and never spins.\<close>

lemma sleep_bounds:
  "sleep_for step now \<le> CHECK_EVERY" "step \<noteq> TickRenew \<Longrightarrow> SECOND \<le> sleep_for step now"
proof -
  have "1 * SECOND \<le> nat (max x 1) * SECOND" for x
    by (rule mult_le_mono1) simp
  then have "SECOND \<le> sleep_until x now" for x
    by (simp add: sleep_until_def CHECK_EVERY_def)
  then show "step \<noteq> TickRenew \<Longrightarrow> SECOND \<le> sleep_for step now"
    by (cases step) (simp_all add: CHECK_EVERY_def)
  show "sleep_for step now \<le> CHECK_EVERY"
    by (cases step) (simp_all add: sleep_until_def)
qed

lemma sleep_not_past:
  assumes "step = TickNotDue ends \<or> step = TickWaiting ends" "now < ends" "in_i64 now" "in_i64 ends"
  shows "now + int (sleep_for step now div SECOND) \<le> ends"
proof -
  have "sat_sub ends now \<le> ends - now"
    using assms(2-4) by (auto simp: sat_sub_def sat_def in_i64_def i64_min_def i64_max_def)
  moreover have "1 \<le> sat_sub ends now"
    using assms(2-4) by (auto simp: sat_sub_def sat_def in_i64_def i64_min_def i64_max_def)
  moreover have "min (nat (max (sat_sub ends now) 1) * SECOND) CHECK_EVERY div SECOND \<le> nat (sat_sub ends now)"
    using SECOND_pos calculation(2) by (auto simp: min_def max_def CHECK_EVERY_def dest: div_le_mono [of _ _ SECOND])
  ultimately show ?thesis
    using assms(1) by (auto simp: sleep_until_def)
qed

section \<open>What a renewal records\<close>

text \<open>The members, the codes, the keys and the network stay; the record id of another zone is forgotten.\<close>

lemma record_renewed_keeps:
  "st_domain (record_renewed n now st) = st_domain st"
  "st_subnet (record_renewed n now st) = st_subnet st"
  "st_listen_port (record_renewed n now st) = st_listen_port st"
  "st_api_port (record_renewed n now st) = st_api_port st"
  "st_server (record_renewed n now st) = st_server st"
  "st_peers (record_renewed n now st) = st_peers st"
  "st_codes (record_renewed n now st) = st_codes st"
  by (simp_all add: record_renewed_def Let_def)

lemma record_renewed_safe: "state_safe st \<Longrightarrow> state_safe (record_renewed n now st)"
  by (simp add: state_safe_def used_addresses_def record_renewed_keeps)

lemma record_zone_forgets:
  assumes "record_zone (Some z) (Some c) = Some c'"
  shows "cf_zone_id c' = z \<and> cf_token_path c' = cf_token_path c
    \<and> cf_record_id c' = (if cf_zone_id c = z then cf_record_id c else None)"
  using assms by (auto simp: record_zone_def split: if_splits)

text \<open>A renewal that was just recorded is not due at once.\<close>

lemma record_renewed_tls:
  assumes "tls_renewable (st_tls st) = Some acme"
  shows "tls_renewable (st_tls (record_renewed n now st)) =
    Some (acme_issued now (nw_not_after n) (acme\<lparr>ac_account_url := nw_account_url n\<rparr>))
    \<and> tls_not_after (st_tls (record_renewed n now st)) = nw_not_after n"
  using assms by (auto simp: record_renewed_def Let_def tls_renewable_def tls_renewable_mut_def split: tls_source.splits)

section \<open>A state file that cannot be read\<close>

text \<open>
  From the fourth failure in a row the line says that the next attempt is two hours and more away, while
  the loop looks again after an hour.
\<close>

lemma unreadable_looks_sooner:
  assumes r: "ro_read ro = Inl detail" and now: "renewal_clock_ok (ro_at ro)"
    and n: "3 \<le> rn_failures (lp_unreadable s)" and cd: "rn_cooldown (lp_unreadable s) = None"
    and round: "loop_round ro s = (d, s')"
  shows "di_sleep d = CHECK_EVERY \<and> (\<exists>delay. 2 * CHECK_EVERY \<le> delay
    \<and> di_lines d = [lit ''anago: the state file could not be read, so the certificate cannot be checked: '' @ detail,
        lit ''       '' @ waiting_line delay (rn_failures (lp_unreadable s')) OrdinaryFailure None (ro_at ro)])"
proof -
  obtain delay un where f: "record_failed (ro_at ro) OrdinaryFailure None None (lp_unreadable s) = (delay, un)" by force
  let ?n = "min (rn_failures (lp_unreadable s) + 1) 4294967295"
  let ?secs = "min (900 * 2 ^ min (?n - 1) 16) 86400 :: nat"
  have "rn_not_before un = sat_add (ro_at ro) (int ?secs)" "rn_cooldown un = None"
    using f cd by (auto simp: record_failed_def Let_def cooldown_after_def ca_cooldown_def)
  then have nb: "rn_not_before un = ro_at ro + int ?secs" "not_before un = max (ro_at ro + int ?secs) 0"
    using add_clock [OF now, of "int ?secs"] by (simp_all add: not_before_def)
  have "(2 :: nat) ^ 3 \<le> 2 ^ min (?n - 1) 16" using n by (intro power_increasing) auto
  then have secs: "7200 \<le> ?secs" by simp
  have sub: "sat_sub (not_before un) (ro_at ro) = int ?secs"
    using now by (simp add: nb renewal_clock_ok_def sat_sub_def sat_def i64_min_def i64_max_def)
  then have sub': "delay = ?secs * SECOND"
    using record_failed_delay [OF f] by simp
  have "di_sleep d = sleep_until (not_before un) (ro_at ro)"
    "di_lines d = [lit ''anago: the state file could not be read, so the certificate cannot be checked: '' @ detail,
        lit ''       '' @ waiting_line delay (rn_failures un) OrdinaryFailure None (ro_at ro)]"
    "lp_unreadable s' = un"
    using round by (auto simp: loop_round_def loop_look_def r f)
  moreover have "sleep_until (not_before un) (ro_at ro) = CHECK_EVERY"
    using secs by (simp add: sleep_until_def sub CHECK_EVERY_def SECOND_def)
  moreover have "2 * CHECK_EVERY \<le> delay"
    using secs by (simp add: sub' CHECK_EVERY_def SECOND_def)
  ultimately show ?thesis by auto
qed

end
