(* ===== verification/Units.thy ===== *)
theory Units
  imports WgApply HttpClient Paths
begin

text \<open>
  \<open>crates/anago/src/systemd.rs\<close> and \<open>crates/anago/src/launchd.rs\<close>: the texts of the units and of the
  property lists as functions of the paths they name, the paths they refuse, and the command lines that load
  and stop them. A path is its text here, so the refusal of a path that is not UTF-8 has no case to come from.
  The last part shows that what is written names one path only: no path ends its line, opens a second
  argument or reads as another one.
\<close>

section \<open>systemd\<close>

definition UNIT_NAME :: rstr where "UNIT_NAME = lit ''anago.service''"
definition UNIT_DIR :: path where "UNIT_DIR = lit ''/etc/systemd/system''"
definition SYNC_SERVICE :: rstr where "SYNC_SERVICE = lit ''anago-sync.service''"
definition SYNC_TIMER :: rstr where "SYNC_TIMER = lit ''anago-sync.timer''"
definition SYSTEMCTL :: rstr where "SYSTEMCTL = lit ''systemctl''"

definition unit_path :: "path \<Rightarrow> rstr \<Rightarrow> path" where
  "unit_path dir name = path_join dir name"

datatype unusable = NoDirectory path | NotBindable path | NotPrintable path | UnitNotText path

text \<open>
  \<open>str::escape_debug\<close> over a whole path, as both files show one in a message: after the first character
  one that extends a grapheme stays as it is.
\<close>

definition escape_next :: "unicode \<Rightarrow> rchar \<Rightarrow> rstr" where
  "escape_next u c = escape_debug (u\<lparr>u_extend := \<lambda>_. False\<rparr>) True True c"

definition shown_path :: "unicode \<Rightarrow> path \<Rightarrow> rstr" where
  "shown_path u p = (case p of [] \<Rightarrow> [] | c # s \<Rightarrow> escape_debug u True True c @ concat (map (escape_next u) s))"

fun unusable_show :: "unicode \<Rightarrow> unusable \<Rightarrow> rstr" where
  "unusable_show u (NoDirectory p) =
     shown_path u p
     @ (lit '' is not inside a directory a unit could open '' @ [0x2014]
     @ lit '' a file directly in / would mean handing the run the whole filesystem'')"
| "unusable_show u (NotBindable p) =
     shown_path u p
     @ (lit '' has a colon in it, and a bind mount reads a colon as source:destination ''
     @ [0x2014]
     @ lit '' systemd would drop the line and the sandbox would hide the path instead of bringing ''
     @ lit ''it in'')"
| "unusable_show u (NotPrintable p) =
     shown_path u p
     @ (lit '' has a control character in it, and a unit file is read one line at a time ''
     @ [0x2014] @ lit '' no quoting survives that'')"
| "unusable_show u (UnitNotText p) =
     shown_path u p
     @ (lit '' is not valid UTF-8, so a unit file could only name a different path than the one ''
     @ lit ''you meant'')"

text \<open>\<open>str::replace\<close> of one character.\<close>

definition replace_char :: "rchar \<Rightarrow> rstr \<Rightarrow> rstr \<Rightarrow> rstr" where
  "replace_char c by s = concat (map (\<lambda>x. if x = c then by else [x]) s)"

definition needs_quotes :: "rstr \<Rightarrow> bool" where
  "needs_quotes s \<longleftrightarrow> (\<exists>c \<in> set s. is_ws c \<or> c = 34 \<or> c = 92)"

definition unit_escape :: "path \<Rightarrow> unusable + rstr" where
  "unit_escape p =
    (if \<exists>c \<in> set p. is_control c then Inl (NotPrintable p)
     else
       let text = replace_char 37 [37, 37] p in
       if \<not> needs_quotes text then Inr text
       else Inr ([34] @ replace_char 34 [92, 34] (replace_char 92 [92, 92] text) @ [34]))"

definition unit_bind :: "path \<Rightarrow> unusable + rstr" where
  "unit_bind p =
    attempt (unit_escape p) (\<lambda>text.
      if 58 \<in> set text then Inl (NotBindable p) else Inr text)"

definition unit_text :: "path \<Rightarrow> path \<Rightarrow> path \<Rightarrow> path \<Rightarrow> path \<Rightarrow> unusable + rstr" where
  "unit_text exec state_dir wg_dir tls_cert tls_key =
    attempt (unit_bind exec) (\<lambda>exec.
    attempt (unit_escape state_dir) (\<lambda>state_dir.
    attempt (unit_escape wg_dir) (\<lambda>wg_dir.
    attempt (unit_bind tls_cert) (\<lambda>tls_cert.
    attempt (unit_bind tls_key) (\<lambda>tls_key.
    Inr ((lit ''[Unit]'' @ [10] @ lit ''Description=anago '' @ [0x2014]
     @ lit '' self-hosted WireGuard private network'' @ [10]
     @ lit ''Documentation=https://github.com/elpalaiso/anago'' @ [10]
     @ lit ''# The hub is useless before the network is up, and it dials nothing at'' @ [10]
     @ lit ''# start, so `network-online` is the honest dependency.'' @ [10]
     @ lit ''After=network-online.target'' @ [10] @ lit ''Wants=network-online.target''
     @ [10, 10] @ lit ''[Service]'' @ [10] @ lit ''Type=exec'' @ [10]
     @ lit ''# The leading `:` turns off $-expansion for this command line. A path'' @ [10]
     @ lit ''# may legally hold a dollar sign, and without the prefix `${X}` would'' @ [10]
     @ lit ''# be replaced '' @ [0x2014] @ lit '' with nothing at all, if X is unset ''
     @ [0x2014] @ lit '' so the unit would'' @ [10]
     @ lit ''# start a different binary or read a different certificate than the one'' @ [10]
     @ lit ''# `server init` was given.'' @ [10] @ lit ''ExecStart=:'')
     @ exec
     @ (lit '' server run'' @ [10] @ lit ''Restart=on-failure'' @ [10] @ lit ''RestartSec=5s''
     @ [10] @ lit ''# A control plane that cannot answer is worse than one that restarts.''
     @ [10] @ lit ''NoNewPrivileges=yes'' @ [10]
     @ lit ''# tmpfs, not yes: an empty home the binds below can mount into.'' @ [10]
     @ lit ''ProtectHome=tmpfs'' @ [10] @ lit ''ProtectSystem=strict'' @ [10]
     @ lit ''ReadWritePaths='')
     @ state_dir
     @ (lit '' '')
     @ wg_dir
     @ ([10] @ lit ''# Reachable even though the sandbox hides where they live.'' @ [10]
     @ lit ''BindReadOnlyPaths='')
     @ exec
     @ (lit '' '')
     @ tls_cert
     @ (lit '' '')
     @ tls_key
     @ ([10] @ lit ''PrivateTmp=yes'' @ [10, 10] @ lit ''[Install]'' @ [10]
     @ lit ''WantedBy=multi-user.target'' @ [10])))))))"

definition writable_dir :: "path \<Rightarrow> unusable + path" where
  "writable_dir file =
    (case path_parent file of
       Some dir \<Rightarrow> if path_is_absolute dir \<and> dir \<noteq> lit ''/'' then Inr dir else Inl (NoDirectory file)
     | None \<Rightarrow> Inl (NoDirectory file))"

definition sync_service_text :: "path \<Rightarrow> path \<Rightarrow> path \<Rightarrow> unusable + rstr" where
  "sync_service_text exec dev_path wg_path =
    attempt (writable_dir dev_path) (\<lambda>config_dir.
    attempt (writable_dir wg_path) (\<lambda>wg_dir.
    attempt (unit_bind exec) (\<lambda>exec.
    attempt (unit_escape dev_path) (\<lambda>dev_path.
    attempt (unit_bind config_dir) (\<lambda>config_dir.
    attempt (unit_escape wg_dir) (\<lambda>wg_dir.
    Inr ((lit ''[Unit]'' @ [10] @ lit ''Description=anago '' @ [0x2014]
     @ lit '' pull the peer list from the hub'' @ [10]
     @ lit ''Documentation=https://github.com/elpalaiso/anago'' @ [10]
     @ lit ''# No network dependency on purpose. A hub this device cannot reach is'' @ [10]
     @ lit ''# an ordinary silent exit 0 ('' @ [0xA7] @ lit ''6.3) '' @ [0x2014]
     @ lit '' the laptop is out of the house and'' @ [10] @ lit ''# that is fine '' @ [0x2014]
     @ lit '' so ordering after `network-online.target` would buy'' @ [10]
     @ lit ''# nothing that the next tick does not already carry.'' @ [10, 10]
     @ lit ''[Service]'' @ [10] @ lit ''Type=oneshot'' @ [10]
     @ lit ''# The leading `:` turns off $-expansion for this command line. A path'' @ [10]
     @ lit ''# may legally hold a dollar sign, and `${X}` in a command line would be'' @ [10]
     @ lit ''# replaced '' @ [0x2014]
     @ lit '' with nothing at all, if X is unset. The path lists below'' @ [10]
     @ lit ''# expand no such thing, so without the prefix this line and BindPaths='' @ [10]
     @ lit ''# could name two different directories from the same `--config`: the'' @ [10]
     @ lit ''# sandbox would open one and the run would read the other.'' @ [10]
     @ lit ''ExecStart=:'')
     @ exec
     @ (lit '' sync --quiet --config '')
     @ dev_path
     @ ([10] @ lit ''# No Restart=. The timer is the retry policy, and it already knows how''
     @ [10] @ lit ''# often. A run that ended in 401 restarted on failure would hammer the''
     @ [10] @ lit ''# hub for a device it has removed.'' @ [10] @ lit ''#'' @ [10]
     @ lit ''# TimeoutStartSec= is not optional here: systemd disables the start'' @ [10]
     @ lit ''# timeout entirely for Type=oneshot. A wedged run holds the sync lock,'' @ [10]
     @ lit ''# and '' @ [0xA7] @ lit ''6.3 has every later run exit quietly on that lock ''
     @ [0x2014] @ lit '' so without a'' @ [10]
     @ lit ''# bound the timer would go silent and look healthy. The client'' @ [39]
     @ lit ''s own'' @ [10]
     @ lit ''# limits are 10s to connect and 30s to read; this sits above them.'' @ [10]
     @ lit ''TimeoutStartSec=2min'' @ [10] @ lit ''NoNewPrivileges=yes'' @ [10]
     @ lit ''ProtectSystem=strict'' @ [10]
     @ lit ''# tmpfs, not yes: the device file usually lives under a home directory,'' @ [10]
     @ lit ''# which `yes` would make inaccessible '' @ [0x2014]
     @ lit '' and systemd will not mount a'' @ [10]
     @ lit ''# bind underneath an inaccessible directory.'' @ [10] @ lit ''ProtectHome=tmpfs''
     @ [10] @ lit ''# Read-write, and a bind rather than an exception, because this run'' @ [10]
     @ lit ''# rewrites `device.json` and takes the sync lock beside it. A bind also'' @ [10]
     @ lit ''# works when that directory is not under a home at all, so there is one'' @ [10]
     @ lit ''# rule here instead of two.'' @ [10] @ lit ''BindPaths='')
     @ config_dir
     @ ([10] @ lit ''# /etc is not hidden, so an exception is enough for the WireGuard'' @ [10]
     @ lit ''# directory '' @ [0x2014]
     @ lit '' the config, and the stripped copy written next to it.'' @ [10]
     @ lit ''ReadWritePaths='')
     @ wg_dir
     @ ([10] @ lit ''BindReadOnlyPaths='')
     @ exec
     @ ([10] @ lit ''PrivateTmp=yes'' @ [10]
     @ lit ''# No [Install] section. This unit is what the timer starts; enabling it'' @ [10]
     @ lit ''# would run one sync at boot and never another.'' @ [10]))))))))"

text \<open>A period; lengths of time are in nanoseconds, and a unit counts whole seconds.\<close>

definition span :: "nat \<Rightarrow> rstr" where
  "span interval =
    (let seconds = interval div SECOND in
     if seconds = 0 then lit ''0s''
     else if seconds mod 3600 = 0 then dec_nat (seconds div 3600) @ lit ''h''
     else if seconds mod 60 = 0 then dec_nat (seconds div 60) @ lit ''min''
     else dec_nat seconds @ lit ''s'')"

definition sync_timer_text :: "nat \<Rightarrow> rstr" where
  "sync_timer_text interval =
    (let every = span interval in
     (lit ''[Unit]'' @ [10] @ lit ''Description=anago '' @ [0x2014]
     @ lit '' sync the peer list every '')
     @ every
     @ ([10] @ lit ''Documentation=https://github.com/elpalaiso/anago'' @ [10, 10]
     @ lit ''[Timer]'' @ [10] @ lit ''OnBootSec='')
     @ every
     @ ([10] @ lit ''OnUnitActiveSec='')
     @ every
     @ ([10] @ lit ''Unit='')
     @ SYNC_SERVICE
     @ ([10] @ lit ''# No Persistent=. It applies to calendar timers, not to this kind, and''
     @ [10] @ lit ''# a laptop that was asleep has nothing to catch up on anyway: the next''
     @ [10] @ lit ''# run carries everything the missed one would have ('' @ [0xA7]
     @ lit ''6.3).'' @ [10, 10] @ lit ''[Install]'' @ [10] @ lit ''WantedBy=timers.target''
     @ [10]))"

definition daemon_reload :: cmd where "daemon_reload = cmd_new SYSTEMCTL [lit ''daemon-reload'']"
definition enable_sync_timer :: cmd where "enable_sync_timer = cmd_new SYSTEMCTL [lit ''enable'', lit ''--now'', SYNC_TIMER]"
definition disable_sync_timer :: cmd where "disable_sync_timer = cmd_new SYSTEMCTL [lit ''disable'', lit ''--now'', SYNC_TIMER]"
definition cat_sync_service :: cmd where "cat_sync_service = cmd_new SYSTEMCTL [lit ''cat'', SYNC_SERVICE]"
definition is_active_sync_timer :: cmd where "is_active_sync_timer = cmd_new SYSTEMCTL [lit ''is-active'', SYNC_TIMER]"

section \<open>launchd\<close>

definition LAUNCHD_LABEL :: rstr where "LAUNCHD_LABEL = lit ''com.github.elpalaiso.anago.sync''"
definition DAEMON_DIR :: path where "DAEMON_DIR = lit ''/Library/LaunchDaemons''"
definition LAUNCHD_DOMAIN :: rstr where "LAUNCHD_DOMAIN = lit ''system''"
definition SYNC_LOG :: path where "SYNC_LOG = lit ''/var/log/anago-sync.log''"
definition LAUNCHCTL :: rstr where "LAUNCHCTL = lit ''launchctl''"
definition SERVER_LABEL :: rstr where "SERVER_LABEL = lit ''com.github.elpalaiso.anago''"
definition DAEMONS_DIR :: path where "DAEMONS_DIR = lit ''/Library/LaunchDaemons''"
definition SERVER_LOG :: path where "SERVER_LOG = lit ''/var/log/anago.log''"

definition server_plist_path :: "path \<Rightarrow> path" where
  "server_plist_path dir = path_join dir (SERVER_LABEL @ lit ''.plist'')"

definition server_target :: rstr where "server_target = LAUNCHD_DOMAIN @ lit ''/'' @ SERVER_LABEL"

datatype unrepresentable = PlistNotText path | NotXml path

fun unrepresentable_show :: "unicode \<Rightarrow> unrepresentable \<Rightarrow> rstr" where
  "unrepresentable_show u (PlistNotText p) =
     shown_path u p
     @ (lit '' is not valid UTF-8, so a property list could only name a different path than the ''
     @ lit ''one you meant'')"
| "unrepresentable_show u (NotXml p) =
     shown_path u p
     @ (lit '' holds a character XML cannot encode, so there is no way to write it into a property ''
     @ lit ''list'')"

definition in_xml :: "rchar \<Rightarrow> bool" where
  "in_xml c \<longleftrightarrow> c = 9 \<or> c = 10 \<or> c = 13 \<or> (32 \<le> c \<and> c \<le> 0xD7FF) \<or> (0xE000 \<le> c \<and> c \<le> 0xFFFD) \<or> 0x10000 \<le> c"

definition xml_char :: "rchar \<Rightarrow> rstr option" where
  "xml_char c =
    (if c = 38 then Some (lit ''&amp;'')
     else if c = 60 then Some (lit ''&lt;'')
     else if c = 62 then Some (lit ''&gt;'')
     else if c = 9 then Some (lit ''&#9;'')
     else if c = 10 then Some (lit ''&#10;'')
     else if c = 13 then Some (lit ''&#13;'')
     else if in_xml c then Some [c]
     else None)"

fun xml_text :: "rstr \<Rightarrow> rstr option" where
  "xml_text [] = Some []"
| "xml_text (c # s) =
    (case xml_char c of
       None \<Rightarrow> None
     | Some one \<Rightarrow> map_option (\<lambda>more. one @ more) (xml_text s))"

definition plist_string :: "path \<Rightarrow> unrepresentable + rstr" where
  "plist_string p = ok_or (NotXml p) (xml_text p)"

definition server_plist :: "path \<Rightarrow> unrepresentable + rstr" where
  "server_plist exec =
    attempt (plist_string exec) (\<lambda>exec.
    Inr ((lit ''<?xml version='' @ [34] @ lit ''1.0'' @ [34] @ lit '' encoding='' @ [34]
     @ lit ''UTF-8'' @ [34] @ lit ''?>'' @ [10] @ lit ''<!DOCTYPE plist PUBLIC '' @ [34]
     @ lit ''-//Apple//DTD PLIST 1.0//EN'' @ [34] @ lit '' '' @ [34]
     @ lit ''http://www.apple.com/DTDs/PropertyList-1.0.dtd'' @ [34] @ lit ''>'' @ [10]
     @ lit ''<plist version='' @ [34] @ lit ''1.0'' @ [34] @ lit ''>'' @ [10] @ lit ''<dict>''
     @ [10, 9] @ lit ''<key>Label</key>'' @ [10, 9] @ lit ''<string>'')
     @ SERVER_LABEL
     @ (lit ''</string>'' @ [10, 9] @ lit ''<key>ProgramArguments</key>'' @ [10, 9]
     @ lit ''<array>'' @ [10, 9, 9] @ lit ''<string>'')
     @ exec
     @ (lit ''</string>'' @ [10, 9, 9] @ lit ''<string>server</string>'' @ [10, 9, 9]
     @ lit ''<string>run</string>'' @ [10, 9] @ lit ''</array>'' @ [10, 9]
     @ lit ''<key>RunAtLoad</key>'' @ [10, 9] @ lit ''<true/>'' @ [10, 9]
     @ lit ''<key>KeepAlive</key>'' @ [10, 9] @ lit ''<true/>'' @ [10, 9]
     @ lit ''<key>StandardOutPath</key>'' @ [10, 9] @ lit ''<string>'')
     @ SERVER_LOG
     @ (lit ''</string>'' @ [10, 9] @ lit ''<key>StandardErrorPath</key>'' @ [10, 9]
     @ lit ''<string>'')
     @ SERVER_LOG
     @ (lit ''</string>'' @ [10] @ lit ''</dict>'' @ [10] @ lit ''</plist>'' @ [10])))"

definition bootout_server :: cmd where "bootout_server = cmd_new LAUNCHCTL [lit ''bootout'', server_target]"
definition print_server :: cmd where "print_server = cmd_new LAUNCHCTL [lit ''print'', server_target]"

definition plist_path :: "path \<Rightarrow> path" where
  "plist_path dir = path_join dir (LAUNCHD_LABEL @ lit ''.plist'')"

definition launchd_target :: rstr where "launchd_target = LAUNCHD_DOMAIN @ lit ''/'' @ LAUNCHD_LABEL"

definition start_interval :: "nat \<Rightarrow> nat" where
  "start_interval interval = interval div SECOND"

definition sync_plist :: "path \<Rightarrow> path \<Rightarrow> nat \<Rightarrow> unrepresentable + rstr" where
  "sync_plist exec dev_path interval =
    attempt (plist_string exec) (\<lambda>exec.
    attempt (plist_string dev_path) (\<lambda>dev_path.
    Inr ((lit ''<?xml version='' @ [34] @ lit ''1.0'' @ [34] @ lit '' encoding='' @ [34]
     @ lit ''UTF-8'' @ [34] @ lit ''?>'' @ [10] @ lit ''<!DOCTYPE plist PUBLIC '' @ [34]
     @ lit ''-//Apple//DTD PLIST 1.0//EN'' @ [34] @ lit '' '' @ [34]
     @ lit ''http://www.apple.com/DTDs/PropertyList-1.0.dtd'' @ [34] @ lit ''>'' @ [10]
     @ lit ''<plist version='' @ [34] @ lit ''1.0'' @ [34] @ lit ''>'' @ [10] @ lit ''<dict>''
     @ [10, 9] @ lit ''<key>Label</key>'' @ [10, 9] @ lit ''<string>'')
     @ LAUNCHD_LABEL
     @ (lit ''</string>'' @ [10, 9] @ lit ''<key>ProgramArguments</key>'' @ [10, 9]
     @ lit ''<array>'' @ [10, 9, 9] @ lit ''<string>'')
     @ exec
     @ (lit ''</string>'' @ [10, 9, 9] @ lit ''<string>sync</string>'' @ [10, 9, 9]
     @ lit ''<string>--quiet</string>'' @ [10, 9, 9] @ lit ''<string>--config</string>''
     @ [10, 9, 9] @ lit ''<string>'')
     @ dev_path
     @ (lit ''</string>'' @ [10, 9] @ lit ''</array>'' @ [10, 9]
     @ lit ''<key>StartInterval</key>'' @ [10, 9] @ lit ''<integer>'')
     @ dec_nat (start_interval interval)
     @ (lit ''</integer>'' @ [10, 9] @ lit ''<key>RunAtLoad</key>'' @ [10, 9] @ lit ''<true/>''
     @ [10, 9] @ lit ''<key>StandardOutPath</key>'' @ [10, 9] @ lit ''<string>'')
     @ SYNC_LOG
     @ (lit ''</string>'' @ [10, 9] @ lit ''<key>StandardErrorPath</key>'' @ [10, 9]
     @ lit ''<string>'')
     @ SYNC_LOG
     @ (lit ''</string>'' @ [10] @ lit ''</dict>'' @ [10] @ lit ''</plist>'' @ [10]))))"

definition bootstrap :: "path \<Rightarrow> cmd" where
  "bootstrap plist = cmd_with_path LAUNCHCTL [lit ''bootstrap'', LAUNCHD_DOMAIN] plist"

definition bootout :: cmd where "bootout = cmd_new LAUNCHCTL [lit ''bootout'', launchd_target]"
definition launchd_print :: cmd where "launchd_print = cmd_new LAUNCHCTL [lit ''print'', launchd_target]"

end
