(* ===== verification/Timer.thy ===== *)
theory Timer
  imports Units RunLogic Cli
begin

text \<open>
  \<open>crates/anago/src/timer.rs\<close>: installing and removing the periodic sync. What schedules things here, what
  will be written, and the steps with the way back are pure; the run over the files asks the service manager,
  a parameter: its answer to a command line and its own state after it, which holds the links it makes. A path
  is its text here, so the refusals of one that is not UTF-8 have no case to come from.
\<close>

section \<open>What will be installed\<close>

datatype scheduler = Systemd | Launchd | NeitherScheduler

definition scheduler_for :: "bool \<Rightarrow> bool \<Rightarrow> scheduler" where
  "scheduler_for systemd_running launch_daemons =
    (if systemd_running then Systemd else if launch_daemons then Launchd else NeitherScheduler)"

record timer_setup =
  ts_exec :: path
  ts_device_file :: path
  ts_wg_config :: path
  ts_interval :: nat
  ts_unit_dir :: path
  ts_daemon_dir :: path

record timer_file =
  tf_path :: path
  tf_text :: rstr

datatype timer_plan = SystemdPlan timer_file timer_file | LaunchdPlan timer_file | ByHand rstr

record existing_schedule =
  es_joined :: bool
  es_schedule :: "path list"

datatype timer_error =
    TmNotJoined path
  | TmAlreadyInstalled "path list"
  | TmHalfUndone rstr rstr
  | TmNotStopped rstr bool rstr
  | TmUnit unusable
  | TmPlist unrepresentable
  | TmNotCron nat
  | TmNotText path
  | TmNotOneLine path
  | TmBackslash path
  | TmIo rstr io_kind rstr "target option"
  | TmSpawn rstr rstr
  | TmFailed rstr rstr

text \<open>The five fields of a crontab line.\<close>

definition cron_schedule :: "nat \<Rightarrow> rstr option" where
  "cron_schedule interval =
    (let seconds = interval div SECOND in
     if seconds = 0 \<or> seconds mod 60 \<noteq> 0 then None
     else
       let minutes = seconds div 60 in
       if minutes = 1 then Some (lit ''* * * * *'')
       else if minutes < 60 then
         (if 60 mod minutes = 0 then Some (lit ''*/'' @ dec_nat minutes @ lit '' * * * *'') else None)
       else if minutes mod 60 \<noteq> 0 then None
       else
         let hours = minutes div 60 in
         if hours = 1 then Some (lit ''0 * * * *'')
         else if hours = 24 then Some (lit ''0 0 * * *'')
         else if hours < 24 \<and> 24 mod hours = 0 then Some (lit ''0 */'' @ dec_nat hours @ lit '' * * *'')
         else None)"

definition shell_plain :: "rchar \<Rightarrow> bool" where
  "shell_plain c \<longleftrightarrow> is_ascii_alnum c \<or> c \<in> set (lit ''/._-+,=:@'')"

definition shell_word :: "path \<Rightarrow> timer_error + rstr" where
  "shell_word p =
    (if \<exists>c \<in> set p. is_control c then Inl (TmNotOneLine p)
     else if 92 \<in> set p then Inl (TmBackslash p)
     else if \<forall>c \<in> set p. shell_plain c then Inr p
     else Inr ([39] @ replace_char 39 [39, 92, 39, 39] p @ [39]))"

definition crontab_command :: "path \<Rightarrow> path \<Rightarrow> timer_error + rstr" where
  "crontab_command exec dev_path =
    attempt (shell_word exec) (\<lambda>exec.
    attempt (shell_word dev_path) (\<lambda>dev_path.
    Inr (replace_char 37 [92, 37] (exec @ lit '' sync --quiet --config '' @ dev_path))))"

definition crontab_line :: "path \<Rightarrow> path \<Rightarrow> nat \<Rightarrow> timer_error + rstr" where
  "crontab_line exec dev_path interval =
    attempt (ok_or (TmNotCron interval) (cron_schedule interval)) (\<lambda>schedule.
    attempt (crontab_command exec dev_path) (\<lambda>command.
    Inr (schedule @ lit '' '' @ command)))"

definition timer_plan_for :: "scheduler \<Rightarrow> existing_schedule \<Rightarrow> timer_setup \<Rightarrow> timer_error + timer_plan" where
  "timer_plan_for machine have_now setup =
    (if \<not> es_joined have_now then Inl (TmNotJoined (ts_device_file setup))
     else if es_schedule have_now \<noteq> [] then Inl (TmAlreadyInstalled (es_schedule have_now))
     else case machine of
       Systemd \<Rightarrow>
         attempt (map_err TmUnit
           (sync_service_text (ts_exec setup) (ts_device_file setup) (ts_wg_config setup))) (\<lambda>service.
         Inr (SystemdPlan
           \<lparr>tf_path = unit_path (ts_unit_dir setup) SYNC_SERVICE, tf_text = service\<rparr>
           \<lparr>tf_path = unit_path (ts_unit_dir setup) SYNC_TIMER, tf_text = sync_timer_text (ts_interval setup)\<rparr>))
     | Launchd \<Rightarrow>
         attempt (map_err TmPlist
           (sync_plist (ts_exec setup) (ts_device_file setup) (ts_interval setup))) (\<lambda>text.
         Inr (LaunchdPlan \<lparr>tf_path = plist_path (ts_daemon_dir setup), tf_text = text\<rparr>))
     | NeitherScheduler \<Rightarrow>
         attempt (crontab_line (ts_exec setup) (ts_device_file setup) (ts_interval setup)) (\<lambda>line.
         Inr (ByHand line)))"

datatype timer_removal = SystemdRemoval path path | LaunchdRemoval path | NoRemoval

fun removal_scheduler :: "timer_removal \<Rightarrow> scheduler" where
  "removal_scheduler (SystemdRemoval service timer) = Systemd"
| "removal_scheduler (LaunchdRemoval plist) = Launchd"
| "removal_scheduler NoRemoval = NeitherScheduler"

fun removal_files :: "timer_removal \<Rightarrow> path list" where
  "removal_files (SystemdRemoval service timer) = [service, timer]"
| "removal_files (LaunchdRemoval plist) = [plist]"
| "removal_files NoRemoval = []"

definition removal_for :: "scheduler \<Rightarrow> path \<Rightarrow> path \<Rightarrow> timer_removal" where
  "removal_for machine unit_dir daemon_dir =
    (case machine of
       Systemd \<Rightarrow> SystemdRemoval (unit_path unit_dir SYNC_SERVICE) (unit_path unit_dir SYNC_TIMER)
     | Launchd \<Rightarrow> LaunchdRemoval (plist_path daemon_dir)
     | NeitherScheduler \<Rightarrow> NoRemoval)"

section \<open>What is said about it\<close>

fun timer_report :: "timer_plan \<Rightarrow> path \<Rightarrow> rstr" where
  "timer_report (SystemdPlan service timer) device =
     (lit ''The sync timer is installed and running:'' @ [10] @ lit ''     '')
     @ tf_path service
     @ ([10] @ lit ''     '')
     @ tf_path timer
     @ ([10, 10] @ lit ''     It syncs '')
     @ device
     @ (lit ''.'' @ [10] @ lit ''     `systemctl list-timers '' @ [39] @ lit ''anago-sync*''
     @ [39] @ lit ''` says when it next fires, and'' @ [10] @ lit ''     `'')
     @ cmd_display cat_sync_service
     @ (lit ''` shows the file it reads.'' @ [10])"
| "timer_report (LaunchdPlan plist) device =
     (lit ''The sync daemon is installed and running:'' @ [10] @ lit ''     '')
     @ tf_path plist
     @ ([10, 10] @ lit ''     It syncs '')
     @ device
     @ (lit ''.'' @ [10] @ lit ''     Check it with `sudo launchctl print '')
     @ launchd_target
     @ (lit ''` '' @ [0x2014, 10]
     @ lit ''     both the sudo and the `system/` are needed, because a plain'' @ [10]
     @ lit ''     `launchctl list` only looks at your own login session.'' @ [10, 10]
     @ lit ''     Recent macOS lists it in System Settings, under Login Items &'' @ [10]
     @ lit ''     Extensions, where it can be switched off. An install that looks'' @ [10]
     @ lit ''     fine but never runs is usually that.'' @ [10])"
| "timer_report (ByHand line) device =
     (lit ''This machine has neither systemd nor launchd, so nothing was'' @ [10]
     @ lit ''installed '' @ [0x2014]
     @ lit '' anago will not pretend to schedule something it cannot.'' @ [10, 10]
     @ lit ''     Add this to root'' @ [39] @ lit ''s crontab (`sudo crontab -e`):'' @ [10, 10]
     @ lit ''     '')
     @ line
     @ ([10, 10] @ lit ''     It syncs '')
     @ device
     @ (lit ''.'' @ [10] @ lit ''     `anago sync` by hand does the same work.'' @ [10])"

datatype stop_state = StopGone | StopNotLoaded | StopStillThere | StopUnknown

definition stopped_state :: "bool \<Rightarrow> bool option \<Rightarrow> stop_state" where
  "stopped_state stop_worked still =
    (if stop_worked then StopGone
     else case still of
       Some False \<Rightarrow> StopNotLoaded
     | Some True \<Rightarrow> StopStillThere
     | None \<Rightarrow> StopUnknown)"

definition still_there :: "scheduler \<Rightarrow> bool \<Rightarrow> rstr \<Rightarrow> rstr \<Rightarrow> bool option" where
  "still_there machine ok stdout stderr =
    (if ok then Some True
     else
       let absent = (case machine of
           Systemd \<Rightarrow> trim stdout \<in> set [lit ''inactive'', lit ''failed'', lit ''unknown'']
         | Launchd \<Rightarrow>
             (let said = map ascii_lower stderr in
              \<exists>phrase \<in> set [lit ''could not find service'', lit ''no such process'', lit ''no such file''].
                contains_str phrase said)
         | NeitherScheduler \<Rightarrow> True)
       in if absent then Some False else None)"

definition removal_report :: "timer_removal \<Rightarrow> path list \<Rightarrow> stop_state \<Rightarrow> rstr" where
  "removal_report removal gone stopped =
    (if removal = NoRemoval then
       (lit ''There is no sync timer to remove '' @ [0x2014]
     @ lit '' this machine has neither systemd'' @ [10]
     @ lit ''nor launchd. If you added a crontab line by hand, take it out with'' @ [10]
     @ lit ''`sudo crontab -e`; anago never wrote one.'' @ [10])
     else if gone = [] then
       (if stopped = StopGone then
          (lit ''There was no file left to remove, but the schedule was still'' @ [10]
     @ lit ''loaded '' @ [0x2014] @ lit '' it is stopped now. `anago sync` by hand still works.''
     @ [10])
        else (lit ''No sync timer was installed here. Nothing to remove.'' @ [10]))
     else
       (lit ''The sync timer is gone:'' @ [10])
       @ concat (map (\<lambda>p. (lit ''     '')
     @ p
     @ ([10])) gone)
       @ (if stopped = StopNotLoaded then (lit ''     (It was not loaded, so there was nothing to stop.)'' @ [10]) else [])
       @ (lit ''     `anago sync` by hand still works.'' @ [10]))"

datatype timer_step = WriteStep timer_file | DeleteStep path | RunStep cmd

fun describe_step :: "timer_step \<Rightarrow> rstr" where
  "describe_step (WriteStep f) = lit ''write '' @ tf_path f"
| "describe_step (DeleteStep p) = lit ''remove '' @ p"
| "describe_step (RunStep c) = lit ''run `'' @ cmd_display c @ lit ''`''"

fun timer_steps :: "timer_plan \<Rightarrow> timer_step list" where
  "timer_steps (SystemdPlan service timer) =
     [WriteStep service, WriteStep timer, RunStep daemon_reload, RunStep enable_sync_timer]"
| "timer_steps (LaunchdPlan plist) = [WriteStep plist, RunStep (bootstrap (tf_path plist))]"
| "timer_steps (ByHand line) = []"

fun rewind_steps :: "timer_plan \<Rightarrow> nat \<Rightarrow> timer_step list" where
  "rewind_steps (SystemdPlan service timer) failed =
     (if 3 \<le> failed then [RunStep disable_sync_timer] else [])
     @ [DeleteStep (tf_path timer), DeleteStep (tf_path service)]
     @ (if 2 \<le> failed then [RunStep daemon_reload] else [])"
| "rewind_steps (LaunchdPlan plist) failed =
     (if 1 \<le> failed then [RunStep bootout] else []) @ [DeleteStep (tf_path plist)]"
| "rewind_steps (ByHand line) failed = []"

datatype presence = PresentNone | PresentPartial | PresentFiles

definition presence_of :: "nat \<Rightarrow> nat \<Rightarrow> presence" where
  "presence_of expected found =
    (if found = 0 then PresentNone else if expected \<le> found then PresentFiles else PresentPartial)"

definition schedule_advice :: "scheduler \<Rightarrow> presence \<Rightarrow> rstr" where
  "schedule_advice machine present =
    (let every = span DEFAULT_INTERVAL in
     case present of
       PresentPartial \<Rightarrow>
         (lit ''Some of a sync schedule'' @ [39] @ lit ''s files are here, but not all of them ''
     @ [0x2014] @ lit '' which'' @ [10]
     @ lit ''runs nothing at all. `sudo anago sync --uninstall-timer` clears what is'' @ [10]
     @ lit ''left, and `--install-timer` then installs a whole one that checks the'' @ [10]
     @ lit ''hub every '')
     @ every
     @ (lit ''.'' @ [10])
     | PresentFiles \<Rightarrow>
         (let asks = (case machine of
              Launchd \<Rightarrow>
                (lit ''     sudo '')
     @ cmd_display launchd_print
     @ ([10, 10] @ lit ''     macOS can also switch it off under Login Items & Extensions in''
     @ [10] @ lit ''     System Settings, which looks exactly like one that never runs.'' @ [10])
            | _ \<Rightarrow>
                (lit ''     '')
     @ cmd_display is_active_sync_timer
     @ ([10] @ lit ''     '')
     @ cmd_display cat_sync_service
     @ ([10]))
          in (lit ''A sync schedule is already installed here. That its files are in'' @ [10]
     @ lit ''place does not say whether it is running, or which device file it'' @ [10]
     @ lit ''reads:'' @ [10, 10])
     @ asks
     @ ([10] @ lit ''     If it is not running, or reads a different device file, `sudo anago''
     @ [10] @ lit ''     sync --uninstall-timer` and then `--install-timer` puts one here''
     @ [10] @ lit ''     that reads this device'' @ [39] @ lit ''s.'' @ [10]))
     | PresentNone \<Rightarrow>
         (case machine of
            NeitherScheduler \<Rightarrow>
              (lit ''Nothing here watches the hub for changes yet, and nothing has to '' @ [0x2014, 10]
     @ lit ''the hub routes every device, so this tunnel works either way. This'' @ [10]
     @ lit ''machine has neither systemd nor launchd, so there is no schedule to'' @ [10]
     @ lit ''install; `sudo anago sync --install-timer` prints the crontab line for'' @ [10]
     @ lit ''a check every '')
     @ every
     @ (lit '', and `anago sync` runs one now.'' @ [10])
          | _ \<Rightarrow>
              (lit ''Nothing here watches the hub for changes yet, and nothing has to '' @ [0x2014, 10]
     @ lit ''the hub routes every device, so this tunnel works either way. A check'' @ [10]
     @ lit ''every '')
     @ every
     @ (lit '' is how you hear about a new server key, or about this'' @ [10]
     @ lit ''device being removed:'' @ [10, 10] @ lit ''     sudo anago sync --install-timer''
     @ [10, 10] @ lit ''     `anago sync` runs one check now and installs nothing.'' @ [10])))"

definition check_command :: "scheduler \<Rightarrow> rstr" where
  "check_command machine =
    (case machine of
       Systemd \<Rightarrow> lit ''`'' @ cmd_display is_active_sync_timer @ lit ''`''
     | Launchd \<Rightarrow> lit ''`sudo '' @ cmd_display launchd_print @ lit ''`''
     | NeitherScheduler \<Rightarrow> [])"

fun timer_error_show :: "unicode \<Rightarrow> timer_error \<Rightarrow> rstr" where
  "timer_error_show u (TmNotJoined dev_path) =
     (lit ''there is no device file at '')
     @ dev_path
     @ (lit '' '' @ [0x2014]
     @ lit '' a timer pointing at nothing would fail every few minutes while looking installed, ''
     @ lit ''so join this device first with `anago join <domain> <code>`'')"
| "timer_error_show u (TmAlreadyInstalled file_list) =
     (lit ''a sync schedule is already installed ('')
     @ join_with (lit '', '') file_list
     @ (lit '') '' @ [0x2014]
     @ lit '' `anago sync --uninstall-timer` takes it away, and installing again after that is ''
     @ lit ''how the period changes. It is not replaced in place because a failure part-way ''
     @ lit ''through would leave neither the old schedule nor the new one'')"
| "timer_error_show u (TmHalfUndone cause left) =
     cause
     @ (lit '' '' @ [0x2014] @ lit '' and undoing it did not fully work: could not '')
     @ left
     @ (lit ''. Run `anago sync --uninstall-timer` to clear whatever is left'')"
| "timer_error_show u (TmNotStopped why confirmed check) =
     (let state = (if confirmed then (lit ''the schedule is still loaded and will keep running'')
        else (lit ''whether the schedule stopped could not be confirmed, so it may still be loaded and ''
     @ lit ''running''))
      in why
     @ (lit '' '' @ [0x2014] @ lit '' the files are gone, but '')
     @ state
     @ (lit '' until this machine reboots. '')
     @ check
     @ (lit '' says whether it is still there''))"
| "timer_error_show u (TmUnit e) = unusable_show u e"
| "timer_error_show u (TmPlist e) = unrepresentable_show u e"
| "timer_error_show u (TmNotCron interval) =
     (lit ''cron repeats on the clock, not on a stopwatch, so it can only run something every N ''
     @ lit ''minutes when N divides an hour (or every N hours when N divides a day) '' @ [0x2014]
     @ lit '' '')
     @ span interval
     @ (lit '' is not one of those. This machine has no systemd and no launchd, so pick a period ''
     @ lit ''cron can keep, such as 1m, 5m, 15m, 30m, 1h, 6h or 24h'')"
| "timer_error_show u (TmNotText p) =
     shown_path u p
     @ (lit '' is not valid UTF-8, so a crontab line could only name a different path than the one ''
     @ lit ''you meant'')"
| "timer_error_show u (TmNotOneLine p) =
     shown_path u p
     @ (lit '' has a control character in it, and a crontab is read one line at a time ''
     @ [0x2014] @ lit '' no quoting survives that'')"
| "timer_error_show u (TmBackslash p) =
     shown_path u p
     @ (lit '' has a backslash in it, and cron escapes the line before the shell sees it ''
     @ [0x2014]
     @ lit '' a backslash there changes which character the escape eats, which is how a `%` later ''
     @ lit ''in the path ends up cutting the command in half. systemd and launchd take the path ''
     @ lit ''as it is; only a crontab cannot'')"
| "timer_error_show u (TmIo what kind source target) =
     with_target_advice (lit ''could not '' @ what @ lit '': '' @ source) target kind"
| "timer_error_show u (TmSpawn line source) = lit ''could not run `'' @ line @ lit ''`: '' @ source"
| "timer_error_show u (TmFailed line stderr) =
     lit ''`'' @ line @ lit ''` failed'' @ (if stderr \<noteq> [] then lit '': '' @ stderr else [])"

section \<open>The run\<close>

text \<open>What a command of the service manager answered, its output as text.\<close>

record tool_answer =
  ta_ok :: bool
  ta_stdout :: rstr
  ta_stderr :: rstr

type_synonym 'h manager = "cmd \<Rightarrow> fs \<Rightarrow> 'h \<Rightarrow> (rstr + tool_answer) \<times> 'h"

definition ask_manager :: "'h manager \<Rightarrow> cmd \<Rightarrow> ('h, 'e, rstr + tool_answer) run" where
  "ask_manager manager c = (\<lambda>env s.
    case manager c (files s) (si_hub s) of (answer, h) \<Rightarrow> (Inr answer, s\<lparr>si_hub := h\<rparr>))"

definition run_tool :: "'h manager \<Rightarrow> cmd \<Rightarrow> ('h, timer_error, unit) run" where
  "run_tool manager c =
    run_bind (ask_manager manager c) (\<lambda>answer.
    case answer of
      Inl source \<Rightarrow> run_throw (TmSpawn (cmd_display c) source)
    | Inr output \<Rightarrow>
        if ta_ok output then run_return () else run_throw (TmFailed (cmd_display c) (trim (ta_stderr output))))"

text \<open>\<open>Path::try_exists\<close>.\<close>

definition try_exists :: "path \<Rightarrow> bool io" where
  "try_exists p = sys_call (\<lambda>env s. Inr
    ((case fs_names s p of None \<Rightarrow> False | Some (LinkAt _) \<Rightarrow> se_link_there env p | Some _ \<Rightarrow> True), s))"

definition look_for :: "path \<Rightarrow> ('h, timer_error, bool) run" where
  "look_for p = run_map_err (\<lambda>(kind, source). TmIo (lit ''look for '' @ p) kind source None) (on_files (try_exists p))"

fun found_of :: "path list \<Rightarrow> ('h, timer_error, path list) run" where
  "found_of [] = run_return []"
| "found_of (p # ps) =
    run_bind (look_for p) (\<lambda>here.
    run_bind (found_of ps) (\<lambda>more.
    run_return (if here then p # more else more)))"

definition schedule_here :: "scheduler \<Rightarrow> path \<Rightarrow> path \<Rightarrow> ('h, timer_error, path list) run" where
  "schedule_here machine unit_dir daemon_dir = found_of (removal_files (removal_for machine unit_dir daemon_dir))"

definition present_here :: "scheduler \<Rightarrow> path \<Rightarrow> path \<Rightarrow> ('h, 'e, presence) run" where
  "present_here machine unit_dir daemon_dir =
    run_bind (run_catch (schedule_here machine unit_dir daemon_dir)) (\<lambda>found.
    run_return (presence_of (length (removal_files (removal_for machine unit_dir daemon_dir)))
      (length (case found of Inl _ \<Rightarrow> [] | Inr here \<Rightarrow> here))))"

definition remove_file_error :: "path \<Rightarrow> io_err \<Rightarrow> timer_error" where
  "remove_file_error p e = (case e of (kind, source) \<Rightarrow> TmIo (lit ''remove '' @ p) kind source (Some (system_file p)))"

fun perform :: "'h manager \<Rightarrow> timer_step \<Rightarrow> ('h, timer_error, unit) run" where
  "perform manager (WriteStep f) =
     run_map_err (\<lambda>(kind, source). TmIo (lit ''write '' @ tf_path f) kind source (Some (system_file (tf_path f))))
       (on_files (write_system (tf_path f) (tf_text f)))"
| "perform manager (DeleteStep p) =
     run_map_err (remove_file_error p) (on_files (ignore_missing (sys_unlink p)))"
| "perform manager (RunStep c) = run_tool manager c"

text \<open>Every step of the way back is tried; the answer is what could not be done.\<close>

fun perform_all :: "'h manager \<Rightarrow> timer_step list \<Rightarrow> ('h, 'e, rstr list) run" where
  "perform_all manager [] = run_return []"
| "perform_all manager (step # later) =
    run_bind (run_catch (perform manager step)) (\<lambda>r.
    run_bind (perform_all manager later) (\<lambda>stuck.
    run_return (case r of Inl _ \<Rightarrow> describe_step step # stuck | Inr _ \<Rightarrow> stuck)))"

definition unwind :: "'h manager \<Rightarrow> timer_plan \<Rightarrow> nat \<Rightarrow> timer_error \<Rightarrow> ('h, 'e, timer_error) run" where
  "unwind manager tp failed cause =
    run_bind (perform_all manager (rewind_steps tp failed)) (\<lambda>stuck.
    run_bind (run_env (\<lambda>env. se_unicode (de_sys env))) (\<lambda>u.
    run_return (if stuck = [] then cause else TmHalfUndone (timer_error_show u cause) (join_with (lit '', '') stuck))))"

fun perform_from :: "'h manager \<Rightarrow> timer_plan \<Rightarrow> nat \<Rightarrow> timer_step list \<Rightarrow> ('h, timer_error, unit) run" where
  "perform_from manager tp index [] = run_return ()"
| "perform_from manager tp index (step # later) =
    run_bind (run_catch (perform manager step)) (\<lambda>r.
    case r of
      Inr _ \<Rightarrow> perform_from manager tp (index + 1) later
    | Inl e \<Rightarrow> run_bind (unwind manager tp index e) run_throw)"

definition timer_install :: "'h manager \<Rightarrow> scheduler \<Rightarrow> timer_setup \<Rightarrow> ('h, timer_error, rstr) run" where
  "timer_install manager machine setup =
    run_bind (look_for (ts_device_file setup)) (\<lambda>joined.
    run_bind (schedule_here machine (ts_unit_dir setup) (ts_daemon_dir setup)) (\<lambda>schedule.
    run_bind (run_lift (timer_plan_for machine \<lparr>es_joined = joined, es_schedule = schedule\<rparr> setup)) (\<lambda>tp.
    run_then (perform_from manager tp 0 (timer_steps tp))
      (run_return (timer_report tp (ts_device_file setup))))))"

text \<open>The removal: stop, delete, reload, and then ask when the stop failed.\<close>

fun stop_command :: "timer_removal \<Rightarrow> cmd option" where
  "stop_command (SystemdRemoval service timer) = Some disable_sync_timer"
| "stop_command (LaunchdRemoval plist) = Some bootout"
| "stop_command NoRemoval = None"

fun still_loaded :: "'h manager \<Rightarrow> timer_removal \<Rightarrow> ('h, 'e, bool option) run" where
  "still_loaded manager NoRemoval = run_return (Some False)"
| "still_loaded manager removal =
    run_bind (ask_manager manager
      (case removal_scheduler removal of Launchd \<Rightarrow> launchd_print | _ \<Rightarrow> is_active_sync_timer)) (\<lambda>answer.
    run_return (case answer of
      Inl _ \<Rightarrow> None
    | Inr output \<Rightarrow> still_there (removal_scheduler removal) (ta_ok output) (ta_stdout output) (ta_stderr output)))"

fun delete_all :: "path list \<Rightarrow> ('h, timer_error, path list) run" where
  "delete_all [] = run_return []"
| "delete_all (p # ps) =
    run_bind (run_catch (on_files (sys_unlink p))) (\<lambda>r.
    case r of
      Inr _ \<Rightarrow> run_bind (delete_all ps) (\<lambda>gone. run_return (p # gone))
    | Inl (kind, source) \<Rightarrow>
        if kind = IoNotFound then delete_all ps else run_throw (remove_file_error p (kind, source)))"

definition timer_uninstall :: "'h manager \<Rightarrow> timer_removal \<Rightarrow> ('h, timer_error, rstr) run" where
  "timer_uninstall manager removal =
    run_bind (case stop_command removal of
        None \<Rightarrow> run_return None
      | Some c \<Rightarrow> run_bind (run_catch (run_tool manager c)) (\<lambda>r. run_return (Some r))) (\<lambda>stop.
    run_bind (delete_all (removal_files removal)) (\<lambda>gone.
    run_then
      (if removal_scheduler removal = Systemd \<and> gone \<noteq> [] then run_tool manager daemon_reload else run_return ()) (
    run_bind (run_env (\<lambda>env. se_unicode (de_sys env))) (\<lambda>u.
    case stop of
      Some (Inl e) \<Rightarrow>
        run_bind (still_loaded manager removal) (\<lambda>still.
        let state = stopped_state False still in
        if state = StopStillThere \<or> state = StopUnknown then
          run_throw (TmNotStopped (timer_error_show u e) (state = StopStillThere)
            (check_command (removal_scheduler removal)))
        else run_return (removal_report removal gone state))
    | _ \<Rightarrow> run_return (removal_report removal gone StopGone)))))"

end
