(* ===== verification/UnitsFacts.thy ===== *)
theory UnitsFacts
  imports Timer CliFacts
begin

text \<open>
  What the texts of the schedules mean to the programs that read them. Each reader is the part of its
  documentation the texts rely on: \<open>systemd.syntax\<close> and the doubled specifier, XML's character references
  and line ends, the per cent sign of a crontab and the words of a shell. Each answers \<open>None\<close> where the text
  would mean something else. A path that is not refused is read back as itself, in one word of one line.
\<close>

section \<open>Words of a unit\<close>

definition unit_blank :: "rchar \<Rightarrow> bool" where
  "unit_blank c \<longleftrightarrow> c = 32 \<or> c = 9 \<or> c = 10 \<or> c = 13"

text \<open>The words of a line: blanks separate, double quotes hold together, a backslash in them takes the next.\<close>

fun unit_words :: "bool \<Rightarrow> rstr option \<Rightarrow> rstr \<Rightarrow> rstr list option" where
  "unit_words quoted word [] = (if quoted then None else Some (case word of None \<Rightarrow> [] | Some w \<Rightarrow> [w]))"
| "unit_words True word (c # s) =
    (if c = 34 then unit_words False word s
     else if c = 92 then
       (case s of
          [] \<Rightarrow> None
        | d # s' \<Rightarrow> if d = 34 \<or> d = 92 then unit_words True (map_option (\<lambda>w. w @ [d]) word) s' else None)
     else unit_words True (map_option (\<lambda>w. w @ [c]) word) s)"
| "unit_words False word (c # s) =
    (if unit_blank c then
       (case word of
          None \<Rightarrow> unit_words False None s
        | Some w \<Rightarrow> map_option (\<lambda>ws. w # ws) (unit_words False None s))
     else if c = 34 then (if word = None then unit_words True (Some []) s else None)
     else if c = 92 then None
     else unit_words False (Some (case word of None \<Rightarrow> [c] | Some w \<Rightarrow> w @ [c])) s)"

fun specifiers :: "rstr \<Rightarrow> rstr option" where
  "specifiers [] = Some []"
| "specifiers (c # s) =
    (if c = 37 then
       (case s of
          [] \<Rightarrow> None
        | d # s' \<Rightarrow> if d = 37 then map_option (\<lambda>r. 37 # r) (specifiers s') else None)
     else map_option (\<lambda>r. c # r) (specifiers s))"

lemma replace_char_Cons:
  "replace_char c by [] = []" "replace_char c by (x # s) = (if x = c then by else [x]) @ replace_char c by s"
  by (simp_all add: replace_char_def)

lemma replace_char_append: "replace_char c by (s @ t) = replace_char c by s @ replace_char c by t"
  by (simp add: replace_char_def)

lemma replace_char_same: "c \<notin> set s \<Longrightarrow> replace_char c by s = s"
  by (induction s) (auto simp: replace_char_Cons)

lemma set_replace_char: "set (replace_char c by s) \<subseteq> set s \<union> set by"
  by (auto simp: replace_char_def)

lemma specifiers_doubled: "specifiers (replace_char 37 [37, 37] s) = Some s"
  by (induction s) (auto simp: replace_char_Cons)

lemma doubled_chars: "x \<in> set (replace_char 37 [37, 37] s) \<longleftrightarrow> x \<in> set s"
  by (induction s) (auto simp: replace_char_Cons)

lemma unit_words_quoted:
  "unit_words True (Some w) (replace_char 34 [92, 34] (replace_char 92 [92, 92] s) @ [34] @ rest)
    = unit_words False (Some (w @ s)) rest"
  by (induction s arbitrary: w) (auto simp: replace_char_Cons replace_char_append)

lemma blank_is_ws: "unit_blank c \<Longrightarrow> is_ws c"
  by (auto simp: unit_blank_def is_ws_def)

lemma needs_quotes_Cons: "needs_quotes (c # s) \<longleftrightarrow> is_ws c \<or> c = 34 \<or> c = 92 \<or> needs_quotes s"
  by (auto simp: needs_quotes_def)

lemma unit_words_plain:
  assumes "\<not> needs_quotes s" "s \<noteq> [] \<or> word \<noteq> None"
  shows "unit_words False word (s @ rest) = unit_words False (Some (case word of None \<Rightarrow> s | Some w \<Rightarrow> w @ s)) rest"
  using assms
  by (induction s arbitrary: word) (auto simp: needs_quotes_Cons dest: blank_is_ws split: option.split)

lemma unit_escape_words:
  assumes "unit_escape p = Inr t" "p \<noteq> []"
  shows "unit_words False None (t @ rest) = unit_words False (Some (replace_char 37 [37, 37] p)) rest"
proof -
  have "replace_char 37 [37, 37] p \<noteq> []"
    using assms(2) by (cases p) (auto simp: replace_char_Cons)
  then show ?thesis
    using assms(1) unit_words_quoted [of "[]"]
    by (auto simp: unit_escape_def Let_def unit_words_plain unit_blank_def split: if_splits)
qed

text \<open>No control character is written, so a path does not end its line.\<close>

lemma unit_escape_line: "unit_escape p = Inr t \<Longrightarrow> \<not> (\<exists>c \<in> set t. is_control c)"
proof -
  assume t: "unit_escape p = Inr t"
  have q: "set (replace_char 34 [92, 34] (replace_char 92 [92, 92] s)) \<subseteq> set s \<union> {92, 34}" for s
    using set_replace_char [of 34 "[92, 34]"] set_replace_char [of 92 "[92, 92]" s] by fastforce
  have "set t \<subseteq> set p \<union> {92, 34}" "\<not> (\<exists>c \<in> set p. is_control c)"
    using t q [of "replace_char 37 [37, 37] p"] by (auto simp: unit_escape_def Let_def doubled_chars split: if_splits)
  then show ?thesis
    by (auto simp: is_control_def)
qed

text \<open>Two paths on a line with a blank between them are read as these two.\<close>

lemma unit_pair_read:
  assumes "unit_escape p = Inr t" "unit_escape q = Inr v" "p \<noteq> []" "q \<noteq> []"
  shows "map_option (map specifiers) (unit_words False None (t @ [32] @ v)) = Some [Some p, Some q]"
  using unit_escape_words [OF assms(2,4), of "[]"]
  by (simp add: unit_escape_words [OF assms(1,3)] unit_blank_def specifiers_doubled)

lemma unit_bind_escape: "unit_bind p = Inr t \<Longrightarrow> unit_escape p = Inr t \<and> 58 \<notin> set p"
proof -
  assume "unit_bind p = Inr t"
  then have t: "unit_escape p = Inr t" "58 \<notin> set t"
    by (auto simp: unit_bind_def attempt_def split: sum.splits if_splits)
  have "set p \<subseteq> set t"
    using t(1) by (auto simp: unit_escape_def Let_def replace_char_def split: if_splits)
  with t show ?thesis
    by auto
qed

lemma unit_escape_injective: "unit_escape p = Inr t \<Longrightarrow> unit_escape q = Inr t \<Longrightarrow> p = q"
proof -
  assume t: "unit_escape p = Inr t" "unit_escape q = Inr t"
  have empty: "replace_char 37 [37, 37] s = [] \<longleftrightarrow> s = []" for s
    by (cases s) (simp_all add: replace_char_Cons)
  have nil: "unit_escape s = Inr [] \<longleftrightarrow> s = []" for s
    by (cases "s = []") (simp_all add: unit_escape_def Let_def empty needs_quotes_def replace_char_Cons)
  show ?thesis
  proof (cases "t = []")
    case True
    with t nil show ?thesis by simp
  next
    case False
    with t nil [of p] nil [of q] have "p \<noteq> []" "q \<noteq> []"
      by auto
    then have "unit_words False None (t @ []) = Some [replace_char 37 [37, 37] p]"
        "unit_words False None (t @ []) = Some [replace_char 37 [37, 37] q]"
      using unit_escape_words [OF t(1), of "[]"] unit_escape_words [OF t(2), of "[]"] by simp_all
    then have "specifiers (replace_char 37 [37, 37] p) = specifiers (replace_char 37 [37, 37] q)"
      by simp
    then show ?thesis
      unfolding specifiers_doubled by simp
  qed
qed

section \<open>A string of a property list\<close>

text \<open>Reading character data: a literal line end is normalised away, so it is not this reader's.\<close>

fun xml_read :: "rstr \<Rightarrow> rstr option" where
  "xml_read [] = Some []"
| "xml_read (c # s) =
    (if c = 38 then
       (let name = takeWhile (\<lambda>x. x \<noteq> 59) s; rest = drop (length name + 1) s in
        (if name = lit ''amp'' then map_option (\<lambda>r. 38 # r) (xml_read rest)
         else if name = lit ''lt'' then map_option (\<lambda>r. 60 # r) (xml_read rest)
         else if name = lit ''gt'' then map_option (\<lambda>r. 62 # r) (xml_read rest)
         else if name = lit ''#9'' then map_option (\<lambda>r. 9 # r) (xml_read rest)
         else if name = lit ''#10'' then map_option (\<lambda>r. 10 # r) (xml_read rest)
         else if name = lit ''#13'' then map_option (\<lambda>r. 13 # r) (xml_read rest)
         else None))
     else if c = 60 \<or> c = 9 \<or> c = 10 \<or> c = 13 \<or> \<not> in_xml c then None
     else map_option (\<lambda>r. c # r) (xml_read s))"

lemma xml_read_reference:
  "xml_read (lit ''&amp;'' @ s) = map_option (\<lambda>r. 38 # r) (xml_read s)"
  "xml_read (lit ''&lt;'' @ s) = map_option (\<lambda>r. 60 # r) (xml_read s)"
  "xml_read (lit ''&gt;'' @ s) = map_option (\<lambda>r. 62 # r) (xml_read s)"
  "xml_read (lit ''&#9;'' @ s) = map_option (\<lambda>r. 9 # r) (xml_read s)"
  "xml_read (lit ''&#10;'' @ s) = map_option (\<lambda>r. 10 # r) (xml_read s)"
  "xml_read (lit ''&#13;'' @ s) = map_option (\<lambda>r. 13 # r) (xml_read s)"
  by (simp_all add: lit_Cons)

lemma xml_read_plain:
  "c \<noteq> 38 \<Longrightarrow> c \<noteq> 60 \<Longrightarrow> c \<noteq> 9 \<Longrightarrow> c \<noteq> 10 \<Longrightarrow> c \<noteq> 13 \<Longrightarrow> in_xml c \<Longrightarrow>
    xml_read ([c] @ s) = map_option (\<lambda>r. c # r) (xml_read s)"
  by simp

declare xml_read.simps(2) [simp del]

lemma xml_read_char:
  assumes "xml_char c = Some one"
  shows "xml_read (one @ s) = map_option (\<lambda>r. c # r) (xml_read s)"
  using assms unfolding xml_char_def
  by (auto simp: xml_read_reference xml_read_plain [unfolded append_Cons append_Nil] split: if_splits)

lemma xml_read_text: "xml_text p = Some t \<Longrightarrow> xml_read t = Some p"
  by (induction p arbitrary: t) (auto simp: xml_read_char split: option.splits)

text \<open>It is refused exactly when a character has no place in XML.\<close>

lemma xml_text_iff: "(\<exists>t. xml_text p = Some t) \<longleftrightarrow> (\<forall>c \<in> set p. in_xml c)"
  by (induction p) (auto simp: xml_char_def in_xml_def split: option.splits if_splits)

section \<open>A crontab line\<close>

text \<open>What cron does to the command: a per cent sign ends it unless a backslash is before it.\<close>

fun cron_read :: "rstr \<Rightarrow> rstr option" where
  "cron_read [] = Some []"
| "cron_read (c # s) =
    (if c = 37 then None
     else if c = 92 then
       (case s of
          [] \<Rightarrow> Some [92]
        | d # s' \<Rightarrow> map_option (\<lambda>r. (if d = 37 then [37] else [92, d]) @ r) (cron_read s'))
     else map_option (\<lambda>r. c # r) (cron_read s))"

text \<open>
  The words of the shell: single quotes keep everything, outside them a backslash takes the next character,
  and a character that is not plain may mean something else.
\<close>

fun shell_words :: "bool \<Rightarrow> rstr option \<Rightarrow> rstr \<Rightarrow> rstr list option" where
  "shell_words quoted word [] = (if quoted then None else Some (case word of None \<Rightarrow> [] | Some w \<Rightarrow> [w]))"
| "shell_words True word (c # s) =
    (if c = 39 then shell_words False word s else shell_words True (map_option (\<lambda>w. w @ [c]) word) s)"
| "shell_words False word (c # s) =
    (if c = 32 then
       (case word of
          None \<Rightarrow> shell_words False None s
        | Some w \<Rightarrow> map_option (\<lambda>ws. w # ws) (shell_words False None s))
     else if c = 39 then shell_words True (Some (case word of None \<Rightarrow> [] | Some w \<Rightarrow> w)) s
     else if c = 92 then
       (case s of
          [] \<Rightarrow> None
        | d # s' \<Rightarrow> shell_words False (Some (case word of None \<Rightarrow> [d] | Some w \<Rightarrow> w @ [d])) s')
     else if shell_plain c then shell_words False (Some (case word of None \<Rightarrow> [c] | Some w \<Rightarrow> w @ [c])) s
     else None)"

text \<open>A text whose backslashes all stand before a quote comes through cron as it was.\<close>

fun safe_backslashes :: "rstr \<Rightarrow> bool" where
  "safe_backslashes [] = True"
| "safe_backslashes (c # s) =
    (if c = 92 then (case s of [] \<Rightarrow> False | d # s' \<Rightarrow> d = 39 \<and> safe_backslashes s') else safe_backslashes s)"

lemma cron_read_escaped: "safe_backslashes s \<Longrightarrow> cron_read (replace_char 37 [92, 37] s) = Some s"
  by (induction s rule: safe_backslashes.induct) (auto simp: replace_char_Cons split: list.splits if_splits)

lemma safe_append: "safe_backslashes s \<Longrightarrow> safe_backslashes t \<Longrightarrow> safe_backslashes (s @ t)"
  by (induction s rule: safe_backslashes.induct) (auto split: list.splits if_splits)

lemma safe_none: "92 \<notin> set s \<Longrightarrow> safe_backslashes s"
  by (induction s) auto

lemma safe_quoted: "92 \<notin> set p \<Longrightarrow> safe_backslashes (replace_char 39 [39, 92, 39, 39] p @ [39])"
  by (induction p) (auto simp: replace_char_Cons)

lemma shell_word_safe: "shell_word p = Inr t \<Longrightarrow> safe_backslashes t"
  by (auto simp: shell_word_def safe_none safe_quoted split: if_splits)

lemma shell_words_quoted:
  "shell_words True (Some w) (replace_char 39 [39, 92, 39, 39] p @ [39] @ rest)
    = shell_words False (Some (w @ p)) rest"
  by (induction p arbitrary: w) (auto simp: replace_char_Cons)

lemma not_plain: "shell_plain c \<Longrightarrow> c \<noteq> 32 \<and> c \<noteq> 39 \<and> c \<noteq> 92"
  by (auto simp: shell_plain_def is_ascii_alnum_def is_digit_def is_upper_def is_lower_def lit_Cons)

lemma shell_words_plain:
  assumes "\<forall>c \<in> set s. shell_plain c" "s \<noteq> [] \<or> word \<noteq> None"
  shows "shell_words False word (s @ rest) = shell_words False (Some (case word of None \<Rightarrow> s | Some w \<Rightarrow> w @ s)) rest"
  using assms by (induction s arbitrary: word) (auto dest: not_plain split: option.split)

lemma shell_word_read:
  assumes "shell_word p = Inr t" "p \<noteq> []"
  shows "shell_words False None (t @ rest) = shell_words False (Some p) rest"
  using assms shell_words_quoted [of "[]"]
  by (auto simp: shell_word_def shell_words_plain split: if_splits)

lemma shell_words_word:
  assumes "\<forall>c \<in> set s. shell_plain c" "s \<noteq> []"
  shows "shell_words False None (s @ [32] @ rest) = map_option (\<lambda>ws. s # ws) (shell_words False None rest)"
  using shell_words_plain [of s None "32 # rest"] assms by simp

text \<open>The whole command, through cron and then the shell.\<close>

lemma crontab_command_read:
  assumes "crontab_command exec dev_path = Inr line" "exec \<noteq> []" "dev_path \<noteq> []"
  shows "Option.bind (cron_read line) (shell_words False None)
    = Some [exec, lit ''sync'', lit ''--quiet'', lit ''--config'', dev_path]"
proof -
  obtain e d where e: "shell_word exec = Inr e" and d: "shell_word dev_path = Inr d"
    and line: "line = replace_char 37 [92, 37] (e @ lit '' sync --quiet --config '' @ d)"
    using assms(1) by (auto simp: crontab_command_def attempt_def split: sum.splits)
  have "cron_read line = Some (e @ lit '' sync --quiet --config '' @ d)"
    unfolding line
    by (intro cron_read_escaped safe_append shell_word_safe [OF e] shell_word_safe [OF d] safe_none)
      (simp add: lit_Cons)
  moreover have "lit '' sync --quiet --config '' = [32] @ lit ''sync'' @ [32] @ lit ''--quiet'' @ [32] @ lit ''--config'' @ [32]"
    by (simp add: lit_Cons)
  moreover have "\<forall>c \<in> set (lit ''sync''). shell_plain c" "\<forall>c \<in> set (lit ''--quiet''). shell_plain c"
      "\<forall>c \<in> set (lit ''--config''). shell_plain c" "lit ''sync'' \<noteq> []" "lit ''--quiet'' \<noteq> []" "lit ''--config'' \<noteq> []"
    by (simp_all add: lit_Cons shell_plain_def is_ascii_alnum_def is_digit_def is_upper_def is_lower_def)
  ultimately show ?thesis
    using shell_word_read [OF e assms(2)] shell_word_read [OF d assms(3), of "[]"] shell_words_word
    by simp
qed

text \<open>When cron can say a period.\<close>

definition cron_says :: "nat \<Rightarrow> bool" where
  "cron_says s \<longleftrightarrow> s \<noteq> 0 \<and> 60 dvd s \<and> ((s div 60) dvd 60 \<or> 60 dvd (s div 60) \<and> (s div 60 div 60) dvd 24)"

lemma cron_schedule_iff: "cron_schedule d \<noteq> None \<longleftrightarrow> cron_says (d div SECOND)"
proof -
  have le: "n \<le> 60" if "n dvd 60" for n :: nat
    using that by (rule dvd_imp_le) simp
  have le': "n \<le> 24" if "n dvd 24" for n :: nat
    using that by (rule dvd_imp_le) simp
  define s m h where "s = d div SECOND" "m = s div 60" "h = m div 60"
  show ?thesis
    unfolding cron_schedule_def cron_says_def Let_def s_m_h_def [symmetric] dvd_eq_mod_eq_0 [symmetric]
    using le [of m] le' [of h]
    by (cases "s = 0"; cases "60 dvd s"; cases "m < 60"; cases "60 dvd m"; cases "h = 24"; cases "m = 1"; cases "h = 1") 
      (auto simp: s_m_h_def(3))
qed

text \<open>
  When such a schedule fires: five fields, of which the code writes a star, a number or a star with a step in
  the first two and a star in the others.
\<close>

definition cron_field :: "rstr \<Rightarrow> nat \<Rightarrow> bool" where
  "cron_field f v \<longleftrightarrow>
    f = lit ''*'' \<or> take 2 f = lit ''*/'' \<and> v mod dec_value (drop 2 f) = 0 \<or> f = dec_nat v"

definition cron_fires :: "rstr \<Rightarrow> nat \<Rightarrow> nat \<Rightarrow> bool" where
  "cron_fires s hour minute =
    (case split_whitespace s of
       [m, h, d, mo, w] \<Rightarrow> cron_field m minute \<and> cron_field h hour \<and> d = lit ''*'' \<and> mo = lit ''*'' \<and> w = lit ''*''
     | _ \<Rightarrow> False)"

lemma plain_star: "plain_word (lit ''*'')"
  by (simp add: plain_word_def lit_Cons is_ws_def)

lemma plain_zero: "plain_word (lit ''0'')"
  by (simp add: plain_word_def lit_Cons is_ws_def)

lemma plain_every: "plain_word (lit ''*/'' @ dec_nat n)"
  using dec_nat_no_ws [of n] by (simp add: plain_word_def lit_Cons is_ws_def [of 42] is_ws_def [of 47])

lemma field_star: "cron_field (lit ''*'') v"
  by (simp add: cron_field_def)

lemma dec_nat_hd: "dec_nat n \<noteq> 42 # s"
proof
  assume "dec_nat n = 42 # s"
  then have "is_digit 42" by (intro dec_nat_digit [of 42 n]) simp
  then show False by (simp add: is_digit_def)
qed

lemma field_every: "cron_field (lit ''*/'' @ dec_nat n) v \<longleftrightarrow> v mod n = 0"
  using dec_nat_hd [of v] by (auto simp: cron_field_def lit_Cons dec_nat_hd [symmetric])

lemma field_zero: "cron_field (lit ''0'') v \<longleftrightarrow> v = 0"
  using dec_nat_inject [of 0 v] by (auto simp: cron_field_def lit_Cons dec_nat.simps [of 0])

lemma fires_fields:
  assumes "plain_word m" "plain_word h"
  shows "cron_fires (m @ 32 # h @ 32 # lit ''* * *'') hour minute \<longleftrightarrow> cron_field m minute \<and> cron_field h hour"
proof -
  have "lit ''* * *'' = lit ''*'' @ 32 # lit ''*'' @ 32 # lit ''*''"
    by (simp add: lit_Cons)
  then show ?thesis
    using split_five [OF assms plain_star plain_star plain_star] by (simp add: cron_fires_def)
qed

lemma schedule_texts:
  "lit ''* * * * *'' = lit ''*'' @ 32 # lit ''*'' @ 32 # lit ''* * *''"
  "lit ''0 * * * *'' = lit ''0'' @ 32 # lit ''*'' @ 32 # lit ''* * *''"
  "lit ''0 0 * * *'' = lit ''0'' @ 32 # lit ''0'' @ 32 # lit ''* * *''"
  "lit ''*/'' @ dec_nat n @ lit '' * * * *'' = (lit ''*/'' @ dec_nat n) @ 32 # lit ''*'' @ 32 # lit ''* * *''"
  "lit ''0 */'' @ dec_nat n @ lit '' * * *'' = lit ''0'' @ 32 # (lit ''*/'' @ dec_nat n) @ 32 # lit ''* * *''"
  by (simp_all add: lit_Cons)

lemmas fires_simps = fires_fields [OF plain_star plain_star] fires_fields [OF plain_zero plain_star]
  fires_fields [OF plain_zero plain_zero] fires_fields [OF plain_every plain_star, unfolded append_assoc]
  fires_fields [OF plain_zero plain_every, unfolded append_assoc] field_star field_every field_zero

lemma minute_of_day:
  fixes n :: nat
  assumes "n dvd 60"
  shows "(60 * hour + minute) mod n = minute mod n"
proof -
  have "n dvd 60 * hour" using assms by (rule dvd_mult2)
  then show ?thesis by (metis add.commute mod_add_self2 mod_mult_self2 dvdE)
qed

text \<open>It fires exactly at the times of the day the period divides.\<close>

lemma cron_fires_iff:
  assumes s: "cron_schedule d = Some s" and m: "minute < 60" and h: "hour < 24"
  shows "cron_fires s hour minute \<longleftrightarrow> (60 * (60 * hour + minute)) mod (d div SECOND) = 0"
proof -
  define n where "n = d div SECOND div 60"
  have says: "cron_says (d div SECOND)"
    using s cron_schedule_iff [of d] by simp
  then have secs: "d div SECOND = 60 * n" "n \<noteq> 0"
    by (auto simp: cron_says_def n_def)
  have whole: "(60 * (60 * hour + minute)) mod (d div SECOND) = 0 \<longleftrightarrow> (60 * hour + minute) mod n = 0"
    unfolding secs by (simp only: mult_mod_right [symmetric]) simp
  show ?thesis
  proof (cases "n < 60")
    case True
    then have "n dvd 60"
      using says secs by (auto simp: cron_says_def dest: dvd_imp_le)
    then have "(60 * hour + minute) mod n = 0 \<longleftrightarrow> minute mod n = 0"
      by (simp add: minute_of_day)
    moreover have "s = (if n = 1 then lit ''* * * * *'' else lit ''*/'' @ dec_nat n @ lit '' * * * *'')"
      using s True secs by (auto simp: cron_schedule_def Let_def split: if_splits)
    ultimately show ?thesis
      unfolding whole by (simp add: schedule_texts fires_simps)
  next
    case False
    then have n: "60 dvd n" and k: "n div 60 dvd 24"
      using says secs by (auto simp: cron_says_def dest: dvd_imp_le)
    then obtain k where nk: "n = 60 * k" by auto
    have kp: "k dvd 24" "k \<noteq> 0" "k \<le> 24"
      using k False nk dvd_imp_le [of k 24] by auto
    have "60 dvd 60 * hour + minute \<longleftrightarrow> minute = 0"
      using m by (auto simp: dvd_add_right_iff dest: dvd_imp_le)
    then have "(60 * hour + minute) mod n = 0 \<longleftrightarrow> minute = 0 \<and> hour mod k = 0"
      unfolding nk by (auto simp: mod_eq_0_iff_dvd dest: dvd_mult_left)
    moreover have "s = (if k = 1 then lit ''0 * * * *'' else if k = 24 then lit ''0 0 * * *''
        else lit ''0 */'' @ dec_nat k @ lit '' * * *'')"
      using s False secs nk kp by (auto simp: cron_schedule_def Let_def split: if_splits)
    moreover have "hour mod 24 = 0 \<longleftrightarrow> hour = 0"
      using h by simp
    ultimately show ?thesis
      unfolding whole by (auto simp: schedule_texts fires_simps)
  qed
qed

end
