(* ===== verification/TimerFacts.thy ===== *)
theory TimerFacts
  imports UnitsFacts
begin

text \<open>
  What installing and removing the periodic sync leave behind. The service manager is \<open>logged\<close>: it answers
  as it likes, also by what it was told before, and what it was told is kept in order. An install is whole
  or is taken back: either every file is in place, with its text and its mode, and every command succeeded,
  or the files are gone and the commands of the way back were given, or the error says what is left.
\<close>

type_synonym manager_answers = "cmd list \<Rightarrow> cmd \<Rightarrow> fs \<Rightarrow> rstr + tool_answer"

definition logged :: "manager_answers \<Rightarrow> cmd list manager" where
  "logged answer c fs told = (answer told c fs, told @ [c])"

text \<open>A call says that a name is not there only when it is not.\<close>

definition faults_honest :: "'h dev_env \<Rightarrow> bool" where
  "faults_honest env \<longleftrightarrow> (\<forall>n e. se_fault (de_sys env) n = Some e \<longrightarrow> fst e \<noteq> IoNotFound)"

section \<open>Steps\<close>

fun told_by :: "timer_step \<Rightarrow> cmd list" where
  "told_by (RunStep c) = [c]"
| "told_by _ = []"

fun touched :: "timer_step \<Rightarrow> path set" where
  "touched (WriteStep f) = {tf_path f, wg_temp (tf_path f)}"
| "touched (DeleteStep p) = {p}"
| "touched (RunStep c) = {}"

fun step_ok :: "timer_step \<Rightarrow> bool" where
  "step_ok (WriteStep f) = (path_file_name (tf_path f) \<noteq> None)"
| "step_ok _ = True"

definition put_in_place :: "'h dev_env \<Rightarrow> timer_file \<Rightarrow> 'h site \<Rightarrow> bool" where
  "put_in_place env f s \<longleftrightarrow>
    look (files s) (tf_path f) = Some (Inl (finished (utf8 (tf_text f)) SYSTEM_FILE_MODE (se_self (de_sys env))))"

fun step_done :: "'h dev_env \<Rightarrow> timer_step \<Rightarrow> 'h site \<Rightarrow> bool" where
  "step_done env (WriteStep f) s = put_in_place env f s"
| "step_done env (DeleteStep p) s = (look (files s) p = None)"
| "step_done env (RunStep c) s = True"

definition moved :: "timer_step list \<Rightarrow> cmd list site \<Rightarrow> cmd list site \<Rightarrow> bool" where
  "moved steps s s' \<longleftrightarrow>
    si_hub s' = si_hub s @ concat (map told_by steps) \<and> frame (files s) (\<Union>step \<in> set steps. touched step) (files s')"

lemma moved_refl: "fs_ok (files s) \<Longrightarrow> moved [] s s"
  by (simp add: moved_def frame_refl)

lemma moved_Cons: "moved [step] s s1 \<Longrightarrow> moved steps s1 s2 \<Longrightarrow> moved (step # steps) s s2"
  by (auto simp: moved_def frame_def)

lemma moved_ok: "moved steps s s' \<Longrightarrow> fs_ok (files s')"
  by (simp add: moved_def frame_def)

lemma rp_write_system:
  assumes "path_file_name p \<noteq> None" "fs_ok (files s)"
  shows "rp env (on_files (write_system p contents))
    (\<lambda>_ s'. si_hub s' = si_hub s \<and> frame (files s) {p, wg_temp p} (files s')
      \<and> look (files s') p = Some (Inl (finished (utf8 contents) SYSTEM_FILE_MODE (se_self (de_sys env)))))
    (\<lambda>_ s'. si_hub s' = si_hub s \<and> frame (files s) {wg_temp p} (files s')) s"
proof -
  obtain n where n: "path_file_name p = Some n" using assms(1) by auto
  then have temp: "wg_temp p = path_with_file_name p (n @ lit ''.tmp'')" by (simp add: wg_temp_def)
  show ?thesis
    unfolding rp_on_files
    by (rule wp_mono [OF wp_write_system [OF n temp harmless_start [OF assms(2)]]])
      (use assms(2) in \<open>auto simp: frame_def published_def
        dest!: harmless_scratched scratched_frame [where T = "{wg_temp p}"]\<close>)
qed

lemma rp_ask_manager:
  "rp env (ask_manager (logged answer) c) Q R s \<longleftrightarrow>
    Q (answer (si_hub s) c (files s)) (s\<lparr>si_hub := si_hub s @ [c]\<rparr>)"
  by (simp add: rp_def ask_manager_def logged_def)

definition answered_well :: "manager_answers \<Rightarrow> cmd \<Rightarrow> cmd list site \<Rightarrow> bool" where
  "answered_well answer c s \<longleftrightarrow> (case answer (si_hub s) c (files s) of Inr out \<Rightarrow> ta_ok out | Inl _ \<Rightarrow> False)"

lemma rp_run_tool:
  "rp env (run_tool (logged answer) c)
    (\<lambda>_ s'. answered_well answer c s \<and> s' = s\<lparr>si_hub := si_hub s @ [c]\<rparr>)
    (\<lambda>_ s'. \<not> answered_well answer c s \<and> s' = s\<lparr>si_hub := si_hub s @ [c]\<rparr>) s"
  unfolding run_tool_def rp_bind rp_ask_manager
  by (auto simp: rp_simps answered_well_def split: sum.split)

lemma look_absent: "look (set_name p None s) p = None" "fs_names s p = None \<Longrightarrow> look s p = None"
  by (simp_all add: look_def set_name_def)

lemma wp_unlink_missing:
  assumes "fs_ok (w_fs w)" "\<And>n e. se_fault env n = Some e \<Longrightarrow> fst e \<noteq> IoNotFound"
  shows "wp env (sys_unlink p)
    (\<lambda>_ w'. lessened (w_fs w) {p} (w_fs w') \<and> look (w_fs w') p = None)
    (\<lambda>e w'. lessened (w_fs w) {p} (w_fs w') \<and> (fst e = IoNotFound \<longrightarrow> look (w_fs w') p = None)) w"
  using assms
  by (auto simp: sys_unlink_def wp_call lessened_def frame_def look_name look_absent no_entry_def is_a_directory_def
      split: option.split entry.split)

lemma rp_delete:
  assumes "faults_honest env" "fs_ok (files s)"
  shows "rp env (on_files (sys_unlink p))
    (\<lambda>_ s'. si_hub s' = si_hub s \<and> lessened (files s) {p} (files s') \<and> look (files s') p = None)
    (\<lambda>e s'. si_hub s' = si_hub s \<and> lessened (files s) {p} (files s') \<and> (fst e = IoNotFound \<longrightarrow> look (files s') p = None)) s"
proof -
  have "\<And>n e. se_fault (de_sys env) n = Some e \<Longrightarrow> fst e \<noteq> IoNotFound"
    using assms(1) unfolding faults_honest_def by blast
  from wp_unlink_missing [OF assms(2) this] show ?thesis
    unfolding rp_on_files by (rule wp_mono) auto
qed

lemma rp_ignore_missing:
  "rp env (on_files (ignore_missing m)) Q R s =
    rp env (on_files m) Q (\<lambda>e s'. if fst e = IoNotFound then Q () s' else R e s') s"
  unfolding rp_on_files ignore_missing_def wp_simps
  by (auto simp: wp_def io_return_def io_throw_def split: prod.splits sum.splits)

lemma rp_perform:
  assumes "faults_honest env" "step_ok step" "fs_ok (files s)"
  shows "rp env (perform (logged answer) step)
    (\<lambda>_ s'. moved [step] s s' \<and> step_done env step s') (\<lambda>_ s'. moved [step] s s') s"
proof (cases step)
  case (WriteStep f)
  then show ?thesis
    using assms by (auto simp: rp_map_err moved_def put_in_place_def intro!: rp_mono [OF rp_write_system] intro: frame_mono)
next
  case (DeleteStep p)
  then show ?thesis
    using assms(3)
    by (auto simp: rp_map_err rp_ignore_missing moved_def lessened_def intro!: rp_mono [OF rp_delete [OF assms(1)]])
next
  case (RunStep c)
  then show ?thesis
    using assms(3) by (auto simp: moved_def frame_refl intro!: rp_mono [OF rp_run_tool])
qed

section \<open>All the steps, and the way back\<close>

definition only_removes :: "timer_step list \<Rightarrow> bool" where
  "only_removes steps \<longleftrightarrow> (\<forall>f. WriteStep f \<notin> set steps)"

lemma lessened_frame: "lessened s0 T s \<Longrightarrow> frame s0 T s"
  by (simp add: lessened_def)

lemma lessened_refl: "fs_ok s \<Longrightarrow> lessened s T s"
  by (simp add: lessened_def frame_refl)

lemma lessened_absent: "lessened s0 T s \<Longrightarrow> look s0 p = None \<Longrightarrow> look s p = None"
  by (metis lessened_look)

lemma rp_perform_removing:
  assumes "faults_honest env" "fs_ok (files s)" "\<And>f. step \<noteq> WriteStep f"
  shows "rp env (perform (logged answer) step)
    (\<lambda>_ s'. moved [step] s s' \<and> lessened (files s) (touched step) (files s') \<and> step_done env step s')
    (\<lambda>_ s'. moved [step] s s' \<and> lessened (files s) (touched step) (files s')) s"
  using assms
  by (cases step)
    (auto simp: rp_map_err rp_ignore_missing moved_def frame_refl lessened_refl dest: lessened_frame
      intro!: rp_mono [OF rp_delete [OF assms(1)]] rp_mono [OF rp_run_tool])

lemma rp_perform_all:
  assumes honest: "faults_honest env"
  shows "fs_ok (files s) \<Longrightarrow> only_removes steps \<Longrightarrow>
    rp env (perform_all (logged answer) steps)
      (\<lambda>stuck s'. moved steps s s' \<and> lessened (files s) (\<Union>step \<in> set steps. touched step) (files s')
        \<and> (stuck = [] \<longrightarrow> (\<forall>p. DeleteStep p \<in> set steps \<longrightarrow> look (files s') p = None))) R s"
proof (induction steps arbitrary: s)
  case Nil
  then show ?case by (simp add: rp_simps moved_refl lessened_def frame_refl)
next
  case (Cons step steps)
  have removes: "only_removes steps" "\<And>f. step \<noteq> WriteStep f"
    using Cons.prems(2) by (auto simp: only_removes_def)
  have next_step: "rp env (perform_all (logged answer) steps)
      (\<lambda>stuck s'. moved (step # steps) s s' \<and> lessened (files s) (\<Union>step \<in> set (step # steps). touched step) (files s')
        \<and> (stuck = [] \<longrightarrow> (\<forall>p. DeleteStep p \<in> set steps \<longrightarrow> look (files s') p = None))
        \<and> (step_done env step s1 \<longrightarrow> step_done env step s')) R s1"
    if "moved [step] s s1" "lessened (files s) (touched step) (files s1)" for s1
  proof (rule rp_mono [OF Cons.IH [OF moved_ok [OF that(1)] removes(1)]], goal_cases)
    case (1 stuck s2)
    moreover have "step_done env step s1 \<longrightarrow> step_done env step s2"
    proof (cases step)
      case (DeleteStep p)
      with 1 show ?thesis by (metis lessened_absent step_done.simps(2))
    qed (simp_all add: removes(2))
    ultimately show ?case
      using that by (auto intro: moved_Cons lessened_trans)
  qed
  show ?case
    unfolding perform_all.simps rp_bind rp_catch
    by (rule rp_mono [OF rp_perform_removing [OF honest Cons.prems(1) removes(2)]])
      (auto simp: rp_return intro!: rp_mono [OF next_step])
qed

lemma rewind_removes: "only_removes (rewind_steps tp k)"
  by (cases tp) (simp_all add: only_removes_def)

lemma rp_unwind:
  assumes "faults_honest env" "fs_ok (files s)"
  shows "rp env (unwind (logged answer) tp k cause)
    (\<lambda>e s'. moved (rewind_steps tp k) s s'
      \<and> ((\<exists>said left. e = TmHalfUndone said left) \<or> e = cause \<and> (\<forall>p. DeleteStep p \<in> set (rewind_steps tp k) \<longrightarrow> look (files s') p = None))) R s"
  unfolding unwind_def rp_bind rp_env rp_return
  by (rule rp_mono [OF rp_perform_all [OF assms rewind_removes]]) auto

fun apart_steps :: "timer_step list \<Rightarrow> bool" where
  "apart_steps [] = True"
| "apart_steps (WriteStep f # steps) = ((\<forall>step \<in> set steps. tf_path f \<notin> touched step) \<and> apart_steps steps)"
| "apart_steps (_ # steps) = apart_steps steps"

lemma rp_perform_from:
  assumes honest: "faults_honest env"
  shows "fs_ok (files s) \<Longrightarrow> list_all step_ok steps \<Longrightarrow> apart_steps steps \<Longrightarrow>
    rp env (perform_from (logged answer) tp i steps)
      (\<lambda>_ s'. moved steps s s' \<and> (\<forall>f. WriteStep f \<in> set steps \<longrightarrow> put_in_place env f s'))
      (\<lambda>e s'. \<exists>k < length steps. moved (take (k + 1) steps @ rewind_steps tp (i + k)) s s'
        \<and> ((\<exists>said left. e = TmHalfUndone said left)
          \<or> (\<forall>p. DeleteStep p \<in> set (rewind_steps tp (i + k)) \<longrightarrow> look (files s') p = None))) s"
proof (induction steps arbitrary: s i)
  case Nil
  then show ?case by (simp add: rp_simps moved_refl)
next
  case (Cons step steps)
  have ok: "step_ok step" "list_all step_ok steps" "apart_steps steps"
    using Cons.prems by (auto elim: apart_steps.elims)
  show ?case
    unfolding perform_from.simps rp_bind rp_catch
  proof (rule rp_mono [OF rp_perform [OF honest ok(1) Cons.prems(1)]], goal_cases)
    case (1 x s1)
    then have s1: "moved [step] s s1" "step_done env step s1" by auto
    show ?case
      unfolding sum.case
    proof (rule rp_mono [OF Cons.IH [OF moved_ok [OF s1(1)] ok(2,3)]], goal_cases)
      case (1 _ s2)
      have "put_in_place env f s2" if "step = WriteStep f" for f
      proof -
        have "tf_path f \<notin> (\<Union>step \<in> set steps. touched step)"
          using Cons.prems(3) that by auto
        then have "look (files s2) (tf_path f) = look (files s1) (tf_path f)"
          using 1 by (auto simp: moved_def dest!: frame_look)
        with s1(2) that show ?thesis by (simp add: put_in_place_def)
      qed
      with 1 s1(1) show ?case by (auto intro: moved_Cons)
    next
      case (2 e s2)
      then obtain k where k: "k < length steps" "moved (take (k + 1) steps @ rewind_steps tp (i + 1 + k)) s1 s2"
        "(\<exists>said left. e = TmHalfUndone said left) \<or> (\<forall>p. DeleteStep p \<in> set (rewind_steps tp (i + 1 + k)) \<longrightarrow> look (files s2) p = None)"
        by auto
      then show ?case
        using moved_Cons [OF s1(1) k(2)] by (intro exI [of _ "k + 1"]) (simp add: add.assoc)
    qed
  next
    case (2 e s1)
    show ?case
      unfolding sum.case rp_bind rp_throw
    proof (rule rp_mono [OF rp_unwind [OF honest moved_ok [OF 2]]], goal_cases)
      case (1 e' s2)
      then have "moved (step # rewind_steps tp i) s s2" using 2 moved_Cons by blast
      with 1 show ?case by (intro exI [of _ 0]) auto
    qed assumption
  qed
qed

section \<open>Installing\<close>

definition seen_there :: "'h dev_env \<Rightarrow> fs \<Rightarrow> path \<Rightarrow> bool" where
  "seen_there env s p =
    (case fs_names s p of None \<Rightarrow> False | Some (LinkAt _) \<Rightarrow> se_link_there (de_sys env) p | Some _ \<Rightarrow> True)"

lemma rp_look_for:
  "rp env (look_for p)
    (\<lambda>here s'. files s' = files s \<and> si_hub s' = si_hub s \<and> here = seen_there env (files s) p)
    (\<lambda>_ s'. files s' = files s \<and> si_hub s' = si_hub s) s"
  by (auto simp: look_for_def rp_map_err rp_on_files try_exists_def wp_call seen_there_def split: option.split entry.split)

lemma rp_found_of:
  "rp env (found_of ps)
    (\<lambda>found s'. files s' = files s \<and> si_hub s' = si_hub s \<and> found = filter (seen_there env (files s)) ps)
    (\<lambda>_ s'. files s' = files s \<and> si_hub s' = si_hub s) s"
proof (induction ps arbitrary: s)
  case Nil
  then show ?case by (simp add: rp_simps)
next
  case (Cons p ps)
  have rest: "rp env (found_of ps)
      (\<lambda>found s'. files s' = files s \<and> si_hub s' = si_hub s \<and> found = filter (seen_there env (files s)) ps)
      (\<lambda>_ s'. files s' = files s \<and> si_hub s' = si_hub s) s1"
    if "files s1 = files s" "si_hub s1 = si_hub s" for s1
    using Cons.IH [of s1] that by simp
  show ?case
    unfolding found_of.simps rp_bind rp_return
    by (rule rp_mono [OF rp_look_for]) (auto intro!: rp_mono [OF rest])
qed

definition schedule_paths :: "scheduler \<Rightarrow> timer_setup \<Rightarrow> path list" where
  "schedule_paths machine setup = removal_files (removal_for machine (ts_unit_dir setup) (ts_daemon_dir setup))"

definition clear_plan :: "scheduler \<Rightarrow> timer_setup \<Rightarrow> timer_error + timer_plan" where
  "clear_plan machine setup = timer_plan_for machine \<lparr>es_joined = True, es_schedule = []\<rparr> setup"

lemma timer_plan_for_clear:
  "timer_plan_for machine have_now setup = Inr tp \<Longrightarrow>
    es_joined have_now \<and> es_schedule have_now = [] \<and> clear_plan machine setup = Inr tp"
  by (cases have_now) (auto simp: timer_plan_for_def clear_plan_def split: if_splits)

lemma unit_names:
  "path_file_name (unit_path dir SYNC_SERVICE) = Some SYNC_SERVICE"
  "path_file_name (unit_path dir SYNC_TIMER) = Some SYNC_TIMER"
  "path_file_name (plist_path dir) = Some (LAUNCHD_LABEL @ lit ''.plist'')"
  by (auto simp: unit_path_def plist_path_def SYNC_SERVICE_def SYNC_TIMER_def LAUNCHD_LABEL_def plain_name_def lit_Cons
      intro!: path_file_name_join)

lemma temp_file_name: "path_file_name p = Some n \<Longrightarrow> path_file_name (wg_temp p) = Some (n @ lit ''.tmp'')"
  using sibling_name [of p n "lit ''.tmp''"] by (simp add: wg_temp_def lit_Cons)

lemma units_apart:
  "unit_path dir SYNC_SERVICE \<noteq> unit_path dir SYNC_TIMER"
  "unit_path dir SYNC_SERVICE \<noteq> wg_temp (unit_path dir SYNC_TIMER)"
  using unit_names [of dir] temp_file_name [OF unit_names(2) [of dir]]
  by (auto simp: SYNC_SERVICE_def SYNC_TIMER_def lit_Cons)

lemma clear_plan_steps:
  assumes "clear_plan machine setup = Inr tp"
  shows "list_all step_ok (timer_steps tp)" "apart_steps (timer_steps tp)"
    "\<And>p. DeleteStep p \<in> set (rewind_steps tp k) \<longleftrightarrow> p \<in> set (schedule_paths machine setup)"
    "(\<Union>step \<in> set (timer_steps tp @ rewind_steps tp k). touched step)
      \<subseteq> (\<Union>p \<in> set (schedule_paths machine setup). {p, wg_temp p})"
  using assms units_apart
  by (auto simp: clear_plan_def timer_plan_for_def attempt_def unit_names schedule_paths_def removal_for_def
      split: scheduler.splits sum.splits if_splits)

lemma touched_take:
  "(\<Union>step \<in> set (take n steps @ later). touched step) \<subseteq> (\<Union>step \<in> set (steps @ later). touched step)"
  by (auto dest: in_set_takeD)

definition installed_as :: "cmd list dev_env \<Rightarrow> scheduler \<Rightarrow> timer_setup \<Rightarrow> timer_plan \<Rightarrow> cmd list site \<Rightarrow> cmd list site \<Rightarrow> bool" where
  "installed_as env machine setup tp s s' \<longleftrightarrow>
    (\<forall>f. WriteStep f \<in> set (timer_steps tp) \<longrightarrow> put_in_place env f s')
    \<and> si_hub s' = si_hub s @ concat (map told_by (timer_steps tp))"

definition taken_back :: "scheduler \<Rightarrow> timer_setup \<Rightarrow> timer_plan \<Rightarrow> timer_error \<Rightarrow> cmd list site \<Rightarrow> cmd list site \<Rightarrow> bool" where
  "taken_back machine setup tp e s s' \<longleftrightarrow>
    (\<exists>k < length (timer_steps tp).
      si_hub s' = si_hub s @ concat (map told_by (take (k + 1) (timer_steps tp) @ rewind_steps tp k)))
    \<and> ((\<exists>said left. e = TmHalfUndone said left) \<or> (\<forall>p \<in> set (schedule_paths machine setup). look (files s') p = None))"

lemma rp_timer_install:
  assumes honest: "faults_honest env" and ok: "fs_ok (files s)"
  shows "rp env (timer_install (logged answer) machine setup)
    (\<lambda>report s'. \<exists>tp. clear_plan machine setup = Inr tp \<and> report = timer_report tp (ts_device_file setup)
      \<and> seen_there env (files s) (ts_device_file setup)
      \<and> (\<forall>p \<in> set (schedule_paths machine setup). \<not> seen_there env (files s) p)
      \<and> installed_as env machine setup tp s s'
      \<and> frame (files s) (\<Union>p \<in> set (schedule_paths machine setup). {p, wg_temp p}) (files s'))
    (\<lambda>e s'. files s' = files s \<and> si_hub s' = si_hub s
      \<or> (\<exists>tp. clear_plan machine setup = Inr tp
          \<and> (\<forall>p \<in> set (schedule_paths machine setup). \<not> seen_there env (files s) p)
          \<and> taken_back machine setup tp e s s'
          \<and> frame (files s) (\<Union>p \<in> set (schedule_paths machine setup). {p, wg_temp p}) (files s'))) s"
  unfolding timer_install_def rp_bind
proof (rule rp_mono [OF rp_look_for], goal_cases)
  case (1 joined s1)
  show ?case
    unfolding schedule_here_def
  proof (rule rp_mono [OF rp_found_of], goal_cases)
    case (1 found s2)
    then have s2: "files s2 = files s" "si_hub s2 = si_hub s" using \<open>files s1 = files s \<and> _\<close> by auto
    let ?now = "\<lparr>es_joined = joined, es_schedule = found\<rparr>"
    show ?case
    proof (cases "timer_plan_for machine ?now setup")
      case (Inl e)
      with s2 show ?thesis by (simp add: rp_lift)
    next
      case (Inr tp)
      note plan = timer_plan_for_clear [OF Inr]
      note steps = clear_plan_steps [OF plan [THEN conjunct2, THEN conjunct2]]
      have none: "\<forall>p \<in> set (schedule_paths machine setup). \<not> seen_there env (files s) p"
        using plan 1 \<open>files s1 = files s \<and> _\<close> by (simp add: schedule_paths_def filter_empty_conv)
      have moved: "frame (files s) (\<Union>p \<in> set (schedule_paths machine setup). {p, wg_temp p}) (files s')"
        if "moved (take n (timer_steps tp) @ rewind_steps tp k) s2 s' \<or> moved (timer_steps tp) s2 s'" for n k s'
      proof -
        have "(\<Union>step \<in> set (timer_steps tp). touched step) \<subseteq> (\<Union>step \<in> set (timer_steps tp @ rewind_steps tp k). touched step)"
          by auto
        note sub = order_trans [OF touched_take steps(4)] order_trans [OF this steps(4)]
        from that show ?thesis
          unfolding moved_def s2 by (elim disjE conjE) (erule frame_mono [OF _ sub(1)], erule frame_mono [OF _ sub(2)])
      qed
      show ?thesis
        unfolding rp_lift Inr sum.case rp_then rp_return
      proof (rule rp_mono [OF rp_perform_from [OF honest _ steps(1,2)]], goal_cases)
        case 1
        with ok s2 show ?case by simp
      next
        case (2 _ s')
        with plan none moved [of 0 0 s'] \<open>_ \<and> _ \<and> joined = _\<close> s2 show ?case
          by (auto simp: installed_as_def moved_def)
      next
        case (3 e s')
        then obtain k where k: "k < length (timer_steps tp)"
          "moved (take (k + 1) (timer_steps tp) @ rewind_steps tp k) s2 s'"
          "(\<exists>said left. e = TmHalfUndone said left) \<or> (\<forall>p. DeleteStep p \<in> set (rewind_steps tp k) \<longrightarrow> look (files s') p = None)"
          by auto
        then have "taken_back machine setup tp e s s'"
          using s2 steps(3) [of _ k] by (auto simp: taken_back_def moved_def)
        with plan none moved [of "k + 1" k s'] k(2) show ?case by blast
      qed
    qed
  qed (use 1 in auto)
qed simp

section \<open>Removing\<close>

definition deletion_error :: "path list \<Rightarrow> timer_error \<Rightarrow> bool" where
  "deletion_error ps e \<longleftrightarrow> (\<exists>p \<in> set ps. \<exists>cause. e = remove_file_error p cause)"

lemma deletion_error_later: "deletion_error ps e \<Longrightarrow> deletion_error (p # ps) e"
  by (simp add: deletion_error_def)

lemma deletion_error_here: "deletion_error (p # ps) (remove_file_error p cause)"
  unfolding deletion_error_def by (rule bexI [of _ p], rule exI, rule refl, simp)

lemmas deletion_error_Cons = deletion_error_later deletion_error_here

lemma rp_delete_all:
  assumes honest: "faults_honest env"
  shows "fs_ok (files s) \<Longrightarrow>
    rp env (delete_all ps)
      (\<lambda>gone s'. si_hub s' = si_hub s \<and> lessened (files s) (set ps) (files s')
        \<and> (\<forall>p \<in> set ps. look (files s') p = None) \<and> set gone \<subseteq> set ps)
      (\<lambda>e s'. si_hub s' = si_hub s \<and> lessened (files s) (set ps) (files s')
        \<and> deletion_error ps e) s"
proof (induction ps arbitrary: s)
  case Nil
  then show ?case by (simp add: rp_simps lessened_refl)
next
  case (Cons p ps)
  have rest: "rp env (delete_all ps)
      (\<lambda>gone s'. si_hub s' = si_hub s \<and> lessened (files s) (set (p # ps)) (files s')
        \<and> (\<forall>q \<in> set (p # ps). look (files s') q = None) \<and> set gone \<subseteq> set (p # ps))
      (\<lambda>e s'. si_hub s' = si_hub s \<and> lessened (files s) (set (p # ps)) (files s')
        \<and> deletion_error (p # ps) e) s1"
    if s1: "si_hub s1 = si_hub s" "lessened (files s) {p} (files s1)" "look (files s1) p = None" for s1
    by (rule rp_mono [OF Cons.IH [OF lessened_ok [OF s1(2)]]])
      (use s1 lessened_absent lessened_trans [OF s1(2)] in \<open>auto simp del: look_None intro: deletion_error_Cons\<close>)
  show ?case
    unfolding delete_all.simps rp_bind rp_catch
  proof (rule rp_mono [OF rp_delete [OF honest Cons.prems]], goal_cases)
    case (1 x s1)
    then show ?case
      unfolding sum.case rp_bind rp_return by (auto intro!: rp_mono [OF rest])
  next
    case (2 e s1)
    obtain kind source where e: "e = (kind, source)" by (cases e)
    show ?case
    proof (cases "kind = IoNotFound")
      case True
      with 2 e show ?thesis by (auto intro!: rp_mono [OF rest])
    next
      case False
      with 2 e show ?thesis
        by (auto simp: rp_throw intro: lessened_mono deletion_error_Cons)
    qed
  qed
qed

text \<open>Whether the manager confirmed that the schedule does not run: it stopped it, or said it is not there.\<close>

definition stop_worked :: "manager_answers \<Rightarrow> timer_removal \<Rightarrow> cmd list site \<Rightarrow> bool" where
  "stop_worked answer removal s \<longleftrightarrow>
    removal = NoRemoval \<or> (\<exists>c. stop_command removal = Some c \<and> answered_well answer c s)"

definition said_absent :: "manager_answers \<Rightarrow> timer_removal \<Rightarrow> cmd list site \<Rightarrow> bool" where
  "said_absent answer removal s \<longleftrightarrow>
    (\<exists>told c out. si_hub s = told @ [c] \<and> answer told c (files s) = Inr out
      \<and> still_there (removal_scheduler removal) (ta_ok out) (ta_stdout out) (ta_stderr out) = Some False)"

lemma rp_still_loaded:
  "rp env (still_loaded (logged answer) removal)
    (\<lambda>still s'. files s' = files s \<and> (still = Some False \<longrightarrow> removal = NoRemoval \<or> said_absent answer removal s')) R s"
  by (cases removal)
    (auto simp: rp_simps rp_ask_manager said_absent_def split: sum.split)

lemma rp_reload:
  "rp env (if reload then run_tool (logged answer) c else run_return ())
    (\<lambda>_ s'. files s' = files s \<and> (\<not> reload \<longrightarrow> s' = s)) (\<lambda>_ s'. files s' = files s) s"
  by (auto simp: rp_simps intro!: rp_mono [OF rp_run_tool])

lemma rp_timer_uninstall:
  assumes honest: "faults_honest env" and ok: "fs_ok (files s)"
  shows "rp env (timer_uninstall (logged answer) removal)
    (\<lambda>_ s'. lessened (files s) (set (removal_files removal)) (files s')
      \<and> (\<forall>p \<in> set (removal_files removal). look (files s') p = None)
      \<and> (stop_worked answer removal s \<or> said_absent answer removal s'))
    (\<lambda>e s'. lessened (files s) (set (removal_files removal)) (files s')
      \<and> ((\<exists>why confirmed check. e = TmNotStopped why confirmed check) \<longrightarrow>
          (\<forall>p \<in> set (removal_files removal). look (files s') p = None))) s"
proof -
  define asked :: "(cmd list, timer_error, (timer_error + unit) option) run" where
    "asked = (case stop_command removal of
        None \<Rightarrow> run_return None
      | Some c \<Rightarrow> run_bind (run_catch (run_tool (logged answer) c)) (\<lambda>r. run_return (Some r)))"
  have stop: "rp env asked
      (\<lambda>stop s'. files s' = files s \<and> ((\<exists>e. stop = Some (Inl e)) \<or> stop_worked answer removal s)) R s" for R
    unfolding asked_def
    by (cases removal) (auto simp: rp_simps stop_worked_def intro!: rp_mono [OF rp_run_tool])
  have never: "remove_file_error p cause \<noteq> TmNotStopped why confirmed check" for p cause why confirmed check
    by (cases cause) (simp add: remove_file_error_def)
  have never_reload: "rp env (if reload then run_tool (logged answer) c else run_return ())
      (\<lambda>_ s'. files s' = files s1)
      (\<lambda>e s'. files s' = files s1 \<and> (\<forall>why confirmed check. e \<noteq> TmNotStopped why confirmed check)) s1" for reload c s1
    unfolding run_tool_def by (auto simp: rp_simps rp_ask_manager split: sum.split)
  show ?thesis
    unfolding timer_uninstall_def asked_def [symmetric] rp_bind
  proof (rule rp_mono [OF stop], goal_cases)
    case (1 stop_result s1)
    then have s1: "files s1 = files s" "(\<exists>e. stop_result = Some (Inl e)) \<or> stop_worked answer removal s" "fs_ok (files s1)"
      using ok by simp_all
    show ?case
    proof (rule rp_mono [OF rp_delete_all [OF honest s1(3)]], goal_cases)
      case (1 gone s2)
      then have gone: "lessened (files s) (set (removal_files removal)) (files s2)" "\<forall>p \<in> set (removal_files removal). look (files s2) p = None"
        using s1(1) by simp_all
      show ?case
        unfolding rp_then
      proof (rule rp_mono [OF never_reload], goal_cases)
        case (1 _ s3)
        show ?case
        proof (cases "\<exists>e. stop_result = Some (Inl e)")
          case True
          with 1 gone show ?thesis
            by (auto simp: rp_simps stopped_state_def Let_def removal_report_def stop_worked_def
              intro!: rp_mono [OF rp_still_loaded] split: option.split bool.split)
        next
          case False
          with 1 gone s1(2) show ?thesis
            by (auto simp: rp_simps split: option.split sum.split)
        qed
      next
        case (2 e s3)
        with gone show ?case by auto
      qed
    next
      case (2 e s2)
      with s1(1) never show ?case by (auto simp: deletion_error_def)
    qed
  qed simp
qed

end
