(* ===== verification/Probe.thy ===== *)
theory Probe
  imports Dnswire HttpClient
begin

text \<open>
  \<open>crates/anago/src/dnsprobe.rs\<close>: waiting until the zone's nameservers serve a TXT record. The policy is a
  function of what was seen and of the time gone by. The sockets, the resolver and the clock are a parameter,
  \<open>probe_env\<close>: every call takes the time it is made at and answers with the time it returns. \<open>None\<close> is a
  panic of \<open>attempt_budget\<close>, or a wait that needs more looks than it was given; the last part shows that 32
  looks are enough.
\<close>

section \<open>The policy\<close>

definition POLL_INTERVAL :: nat where "POLL_INTERVAL = 2 * SECOND"
definition POLL_TIMEOUT :: nat where "POLL_TIMEOUT = 60 * SECOND"
definition BLIND_AFTER :: nat where "BLIND_AFTER = 10 * SECOND"
definition SETTLE :: nat where "SETTLE = 5 * SECOND"
definition QUERY_TIMEOUT :: nat where "QUERY_TIMEOUT = 2 * SECOND"
definition MAX_MESSAGE :: nat where "MAX_MESSAGE = unat UDP_PAYLOAD"

datatype probe_answer = Serving | NotYetServed | Silent
datatype probe_look = LookServed | LookMissing | LookUnobservable

definition probe_seen :: "probe_answer list \<Rightarrow> probe_look" where
  "probe_seen answers =
    (let heard = filter (\<lambda>a. a \<noteq> Silent) answers in
     if heard = [] then LookUnobservable
     else if \<forall>a \<in> set heard. a = Serving then LookServed
     else LookMissing)"

datatype probe_step = LookAgain nat | SettleStep nat | BlindStep nat | GiveUpStep nat

definition until :: "nat \<Rightarrow> nat \<Rightarrow> nat" where
  "until deadline elapsed = min POLL_INTERVAL (deadline - elapsed)"

definition next_step :: "probe_look \<Rightarrow> nat \<Rightarrow> probe_step" where
  "next_step seen elapsed =
    (case seen of
       LookServed \<Rightarrow> SettleStep SETTLE
     | LookUnobservable \<Rightarrow>
         if BLIND_AFTER \<le> elapsed then BlindStep SETTLE else LookAgain (until BLIND_AFTER elapsed)
     | LookMissing \<Rightarrow>
         if elapsed \<le> POLL_TIMEOUT \<and> POLL_TIMEOUT - elapsed \<noteq> 0
         then LookAgain (min POLL_INTERVAL (POLL_TIMEOUT - elapsed)) else GiveUpStep elapsed)"

datatype probe_outcome = OutcomeServed nat | OutcomeBlind nat

fun outcome_warning :: "probe_outcome \<Rightarrow> rstr option" where
  "outcome_warning (OutcomeServed waited) = None"
| "outcome_warning (OutcomeBlind waited) = Some
     (lit ''warning: anago could not check DNS from this machine '' @ [0x2014]
     @ lit '' no nameserver answered its TXT question, which usually means outbound UDP port 53 ''
     @ lit ''is blocked. The challenge record was published and validation is going ahead without ''
     @ lit ''that check, so a failure here may just be a record that had not spread yet.'')"

datatype probe_error =
    NotServed rstr nat
  | ProbeName dns_error
  | Unreachable rstr
  | Unreadable dns_error

fun probe_error_show :: "probe_error \<Rightarrow> rstr" where
  "probe_error_show (NotServed name waited) =
     (lit ''the DNS-01 record for '')
     @ name
     @ (lit '' was published, and the nameservers for the zone were still not serving it '')
     @ dec_nat (waited div SECOND)
     @ (lit '' seconds later '' @ [0x2014]
     @ lit '' so anago did not ask for a validation that was going to fail. Try again, or use ''
     @ lit ''HTTP-01 (--acme-challenge http-01), which does not wait on DNS at all'')"
| "probe_error_show (ProbeName e) = dns_error_show e"
| "probe_error_show (Unreachable detail) = lit ''a nameserver could not be asked: '' @ detail"
| "probe_error_show (Unreadable e) = dns_error_show e"

section \<open>One question\<close>

record sock_addr =
  sa_text :: rstr
  sa_is_ipv4 :: bool

record probe_env =
  pb_nanos :: "nat \<Rightarrow> nat"
  pb_pid :: nat
  pb_resolve :: "nat \<Rightarrow> rstr \<Rightarrow> (rstr + sock_addr list) \<times> nat"
  pb_bind :: "nat \<Rightarrow> rstr \<Rightarrow> (rstr + unit) \<times> nat"
  pb_set_timeout :: "nat \<Rightarrow> nat \<Rightarrow> (rstr + unit) \<times> nat"
  pb_send :: "nat \<Rightarrow> u8 list \<Rightarrow> sock_addr \<Rightarrow> (rstr + unit) \<times> nat"
  pb_recv :: "nat \<Rightarrow> (rstr + (u8 list \<times> sock_addr)) \<times> nat"
  pb_sleep :: "nat \<Rightarrow> nat \<Rightarrow> nat"

definition question_id :: "probe_env \<Rightarrow> nat \<Rightarrow> u16" where
  "question_id env now = (of_nat (pb_nanos env now) :: u16) XOR of_nat (pb_pid env)"

definition read_reply :: "reply \<Rightarrow> rstr \<Rightarrow> probe_answer" where
  "read_reply r v =
    (if \<not> reply_answered r then Silent
     else if reply_holds r v then Serving
     else if rp_truncated r then Silent
     else NotYetServed)"

text \<open>The reads of one exchange: at most as many datagrams as the first number says.\<close>

fun read_datagrams ::
  "probe_env \<Rightarrow> sock_addr \<Rightarrow> u16 \<Rightarrow> rstr \<Rightarrow> nat \<Rightarrow> nat \<Rightarrow> (probe_error + reply) \<times> nat" where
  "read_datagrams env address i name 0 now = (Inl (Unreachable (sa_text address @ lit '' answered a different question'')), now)"
| "read_datagrams env address i name (Suc n) now =
    (case pb_recv env now of
       (Inl e, t) \<Rightarrow> (Inl (Unreachable e), t)
     | (Inr (bytes, sender), t) \<Rightarrow>
         if sender \<noteq> address then read_datagrams env address i name n t
         else case read_txt (take MAX_MESSAGE bytes) i name of
           Inr r \<Rightarrow> (Inr r, t)
         | Inl e \<Rightarrow> if e = NotOurQuestion then read_datagrams env address i name n t else (Inl (Unreadable e), t))"

definition ask_address ::
  "probe_env \<Rightarrow> sock_addr \<Rightarrow> u8 list \<Rightarrow> u16 \<Rightarrow> rstr \<Rightarrow> nat \<Rightarrow> nat \<Rightarrow> (probe_error + reply) \<times> nat" where
  "ask_address env address message i name budget now =
    (case pb_bind env now (if sa_is_ipv4 address then lit ''0.0.0.0:0'' else lit ''[::]:0'') of
       (Inl e, t) \<Rightarrow> (Inl (Unreachable e), t)
     | (Inr _, t) \<Rightarrow>
        (case pb_set_timeout env t budget of
           (Inl e, t) \<Rightarrow> (Inl (Unreachable e), t)
         | (Inr _, t) \<Rightarrow>
            (case pb_send env t message address of
               (Inl e, t) \<Rightarrow> (Inl (Unreachable e), t)
             | (Inr _, t) \<Rightarrow> read_datagrams env address i name 4 t)))"

text \<open>Every address of one server, within the time of one question.\<close>

fun ask_addresses ::
  "probe_env \<Rightarrow> rstr \<Rightarrow> u8 list \<Rightarrow> u16 \<Rightarrow> rstr \<Rightarrow> nat \<Rightarrow> sock_addr list \<Rightarrow> probe_error option \<Rightarrow> nat
    \<Rightarrow> ((probe_error + reply) \<times> nat) option" where
  "ask_addresses env server message i name started [] failed now =
    Some (Inl (case failed of Some e \<Rightarrow> e | None \<Rightarrow> Unreachable (server @ lit '' ran out of time'')), now)"
| "ask_addresses env server message i name started (address # rest) failed now =
    (case attempt_budget (QUERY_TIMEOUT - (now - started)) (length (address # rest)) of
       None \<Rightarrow> None
     | Some budget \<Rightarrow>
         if budget = 0 then
           Some (Inl (case failed of Some e \<Rightarrow> e | None \<Rightarrow> Unreachable (server @ lit '' ran out of time'')), now)
         else case ask_address env address message i name budget now of
           (Inr r, t) \<Rightarrow> Some (Inr r, t)
         | (Inl e, t) \<Rightarrow> ask_addresses env server message i name started rest (Some e) t)"

definition probe_query :: "probe_env \<Rightarrow> rstr \<Rightarrow> rstr \<Rightarrow> nat \<Rightarrow> ((probe_error + reply) \<times> nat) option" where
  "probe_query env server name now =
    (let i = question_id env now in
     case txt_query i name of
       Inl e \<Rightarrow> Some (Inl (ProbeName e), now)
     | Inr message \<Rightarrow>
        (case pb_resolve env now server of
           (Inl e, t) \<Rightarrow> Some (Inl (Unreachable e), t)
         | (Inr addresses, t) \<Rightarrow>
            if addresses = [] then Some (Inl (Unreachable (server @ lit '' has no address'')), t)
            else ask_addresses env server message i name t addresses None t))"

definition probe_ask :: "probe_env \<Rightarrow> rstr \<Rightarrow> rstr \<Rightarrow> rstr \<Rightarrow> nat \<Rightarrow> (probe_answer \<times> nat) option" where
  "probe_ask env server name v now =
    (case probe_query env server name now of
       None \<Rightarrow> None
     | Some (Inr r, t) \<Rightarrow> Some (read_reply r v, t)
     | Some (Inl _, t) \<Rightarrow> Some (Silent, t))"

fun ask_all :: "probe_env \<Rightarrow> rstr list \<Rightarrow> rstr \<Rightarrow> rstr \<Rightarrow> nat \<Rightarrow> (probe_answer list \<times> nat) option" where
  "ask_all env [] name v now = Some ([], now)"
| "ask_all env (server # servers) name v now =
    (case probe_ask env server name v now of
       None \<Rightarrow> None
     | Some (a, t) \<Rightarrow>
        (case ask_all env servers name v t of None \<Rightarrow> None | Some (answers, t) \<Rightarrow> Some (a # answers, t)))"

section \<open>The wait\<close>

fun wait_loop ::
  "probe_env \<Rightarrow> rstr list \<Rightarrow> rstr \<Rightarrow> rstr \<Rightarrow> nat \<Rightarrow> nat \<Rightarrow> nat \<Rightarrow> ((probe_error + probe_outcome) \<times> nat) option" where
  "wait_loop env servers name v started 0 now = None"
| "wait_loop env servers name v started (Suc n) now =
    (case ask_all env servers name v now of
       None \<Rightarrow> None
     | Some (answers, t) \<Rightarrow>
        (case next_step (probe_seen answers) (t - started) of
           SettleStep pause \<Rightarrow> (let t = pb_sleep env t pause in Some (Inr (OutcomeServed (t - started)), t))
         | BlindStep pause \<Rightarrow> (let t = pb_sleep env t pause in Some (Inr (OutcomeBlind (t - started)), t))
         | LookAgain pause \<Rightarrow> wait_loop env servers name v started n (pb_sleep env t pause)
         | GiveUpStep waited \<Rightarrow> Some (Inl (NotServed name waited), t)))"

definition probe_wait ::
  "probe_env \<Rightarrow> nat \<Rightarrow> rstr list \<Rightarrow> rstr \<Rightarrow> rstr \<Rightarrow> nat \<Rightarrow> ((probe_error + probe_outcome) \<times> nat) option" where
  "probe_wait env looks servers name v now =
    (case txt_query 0 name of
       Inl e \<Rightarrow> Some (Inl (ProbeName e), now)
     | Inr _ \<Rightarrow>
        if servers = [] then Some (Inr (OutcomeBlind 0), now)
        else wait_loop env servers name v now looks now)"

section \<open>It ends\<close>

text \<open>Time does not go back, a sleep lasts at least as long as asked, and no name has too many addresses.\<close>

definition time_passes :: "probe_env \<Rightarrow> bool" where
  "time_passes env \<longleftrightarrow>
    (\<forall>now d. now + d \<le> pb_sleep env now d)
    \<and> (\<forall>now server. now \<le> snd (pb_resolve env now server))
    \<and> (\<forall>now server addresses t. pb_resolve env now server = (Inr addresses, t) \<longrightarrow> length addresses < 2 ^ 32)
    \<and> (\<forall>now local. now \<le> snd (pb_bind env now local))
    \<and> (\<forall>now d. now \<le> snd (pb_set_timeout env now d))
    \<and> (\<forall>now message address. now \<le> snd (pb_send env now message address))
    \<and> (\<forall>now. now \<le> snd (pb_recv env now))"

lemma time_passes_pairs:
  assumes "time_passes env"
  shows "pb_resolve env now server = (r, t) \<Longrightarrow> now \<le> t" "pb_bind env now local = (b, t) \<Longrightarrow> now \<le> t"
    "pb_set_timeout env now d = (b, t) \<Longrightarrow> now \<le> t" "pb_send env now message address = (b, t) \<Longrightarrow> now \<le> t"
    "pb_recv env now = (x, t) \<Longrightarrow> now \<le> t" "now + d \<le> pb_sleep env now d"
    "pb_resolve env now server = (Inr addresses, t) \<Longrightarrow> length addresses < 2 ^ 32"
  using assms unfolding time_passes_def by (metis snd_conv)+

lemma read_datagrams_time: "time_passes env \<Longrightarrow> now \<le> snd (read_datagrams env address i name n now)"
proof (induction n arbitrary: now)
  case (Suc n)
  obtain r t where r: "pb_recv env now = (r, t)" by (cases "pb_recv env now")
  then have "now \<le> t" using time_passes_pairs(5) [OF Suc.prems] by simp
  with Suc.IH [OF Suc.prems, of t] r show ?case
    by (auto split: sum.split prod.split)
qed simp

lemma ask_address_time:
  assumes time: "time_passes env"
  shows "now \<le> snd (ask_address env address message i name budget now)"
proof -
  define local_end where "local_end = (if sa_is_ipv4 address then lit ''0.0.0.0:0'' else lit ''[::]:0'')"
  obtain b t1 where b: "pb_bind env now local_end = (b, t1)" by (cases "pb_bind env now local_end")
  obtain c t2 where c: "pb_set_timeout env t1 budget = (c, t2)" by (cases "pb_set_timeout env t1 budget")
  obtain d t3 where d: "pb_send env t2 message address = (d, t3)" by (cases "pb_send env t2 message address")
  note steps = time_passes_pairs(2) [OF time b] time_passes_pairs(3) [OF time c] time_passes_pairs(4) [OF time d]
  note read_datagrams_time [OF time, of t3 address i name 4]
  with steps show ?thesis
    unfolding ask_address_def local_end_def [symmetric] by (simp add: b c d split: sum.split)
qed

lemma attempt_budget_total: "k < 2 ^ 32 \<Longrightarrow> attempt_budget r k \<noteq> None"
  by (auto simp: attempt_budget_def Let_def)

lemma ask_addresses_total:
  assumes time: "time_passes env"
  shows "length addresses < 2 ^ 32 \<Longrightarrow>
    \<exists>r t. ask_addresses env server message i name started addresses failed now = Some (r, t) \<and> now \<le> t"
proof (induction addresses arbitrary: failed now)
  case Nil
  then show ?case by simp
next
  case (Cons address rest)
  obtain budget where b: "attempt_budget (QUERY_TIMEOUT - (now - started)) (length (address # rest)) = Some budget"
    using attempt_budget_total [OF Cons.prems] by blast
  obtain r t where r: "ask_address env address message i name budget now = (r, t)"
    by (cases "ask_address env address message i name budget now")
  then have t: "now \<le> t" using ask_address_time [OF time] by (metis snd_conv)
  have rest: "length rest < 2 ^ 32" using Cons.prems by simp
  have "\<exists>r u. ask_addresses env server message i name started rest (Some e) t = Some (r, u) \<and> now \<le> u" for e
    using Cons.IH [OF rest, of "Some e" t] t order_trans by blast
  with t show ?case
    using b r by (cases r) auto
qed

lemma probe_ask_total: "time_passes env \<Longrightarrow> \<exists>a t. probe_ask env server name v now = Some (a, t) \<and> now \<le> t"
proof -
  assume time: "time_passes env"
  have "\<exists>r t. probe_query env server name now = Some (r, t) \<and> now \<le> t"
  proof (cases "txt_query (question_id env now) name")
    case (Inl e)
    then show ?thesis by (simp add: probe_query_def Let_def)
  next
    case (Inr message)
    obtain r t where r: "pb_resolve env now server = (r, t)" by (cases "pb_resolve env now server")
    then have t: "now \<le> t" using time_passes_pairs(1) [OF time] by simp
    show ?thesis
    proof (cases r)
      case (Inl e)
      with \<open>txt_query _ name = Inr message\<close> r t show ?thesis by (simp add: probe_query_def Let_def)
    next
      case (Inr addresses)
      then have "length addresses < 2 ^ 32" using r time_passes_pairs(7) [OF time] by simp
      from ask_addresses_total [OF time this] obtain a u where
        "ask_addresses env server message (question_id env now) name t addresses None t = Some (a, u)" "t \<le> u"
        by blast
      with \<open>txt_query _ name = Inr message\<close> Inr r t show ?thesis
        by (auto simp: probe_query_def Let_def)
    qed
  qed
  then show ?thesis
    by (auto simp: probe_ask_def split: sum.split)
qed

lemma ask_all_total: "time_passes env \<Longrightarrow> \<exists>answers t. ask_all env servers name v now = Some (answers, t) \<and> now \<le> t"
proof (induction servers arbitrary: now)
  case (Cons server servers)
  obtain a t where a: "probe_ask env server name v now = Some (a, t)" "now \<le> t"
    using probe_ask_total [OF Cons.prems] by blast
  obtain answers u where "ask_all env servers name v t = Some (answers, u)" "t \<le> u"
    using Cons.IH [OF Cons.prems] by blast
  with a show ?case by auto
qed simp

text \<open>How many looks may still come, by the time gone by.\<close>

definition looks_left :: "nat \<Rightarrow> nat" where
  "looks_left e = (POLL_TIMEOUT - e + (POLL_INTERVAL - 1)) div POLL_INTERVAL + (if e < BLIND_AFTER then 1 else 0)"

lemma looks_left_step:
  assumes "next_step seen e = LookAgain pause" "e + pause \<le> e'"
  shows "looks_left e' < looks_left e"
proof -
  let ?c = "\<lambda>e. (POLL_TIMEOUT - e + (POLL_INTERVAL - 1)) div POLL_INTERVAL"
  have le: "?c e' \<le> ?c e"
    using assms(2) by (intro div_le_mono) simp
  consider (blind) "e < BLIND_AFTER" "pause = until BLIND_AFTER e" | (missing) "e < POLL_TIMEOUT" "pause = min POLL_INTERVAL (POLL_TIMEOUT - e)"
    using assms(1) by (auto simp: next_step_def split: probe_look.splits if_splits)
  then show ?thesis
  proof cases
    case blind
    show ?thesis
    proof (cases "e' < BLIND_AFTER")
      case True
      then have "e + POLL_INTERVAL \<le> e'" "e + POLL_INTERVAL \<le> POLL_TIMEOUT"
        using blind assms(2) by (auto simp: until_def BLIND_AFTER_def POLL_TIMEOUT_def min_def split: if_splits)
      then have "?c e' < ?c e"
        by (auto simp: POLL_INTERVAL_def POLL_TIMEOUT_def SECOND_def)
      with blind(1) True show ?thesis by (simp add: looks_left_def)
    next
      case False
      with le blind(1) show ?thesis by (simp add: looks_left_def)
    qed
  next
    case missing
    then have "?c e' < ?c e"
      using assms(2) by (auto simp: POLL_INTERVAL_def POLL_TIMEOUT_def SECOND_def min_def split: if_splits)
    then show ?thesis
      using assms(2) unfolding looks_left_def by (intro add_less_le_mono) (assumption, simp)
  qed
qed

lemma wait_loop_ends:
  assumes time: "time_passes env"
  shows "looks_left (now - started) < n \<Longrightarrow> started \<le> now \<Longrightarrow> wait_loop env servers name v started n now \<noteq> None"
proof (induction n arbitrary: now)
  case 0
  then show ?case by simp
next
  case (Suc n)
  obtain answers t where a: "ask_all env servers name v now = Some (answers, t)" "now \<le> t"
    using ask_all_total [OF time] by blast
  show ?case
  proof (cases "next_step (probe_seen answers) (t - started)")
    case (LookAgain pause)
    let ?u = "pb_sleep env t pause"
    have u: "t + pause \<le> ?u" using time_passes_pairs(6) [OF time] .
    then have "looks_left (?u - started) < looks_left (t - started)"
      using a Suc.prems(2) by (intro looks_left_step [OF LookAgain]) linarith
    moreover have "looks_left (t - started) \<le> looks_left (now - started)"
      using a(2) unfolding looks_left_def by (intro add_mono div_le_mono) (auto simp: BLIND_AFTER_def)
    ultimately have "looks_left (?u - started) < n"
      using Suc.prems(1) by simp
    moreover have "started \<le> ?u"
      using u a Suc.prems(2) by linarith
    ultimately show ?thesis
      using Suc.IH [of ?u] a LookAgain by simp
  qed (use a in \<open>simp_all add: Let_def\<close>)
qed

lemma probe_wait_ends:
  assumes "time_passes env" "32 \<le> looks"
  shows "probe_wait env looks servers name v now \<noteq> None"
  using wait_loop_ends [OF assms(1), of now now looks servers name v] assms(2)
  by (simp add: probe_wait_def looks_left_def POLL_TIMEOUT_def POLL_INTERVAL_def BLIND_AFTER_def SECOND_def split: sum.split)

section \<open>What an end means\<close>

lemma probe_look_iff:
  "probe_seen answers = LookServed \<longleftrightarrow> Serving \<in> set answers \<and> NotYetServed \<notin> set answers"
  "probe_seen answers = LookMissing \<longleftrightarrow> NotYetServed \<in> set answers"
  "probe_seen answers = LookUnobservable \<longleftrightarrow> set answers \<subseteq> {Silent}"
proof -
  have "a = Serving \<or> a = NotYetServed \<or> a = Silent" for a by (cases a) simp_all
  then show "probe_seen answers = LookServed \<longleftrightarrow> Serving \<in> set answers \<and> NotYetServed \<notin> set answers"
    "probe_seen answers = LookMissing \<longleftrightarrow> NotYetServed \<in> set answers"
    "probe_seen answers = LookUnobservable \<longleftrightarrow> set answers \<subseteq> {Silent}"
    by (auto simp: probe_seen_def Let_def filter_empty_conv)
qed

text \<open>The last look: what it heard, when it was over, and how long the pause after it was.\<close>

definition last_look :: "probe_env \<Rightarrow> rstr list \<Rightarrow> rstr \<Rightarrow> rstr \<Rightarrow> (probe_answer list \<Rightarrow> nat \<Rightarrow> bool) \<Rightarrow> bool" where
  "last_look env servers name v P \<longleftrightarrow> (\<exists>now answers t. ask_all env servers name v now = Some (answers, t) \<and> P answers t)"

lemma last_lookI: "ask_all env servers name v now = Some (answers, t) \<Longrightarrow> P answers t \<Longrightarrow> last_look env servers name v P"
  unfolding last_look_def by blast

lemma wait_loop_meaning:
  "wait_loop env servers name v started n now = Some (r, u) \<Longrightarrow>
    (case r of
       Inr (OutcomeServed waited) \<Rightarrow>
         last_look env servers name v (\<lambda>answers t. Serving \<in> set answers \<and> NotYetServed \<notin> set answers
           \<and> waited = pb_sleep env t SETTLE - started)
     | Inr (OutcomeBlind waited) \<Rightarrow>
         last_look env servers name v (\<lambda>answers t. set answers \<subseteq> {Silent} \<and> BLIND_AFTER \<le> t - started)
     | Inl e \<Rightarrow> \<exists>waited. e = NotServed name waited \<and> POLL_TIMEOUT \<le> waited
         \<and> last_look env servers name v (\<lambda>answers t. NotYetServed \<in> set answers \<and> waited = t - started))"
proof (induction n arbitrary: now)
  case (Suc n)
  then obtain answers t where a: "ask_all env servers name v now = Some (answers, t)"
    by (auto split: option.splits)
  consider "probe_seen answers = LookServed" | "probe_seen answers = LookMissing" | "probe_seen answers = LookUnobservable"
    by (cases "probe_seen answers") simp_all
  then show ?case
  proof cases
    case 1
    with Suc.prems a probe_look_iff(1) [of answers] show ?thesis
      by (auto simp: next_step_def Let_def intro!: last_lookI [OF a])
  next
    case 2
    with Suc a probe_look_iff(2) [of answers] show ?thesis
      by (auto simp: next_step_def Let_def split: if_splits intro!: last_lookI [OF a])
  next
    case 3
    with Suc a probe_look_iff(3) [of answers] show ?thesis
      by (auto simp: next_step_def Let_def split: if_splits intro!: last_lookI [OF a])
  qed
qed simp

end
