(* ===== verification/Tls.thy ===== *)
theory Tls
  imports X509 AcmePlan
begin

text \<open>
  \<open>crates/anago/src/tls.rs\<close>: a certificate and its key from two files, what is said when they cannot be
  served, and the certificate in front of the listener. PEM is read by \<open>rustls_pemfile\<close> and a pair is judged
  by \<open>rustls\<close>, both packages: they are the parameter \<open>pem_tools\<close>. A configuration of the package is kept
  here as the chain and the key it was built from, and the listener itself is left out.
\<close>

section \<open>From bytes\<close>

type_synonym der = "u8 list"

datatype pem_item = Pkcs8Key der | Sec1Key der | Pkcs1Key der | OtherItem

record pem_tools =
  pt_certs :: "u8 list \<Rightarrow> rstr + der list"
  pt_items :: "u8 list \<Rightarrow> rstr + pem_item list"
  pt_versions :: "rstr + unit"
  pt_accepts :: "der list \<Rightarrow> pem_item \<Rightarrow> rstr + unit"

datatype pem_error =
    NoCertificates | NoPrivateKey | ManyPrivateKeys nat | PemMalformed rstr | PemRejected rstr

fun pem_error_show :: "pem_error \<Rightarrow> rstr" where
  "pem_error_show NoCertificates =
     (lit ''no CERTIFICATE block found '' @ [0x2014]
     @ lit '' is this the certificate file, in PEM form?'')"
| "pem_error_show NoPrivateKey =
     (lit ''no private key found '' @ [0x2014] @ lit '' expected PKCS#8, SEC1, or PKCS#1 PEM'')"
| "pem_error_show (ManyPrivateKeys count) =
     (lit ''found '')
     @ dec_nat count
     @ (lit '' private keys; give a file with exactly one'')"
| "pem_error_show (PemMalformed detail) = lit ''not valid PEM: '' @ detail"
| "pem_error_show (PemRejected detail) =
     (lit ''certificate and key were rejected: '')
     @ detail
     @ (lit '' '' @ [0x2014] @ lit '' do they belong together?'')"

definition parse_certs :: "pem_tools \<Rightarrow> u8 list \<Rightarrow> pem_error + der list" where
  "parse_certs pem bytes =
    attempt (map_err PemMalformed (pt_certs pem bytes)) (\<lambda>certs.
      if certs = [] then Inl NoCertificates else Inr certs)"

fun is_private_key :: "pem_item \<Rightarrow> bool" where
  "is_private_key OtherItem = False"
| "is_private_key _ = True"

text \<open>One key, in any of the three encodings; more than one is not a guess.\<close>

definition parse_private_key :: "pem_tools \<Rightarrow> u8 list \<Rightarrow> pem_error + pem_item" where
  "parse_private_key pem bytes =
    attempt (map_err PemMalformed (pt_items pem bytes)) (\<lambda>items.
      case filter is_private_key items of
        [] \<Rightarrow> Inl NoPrivateKey
      | [key] \<Rightarrow> Inr key
      | keys \<Rightarrow> Inl (ManyPrivateKeys (length keys)))"

definition build_from_parts :: "pem_tools \<Rightarrow> der list \<Rightarrow> pem_item \<Rightarrow> pem_error + unit" where
  "build_from_parts pem certs key =
    attempt (map_err PemRejected (pt_versions pem)) (\<lambda>_. map_err PemRejected (pt_accepts pem certs key))"

definition key_permission_warning :: "path \<Rightarrow> u32 option \<Rightarrow> rstr option" where
  "key_permission_warning p mode =
    (case mode of
       None \<Rightarrow> None
     | Some m \<Rightarrow>
        if m AND 63 = 0 then None
        else Some (p @ lit '' is readable by other users (mode '' @ pad_left 4 48 (oct_nat (unat (m AND 4095)))
          @ lit '') '' @ [0x2014] @ lit '' `chmod 600 '' @ p @ lit ''`''))"

text \<open>When the leaf of a chain runs out.\<close>

definition chain_expiry :: "der list \<Rightarrow> int option" where
  "chain_expiry chain = (case chain of [] \<Rightarrow> None | leaf # _ \<Rightarrow> not_after leaf)"

definition pem_expiry :: "pem_tools \<Rightarrow> u8 list \<Rightarrow> int option" where
  "pem_expiry pem bytes = (case parse_certs pem bytes of Inl _ \<Rightarrow> None | Inr certs \<Rightarrow> chain_expiry certs)"

section \<open>From files\<close>

datatype tls_error =
    TlsIo path io_kind rstr
  | TlsPem path pem_error
  | TlsPair path path pem_error

definition io_hint :: "io_kind \<Rightarrow> rstr" where
  "io_hint kind =
    (case kind of
       IoNotFound \<Rightarrow>
         (lit ''check the path '' @ [0x2014]
     @ lit '' M0 does not issue certificates, it takes one you already have'')
     | IoPermissionDenied \<Rightarrow>
         (lit ''certificate keys are usually root-only; run `anago server init` as root'')
     | _ \<Rightarrow>
         if kind = IoOther (lit ''IsADirectory'') then
           (lit ''expected the PEM file itself, not the directory'')
         else (lit ''check that the file exists and is readable''))"

text \<open>\<open>Debug\<close> of an \<open>ErrorKind\<close>, in lower case.\<close>

definition kind_word :: "io_kind \<Rightarrow> rstr" where
  "kind_word kind =
    (case kind of
       IoNotFound \<Rightarrow> lit ''not found''
     | IoPermissionDenied \<Rightarrow> lit ''permission denied''
     | IoAlreadyExists \<Rightarrow> lit ''alreadyexists''
     | IoNotADirectory \<Rightarrow> lit ''notadirectory''
     | IoStorageFull \<Rightarrow> lit ''storagefull''
     | IoReadOnly \<Rightarrow> lit ''readonlyfilesystem''
     | IoOther name \<Rightarrow> map ascii_lower name)"

fun tls_error_show :: "tls_error \<Rightarrow> rstr" where
  "tls_error_show (TlsIo p kind hint) = p @ lit '': '' @ kind_word kind @ lit '' '' @ [0x2014] @ lit '' '' @ hint"
| "tls_error_show (TlsPem p e) = p @ lit '': '' @ pem_error_show e"
| "tls_error_show (TlsPair cert key e) = cert @ lit '' with '' @ key @ lit '': '' @ pem_error_show e"

record loaded_tls =
  lt_chain :: "der list"
  lt_key :: pem_item
  lt_not_after :: "int option"
  lt_warnings :: "rstr list"

definition read_pem :: "path \<Rightarrow> ('h, tls_error, u8 list) run" where
  "read_pem p = run_map_err (\<lambda>(kind, _). TlsIo p kind (io_hint kind)) (on_files (sys_read p))"

definition key_mode :: "(path \<Rightarrow> u32 option) \<Rightarrow> path \<Rightarrow> ('h, 'e, u32 option) run" where
  "key_mode other_mode p =
    run_bind (run_catch (on_files (token_file_mode other_mode p))) (\<lambda>r.
    run_return (case r of Inl _ \<Rightarrow> None | Inr m \<Rightarrow> m))"

definition tls_load :: "pem_tools \<Rightarrow> (path \<Rightarrow> u32 option) \<Rightarrow> path \<Rightarrow> path \<Rightarrow> ('h, tls_error, loaded_tls) run" where
  "tls_load pem other_mode cert_path key_path =
    run_bind (read_pem cert_path) (\<lambda>cert_pem.
    run_bind (read_pem key_path) (\<lambda>key_pem.
    run_bind (run_lift (map_err (TlsPem cert_path) (parse_certs pem cert_pem))) (\<lambda>certs.
    run_bind (run_lift (map_err (TlsPem key_path) (parse_private_key pem key_pem))) (\<lambda>key.
    run_then (run_lift (map_err (TlsPair cert_path key_path) (build_from_parts pem certs key)))
      (run_bind (key_mode other_mode key_path) (\<lambda>mode.
       run_return \<lparr>lt_chain = certs, lt_key = key, lt_not_after = chain_expiry certs,
         lt_warnings = (case key_permission_warning key_path mode of None \<Rightarrow> [] | Some w \<Rightarrow> [w])\<rparr>))))))"

section \<open>In front of the listener\<close>

datatype reload_decision = ReloadUnchanged | ReloadSwap | ReloadKeep rstr

definition reload_decide :: "der list \<Rightarrow> tls_error + der list \<Rightarrow> reload_decision" where
  "reload_decide served found =
    (case found of
       Inr chain \<Rightarrow> if chain = served then ReloadUnchanged else ReloadSwap
     | Inl e \<Rightarrow> ReloadKeep (tls_error_show e
         @ (lit '' '' @ [0x2014]
     @ lit '' the hub is still serving the certificate it already has, and will look again at the ''
     @ lit ''next check'')))"

text \<open>The handle with the configuration of the next handshake, and the chain remembered beside it.\<close>

record listening =
  li_config :: "der list \<times> pem_item"
  li_chain :: "der list"

definition listening_new :: "loaded_tls \<Rightarrow> listening" where
  "listening_new l = \<lparr>li_config = (lt_chain l, lt_key l), li_chain = lt_chain l\<rparr>"

definition listening_present :: "loaded_tls \<Rightarrow> listening \<Rightarrow> listening" where
  "listening_present l s = s\<lparr>li_config := (lt_chain l, lt_key l), li_chain := lt_chain l\<rparr>"

definition listening_take :: "tls_error + loaded_tls \<Rightarrow> listening \<Rightarrow> reload_decision \<times> listening" where
  "listening_take found s =
    (case reload_decide (li_chain s) (map_sum id lt_chain found) of
       ReloadSwap \<Rightarrow>
         (ReloadSwap, case found of Inr l \<Rightarrow> s\<lparr>li_config := (lt_chain l, lt_key l), li_chain := lt_chain l\<rparr> | Inl _ \<Rightarrow> s)
     | decided \<Rightarrow> (decided, s))"

section \<open>What is served\<close>

text \<open>A listener only ever has a pair the package accepted, and the chain it remembers is the one it serves.\<close>

definition servable :: "pem_tools \<Rightarrow> loaded_tls \<Rightarrow> bool" where
  "servable pem l \<longleftrightarrow> lt_chain l \<noteq> [] \<and> is_private_key (lt_key l) \<and> build_from_parts pem (lt_chain l) (lt_key l) = Inr ()"

definition serving_well :: "pem_tools \<Rightarrow> listening \<Rightarrow> bool" where
  "serving_well pem s \<longleftrightarrow>
    li_chain s = fst (li_config s) \<and> fst (li_config s) \<noteq> [] \<and> is_private_key (snd (li_config s))
    \<and> build_from_parts pem (fst (li_config s)) (snd (li_config s)) = Inr ()"

lemma parse_certs_nonempty: "parse_certs pem bytes = Inr certs \<Longrightarrow> certs \<noteq> []"
  by (auto simp: parse_certs_def attempt_def split: sum.splits if_splits)

lemma parse_private_key_one:
  "parse_private_key pem bytes = Inr key \<Longrightarrow>
    is_private_key key \<and> (\<exists>items. pt_items pem bytes = Inr items \<and> filter is_private_key items = [key])"
proof -
  assume k: "parse_private_key pem bytes = Inr key"
  then obtain items where items: "pt_items pem bytes = Inr items"
    by (auto simp: parse_private_key_def attempt_def map_err_def split: sum.splits)
  with k have f: "filter is_private_key items = [key]"
    by (auto simp: parse_private_key_def attempt_def map_err_def split: list.splits)
  have "key \<in> set (filter is_private_key items)"
    unfolding f by simp
  then have "is_private_key key"
    by simp
  with items f show ?thesis by blast
qed

lemma rp_tls_load:
  "rp env (tls_load pem other_mode cert_path key_path)
    (\<lambda>l _. servable pem l \<and> lt_not_after l = chain_expiry (lt_chain l)) (\<lambda>_ _. True) s"
  unfolding tls_load_def
  by (auto simp: rp_simps rp_def map_err_def read_pem_def run_map_err_def on_files_def key_mode_def run_bind_def
      run_lift_def run_then_def run_catch_def run_return_def servable_def parse_certs_nonempty parse_private_key_one
      split: prod.splits sum.splits)

lemma servable_present: "servable pem l \<Longrightarrow> serving_well pem (listening_present l s)"
  by (simp add: servable_def serving_well_def listening_present_def)

lemma servable_new: "servable pem l \<Longrightarrow> serving_well pem (listening_new l)"
  by (simp add: servable_def serving_well_def listening_new_def)

lemma take_serving_well:
  "serving_well pem s \<Longrightarrow> (\<And>l. found = Inr l \<Longrightarrow> servable pem l) \<Longrightarrow> serving_well pem (snd (listening_take found s))"
  by (cases found) (auto simp: listening_take_def reload_decide_def servable_def serving_well_def)

text \<open>A file that does not load changes nothing, and one that does is what the next handshake presents.\<close>

lemma listening_take_iff:
  "snd (listening_take (Inl e) s) = s"
  "serving_well pem s \<Longrightarrow> fst (li_config (snd (listening_take (Inr l) s))) = lt_chain l"
  by (auto simp: listening_take_def reload_decide_def serving_well_def)

lemma take_twice:
  "fst (listening_take (Inr l) (snd (listening_take (Inr l) s))) = ReloadUnchanged"
  by (auto simp: listening_take_def reload_decide_def)

end
