(* ===== verification/AcmeIssue.thy ===== *)
theory AcmeIssue
  imports CloudflareFacts AcmePlan Probe Tls RenewLoop "HOL-Library.AList"
begin

text \<open>
  \<open>crates/anago/src/acme.rs\<close>: signing in to a CA, one order with its challenges, and a renewal from the state
  to the files. The protocol is \<open>instant_acme\<close>'s and the listener on port 80 is sockets: what each call
  answers is the parameter \<open>ca_lib\<close>, over the state of the world outside. What is here is the order of the
  calls, which failure becomes which error, when the port is given back, and that every published record is
  taken out again on every way out.
\<close>

section \<open>The package and the sockets\<close>

text \<open>An error of the package: its text, and what \<open>retry_after_of\<close> finds in it at that moment.\<close>

record lib_error =
  le_text :: rstr
  le_retry_after :: "nat option"

record offered =
  of_kind :: challenge
  of_token :: rstr
  of_key_authorization :: rstr
  of_dns_value :: rstr

record authorization =
  az_valid :: bool
  az_offered :: "offered list"

datatype order_status = OrderReady | OrderOther rstr

record order =
  od_id :: nat
  od_count :: nat

text \<open>Why a socket could not be bound.\<close>

record bind_error =
  be_raw :: "int option"
  be_kind :: io_kind
  be_text :: rstr

text \<open>
  Accounts are of type \<open>'a\<close> and stored credentials of type \<open>'c\<close>. \<open>cl_listen\<close> binds both families of a port
  and serves the answers on what it could bind, saying how many that is and why the others failed;
  \<open>cl_abandon\<close> drops what was bound without serving. \<open>cl_wait\<close> is the wait of \<open>Probe\<close> on a thread of its own,
  whose own failure is the left case. \<open>cl_key_order\<close> is the order in which a hash map lists its keys.
\<close>

record ('a, 'c, 'h) ca_lib =
  cl_client :: "rstr + unit"
  cl_read_credentials :: "rstr \<Rightarrow> rstr + 'c"
  cl_write_credentials :: "'c \<Rightarrow> rstr + rstr"
  cl_restore :: "'c \<Rightarrow> 'h \<Rightarrow> (lib_error + 'a) \<times> 'h"
  cl_create :: "rstr \<Rightarrow> rstr \<Rightarrow> 'h \<Rightarrow> (lib_error + ('a \<times> 'c)) \<times> 'h"
  cl_contacts :: "'a \<Rightarrow> rstr \<Rightarrow> 'h \<Rightarrow> (lib_error + unit) \<times> 'h"
  cl_url :: "'a \<Rightarrow> rstr"
  cl_order :: "'a \<Rightarrow> rstr \<Rightarrow> 'h \<Rightarrow> (lib_error + order) \<times> 'h"
  cl_authorization :: "order \<Rightarrow> nat \<Rightarrow> 'h \<Rightarrow> (lib_error + authorization) \<times> 'h"
  cl_set_ready :: "order \<Rightarrow> nat \<Rightarrow> offered \<Rightarrow> 'h \<Rightarrow> (lib_error + unit) \<times> 'h"
  cl_poll_ready :: "order \<Rightarrow> 'h \<Rightarrow> (lib_error + order_status) \<times> 'h"
  cl_finalize :: "order \<Rightarrow> 'h \<Rightarrow> (lib_error + rstr) \<times> 'h"
  cl_certificate :: "order \<Rightarrow> 'h \<Rightarrow> (lib_error + rstr) \<times> 'h"
  cl_listen :: "nat \<Rightarrow> (rstr \<times> rstr) list \<Rightarrow> 'h \<Rightarrow> (bind_error list \<times> nat) \<times> 'h"
  cl_abandon :: "'h \<Rightarrow> 'h"
  cl_stop :: "'h \<Rightarrow> 'h"
  cl_family_codes :: "int list"
  cl_wait :: "rstr list \<Rightarrow> rstr \<Rightarrow> rstr \<Rightarrow> 'h \<Rightarrow> (rstr + (probe_error + probe_outcome)) \<times> 'h"
  cl_key_order :: "rstr list \<Rightarrow> rstr list"

definition outside :: "('h \<Rightarrow> ('e + 'x) \<times> 'h) \<Rightarrow> ('h, 'e, 'x) run" where
  "outside f = (\<lambda>env s.
    case f (si_hub s) of
      (r, h) \<Rightarrow> (r, s\<lparr>si_hub := h, si_world := advance (de_meanwhile env (w_fs (si_world s))) (si_world s)\<rparr>))"

definition outside_effect :: "('h \<Rightarrow> 'h) \<Rightarrow> ('h, 'e, unit) run" where
  "outside_effect f = (\<lambda>env s. (Inr (), s\<lparr>si_hub := f (si_hub s)\<rparr>))"

section \<open>Signing in\<close>

record 'a signed_in =
  sg_account :: 'a
  sg_url :: rstr
  sg_credentials :: pending
  sg_registered :: bool

definition acme_sign_in ::
  "serde \<Rightarrow> ('a, 'c, 'h) ca_lib \<Rightarrow> account_plan \<Rightarrow> rstr \<Rightarrow> rstr \<Rightarrow> ('h, acme_fail, 'a signed_in) run" where
  "acme_sign_in j lib ap directory contact =
    (case ap of
       Reuse credentials account_url update_contact \<Rightarrow>
         run_bind (load_credentials j (cl_read_credentials lib) credentials directory account_url) (\<lambda>stored.
         run_then (run_lift (map_err AfClient (cl_client lib))) (
         run_bind (run_map_err (\<lambda>e. AfSignIn directory (le_text e)) (outside (cl_restore lib stored))) (\<lambda>account.
         run_then
           (if update_contact
            then run_map_err (\<lambda>e. AfContact contact (le_text e)) (outside (cl_contacts lib account (contact_uri contact)))
            else run_return ())
           (run_return \<lparr>sg_account = account, sg_url = cl_url lib account,
              sg_credentials = \<lparr>pn_path = credentials, pn_fresh = None\<rparr>, sg_registered = False\<rparr>))))
     | RegisterAccount credentials _ \<Rightarrow>
         run_then (run_lift (map_err AfClient (cl_client lib))) (
         run_bind (run_map_err (\<lambda>e. AfRegister directory (le_text e))
           (outside (cl_create lib (contact_uri contact) directory))) (\<lambda>(account, stored).
         run_bind (run_lift (map_err (AfWrite credentials) (cl_write_credentials lib stored))) (\<lambda>text.
         run_return \<lparr>sg_account = account, sg_url = cl_url lib account,
           sg_credentials = \<lparr>pn_path = credentials, pn_fresh = Some text\<rparr>, sg_registered = True\<rparr>))))"

section \<open>The listener of HTTP-01\<close>

definition listen_problem_of :: "io_kind \<Rightarrow> listen_problem" where
  "listen_problem_of kind =
    (if kind = IoPermissionDenied then PermissionProblem
     else if kind = IoOther (lit ''AddrInUse'') then InUse
     else OtherProblem)"

definition family_unavailable :: "int list \<Rightarrow> bind_error \<Rightarrow> bool" where
  "family_unavailable codes e \<longleftrightarrow>
    (\<exists>c \<in> set codes. be_raw e = Some c) \<or> be_kind e = IoOther (lit ''Unsupported'') \<or> be_kind e = IoOther (lit ''AddrNotAvailable'')"

definition listen_failure :: "nat \<Rightarrow> bind_error list \<Rightarrow> acme_fail" where
  "listen_failure port refused =
     AfListen port (case refused of [] \<Rightarrow> OtherProblem | e # _ \<Rightarrow> listen_problem_of (be_kind e))
       (join_with (lit ''; '') (map be_text refused))"

fun accept_families :: "int list \<Rightarrow> nat \<Rightarrow> nat \<Rightarrow> bind_error list \<Rightarrow> acme_fail + unit" where
  "accept_families codes port bound [] = (if bound = 0 then Inl (AfNoAddressFamily port) else Inr ())"
| "accept_families codes port bound (failed # refused) =
    (if \<not> family_unavailable codes failed then Inl (listen_failure port [failed])
     else accept_families codes port bound refused)"

text \<open>The one route: a token that is waited for, and nothing else.\<close>

definition challenge_answer :: "(rstr \<times> rstr) list \<Rightarrow> rstr \<Rightarrow> nat \<times> rstr" where
  "challenge_answer answers token =
    (case map_of answers token of Some key_auth \<Rightarrow> (200, key_auth) | None \<Rightarrow> (404, []))"

definition http01_start :: "('a, 'c, 'h) ca_lib \<Rightarrow> nat \<Rightarrow> (rstr \<times> rstr) list \<Rightarrow> ('h, acme_fail, unit) run" where
  "http01_start lib port answers =
    run_bind (outside (\<lambda>h. case cl_listen lib port answers h of (r, h') \<Rightarrow> (Inr r, h'))) (\<lambda>(refused, bound).
    run_bind (run_catch (run_lift (accept_families (cl_family_codes lib) port bound refused))) (\<lambda>accepted.
    case accepted of
      Inr _ \<Rightarrow> run_return ()
    | Inl e \<Rightarrow> run_then (outside_effect (cl_abandon lib)) (run_throw e)))"

section \<open>One order\<close>

definition order_error :: "rstr \<Rightarrow> lib_error \<Rightarrow> acme_fail" where
  "order_error domain e = AfOrder domain (le_text e) (le_retry_after e)"

definition offered_as :: "challenge \<Rightarrow> authorization \<Rightarrow> offered option" where
  "offered_as kind az = List.find (\<lambda>x. of_kind x = kind) (az_offered az)"

text \<open>The first pass: what the CA will ask for. \<open>read\<close> makes one challenge into one answer.\<close>

fun collect_challenges ::
  "('a, 'c, 'h) ca_lib \<Rightarrow> order \<Rightarrow> rstr \<Rightarrow> challenge \<Rightarrow> (offered \<Rightarrow> acme_fail + 'x) \<Rightarrow> nat list
    \<Rightarrow> ('h, acme_fail, 'x list) run" where
  "collect_challenges lib ord domain kind read [] = run_return []"
| "collect_challenges lib ord domain kind read (i # is) =
    run_bind (run_map_err (order_error domain) (outside (cl_authorization lib ord i))) (\<lambda>az.
    if az_valid az then collect_challenges lib ord domain kind read is
    else
      run_bind (run_lift (ok_or (AfNoChallenge domain kind) (offered_as kind az))) (\<lambda>offer.
      run_bind (run_lift (read offer)) (\<lambda>x.
      run_bind (collect_challenges lib ord domain kind read is) (\<lambda>xs.
      run_return (x # xs)))))"

text \<open>The second pass: every pending challenge of the kind is marked ready.\<close>

fun tell_the_ca :: "('a, 'c, 'h) ca_lib \<Rightarrow> order \<Rightarrow> rstr \<Rightarrow> challenge \<Rightarrow> nat list \<Rightarrow> ('h, acme_fail, unit) run" where
  "tell_the_ca lib ord domain kind [] = run_return ()"
| "tell_the_ca lib ord domain kind (i # is) =
    run_bind (run_map_err (order_error domain) (outside (cl_authorization lib ord i))) (\<lambda>az.
    if az_valid az then tell_the_ca lib ord domain kind is
    else (case offered_as kind az of
        None \<Rightarrow> tell_the_ca lib ord domain kind is
      | Some offer \<Rightarrow>
          run_then (run_map_err (order_error domain) (outside (cl_set_ready lib ord i offer)))
            (tell_the_ca lib ord domain kind is)))"

definition wait_for_ready ::
  "('a, 'c, 'h) ca_lib \<Rightarrow> order \<Rightarrow> rstr \<Rightarrow> challenge \<Rightarrow> rstr list \<Rightarrow> ('h, acme_fail, unit) run" where
  "wait_for_ready lib ord domain kind looked_at =
    run_bind (run_map_err (\<lambda>e. AfValidation domain kind looked_at (le_text e) (le_retry_after e))
      (outside (cl_poll_ready lib ord))) (\<lambda>status.
    case status of
      OrderReady \<Rightarrow> run_return ()
    | OrderOther debug \<Rightarrow>
        run_throw (AfValidation domain kind looked_at (lit ''the CA left the order '' @ debug) None))"

definition finish_order :: "('a, 'c, 'h) ca_lib \<Rightarrow> order \<Rightarrow> rstr \<Rightarrow> ('h, acme_fail, issued_pair) run" where
  "finish_order lib ord domain =
    run_bind (run_map_err (\<lambda>e. AfFinalize domain (le_text e) (le_retry_after e)) (outside (cl_finalize lib ord))) (\<lambda>key.
    run_bind (run_map_err (\<lambda>e. AfFinalize domain (le_text e) (le_retry_after e)) (outside (cl_certificate lib ord))) (\<lambda>cert.
    run_return \<lparr>is_certificate = cert, is_key = key, is_warnings = []\<rparr>))"

definition new_order :: "('a, 'c, 'h) ca_lib \<Rightarrow> 'a \<Rightarrow> rstr \<Rightarrow> ('h, acme_fail, order) run" where
  "new_order lib account domain = run_map_err (order_error domain) (outside (cl_order lib account domain))"

text \<open>Inserting into a hash map: a later answer for the same token takes the place of an earlier one.\<close>

definition hash_insert :: "(rstr \<times> rstr) list \<Rightarrow> rstr \<times> rstr \<Rightarrow> (rstr \<times> rstr) list" where
  "hash_insert answers kv = AList.update (fst kv) (snd kv) answers"

definition http01_reading :: "unicode \<Rightarrow> offered \<Rightarrow> acme_fail + (rstr \<times> rstr)" where
  "http01_reading u offer =
    (case challenge_parse (of_token offer) of
       Inl e \<Rightarrow> Inl (AfBadToken (acme_error_show u e))
     | Inr token \<Rightarrow> Inr (challenge_str token, of_key_authorization offer))"

definition issue_http01 ::
  "('a, 'c, 'h) ca_lib \<Rightarrow> 'a \<Rightarrow> rstr \<Rightarrow> nat \<Rightarrow> ('h, acme_fail, issued_pair) run" where
  "issue_http01 lib account domain port =
    run_bind (new_order lib account domain) (\<lambda>ord.
    run_bind (run_env (\<lambda>env. se_unicode (de_sys env))) (\<lambda>u.
    run_bind (collect_challenges lib ord domain Http01 (http01_reading u) [0..<od_count ord]) (\<lambda>found.
    let answers = foldl hash_insert [] found in
    if answers = [] then finish_order lib ord domain
    else
      let looked_at = map (\<lambda>token. lit ''http://'' @ domain @ lit ''/.well-known/acme-challenge/'' @ token)
            (cl_key_order lib (map fst answers)) in
      run_then (http01_start lib port answers) (
      run_bind (run_catch
        (run_then (tell_the_ca lib ord domain Http01 [0..<od_count ord])
          (wait_for_ready lib ord domain Http01 looked_at))) (\<lambda>checked.
      run_then (outside_effect (cl_stop lib)) (
      run_then (run_lift checked) (finish_order lib ord domain)))))))"

section \<open>DNS-01\<close>

text \<open>The guards that are dropped when the call is left: in the order they were published.\<close>

fun drop_all :: "serde \<Rightarrow> challenge_guard list \<Rightarrow> ('h, 'e, unit) run" where
  "drop_all j [] = run_return ()"
| "drop_all j (g # gs) = run_then (challenge_drop j g) (drop_all j gs)"

definition dropping_on_error :: "serde \<Rightarrow> challenge_guard list \<Rightarrow> ('h, 'e, 'x) run \<Rightarrow> ('h, 'e, 'x) run" where
  "dropping_on_error j gs m =
    run_bind (run_catch m) (\<lambda>r.
    case r of
      Inr x \<Rightarrow> run_return x
    | Inl e \<Rightarrow> run_then (drop_all j gs) (run_throw e))"

definition dns01_failed :: "rstr \<Rightarrow> ('h, cf_error, 'x) run \<Rightarrow> ('h, acme_fail, 'x) run" where
  "dns01_failed domain m =
    run_bind (run_env (\<lambda>env. se_unicode (de_sys env))) (\<lambda>u. run_map_err (dns01_error u domain) m)"

fun publish_all ::
  "serde \<Rightarrow> cf_token \<Rightarrow> rstr \<Rightarrow> rstr \<Rightarrow> int \<Rightarrow> rstr list \<Rightarrow> challenge_guard list
    \<Rightarrow> ('h, acme_fail, challenge_guard list) run" where
  "publish_all j token zone_id domain now [] gs = run_return gs"
| "publish_all j token zone_id domain now (v # vs) gs =
    run_bind (dropping_on_error j gs (dns01_failed domain (challenge_publish j token zone_id domain v now))) (\<lambda>g.
    publish_all j token zone_id domain now vs (gs @ [g]))"

fun remove_all :: "serde \<Rightarrow> rstr \<Rightarrow> challenge_guard list \<Rightarrow> ('h, acme_fail, unit) run" where
  "remove_all j domain [] = run_return ()"
| "remove_all j domain (g # gs) =
    run_then (dropping_on_error j gs (dns01_failed domain (challenge_remove j g))) (remove_all j domain gs)"

definition acme_look_for :: "('a, 'c, 'h) ca_lib \<Rightarrow> rstr list \<Rightarrow> rstr \<Rightarrow> rstr \<Rightarrow> ('h, acme_fail, probe_outcome) run" where
  "acme_look_for lib nameservers name v =
    run_bind (run_map_err (\<lambda>e. AfPropagation (lit ''the wait for '' @ name @ lit '' did not finish: '' @ e))
      (outside (cl_wait lib nameservers name v))) (\<lambda>r.
    run_lift (map_err (\<lambda>e. AfPropagation (probe_error_show e)) r))"

fun look_for_all :: "('a, 'c, 'h) ca_lib \<Rightarrow> rstr list \<Rightarrow> rstr \<Rightarrow> rstr list \<Rightarrow> ('h, acme_fail, rstr list) run" where
  "look_for_all lib nameservers name [] = run_return []"
| "look_for_all lib nameservers name (v # vs) =
    run_bind (acme_look_for lib nameservers name v) (\<lambda>outcome.
    run_bind (look_for_all lib nameservers name vs) (\<lambda>warnings.
    run_return ((case outcome_warning outcome of None \<Rightarrow> [] | Some w \<Rightarrow> [w]) @ warnings)))"

definition issue_dns01 ::
  "serde \<Rightarrow> ('a, 'c, 'h) ca_lib \<Rightarrow> 'a \<Rightarrow> rstr \<Rightarrow> zone \<Rightarrow> cf_token \<Rightarrow> int \<Rightarrow> ('h, acme_fail, issued_pair) run" where
  "issue_dns01 j lib account domain zn token now =
    run_bind (new_order lib account domain) (\<lambda>ord.
    run_bind (collect_challenges lib ord domain Dns01 (\<lambda>offer. Inr (of_dns_value offer)) [0..<od_count ord]) (\<lambda>vs.
    if vs = [] then finish_order lib ord domain
    else
      run_bind (publish_all j token (zn_id zn) domain now vs []) (\<lambda>published.
      run_bind (dropping_on_error j published
        (let name = ch_name (hd published) in
         run_bind (look_for_all lib (zn_servers zn) name vs) (\<lambda>warnings.
         run_then (tell_the_ca lib ord domain Dns01 [0..<od_count ord]) (
         run_then (wait_for_ready lib ord domain Dns01 [lit ''the TXT record at '' @ name])
           (run_return warnings))))) (\<lambda>warnings.
      run_then (remove_all j domain published) (
      run_bind (finish_order lib ord domain) (\<lambda>issued.
      run_return (issued\<lparr>is_warnings := warnings\<rparr>)))))))"

section \<open>A renewal\<close>

definition no_settings :: "rstr \<Rightarrow> acme_fail" where
  "no_settings domain = AfDns01 domain (lit ''this hub has no Cloudflare settings recorded'')"

definition cloudflare_for ::
  "serde \<Rightarrow> (path \<Rightarrow> u32 option) \<Rightarrow> server_state \<Rightarrow> ('h, acme_fail, cf_token \<times> zone) run" where
  "cloudflare_for j other_mode st =
    run_bind (run_lift (ok_or (no_settings (st_domain st)) (st_cloudflare st))) (\<lambda>cf.
    run_bind (run_lift (ok_or (AfDns01 (st_domain st) (lit ''no Cloudflare token was kept for renewals''))
      (cf_token_path cf))) (\<lambda>p.
    run_bind (dns01_failed (st_domain st) (load_token other_mode (FileSource p) None None)) (\<lambda>found.
    run_then
      (case ld_warning found of
         None \<Rightarrow> run_return ()
       | Some w \<Rightarrow> put_err (lit ''anago: warning: '' @ w))
      (run_bind (dns01_failed (st_domain st) (find_zone j (ld_token found) (st_domain st))) (\<lambda>zn.
       run_then
         (if zn_id zn \<noteq> cf_zone_id cf then
            put_err (lit ''anago: the zone for '' @ st_domain st @ lit '' is now '' @ zn_id zn @ lit '' (was '' @ cf_zone_id cf @ lit '')'')
          else run_return ())
         (run_return (ld_token found, zn)))))))"

definition acme_renew ::
  "serde \<Rightarrow> pem_tools \<Rightarrow> (path \<Rightarrow> u32 option) \<Rightarrow> ('a, 'c, 'h) ca_lib \<Rightarrow> server_state \<Rightarrow> server_paths
    \<Rightarrow> (cf_token \<times> zone) option \<Rightarrow> int \<Rightarrow> ('h, acme_fail, renewed) run" where
  "acme_renew j pem other_mode lib st paths ready now =
    run_bind (run_lift (ok_or (AfNotOurs (tls_cert_path (st_tls st))) (tls_renewable (st_tls st)))) (\<lambda>acme.
    let contact = (case ac_contact acme of None \<Rightarrow> [] | Some c \<Rightarrow> c) in
    run_bind (run_catch (on_files (path_exists (ac_account_key_path acme)))) (\<lambda>there.
    run_bind (acme_sign_in j lib
        (account_registration (Some acme) (ac_directory acme) contact (sp_account_key paths) (there = Inr True))
        (ac_directory acme) contact) (\<lambda>signed.
    run_bind
      (case ac_challenge acme of
         Http01 \<Rightarrow>
           run_bind (issue_http01 lib (sg_account signed) (st_domain st) CHALLENGE_PORT) (\<lambda>issued.
           run_return (None, issued))
       | Dns01 \<Rightarrow>
           run_bind (case ready of Some r \<Rightarrow> run_return r | None \<Rightarrow> cloudflare_for j other_mode st) (\<lambda>(token, zn).
           run_bind (issue_dns01 j lib (sg_account signed) (st_domain st) zn token now) (\<lambda>issued.
           run_return (Some (zn_id zn), issued)))) (\<lambda>(zone_id, issued).
    run_then (pending_commit (sg_credentials signed)) (
    run_then (save_issued (sp_certificate paths) (sp_private_key paths) issued) (
    run_return \<lparr>nw_certificate_path = sp_certificate paths, nw_key_path = sp_private_key paths,
      nw_zone_id = zone_id, nw_account_url = sg_url signed,
      nw_not_after = pem_expiry pem (utf8 (is_certificate issued)), nw_warnings = is_warnings issued\<rparr>))))))"

end
