(* ===== verification/IssueFacts.thy ===== *)
theory IssueFacts
  imports AcmeIssue
begin

text \<open>
  What an order leaves behind. With Cloudflare's answers given by the requests so far, and the CA's calls
  and the listener not among these requests: whatever fails, a TXT record that was created is deleted by a
  later request of the same run. And a port that was opened is given back.
\<close>

section \<open>Calls that send Cloudflare nothing\<close>

definition aside :: "('a, 'c, 'h) ca_lib \<Rightarrow> bool" where
  "aside lib \<longleftrightarrow>
    (\<forall>h. (\<forall>c. snd (cl_restore lib c h) = h) \<and> (\<forall>c d. snd (cl_create lib c d h) = h)
      \<and> (\<forall>a c. snd (cl_contacts lib a c h) = h) \<and> (\<forall>a d. snd (cl_order lib a d h) = h)
      \<and> (\<forall>ord i. snd (cl_authorization lib ord i h) = h) \<and> (\<forall>ord i offer. snd (cl_set_ready lib ord i offer h) = h)
      \<and> (\<forall>ord. snd (cl_poll_ready lib ord h) = h) \<and> (\<forall>ord. snd (cl_finalize lib ord h) = h)
      \<and> (\<forall>ord. snd (cl_certificate lib ord h) = h) \<and> (\<forall>n name v. snd (cl_wait lib n name v h) = h))"

definition silent :: "'h dev_env \<Rightarrow> ('h, 'e, 'x) run \<Rightarrow> bool" where
  "silent env m \<longleftrightarrow> (\<forall>s. rp env m (\<lambda>_ s'. si_hub s' = si_hub s) (\<lambda>_ s'. si_hub s' = si_hub s) s)"

named_theorems silent_rules "runs that send nothing"

lemma silentD: "silent env m \<Longrightarrow> rp env m (\<lambda>_ s'. si_hub s' = si_hub s) (\<lambda>_ s'. si_hub s' = si_hub s) s"
  by (simp add: silent_def)

lemma silent_return [silent_rules]: "silent env (run_return x)"
  by (simp add: silent_def rp_simps)

lemma silent_throw [silent_rules]: "silent env (run_throw e)"
  by (simp add: silent_def rp_simps)

lemma silent_lift [silent_rules]: "silent env (run_lift r)"
  by (simp add: silent_def rp_simps split: sum.split)

lemma silent_bind [silent_rules]:
  assumes "silent env m" "\<And>x. silent env (f x)"
  shows "silent env (run_bind m f)"
  unfolding silent_def rp_bind
proof
  fix s
  show "rp env m (\<lambda>x. rp env (f x) (\<lambda>_ s'. si_hub s' = si_hub s) (\<lambda>_ s'. si_hub s' = si_hub s)) (\<lambda>_ s'. si_hub s' = si_hub s) s"
  proof (rule rp_mono [OF silentD [OF assms(1)]], goal_cases)
    case (1 x s')
    with silentD [OF assms(2), of x s'] show ?case by simp
  qed
qed

lemma silent_then [silent_rules]: "silent env m \<Longrightarrow> silent env k \<Longrightarrow> silent env (run_then m k)"
  by (simp add: run_then_def silent_bind)

lemma silent_map_err [silent_rules]: "silent env m \<Longrightarrow> silent env (run_map_err f m)"
  by (simp add: silent_def rp_simps)

lemma silent_if [silent_rules]: "silent env m \<Longrightarrow> silent env k \<Longrightarrow> silent env (if c then m else k)"
  by simp

lemma silent_option [silent_rules]:
  "silent env m \<Longrightarrow> (\<And>x. silent env (f x)) \<Longrightarrow> silent env (case r of None \<Rightarrow> m | Some x \<Rightarrow> f x)"
  by (cases r) simp_all

lemma silent_outside: "(\<And>h. snd (f h) = h) \<Longrightarrow> silent env (outside f)"
  by (simp add: silent_def rp_def outside_def split: prod.splits sum.splits) (metis snd_conv)

lemma silent_status [silent_rules]:
  "silent env m \<Longrightarrow> (\<And>x. silent env (f x)) \<Longrightarrow> silent env (case r of OrderReady \<Rightarrow> m | OrderOther x \<Rightarrow> f x)"
  by (cases r) simp_all

lemma silent_order [silent_rules]: "aside lib \<Longrightarrow> silent env (new_order lib account domain)"
  unfolding new_order_def by (intro silent_rules silent_outside) (simp add: aside_def)

lemma silent_collect [silent_rules]: "aside lib \<Longrightarrow> silent env (collect_challenges lib ord domain kind read is)"
  by (induction "is") (auto intro!: silent_rules silent_outside simp: aside_def)

lemma silent_tell [silent_rules]: "aside lib \<Longrightarrow> silent env (tell_the_ca lib ord domain kind is)"
  by (induction "is") (auto intro!: silent_rules silent_outside simp: aside_def)

lemma silent_wait [silent_rules]: "aside lib \<Longrightarrow> silent env (wait_for_ready lib ord domain kind looked_at)"
  unfolding wait_for_ready_def by (intro silent_rules silent_outside) (simp add: aside_def)

lemma silent_finish [silent_rules]: "aside lib \<Longrightarrow> silent env (finish_order lib ord domain)"
  unfolding finish_order_def by (intro silent_rules silent_outside) (simp_all add: aside_def)

lemma silent_look_for [silent_rules]: "aside lib \<Longrightarrow> silent env (look_for_all lib nameservers name vs)"
  by (induction vs) (auto intro!: silent_rules silent_outside simp: aside_def acme_look_for_def)

section \<open>What is still there\<close>

definition created_at ::
  "serde \<Rightarrow> answers \<Rightarrow> rstr \<Rightarrow> client_request list \<Rightarrow> nat \<Rightarrow> rstr \<Rightarrow> bool" where
  "created_at j answer zone_id log k i \<longleftrightarrow>
    k < length log \<and> rq_method (log ! k) = Post \<and> rq_path (log ! k) = records_path zone_id
    \<and> (\<exists>response r. answer (take k log) (log ! k) = Inr response
        \<and> parse_record j (cr_status response) (cr_body response) = Inr r \<and> dr_id r = i)"

definition deleted_after :: "rstr \<Rightarrow> client_request list \<Rightarrow> nat \<Rightarrow> rstr \<Rightarrow> bool" where
  "deleted_after zone_id log k i \<longleftrightarrow>
    (\<exists>m auth. k < m \<and> m < length log \<and> log ! m = record_delete_request auth zone_id i)"

text \<open>From request number \<open>n\<close> on, what was created is deleted again or is held by a guard.\<close>

definition owes ::
  "serde \<Rightarrow> answers \<Rightarrow> rstr \<Rightarrow> nat \<Rightarrow> client_request list \<Rightarrow> challenge_guard list \<Rightarrow> bool" where
  "owes j answer zone_id n log gs \<longleftrightarrow> n \<le> length log
    \<and> (\<forall>k i. n \<le> k \<longrightarrow> created_at j answer zone_id log k i \<longrightarrow>
        deleted_after zone_id log k i \<or> (\<exists>g \<in> set gs. ch_record_id g = Some i))"

lemma owes_start: "owes j answer zone_id (length log) log []"
  by (simp add: owes_def created_at_def)

lemma created_snoc:
  "created_at j answer zone_id (log @ [q]) k i \<longleftrightarrow>
    created_at j answer zone_id log k i \<or> k = length log \<and> rq_method q = Post \<and> rq_path q = records_path zone_id
    \<and> (\<exists>response r. answer log q = Inr response
        \<and> parse_record j (cr_status response) (cr_body response) = Inr r \<and> dr_id r = i)"
  by (auto simp: created_at_def nth_append less_Suc_eq)

lemma deleted_snoc: "deleted_after zone_id log k i \<Longrightarrow> deleted_after zone_id (log @ [q]) k i"
  by (fastforce simp: deleted_after_def nth_append)

lemma deleted_now: "k < length log \<Longrightarrow> deleted_after zone_id (log @ [record_delete_request auth zone_id i]) k i"
  unfolding deleted_after_def by (rule exI [of _ "length log"]) auto

lemma owes_other:
  "owes j answer zone_id n log gs \<Longrightarrow> rq_method q \<noteq> Post \<Longrightarrow> owes j answer zone_id n (log @ [q]) gs"
  unfolding owes_def created_snoc using deleted_snoc by fastforce

lemma owes_delete:
  assumes "owes j answer zone_id n log (g # gs)" "ch_record_id g = Some i"
  shows "owes j answer zone_id n (log @ [record_delete_request auth zone_id i]) gs"
  unfolding owes_def
proof (intro conjI allI impI)
  fix k i'
  let ?log = "log @ [record_delete_request auth zone_id i]"
  assume "n \<le> k" "created_at j answer zone_id ?log k i'"
  then have c: "created_at j answer zone_id log k i'"
    unfolding created_snoc by (auto simp: record_delete_request_def api_request_def)
  then consider "deleted_after zone_id log k i'" | "i' = i" | "\<exists>g \<in> set gs. ch_record_id g = Some i'"
    using assms \<open>n \<le> k\<close> unfolding owes_def by fastforce
  then show "deleted_after zone_id ?log k i' \<or> (\<exists>g \<in> set gs. ch_record_id g = Some i')"
  proof cases
    case 2
    with c show ?thesis using deleted_now [of k log zone_id auth i] by (auto simp: created_at_def)
  qed (auto intro: deleted_snoc)
qed (use assms(1) in \<open>simp add: owes_def\<close>)

lemma owes_created:
  assumes "owes j answer zone_id n log gs"
    and "\<And>response r. answer log q = Inr response \<Longrightarrow> parse_record j (cr_status response) (cr_body response) = Inr r \<Longrightarrow>
      ch_record_id g = Some (dr_id r)"
  shows "owes j answer zone_id n (log @ [q]) (gs @ [g])"
  using assms deleted_snoc unfolding owes_def created_snoc by fastforce

lemma owes_nothing_created:
  assumes "owes j answer zone_id n log gs"
    and "\<And>response r. answer log q = Inr response \<Longrightarrow> parse_record j (cr_status response) (cr_body response) \<noteq> Inr r"
  shows "owes j answer zone_id n (log @ [q]) gs"
  using assms deleted_snoc unfolding owes_def created_snoc by fastforce

lemma owes_others:
  "owes j answer zone_id n log gs \<Longrightarrow> \<forall>q \<in> set qs. rq_method q \<noteq> Post \<Longrightarrow> owes j answer zone_id n (log @ qs) gs"
proof (induction qs arbitrary: log)
  case (Cons q qs)
  from Cons.IH [OF owes_other [OF Cons.prems(1), of q]] Cons.prems(2) show ?case by simp
qed simp

section \<open>The guards\<close>

definition armed :: "rstr \<Rightarrow> challenge_guard \<Rightarrow> bool" where
  "armed zone_id g \<longleftrightarrow> ch_zone_id g = zone_id \<and> (\<exists>auth. token_header (ch_token g) = Inr auth) \<and> ch_record_id g \<noteq> None"

lemma rp_take_out_sent:
  assumes env: "de_send env = recorded answer" and auth: "token_header (ch_token g) = Inr auth"
  shows "rp env (take_out j g i)
    (\<lambda>_ s'. si_hub s' = si_hub s @ [record_delete_request auth (ch_zone_id g) i])
    (\<lambda>_ s'. si_hub s' = si_hub s @ [record_delete_request auth (ch_zone_id g) i]) s"
  unfolding take_out_def authorized_def auth map_err_def sum.case rp_bind rp_lift
  by (rule rp_mono [OF rp_delete_record [OF env]]) auto

lemma rp_drop_sent:
  assumes env: "de_send env = recorded answer" and g: "armed zone_id g"
  shows "rp env (challenge_drop j g)
    (\<lambda>_ s'. \<exists>auth i. ch_record_id g = Some i \<and> si_hub s' = si_hub s @ [record_delete_request auth zone_id i]) R s"
proof -
  obtain auth i where i: "ch_record_id g = Some i" "token_header (ch_token g) = Inr auth" "ch_zone_id g = zone_id"
    using g by (auto simp: armed_def)
  show ?thesis
    unfolding challenge_drop_def i(1) option.case rp_bind rp_catch
    by (rule rp_mono [OF rp_take_out_sent [OF env i(2)]]) (auto simp: rp_simps i)
qed

lemma rp_drop_all:
  assumes env: "de_send env = recorded answer"
  shows "owes j answer zone_id n (si_hub s) gs \<Longrightarrow> \<forall>g \<in> set gs. armed zone_id g \<Longrightarrow>
    rp env (drop_all j gs) (\<lambda>_ s'. owes j answer zone_id n (si_hub s') []) R s"
proof (induction gs arbitrary: s)
  case Nil
  then show ?case by (simp add: rp_simps)
next
  case (Cons g gs)
  show ?case
    unfolding drop_all.simps rp_then
  proof (rule rp_mono [OF rp_drop_sent [OF env, of zone_id g]], goal_cases)
    case (2 x s1)
    with Cons.prems have "owes j answer zone_id n (si_hub s1) gs"
      by (auto intro: owes_delete)
    from Cons.IH [OF this] Cons.prems(2) show ?case by simp
  qed (use Cons.prems(2) in auto)
qed

lemma rp_dropping_on_error:
  assumes env: "de_send env = recorded answer" and gs: "\<forall>g \<in> set gs. armed zone_id g"
    and m: "rp env m Q (\<lambda>_ s'. owes j answer zone_id n (si_hub s') gs) s"
  shows "rp env (dropping_on_error j gs m) Q (\<lambda>_ s'. owes j answer zone_id n (si_hub s') []) s"
  unfolding dropping_on_error_def rp_bind rp_catch
proof (rule rp_mono [OF m], goal_cases)
  case (2 e s1)
  from rp_drop_all [OF env this gs] show ?case
    unfolding sum.case rp_then rp_throw by (rule rp_mono) auto
qed (simp add: rp_simps)

lemma rp_write_record_made:
  assumes "de_send env = recorded answer"
  shows "rp env (write_record j auth method target body)
    (\<lambda>r s'. (\<exists>response. answer (si_hub s) (api_request method target (Some body) auth) = Inr response
        \<and> parse_record j (cr_status response) (cr_body response) = Inr r)
      \<and> si_hub s' = si_hub s @ [api_request method target (Some body) auth])
    (\<lambda>_ s'. (\<forall>response r. answer (si_hub s) (api_request method target (Some body) auth) = Inr response \<longrightarrow>
        parse_record j (cr_status response) (cr_body response) \<noteq> Inr r)
      \<and> si_hub s' = si_hub s @ [api_request method target (Some body) auth]) s"
  unfolding write_record_def rp_bind
  by (rule rp_mono [OF rp_api_send [OF assms]]) (auto simp: rp_simps split: sum.split)

lemma not_post [simp]: "rq_method (list_request auth zone_id name) \<noteq> Post" "rq_method (record_delete_request auth zone_id i) \<noteq> Post"
  by (simp_all add: list_request_def record_delete_request_def api_request_def)

lemma rp_publish_owes:
  assumes env: "de_send env = recorded answer" and s: "owes j answer zone_id n (si_hub s) gs"
  shows "rp env (challenge_publish j token zone_id domain v now)
    (\<lambda>g s'. owes j answer zone_id n (si_hub s') (gs @ [g]) \<and> armed zone_id g)
    (\<lambda>_ s'. owes j answer zone_id n (si_hub s') gs) s"
  unfolding challenge_publish_def rp_bind
proof (rule rp_mono [OF rp_lift_plain], goal_cases)
  case (1 name s1)
  show ?case
    unfolding authorized_def
  proof (rule rp_mono [OF rp_lift_plain], goal_cases)
    case (1 auth s2)
    then have auth: "token_header token = Inr auth" and s2: "s2 = s"
      using \<open>challenge_name domain = Inr name \<and> s1 = s\<close> by (simp_all add: map_err_eq_Inr)
    show ?case
      unfolding s2
    proof (rule rp_mono [OF rp_list_records [OF env]], goal_cases)
      case (1 records s3)
      then have s3: "owes j answer zone_id n (si_hub s3) gs" using owes_other [OF s] by simp
      show ?case
        unfolding rp_then
      proof (rule rp_mono [OF rp_sweep [OF env]], goal_cases)
        case (1 x s4)
        then have s4: "owes j answer zone_id n (si_hub s4) gs"
          using owes_others [OF s3, of "sweep_requests auth zone_id (stale_challenges records now)"] by auto
        show ?case
          unfolding rp_bind rp_env
        proof (rule rp_mono [OF rp_write_record_made [OF env]], goal_cases)
          case (1 created s5)
          then show ?case
            using auth by (auto simp: rp_return armed_def intro!: owes_created [OF s4])
        next
          case (2 e s5)
          then show ?case using owes_nothing_created [OF s4] by auto
        qed
      next
        case (2 e s4)
        then obtain k where "si_hub s4 = si_hub s3 @ take k (sweep_requests auth zone_id (stale_challenges records now))"
          by blast
        moreover have "\<forall>q \<in> set (take k (sweep_requests auth zone_id (stale_challenges records now))). rq_method q \<noteq> Post"
          by (auto dest!: in_set_takeD)
        ultimately show ?case using owes_others [OF s3] by simp
      qed
    next
      case (2 e s3)
      then show ?case using owes_other [OF s] by simp
    qed
  next
    case (2 e s2)
    then show ?case using s \<open>challenge_name domain = Inr name \<and> s1 = s\<close> by simp
  qed
qed (simp add: s)

lemma rp_dns01_failed: "rp env m Q (\<lambda>_. R') s \<Longrightarrow> rp env (dns01_failed domain m) Q (\<lambda>_. R') s"
  by (simp add: dns01_failed_def rp_simps)

lemma rp_publish_all:
  assumes env: "de_send env = recorded answer"
  shows "owes j answer zone_id n (si_hub s) gs \<Longrightarrow> \<forall>g \<in> set gs. armed zone_id g \<Longrightarrow>
    rp env (publish_all j token zone_id domain now vs gs)
      (\<lambda>gs' s'. owes j answer zone_id n (si_hub s') gs' \<and> (\<forall>g \<in> set gs'. armed zone_id g))
      (\<lambda>_ s'. owes j answer zone_id n (si_hub s') []) s"
proof (induction vs arbitrary: gs s)
  case Nil
  then show ?case by (simp add: rp_simps)
next
  case (Cons v vs)
  show ?case
    unfolding publish_all.simps rp_bind
    by (rule rp_dropping_on_error [OF env Cons.prems(2)], rule rp_dns01_failed,
        rule rp_mono [OF rp_publish_owes [OF env Cons.prems(1)]]) (use Cons in auto)
qed

lemma rp_remove_sent:
  assumes env: "de_send env = recorded answer" and g: "armed zone_id g" and s: "owes j answer zone_id n (si_hub s) (g # gs)"
  shows "rp env (challenge_remove j g)
    (\<lambda>_ s'. owes j answer zone_id n (si_hub s') gs) (\<lambda>_ s'. owes j answer zone_id n (si_hub s') gs) s"
proof -
  obtain auth i where i: "ch_record_id g = Some i" "token_header (ch_token g) = Inr auth" "ch_zone_id g = zone_id"
    using g by (auto simp: armed_def)
  note gone = owes_delete [OF s i(1)]
  show ?thesis
    unfolding challenge_remove_def i(1) option.case rp_bind rp_catch
  proof (rule rp_mono [OF rp_take_out_sent [OF env i(2)]], goal_cases)
    case (1 x s1)
    then show ?case
      using gone i by (simp add: settle_def rp_then drop_disarmed rp_return rp_lift)
  next
    case (2 e s1)
    show ?case
      unfolding settle_def sum.case rp_then
    proof (rule rp_mono [OF rp_drop_sent [OF env g, where R = "\<lambda>_ _. False"]], goal_cases)
      case (1 x s2)
      then obtain auth' where "si_hub s2 = (si_hub s @ [record_delete_request auth zone_id i]) @ [record_delete_request auth' zone_id i]"
        using 2 i by auto
      with owes_other [OF gone, of "record_delete_request auth' zone_id i"] show ?case
        by (simp add: rp_lift)
    qed simp
  qed
qed

lemma rp_remove_all:
  assumes env: "de_send env = recorded answer"
  shows "owes j answer zone_id n (si_hub s) gs \<Longrightarrow> \<forall>g \<in> set gs. armed zone_id g \<Longrightarrow>
    rp env (remove_all j domain gs) (\<lambda>_ s'. owes j answer zone_id n (si_hub s') [])
      (\<lambda>_ s'. owes j answer zone_id n (si_hub s') []) s"
proof (induction gs arbitrary: s)
  case Nil
  then show ?case by (simp add: rp_simps)
next
  case (Cons g gs)
  have gs: "\<forall>g \<in> set gs. armed zone_id g" and g: "armed zone_id g" using Cons.prems(2) by auto
  show ?case
    unfolding remove_all.simps rp_then
    by (rule rp_dropping_on_error [OF env gs], rule rp_dns01_failed, rule rp_mono [OF rp_remove_sent [OF env g Cons.prems(1)]])
      (use Cons.IH gs in auto)
qed

lemma rp_silent_owes:
  assumes "silent env m" "owes j answer zone_id n (si_hub s) gs"
  shows "rp env m (\<lambda>_ s'. owes j answer zone_id n (si_hub s') gs) (\<lambda>_ s'. owes j answer zone_id n (si_hub s') gs) s"
  by (rule rp_mono [OF silentD [OF assms(1)]]) (use assms(2) in auto)

lemma rp_issue_dns01:
  assumes env: "de_send env = recorded answer" and lib: "aside lib"
  shows "rp env (issue_dns01 j lib account domain zn token now)
    (\<lambda>_ s'. owes j answer (zn_id zn) (length (si_hub s)) (si_hub s') [])
    (\<lambda>_ s'. owes j answer (zn_id zn) (length (si_hub s)) (si_hub s') []) s"
proof -
  let ?I = "\<lambda>gs s'. owes j answer (zn_id zn) (length (si_hub s)) (si_hub s') gs"
  note silent_owes = rp_mono [OF rp_silent_owes [where j = j and answer = answer and zone_id = "zn_id zn"]]
  show ?thesis
    unfolding issue_dns01_def rp_bind
  proof (rule silent_owes [OF silent_order [OF lib] owes_start], goal_cases)
    case (1 ord s1)
    show ?case
    proof (rule silent_owes [OF silent_collect [OF lib] 1], goal_cases)
      case (1 vs s2)
      show ?case
      proof (cases "vs = []")
        case True
        with rp_silent_owes [OF silent_finish [OF lib] 1] show ?thesis by simp
      next
        case False
        have "rp env (publish_all j token (zn_id zn) domain now vs [])
            (\<lambda>published. rp env (dropping_on_error j published
              (let name = ch_name (hd published) in
                run_bind (look_for_all lib (zn_servers zn) name vs) (\<lambda>warnings.
                run_then (tell_the_ca lib ord domain Dns01 [0..<od_count ord]) (
                run_then (wait_for_ready lib ord domain Dns01 [lit ''the TXT record at '' @ name])
                  (run_return warnings)))))
              (\<lambda>warnings. rp env (run_then (remove_all j domain published) (
                run_bind (finish_order lib ord domain) (\<lambda>issued. run_return (issued\<lparr>is_warnings := warnings\<rparr>))))
                (\<lambda>_. ?I []) (\<lambda>_. ?I [])) (\<lambda>_. ?I [])) (\<lambda>_. ?I []) s2"
        proof (rule rp_mono [OF rp_publish_all [OF env 1]], goal_cases)
          case (2 published s3)
          then have p: "?I published s3" "\<forall>g \<in> set published. armed (zn_id zn) g" by auto
          show ?case
          proof (rule rp_dropping_on_error [OF env p(2)], unfold Let_def, rule silent_owes [OF _ p(1)], goal_cases)
            case (2 warnings s4)
            show ?case
              unfolding rp_then rp_bind
              by (rule rp_mono [OF rp_remove_all [OF env 2 p(2)]])
                (auto simp: rp_return intro: silent_owes [OF silent_finish [OF lib]])
          qed (auto intro!: silent_rules lib)
        qed auto
        with False show ?thesis by (simp add: rp_bind)
      qed
    qed
  qed
qed

end
