(* ===== verification/Spec2Isabelle.thy ===== *)
theory Spec2Isabelle
  imports HubWire Sample AcmeText DnsDecide X509 Dnswire ExportRun SyncFacts HubFilesFacts Network CliFacts RenewFacts TimerFacts Probe IssueFacts
begin

text \<open>
  anago is a small WireGuard hub. A server keeps one state file, listens for HTTPS requests of its
  devices and pushes the roster into a WireGuard interface; devices redeem one-time join codes and
  fetch the roster. The source has two crates. \<open>crates/anago-core\<close> holds pure data and decisions and is
  modelled here module by module; of \<open>crates/anago\<close>, the program around it, the server's side of a
  request is modelled from the bytes of the body to the bytes of the file.

  The parts and the theories, in the order they build on each other:

  \<^item> \<open>Prelude\<close>, \<open>RustStr\<close>, \<open>RustText\<close>, \<open>Interfaces\<close>: what the code uses of Rust's standard library. A
    string is a list of code points with its UTF-8 bytes beside it (\<open>utf8\<close>, \<open>utf8_decode\<close>, \<open>utf8_lossy\<close>),
    fallible code is a sum (\<open>attempt\<close> is the question mark operator), bytes are \<open>8 word\<close>s. What depends
    on the Unicode tables is a record of type \<open>unicode\<close> that is a parameter, with \<open>unicode_ok\<close> as its
    documented behaviour. \<open>Interfaces\<close> holds the locales: texts with a canonical form, codecs to and
    from JSON, step relations with an invariant, step relations that refine another. Each locale is
    interpreted on the definitions of the component that provides it.
  \<^item> \<open>Token\<close>, \<open>JoinCode\<close>, \<open>DevName\<close>, \<open>Subnet\<close>: \<open>token.rs\<close>, \<open>code.rs\<close>, \<open>name.rs\<close>, \<open>subnet.rs\<close>. Accepted texts and
    their normal forms, constant-time comparison, the status of a code, the lowest free address.
  \<^item> \<open>Json\<close>, \<open>JsonText\<close>, \<open>Proto\<close>: \<open>json.rs\<close>, \<open>proto.rs\<close>. The two writers, the parser with its byte offsets and
    its depth bound of 64, and the messages. The parser recurses on the depth that is left and on
    what is left of the text, so it is total without fuel.
  \<^item> \<open>Renewal\<close>, \<open>ServerState\<close>, \<open>StateCodec\<close>, \<open>StateFile\<close>: \<open>state.rs\<close>. When a certificate is due, the state and
    \<open>add_peer\<close>, \<open>remove_peer\<close>, both schema versions of the file with every error of the reader.
  \<^item> \<open>Wgconf\<close>, \<open>WgTools\<close>, \<open>WgApply\<close>: \<open>wgconf.rs\<close>, \<open>wg.rs\<close>, \<open>wgapply.rs\<close>. The configuration texts, the command
    lines and their output, the decision what to run and the record of what was applied last.
  \<^item> \<open>Secret\<close>, \<open>Store\<close>, \<open>Api\<close>, \<open>Hub\<close>: \<open>secret.rs\<close>, \<open>store.rs\<close>, \<open>api.rs\<close>, \<open>code.rs\<close>. Secrets from random bytes, the
    file under its lock (a disk that holds the text or nothing), the decisions of the three endpoints
    and the handlers with status, headers and body.
  \<^item> \<open>HubSpec\<close>, \<open>HubSystem\<close>, \<open>HubWire\<close>: the abstract hub (members and codes), the system that composes
    requests, \<open>anago code\<close> runs and interface pushes in any order over one disk and one interface, its
    invariant, the simulation by the abstract hub, and what a client can read from the responses.
  \<^item> \<open>AcmeText\<close>, \<open>DnsDecide\<close>, \<open>SyncDecide\<close>, \<open>X509\<close>, \<open>Dnswire\<close>: \<open>acme.rs\<close>, \<open>dns.rs\<close>, \<open>sync.rs\<close>, \<open>x509.rs\<close>,
    \<open>dnswire.rs\<close> of the core crate.
  \<^item> \<open>Sample\<close>: the concrete hub, requests and environments on which the properties are applied.

  The environment is explicit. A store operation takes an \<open>io_env\<close> that says what the file system
  answers, a push takes an \<open>apply_env\<close> with the outcome of each command, a handler takes the time, the
  random bytes and SHA-256 as arguments. \<open>parts_ok\<close> collects what is assumed of SHA-256 and Unicode: a
  digest has 32 bytes, and the tables agree with ASCII. Injectivity is assumed nowhere.

  Bounds. Machine integers keep their width: \<open>i64\<close> fields of a file are checked on reading, octets and
  DNS fields are words, and timestamps saturate where the code saturates. The one loop of the modelled code
  that may not end, drawing characters by rejection, works on a given stream of random bytes; the
  theorem on it says when enough bytes are there, and then that it returns. The reader of DNS names
  terminates since it follows at most 32 pointers and moves forward otherwise.

  Properties C1 to C11 are about the composed system, C12 to C17 about the file and the messages, C18
  to C24 about codes, names, tokens and addresses, C25 to C34 about the decisions and the
  configuration texts, C35 to C39 about certificates and DNS messages.

  Not modelled: sockets, TLS, the ACME and Cloudflare clients, prompts, service managers and file
  system calls of \<open>crates/anago\<close>, the QR encoder and SHA-256 (libraries), and text that is only printed
  for a person. The pure parts that remain are the HTTP messages of \<open>client.rs\<close>, \<open>render.rs\<close>,
  \<open>qr.rs\<close> and the parsing of arguments; they come next, in this order.
\<close>

section \<open>The hub as a system\<close>

text \<open>
  C1. Whatever requests, \<open>anago code\<close> runs and interface pushes happen in whatever order, the state
  file can always be read, no two devices share a name or an address, every address is one the
  subnet may hand out (never the hub's own), no join code is stored twice and there are at most
  253 devices.
\<close>

theorem reachable_state_safe:
  assumes "parts_ok u sha" "system_start u s" "(system_step u sha)\<^sup>*\<^sup>* s t"
  shows "\<exists>st. holds u (sys_disk t) st \<and> distinct (map p_name (st_peers st))
    \<and> distinct (map p_address (st_peers st)) \<and> distinct (map ic_code (st_codes st))
    \<and> (\<forall>p \<in> set (st_peers st). p_address p \<in> usable_addresses (st_subnet st)
         \<and> p_address p \<noteq> server_address (st_subnet st))
    \<and> length (st_peers st) \<le> 253"
proof -
  have "system_inv u t" using hub_run.inv_reachable assms by blast
  then obtain st where h: "holds u (sys_disk t) st" and safe: "state_safe st"
    by (auto simp: system_inv_def)
  from safe have "distinct (map p_name (st_peers st)) \<and> distinct (map p_address (st_peers st))
    \<and> distinct (map ic_code (st_codes st))
    \<and> (\<forall>p \<in> set (st_peers st). p_address p \<in> usable_addresses (st_subnet st))"
    by (auto simp: state_safe_def used_addresses_def)
  with h state_safe_count [OF safe] state_safe_no_hub_address [OF safe] show ?thesis by blast
qed

theorem reachable_state_safe_witness:
  "\<exists>st. holds ascii_unicode (sys_disk sample_joined_system) st \<and> distinct (map p_name (st_peers st))
    \<and> distinct (map p_address (st_peers st)) \<and> distinct (map ic_code (st_codes st))
    \<and> (\<forall>p \<in> set (st_peers st). p_address p \<in> usable_addresses (st_subnet st)
         \<and> p_address p \<noteq> server_address (st_subnet st))
    \<and> length (st_peers st) \<le> 253"
  by (rule reachable_state_safe [OF sample_parts sample_start r_into_rtranclp [of "system_step ascii_unicode sample_sha", OF sample_step]])

text \<open>
  C2. Refinement. A run of the system is a run of the abstract hub: each request, command and push
  either leaves the abstract hub alone or is one join, removal or issue of it.
\<close>

theorem runs_refine_hub:
  assumes "parts_ok u sha" "system_start u s" "(system_step u sha)\<^sup>*\<^sup>* s t" "represents u s h"
  shows "\<exists>h'. represents u t h' \<and> hub_next\<^sup>*\<^sup>* h h'"
proof -
  have "system_inv u s" using assms by (auto simp: parts_ok_def intro: system_start_inv)
  from system_run_simulates [OF assms(1) this assms(3,4)] show ?thesis .
qed

theorem runs_refine_hub_witness:
  "\<exists>h'. represents ascii_unicode sample_joined_system h' \<and> hub_next\<^sup>*\<^sup>* (abs_hub sample_state) h'"
proof (rule runs_refine_hub [OF sample_parts sample_start])
  show "(system_step ascii_unicode sample_sha)\<^sup>*\<^sup>* sample_system sample_joined_system"
    using sample_step by blast
  show "represents ascii_unicode sample_system (abs_hub sample_state)"
    using sample_holds by (auto simp: represents_def sample_system_def)
qed

text \<open>
  C3. A join code is redeemed once. After a request with a code was answered with 200, no request
  with that code is accepted again, however it is spelled and whatever runs in between; it leaves
  the file alone.
\<close>

theorem code_redeemed_once:
  assumes parts: "parts_ok u sha" and start: "system_start u s" and run: "(system_step u sha)\<^sup>*\<^sup>* s t"
    and ok: "event_ok t (EvJoin env now minted body)"
    and won: "resp_status (fst (handle_join u sha env now minted body (sys_disk t))) = 200"
    and later: "(system_step u sha)\<^sup>*\<^sup>* (run_event u sha (EvJoin env now minted body) t) v"
    and same: "request_code u body' = request_code u body"
  shows "resp_status (fst (handle_join u sha env' now' minted' body' (sys_disk v))) \<noteq> 200
    \<and> snd (handle_join u sha env' now' minted' body' (sys_disk v)) = sys_disk v"
proof -
  let ?t = "run_event u sha (EvJoin env now minted body) t"
  have inv: "system_inv u w" if "(system_step u sha)\<^sup>*\<^sup>* s w" for w
    using hub_run.inv_reachable parts start that by blast
  have t': "(system_step u sha)\<^sup>*\<^sup>* s ?t" and v: "(system_step u sha)\<^sup>*\<^sup>* s v"
    using run system_step [OF ok] later by (meson rtranclp.rtrancl_into_rtrancl rtranclp_trans)+
  obtain resp d' where r: "handle_join u sha env now minted body (sys_disk t) = (resp, d')" by fastforce
  obtain st where st: "holds u (sys_disk t) st" "state_safe st" using inv [OF run] by (auto simp: system_inv_def)
  from accepted_spends [OF st _ _ _ r] parts ok won r obtain c st' e where
    c: "request_code u body = Some c" and st': "holds u (sys_disk ?t) st'"
    and spent: "hub_codes (abs_hub st') c = Some (e, Some now)"
    by (auto simp: parts_ok_def after_request_def)
  have "represents u ?t (abs_hub st')" using st' by (auto simp: represents_def)
  from system_run_simulates [OF parts inv [OF t'] later this] obtain h where
    h: "represents u v h" "hub_next\<^sup>*\<^sup>* (abs_hub st') h" by blast
  obtain sv where sv: "holds u (sys_disk v) sv" "state_safe sv" using inv [OF v] by (auto simp: system_inv_def)
  then have "h = abs_hub sv" using h(1) by (auto simp: represents_def dest: holds_fun)
  with spent_stays_run [OF h(2) spent] have "hub_codes (abs_hub sv) c = Some (e, Some now)" by simp
  from spent_never_accepted [OF sv this] c same show ?thesis by (metis prod.collapse)
qed

theorem code_redeemed_once_witness:
  "resp_status (fst (handle_join ascii_unicode sample_sha sample_env 1200 (Inr sample_token) sample_body
      (sys_disk sample_joined_system))) \<noteq> 200
   \<and> snd (handle_join ascii_unicode sample_sha sample_env 1200 (Inr sample_token) sample_body
      (sys_disk sample_joined_system)) = sys_disk sample_joined_system"
proof (rule code_redeemed_once [OF sample_parts sample_start])
  show "(system_step ascii_unicode sample_sha)\<^sup>*\<^sup>* sample_system sample_system" by simp
  show "event_ok sample_system (EvJoin sample_env 1100 (Inr sample_token) sample_body)"
    by (simp add: i64_defs sample_token_ok)
  show "resp_status (fst (handle_join ascii_unicode sample_sha sample_env 1100 (Inr sample_token) sample_body
      (sys_disk sample_system))) = 200"
    by (simp add: sample_system_def sample_join)
  have "run_event ascii_unicode sample_sha (EvJoin sample_env 1100 (Inr sample_token) sample_body)
      sample_system = sample_joined_system"
    by (simp add: sample_system_def sample_join after_request_def sample_joined_system_def)
  then show "(system_step ascii_unicode sample_sha)\<^sup>*\<^sup>* (run_event ascii_unicode sample_sha
      (EvJoin sample_env 1100 (Inr sample_token) sample_body) sample_system) sample_joined_system"
    by simp
qed simp

text \<open>
  C4. \<open>POST /api/v1/join\<close> answers 200 exactly when the body decodes, a token was minted, the state
  could be read and written, the code, name and key have their shape, the code is stored, unused
  and not expired, the name is free and an address is left; nothing else is asked for.
\<close>

theorem join_accepted_iff:
  "resp_status (fst (handle_join u sha env now minted body d)) = 200 \<longleftrightarrow>
    (\<exists>rq token st reg i. parse_body u body = Inr rq \<and> minted = Inr token
       \<and> store_lock u env d = Inr st \<and> io_write env = None
       \<and> registration_of u rq (hash_token sha token) = Inr reg
       \<and> code_at (rg_code reg) st i \<and> ic_used_at (st_codes st ! i) = None
       \<and> now < ic_expires_at (st_codes st ! i) \<and> rg_name reg \<notin> p_name ` set (st_peers st)
       \<and> (\<exists>a \<in> usable_addresses (st_subnet st). a \<notin> set (used_addresses st)))"
  (is "?ok \<longleftrightarrow> ?cond")
proof
  assume ok: ?ok
  obtain resp d' where run: "handle_join u sha env now minted body d = (resp, d')" by fastforce
  from run show ?cond
  proof (cases rule: handle_join_cases)
    case refused
    with ok run show ?thesis by simp
  next
    case (accepted rq token st st' r)
    from run accepted(1-4) have "io_write env = None"
      using ok by (auto simp: handle_join_def store_write_def split: option.splits prod.splits)
    with accepted show ?thesis
      by (fastforce simp: decide_join_accepted add_peer_accepted issued_usable_iff subnet_allocate_least
          split: if_splits)
  qed
next
  assume ?cond
  then obtain rq token st reg i a where c: "parse_body u body = Inr rq" "minted = Inr token"
      "store_lock u env d = Inr st" "io_write env = None"
      "registration_of u rq (hash_token sha token) = Inr reg"
    and i: "code_at (rg_code reg) st i" "ic_used_at (st_codes st ! i) = None" "now < ic_expires_at (st_codes st ! i)"
    and new: "rg_name reg \<notin> p_name ` set (st_peers st)"
    and room: "a \<in> usable_addresses (st_subnet st)" "a \<notin> set (used_addresses st)"
    by blast
  obtain p st' where "add_peer reg now st = (Inr p, st')"
    using add_peer_possible [OF i(1) _ new, of now] i(2,3) room by (auto simp: issued_usable_iff)
  with c show ?ok
    by (simp add: handle_join_def decide_join_def store_write_def)
qed

text \<open>
  C5. What an accepted join leaves and answers: the file holds one device more, at the lowest free
  address, with the hash of the minted token, its code is stamped as used, and the body of the
  answer decodes to that device's name and address, its token and the hub's parameters.
\<close>

theorem join_commits_and_answers:
  assumes parts: "parts_ok u sha" and d: "holds u d st" "state_safe st" and now: "in_i64 now"
    and minted: "hex_ok (token_str token)"
    and run: "handle_join u sha env now (Inr token) body d = (resp, d')" and ok: "resp_status resp = 200"
  shows "\<exists>reg i p st'. holds u d' st' \<and> code_at (rg_code reg) st i \<and> st' = joined reg now i (p_address p) st
    \<and> st_peers st' = st_peers st @ [p] \<and> p_token_hash p = hash_token sha token
    \<and> p_address p = Min (usable_addresses (st_subnet st) - p_address ` set (st_peers st))
    \<and> read_body u join_response_from_json (resp_body resp) = Some (join_answer st' token p)"
proof -
  note handle_join_done [OF parts d now minted run ok]
  then show ?thesis using read_join_response [of _ u] by metis
qed

theorem join_commits_and_answers_witness:
  "\<exists>reg i p st'. holds ascii_unicode (Some (to_json_string sample_joined)) st' \<and> code_at (rg_code reg) sample_state i
    \<and> st' = joined reg 1100 i (p_address p) sample_state
    \<and> st_peers st' = st_peers sample_state @ [p] \<and> p_token_hash p = hash_token sample_sha sample_token
    \<and> p_address p = Min (usable_addresses (st_subnet sample_state) - p_address ` set (st_peers sample_state))
    \<and> read_body ascii_unicode join_response_from_json
        (resp_body (json_response 200 (to_string (join_response_to_json
          (join_answer sample_joined sample_token sample_peer))))) = Some (join_answer st' sample_token p)"
  by (rule join_commits_and_answers [OF sample_parts sample_holds sample_safe _ sample_token_ok sample_join])
    (simp_all add: i64_defs)

text \<open>
  C6. A request that is not answered with 200 leaves the state file exactly as it was, whichever of
  the three endpoints it came to and whatever failed.
\<close>

theorem refused_leaves_file:
  "(resp_status (fst (handle_join u sha env now minted body d)) = 200
      \<or> snd (handle_join u sha env now minted body d) = d)
   \<and> (resp_status (fst (handle_peers u sha env now header d)) = 200
      \<or> snd (handle_peers u sha env now header d) = d)
   \<and> (resp_status (fst (handle_remove u sha env now header name d)) = 200
      \<or> snd (handle_remove u sha env now header name d) = d)"
proof -
  have join: "resp_status (fst (handle_join u sha env now minted body d)) = 200
      \<or> snd (handle_join u sha env now minted body d) = d"
    by (cases "handle_join u sha env now minted body d") (auto elim: handle_join_cases)
  have "resp_status (fst (with_caller u sha env now header change d)) = 200
      \<or> snd (with_caller u sha env now header change d) = d" for change
    by (cases "with_caller u sha env now header change d") (auto elim: with_caller_cases)
  with join show ?thesis by (simp add: handle_peers_def handle_remove_def)
qed



text \<open>
  C8. Only a registered device is served: a 200 from \<open>GET /api/v1/peers\<close> or
  \<open>DELETE /api/v1/peers/{name}\<close> means that the header carried a token whose hash the file stores
  for one of its devices.
\<close>

theorem admitted_is_registered:
  assumes "parts_ok u sha" "holds u d st"
    and "resp_status (fst (handle_peers u sha env now header d)) = 200
      \<or> resp_status (fst (handle_remove u sha env now header name d)) = 200"
  shows "\<exists>p token. p \<in> set (st_peers st) \<and> bearer_token header = Inr token
    \<and> p_token_hash p = hash_token sha token"
  using assms with_caller_admits [OF assms(1,2)]
  unfolding handle_peers_def handle_remove_def caller_of_def by blast

theorem admitted_is_registered_witness:
  "\<exists>p token. p \<in> set (st_peers sample_joined) \<and> bearer_token sample_header = Inr token
    \<and> p_token_hash p = hash_token sample_sha token"
proof (rule admitted_is_registered [OF sample_parts sample_joined_holds, where name = "[]"])
  show "resp_status (fst (handle_peers ascii_unicode sample_sha sample_env 1200 sample_header
        (Some (to_json_string sample_joined)))) = 200
      \<or> resp_status (fst (handle_remove ascii_unicode sample_sha sample_env 1200 sample_header []
        (Some (to_json_string sample_joined)))) = 200"
    using sample_peers by simp
qed

text \<open>
  C9. Removing a device takes its access away: after the 200 of a removal, a token that only the
  removed device held gets the 401 of any unknown token, at both authenticated endpoints, and the
  other devices are the ones that were there before, with their keys, addresses and tokens.
\<close>

theorem removed_token_is_dead:
  assumes parts: "parts_ok u sha" and d: "holds u d st" and now: "in_i64 now"
    and run: "handle_remove u sha env now header name d = (resp, d')" and ok: "resp_status resp = 200"
    and p: "p \<in> set (st_peers st)" "device_name_parse u name = Inr (p_name p)"
    and names: "distinct (map p_name (st_peers st))"
    and hashes: "distinct (map p_token_hash (st_peers st))"
    and tok: "bearer_token header' = Inr token" "hash_token sha token = p_token_hash p"
    and env: "env_fine env'"
  shows "handle_peers u sha env' now' header' d' = (error_response unauthorized, d')
    \<and> handle_remove u sha env' now' header' name' d' = (error_response unauthorized, d')
    \<and> (\<exists>st'. holds u d' st' \<and> map member_of (st_peers st') = map member_of (remove1 p (st_peers st)))"
proof -
  have u: "unicode_laws u" using parts by (simp add: parts_ok_def)
  from handle_remove_done [OF u d now run ok] obtain q st' where q: "p_name p = p_name q" "q \<in> set (st_peers st)"
    and h: "holds u d' st'" and m: "map member_of (st_peers st') = map member_of (remove1 q (st_peers st))"
    using p(2) by auto
  have "q = p" using names p(1) q by (metis distinct_map inj_on_def)
  moreover have "p_token_hash p \<notin> p_token_hash ` set (remove1 p (st_peers st))"
    using hashes p(1) by (auto simp: distinct_map set_remove1_eq inj_on_def)
  ultimately have "hash_token sha token \<notin> mb_token_hash ` set (map member_of (st_peers st'))"
    unfolding m tok(2) by (simp add: image_image member_of_def)
  then have "\<nexists>p. caller_of sha st' header' p" using tok(1) by (simp add: caller_of_map)
  then show ?thesis
    using with_caller_unknown [OF parts h env] h m \<open>q = p\<close>
    unfolding handle_peers_def handle_remove_def by blast
qed

theorem removed_token_is_dead_witness:
  "handle_peers ascii_unicode sample_sha sample_env 1300 sample_header sample_removed_disk
      = (error_response unauthorized, sample_removed_disk)
   \<and> handle_remove ascii_unicode sample_sha sample_env 1300 sample_header (lit ''laptop'') sample_removed_disk
      = (error_response unauthorized, sample_removed_disk)
   \<and> (\<exists>st'. holds ascii_unicode sample_removed_disk st'
        \<and> map member_of (st_peers st') = map member_of (remove1 sample_peer (st_peers sample_joined)))"
  by (rule removed_token_is_dead [OF sample_parts sample_joined_holds _ sample_remove])
    (simp_all add: i64_defs sample_joined_def sample_name_laptop sample_header_token env_fine_def sample_env_def
      sample_peer_def)

text \<open>
  C10. A wrong code, a used code, an expired code and a code that was never issued are refused with
  the same answer: with a good name and key, a request gets the one error \<open>invalid_code\<close> exactly when
  no stored code it spells is usable.
\<close>

theorem code_refusals_alike:
  assumes "state_safe st" "device_name_parse u (jq_name rq) = Inr n" "parse_key (jq_public_key rq) = Inr k"
  shows "fst (decide_join u rq token h now st) = Inl (api_error_new EcInvalidCode INVALID_CODE) \<longleftrightarrow>
    (\<forall>issued \<in> set (st_codes st). join_code_parse (jq_code rq) = Inr (ic_code issued) \<longrightarrow>
       ic_used_at issued \<noteq> None \<or> ic_expires_at issued \<le> now)"
  using decide_join_bad_code [OF assms]
  by (auto simp: code_open_def issued_usable_iff)

theorem code_refusals_alike_witness:
  "fst (decide_join ascii_unicode sample_request sample_token (hash_token sample_sha sample_token) 5000 sample_state)
     = Inl (api_error_new EcInvalidCode INVALID_CODE) \<longleftrightarrow>
    (\<forall>issued \<in> set (st_codes sample_state). join_code_parse (jq_code sample_request) = Inr (ic_code issued) \<longrightarrow>
       ic_used_at issued \<noteq> None \<or> ic_expires_at issued \<le> 5000)"
  using sample_name_parse sample_key_parse
  by (intro code_refusals_alike [OF sample_safe]) (simp_all add: sample_request_def)



section \<open>The state file\<close>

text \<open>
  C12. Round trip of the state file: every state the program can hold is read back from what
  \<open>to_json_string\<close> writes for it, also with blanks and line ends after it.
\<close>

theorem state_file_roundtrip:
  assumes "unicode_laws u" "state_typed u st" "\<forall>c \<in> set ws. c \<in> {32, 9, 10, 13}"
  shows "state_parse u (to_json_string st @ ws) = Inr st"
  by (rule state_parse_written [OF assms])

theorem state_file_roundtrip_witness:
  "state_parse ascii_unicode (to_json_string sample_state @ [13, 10]) = Inr sample_state"
  by (rule state_file_roundtrip [OF unicode_laws_ascii sample_typed]) simp

text \<open>
  C13. Whatever text the state file holds, a state that is read from it is well formed: names, codes
  and hashes have their canonical shape, times and ports fit their types, the hub has the subnet's
  .1 address; and writing it and reading it again changes nothing.
\<close>

theorem state_file_sound:
  assumes "unicode_laws u" "state_parse u t = Inr st"
  shows "state_typed u st \<and> state_parse u (to_json_string st) = Inr st"
  using state_parse_typed [OF assms] state_parse_written [OF assms(1), of st "[]"] by simp

theorem state_file_sound_witness:
  "state_typed ascii_unicode sample_joined
    \<and> state_parse ascii_unicode (to_json_string sample_joined) = Inr sample_joined"
  using sample_joined_holds by (intro state_file_sound [OF unicode_laws_ascii]) (auto simp: holds_def)

text \<open>
  C14. Versions. A file of schema 1 is read as one whose certificate was given by hand and that has
  no Cloudflare settings, and is written back as schema 2; a file of any other schema than 1 and 2
  is refused by its number before anything else of it is looked at.
\<close>

theorem state_versions:
  assumes "unicode_laws u" "json_parse u t = Inr (JObj obj)" "obj_get obj (lit ''version'') = Some (JInt n)"
  shows "(n \<notin> {LEGACY_SCHEMA_VERSION, SCHEMA_VERSION} \<longrightarrow> state_parse u t = Inl (UnsupportedVersion n))
    \<and> (\<forall>st. n = LEGACY_SCHEMA_VERSION \<longrightarrow> state_parse u t = Inr st \<longrightarrow>
         tls_src (st_tls st) = Manual \<and> tls_not_after (st_tls st) = None \<and> st_cloudflare st = None
         \<and> obj_get (case state_to_json st of JObj new \<Rightarrow> new) (lit ''version'') = Some (JInt SCHEMA_VERSION)
         \<and> state_parse u (to_json_string st) = Inr st)"
proof (intro conjI impI allI)
  assume "n \<notin> {LEGACY_SCHEMA_VERSION, SCHEMA_VERSION}"
  with assms show "state_parse u t = Inl (UnsupportedVersion n)"
    by (simp add: state_parse_def state_from_json_def int_field_Inr [THEN iffD2])
next
  fix st
  assume n: "n = LEGACY_SCHEMA_VERSION" and st: "state_parse u t = Inr st"
  then have "state_from_json u (JObj obj) = Inr st" using assms(2) by (simp add: state_parse_def)
  then have "tls_from_json u obj n = Inr (st_tls st)" "cloudflare_from_json obj n = Inr (st_cloudflare st)"
    using assms(3) by (auto simp: state_from_json_Inr)
  then show "tls_src (st_tls st) = Manual" "tls_not_after (st_tls st) = None" "st_cloudflare st = None"
    by (auto simp: n tls_from_json_legacy tls_manual_def cloudflare_from_json_def)
  show "obj_get (case state_to_json st of JObj new \<Rightarrow> new) (lit ''version'') = Some (JInt SCHEMA_VERSION)"
    by (simp add: state_to_json_def value_obj_def)
  show "state_parse u (to_json_string st) = Inr st"
    using state_parse_written [OF assms(1) state_parse_typed [OF assms(1) st], of "[]"] by simp
qed

theorem state_versions_witness:
  "tls_src (st_tls (sample_state\<lparr>st_codes := []\<rparr>)) = Manual
    \<and> state_parse ascii_unicode (to_json_string (sample_state\<lparr>st_codes := []\<rparr>))
        = Inr (sample_state\<lparr>st_codes := []\<rparr>)"
proof -
  have "obj_get sample_legacy (lit ''version'') = Some (JInt LEGACY_SCHEMA_VERSION)"
    by (simp add: sample_legacy_def LEGACY_SCHEMA_VERSION_def)
  from state_versions [OF unicode_laws_ascii sample_legacy_json this] sample_legacy_read
  show ?thesis by blast
qed

section \<open>JSON and the wire\<close>

text \<open>
  C15. The JSON round trip and where it ends: a value that can be written comes back from its compact
  text, and from its indented text with blanks after it, exactly when it is nested at most 64 deep.
\<close>

theorem json_roundtrip_iff:
  assumes "wf_json v" "\<forall>c \<in> set ws. c \<in> {32, 9, 10, 13}"
  shows "(json_parse u (to_string v) = Inr v \<longleftrightarrow> json_depth v \<le> MAX_DEPTH)
    \<and> (json_parse u (to_string_pretty v @ ws) = Inr v \<longleftrightarrow> json_depth v \<le> MAX_DEPTH)"
  using json_parse_written [OF assms(1) _ assms(2), of u "Some 2"] json_parse_written [OF assms(1), of "[]" u None]
    json_parse_sound
  by (auto simp: to_string_def to_string_pretty_def)

theorem json_roundtrip_iff_witness:
  "(json_parse ascii_unicode (to_string (JArr [JInt 1, JStr [10]])) = Inr (JArr [JInt 1, JStr [10]])
      \<longleftrightarrow> json_depth (JArr [JInt 1, JStr [10]]) \<le> MAX_DEPTH)
    \<and> (json_parse ascii_unicode (to_string_pretty (JArr [JInt 1, JStr [10]]) @ [10]) = Inr (JArr [JInt 1, JStr [10]])
      \<longleftrightarrow> json_depth (JArr [JInt 1, JStr [10]]) \<le> MAX_DEPTH)"
  by (rule json_roundtrip_iff) (simp_all add: i64_defs)

text \<open>
  C16. Whatever text is parsed, a value that comes out holds only valid strings, integers of 64 bits
  and objects without a repeated key, is at most 64 deep, and is what its own text parses to.
\<close>

theorem json_parser_sound:
  assumes "json_parse u s = Inr v"
  shows "wf_json v \<and> json_depth v \<le> MAX_DEPTH \<and> json_parse u (to_string v) = Inr v"
  using json_parse_sound [OF assms] json_parse_written [of v "[]" u None] by (simp add: to_string_def)

theorem json_parser_sound_witness:
  "wf_json (join_request_to_json sample_request)
    \<and> json_depth (join_request_to_json sample_request) \<le> MAX_DEPTH
    \<and> json_parse ascii_unicode (to_string (join_request_to_json sample_request))
      = Inr (join_request_to_json sample_request)"
  by (rule json_parser_sound [where s = "to_string (join_request_to_json sample_request)"])
    (rule join_request_codec.parse_written, simp add: join_request_ok_def sample_request_def)

text \<open>
  C17. The roster \<open>GET /peers\<close> answers with is read as it was written, and the four fields about the
  hub are taken together or not at all: a message with some but not all of them is an error.
\<close>

theorem peers_response_wire:
  assumes "peers_response_ok r"
  shows "read_body u peers_response_from_json (to_string (peers_response_to_json r)) = Some r
    \<and> (\<forall>obj r'. peers_response_from_json (JObj obj) = Inr r' \<longrightarrow>
         (pr_hub r' = None \<longleftrightarrow> (\<exists>name \<in> set HUB_FIELDS. obj_get obj name = None))
       \<and> (pr_hub r' = None \<longleftrightarrow> (\<forall>name \<in> set HUB_FIELDS. obj_get obj name = None)))"
proof (intro conjI allI impI)
  show "read_body u peers_response_from_json (to_string (peers_response_to_json r)) = Some r"
    by (rule read_peers_response [OF assms])
next
  fix obj r'
  assume "peers_response_from_json (JObj obj) = Inr r'"
  then have "hub_from_fields obj = Some (Inr (pr_hub r'))"
    by (auto simp: peers_response_from_json_def attempt_eq_Inr the_hub_Inr)
  then have h: "case pr_hub r' of
       None \<Rightarrow> \<forall>name \<in> set HUB_FIELDS. obj_get obj name = None
     | Some h \<Rightarrow> \<forall>name \<in> set HUB_FIELDS. obj_get obj name \<noteq> None"
    unfolding hub_from_fields_iff by (auto simp: HUB_FIELDS_def split: option.splits)
  have "HUB_FIELDS \<noteq> []" by (simp add: HUB_FIELDS_def)
  with h show "pr_hub r' = None \<longleftrightarrow> (\<exists>name \<in> set HUB_FIELDS. obj_get obj name = None)"
    by (cases "pr_hub r'") (auto intro: list.set_sel(1))
  from h \<open>HUB_FIELDS \<noteq> []\<close> show "pr_hub r' = None \<longleftrightarrow> (\<forall>name \<in> set HUB_FIELDS. obj_get obj name = None)"
    by (cases "pr_hub r'") (auto intro: list.set_sel(1))
qed

theorem peers_response_wire_witness:
  "read_body ascii_unicode peers_response_from_json (to_string (peers_response_to_json (decide_peers sample_joined)))
    = Some (decide_peers sample_joined)"
  using peers_response_wire [OF decide_peers_ok [OF holds_typed [OF unicode_laws_ascii sample_joined_holds]]]
  by blast

section \<open>Codes, names, tokens, addresses\<close>

text \<open>
  C18. A join code may be typed with any case, blanks and hyphens: a text is accepted exactly when what
  is left without them, in upper case, is eight characters of the alphabet; it is then printed in the
  one canonical form of nine characters, which is accepted again.
\<close>

theorem join_code_normal_form:
  "(join_code_parse s = Inr c \<longleftrightarrow> length (significant s) = 8 \<and> set (significant s) \<subseteq> set ALPHABET
      \<and> code_str c = take 4 (significant s) @ 45 # drop 4 (significant s))
   \<and> ((\<exists>s'. join_code_parse s' = Inr c) \<longleftrightarrow> join_code_parse (code_str c) = Inr c)"
proof (intro conjI)
  show "join_code_parse s = Inr c \<longleftrightarrow> length (significant s) = 8 \<and> set (significant s) \<subseteq> set ALPHABET
      \<and> code_str c = take 4 (significant s) @ 45 # drop 4 (significant s)"
    by (cases c) (auto simp: join_code_parse_iff hyphenate_def GROUP_LEN_def)
  show "(\<exists>s'. join_code_parse s' = Inr c) \<longleftrightarrow> join_code_parse (code_str c) = Inr c"
    using code_text.accepted_iff_ok code_text.parse_shown by blast
qed



text \<open>
  C20. \<open>anago code\<close> never hands out a code that is stored already, writes what it prints, and the code
  it issued can be redeemed for 15 minutes.
\<close>

theorem issued_code_is_new:
  assumes u: "unicode_laws u" and d: "holds u d st" and safe: "state_safe st"
    and now: "in_i64 now" "now + DEFAULT_TTL_SECS < 2 ^ 63"
    and draw: "\<forall>i c. draw i = Inr c \<longrightarrow> code_ok c" and run: "run_code u env draw now d = (Inr out, d')"
  shows "\<exists>code st'. code \<notin> ic_code ` set (st_codes st) \<and> holds u d' st' \<and> state_safe st'
    \<and> st_codes st' = st_codes st @ [issue_code code now DEFAULT_TTL_SECS]
    \<and> out = code_output (st_domain st) code DEFAULT_TTL_SECS
    \<and> (\<forall>t. issued_usable (last (st_codes st')) t \<longleftrightarrow> t < now + 900)"
proof -
  from run obtain st1 code where lock: "store_lock u env d = Inr st1"
    and code: "choose_unused st1 draw MAX_DRAWS = Inr code"
    and d': "d' = Some (to_json_string (snd (issue code now DEFAULT_TTL_SECS st1)))"
    and out: "out = code_output (st_domain st1) code DEFAULT_TTL_SECS"
    by (auto simp: run_code_def Let_def store_write_Inr issue_def issue_code_def
        split: sum.splits prod.splits)
  have st1: "st1 = st" by (rule holds_fun [OF d store_lock_holds [OF lock]])
  let ?st' = "snd (issue code now DEFAULT_TTL_SECS st)"
  from code have new: "code \<notin> ic_code ` set (st_codes st)" and drawn: "\<exists>j. draw j = Inr code"
    unfolding st1 choose_unused_def by (blast dest: choose_loop_Inr)+
  then have "good_change u st ?st'"
    using good_issue [OF holds_typed [OF u d] safe now(1)] draw by blast
  then have "holds u d' ?st'" "state_safe ?st'"
    using holds_written [OF u] d' st1 by (auto simp: good_change_def)
  moreover have "st_codes ?st' = st_codes st @ [issue_code code now DEFAULT_TTL_SECS]"
    by (simp add: issue_def Let_def)
  moreover have "issued_usable (issue_code code now DEFAULT_TTL_SECS) t \<longleftrightarrow> t < now + 900" for t
    using now by (auto simp: issued_usable_iff issue_code_def expiry_def DEFAULT_TTL_SECS_def i64_defs)
  ultimately show ?thesis using new out st1 by (metis last_snoc)
qed

theorem issued_code_is_new_witness:
  "\<exists>code st'. code \<notin> ic_code ` set (st_codes sample_state)
    \<and> holds ascii_unicode (Some (to_json_string (snd (issue sample_code2 1200 DEFAULT_TTL_SECS sample_state)))) st'
    \<and> state_safe st'
    \<and> st_codes st' = st_codes sample_state @ [issue_code code 1200 DEFAULT_TTL_SECS]
    \<and> code_output (lit ''net.example.com'') sample_code2 DEFAULT_TTL_SECS
        = code_output (st_domain sample_state) code DEFAULT_TTL_SECS
    \<and> (\<forall>t. issued_usable (last (st_codes st')) t \<longleftrightarrow> t < 1200 + 900)"
  by (rule issued_code_is_new [OF unicode_laws_ascii sample_holds sample_safe _ _ sample_draw_ok sample_run_code])
    (simp_all add: i64_defs DEFAULT_TTL_SECS_def)

text \<open>
  C21. A device name has one spelling: what is accepted is trimmed and lower case, 1 to 32 characters
  of letters, digits, hyphens and underscores with a letter or digit at both ends, not the reserved
  name, and is accepted again as it is; no text makes the parser panic.
\<close>

theorem device_name_canonical:
  assumes "unicode_laws u"
  shows "(device_name_parse u s = Inr n \<longrightarrow> device_name_parse u (name_str n) = Inr n
        \<and> name_str n = u_lower u (trim s) \<and> 1 \<le> length (name_str n) \<and> length (name_str n) \<le> 32
        \<and> (\<forall>c \<in> set (name_str n). is_allowed u c) \<and> u_alnum u (hd (name_str n))
        \<and> u_alnum u (last (name_str n)) \<and> name_str n \<noteq> lit ''server'')
    \<and> device_name_parse u s \<noteq> Inl NameExpectFailed"
proof (intro conjI impI)
  assume p: "device_name_parse u s = Inr n"
  show "device_name_parse u (name_str n) = Inr n"
    using device_name_parse_ok [OF assms p] by (simp only: name_ok_def)
  note f = p [unfolded device_name_parse_Inr]
  from f show "name_str n = u_lower u (trim s)" "length (name_str n) \<le> 32"
    "\<forall>c \<in> set (name_str n). is_allowed u c" "u_alnum u (hd (name_str n))"
    "u_alnum u (last (name_str n))" "name_str n \<noteq> lit ''server''" by blast+
  from f have "name_str n \<noteq> []" by blast
  then show "1 \<le> length (name_str n)" by (simp add: Suc_le_eq)
qed (rule device_name_parse_no_panic [OF assms])

theorem device_name_canonical_witness:
  "device_name_parse ascii_unicode (lit ''laptop'') = Inr (DeviceName (lit ''laptop''))
    \<and> length (lit ''laptop'') \<le> 32"
  using device_name_canonical [OF unicode_laws_ascii, of "lit ''Laptop''" "DeviceName (lit ''laptop'')"]
    sample_name_parse unfolding device_name.sel by blast

text \<open>
  C22. Tokens: 32 random bytes give 64 lower-case hexadecimal digits that the parser takes, and two
  different draws give two different tokens, so none of the randomness is lost.
\<close>

theorem token_hex_faithful:
  assumes "length as = TOKEN_BYTES" "length bs = TOKEN_BYTES"
  shows "token_parse (token_str (token_from_bytes as)) = Inr (token_from_bytes as)
    \<and> (token_from_bytes as = token_from_bytes bs \<longleftrightarrow> as = bs)"
  using to_hex_ok [OF assms(1)] token_text.parse_shown [of "token_from_bytes as"]
  by (simp add: token_from_bytes_def to_hex_inject)

theorem token_hex_faithful_witness:
  "token_from_bytes (replicate 32 7) \<noteq> token_from_bytes (replicate 31 7 @ [8])"
proof -
  have "length (replicate 32 (7 :: u8)) = TOKEN_BYTES" "length (replicate 31 (7 :: u8) @ [8]) = TOKEN_BYTES"
    by (simp_all add: TOKEN_BYTES_def)
  from token_hex_faithful [OF this] show ?thesis by (simp add: numeral_eq_Suc)
qed

text \<open>
  C23. Equivalence. The comparison that runs in constant time, which combines the differences of all
  bytes before it looks at them, decides equality of the two byte strings and nothing else.
\<close>

theorem constant_time_is_equality:
  "constant_time_eq a b \<longleftrightarrow> a = b"
  by (rule constant_time_eq_iff)

text \<open>
  C24. The allocator gives the least address of the subnet from .2 to .254 that is not in use, and gives
  none exactly when all 253 are in use; so it never fails with fewer devices, whatever else the list
  of used addresses holds.
\<close>

theorem allocation_is_least_free:
  "(subnet_allocate s used = Some a \<longleftrightarrow> a \<in> usable_addresses s \<and> a \<notin> set used
      \<and> (\<forall>b \<in> usable_addresses s. b \<in> set used \<or> a \<le> b))
   \<and> (subnet_allocate s used = None \<longleftrightarrow> usable_addresses s \<subseteq> set used)
   \<and> card (usable_addresses s) = 253"
proof -
  let ?free = "usable_addresses s - set used"
  have "subnet_allocate s used = Some a \<longleftrightarrow> ?free \<noteq> {} \<and> Min ?free = a"
    by (auto simp: subnet_allocate_least)
  also have "\<dots> \<longleftrightarrow> a \<in> ?free \<and> (\<forall>b \<in> ?free. a \<le> b)"
    using Min_eq_iff [of ?free a] by auto
  finally show ?thesis using card_usable subnet_pool.alloc_None_iff by blast
qed

theorem allocation_is_least_free_witness:
  "subnet_allocate (Subnet (Ipv4 10 100 0 0)) [Ipv4 10 100 0 2] = Some (Ipv4 10 100 0 3)"
proof -
  let ?s = "Subnet (Ipv4 10 100 0 0)"
  have "Ipv4 10 100 0 3 = address_of ?s 3" "Ipv4 10 100 0 2 = address_of ?s 2" by simp_all
  moreover have "address_of ?s x = address_of ?s 2 \<or> address_of ?s 3 \<le> address_of ?s x" if "2 \<le> unat x" for x
    using that unat_inject [of x 2] by (auto simp del: address_of.simps simp: address_of_mono)
  ultimately show ?thesis
    using allocation_is_least_free [of ?s "[Ipv4 10 100 0 2]" "Ipv4 10 100 0 3"]
    by (auto simp: usable_addresses_def)
qed

text \<open>
  C25. Addresses and subnets read back as they are printed, a text is only ever read as a /24 whose
  last octet is 0, and the hub's own address is never one that is handed out.
\<close>

theorem subnet_text_roundtrip:
  "(subnet_ok s \<longleftrightarrow> subnet_parse (subnet_show s) = Inr s) \<and> ipv4_parse (ipv4_show a) = Some a
   \<and> (subnet_ok s \<longleftrightarrow> (\<exists>t. subnet_parse t = Inr s)) \<and> server_address s \<notin> usable_addresses s"
  using subnet_text.accepted_iff_ok [of s] subnet_text.parse_shown subnet_text.parse_ok server_address_not_usable
  by auto

section \<open>DNS, certificates and the tunnel\<close>

text \<open>
  C26. \<open>init\<close> never overwrites a record it should not: it writes to a record exactly when that is the
  only A record of the name, is not proxied, no CNAME answers beside it, and the record id it
  remembers does not belong to a record of another kind; it creates one only when the name has no
  A record and no CNAME.
\<close>

theorem dns_writes_are_safe:
  "((\<exists>adopted. dns_decide records desired cached = Update i adopted)
      \<longleftrightarrow> (\<exists>r. filter is_a records = [r] \<and> i = dr_id r \<and> \<not> dr_proxied r \<and> \<not> points_at r desired
           \<and> (\<forall>c \<in> set records. \<not> is_cname c) \<and> cached_is_a records cached))
   \<and> (dns_decide records desired cached = Create
      \<longleftrightarrow> (\<forall>r \<in> set records. \<not> is_a r \<and> \<not> is_cname r) \<and> cached_is_a records cached)"
  using dns_decide_update_iff [of records desired cached i] dns_decide_create_iff [of records desired cached]
  by (auto simp: writable_def)

theorem dns_writes_are_safe_witness:
  "dns_decide [] (Ipv4 1 2 3 4) None = Create"
  using dns_writes_are_safe [of "[]" "Ipv4 1 2 3 4" None "[]"] by (simp add: cached_is_a_def)

text \<open>
  C27. The decision converges: after the write it asked for, deciding again on what the zone then holds
  asks for nothing, whether the record was created or updated.
\<close>

theorem dns_decision_converges:
  assumes "distinct (map dr_id records)"
  shows "(dns_decide records desired cached = Update i adopted \<longrightarrow>
      dns_decide (with_content i (ipv4_show desired) records) desired (Some i) = Unchanged i)
   \<and> (dns_decide records desired cached = Create \<longrightarrow> i \<notin> dr_id ` set records \<longrightarrow>
      dns_decide (records @ [record_a i (ipv4_show desired)]) desired (Some i) = Unchanged i)"
  using update_converges [OF assms] create_converges by blast

theorem dns_decision_converges_witness:
  "dns_decide (with_content [49] (ipv4_show (Ipv4 1 2 3 4)) [record_a [49] (lit ''5.6.7.8'')]) (Ipv4 1 2 3 4) (Some [49])
    = Unchanged [49]"
proof -
  have "dns_decide [record_a [49] (lit ''5.6.7.8'')] (Ipv4 1 2 3 4) None = Update [49] True"
    by (simp add: dns_decide_def decide_a_record_def record_a_def is_a_def is_cname_def eq_ignore_case_def
        points_at_def lit_Cons ascii_lower_def is_upper_def trim_def trim_start_def trim_end_def is_ws_def
        ipv4_parse_def octet_parse_def is_digit_def dec_value_def byte_def)
  then show ?thesis
    using dns_decision_converges [of "[record_a [49] (lit ''5.6.7.8'')]" "Ipv4 1 2 3 4" None "[49]" True]
    by (simp del: ipv4_show.simps)
qed

text \<open>
  C28. \<open>sync\<close> converges and never moves a device: it detaches exactly when the hub serves another
  subnet or no longer lists the device at its address, it reports no change exactly when the three
  values about the hub agree, and after the rewrite it asks for there is nothing left to do.
\<close>

theorem sync_converges:
  "((\<exists>d. sync_decide loc rep roster = Detached d) \<longleftrightarrow> \<not> fits loc rep roster)
   \<and> (sync_decide loc rep roster = SyncUnchanged \<longleftrightarrow>
       fits loc rep roster \<and> (\<exists>r. rep = Some r \<and> hub_matches loc r))
   \<and> (\<forall>c. sync_decide loc rep roster = Rewrite c \<longrightarrow>
       (\<exists>r. rep = Some r \<and> sync_decide (adopt loc r) rep roster = SyncUnchanged
          \<and> l_name (adopt loc r) = l_name loc \<and> l_address (adopt loc r) = l_address loc))"
proof -
  have r: "\<exists>r. rep = Some r" if "sync_compare loc rep = Rewrite c" for c
    using that by (auto simp: sync_compare_def split: option.splits)
  show ?thesis
  proof (cases "fits loc rep roster")
    case True
    then show ?thesis
      using sync_compare_not_detached sync_compare_unchanged r fits_adopt hub_matches_adopt
      by (auto simp: sync_decide_fits adopt_def)
  next
    case False
    with sync_decide_misfit [OF False] show ?thesis by auto
  qed
qed

theorem sync_converges_witness:
  "\<exists>r. Some sample_reported = Some r
    \<and> sync_decide (adopt sample_local r) (Some sample_reported) [\<lparr>m_name = DeviceName (lit ''laptop''), m_address = Ipv4 10 100 0 2\<rparr>]
      = SyncUnchanged
    \<and> l_name (adopt sample_local r) = l_name sample_local \<and> l_address (adopt sample_local r) = l_address sample_local"
proof -
  have "sync_decide sample_local (Some sample_reported) [\<lparr>m_name = DeviceName (lit ''laptop''), m_address = Ipv4 10 100 0 2\<rparr>]
      = Rewrite \<lparr>ch_public_key = False, ch_endpoint = True, ch_address = False\<rparr>"
    by (simp add: sync_decide_def sync_roster_def sync_compare_def sample_local_def sample_reported_def
        changes_any_def lit_Cons)
  then show ?thesis using sync_converges by blast
qed

text \<open>
  C29. When a certificate is renewed: one that was given by hand never is; one that anago issued is due
  from its planned time on or from \<open>lead\<close> seconds before it expires, whichever is first, and once due
  it stays due.
\<close>

theorem renewal_due_iff:
  "(tls_needs_renewal t now lead \<longleftrightarrow>
      (\<exists>acme. tls_src t = Acme acme
         \<and> (ac_renew_after acme \<le> now
           \<or> (\<exists>e. tls_not_after t = Some e \<and> sat_sub e (max lead 0) \<le> now))))
   \<and> (tls_needs_renewal t now lead \<longrightarrow> now \<le> later \<longrightarrow> tls_needs_renewal t later lead)"
  using tls_needs_renewal_mono [of t now lead later]
  by (auto simp: tls_needs_renewal_iff needs_renewal_def safety_net_at_def)

theorem renewal_due_iff_witness:
  "tls_needs_renewal (tls_acme [] [] \<lparr>ac_directory = [], ac_contact = None, ac_account_key_path = [],
      ac_account_url = [], ac_challenge = Http01, ac_issued_at = 0, ac_renew_after = 100\<rparr>) 200 0"
proof -
  have "tls_needs_renewal (tls_acme [] [] \<lparr>ac_directory = [], ac_contact = None, ac_account_key_path = [],
      ac_account_url = [], ac_challenge = Http01, ac_issued_at = 0, ac_renew_after = 100\<rparr>) 150 0"
    by (simp add: tls_needs_renewal_def tls_renewal_due_def tls_renewable_def tls_acme_def renewal_due_def)
  then show ?thesis using renewal_due_iff [where now = 150 and later = 200] by simp
qed

text \<open>
  C30. The plan made when a certificate is issued is two thirds into its lifetime, never before the issue
  and never after the expiry, also at the ends of the 64-bit range; for a lifetime of three weeks or
  more it comes no later than the safety net of seven days.
\<close>

theorem renewal_plan_bounds:
  assumes "in_i64 at" "in_i64 e" "at \<le> e"
  shows "at \<le> renew_after at (Some e) \<and> renew_after at (Some e) \<le> e
    \<and> (0 \<le> at \<longrightarrow> e \<le> 2 ^ 61 \<longrightarrow> renew_after at (Some e) = at + 2 * (e - at) div 3
        \<and> (3 * RENEWAL_LEAD_SECS \<le> e - at \<longrightarrow>
             renewal_due (renew_after at (Some e)) (Some e) RENEWAL_LEAD_SECS = renew_after at (Some e)))"
  using renew_after_bounds [OF assms] renew_after_two_thirds issued_plan_before_net(1) assms(3) by blast

theorem renewal_plan_bounds_witness:
  "renew_after 1000 (Some 7777000) = 1000 + 2 * (7777000 - 1000) div 3
    \<and> renewal_due (renew_after 1000 (Some 7777000)) (Some 7777000) RENEWAL_LEAD_SECS = renew_after 1000 (Some 7777000)"
  using renewal_plan_bounds [of 1000 7777000]
  by (simp add: i64_defs RENEWAL_LEAD_SECS_def DAY_SECS_def del: One_nat_def) metis

text \<open>
  C31. What \<open>wg syncconf\<close> is given on a machine without \<open>wg-quick\<close>: for every state whose key, names and
  peer keys have no line break, stripping the generated file removes the \<open>Address\<close> line and nothing
  else, so every peer keeps its section.
\<close>

theorem strip_keeps_peers:
  assumes "config_plain st"
  shows "expose (server_config st) = unlines
      (lit ''[Interface]'' # banner # address_line (sk_address (st_server st)) # server_head st
        @ concat (map peer_lines (st_peers st)))
    \<and> strip_quick_keys (expose (server_config st)) = unlines
      (lit ''[Interface]'' # banner # server_head st @ concat (map peer_lines (st_peers st)))"
  using server_config_lines strip_server_config [OF assms] by blast

theorem strip_keeps_peers_witness:
  "strip_quick_keys (expose (server_config sample_joined)) = unlines
      (lit ''[Interface]'' # banner # server_head sample_joined @ concat (map peer_lines (st_peers sample_joined)))"
proof -
  have "config_plain sample_joined"
    using plain_line_key [OF key_ok_sample]
    by (simp add: config_plain_def sample_joined_def sample_state_def sample_peer_def lit_Cons)
  from strip_keeps_peers [OF this] show ?thesis by blast
qed

text \<open>
  C32. The private key in a device's generated configuration, and in the profile exported for a phone,
  is the one \<open>private_key_line\<close> finds in it.
\<close>

theorem config_keeps_key:
  assumes "key_ok (private_key_str (cp_private_key p))"
  shows "private_key_line (expose (client_config p)) = Some (private_key_str (cp_private_key p))
    \<and> private_key_line (expose (export_profile p)) = Some (private_key_str (cp_private_key p))"
  using private_key_of_client_config [OF assms] by blast

theorem config_keeps_key_witness:
  "private_key_line (expose (client_config \<lparr>cp_address = Ipv4 10 100 0 2, cp_subnet = Subnet (Ipv4 10 100 0 0),
      cp_private_key = PrivateKey sample_key, cp_server_public_key = sample_key,
      cp_server_endpoint = lit ''net.example.com:51820''\<rparr>)) = Some sample_key"
  using config_keeps_key [of "\<lparr>cp_address = Ipv4 10 100 0 2, cp_subnet = Subnet (Ipv4 10 100 0 0),
      cp_private_key = PrivateKey sample_key, cp_server_public_key = sample_key,
      cp_server_endpoint = lit ''net.example.com:51820''\<rparr>"] key_ok_sample
  by simp

text \<open>
  C33. A push that fails leaves the memory of the last successful push as it was. So going back to the
  configuration of that earlier push counts as done already: the next call reports success and
  leaves the kernel as the failed push left it, whatever that is.
\<close>

theorem stale_after_failure:
  assumes "apply_state env path sp st1 ap = (Inl e, ap1)"
    and "ap_last_applied ap = Some (expose (server_config st0))"
    and "env_up env'" "env_write env' = None"
  shows "fst (apply_state env' path sp st0 ap1) = Inr ()
    \<and> ap_kernel (snd (apply_state env' path sp st0 ap1)) = ap_kernel ap1"
  using apply_failure_keeps_last [OF assms(1)] assms(2-4)
  by (simp add: apply_state_def write_config_def plan_def Let_def)

theorem stale_after_failure_witness:
  "\<exists>ap1. fst (apply_state sample_sync_fails config_path stripped_path sample_joined sample_applier) \<noteq> Inr ()
    \<and> ap1 = snd (apply_state sample_sync_fails config_path stripped_path sample_joined sample_applier)
    \<and> ap_kernel ap1 = Some (lit ''half'')
    \<and> fst (apply_state sample_sync_works config_path stripped_path sample_state ap1) = Inr ()
    \<and> ap_kernel (snd (apply_state sample_sync_works config_path stripped_path sample_state ap1)) = Some (lit ''half'')"
proof -
  obtain ap1 where f: "apply_state sample_sync_fails config_path stripped_path sample_joined sample_applier
      = (Inl (WgFailed [] None []), ap1)" and k: "ap_kernel ap1 = Some (lit ''half'')"
    using sample_sync_failed by blast
  have "fst (apply_state sample_sync_works config_path stripped_path sample_state ap1) = Inr ()
    \<and> ap_kernel (snd (apply_state sample_sync_works config_path stripped_path sample_state ap1)) = ap_kernel ap1"
    by (rule stale_after_failure [OF f])
      (simp_all add: sample_applier_def sample_sync_works_def sample_sync_fails_def sample_apply_env_def Let_def)
  with f k show ?thesis by simp
qed

text \<open>
  C34. Challenge tokens: what the ACME server sends is taken only when it is 1 to 255 base64url
  characters, so it stays one segment of the path that is served for it, and the key authorization
  determines the token and the thumbprint it was made of.
\<close>

theorem key_authorization_determines:
  assumes "challenge_parse s = Inr t" "challenge_parse s' = Inr t'"
  shows "split_on 47 (http01_path t) = [[], lit ''.well-known'', lit ''acme-challenge'', s]
    \<and> (key_authorization t p = key_authorization t' p' \<longleftrightarrow> s = s' \<and> p = p')"
proof -
  have ok: "challenge_ok t" "challenge_ok t'" using assms challenge_text.parse_ok by blast+
  have "challenge_str t = s" "challenge_str t' = s'"
    using assms by (auto simp: challenge_parse_def split: if_splits option.splits)
  then show ?thesis
    using http01_path_segments [OF ok(1)] key_authorization_inject [OF ok, of p p']
    by (metis challenge_token.expand)
qed

theorem key_authorization_determines_witness:
  "split_on 47 (http01_path (ChallengeToken (lit ''abc_1'')))
      = [[], lit ''.well-known'', lit ''acme-challenge'', lit ''abc_1'']"
proof -
  have "challenge_parse (lit ''abc_1'') = Inr (ChallengeToken (lit ''abc_1''))"
    by (rule challenge_text.parse_shown [of "ChallengeToken (lit ''abc_1'')", simplified])
      (simp add: challenge_ok_def is_base64url_def char_class_defs lit_Cons)
  from key_authorization_determines [OF this this] show ?thesis by blast
qed

section \<open>Certificates\<close>

text \<open>
  C35. The calendar behind certificate dates: 1970-01-01 is day 0, the day after any date of the
  proleptic Gregorian calendar, before the epoch or after it, has the next number, and leap years
  are the ones of the Gregorian rule.
\<close>

theorem calendar_counts_days:
  assumes "date_ok y m d"
  shows "day_number (1970, 1, 1) = 0 \<and> day_number (next_date (y, m, d)) = day_number (y, m, d) + 1
    \<and> (days_in_month y 2 = 29 \<longleftrightarrow> 4 dvd y \<and> (\<not> 100 dvd y \<or> 400 dvd y))"
  using day_number_next [OF assms] epoch by (simp add: days_in_month_def is_leap_iff)

theorem calendar_counts_days_witness:
  "day_number (next_date (1900, 2, 28)) = day_number (1900, 2, 28) + 1 \<and> next_date (1900, 2, 28) = (1900, 3, 1)"
proof -
  have l: "\<not> is_leap 1900" by (simp add: is_leap_iff)
  have "date_ok 1900 2 28" by (simp add: date_ok_def days_in_month_def l)
  from calendar_counts_days [OF this] show ?thesis by (simp add: days_in_month_def l del: day_number.simps)
qed

text \<open>
  C36. The times a certificate may state: a UTCTime is exactly \<open>YYMMDDhhmmssZ\<close>, its years 1950 to
  2049, a GeneralizedTime exactly \<open>YYYYMMDDhhmmssZ\<close>, the date one that exists and the clock one a
  day has (a leap second included); nothing else is a time, and the value is the Unix time.
\<close>

theorem certificate_time_iff:
  "x509_time tag t = Some n \<longleftrightarrow>
    (\<exists>yy < 100. \<exists>mo da ho mi se. tag = UTC_TIME \<and> t = two yy @ stamp mo da ho mi se
       \<and> clock_ok (utc_year yy) mo da ho mi se \<and> n = seconds_of (utc_year yy) mo da ho mi se)
    \<or> (\<exists>cc < 100. \<exists>yy < 100. \<exists>mo da ho mi se. tag = GENERALIZED_TIME \<and> t = two cc @ two yy @ stamp mo da ho mi se
       \<and> clock_ok (int (cc * 100 + yy)) mo da ho mi se \<and> n = seconds_of (int (cc * 100 + yy)) mo da ho mi se)"
proof -
  consider "tag = UTC_TIME" | "tag = GENERALIZED_TIME" | "tag \<noteq> UTC_TIME" "tag \<noteq> GENERALIZED_TIME" by blast
  then show ?thesis
  proof cases
    case 1
    then have "tag \<noteq> GENERALIZED_TIME" by (simp add: UTC_TIME_def GENERALIZED_TIME_def)
    with 1 show ?thesis using utc_time_iff [of t n] by simp
  next
    case 2
    then have "tag \<noteq> UTC_TIME" by (simp add: UTC_TIME_def GENERALIZED_TIME_def)
    with 2 show ?thesis using generalized_time_iff [of t n] by simp
  next
    case 3
    then show ?thesis by (simp add: x509_time_def split: option.splits)
  qed
qed

theorem certificate_time_iff_witness:
  "x509_time UTC_TIME (two 24 @ stamp 2 29 12 30 0) = Some (seconds_of 2024 2 29 12 30 0)
    \<and> x509_time UTC_TIME (two 24 @ stamp 2 29 12 30 0) \<noteq> Some 0"
proof -
  have l: "is_leap 2024" by (simp add: is_leap_iff)
  have "clock_ok (utc_year 24) 2 29 12 30 0"
    by (simp add: clock_ok_def utc_year_def date_ok_def days_in_month_def l)
  then have "x509_time UTC_TIME (two 24 @ stamp 2 29 12 30 0) = Some (seconds_of (utc_year 24) 2 29 12 30 0)"
    unfolding certificate_time_iff
    by (intro disjI1 exI [of _ 24] conjI exI [of _ 2] exI [of _ 29] exI [of _ 12] exI [of _ 30] exI [of _ 0]) simp_all
  moreover have "seconds_of 2024 2 29 12 30 0 \<noteq> 0"
    by (simp add: seconds_of_def days_from_civil_closed march_days_def)
  ultimately show ?thesis by (simp add: utc_year_def)
qed

text \<open>
  C37. The walk through a certificate: whatever its version, serial number, names, extensions and
  signature are, and whatever follows it, the expiry read is the second time of its validity.
\<close>

theorem expiry_is_found:
  assumes "length (certificate version serial signature issuer validity extensions outer) < 2 ^ 32"
    and "validity = der_encode t1 before @ der_encode tag after @ rest"
  shows "not_after (certificate version serial signature issuer validity extensions outer @ trailing)
    = x509_time tag after"
  by (rule not_after_certificate [OF assms])

theorem expiry_is_found_witness:
  "not_after (certificate None [1] [2] [3]
      (der_encode UTC_TIME [48] @ der_encode UTC_TIME (two 70 @ stamp 1 2 0 0 0) @ []) [] [] @ [7]) = Some 86400"
proof -
  let ?v = "der_encode UTC_TIME [48] @ der_encode UTC_TIME (two 70 @ stamp 1 2 0 0 0) @ []"
  have "length (certificate None [1] [2] [3] ?v [] []) < 2 ^ 32"
    by (simp add: certificate_def der_encode_def der_length_def two_def stamp_def)
  from expiry_is_found [OF this refl]
  have "not_after (certificate None [1] [2] [3] ?v [] [] @ [7]) = x509_time UTC_TIME (two 70 @ stamp 1 2 0 0 0)" .
  also have "\<dots> = Some 86400"
    unfolding utc_time_iff
    by (intro exI [of _ 70] conjI exI [of _ 1] exI [of _ 2] exI [of _ 0])
      (simp_all add: clock_ok_def utc_year_def date_ok_def days_in_month_def seconds_of_def days_from_civil_closed march_days_def)
  finally show ?thesis .
qed

section \<open>DNS messages\<close>

text \<open>
  C38. The TXT question and its answer. A question states its identifier and the name, and an answer
  laid out for it, the owners spelled out or pointing at the question, gives the values of the TXT
  records of the name that was asked, in order, and no other record's; an answer with another
  identifier is refused.
\<close>

theorem txt_answer_read:
  assumes asked: "txt_query i question = Inr q" and records: "\<forall>r \<in> set records. rr_ok r" "length records < 65536"
    and "length counts = 4" "length qtail = 4" "flags AND 0x80 \<noteq> 0"
  shows "take 2 q = be16 i \<and> take (length (name_wire question)) (drop 12 q) = name_wire question
    \<and> read_txt (answer_wire i' flags code counts question qtail records tail) i question =
      (if i' \<noteq> i then Inl NotOurQuestion
       else Inr \<lparr>rp_rcode = code AND 0x0F, rp_truncated = (flags AND 2 \<noteq> 0),
         rp_values = map (\<lambda>r. read_character_strings (rr_data r)) (filter (rr_answers question question) records)\<rparr>)"
proof -
  from asked obtain wire where w: "encode_name question = Inr wire"
    by (auto simp: txt_query_def attempt_def split: sum.splits)
  from encode_name_wire [OF this] have wire: "wire = name_wire question" "name_encodes question" by auto
  then have "take 2 q = be16 i \<and> take (length (name_wire question)) (drop 12 q) = name_wire question"
    using asked w by (auto simp: txt_query_def be16_def)
  then show ?thesis using read_txt_written [OF wire(2) records assms(4-6), of i'] by auto
qed

definition sample_txt :: rr where
  "sample_txt = \<lparr>rr_owner = SameName, rr_kind = TYPE_TXT, rr_class = CLASS_IN, rr_ttl = [0, 0, 0, 60],
    rr_data = [2, 104, 105]\<rparr>"

lemma sample_txt_facts:
  "rr_ok sample_txt" "encode_name (lit ''a.b'') = Inr [1, 97, 1, 98, 0]"
  "read_character_strings (rr_data sample_txt) = lit ''hi''"
proof -
  show "rr_ok sample_txt" by (simp add: rr_ok_def sample_txt_def)
  show "encode_name (lit ''a.b'') = Inr [1, 97, 1, 98, 0]" by code_simp
  show "read_character_strings (rr_data sample_txt) = lit ''hi''" unfolding sample_txt_def by code_simp
qed

theorem txt_answer_read_witness:
  "read_txt (answer_wire 7 0x80 0 [0, 0, 0, 0] (lit ''a.b'') [0, 16, 0, 1] [sample_txt] []) 7 (lit ''a.b'') =
    Inr \<lparr>rp_rcode = 0, rp_truncated = False, rp_values = [lit ''hi'']\<rparr>"
proof -
  obtain q where q: "txt_query 7 (lit ''a.b'') = Inr q"
    using sample_txt_facts(2) by (simp add: txt_query_def)
  have ok: "\<forall>r \<in> set [sample_txt]. rr_ok r" using sample_txt_facts(1) by simp
  have "rr_answers (lit ''a.b'') (lit ''a.b'') sample_txt" by (simp add: rr_answers_def sample_txt_def)
  then show ?thesis
    using txt_answer_read [OF q ok, where counts = "[0, 0, 0, 0]" and qtail = "[0, 16, 0, 1]" and flags = "0x80"
        and i' = 7 and code = 0 and tail = "[]"] sample_txt_facts(3) by simp
qed

text \<open>
  C39. An answer that stops inside a record, past its owner, is taken for the records before it,
  and it counts as complete unless the server set the truncation bit: the value that was cut off
  reads as absent.
\<close>

theorem cut_answer_is_taken:
  assumes "name_encodes question" "\<forall>r \<in> set records. rr_ok r" "rr_ok r"
    and "length records + Suc behind < 65536"
    and "length counts = 4" "length qtail = 4" "flags AND 0x80 \<noteq> 0"
    and "length (owner_wire (rr_owner r)) \<le> k" "k < length (rr_wire r)"
  shows "read_txt (answer_head i flags code (length records + Suc behind) counts question qtail
      @ concat (map rr_wire records) @ take k (rr_wire r)) i asked =
    Inr \<lparr>rp_rcode = code AND 0x0F, rp_truncated = (flags AND 2 \<noteq> 0),
       rp_values = map (\<lambda>r. read_character_strings (rr_data r)) (filter (rr_answers question asked) records)\<rparr>"
  by (rule read_txt_cut [OF assms])

theorem cut_answer_is_taken_witness:
  "read_txt (answer_head 7 0x80 0 1 [0, 0, 0, 0] (lit ''a.b'') [0, 16, 0, 1] @ take 14 (rr_wire sample_txt)) 7 (lit ''a.b'') =
    Inr \<lparr>rp_rcode = 0, rp_truncated = False, rp_values = []\<rparr>"
proof -
  have n: "name_encodes (lit ''a.b'')" using encode_name_wire sample_txt_facts(2) by blast
  have "length (owner_wire (rr_owner sample_txt)) \<le> 14" "14 < length (rr_wire sample_txt)"
    by (simp_all add: sample_txt_def rr_wire_def)
  from cut_answer_is_taken [OF n _ sample_txt_facts(1) _ _ _ _ this, where records = "[]" and behind = 0
      and counts = "[0, 0, 0, 0]" and qtail = "[0, 16, 0, 1]" and flags = "0x80" and i = 7 and code = 0
      and asked = "lit ''a.b''"]
  show ?thesis by simp
qed

end
